(* ===== verification/Prelude.thy ===== *)
theory Prelude
  imports Main "HOL-Library.Word" "HOL-Library.Monad_Syntax"
begin

text \<open>
  Shared vocabulary of the development: Rust's machine integers and their checked
  arithmetic, strings as bytes, the \<open>HashMap<K, Vec<V>>\<close> idiom of the logs, the
  iteration order of a hash map, and the generic run of a message handler.

  A panic (\<open>unwrap\<close>/\<open>expect\<close> on a missing value, arithmetic overflow in the debug
  profile that \<open>cargo run\<close> builds, \<open>todo!()\<close>) is the value \<open>None\<close>; code that can
  panic returns an option and is composed with the option monad.
\<close>

unbundle bit_operations_syntax

subsection \<open>Collections of facts\<close>

named_theorems panic_simps \<open>when an operation that can panic returns\<close>
named_theorems log_simps \<open>what an operation of a log changes and what it leaves alone\<close>
named_theorems handler_defs \<open>definitions of protocol handlers\<close>

subsection \<open>Machine integers\<close>

type_synonym u8 = "8 word"
type_synonym u16 = "16 word"
type_synonym u64 = "64 word"
type_synonym bytes = "u8 list"

definition u64_add :: "u64 \<Rightarrow> u64 \<Rightarrow> u64 option" where
  "u64_add a b = (if unat a + unat b < 2 ^ 64 then Some (a + b) else None)"

definition u64_sub :: "u64 \<Rightarrow> u64 \<Rightarrow> u64 option" where
  "u64_sub a b = (if unat b \<le> unat a then Some (a - b) else None)"

definition u64_mul :: "u64 \<Rightarrow> u64 \<Rightarrow> u64 option" where
  "u64_mul a b = (if unat a * unat b < 2 ^ 64 then Some (a * b) else None)"

definition u64_rem :: "u64 \<Rightarrow> u64 \<Rightarrow> u64 option" where
  "u64_rem a b = (if b = 0 then None else Some (a mod b))"

definition u16_add :: "u16 \<Rightarrow> u16 \<Rightarrow> u16 option" where
  "u16_add a b = (if unat a + unat b < 2 ^ 16 then Some (a + b) else None)"

definition u8_add :: "u8 \<Rightarrow> u8 \<Rightarrow> u8 option" where
  "u8_add a b = (if unat a + unat b < 2 ^ 8 then Some (a + b) else None)"

text \<open>\<open>u64::to_be_bytes\<close>: most significant byte first.\<close>

definition to_be_bytes :: "u64 \<Rightarrow> bytes" where
  "to_be_bytes w = map (\<lambda>i. ucast (drop_bit (8 * (7 - i)) w)) [0..<8]"

text \<open>\<open>str::as_bytes\<close>: a Rust string is the list of its UTF-8 bytes, kept as characters.\<close>

definition as_bytes :: "string \<Rightarrow> bytes" where
  "as_bytes s = map of_char s"

text \<open>The decimal form of a number, as \<open>format!("{}", n)\<close> and \<open>to_string\<close> print it.\<close>

fun decimal :: "nat \<Rightarrow> string" where
  "decimal n = (if n < 10 then [char_of (48 + n)] else decimal (n div 10) @ [char_of (48 + n mod 10)])"

declare decimal.simps [simp del]

text \<open>\<open>std::str::from_utf8\<close> accepts exactly the well-formed UTF-8 byte sequences.\<close>

definition cont_byte :: "u8 \<Rightarrow> bool" where
  "cont_byte b \<longleftrightarrow> 0x80 \<le> b \<and> b \<le> 0xBF"

fun utf8_valid :: "bytes \<Rightarrow> bool" where
  "utf8_valid [] = True"
| "utf8_valid (a # r) =
     (if a < 0x80 then utf8_valid r
      else if 0xC2 \<le> a \<and> a \<le> 0xDF then
        (case r of b # r2 \<Rightarrow> cont_byte b \<and> utf8_valid r2 | _ \<Rightarrow> False)
      else if 0xE0 \<le> a \<and> a \<le> 0xEF then
        (case r of b # c # r3 \<Rightarrow>
             (if a = 0xE0 then 0xA0 \<le> b \<and> b \<le> 0xBF
              else if a = 0xED then 0x80 \<le> b \<and> b \<le> 0x9F else cont_byte b) \<and>
             cont_byte c \<and> utf8_valid r3
         | _ \<Rightarrow> False)
      else if 0xF0 \<le> a \<and> a \<le> 0xF4 then
        (case r of b # c # d # r4 \<Rightarrow>
             (if a = 0xF0 then 0x90 \<le> b \<and> b \<le> 0xBF
              else if a = 0xF4 then 0x80 \<le> b \<and> b \<le> 0x8F else cont_byte b) \<and>
             cont_byte c \<and> cont_byte d \<and> utf8_valid r4
         | _ \<Rightarrow> False)
      else False)"

subsection \<open>Hash maps of vectors\<close>

text \<open>
  \<open>if let Some(v) = m.get_mut(&k) { v.push(x) } else { m.insert(k, vec![x]) }\<close> and
  \<open>if let Some(v) = m.get(&k) { v.clone() } else { vec![] }\<close>.
\<close>

definition push_bucket :: "('k \<rightharpoonup> 'v list) \<Rightarrow> 'k \<Rightarrow> 'v \<Rightarrow> ('k \<rightharpoonup> 'v list)" where
  "push_bucket m k x = (case m k of Some xs \<Rightarrow> m(k \<mapsto> xs @ [x]) | None \<Rightarrow> m(k \<mapsto> [x]))"

definition bucket :: "('k \<rightharpoonup> 'v list) \<Rightarrow> 'k \<Rightarrow> 'v list" where
  "bucket m k = (case m k of Some xs \<Rightarrow> xs | None \<Rightarrow> [])"

definition bucket_len :: "('k \<rightharpoonup> 'v list) \<Rightarrow> 'k \<Rightarrow> nat" where
  "bucket_len m k = (case m k of Some xs \<Rightarrow> length xs | None \<Rightarrow> 0)"

text \<open>
  A hash map iterates over its entries in an unspecified order. Operations that iterate
  take that order as an argument, a list of the keys that satisfies this predicate.
\<close>

definition enumerates :: "'k list \<Rightarrow> ('k \<rightharpoonup> 'v) \<Rightarrow> bool" where
  "enumerates ks m \<longleftrightarrow> distinct ks \<and> set ks = dom m"

subsection \<open>Running a message handler\<close>

text \<open>
  The actuator delivers messages one after the other to the protocol's handler, which
  updates the protocol state and returns what to do next; a panic ends the node.
\<close>

fun run_handler :: "('s \<Rightarrow> 'i \<Rightarrow> ('s \<times> 'o) option) \<Rightarrow> 's \<Rightarrow> 'i list \<Rightarrow> ('s \<times> 'o list) option" where
  "run_handler h s [] = Some (s, [])"
| "run_handler h s (i # is) = do {
     (s1, out) \<leftarrow> h s i;
     (s2, outs) \<leftarrow> run_handler h s1 is;
     Some (s2, out # outs)
   }"

lemma Some_eq_bind: "Some y = Option.bind m f \<longleftrightarrow> (\<exists>x. m = Some x \<and> f x = Some y)"
  by (cases m) auto

lemma run_handler_snoc:
  "run_handler step p es = Some (p1, outs) \<Longrightarrow> step p1 e = Some (p2, out) \<Longrightarrow>
   run_handler step p (es @ [e]) = Some (p2, outs @ [out])"
  by (induction es arbitrary: p outs) (fastforce simp: bind_eq_Some_conv)+

subsection \<open>Lemmas on checked arithmetic\<close>

lemma u16_add_Some [panic_simps]:
  "u16_add a b = Some c \<longleftrightarrow> unat a + unat b < 2 ^ 16 \<and> c = a + b"
  by (auto simp: u16_add_def)

lemma u16_add_unat: "u16_add a b = Some c \<Longrightarrow> unat c = unat a + unat b"
  by (auto simp: u16_add_def unat_word_ariths split: if_splits)

lemma u8_add_unat: "u8_add a b = Some c \<Longrightarrow> unat c = unat a + unat b"
  by (auto simp: u8_add_def unat_word_ariths split: if_splits)

lemma u64_add_Some [panic_simps]:
  "u64_add a b = Some c \<longleftrightarrow> unat a + unat b < 2 ^ 64 \<and> c = a + b"
  by (auto simp: u64_add_def)

lemma u64_add_None [panic_simps]: "u64_add a b = None \<longleftrightarrow> 2 ^ 64 \<le> unat a + unat b"
  by (auto simp: u64_add_def)

lemma u64_sub_Some [panic_simps]:
  "u64_sub a b = Some c \<longleftrightarrow> unat b \<le> unat a \<and> c = a - b"
  by (auto simp: u64_sub_def)

lemma u64_mul_Some [panic_simps]:
  "u64_mul a b = Some c \<longleftrightarrow> unat a * unat b < 2 ^ 64 \<and> c = a * b"
  by (auto simp: u64_mul_def)

lemma u64_rem_Some [panic_simps]: "u64_rem a b = Some c \<longleftrightarrow> b \<noteq> 0 \<and> c = a mod b"
  by (auto simp: u64_rem_def)

lemma u64_add_unat: "u64_add a b = Some c \<Longrightarrow> unat c = unat a + unat b"
  by (auto simp: u64_add_def unat_word_ariths split: if_splits)

lemma u64_mul_unat: "u64_mul a b = Some c \<Longrightarrow> unat c = unat a * unat b"
  by (auto simp: u64_mul_def unat_word_ariths split: if_splits)

lemma u64_sub_unat: "u64_sub a b = Some c \<Longrightarrow> unat c = unat a - unat b"
  by (auto simp: u64_sub_def word_le_nat_alt unat_sub split: if_splits)

subsection \<open>Lemmas on byte strings\<close>

lemma length_to_be_bytes [simp]: "length (to_be_bytes w) = 8"
  by (simp add: to_be_bytes_def)

lemma bit_to_be_bytes:
  assumes "i < 8" and "n < 8"
  shows "bit (to_be_bytes w ! i) n \<longleftrightarrow> bit w (8 * (7 - i) + n)"
  using assms by (simp add: to_be_bytes_def bit_simps)

lemma to_be_bytes_inject [simp]: "to_be_bytes v = to_be_bytes w \<longleftrightarrow> v = w"
proof
  assume eq: "to_be_bytes v = to_be_bytes w"
  show "v = w"
  proof (rule bit_word_eqI)
    fix k assume "k < LENGTH(64)"
    then have k: "k < 64" by simp
    have i: "7 - k div 8 < 8" and n: "k mod 8 < 8" by simp_all
    have "8 * (7 - (7 - k div 8)) + k mod 8 = k"
    proof -
      from k have "k div 8 \<le> 7" by simp
      then show ?thesis by simp
    qed
    with bit_to_be_bytes [OF i n, of v] bit_to_be_bytes [OF i n, of w] eq
    show "bit v k = bit w k" by simp
  qed
qed simp

lemma length_as_bytes [simp]: "length (as_bytes s) = length s"
  by (simp add: as_bytes_def)

lemma as_bytes_Nil [simp]: "as_bytes [] = []"
  by (simp add: as_bytes_def)

lemma of_char_u8_inject: "(of_char c :: u8) = of_char d \<longleftrightarrow> c = d"
proof
  assume eq: "(of_char c :: u8) = of_char d"
  have "unat (of_char x :: u8) = of_char x" for x
  proof -
    have "of_char x < (2::nat) ^ LENGTH(8)" using nat_of_char_less_256 [of x] by simp
    then have "unat (of_nat (of_char x) :: u8) = of_char x" by (simp add: unat_of_nat)
    then show ?thesis by (simp only: of_nat_of_char)
  qed
  with eq have "(of_char c :: nat) = of_char d" by metis
  then show "c = d" by simp
qed simp

lemma as_bytes_inject [simp]: "as_bytes s = as_bytes t \<longleftrightarrow> s = t"
proof
  assume eq: "as_bytes s = as_bytes t"
  have "inj (of_char :: char \<Rightarrow> u8)"
    by (rule injI) (simp add: of_char_u8_inject)
  with eq show "s = t"
    by (simp add: as_bytes_def inj_map_eq_map)
qed simp

subsection \<open>Lemmas on buckets\<close>

lemma bucket_push [simp]:
  "bucket (push_bucket m k x) k' = (if k' = k then bucket m k @ [x] else bucket m k')"
  by (auto simp: bucket_def push_bucket_def split: option.splits)

lemma bucket_len_eq [simp]: "bucket_len m k = length (bucket m k)"
  by (simp add: bucket_len_def bucket_def split: option.splits)

lemma bucket_empty [simp]: "bucket Map.empty k = []"
  by (simp add: bucket_def)

lemma push_bucket_other [simp]: "k' \<noteq> k \<Longrightarrow> push_bucket m k x k' = m k'"
  by (simp add: push_bucket_def split: option.splits)

lemma push_bucket_self [simp]: "push_bucket m k x k = Some (bucket m k @ [x])"
  by (simp add: push_bucket_def bucket_def split: option.splits)

lemma dom_push_bucket [simp]: "dom (push_bucket m k x) = insert k (dom m)"
  by (auto simp: push_bucket_def split: option.splits)

lemma enumerates_in_dom: "enumerates ks m \<Longrightarrow> k \<in> set ks \<longleftrightarrow> (\<exists>v. m k = Some v)"
  by (auto simp: enumerates_def dom_def)

subsection \<open>The bucket store interface\<close>

text \<open>
  Every log of the protocols stores what it receives in buckets: the element is appended
  to the bucket of its key, and the protocol reads the bucket and its length, which it
  compares with a threshold. The laws are the two equations below; the client lemmas say
  what a sequence of recordings leaves in each bucket and when a threshold is reached.
\<close>

locale bucket_store =
  fixes push :: "'s \<Rightarrow> 'e \<Rightarrow> 's"
    and get :: "'s \<Rightarrow> 'k \<Rightarrow> 'v list"
    and count :: "'s \<Rightarrow> 'k \<Rightarrow> nat"
    and key_of :: "'e \<Rightarrow> 'k"
    and val :: "'e \<Rightarrow> 'v"
  assumes get_push: "get (push s e) k = (if k = key_of e then get s k @ [val e] else get s k)"
    and count_get: "count s k = length (get s k)"
begin

lemma get_pushes: "get (foldl push s es) k = get s k @ map val (filter (\<lambda>e. key_of e = k) es)"
  by (induction es arbitrary: s) (auto simp: get_push)

lemma count_push: "count (push s e) k = (if k = key_of e then Suc (count s k) else count s k)"
  by (simp add: count_get get_push)

lemma count_pushes:
  "count (foldl push s es) k = count s k + length (filter (\<lambda>e. key_of e = k) es)"
  by (simp add: count_get get_pushes)

lemma count_mono: "count s k \<le> count (foldl push s es) k"
  by (simp add: count_pushes)

text \<open>
  A threshold test by equality fires exactly once while elements of one key arrive: after
  the \<open>n\<close>-th of them and after no other.
\<close>

lemma threshold_once:
  assumes "count s k = 0" and "\<And>e. e \<in> set es \<Longrightarrow> key_of e = k" and "j \<le> length es"
  shows "count (foldl push s (take j es)) k = n \<longleftrightarrow> j = n"
proof -
  have "filter (\<lambda>e. key_of e = k) (take j es) = take j es"
    using assms(2) by (auto simp: filter_id_conv dest: in_set_takeD)
  with assms show ?thesis by (simp add: count_pushes)
qed

end

subsection \<open>The handler interface\<close>

text \<open>
  What a protocol promises the actuator: its message handler keeps the invariant of its
  state. The client then knows the invariant after any sequence of deliveries.
\<close>

locale invariant_handler =
  fixes handler :: "'s \<Rightarrow> 'i \<Rightarrow> ('s \<times> 'o) option"
    and inv :: "'s \<Rightarrow> bool"
  assumes handler_inv: "inv s \<Longrightarrow> handler s i = Some (s', out) \<Longrightarrow> inv s'"
begin

lemma run_inv: "inv s \<Longrightarrow> run_handler handler s is = Some (s', outs) \<Longrightarrow> inv s'"
proof (induction "is" arbitrary: s outs)
  case Nil
  then show ?case by simp
next
  case (Cons i "is")
  then show ?case
    by (auto simp: bind_eq_Some_conv dest: handler_inv)
qed

lemma run_step_inv:
  "inv s \<Longrightarrow> run_handler handler s (is @ [i]) = Some (s', outs) \<Longrightarrow>
   \<exists>s1 o1 out. run_handler handler s is = Some (s1, o1) \<and> inv s1 \<and> handler s1 i = Some (s', out)"
proof (induction "is" arbitrary: s outs)
  case Nil
  then show ?case by (auto simp: bind_eq_Some_conv)
next
  case (Cons j "is")
  from Cons.prems obtain s1 out outs' where s1: "handler s j = Some (s1, out)"
    and run: "run_handler handler s1 (is @ [i]) = Some (s', outs')"
    by (auto simp: bind_eq_Some_conv)
  from Cons.prems(1) s1 have "inv s1" by (rule handler_inv)
  from Cons.IH [OF this run] s1 show ?case by (auto simp: bind_eq_Some_conv)
qed

end

text \<open>
  The same with the evidence for the state: an invariant that may refer to the events handled so
  far. An invariant of the state alone is a special case.
\<close>

locale evidence_handler =
  fixes handler :: "'s \<Rightarrow> 'i \<Rightarrow> ('s \<times> 'o) option"
    and inv :: "'i set \<Rightarrow> 's \<Rightarrow> bool"
  assumes handler_evidence: "inv es s \<Longrightarrow> handler s i = Some (s', out) \<Longrightarrow> inv (insert i es) s'"
begin

lemma run_evidence: "inv es s \<Longrightarrow> run_handler handler s is = Some (s', outs) \<Longrightarrow> inv (es \<union> set is) s'"
proof (induction "is" arbitrary: es s outs)
  case (Cons i "is")
  then obtain s1 d where "handler s i = Some (s1, d)" "\<exists>outs. run_handler handler s1 is = Some (s', outs)"
    by (auto simp: bind_eq_Some_conv)
  with Cons.IH [of "insert i es" s1] handler_evidence [OF Cons.prems(1)] show ?case by (auto simp: Un_commute insert_commute)
qed simp

end

sublocale invariant_handler \<subseteq> evidence_handler handler "\<lambda>_. inv"
  by unfold_locales (rule handler_inv)

text \<open>
  A handler every step of which moves the state up in a preorder: what a state has and keeps. The
  client learns that any sequence of deliveries does.
\<close>

locale growing_handler =
  fixes handler :: "'s \<Rightarrow> 'i \<Rightarrow> ('s \<times> 'o) option"
    and le :: "'s \<Rightarrow> 's \<Rightarrow> bool"
  assumes le_refl: "le s s"
    and le_trans: "le s t \<Longrightarrow> le t u \<Longrightarrow> le s u"
    and handler_le: "handler s i = Some (s', out) \<Longrightarrow> le s s'"
begin

lemma run_le: "run_handler handler s is = Some (s', outs) \<Longrightarrow> le s s'"
proof (induction "is" arbitrary: s outs)
  case Nil
  then show ?case by (simp add: le_refl)
next
  case (Cons i "is")
  then show ?case by (auto simp: bind_eq_Some_conv intro: le_trans [OF handler_le])
qed

end

end
