(* ===== verification/Framework_Messages.thy ===== *)
theory Framework_Messages
  imports Prelude
begin

text \<open>
  The data the components of the framework exchange (\<open>components/src/message.rs\<close>), the
  result type of a protocol handler (\<open>components/src/behaviour.rs\<close>) and the third-party
  functions the code calls (hashing, serialization, signatures, peer identifiers), which
  are fields of a record that the definitions take as an argument.
\<close>

subsection \<open>Requests and handler results\<close>

record request =
  cmd :: string

type_synonym peer_id = bytes

datatype send_type =
    Broadcast bytes
  | Unicast peer_id bytes
  | AmbiguousBroadcast bytes bytes u16

datatype phase_state =
    Over "request option"
  | OverMessage "request option" "send_type list"
  | ContinueExecute "send_type list"
  | Complete request "send_type list"

text \<open>What the actuator is asked to put on the network.\<close>

fun sends :: "phase_state \<Rightarrow> send_type list" where
  "sends (Over r) = []"
| "sends (OverMessage r q) = q"
| "sends (ContinueExecute q) = q"
| "sends (Complete r q) = q"

subsection \<open>Test items\<close>

datatype round = FirstRound | OtherRound u8

datatype malicious_behaviour =
    LeaderFeignDeath round u8
  | LeaderSendAmbiguousMessage round u8 "string list" u16
  | LeaderDelaySendMessage round u8
  | LeaderSendDuplicateMessage round u8
  | ReplicaNodeConspireForgeMessages round u8 "string list" u16

datatype test_item =
    Throughput
  | Latency
  | ThroughputAndLatency
  | Scalability u16 u16 u16
  | Crash u16 u16
  | Malicious malicious_behaviour

subsection \<open>Protocol running data sent to the analyzer\<close>

record consensus_start_data =
  start_request :: request
  start_time :: u64

record consensus_end_data =
  end_request :: request
  completed_time :: u64

datatype consensus_data =
    ConsensusStartData consensus_start_data
  | ConsensusEndData consensus_end_data

subsection \<open>Third-party functions\<close>

text \<open>
  \<open>sha3_256_hex\<close>: the hexadecimal SHA3-256 digest (rust-crypto). \<open>bincode_request\<close>,
  \<open>json_request\<close>, \<open>from_json_request\<close>: bincode and serde_json on a request.
  \<open>peer_from_bytes\<close>, \<open>peer_to_bytes\<close>, \<open>peer_to_string\<close>: libp2p's \<open>PeerId\<close>.
  \<open>dalek_*\<close>: ed25519-dalek on key and signature bytes.
\<close>

record ext =
  sha3_256_hex :: "bytes \<Rightarrow> string"
  bincode_request :: "request \<Rightarrow> bytes"
  json_request :: "request \<Rightarrow> bytes"
  from_json_request :: "bytes \<Rightarrow> request option"
  peer_from_bytes :: "bytes \<Rightarrow> peer_id option"
  peer_to_bytes :: "peer_id \<Rightarrow> bytes"
  peer_to_string :: "peer_id \<Rightarrow> string"
  dalek_public :: "bytes \<Rightarrow> bytes"
  dalek_sign :: "bytes \<Rightarrow> bytes \<Rightarrow> bytes"
  dalek_public_key_ok :: "bytes \<Rightarrow> bool"
  dalek_signature_ok :: "bytes \<Rightarrow> bool"
  dalek_verify :: "bytes \<Rightarrow> bytes \<Rightarrow> bytes \<Rightarrow> bool"

subsection \<open>Hashing and the EdDSA wrapper\<close>

definition get_hash_str :: "'a ext_scheme \<Rightarrow> bytes \<Rightarrow> string" where
  "get_hash_str E value = sha3_256_hex E value"

definition get_request_hash :: "'a ext_scheme \<Rightarrow> request \<Rightarrow> string" where
  "get_request_hash E request = get_hash_str E (bincode_request E request)"

text \<open>\<open>EdDSAKeyPair::sign\<close>, \<open>EdDSAKeyPair::get_public_key\<close>, \<open>EdDSAPublicKey::verify\<close>.\<close>

definition eddsa_sign :: "'a ext_scheme \<Rightarrow> bytes \<Rightarrow> bytes \<Rightarrow> bytes" where
  "eddsa_sign E keypair message = dalek_sign E keypair message"

definition eddsa_get_public_key :: "'a ext_scheme \<Rightarrow> bytes \<Rightarrow> bytes" where
  "eddsa_get_public_key E keypair = dalek_public E keypair"

definition eddsa_verify :: "'a ext_scheme \<Rightarrow> bytes \<Rightarrow> bytes \<Rightarrow> bytes \<Rightarrow> bool" where
  "eddsa_verify E pk signature message =
     (if \<not> dalek_public_key_ok E pk then False
      else if \<not> dalek_signature_ok E signature then False
      else dalek_verify E pk message signature)"

text \<open>Documented behaviour of ed25519: what a key pair signs, its public key verifies.\<close>

definition dalek_correct :: "'a ext_scheme \<Rightarrow> bool" where
  "dalek_correct E \<longleftrightarrow>
     (\<forall>kp m. dalek_public_key_ok E (dalek_public E kp) \<and>
             dalek_signature_ok E (dalek_sign E kp m) \<and>
             dalek_verify E (dalek_public E kp) m (dalek_sign E kp m))"

lemma eddsa_sign_verify:
  "dalek_correct E \<Longrightarrow>
   eddsa_verify E (eddsa_get_public_key E kp) (eddsa_sign E kp m) m"
  by (simp add: dalek_correct_def eddsa_verify_def eddsa_sign_def eddsa_get_public_key_def)

end
