(* ===== verification/PBFT_Messages.thy ===== *)
theory PBFT_Messages
  imports Framework_Messages
begin

text \<open>
  The messages of the PBFT protocol (\<open>protocols/src/pbft/message.rs\<close>) and the keys under
  which the log files them (\<open>protocols/src/pbft/common.rs\<close>).
\<close>

subsection \<open>Messages\<close>

record pre_prepare =
  pp_view :: u64
  pp_number :: u64
  pp_m_hash :: string
  pp_m :: bytes
  pp_signature :: bytes
  pp_from_peer_id :: bytes

record prepare =
  p_view :: u64
  p_number :: u64
  p_m_hash :: string
  p_from_peer_id :: bytes
  p_signature :: bytes

record commit =
  c_view :: u64
  c_number :: u64
  c_m_hash :: string
  c_from_peer_id :: bytes
  c_signature :: bytes

record reply =
  r_cmd :: string
  r_view :: u64
  r_number :: u64
  r_from_peer_id :: bytes
  r_signature :: bytes
  r_result :: bytes

record check_point =
  current_max_number :: u64
  checkpoint_state_digest :: string
  cp_from_peer_id :: bytes
  cp_signature :: string

record public_key =
  pk :: bytes
  pk_from_peer_id :: bytes

datatype message_type =
    Request request
  | PrePrepare pre_prepare
  | Prepare prepare
  | Commit commit
  | Reply reply
  | CheckPoint check_point
  | ViewChange view_change
  | NewView new_view
  | PublicKey public_key
  | DistributePK
and view_change = ViewChangeMsg (vc_new_view: u64) (vc_proof_messages: proof_messages)
    (vc_from_peer_id: bytes) (vc_signature: string)
and new_view = NewViewMsg (nv_view: u64) (nv_viewchanges: "view_change list")
    (nv_preprepares: "pre_prepare list") (nv_signature: string)
and proof_messages = ProofMessages (proof_preprepares: "message_type list")
    (proof_prepares: "message_type list")

record consensus_message =
  msg_type :: message_type

text \<open>serde_json on the message types of this protocol.\<close>

record pbft_ext = ext +
  json_consensus_message :: "consensus_message \<Rightarrow> bytes"
  from_json_consensus_message :: "bytes \<Rightarrow> consensus_message option"
  json_message_type :: "message_type \<Rightarrow> bytes"
  json_prepare_str :: "prepare \<Rightarrow> string"
  json_commit_str :: "commit \<Rightarrow> string"

subsection \<open>Keys\<close>

definition REQUEST_PREFIX :: u8 where "REQUEST_PREFIX = 0"
definition PRE_PREPARE_PREFIX :: u8 where "PRE_PREPARE_PREFIX = 1"
definition PREPARE_PREFIX :: u8 where "PREPARE_PREFIX = 2"
definition COMMIT_PREFIX :: u8 where "COMMIT_PREFIX = 3"
definition REPLY_PREFIX :: u8 where "REPLY_PREFIX = 4"
definition STABLE_CHECKPOINT_DELTA :: u64 where "STABLE_CHECKPOINT_DELTA = 50"

definition get_preprepare_key_by_request_hash ::
    "'a ext_scheme \<Rightarrow> bytes \<Rightarrow> u64 \<Rightarrow> u64 \<Rightarrow> string" where
  "get_preprepare_key_by_request_hash E request_hash view sequence_number =
     get_hash_str E ([PRE_PREPARE_PREFIX] @ to_be_bytes view @ to_be_bytes sequence_number @ request_hash)"

definition get_prepare_key_by_request_hash ::
    "'a ext_scheme \<Rightarrow> bytes \<Rightarrow> u64 \<Rightarrow> u64 \<Rightarrow> string" where
  "get_prepare_key_by_request_hash E request_hash view sequence_number =
     get_hash_str E ([PREPARE_PREFIX] @ to_be_bytes view @ to_be_bytes sequence_number @ request_hash)"

definition get_commit_key_by_request_hash ::
    "'a ext_scheme \<Rightarrow> bytes \<Rightarrow> u64 \<Rightarrow> u64 \<Rightarrow> string" where
  "get_commit_key_by_request_hash E request_hash view sequence_number =
     get_hash_str E ([COMMIT_PREFIX] @ to_be_bytes view @ to_be_bytes sequence_number @ request_hash)"

fun get_message_key :: "'a ext_scheme \<Rightarrow> message_type \<Rightarrow> string" where
  "get_message_key E (Request request) = get_hash_str E (json_request E request)"
| "get_message_key E (PrePrepare preprepare) =
     get_hash_str E ([PRE_PREPARE_PREFIX] @ to_be_bytes (pp_view preprepare) @
       to_be_bytes (pp_number preprepare) @ as_bytes (pp_m_hash preprepare))"
| "get_message_key E (Prepare prepare) =
     get_hash_str E ([PREPARE_PREFIX] @ to_be_bytes (p_view prepare) @
       to_be_bytes (p_number prepare) @ as_bytes (p_m_hash prepare))"
| "get_message_key E (Commit commit) =
     get_hash_str E ([COMMIT_PREFIX] @ to_be_bytes (c_view commit) @
       to_be_bytes (c_number commit) @ as_bytes (c_m_hash commit))"
| "get_message_key E (Reply reply) =
     get_hash_str E ([REPLY_PREFIX] @ as_bytes (r_cmd reply) @ to_be_bytes (r_view reply) @
       to_be_bytes (r_number reply) @ r_result reply)"
| "get_message_key E _ = ''''"

declare get_message_key.simps [simp del]

lemmas prefix_defs = REQUEST_PREFIX_def PRE_PREPARE_PREFIX_def PREPARE_PREFIX_def
  COMMIT_PREFIX_def REPLY_PREFIX_def

subsection \<open>What a key identifies\<close>

text \<open>The round of agreement a quorum message belongs to: its kind, view, number and digest.\<close>

fun quorum_slot :: "message_type \<Rightarrow> (u8 \<times> u64 \<times> u64 \<times> string) option" where
  "quorum_slot (PrePrepare m) = Some (PRE_PREPARE_PREFIX, pp_view m, pp_number m, pp_m_hash m)"
| "quorum_slot (Prepare m) = Some (PREPARE_PREFIX, p_view m, p_number m, p_m_hash m)"
| "quorum_slot (Commit m) = Some (COMMIT_PREFIX, c_view m, c_number m, c_m_hash m)"
| "quorum_slot _ = None"

definition slot_bytes :: "u8 \<times> u64 \<times> u64 \<times> string \<Rightarrow> bytes" where
  "slot_bytes s = (case s of (prefix, view, number, h) \<Rightarrow>
     prefix # to_be_bytes view @ to_be_bytes number @ as_bytes h)"

lemma get_message_key_slot:
  "quorum_slot m = Some s \<Longrightarrow> get_message_key E m = get_hash_str E (slot_bytes s)"
  by (cases m) (auto simp: slot_bytes_def get_message_key.simps)

lemma slot_bytes_inject [simp]: "slot_bytes s = slot_bytes t \<longleftrightarrow> s = t"
  by (cases s; cases t) (auto simp: slot_bytes_def)

text \<open>Two different inputs on which the digest agrees.\<close>

definition collide :: "'a ext_scheme \<Rightarrow> bytes \<Rightarrow> bytes \<Rightarrow> bool" where
  "collide E x y \<longleftrightarrow> x \<noteq> y \<and> get_hash_str E x = get_hash_str E y"

end
