(* ===== verification/PBFT_State.thy ===== *)
theory PBFT_State
  imports PBFT_Messages
begin

text \<open>
  The local state of a PBFT node and its timers (\<open>protocols/src/pbft/state.rs\<close>,
  \<open>protocols/src/pbft/timer.rs\<close>).
\<close>

subsection \<open>Timers\<close>

datatype timeout_state = Active | Inactive

record timeout =
  to_state :: timeout_state
  to_duration :: nat

definition timeout_new :: "nat \<Rightarrow> timeout" where
  "timeout_new duration = \<lparr>to_state = Inactive, to_duration = duration\<rparr>"

definition timeout_start :: "timeout \<Rightarrow> timeout" where
  "timeout_start t = t\<lparr>to_state := Active\<rparr>"

definition timeout_stop :: "timeout \<Rightarrow> timeout" where
  "timeout_stop t = t\<lparr>to_state := Inactive\<rparr>"

subsection \<open>Node state\<close>

datatype mode = Normal | Abnormal

datatype client_state = ClientNotRequest | ClientWaiting | ClientReplied

record state =
  view :: u64
  current_sequence_number :: u64
  primary :: bytes
  is_primary :: bool
  node_count :: u64
  fault_tolerance_count :: u64
  mode :: mode
  stable_checkpoint :: "u64 \<times> string"
  current_commited_request_count :: u64
  checkpoint_state :: string
  client_state :: client_state
  prepared_timeout :: timeout
  commited_timeout :: timeout

text \<open>The initial checkpoint state is the string of 64 zero bytes.\<close>

definition state_new :: "nat \<Rightarrow> state" where
  "state_new timeout_duration =
     \<lparr>view = 0, current_sequence_number = 0, primary = [], is_primary = False,
      node_count = 9, fault_tolerance_count = 1, mode = Normal,
      stable_checkpoint = (0, ''''), current_commited_request_count = 0,
      checkpoint_state = replicate 64 (CHR 0x00), client_state = ClientNotRequest,
      prepared_timeout = timeout_new timeout_duration,
      commited_timeout = timeout_new timeout_duration\<rparr>"

definition update_checkpoint_state :: "'a ext_scheme \<Rightarrow> string \<Rightarrow> state \<Rightarrow> state" where
  "update_checkpoint_state E commited_request_hash s =
     (let old_u8s = as_bytes (checkpoint_state s);
          hash_u8s = as_bytes commited_request_hash;
          new_vec = map (\<lambda>(a, b). a XOR b) (zip old_u8s hash_u8s)
      in s\<lparr>checkpoint_state := get_hash_str E new_vec\<rparr>)"

record controller_state =
  ctl_client_state :: client_state
  ctl_fault_tolerance_count :: u64

definition controller_state_new :: controller_state where
  "controller_state_new = \<lparr>ctl_client_state = ClientNotRequest, ctl_fault_tolerance_count = 1\<rparr>"

subsection \<open>Frame of the checkpoint update\<close>

lemma update_checkpoint_state_frame [log_simps]:
  "view (update_checkpoint_state E h s) = view s"
  "current_sequence_number (update_checkpoint_state E h s) = current_sequence_number s"
  "primary (update_checkpoint_state E h s) = primary s"
  "is_primary (update_checkpoint_state E h s) = is_primary s"
  "node_count (update_checkpoint_state E h s) = node_count s"
  "fault_tolerance_count (update_checkpoint_state E h s) = fault_tolerance_count s"
  "stable_checkpoint (update_checkpoint_state E h s) = stable_checkpoint s"
  "current_commited_request_count (update_checkpoint_state E h s) = current_commited_request_count s"
  by (simp_all add: update_checkpoint_state_def Let_def)

end
