(* ===== verification/PBFT_Log.thy ===== *)
theory PBFT_Log
  imports PBFT_Messages
begin

text \<open>
  The local log of a PBFT node and of the controller node (\<open>protocols/src/pbft/log.rs\<close>):
  the recorded messages in buckets, the requests by sequence number, the view changes, the
  checkpoints, and what the view change protocol computes from them.
\<close>

subsection \<open>The consensus log\<close>

datatype log_phase_state = LogNotRequest | LogInit | LogPrepared | LogCommited | LogReplied

type_synonym instant = nat

record consensus_log =
  requests :: "u64 \<rightharpoonup> request"
  messages :: "string \<rightharpoonup> message_type list"
  reply_messages :: "string \<rightharpoonup> message_type list"
  checkpoints :: "u64 \<times> string \<rightharpoonup> check_point list"
  viewchanges :: "u64 \<rightharpoonup> view_change list"
  request_map :: "string \<rightharpoonup> u64 \<times> u64"
  request_phase_state :: "string \<rightharpoonup> log_phase_state"
  current_requests :: "(string \<times> instant) list"

definition consensus_log_new :: consensus_log where
  "consensus_log_new =
     \<lparr>requests = Map.empty, messages = Map.empty, reply_messages = Map.empty,
      checkpoints = Map.empty, viewchanges = Map.empty, request_map = Map.empty,
      request_phase_state = Map.empty, current_requests = []\<rparr>"

text \<open>\<open>reset\<close> leaves the reply messages.\<close>

definition reset :: "consensus_log \<Rightarrow> consensus_log" where
  "reset log = log\<lparr>requests := Map.empty, current_requests := [], messages := Map.empty,
     request_map := Map.empty, request_phase_state := Map.empty,
     viewchanges := Map.empty, checkpoints := Map.empty\<rparr>"

subsection \<open>Recording messages\<close>

definition record_viewchange :: "consensus_log \<Rightarrow> view_change \<Rightarrow> consensus_log" where
  "record_viewchange log viewchange =
     log\<lparr>viewchanges := push_bucket (viewchanges log) (vc_new_view viewchange) viewchange\<rparr>"

definition record_checkpoint :: "consensus_log \<Rightarrow> check_point \<Rightarrow> consensus_log" where
  "record_checkpoint log msg =
     log\<lparr>checkpoints := push_bucket (checkpoints log)
           (current_max_number msg, checkpoint_state_digest msg) msg\<rparr>"

definition record_preprepare :: "'a ext_scheme \<Rightarrow> consensus_log \<Rightarrow> pre_prepare \<Rightarrow> consensus_log" where
  "record_preprepare E log msg =
     (let msg_type = PrePrepare msg; key_hash = get_message_key E msg_type
      in log\<lparr>messages := push_bucket (messages log) key_hash msg_type\<rparr>)"

definition record_prepare :: "'a ext_scheme \<Rightarrow> consensus_log \<Rightarrow> prepare \<Rightarrow> consensus_log" where
  "record_prepare E log msg =
     (let msg_type = Prepare msg; key_hash = get_message_key E msg_type
      in log\<lparr>messages := push_bucket (messages log) key_hash msg_type\<rparr>)"

definition record_commit :: "'a ext_scheme \<Rightarrow> consensus_log \<Rightarrow> commit \<Rightarrow> consensus_log" where
  "record_commit E log msg =
     (let msg_type = Commit msg; key_hash = get_message_key E msg_type
      in log\<lparr>messages := push_bucket (messages log) key_hash msg_type\<rparr>)"

definition record_reply :: "'a ext_scheme \<Rightarrow> consensus_log \<Rightarrow> reply \<Rightarrow> consensus_log" where
  "record_reply E log msg =
     (let msg_type = Reply msg; key_hash = get_message_key E msg_type
      in log\<lparr>reply_messages := push_bucket (reply_messages log) key_hash msg_type\<rparr>)"

fun record_message_handler :: "'a ext_scheme \<Rightarrow> consensus_log \<Rightarrow> message_type \<Rightarrow> consensus_log" where
  "record_message_handler E log (PrePrepare preprepare) = record_preprepare E log preprepare"
| "record_message_handler E log (Prepare prepare) = record_prepare E log prepare"
| "record_message_handler E log (Commit commit) = record_commit E log commit"
| "record_message_handler E log (Reply reply) = record_reply E log reply"
| "record_message_handler E log (CheckPoint checkpoint) = record_checkpoint log checkpoint"
| "record_message_handler E log (ViewChange viewchange) = record_viewchange log viewchange"
| "record_message_handler E log _ = log"

definition record_request :: "u64 \<Rightarrow> request \<Rightarrow> consensus_log \<Rightarrow> consensus_log" where
  "record_request sequence_number request log =
     (if requests log sequence_number = None
      then log\<lparr>requests := (requests log)(sequence_number \<mapsto> request)\<rparr> else log)"

text \<open>
  \<open>record_current_request\<close> is an \<open>async fn\<close>: this is what it does when its future is
  driven to completion at time \<open>now\<close>.
\<close>

definition record_current_request :: "instant \<Rightarrow> string \<Rightarrow> consensus_log \<Rightarrow> consensus_log" where
  "record_current_request now request_key log =
     log\<lparr>current_requests := current_requests log @ [(request_key, now)]\<rparr>"

definition remove_commited_request :: "consensus_log \<Rightarrow> consensus_log" where
  "remove_commited_request log = log\<lparr>current_requests := tl (current_requests log)\<rparr>"

definition clear_current_request :: "consensus_log \<Rightarrow> consensus_log" where
  "clear_current_request log = log\<lparr>current_requests := []\<rparr>"

definition update_request_phase_state ::
    "string \<Rightarrow> log_phase_state \<Rightarrow> consensus_log \<Rightarrow> consensus_log" where
  "update_request_phase_state request_key state log =
     log\<lparr>request_phase_state := (request_phase_state log)(request_key \<mapsto> state)\<rparr>"

subsection \<open>Reading the log\<close>

definition get_request_phase_state :: "consensus_log \<Rightarrow> string \<Rightarrow> log_phase_state option" where
  "get_request_phase_state log request_key = request_phase_state log request_key"

definition get_viewchange_messages_by_view :: "consensus_log \<Rightarrow> u64 \<Rightarrow> view_change list" where
  "get_viewchange_messages_by_view log v = bucket (viewchanges log) v"

definition get_viewchange_messages_count_by_view :: "consensus_log \<Rightarrow> u64 \<Rightarrow> nat" where
  "get_viewchange_messages_count_by_view log v = bucket_len (viewchanges log) v"

definition get_checkpoint_count :: "consensus_log \<Rightarrow> u64 \<times> string \<Rightarrow> nat" where
  "get_checkpoint_count log key = bucket_len (checkpoints log) key"

definition get_local_request_by_sequence_number :: "consensus_log \<Rightarrow> u64 \<Rightarrow> request option" where
  "get_local_request_by_sequence_number log sequence_number = requests log sequence_number"

definition get_local_messages_by_hash :: "consensus_log \<Rightarrow> string \<Rightarrow> message_type list" where
  "get_local_messages_by_hash log hash = bucket (messages log) hash"

definition get_local_messages_count_by_hash :: "consensus_log \<Rightarrow> string \<Rightarrow> nat" where
  "get_local_messages_count_by_hash log hash = bucket_len (messages log) hash"

definition get_local_reply_messages_count_by_hash :: "consensus_log \<Rightarrow> string \<Rightarrow> nat" where
  "get_local_reply_messages_count_by_hash log hash = bucket_len (reply_messages log) hash"

text \<open>The first entry, in the iteration order \<open>cks\<close>, with that number and exactly \<open>threshold\<close> messages.\<close>

definition get_checkpoint_messages_by_sequence_number ::
    "(u64 \<times> string) list \<Rightarrow> consensus_log \<Rightarrow> u64 \<Rightarrow> u64 \<Rightarrow> check_point list" where
  "get_checkpoint_messages_by_sequence_number cks log sequence_number threshold =
     (case filter (\<lambda>k. fst k = sequence_number \<and> bucket_len (checkpoints log) k = unat threshold) cks of
        k # _ \<Rightarrow> bucket (checkpoints log) k
      | [] \<Rightarrow> [])"

definition get_preprepare_messages_by_request_hash ::
    "'a ext_scheme \<Rightarrow> consensus_log \<Rightarrow> string \<Rightarrow> message_type list option" where
  "get_preprepare_messages_by_request_hash E log request_hash = do {
     (v, sequence_number) \<leftarrow> request_map log request_hash;
     let preprepare_key = get_preprepare_key_by_request_hash E (as_bytes request_hash) v sequence_number;
     Some (bucket (messages log) preprepare_key)
   }"

definition get_prepare_messages_by_request_hash ::
    "'a ext_scheme \<Rightarrow> consensus_log \<Rightarrow> string \<Rightarrow> message_type list option" where
  "get_prepare_messages_by_request_hash E log request_hash = do {
     (v, sequence_number) \<leftarrow> request_map log request_hash;
     let prepare_key = get_prepare_key_by_request_hash E (as_bytes request_hash) v sequence_number;
     Some (bucket (messages log) prepare_key)
   }"

definition get_preprepare_and_prepare_by_request_hash ::
    "'a ext_scheme \<Rightarrow> consensus_log \<Rightarrow> string \<Rightarrow> message_type list option" where
  "get_preprepare_and_prepare_by_request_hash E log request_hash = do {
     (v, sequence_number) \<leftarrow> request_map log request_hash;
     let preprepare_key = get_preprepare_key_by_request_hash E (as_bytes request_hash) v sequence_number;
     let prepare_key = get_prepare_key_by_request_hash E (as_bytes request_hash) v sequence_number;
     Some (bucket (messages log) preprepare_key @ bucket (messages log) prepare_key)
   }"

text \<open>The loop of \<open>get_proof_messages\<close> over the pending requests, with its two accumulators.\<close>

fun proof_messages_loop :: "'a ext_scheme \<Rightarrow> consensus_log \<Rightarrow> (string \<times> instant) list \<Rightarrow>
    message_type list \<Rightarrow> message_type list \<Rightarrow> proof_messages option" where
  "proof_messages_loop E log [] preprepares prepares = Some (ProofMessages preprepares prepares)"
| "proof_messages_loop E log (v # current) preprepares prepares = do {
     preprepare_msg \<leftarrow> get_preprepare_messages_by_request_hash E log (fst v);
     prepare_msg \<leftarrow> get_prepare_messages_by_request_hash E log (fst v);
     proof_messages_loop E log current (preprepares @ preprepare_msg) (prepares @ prepare_msg)
   }"

definition get_proof_messages :: "'a ext_scheme \<Rightarrow> consensus_log \<Rightarrow> proof_messages option" where
  "get_proof_messages E log = proof_messages_loop E log (current_requests log) [] []"

subsection \<open>Discarding messages below a stable checkpoint\<close>

text \<open>
  \<open>rks\<close> and \<open>cks\<close> are the orders in which the two hash maps are iterated. Requests with a
  number up to the stable checkpoint lose their messages; checkpoints are dropped below it.
\<close>

definition stale_message_keys ::
    "'a ext_scheme \<Rightarrow> string list \<Rightarrow> u64 \<Rightarrow> consensus_log \<Rightarrow> (string \<times> string \<times> string) list" where
  "stale_message_keys E rks n log = List.map_filter
     (\<lambda>request_hash. case request_map log request_hash of
        Some (v, sequence_number) \<Rightarrow>
          if sequence_number \<le> n
          then Some (get_preprepare_key_by_request_hash E (as_bytes request_hash) v sequence_number,
                     get_prepare_key_by_request_hash E (as_bytes request_hash) v sequence_number,
                     get_commit_key_by_request_hash E (as_bytes request_hash) v sequence_number)
          else None
      | None \<Rightarrow> None) rks"

definition discard_messages_before_stable_checkpoint ::
    "'a ext_scheme \<Rightarrow> string list \<Rightarrow> (u64 \<times> string) list \<Rightarrow> u64 \<Rightarrow> consensus_log \<Rightarrow> consensus_log" where
  "discard_messages_before_stable_checkpoint E rks cks n log =
     (let message_keys = stale_message_keys E rks n log;
          checkpoint_keys = filter (\<lambda>k. fst k < n) cks;
          msgs = foldl (\<lambda>m (k1, k2, k3). m(k1 := None, k2 := None, k3 := None)) (messages log) message_keys;
          cps = foldl (\<lambda>m k. m(k := None)) (checkpoints log) checkpoint_keys
      in log\<lparr>messages := msgs, checkpoints := cps\<rparr>)"

subsection \<open>What a new view is built from\<close>

fun max_prepare_loop :: "u64 \<Rightarrow> message_type list \<Rightarrow> u64" where
  "max_prepare_loop mx [] = mx"
| "max_prepare_loop mx (Prepare prepare # ms) =
     (if p_number prepare > mx then max_prepare_loop (p_number prepare) ms else max_prepare_loop mx ms)"
| "max_prepare_loop mx (_ # ms) = max_prepare_loop mx ms"

definition get_max_sequence_number_in_viewchange_by_view :: "consensus_log \<Rightarrow> u64 \<Rightarrow> u64" where
  "get_max_sequence_number_in_viewchange_by_view log v =
     foldl (\<lambda>mx viewchange. max_prepare_loop mx (proof_prepares (vc_proof_messages viewchange)))
       0 (bucket (viewchanges log) v)"

fun first_preprepare_loop ::
    "(u64 \<rightharpoonup> pre_prepare) \<Rightarrow> message_type list \<Rightarrow> (u64 \<rightharpoonup> pre_prepare)" where
  "first_preprepare_loop m [] = m"
| "first_preprepare_loop m (PrePrepare preprepare # ms) =
     (if m (pp_number preprepare) = None
      then first_preprepare_loop (m(pp_number preprepare \<mapsto> preprepare)) ms
      else first_preprepare_loop m ms)"
| "first_preprepare_loop m (_ # ms) = first_preprepare_loop m ms"

definition preprepare_map :: "consensus_log \<Rightarrow> u64 \<Rightarrow> (u64 \<rightharpoonup> pre_prepare)" where
  "preprepare_map log v =
     foldl (\<lambda>m viewchange. first_preprepare_loop m (proof_preprepares (vc_proof_messages viewchange)))
       Map.empty (bucket (viewchanges log) v)"

text \<open>\<open>pks\<close> is the iteration order of the local map.\<close>

definition get_preprepare_for_not_executed_request_by_view ::
    "u64 list \<Rightarrow> consensus_log \<Rightarrow> u64 \<Rightarrow> u64 \<Rightarrow> u64 \<Rightarrow> pre_prepare list" where
  "get_preprepare_for_not_executed_request_by_view pks log v mn mx =
     List.map_filter (preprepare_map log v) (filter (\<lambda>k. k > mn \<and> k \<le> mx) pks)"

definition null_preprepare :: "u64 \<Rightarrow> u64 \<Rightarrow> pre_prepare" where
  "null_preprepare v i = \<lparr>pp_view = v, pp_number = i, pp_m_hash = ''NULL'', pp_m = [],
     pp_signature = [], pp_from_peer_id = []\<rparr>"

definition create_newview_preprepare_messages ::
    "consensus_log \<Rightarrow> u64 \<Rightarrow> u64 \<Rightarrow> u64 \<Rightarrow> pre_prepare list option" where
  "create_newview_preprepare_messages log v mn mx = do {
     lo \<leftarrow> u64_add mn 1;
     hi \<leftarrow> u64_add mx 1;
     Some (map (\<lambda>i. case preprepare_map log v i of
                  Some preprepare \<Rightarrow> preprepare
                | None \<Rightarrow> null_preprepare v i)
            (map of_nat [unat lo..<unat hi]))
   }"

subsection \<open>The controller's log\<close>

record controller_log =
  ctl_messages :: "string \<rightharpoonup> message_type list"
  requests_instant :: "(string \<times> instant) list"

definition controller_log_new :: controller_log where
  "controller_log_new = \<lparr>ctl_messages = Map.empty, requests_instant = []\<rparr>"

definition ctl_record_request :: "'a ext_scheme \<Rightarrow> controller_log \<Rightarrow> request \<Rightarrow> controller_log" where
  "ctl_record_request E log msg =
     (let msg_type = Request msg; key_hash = get_message_key E msg_type
      in log\<lparr>ctl_messages := push_bucket (ctl_messages log) key_hash msg_type\<rparr>)"

definition ctl_record_reply :: "'a ext_scheme \<Rightarrow> controller_log \<Rightarrow> reply \<Rightarrow> controller_log" where
  "ctl_record_reply E log msg =
     (let msg_type = Reply msg; key_hash = get_message_key E msg_type
      in log\<lparr>ctl_messages := push_bucket (ctl_messages log) key_hash msg_type\<rparr>)"

fun ctl_record_message_handler ::
    "'a ext_scheme \<Rightarrow> controller_log \<Rightarrow> message_type \<Rightarrow> controller_log" where
  "ctl_record_message_handler E log (Request request) = ctl_record_request E log request"
| "ctl_record_message_handler E log (Reply reply) = ctl_record_reply E log reply"
| "ctl_record_message_handler E log _ = log"

definition ctl_get_local_messages_by_hash :: "controller_log \<Rightarrow> string \<Rightarrow> message_type list" where
  "ctl_get_local_messages_by_hash log hash = bucket (ctl_messages log) hash"

definition ctl_get_local_messages_count_by_hash :: "controller_log \<Rightarrow> string \<Rightarrow> nat" where
  "ctl_get_local_messages_count_by_hash log hash = bucket_len (ctl_messages log) hash"

lemmas record_defs = record_preprepare_def record_prepare_def record_commit_def record_reply_def
  record_checkpoint_def record_viewchange_def
lemmas read_defs = get_local_messages_by_hash_def get_local_messages_count_by_hash_def
  get_local_reply_messages_count_by_hash_def get_viewchange_messages_by_view_def
  get_viewchange_messages_count_by_view_def get_checkpoint_count_def
  get_local_request_by_sequence_number_def get_request_phase_state_def

subsection \<open>The log's stores are bucket stores\<close>

text \<open>
  Each kind of quorum message is filed under its message key, replies in a store of their
  own, view changes under the view they ask for, checkpoints under number and digest.
\<close>

interpretation preprepare_store: bucket_store
  "record_preprepare E" get_local_messages_by_hash get_local_messages_count_by_hash
  "\<lambda>m. get_message_key E (PrePrepare m)" PrePrepare for E :: "'a ext_scheme"
  by unfold_locales (auto simp: record_defs read_defs Let_def)

interpretation prepare_store: bucket_store
  "record_prepare E" get_local_messages_by_hash get_local_messages_count_by_hash
  "\<lambda>m. get_message_key E (Prepare m)" Prepare for E :: "'a ext_scheme"
  by unfold_locales (auto simp: record_defs read_defs Let_def)

interpretation commit_store: bucket_store
  "record_commit E" get_local_messages_by_hash get_local_messages_count_by_hash
  "\<lambda>m. get_message_key E (Commit m)" Commit for E :: "'a ext_scheme"
  by unfold_locales (auto simp: record_defs read_defs Let_def)

interpretation reply_store: bucket_store
  "record_reply E" "\<lambda>log. bucket (reply_messages log)" get_local_reply_messages_count_by_hash
  "\<lambda>m. get_message_key E (Reply m)" Reply for E :: "'a ext_scheme"
  by unfold_locales (auto simp: record_defs read_defs Let_def)

interpretation viewchange_store: bucket_store
  record_viewchange get_viewchange_messages_by_view get_viewchange_messages_count_by_view
  vc_new_view "\<lambda>m. m"
  by unfold_locales (auto simp: record_defs read_defs)

interpretation checkpoint_store: bucket_store
  record_checkpoint "\<lambda>log. bucket (checkpoints log)" get_checkpoint_count
  "\<lambda>m. (current_max_number m, checkpoint_state_digest m)" "\<lambda>m. m"
  by unfold_locales (auto simp: record_defs read_defs)

interpretation ctl_request_store: bucket_store
  "ctl_record_request E" ctl_get_local_messages_by_hash ctl_get_local_messages_count_by_hash
  "\<lambda>m. get_message_key E (Request m)" Request for E :: "'a ext_scheme"
  by unfold_locales (auto simp: ctl_record_request_def ctl_get_local_messages_by_hash_def
      ctl_get_local_messages_count_by_hash_def Let_def)

interpretation ctl_reply_store: bucket_store
  "ctl_record_reply E" ctl_get_local_messages_by_hash ctl_get_local_messages_count_by_hash
  "\<lambda>m. get_message_key E (Reply m)" Reply for E :: "'a ext_scheme"
  by unfold_locales (auto simp: ctl_record_reply_def ctl_get_local_messages_by_hash_def
      ctl_get_local_messages_count_by_hash_def Let_def)

subsection \<open>What each operation leaves alone\<close>

lemma record_request_frame [log_simps]:
  "messages (record_request n r log) = messages log"
  "reply_messages (record_request n r log) = reply_messages log"
  "checkpoints (record_request n r log) = checkpoints log"
  "viewchanges (record_request n r log) = viewchanges log"
  "request_map (record_request n r log) = request_map log"
  "request_phase_state (record_request n r log) = request_phase_state log"
  "current_requests (record_request n r log) = current_requests log"
  by (simp_all add: record_request_def)

lemma record_message_handler_frame [log_simps]:
  "requests (record_message_handler E log m) = requests log"
  "request_map (record_message_handler E log m) = request_map log"
  "request_phase_state (record_message_handler E log m) = request_phase_state log"
  "current_requests (record_message_handler E log m) = current_requests log"
  by (cases m; simp add: record_defs Let_def)+

lemma reset_fields [log_simps]:
  "requests (reset log) = Map.empty"
  "messages (reset log) = Map.empty"
  "reply_messages (reset log) = reply_messages log"
  "checkpoints (reset log) = Map.empty"
  "viewchanges (reset log) = Map.empty"
  "request_map (reset log) = Map.empty"
  "request_phase_state (reset log) = Map.empty"
  "current_requests (reset log) = []"
  by (simp_all add: reset_def)

lemma discard_frame [log_simps]:
  "requests (discard_messages_before_stable_checkpoint E rks cks n log) = requests log"
  "request_map (discard_messages_before_stable_checkpoint E rks cks n log) = request_map log"
  "current_requests (discard_messages_before_stable_checkpoint E rks cks n log) = current_requests log"
  "viewchanges (discard_messages_before_stable_checkpoint E rks cks n log) = viewchanges log"
  "reply_messages (discard_messages_before_stable_checkpoint E rks cks n log) = reply_messages log"
  "request_phase_state (discard_messages_before_stable_checkpoint E rks cks n log) = request_phase_state log"
  by (simp_all add: discard_messages_before_stable_checkpoint_def Let_def)

lemma small_updates_frame [log_simps]:
  "request_map (remove_commited_request log) = request_map log"
  "request_map (clear_current_request log) = request_map log"
  "request_map (update_request_phase_state k st log) = request_map log"
  "current_requests (remove_commited_request log) = tl (current_requests log)"
  "current_requests (clear_current_request log) = []"
  "current_requests (update_request_phase_state k st log) = current_requests log"
  by (simp_all add: remove_commited_request_def clear_current_request_def update_request_phase_state_def)

subsection \<open>Lemmas on the loops\<close>

lemma foldl_delete: "foldl (\<lambda>m k. m(k := None)) m ks k = (if k \<in> set ks then None else m k)"
  by (induction ks arbitrary: m) auto

lemma foldl_delete3:
  "foldl (\<lambda>m (k1, k2, k3). m(k1 := None, k2 := None, k3 := None)) m ts k =
     (if \<exists>(k1, k2, k3) \<in> set ts. k \<in> {k1, k2, k3} then None else m k)"
  by (induction ts arbitrary: m) (auto split: if_splits)

lemma max_prepare_loop_ge: "mx \<le> max_prepare_loop mx ms"
  by (induction mx ms rule: max_prepare_loop.induct) (auto intro: order_trans)

lemma max_prepare_loop_upper: "Prepare p \<in> set ms \<Longrightarrow> p_number p \<le> max_prepare_loop mx ms"
proof (induction mx ms rule: max_prepare_loop.induct)
  case (2 mx q ms)
  then show ?case
    using max_prepare_loop_ge [of "p_number p" ms] max_prepare_loop_ge [of mx ms]
    by (auto simp: not_less intro: order_trans)
qed auto

lemma max_prepare_loop_attained:
  "max_prepare_loop mx ms = mx \<or> (\<exists>p. Prepare p \<in> set ms \<and> max_prepare_loop mx ms = p_number p)"
  by (induction mx ms rule: max_prepare_loop.induct) auto

lemma first_preprepare_loop_keeps: "m k = Some p \<Longrightarrow> first_preprepare_loop m ms k = Some p"
proof (induction m ms rule: first_preprepare_loop.induct)
  case (2 m q ms)
  then show ?case by (cases "k = pp_number q") (simp_all del: fun_upd_apply add: fun_upd_same fun_upd_other)
qed auto

lemma first_preprepare_loop_sound:
  "first_preprepare_loop m ms k = Some p \<Longrightarrow>
   m k = Some p \<or> (PrePrepare p \<in> set ms \<and> pp_number p = k)"
  by (induction m ms rule: first_preprepare_loop.induct) (auto split: if_splits)

lemma first_preprepare_loop_complete:
  "PrePrepare p \<in> set ms \<Longrightarrow> first_preprepare_loop m ms (pp_number p) \<noteq> None"
proof (induction m ms rule: first_preprepare_loop.induct)
  case (2 m q ms)
  show ?case
  proof (cases "m (pp_number q) = None")
    case True
    have "first_preprepare_loop (m(pp_number q \<mapsto> q)) ms (pp_number q) = Some q"
      by (rule first_preprepare_loop_keeps) simp
    with 2 True show ?thesis by (cases "p = q") (simp_all del: fun_upd_apply)
  next
    case False
    then obtain r where "m (pp_number q) = Some r" by blast
    with 2 show ?thesis
      by (cases "p = q") (auto dest: first_preprepare_loop_keeps)
  qed
qed auto

end
