(* ===== verification/PBFT_Protocol.thy ===== *)
theory PBFT_Protocol
  imports PBFT_State PBFT_Log
begin

text \<open>
  The PBFT node (\<open>protocols/src/pbft/protocol.rs\<close>): its state, one definition per handler,
  and the dispatch of a received message. A handler returns the new protocol state and the
  \<open>PhaseState\<close> for the actuator; \<open>None\<close> is a panic.
\<close>

subsection \<open>The protocol object\<close>

text \<open>
  \<open>stop_notified\<close> counts the calls of \<open>view_timeout_stop_notify.notify_one()\<close>; the other
  notification handles of the source are never used after construction.
\<close>

record pbft_protocol =
  pstate :: state
  plog :: consensus_log
  taken_requests :: "bytes set"
  keypair :: bytes
  phase_map :: "u8 \<rightharpoonup> string"
  consensus_node_pk :: "bytes \<rightharpoonup> bytes"
  stop_notified :: nat

definition pbft_default :: "bytes \<Rightarrow> pbft_protocol" where
  "pbft_default kp =
     \<lparr>pstate = state_new 5, plog = consensus_log_new, taken_requests = {}, keypair = kp,
      phase_map = Map.empty, consensus_node_pk = Map.empty, stop_notified = 0\<rparr>"

definition view_timeout_stop :: "pbft_protocol \<Rightarrow> pbft_protocol" where
  "view_timeout_stop p = p\<lparr>stop_notified := Suc (stop_notified p)\<rparr>"

definition broadcast_of :: "'a pbft_ext_scheme \<Rightarrow> message_type \<Rightarrow> send_type" where
  "broadcast_of E m = Broadcast (json_consensus_message E \<lparr>msg_type = m\<rparr>)"

subsection \<open>View change\<close>

definition broadcast_viewchange ::
    "'a pbft_ext_scheme \<Rightarrow> pbft_protocol \<Rightarrow> bytes \<Rightarrow> phase_state option" where
  "broadcast_viewchange E p current_peer_id = do {
     threshold \<leftarrow> u64_mul 2 (fault_tolerance_count (pstate p));
     proof_msgs \<leftarrow> get_proof_messages E (plog p);
     next_view \<leftarrow> u64_add (view (pstate p)) 1;
     Some (ContinueExecute
       [broadcast_of E (ViewChange (ViewChangeMsg next_view proof_msgs current_peer_id ''''))])
   }"

definition broadcast_newview ::
    "'a pbft_ext_scheme \<Rightarrow> pbft_protocol \<Rightarrow> u64 \<Rightarrow> phase_state option" where
  "broadcast_newview E p v = do {
     let vcs = get_viewchange_messages_by_view (plog p) v;
     let mx = get_max_sequence_number_in_viewchange_by_view (plog p) v;
     preprepares \<leftarrow> create_newview_preprepare_messages (plog p) v 0 mx;
     Some (ContinueExecute [broadcast_of E (NewView (NewViewMsg v vcs preprepares ''''))])
   }"

definition handle_viewchange ::
    "'a pbft_ext_scheme \<Rightarrow> pbft_protocol \<Rightarrow> bytes \<Rightarrow> view_change \<Rightarrow> (pbft_protocol \<times> phase_state) option" where
  "handle_viewchange E p current_peer_id msg =
     (let v = vc_new_view msg in
      if v \<le> view (pstate p) then Some (p, ContinueExecute [])
      else
        let p1 = p\<lparr>plog := record_message_handler E (plog p) (ViewChange msg)\<rparr>;
            msg_count = get_viewchange_messages_count_by_view (plog p1) v
        in if msg_count > unat (fault_tolerance_count (pstate p1))
           then map_option (\<lambda>ps. (p1, ps)) (broadcast_viewchange E p1 current_peer_id)
           else do {
             leads \<leftarrow> (if is_primary (pstate p1)
                       then do { t \<leftarrow> u64_mul 2 (fault_tolerance_count (pstate p1)); Some (msg_count > unat t) }
                       else Some False);
             if leads then map_option (\<lambda>ps. (p1, ps)) (broadcast_newview E p1 v)
             else Some (p1, ContinueExecute [])
           })"

text \<open>
  The loop of \<open>handle_newview\<close>. The prepare messages it sends are serialized without the
  \<open>ConsensusMessage\<close> wrapper.
\<close>

fun newview_loop :: "'a pbft_ext_scheme \<Rightarrow> u64 \<Rightarrow> bytes \<Rightarrow> pre_prepare list \<Rightarrow> consensus_log \<Rightarrow>
    send_type list \<Rightarrow> consensus_log \<times> send_type list" where
  "newview_loop E v current_peer_id [] log query = (log, query)"
| "newview_loop E v current_peer_id (preprepare # rest) log query =
     (let log1 = record_message_handler E log (PrePrepare preprepare);
          prepare = \<lparr>p_view = v, p_number = pp_number preprepare, p_m_hash = pp_m_hash preprepare,
                     p_from_peer_id = current_peer_id, p_signature = []\<rparr>
      in newview_loop E v current_peer_id rest log1
           (query @ [Broadcast (json_message_type E (Prepare prepare))]))"

definition handle_newview ::
    "'a pbft_ext_scheme \<Rightarrow> pbft_protocol \<Rightarrow> bytes \<Rightarrow> new_view \<Rightarrow> (pbft_protocol \<times> phase_state) option" where
  "handle_newview E p current_peer_id msg =
     (let p1 = view_timeout_stop (p\<lparr>pstate := (pstate p)\<lparr>view := nv_view msg\<rparr>\<rparr>);
          log1 = clear_current_request (plog p1);
          (log2, query) = newview_loop E (nv_view msg) current_peer_id (nv_preprepares msg) log1 []
      in Some (p1\<lparr>plog := log2\<rparr>, ContinueExecute query))"

subsection \<open>Public keys and signatures\<close>

definition get_public_key_by_peer_id :: "pbft_protocol \<Rightarrow> bytes \<Rightarrow> bytes option" where
  "get_public_key_by_peer_id p peer_id = consensus_node_pk p peer_id"

text \<open>
  The signature check at the head of the handlers: the sender's key must be known and must
  verify the signature over the message key. (\<open>PeerId::from_bytes(..).expect\<close> comes first.)
\<close>

definition signature_ok ::
    "'a ext_scheme \<Rightarrow> pbft_protocol \<Rightarrow> bytes \<Rightarrow> bytes \<Rightarrow> string \<Rightarrow> bool" where
  "signature_ok E p from_peer_id signature key_str =
     (case get_public_key_by_peer_id p from_peer_id of
        Some key \<Rightarrow> eddsa_verify E key signature (as_bytes key_str)
      | None \<Rightarrow> False)"

definition distribute_public_key :: "'a pbft_ext_scheme \<Rightarrow> pbft_protocol \<Rightarrow> bytes \<Rightarrow> phase_state" where
  "distribute_public_key E p current_peer_id =
     ContinueExecute [broadcast_of E (PublicKey
       \<lparr>pk = eddsa_get_public_key E (keypair p), pk_from_peer_id = current_peer_id\<rparr>)]"

definition storage_public_key_by_peer_id ::
    "'a ext_scheme \<Rightarrow> pbft_protocol \<Rightarrow> public_key \<Rightarrow> (pbft_protocol \<times> phase_state) option" where
  "storage_public_key_by_peer_id E p public_key = do {
     let p1 = (case consensus_node_pk p (pk_from_peer_id public_key) of
                 Some _ \<Rightarrow> p
               | None \<Rightarrow> p\<lparr>consensus_node_pk :=
                   (consensus_node_pk p)(pk_from_peer_id public_key \<mapsto> pk public_key)\<rparr>);
     _ \<leftarrow> peer_from_bytes E (pk_from_peer_id public_key);
     Some (p1, ContinueExecute [])
   }"

subsection \<open>Normal case\<close>

definition handle_request ::
    "'a pbft_ext_scheme \<Rightarrow> pbft_protocol \<Rightarrow> bytes \<Rightarrow> request \<Rightarrow> (pbft_protocol \<times> phase_state) option" where
  "handle_request E p current_peer_id request = do {
     let p1 = p\<lparr>taken_requests := insert (bincode_request E request) (taken_requests p),
                pstate := (pstate p)\<lparr>primary := current_peer_id\<rparr>\<rparr>;
     seq_number \<leftarrow> u64_add (current_sequence_number (pstate p1)) 1;
     let serialized_request = json_request E request;
     let p2 = p1\<lparr>plog := record_request seq_number request (plog p1)\<rparr>;
     let preprepare = \<lparr>pp_view = view (pstate p2), pp_number = seq_number,
                       pp_m_hash = get_hash_str E serialized_request, pp_m = serialized_request,
                       pp_signature = [], pp_from_peer_id = current_peer_id\<rparr>;
     let signature = eddsa_sign E (keypair p2) (as_bytes (get_message_key E (PrePrepare preprepare)));
     Some (p2, ContinueExecute [broadcast_of E (PrePrepare (preprepare\<lparr>pp_signature := signature\<rparr>))])
   }"

text \<open>
  The last statement of the source's \<open>handle_preprepare\<close>,
  \<open>self.log.record_current_request(&msg.m_hash);\<close>, creates a future that is dropped without
  being awaited, so it has no effect.
\<close>

definition handle_preprepare ::
    "'a pbft_ext_scheme \<Rightarrow> pbft_protocol \<Rightarrow> bytes \<Rightarrow> pre_prepare \<Rightarrow> (pbft_protocol \<times> phase_state) option" where
  "handle_preprepare E p current_peer_id msg = do {
     request \<leftarrow> from_json_request E (pp_m msg);
     let p1 = p\<lparr>taken_requests := insert (bincode_request E request) (taken_requests p),
                pstate := (pstate p)\<lparr>primary := pp_from_peer_id msg\<rparr>\<rparr>;
     let key_str = get_message_key E (PrePrepare msg);
     _ \<leftarrow> peer_from_bytes E (pp_from_peer_id msg);
     if \<not> signature_ok E p1 (pp_from_peer_id msg) (pp_signature msg) key_str
     then Some (p1, ContinueExecute [])
     else do {
       let low = fst (stable_checkpoint (pstate p1));
       high \<leftarrow> u64_add low 100;
       if pp_number msg \<le> low \<or> pp_number msg > high then Some (p1, ContinueExecute [])
       else if view (pstate p1) \<noteq> pp_view msg then Some (p1, ContinueExecute [])
       else do {
         m \<leftarrow> from_json_request E (pp_m msg);
         let log1 = record_request (pp_number msg) m (plog p1);
         let log2 = record_message_handler E log1 (PrePrepare msg);
         let prepare = \<lparr>p_view = view (pstate p1), p_number = pp_number msg, p_m_hash = pp_m_hash msg,
                        p_from_peer_id = current_peer_id, p_signature = []\<rparr>;
         let signature = eddsa_sign E (keypair p1) (as_bytes (get_message_key E (Prepare prepare)));
         Some (p1\<lparr>plog := log2\<rparr>,
               ContinueExecute [broadcast_of E (Prepare (prepare\<lparr>p_signature := signature\<rparr>))])
       }
     }
   }"

definition handle_prepare ::
    "'a pbft_ext_scheme \<Rightarrow> pbft_protocol \<Rightarrow> bytes \<Rightarrow> prepare \<Rightarrow> (pbft_protocol \<times> phase_state) option" where
  "handle_prepare E p current_peer_id msg = do {
     let key_str = get_message_key E (Prepare msg);
     _ \<leftarrow> peer_from_bytes E (p_from_peer_id msg);
     if \<not> signature_ok E p (p_from_peer_id msg) (p_signature msg) key_str
     then Some (p, ContinueExecute [])
     else if get_request_phase_state (plog p) (p_m_hash msg) = Some LogPrepared
     then Some (p, ContinueExecute [])
     else do {
       let low = fst (stable_checkpoint (pstate p));
       high \<leftarrow> u64_add low 100;
       if p_number msg \<le> low \<or> p_number msg > high then Some (p, ContinueExecute [])
       else if view (pstate p) \<noteq> p_view msg then Some (p, ContinueExecute [])
       else case get_local_request_by_sequence_number (plog p) (p_number msg) of
         None \<Rightarrow> Some (p, ContinueExecute [])
       | Some m \<Rightarrow>
           if get_message_key E (Request m) \<noteq> p_m_hash msg then Some (p, ContinueExecute [])
           else do {
             let log1 = record_message_handler E (plog p) (Prepare msg);
             let current_count = get_local_messages_count_by_hash log1 key_str;
             threshold \<leftarrow> u64_mul 2 (fault_tolerance_count (pstate p));
             if current_count = unat threshold
             then do {
               let log2 = update_request_phase_state (p_m_hash msg) LogPrepared log1;
               let commit = \<lparr>c_view = view (pstate p), c_number = p_number msg, c_m_hash = p_m_hash msg,
                             c_from_peer_id = current_peer_id, c_signature = []\<rparr>;
               let signature = eddsa_sign E (keypair p) (as_bytes (get_message_key E (Commit commit)));
               Some (p\<lparr>plog := log2\<rparr>,
                     ContinueExecute [broadcast_of E (Commit (commit\<lparr>c_signature := signature\<rparr>))])
             }
             else Some (p\<lparr>plog := log1\<rparr>, ContinueExecute [])
           }
     }
   }"

definition handle_commit ::
    "'a pbft_ext_scheme \<Rightarrow> pbft_protocol \<Rightarrow> bytes \<Rightarrow> commit \<Rightarrow> (pbft_protocol \<times> phase_state) option" where
  "handle_commit E p current_peer_id msg = do {
     let key_str = get_message_key E (Commit msg);
     let count = get_local_messages_count_by_hash (plog p) key_str;
     threshold \<leftarrow> u64_mul 2 (fault_tolerance_count (pstate p));
     if count \<ge> unat threshold then Some (p, ContinueExecute [])
     else do {
       _ \<leftarrow> peer_from_bytes E (c_from_peer_id msg);
       if \<not> signature_ok E p (c_from_peer_id msg) (c_signature msg) key_str
       then Some (p, ContinueExecute [])
       else if get_request_phase_state (plog p) (c_m_hash msg) = Some LogCommited
       then Some (p, ContinueExecute [])
       else do {
         let low = fst (stable_checkpoint (pstate p));
         high \<leftarrow> u64_add low 100;
         if c_number msg \<le> low \<or> c_number msg > high then Some (p, ContinueExecute [])
         else if view (pstate p) \<noteq> c_view msg then Some (p, ContinueExecute [])
         else case get_local_request_by_sequence_number (plog p) (c_number msg) of
           None \<Rightarrow> Some (p, ContinueExecute [])
         | Some m \<Rightarrow>
             if get_message_key E (Request m) \<noteq> c_m_hash msg then Some (p, ContinueExecute [])
             else do {
               let log1 = record_message_handler E (plog p) (Commit msg);
               let current_count = get_local_messages_count_by_hash log1 key_str;
               if current_count > unat threshold then Some (p\<lparr>plog := log1\<rparr>, ContinueExecute [])
               else if current_count = unat threshold
               then do {
                 let st1 = update_checkpoint_state E (c_m_hash msg) (pstate p);
                 let log2 = remove_commited_request log1;
                 commited \<leftarrow> u64_add (current_commited_request_count st1) 1;
                 let st2 = st1\<lparr>current_commited_request_count := commited\<rparr>;
                 let log3 = update_request_phase_state (c_m_hash msg) LogCommited log2;
                 let reply = \<lparr>r_cmd = cmd m, r_view = view st2, r_number = c_number msg,
                              r_from_peer_id = current_peer_id, r_signature = [],
                              r_result = as_bytes ''ok!''\<rparr>;
                 let signature = eddsa_sign E (keypair p) (as_bytes (get_message_key E (Reply reply)));
                 let serialized_msg = json_consensus_message E
                       \<lparr>msg_type = Reply (reply\<lparr>r_signature := signature\<rparr>)\<rparr>;
                 primary_id \<leftarrow> peer_from_bytes E (primary st2);
                 Some (p\<lparr>pstate := st2, plog := reset log3\<rparr>,
                       Complete \<lparr>cmd = cmd m\<rparr> [Unicast primary_id serialized_msg])
               }
               else Some (p\<lparr>plog := log1\<rparr>, ContinueExecute [])
             }
       }
     }
   }"

definition handle_reply ::
    "'a pbft_ext_scheme \<Rightarrow> pbft_protocol \<Rightarrow> bytes \<Rightarrow> reply \<Rightarrow> (pbft_protocol \<times> phase_state) option" where
  "handle_reply E p current_peer_id msg = do {
     let key_str = get_message_key E (Reply msg);
     threshold \<leftarrow> u64_sub (node_count (pstate p)) (fault_tolerance_count (pstate p));
     _ \<leftarrow> peer_from_bytes E (r_from_peer_id msg);
     if \<not> signature_ok E p (r_from_peer_id msg) (r_signature msg) key_str
     then Some (p, ContinueExecute [])
     else do {
       let log1 = record_message_handler E (plog p) (Reply msg);
       let current_count = get_local_reply_messages_count_by_hash log1 key_str;
       d \<leftarrow> u64_sub (node_count (pstate p)) (fault_tolerance_count (pstate p));
       reply_threshold \<leftarrow> u64_sub d 1;
       if current_count = unat reply_threshold
       then if utf8_valid (r_result msg)
            then Some (p\<lparr>plog := (reset log1)\<lparr>reply_messages := Map.empty\<rparr>\<rparr>, Over None)
            else None
       else Some (p\<lparr>plog := log1\<rparr>, ContinueExecute [])
     }
   }"

text \<open>\<open>rks\<close>, \<open>cks\<close>: the iteration orders of \<open>request_map\<close> and \<open>checkpoints\<close> at this call.\<close>

definition handle_checkpoint ::
    "'a pbft_ext_scheme \<Rightarrow> string list \<Rightarrow> (u64 \<times> string) list \<Rightarrow> pbft_protocol \<Rightarrow> bytes \<Rightarrow> check_point \<Rightarrow>
     (pbft_protocol \<times> phase_state) option" where
  "handle_checkpoint E rks cks p current_peer_id msg = do {
     let log1 = record_message_handler E (plog p) (CheckPoint msg);
     let current_checkpoint_count =
           get_checkpoint_count log1 (current_max_number msg, checkpoint_state_digest msg);
     threshold \<leftarrow> u64_mul 2 (fault_tolerance_count (pstate p));
     if current_checkpoint_count = unat threshold
     then Some (p\<lparr>pstate := (pstate p)\<lparr>stable_checkpoint :=
                    (current_max_number msg, checkpoint_state_digest msg)\<rparr>,
                  plog := discard_messages_before_stable_checkpoint E rks cks (current_max_number msg) log1\<rparr>,
                ContinueExecute [])
     else Some (p\<lparr>plog := log1\<rparr>, ContinueExecute [])
   }"

subsection \<open>The protocol interface\<close>

definition extra_initial_start ::
    "'a pbft_ext_scheme \<Rightarrow> pbft_protocol \<Rightarrow> peer_id list \<Rightarrow> bytes \<Rightarrow> pbft_protocol \<times> phase_state" where
  "extra_initial_start E p consensus_nodes current_peer_id =
     (let p1 = p\<lparr>pstate := (pstate p)\<lparr>primary := current_peer_id,
                   node_count := of_nat (length (remdups consensus_nodes))\<rparr>\<rparr>
      in (p1, OverMessage None
            (broadcast_of E DistributePK # sends (distribute_public_key E p1 current_peer_id))))"

text \<open>One delivery: the bytes, and the iteration orders a checkpoint would see.\<close>

record pbft_input =
  in_bytes :: bytes
  in_request_map_order :: "string list"
  in_checkpoints_order :: "(u64 \<times> string) list"

fun handle_message_type ::
    "'a pbft_ext_scheme \<Rightarrow> bytes \<Rightarrow> pbft_input \<Rightarrow> pbft_protocol \<Rightarrow> message_type \<Rightarrow>
     (pbft_protocol \<times> phase_state) option" where
  "handle_message_type E current_peer_id i p (Request msg) = handle_request E p current_peer_id msg"
| "handle_message_type E current_peer_id i p (PrePrepare msg) = handle_preprepare E p current_peer_id msg"
| "handle_message_type E current_peer_id i p (Prepare msg) = handle_prepare E p current_peer_id msg"
| "handle_message_type E current_peer_id i p (Commit msg) = handle_commit E p current_peer_id msg"
| "handle_message_type E current_peer_id i p (Reply msg) = handle_reply E p current_peer_id msg"
| "handle_message_type E current_peer_id i p (CheckPoint msg) =
     handle_checkpoint E (in_request_map_order i) (in_checkpoints_order i) p current_peer_id msg"
| "handle_message_type E current_peer_id i p (ViewChange msg) = handle_viewchange E p current_peer_id msg"
| "handle_message_type E current_peer_id i p (NewView msg) = handle_newview E p current_peer_id msg"
| "handle_message_type E current_peer_id i p (PublicKey msg) = storage_public_key_by_peer_id E p msg"
| "handle_message_type E current_peer_id i p DistributePK =
     Some (p, distribute_public_key E p current_peer_id)"

definition consensus_protocol_message_handler ::
    "'a pbft_ext_scheme \<Rightarrow> bytes \<Rightarrow> pbft_protocol \<Rightarrow> pbft_input \<Rightarrow> (pbft_protocol \<times> phase_state) option" where
  "consensus_protocol_message_handler E current_peer_id p i = do {
     message \<leftarrow> from_json_consensus_message E (in_bytes i);
     handle_message_type E current_peer_id i p (msg_type message)
   }"

definition check_taken_request :: "pbft_protocol \<Rightarrow> bytes \<Rightarrow> bool" where
  "check_taken_request p request = (request \<in> taken_requests p)"

definition receive_consensus_requests :: "pbft_protocol \<Rightarrow> request list \<Rightarrow> pbft_protocol option" where
  "receive_consensus_requests p rs = None"

definition generate_serialized_request_message :: "'a pbft_ext_scheme \<Rightarrow> request \<Rightarrow> bytes" where
  "generate_serialized_request_message E request =
     json_consensus_message E \<lparr>msg_type = Request request\<rparr>"

definition protocol_phases ::
    "'a pbft_ext_scheme \<Rightarrow> pbft_protocol \<Rightarrow> pbft_protocol \<times> (u8 \<rightharpoonup> bytes)" where
  "protocol_phases E p =
     (let prepare = \<lparr>p_view = 1, p_number = 1, p_m_hash = '''', p_from_peer_id = [], p_signature = []\<rparr>;
          commit = \<lparr>c_view = 1, c_number = 2, c_m_hash = '''', c_from_peer_id = [], c_signature = []\<rparr>
      in (p\<lparr>phase_map := (phase_map p)(1 \<mapsto> ''Prepare'', 2 \<mapsto> ''Commit'')\<rparr>,
          [1 \<mapsto> as_bytes (json_prepare_str E prepare), 2 \<mapsto> as_bytes (json_commit_str E commit)]))"

definition get_current_phase :: "'a pbft_ext_scheme \<Rightarrow> bytes \<Rightarrow> u8 option" where
  "get_current_phase E msg =
     (if msg = [] then Some 0
      else do {
        data \<leftarrow> from_json_consensus_message E msg;
        Some (case msg_type data of Prepare _ \<Rightarrow> 1 | Commit _ \<Rightarrow> 2 | _ \<Rightarrow> 0)
      })"

definition current_request :: "pbft_protocol \<Rightarrow> request option" where
  "current_request p = None"

definition is_leader :: "pbft_protocol \<Rightarrow> bytes \<Rightarrow> bool" where
  "is_leader p peer_id = (primary (pstate p) = peer_id)"

end
