(* ===== verification/PBFT_Invariants.thy ===== *)
theory PBFT_Invariants
  imports PBFT_Protocol
begin

text \<open>
  What each PBFT handler can do, as one elimination rule per handler, the reachable states
  of a node, and the invariants every delivery keeps.
\<close>

subsection \<open>Validity of the quorum messages\<close>

text \<open>The sequence number window above the stable checkpoint.\<close>

definition in_window :: "pbft_protocol \<Rightarrow> u64 \<Rightarrow> bool" where
  "in_window p n \<longleftrightarrow>
     unat (fst (stable_checkpoint (pstate p))) < unat n \<and>
     unat n \<le> unat (fst (stable_checkpoint (pstate p))) + 100"

definition prepare_valid :: "'a pbft_ext_scheme \<Rightarrow> pbft_protocol \<Rightarrow> prepare \<Rightarrow> bool" where
  "prepare_valid E p msg \<longleftrightarrow>
     signature_ok E p (p_from_peer_id msg) (p_signature msg) (get_message_key E (Prepare msg)) \<and>
     request_phase_state (plog p) (p_m_hash msg) \<noteq> Some LogPrepared \<and>
     in_window p (p_number msg) \<and> p_view msg = view (pstate p) \<and>
     (case requests (plog p) (p_number msg) of
        Some m \<Rightarrow> get_message_key E (Request m) = p_m_hash msg | None \<Rightarrow> False)"

definition commit_valid :: "'a pbft_ext_scheme \<Rightarrow> pbft_protocol \<Rightarrow> commit \<Rightarrow> bool" where
  "commit_valid E p msg \<longleftrightarrow>
     signature_ok E p (c_from_peer_id msg) (c_signature msg) (get_message_key E (Commit msg)) \<and>
     request_phase_state (plog p) (c_m_hash msg) \<noteq> Some LogCommited \<and>
     in_window p (c_number msg) \<and> c_view msg = view (pstate p) \<and>
     (case requests (plog p) (c_number msg) of
        Some m \<Rightarrow> get_message_key E (Request m) = c_m_hash msg | None \<Rightarrow> False)"

definition preprepare_valid :: "'a pbft_ext_scheme \<Rightarrow> pbft_protocol \<Rightarrow> pre_prepare \<Rightarrow> bool" where
  "preprepare_valid E p msg \<longleftrightarrow>
     signature_ok E p (pp_from_peer_id msg) (pp_signature msg) (get_message_key E (PrePrepare msg)) \<and>
     in_window p (pp_number msg) \<and> pp_view msg = view (pstate p)"

text \<open>The messages a node signs and sends.\<close>

definition my_preprepare :: "'a pbft_ext_scheme \<Rightarrow> pbft_protocol \<Rightarrow> bytes \<Rightarrow> request \<Rightarrow> pre_prepare" where
  "my_preprepare E p me r =
     (let preprepare = \<lparr>pp_view = view (pstate p), pp_number = current_sequence_number (pstate p) + 1,
                        pp_m_hash = get_message_key E (Request r), pp_m = json_request E r,
                        pp_signature = [], pp_from_peer_id = me\<rparr>
      in preprepare\<lparr>pp_signature := eddsa_sign E (keypair p) (as_bytes (get_message_key E (PrePrepare preprepare)))\<rparr>)"

definition my_prepare :: "'a pbft_ext_scheme \<Rightarrow> pbft_protocol \<Rightarrow> bytes \<Rightarrow> pre_prepare \<Rightarrow> prepare" where
  "my_prepare E p me msg =
     (let prepare = \<lparr>p_view = view (pstate p), p_number = pp_number msg, p_m_hash = pp_m_hash msg,
                     p_from_peer_id = me, p_signature = []\<rparr>
      in prepare\<lparr>p_signature := eddsa_sign E (keypair p) (as_bytes (get_message_key E (Prepare prepare)))\<rparr>)"

definition my_commit :: "'a pbft_ext_scheme \<Rightarrow> pbft_protocol \<Rightarrow> bytes \<Rightarrow> prepare \<Rightarrow> commit" where
  "my_commit E p me msg =
     (let commit = \<lparr>c_view = view (pstate p), c_number = p_number msg, c_m_hash = p_m_hash msg,
                    c_from_peer_id = me, c_signature = []\<rparr>
      in commit\<lparr>c_signature := eddsa_sign E (keypair p) (as_bytes (get_message_key E (Commit commit)))\<rparr>)"

definition my_reply :: "'a pbft_ext_scheme \<Rightarrow> pbft_protocol \<Rightarrow> bytes \<Rightarrow> request \<Rightarrow> commit \<Rightarrow> reply" where
  "my_reply E p me m msg =
     (let reply = \<lparr>r_cmd = cmd m, r_view = view (pstate p), r_number = c_number msg,
                   r_from_peer_id = me, r_signature = [], r_result = as_bytes ''ok!''\<rparr>
      in reply\<lparr>r_signature := eddsa_sign E (keypair p) (as_bytes (get_message_key E (Reply reply)))\<rparr>)"

lemma in_windowI:
  assumes "u64_add (fst (stable_checkpoint (pstate p))) 100 = Some high"
    and "\<not> n \<le> fst (stable_checkpoint (pstate p))" and "\<not> high < n"
  shows "in_window p n"
  using assms(2,3) u64_add_unat [OF assms(1)]
  by (auto simp: in_window_def word_le_nat_alt word_less_nat_alt)

subsection \<open>One elimination rule per handler\<close>

lemma handle_prepare_cases [consumes 1, case_names ignored recorded quorum]:
  assumes "handle_prepare E p me msg = Some (p', ps)"
  obtains (ignored) "p' = p" "ps = ContinueExecute []"
  | (recorded) "prepare_valid E p msg" "p' = p\<lparr>plog := record_prepare E (plog p) msg\<rparr>"
      "ps = ContinueExecute []"
      "length (bucket (messages (plog p')) (get_message_key E (Prepare msg))) \<noteq>
        2 * unat (fault_tolerance_count (pstate p))"
  | (quorum) "prepare_valid E p msg"
      "p' = p\<lparr>plog := update_request_phase_state (p_m_hash msg) LogPrepared (record_prepare E (plog p) msg)\<rparr>"
      "ps = ContinueExecute [broadcast_of E (Commit (my_commit E p me msg))]"
      "length (bucket (messages (plog p')) (get_message_key E (Prepare msg))) =
        2 * unat (fault_tolerance_count (pstate p))"
proof -
  have "(p' = p \<and> ps = ContinueExecute []) \<or>
     (prepare_valid E p msg \<and>
      (\<exists>t. u64_mul 2 (fault_tolerance_count (pstate p)) = Some t \<and>
       (let log1 = record_prepare E (plog p) msg;
            full = length (bucket (messages log1) (get_message_key E (Prepare msg))) = unat t
        in if full then p' = p\<lparr>plog := update_request_phase_state (p_m_hash msg) LogPrepared log1\<rparr> \<and>
              ps = ContinueExecute [broadcast_of E (Commit (my_commit E p me msg))]
           else p' = p\<lparr>plog := log1\<rparr> \<and> ps = ContinueExecute [])))"
    using assms
    by (auto simp: handle_prepare_def prepare_valid_def my_commit_def bind_eq_Some_conv Let_def
        read_defs intro: in_windowI split: if_splits option.splits)
  then show ?thesis
    using that
    by (auto simp: update_request_phase_state_def Let_def split: if_splits dest!: u64_mul_unat)
qed

text \<open>
  A pre-prepare marks its request as taken and makes its sender the primary before the
  signature is looked at.
\<close>

definition preprepare_seen :: "'a pbft_ext_scheme \<Rightarrow> pbft_protocol \<Rightarrow> pre_prepare \<Rightarrow> request \<Rightarrow> pbft_protocol" where
  "preprepare_seen E p msg request =
     p\<lparr>taken_requests := insert (bincode_request E request) (taken_requests p),
       pstate := (pstate p)\<lparr>primary := pp_from_peer_id msg\<rparr>\<rparr>"

lemma preprepare_seen_fields [simp]:
  "plog (preprepare_seen E p msg r) = plog p"
  "keypair (preprepare_seen E p msg r) = keypair p"
  "consensus_node_pk (preprepare_seen E p msg r) = consensus_node_pk p"
  "view (pstate (preprepare_seen E p msg r)) = view (pstate p)"
  "primary (pstate (preprepare_seen E p msg r)) = pp_from_peer_id msg"
  "stable_checkpoint (pstate (preprepare_seen E p msg r)) = stable_checkpoint (pstate p)"
  "fault_tolerance_count (pstate (preprepare_seen E p msg r)) = fault_tolerance_count (pstate p)"
  "is_primary (pstate (preprepare_seen E p msg r)) = is_primary (pstate p)"
  "current_sequence_number (pstate (preprepare_seen E p msg r)) = current_sequence_number (pstate p)"
  by (simp_all add: preprepare_seen_def)

lemma signature_ok_cong:
  "consensus_node_pk p' = consensus_node_pk p \<Longrightarrow> signature_ok E p' = signature_ok E p"
  by (simp add: fun_eq_iff signature_ok_def get_public_key_by_peer_id_def)

lemma handle_preprepare_cases [consumes 1, case_names ignored accepted]:
  assumes "handle_preprepare E p me msg = Some (p', ps)"
  obtains (ignored) r where "from_json_request E (pp_m msg) = Some r"
      "\<not> preprepare_valid E p msg" "p' = preprepare_seen E p msg r" "ps = ContinueExecute []"
  | (accepted) r where "from_json_request E (pp_m msg) = Some r" "preprepare_valid E p msg"
      "p' = (preprepare_seen E p msg r)\<lparr>plog :=
         record_preprepare E (record_request (pp_number msg) r (plog p)) msg\<rparr>"
      "ps = ContinueExecute [broadcast_of E (Prepare (my_prepare E p me msg))]"
proof -
  from assms obtain r where r: "from_json_request E (pp_m msg) = Some r"
    by (auto simp: handle_preprepare_def bind_eq_Some_conv)
  have seen: "signature_ok E (preprepare_seen E p msg r) = signature_ok E p"
    by (rule signature_ok_cong) simp
  have notw: "\<not> in_window p n" if "n \<le> fst (stable_checkpoint (pstate p))" for n
    using that by (simp add: in_window_def word_le_nat_alt)
  have notw2: "\<not> in_window p n"
    if "u64_add (fst (stable_checkpoint (pstate p))) 100 = Some high" "high < n" for n high
    using u64_add_unat [OF that(1)] that(2) by (simp add: in_window_def word_less_nat_alt)
  have "(\<not> preprepare_valid E p msg \<and> p' = preprepare_seen E p msg r \<and> ps = ContinueExecute []) \<or>
     (preprepare_valid E p msg \<and>
      p' = (preprepare_seen E p msg r)\<lparr>plog :=
         record_preprepare E (record_request (pp_number msg) r (plog p)) msg\<rparr> \<and>
      ps = ContinueExecute [broadcast_of E (Prepare (my_prepare E p me msg))])"
    using assms r
    unfolding handle_preprepare_def preprepare_seen_def [symmetric]
    by (auto simp: preprepare_valid_def my_prepare_def bind_eq_Some_conv Let_def seen
        preprepare_seen_def [symmetric] dest: notw notw2 intro: in_windowI split: if_splits)
  with r that show ?thesis by blast
qed

lemma reset_eq: "reply_messages log' = reply_messages log \<Longrightarrow> reset log' = reset log"
  by (cases log; cases log') (simp add: reset_def)

lemma handle_commit_cases [consumes 1, case_names ignored recorded committed]:
  assumes "handle_commit E p me msg = Some (p', ps)"
  obtains (ignored) "p' = p" "ps = ContinueExecute []"
  | (recorded) "commit_valid E p msg" "p' = p\<lparr>plog := record_commit E (plog p) msg\<rparr>"
      "ps = ContinueExecute []"
      "length (bucket (messages (plog p')) (get_message_key E (Commit msg))) <
        2 * unat (fault_tolerance_count (pstate p))"
  | (committed) m primary_id where "commit_valid E p msg"
      "requests (plog p) (c_number msg) = Some m"
      "Suc (length (bucket (messages (plog p)) (get_message_key E (Commit msg)))) =
        2 * unat (fault_tolerance_count (pstate p))"
      "peer_from_bytes E (primary (pstate p)) = Some primary_id"
      "unat (current_commited_request_count (pstate p)) + 1 < 2 ^ 64"
      "p' = p\<lparr>pstate := (update_checkpoint_state E (c_m_hash msg) (pstate p))\<lparr>
                current_commited_request_count := current_commited_request_count (pstate p) + 1\<rparr>,
              plog := reset (plog p)\<rparr>"
      "ps = Complete \<lparr>cmd = cmd m\<rparr> [Unicast primary_id
         (json_consensus_message E \<lparr>msg_type = Reply (my_reply E p me m msg)\<rparr>)]"
proof -
  have res: "reset (update_request_phase_state h LogCommited
      (remove_commited_request (record_commit E (plog p) msg))) = reset (plog p)" for h
    by (rule reset_eq)
      (simp add: update_request_phase_state_def remove_commited_request_def record_commit_def Let_def)
  have len: "length (bucket (messages (record_commit E (plog p) msg)) (get_message_key E (Commit msg))) =
      Suc (length (bucket (messages (plog p)) (get_message_key E (Commit msg))))"
    by (simp add: record_commit_def Let_def)
  have "(p' = p \<and> ps = ContinueExecute []) \<or>
     (commit_valid E p msg \<and>
      (\<exists>t. u64_mul 2 (fault_tolerance_count (pstate p)) = Some t \<and>
       Suc (length (bucket (messages (plog p)) (get_message_key E (Commit msg)))) \<le> unat t \<and>
       (if Suc (length (bucket (messages (plog p)) (get_message_key E (Commit msg)))) = unat t
        then \<exists>m primary_id. requests (plog p) (c_number msg) = Some m \<and>
           peer_from_bytes E (primary (pstate p)) = Some primary_id \<and>
           unat (current_commited_request_count (pstate p)) + 1 < 2 ^ 64 \<and>
           p' = p\<lparr>pstate := (update_checkpoint_state E (c_m_hash msg) (pstate p))\<lparr>
                current_commited_request_count := current_commited_request_count (pstate p) + 1\<rparr>,
              plog := reset (plog p)\<rparr> \<and>
           ps = Complete \<lparr>cmd = cmd m\<rparr> [Unicast primary_id
             (json_consensus_message E \<lparr>msg_type = Reply (my_reply E p me m msg)\<rparr>)]
        else p' = p\<lparr>plog := record_commit E (plog p) msg\<rparr> \<and> ps = ContinueExecute [])))"
    using assms
    by (auto simp: handle_commit_def commit_valid_def my_reply_def bind_eq_Some_conv Let_def
        read_defs res len log_simps panic_simps intro: in_windowI split: if_splits option.splits)
  then show ?thesis
    using that by (auto simp: len split: if_splits dest!: u64_mul_unat)
qed

lemma handle_reply_cases [consumes 1, case_names ignored recorded finished]:
  assumes "handle_reply E p me msg = Some (p', ps)"
  obtains (ignored) "p' = p" "ps = ContinueExecute []"
  | (recorded)
      "signature_ok E p (r_from_peer_id msg) (r_signature msg) (get_message_key E (Reply msg))"
      "p' = p\<lparr>plog := record_reply E (plog p) msg\<rparr>" "ps = ContinueExecute []"
  | (finished)
      "signature_ok E p (r_from_peer_id msg) (r_signature msg) (get_message_key E (Reply msg))"
      "unat (node_count (pstate p)) =
        unat (fault_tolerance_count (pstate p)) +
        length (bucket (reply_messages (plog p)) (get_message_key E (Reply msg))) + 2"
      "utf8_valid (r_result msg)" "p' = p\<lparr>plog := consensus_log_new\<rparr>" "ps = Over None"
proof -
  have fin: "(reset log)\<lparr>reply_messages := Map.empty\<rparr> = consensus_log_new" for log
    by (cases log) (simp add: reset_def consensus_log_new_def)
  have len: "length (bucket (reply_messages (record_reply E (plog p) msg)) (get_message_key E (Reply msg))) =
      Suc (length (bucket (reply_messages (plog p)) (get_message_key E (Reply msg))))"
    by (simp add: record_reply_def Let_def)
  have arith: "unat (node_count (pstate p)) = unat (fault_tolerance_count (pstate p)) + n + 2"
    if d: "u64_sub (node_count (pstate p)) (fault_tolerance_count (pstate p)) = Some d"
      and t: "u64_sub d 1 = Some t" and n: "Suc n = unat t" for d t n
    using u64_sub_unat [OF d] u64_sub_unat [OF t] n d t by (simp add: u64_sub_Some)
  show ?thesis
    using assms that
    by (auto simp: handle_reply_def bind_eq_Some_conv Let_def read_defs fin len dest: arith
        split: if_splits)
qed

lemma handle_checkpoint_cases [consumes 1, case_names recorded stable]:
  assumes "handle_checkpoint E rks cks p me msg = Some (p', ps)"
  obtains (recorded) "p' = p\<lparr>plog := record_checkpoint (plog p) msg\<rparr>" "ps = ContinueExecute []"
      "length (bucket (checkpoints (plog p')) (current_max_number msg, checkpoint_state_digest msg)) \<noteq>
        2 * unat (fault_tolerance_count (pstate p))"
  | (stable) "p' = p\<lparr>pstate := (pstate p)\<lparr>stable_checkpoint :=
                    (current_max_number msg, checkpoint_state_digest msg)\<rparr>,
        plog := discard_messages_before_stable_checkpoint E rks cks (current_max_number msg)
                  (record_checkpoint (plog p) msg)\<rparr>" "ps = ContinueExecute []"
      "Suc (length (bucket (checkpoints (plog p)) (current_max_number msg, checkpoint_state_digest msg))) =
        2 * unat (fault_tolerance_count (pstate p))"
  using assms that
  by (cases "Suc (length (bucket (checkpoints (plog p))
        (current_max_number msg, checkpoint_state_digest msg))) =
        2 * unat (fault_tolerance_count (pstate p))")
    (auto simp: handle_checkpoint_def bind_eq_Some_conv Let_def read_defs record_checkpoint_def
      split: if_splits dest!: u64_mul_unat)

text \<open>
  In the last branch of \<open>handle_viewchange\<close> the count is at most \<open>f\<close>, so the test for more
  than \<open>2f\<close> view changes, on which a new view depends, never succeeds there.
\<close>

lemma handle_viewchange_cases [consumes 1, case_names stale recorded joined]:
  assumes "handle_viewchange E p me msg = Some (p', ps)"
  obtains (stale) "vc_new_view msg \<le> view (pstate p)" "p' = p" "ps = ContinueExecute []"
  | (recorded) "view (pstate p) < vc_new_view msg"
      "p' = p\<lparr>plog := record_viewchange (plog p) msg\<rparr>" "ps = ContinueExecute []"
      "length (bucket (viewchanges (plog p')) (vc_new_view msg)) \<le> unat (fault_tolerance_count (pstate p))"
  | (joined) "view (pstate p) < vc_new_view msg"
      "p' = p\<lparr>plog := record_viewchange (plog p) msg\<rparr>" "broadcast_viewchange E p' me = Some ps"
      "unat (fault_tolerance_count (pstate p)) < length (bucket (viewchanges (plog p')) (vc_new_view msg))"
proof -
  have "\<not> 2 * unat (fault_tolerance_count (pstate p)) < n"
    if "\<not> unat (fault_tolerance_count (pstate p)) < n" for n
    using that by simp
  then show ?thesis
    using assms that
    by (auto simp: handle_viewchange_def bind_eq_Some_conv Let_def read_defs not_le not_less
        split: if_splits dest!: u64_mul_unat)
qed

lemma storage_public_key_cases:
  assumes "storage_public_key_by_peer_id E p k = Some (p', ps)"
  shows "ps = ContinueExecute [] \<and>
    (p' = p \<and> consensus_node_pk p (pk_from_peer_id k) \<noteq> None \<or>
     consensus_node_pk p (pk_from_peer_id k) = None \<and>
     p' = p\<lparr>consensus_node_pk := (consensus_node_pk p)(pk_from_peer_id k \<mapsto> pk k)\<rparr>)"
  using assms by (auto simp: storage_public_key_by_peer_id_def bind_eq_Some_conv split: option.splits)

lemma handle_request_cases:
  assumes "handle_request E p me r = Some (p', ps)"
  shows "p' = p\<lparr>taken_requests := insert (bincode_request E r) (taken_requests p),
                pstate := (pstate p)\<lparr>primary := me\<rparr>,
                plog := record_request (current_sequence_number (pstate p) + 1) r (plog p)\<rparr> \<and>
    ps = ContinueExecute [broadcast_of E (PrePrepare (my_preprepare E p me r))]"
  using assms
  by (auto simp: handle_request_def my_preprepare_def bind_eq_Some_conv Let_def panic_simps
      get_message_key.simps)

lemma newview_loop_eq:
  "newview_loop E v me pps log q =
     (foldl (record_preprepare E) log pps,
      q @ map (\<lambda>pp. Broadcast (json_message_type E (Prepare
         \<lparr>p_view = v, p_number = pp_number pp, p_m_hash = pp_m_hash pp, p_from_peer_id = me,
          p_signature = []\<rparr>))) pps)"
  by (induction pps arbitrary: log q) (auto simp: Let_def)

lemma handle_newview_eq:
  "handle_newview E p me msg = Some
     (p\<lparr>pstate := (pstate p)\<lparr>view := nv_view msg\<rparr>, stop_notified := Suc (stop_notified p),
        plog := foldl (record_preprepare E) (clear_current_request (plog p)) (nv_preprepares msg)\<rparr>,
      ContinueExecute (map (\<lambda>pp. Broadcast (json_message_type E (Prepare
         \<lparr>p_view = nv_view msg, p_number = pp_number pp, p_m_hash = pp_m_hash pp,
          p_from_peer_id = me, p_signature = []\<rparr>))) (nv_preprepares msg)))"
  by (simp add: handle_newview_def newview_loop_eq view_timeout_stop_def)

subsection \<open>What a handler does with a valid message\<close>

text \<open>The upper end of the window can be computed.\<close>

definition window_ok :: "pbft_protocol \<Rightarrow> bool" where
  "window_ok p \<longleftrightarrow> unat (fst (stable_checkpoint (pstate p))) + 100 < 2 ^ 64"

lemma window_okD:
  "window_ok p \<Longrightarrow> u64_add (fst (stable_checkpoint (pstate p))) 100 = Some (fst (stable_checkpoint (pstate p)) + 100)"
  by (simp add: window_ok_def u64_add_def)

lemma in_windowD:
  assumes "window_ok p" and "in_window p n"
  shows "\<not> n \<le> fst (stable_checkpoint (pstate p))"
    and "\<not> fst (stable_checkpoint (pstate p)) + 100 < n"
  using assms(2) u64_add_unat [OF window_okD [OF assms(1)]]
  by (auto simp: in_window_def word_le_nat_alt word_less_nat_alt)

lemma handle_preprepare_accept:
  assumes "preprepare_valid E p msg" and "window_ok p"
    and "from_json_request E (pp_m msg) = Some r" and "peer_from_bytes E (pp_from_peer_id msg) = Some q"
  shows "handle_preprepare E p me msg = Some
     ((preprepare_seen E p msg r)\<lparr>plog := record_preprepare E (record_request (pp_number msg) r (plog p)) msg\<rparr>,
      ContinueExecute [broadcast_of E (Prepare (my_prepare E p me msg))])"
proof -
  have "signature_ok E (preprepare_seen E p msg r) = signature_ok E p"
    by (rule signature_ok_cong) simp
  with assms in_windowD [of p "pp_number msg"] window_okD [of p] show ?thesis
    by (simp add: handle_preprepare_def preprepare_valid_def my_prepare_def Let_def
        preprepare_seen_def [symmetric])
qed

lemma handle_prepare_accept:
  assumes "prepare_valid E p msg" and "window_ok p"
    and "peer_from_bytes E (p_from_peer_id msg) = Some q"
    and "u64_mul 2 (fault_tolerance_count (pstate p)) = Some t"
  shows "handle_prepare E p me msg = Some
     (let log1 = record_prepare E (plog p) msg in
      if length (bucket (messages log1) (get_message_key E (Prepare msg))) = unat t
      then (p\<lparr>plog := update_request_phase_state (p_m_hash msg) LogPrepared log1\<rparr>,
            ContinueExecute [broadcast_of E (Commit (my_commit E p me msg))])
      else (p\<lparr>plog := log1\<rparr>, ContinueExecute []))"
  using assms in_windowD [of p "p_number msg"] window_okD [of p]
  by (auto simp: handle_prepare_def prepare_valid_def my_commit_def Let_def read_defs
      split: option.splits)

lemma handle_commit_accept:
  assumes "commit_valid E p msg" and "window_ok p"
    and "peer_from_bytes E (c_from_peer_id msg) = Some q"
    and "u64_mul 2 (fault_tolerance_count (pstate p)) = Some t"
    and "Suc (length (bucket (messages (plog p)) (get_message_key E (Commit msg)))) < unat t"
  shows "handle_commit E p me msg = Some (p\<lparr>plog := record_commit E (plog p) msg\<rparr>, ContinueExecute [])"
proof -
  have "length (bucket (messages (record_commit E (plog p) msg)) (get_message_key E (Commit msg))) < unat t"
    using assms(5) by (simp add: record_commit_def Let_def)
  with assms in_windowD [of p "c_number msg"] window_okD [of p] show ?thesis
    by (auto simp: handle_commit_def commit_valid_def Let_def read_defs split: option.splits)
qed

lemma handle_commit_complete:
  assumes "commit_valid E p msg" and "window_ok p"
    and "peer_from_bytes E (c_from_peer_id msg) = Some q"
    and "u64_mul 2 (fault_tolerance_count (pstate p)) = Some t"
    and "Suc (length (bucket (messages (plog p)) (get_message_key E (Commit msg)))) = unat t"
    and "peer_from_bytes E (primary (pstate p)) = Some primary_id"
    and "unat (current_commited_request_count (pstate p)) + 1 < 2 ^ 64"
    and "requests (plog p) (c_number msg) = Some m"
  shows "handle_commit E p me msg = Some
     (p\<lparr>pstate := (update_checkpoint_state E (c_m_hash msg) (pstate p))\<lparr>
          current_commited_request_count := current_commited_request_count (pstate p) + 1\<rparr>,
        plog := reset (plog p)\<rparr>,
      Complete \<lparr>cmd = cmd m\<rparr> [Unicast primary_id
         (json_consensus_message E \<lparr>msg_type = Reply (my_reply E p me m msg)\<rparr>)])"
proof -
  have res: "reset (update_request_phase_state h LogCommited
      (remove_commited_request (record_commit E (plog p) msg))) = reset (plog p)" for h
    by (rule reset_eq)
      (simp add: update_request_phase_state_def remove_commited_request_def record_commit_def Let_def)
  have "length (bucket (messages (record_commit E (plog p) msg)) (get_message_key E (Commit msg))) = unat t"
    using assms(5) by (simp add: record_commit_def Let_def)
  with assms in_windowD [of p "c_number msg"] window_okD [of p] show ?thesis
    by (auto simp: handle_commit_def commit_valid_def Let_def read_defs u64_add_def my_reply_def
        res log_simps)
qed

subsection \<open>Reachable states of a node\<close>

text \<open>
  A node starts from the default object with some key pair; the actuator then calls the
  message handler, the initial start and the phase query, in any order.
\<close>

inductive pbft_step :: "'a pbft_ext_scheme \<Rightarrow> bytes \<Rightarrow> pbft_protocol \<Rightarrow> pbft_protocol \<Rightarrow> bool"
  for E me where
  deliver: "consensus_protocol_message_handler E me p i = Some (p', ps) \<Longrightarrow> pbft_step E me p p'"
| start: "extra_initial_start E p nodes me = (p', ps) \<Longrightarrow> pbft_step E me p p'"
| phases: "protocol_phases E p = (p', m) \<Longrightarrow> pbft_step E me p p'"

inductive pbft_reachable :: "'a pbft_ext_scheme \<Rightarrow> bytes \<Rightarrow> pbft_protocol \<Rightarrow> bool" for E me where
  init: "pbft_reachable E me (pbft_default kp)"
| step: "pbft_reachable E me p \<Longrightarrow> pbft_step E me p p' \<Longrightarrow> pbft_reachable E me p'"

inductive_cases pbft_stepE: "pbft_step E me p p'"

text \<open>An invariant kept by the handler and by the two other calls holds in every reachable state.\<close>

lemma pbft_reachable_invariant:
  assumes "pbft_reachable E me p"
    and init: "\<And>kp. I (pbft_default kp)"
    and handler: "\<And>p i m p' ps. I p \<Longrightarrow> handle_message_type E me i p m = Some (p', ps) \<Longrightarrow> I p'"
    and start: "\<And>p nodes. I p \<Longrightarrow> I (fst (extra_initial_start E p nodes me))"
    and phases: "\<And>p. I p \<Longrightarrow> I (fst (protocol_phases E p))"
  shows "I p"
  using assms(1)
proof (induction rule: pbft_reachable.induct)
  case (init kp)
  show ?case by (rule assms(2))
next
  case (step p p')
  from step.hyps(2) show ?case
  proof (cases rule: pbft_step.cases)
    case (deliver i ps)
    then show ?thesis
      using handler step.IH by (auto simp: consensus_protocol_message_handler_def bind_eq_Some_conv)
  next
    case (start nodes ps)
    then show ?thesis using assms(4) [OF step.IH, of nodes] by simp
  next
    case (phases m)
    then show ?thesis using assms(5) [OF step.IH] by simp
  qed
qed

subsection \<open>Fields no delivery changes\<close>

text \<open>
  The fault bound stays one, no node becomes \<open>is_primary\<close>, the sequence number is never
  advanced, and neither the pending requests nor the request map is ever filled.
\<close>

definition static_inv :: "pbft_protocol \<Rightarrow> bool" where
  "static_inv p \<longleftrightarrow>
     fault_tolerance_count (pstate p) = 1 \<and> \<not> is_primary (pstate p) \<and>
     current_sequence_number (pstate p) = 0 \<and>
     current_requests (plog p) = [] \<and> request_map (plog p) = Map.empty"

lemma foldl_record_preprepare_frame [log_simps]:
  "requests (foldl (record_preprepare E) log pps) = requests log"
  "reply_messages (foldl (record_preprepare E) log pps) = reply_messages log"
  "request_map (foldl (record_preprepare E) log pps) = request_map log"
  "current_requests (foldl (record_preprepare E) log pps) = current_requests log"
  by (induction pps arbitrary: log) (auto simp: record_defs Let_def)

lemma record_frame [log_simps]:
  "request_map (record_preprepare E log a) = request_map log"
  "current_requests (record_preprepare E log a) = current_requests log"
  "request_map (record_prepare E log b) = request_map log"
  "current_requests (record_prepare E log b) = current_requests log"
  "request_map (record_commit E log c) = request_map log"
  "current_requests (record_commit E log c) = current_requests log"
  "request_map (record_reply E log d) = request_map log"
  "current_requests (record_reply E log d) = current_requests log"
  "request_map (record_viewchange log v) = request_map log"
  "current_requests (record_viewchange log v) = current_requests log"
  "request_map (record_checkpoint log cp) = request_map log"
  "current_requests (record_checkpoint log cp) = current_requests log"
  by (simp_all add: record_defs Let_def)

lemma handle_message_type_static:
  assumes "static_inv p" and "handle_message_type E me i p m = Some (p', ps)"
  shows "static_inv p'"
proof (cases m)
  case (Request x)
  with assms show ?thesis
    using handle_request_cases [of E p me x p' ps] by (auto simp: static_inv_def log_simps)
next
  case (PrePrepare x)
  with assms have "handle_preprepare E p me x = Some (p', ps)" by simp
  then show ?thesis
    using assms(1) by (cases rule: handle_preprepare_cases) (auto simp: static_inv_def log_simps)
next
  case (Prepare x)
  with assms have "handle_prepare E p me x = Some (p', ps)" by simp
  then show ?thesis
    using assms(1) by (cases rule: handle_prepare_cases) (auto simp: static_inv_def log_simps)
next
  case (Commit x)
  with assms have "handle_commit E p me x = Some (p', ps)" by simp
  then show ?thesis
    using assms(1) by (cases rule: handle_commit_cases) (auto simp: static_inv_def log_simps)
next
  case (Reply x)
  with assms have "handle_reply E p me x = Some (p', ps)" by simp
  then show ?thesis
    using assms(1)
    by (cases rule: handle_reply_cases) (auto simp: static_inv_def log_simps consensus_log_new_def)
next
  case (CheckPoint x)
  with assms have "handle_checkpoint E (in_request_map_order i) (in_checkpoints_order i) p me x = Some (p', ps)"
    by simp
  then show ?thesis
    using assms(1) by (cases rule: handle_checkpoint_cases) (auto simp: static_inv_def log_simps)
next
  case (ViewChange x)
  with assms have "handle_viewchange E p me x = Some (p', ps)" by simp
  then show ?thesis
    using assms(1) by (cases rule: handle_viewchange_cases) (auto simp: static_inv_def log_simps)
next
  case (NewView x)
  with assms show ?thesis by (auto simp: handle_newview_eq static_inv_def log_simps)
next
  case (PublicKey x)
  with assms show ?thesis
    using storage_public_key_cases [of E p x p' ps] by (auto simp: static_inv_def)
next
  case DistributePK
  with assms show ?thesis by simp
qed

interpretation static: invariant_handler "consensus_protocol_message_handler E me" static_inv
  for E :: "'a pbft_ext_scheme" and me
  by unfold_locales
    (auto simp: consensus_protocol_message_handler_def bind_eq_Some_conv
      intro: handle_message_type_static)

lemma reachable_static:
  assumes "pbft_reachable E me p"
  shows "static_inv p"
  using assms
proof (rule pbft_reachable_invariant)
  show "static_inv (pbft_default kp)" for kp
    by (simp add: static_inv_def pbft_default_def state_new_def consensus_log_new_def)
  show "static_inv (fst (extra_initial_start E p nodes me))" if "static_inv p" for p nodes
    using that by (simp add: static_inv_def extra_initial_start_def Let_def)
  show "static_inv (fst (protocol_phases E p))" if "static_inv p" for p
    using that by (simp add: static_inv_def protocol_phases_def Let_def)
qed (rule handle_message_type_static)

subsection \<open>Every recorded quorum message is signed by its sender\<close>

definition filed_ok :: "'a ext_scheme \<Rightarrow> pbft_protocol \<Rightarrow> string \<Rightarrow> message_type \<Rightarrow> bool" where
  "filed_ok E p k m \<longleftrightarrow> get_message_key E m = k \<and>
     (case m of
        PrePrepare x \<Rightarrow> True
      | Prepare x \<Rightarrow> signature_ok E p (p_from_peer_id x) (p_signature x) k
      | Commit x \<Rightarrow> signature_ok E p (c_from_peer_id x) (c_signature x) k
      | _ \<Rightarrow> False)"

definition reply_filed_ok :: "'a ext_scheme \<Rightarrow> pbft_protocol \<Rightarrow> string \<Rightarrow> message_type \<Rightarrow> bool" where
  "reply_filed_ok E p k m \<longleftrightarrow> get_message_key E m = k \<and>
     (case m of Reply x \<Rightarrow> signature_ok E p (r_from_peer_id x) (r_signature x) k | _ \<Rightarrow> False)"

definition signed_inv :: "'a ext_scheme \<Rightarrow> pbft_protocol \<Rightarrow> bool" where
  "signed_inv E p \<longleftrightarrow>
     (\<forall>k m. m \<in> set (bucket (messages (plog p)) k) \<longrightarrow> filed_ok E p k m) \<and>
     (\<forall>k m. m \<in> set (bucket (reply_messages (plog p)) k) \<longrightarrow> reply_filed_ok E p k m)"

lemma signature_ok_mono:
  "consensus_node_pk p \<subseteq>\<^sub>m consensus_node_pk p' \<Longrightarrow> signature_ok E p a b c \<Longrightarrow> signature_ok E p' a b c"
  by (auto simp: signature_ok_def get_public_key_by_peer_id_def map_le_def dom_def
      split: option.splits)

lemma filed_ok_mono:
  "consensus_node_pk p \<subseteq>\<^sub>m consensus_node_pk p' \<Longrightarrow> filed_ok E p k m \<Longrightarrow> filed_ok E p' k m"
  by (auto simp: filed_ok_def intro: signature_ok_mono split: message_type.splits)

lemma reply_filed_ok_mono:
  "consensus_node_pk p \<subseteq>\<^sub>m consensus_node_pk p' \<Longrightarrow> reply_filed_ok E p k m \<Longrightarrow> reply_filed_ok E p' k m"
  by (auto simp: reply_filed_ok_def intro: signature_ok_mono split: message_type.splits)

text \<open>
  To keep the invariant it is enough that no registered key changes and that every message
  in a bucket was there before or is a properly filed one.
\<close>

lemma signed_invI:
  assumes "signed_inv E p" and "consensus_node_pk p \<subseteq>\<^sub>m consensus_node_pk p'"
    and "\<And>k m. m \<in> set (bucket (messages (plog p')) k) \<Longrightarrow>
           m \<in> set (bucket (messages (plog p)) k) \<or> filed_ok E p' k m"
    and "\<And>k m. m \<in> set (bucket (reply_messages (plog p')) k) \<Longrightarrow>
           m \<in> set (bucket (reply_messages (plog p)) k) \<or> reply_filed_ok E p' k m"
  shows "signed_inv E p'"
  using assms unfolding signed_inv_def by (blast intro: filed_ok_mono reply_filed_ok_mono)

lemma signature_ok_plog [simp]:
  "signature_ok E (p\<lparr>plog := l\<rparr>) = signature_ok E p"
  "signature_ok E (p\<lparr>pstate := st, plog := l\<rparr>) = signature_ok E p"
  by (rule signature_ok_cong, simp)+

lemma bucket_delete: "bucket (m(k := None)) k' = (if k' = k then [] else bucket m k')"
  by (simp add: bucket_def)

lemma discard_messages_subset:
  "m \<in> set (bucket (messages (discard_messages_before_stable_checkpoint E rks cks n log)) k) \<Longrightarrow>
   m \<in> set (bucket (messages log) k)"
  by (auto simp: discard_messages_before_stable_checkpoint_def Let_def foldl_delete3 bucket_def
      split: if_splits option.splits)

lemma reply_messages_frame [log_simps]:
  "reply_messages (record_preprepare E log a) = reply_messages log"
  "reply_messages (record_prepare E log b) = reply_messages log"
  "reply_messages (record_commit E log c) = reply_messages log"
  "reply_messages (record_viewchange log v) = reply_messages log"
  "reply_messages (record_checkpoint log cp) = reply_messages log"
  "reply_messages (update_request_phase_state k st log) = reply_messages log"
  "reply_messages (clear_current_request log) = reply_messages log"
  by (simp_all add: record_defs Let_def update_request_phase_state_def clear_current_request_def)

lemma messages_frame [log_simps]:
  "messages (record_reply E log d) = messages log"
  "messages (record_viewchange log v) = messages log"
  "messages (record_checkpoint log cp) = messages log"
  "messages (update_request_phase_state k st log) = messages log"
  "messages (clear_current_request log) = messages log"
  by (simp_all add: record_defs Let_def update_request_phase_state_def clear_current_request_def)

lemma messages_record [log_simps]:
  "messages (record_preprepare E log a) = push_bucket (messages log) (get_message_key E (PrePrepare a)) (PrePrepare a)"
  "messages (record_prepare E log b) = push_bucket (messages log) (get_message_key E (Prepare b)) (Prepare b)"
  "messages (record_commit E log c) = push_bucket (messages log) (get_message_key E (Commit c)) (Commit c)"
  "reply_messages (record_reply E log d) = push_bucket (reply_messages log) (get_message_key E (Reply d)) (Reply d)"
  by (simp_all add: record_defs Let_def)

lemma foldl_record_preprepare_messages:
  "m \<in> set (bucket (messages (foldl (record_preprepare E) log pps)) k) \<Longrightarrow>
   m \<in> set (bucket (messages log) k) \<or> (\<exists>x. m = PrePrepare x \<and> get_message_key E m = k)"
  by (induction pps arbitrary: log) (fastforce simp: log_simps split: if_splits)+

lemma handle_message_type_signed:
  assumes inv: "signed_inv E p" and step: "handle_message_type E me i p m = Some (p', ps)"
  shows "signed_inv E p'"
proof (cases m)
  case (Request x)
  with step show ?thesis
    using handle_request_cases [of E p me x p' ps]
    by (intro signed_invI [OF inv]) (auto simp: log_simps)
next
  case (PrePrepare x)
  with step have "handle_preprepare E p me x = Some (p', ps)" by simp
  then show ?thesis
    by (cases rule: handle_preprepare_cases; intro signed_invI [OF inv])
      (auto simp: log_simps filed_ok_def split: if_splits)
next
  case (Prepare x)
  with step have "handle_prepare E p me x = Some (p', ps)" by simp
  then show ?thesis
    by (cases rule: handle_prepare_cases; intro signed_invI [OF inv])
      (auto simp: log_simps filed_ok_def prepare_valid_def split: if_splits)
next
  case (Commit x)
  with step have "handle_commit E p me x = Some (p', ps)" by simp
  then show ?thesis
    by (cases rule: handle_commit_cases; intro signed_invI [OF inv])
      (auto simp: log_simps filed_ok_def commit_valid_def split: if_splits)
next
  case (Reply x)
  with step have "handle_reply E p me x = Some (p', ps)" by simp
  then show ?thesis
    by (cases rule: handle_reply_cases; intro signed_invI [OF inv])
      (auto simp: log_simps reply_filed_ok_def consensus_log_new_def split: if_splits)
next
  case (CheckPoint x)
  with step have "handle_checkpoint E (in_request_map_order i) (in_checkpoints_order i) p me x = Some (p', ps)"
    by simp
  then show ?thesis
    by (cases rule: handle_checkpoint_cases; intro signed_invI [OF inv])
      (auto simp: log_simps dest!: discard_messages_subset)
next
  case (ViewChange x)
  with step have "handle_viewchange E p me x = Some (p', ps)" by simp
  then show ?thesis
    by (cases rule: handle_viewchange_cases; intro signed_invI [OF inv]) (auto simp: log_simps)
next
  case (NewView x)
  with step show ?thesis
    by (intro signed_invI [OF inv])
      (auto simp: handle_newview_eq log_simps filed_ok_def dest!: foldl_record_preprepare_messages)
next
  case (PublicKey x)
  with step show ?thesis
    using storage_public_key_cases [of E p x p' ps]
    by (intro signed_invI [OF inv]) (auto simp: map_le_def)
next
  case DistributePK
  with step inv show ?thesis by simp
qed

interpretation signed: invariant_handler "consensus_protocol_message_handler E me" "signed_inv E"
  for E :: "'a pbft_ext_scheme" and me
  by unfold_locales
    (auto simp: consensus_protocol_message_handler_def bind_eq_Some_conv
      intro: handle_message_type_signed)

lemma reachable_signed:
  assumes "pbft_reachable E me p"
  shows "signed_inv E p"
  using assms
proof (rule pbft_reachable_invariant)
  show "signed_inv E (pbft_default kp)" for kp
    by (simp add: signed_inv_def pbft_default_def consensus_log_new_def)
  show "signed_inv E (fst (extra_initial_start E p nodes me))" if "signed_inv E p" for p nodes
    by (rule signed_invI [OF that]) (simp_all add: extra_initial_start_def Let_def)
  show "signed_inv E (fst (protocol_phases E p))" if "signed_inv E p" for p
    by (rule signed_invI [OF that]) (simp_all add: protocol_phases_def Let_def)
qed (rule handle_message_type_signed)

subsection \<open>Runs stay among the reachable states\<close>

lemma run_reachable:
  "pbft_reachable E me p \<Longrightarrow>
   run_handler (consensus_protocol_message_handler E me) p is = Some (p', outs) \<Longrightarrow>
   pbft_reachable E me p'"
proof (induction "is" arbitrary: p outs)
  case (Cons i "is")
  then obtain p1 out outs' where "consensus_protocol_message_handler E me p i = Some (p1, out)"
    and run: "run_handler (consensus_protocol_message_handler E me) p1 is = Some (p', outs')"
    by (auto simp: bind_eq_Some_conv)
  then have "pbft_reachable E me p1"
    using Cons.prems(1) by (blast intro: pbft_reachable.step pbft_step.deliver)
  then show ?case using run by (rule Cons.IH)
qed simp

subsection \<open>Registered keys are never replaced\<close>

lemma handle_message_type_keys:
  assumes "handle_message_type E me i p m = Some (p', ps)"
  shows "consensus_node_pk p \<subseteq>\<^sub>m consensus_node_pk p'"
proof (cases m)
  case (PublicKey x)
  with assms show ?thesis
    using storage_public_key_cases [of E p x p' ps] by (auto simp: map_le_def)
next
  case (Request x)
  with assms show ?thesis using handle_request_cases [of E p me x p' ps] by auto
next
  case (PrePrepare x)
  with assms have "handle_preprepare E p me x = Some (p', ps)" by simp
  then show ?thesis by (cases rule: handle_preprepare_cases) simp_all
next
  case (Prepare x)
  with assms have "handle_prepare E p me x = Some (p', ps)" by simp
  then show ?thesis by (cases rule: handle_prepare_cases) simp_all
next
  case (Commit x)
  with assms have "handle_commit E p me x = Some (p', ps)" by simp
  then show ?thesis by (cases rule: handle_commit_cases) simp_all
next
  case (Reply x)
  with assms have "handle_reply E p me x = Some (p', ps)" by simp
  then show ?thesis by (cases rule: handle_reply_cases) simp_all
next
  case (CheckPoint x)
  with assms have "handle_checkpoint E (in_request_map_order i) (in_checkpoints_order i) p me x = Some (p', ps)"
    by simp
  then show ?thesis by (cases rule: handle_checkpoint_cases) simp_all
next
  case (ViewChange x)
  with assms have "handle_viewchange E p me x = Some (p', ps)" by simp
  then show ?thesis by (cases rule: handle_viewchange_cases) simp_all
qed (use assms in \<open>auto simp: handle_newview_eq\<close>)

interpretation keys: invariant_handler "consensus_protocol_message_handler E me"
    "\<lambda>p. K \<subseteq>\<^sub>m consensus_node_pk p"
  for E :: "'a pbft_ext_scheme" and me K
  by unfold_locales
    (auto simp: consensus_protocol_message_handler_def bind_eq_Some_conv
      intro: map_le_trans handle_message_type_keys)

end
