(* ===== verification/PBFT_Demo.thy ===== *)
theory PBFT_Demo
  imports PBFT_Invariants
begin

text \<open>
  A concrete instance of the third-party functions and a concrete run of a node, at which
  the properties of the PBFT development are instantiated: node 1 learns the keys of nodes
  9, 2 and 3, receives the proposal of node 9, the prepares and the commits of nodes 2 and 3.
\<close>

definition chars :: "bytes \<Rightarrow> string" where
  "chars b = map (\<lambda>w. char_of (unat w)) b"

definition demo_req :: request where
  "demo_req = \<lparr>cmd = ''x''\<rparr>"

text \<open>The part of the instance that does not depend on the messages exchanged.\<close>

definition demo_base_ext :: ext where
  "demo_base_ext =
     \<lparr>sha3_256_hex = chars, bincode_request = (\<lambda>r. as_bytes (cmd r)),
      json_request = (\<lambda>r. as_bytes (cmd r)), from_json_request = (\<lambda>b. Some demo_req),
      peer_from_bytes = Some, peer_to_bytes = (\<lambda>p. p), peer_to_string = chars,
      dalek_public = (\<lambda>kp. kp), dalek_sign = (\<lambda>kp m. kp @ m),
      dalek_public_key_ok = (\<lambda>_. True), dalek_signature_ok = (\<lambda>_. True),
      dalek_verify = (\<lambda>k m s. s = k @ m)\<rparr>"

definition demo_hash :: string where
  "demo_hash = get_message_key demo_base_ext (Request demo_req)"

definition demo_pp :: pre_prepare where
  "demo_pp =
     (let m = \<lparr>pp_view = 0, pp_number = 1, pp_m_hash = demo_hash, pp_m = as_bytes ''x'',
               pp_signature = [], pp_from_peer_id = [9]\<rparr>
      in m\<lparr>pp_signature := eddsa_sign demo_base_ext [9]
             (as_bytes (get_message_key demo_base_ext (PrePrepare m)))\<rparr>)"

definition demo_prepare :: "u8 \<Rightarrow> prepare" where
  "demo_prepare n =
     (let m = \<lparr>p_view = 0, p_number = 1, p_m_hash = demo_hash, p_from_peer_id = [n], p_signature = []\<rparr>
      in m\<lparr>p_signature := eddsa_sign demo_base_ext [n]
             (as_bytes (get_message_key demo_base_ext (Prepare m)))\<rparr>)"

definition demo_commit :: "u8 \<Rightarrow> commit" where
  "demo_commit n =
     (let m = \<lparr>c_view = 0, c_number = 1, c_m_hash = demo_hash, c_from_peer_id = [n], c_signature = []\<rparr>
      in m\<lparr>c_signature := eddsa_sign demo_base_ext [n]
             (as_bytes (get_message_key demo_base_ext (Commit m)))\<rparr>)"

definition demo_key :: "u8 \<Rightarrow> message_type" where
  "demo_key n = PublicKey \<lparr>pk = [n], pk_from_peer_id = [n]\<rparr>"

definition demo :: pbft_ext where
  "demo = ext.extend demo_base_ext (pbft_ext.fields
     (\<lambda>c. case msg_type c of PrePrepare m \<Rightarrow> [1] | Prepare m \<Rightarrow> [2] | Commit m \<Rightarrow> [3]
         | ViewChange m \<Rightarrow> [4] | _ \<Rightarrow> [5])
     (\<lambda>b. case b of
          [k, n] \<Rightarrow> Some \<lparr>msg_type = (if k = 0 then PrePrepare demo_pp
            else if k = 1 then Prepare (demo_prepare n)
            else if k = 2 then Commit (demo_commit n) else demo_key n)\<rparr>
        | _ \<Rightarrow> None)
     (\<lambda>m. [6]) (\<lambda>_. ''prepare'') (\<lambda>_. ''commit''))"

definition demo_input :: "bytes \<Rightarrow> pbft_input" where
  "demo_input b = \<lparr>in_bytes = b, in_request_map_order = [], in_checkpoints_order = []\<rparr>"

subsection \<open>Node 1 before and after the proposal\<close>

definition demo_node :: pbft_protocol where
  "demo_node = (pbft_default [1])\<lparr>consensus_node_pk := [[9] \<mapsto> [9], [2] \<mapsto> [2], [3] \<mapsto> [3]]\<rparr>"

definition demo_proposed :: pbft_protocol where
  "demo_proposed = (preprepare_seen demo demo_node demo_pp demo_req)\<lparr>plog :=
     record_preprepare demo (record_request 1 demo_req (plog demo_node)) demo_pp\<rparr>"

definition demo_one_prepare :: pbft_protocol where
  "demo_one_prepare = demo_proposed\<lparr>plog := record_prepare demo (plog demo_proposed) (demo_prepare 2)\<rparr>"

definition demo_prepared :: pbft_protocol where
  "demo_prepared = demo_one_prepare\<lparr>plog := update_request_phase_state demo_hash LogPrepared
     (record_prepare demo (plog demo_one_prepare) (demo_prepare 3))\<rparr>"

definition demo_one_commit :: pbft_protocol where
  "demo_one_commit = demo_prepared\<lparr>plog := record_commit demo (plog demo_prepared) (demo_commit 2)\<rparr>"

definition demo_done :: pbft_protocol where
  "demo_done = demo_one_commit\<lparr>pstate := (update_checkpoint_state demo demo_hash (pstate demo_one_commit))\<lparr>
       current_commited_request_count := 1\<rparr>, plog := reset (plog demo_one_commit)\<rparr>"

lemma demo_fields [simp]:
  "sha3_256_hex demo = chars" "bincode_request demo = (\<lambda>r. as_bytes (cmd r))"
  "json_request demo = (\<lambda>r. as_bytes (cmd r))" "from_json_request demo = (\<lambda>b. Some demo_req)"
  "peer_from_bytes demo = Some" "dalek_public demo = (\<lambda>kp. kp)"
  "dalek_sign demo = (\<lambda>kp m. kp @ m)" "dalek_public_key_ok demo = (\<lambda>_. True)"
  "dalek_signature_ok demo = (\<lambda>_. True)" "dalek_verify demo = (\<lambda>k m s. s = k @ m)"
  by (simp_all add: demo_def demo_base_ext_def ext.defs)

lemma demo_decode [simp]:
  "from_json_consensus_message demo [0, n] = Some \<lparr>msg_type = PrePrepare demo_pp\<rparr>"
  "from_json_consensus_message demo [1, n] = Some \<lparr>msg_type = Prepare (demo_prepare n)\<rparr>"
  "from_json_consensus_message demo [2, n] = Some \<lparr>msg_type = Commit (demo_commit n)\<rparr>"
  "from_json_consensus_message demo [3, n] = Some \<lparr>msg_type = demo_key n\<rparr>"
  by (simp_all add: demo_def ext.defs pbft_ext.defs)

lemma demo_base_hash [simp]: "get_hash_str demo_base_ext b = get_hash_str demo b"
  by (simp add: get_hash_str_def demo_base_ext_def)

lemma demo_base_key [simp]: "get_message_key demo_base_ext m = get_message_key demo m"
  by (cases m) (simp_all add: get_message_key.simps, simp add: demo_base_ext_def)

lemma demo_base_sign [simp]: "eddsa_sign demo_base_ext k m = eddsa_sign demo k m"
  by (simp add: eddsa_sign_def demo_base_ext_def)

lemma demo_dalek: "dalek_correct demo"
  by (simp add: dalek_correct_def)

lemma demo_msg_fields [simp]:
  "pp_view demo_pp = 0" "pp_number demo_pp = 1" "pp_m_hash demo_pp = demo_hash" "pp_from_peer_id demo_pp = [9]"
  "p_view (demo_prepare n) = 0" "p_number (demo_prepare n) = 1" "p_m_hash (demo_prepare n) = demo_hash"
  "p_from_peer_id (demo_prepare n) = [n]"
  "c_view (demo_commit n) = 0" "c_number (demo_commit n) = 1" "c_m_hash (demo_commit n) = demo_hash"
  "c_from_peer_id (demo_commit n) = [n]"
  by (simp_all add: demo_pp_def demo_prepare_def demo_commit_def Let_def)

lemma demo_signatures [simp]:
  "pp_signature demo_pp = eddsa_sign demo [9] (as_bytes (get_message_key demo (PrePrepare demo_pp)))"
  "p_signature (demo_prepare n) = eddsa_sign demo [n] (as_bytes (get_message_key demo (Prepare (demo_prepare n))))"
  "c_signature (demo_commit n) = eddsa_sign demo [n] (as_bytes (get_message_key demo (Commit (demo_commit n))))"
  by (simp_all add: demo_pp_def demo_prepare_def demo_commit_def Let_def get_message_key.simps)

lemma demo_signature_ok:
  "consensus_node_pk p a = Some k \<Longrightarrow> signature_ok demo p a (eddsa_sign demo k (as_bytes s)) s"
  by (simp add: signature_ok_def get_public_key_by_peer_id_def eddsa_verify_def eddsa_sign_def)

lemma demo_node_fields [simp]:
  "consensus_node_pk demo_node = [[9] \<mapsto> [9], [2] \<mapsto> [2], [3] \<mapsto> [3]]"
  "pstate demo_node = state_new 5" "plog demo_node = consensus_log_new"
  "keypair demo_node = [1]"
  by (simp_all add: demo_node_def pbft_default_def)

lemma state_new_fields [simp]:
  "view (state_new d) = 0" "stable_checkpoint (state_new d) = (0, '''')"
  "fault_tolerance_count (state_new d) = 1" "current_sequence_number (state_new d) = 0"
  "current_commited_request_count (state_new d) = 0" "node_count (state_new d) = 9"
  by (simp_all add: state_new_def)

lemma demo_preprepare_valid: "preprepare_valid demo demo_node demo_pp"
  by (simp add: preprepare_valid_def demo_signature_ok in_window_def)

lemmas demo_state_defs = demo_proposed_def demo_one_prepare_def demo_prepared_def demo_one_commit_def

lemma demo_window:
  "window_ok demo_node" "window_ok demo_proposed" "window_ok demo_one_prepare"
  "window_ok demo_prepared" "window_ok demo_one_commit"
  by (simp_all add: window_ok_def demo_state_defs)

lemma demo_common [simp]:
  "consensus_node_pk demo_proposed = [[9] \<mapsto> [9], [2] \<mapsto> [2], [3] \<mapsto> [3]]"
  "consensus_node_pk demo_one_prepare = [[9] \<mapsto> [9], [2] \<mapsto> [2], [3] \<mapsto> [3]]"
  "consensus_node_pk demo_prepared = [[9] \<mapsto> [9], [2] \<mapsto> [2], [3] \<mapsto> [3]]"
  "consensus_node_pk demo_one_commit = [[9] \<mapsto> [9], [2] \<mapsto> [2], [3] \<mapsto> [3]]"
  "pstate demo_proposed = (state_new 5)\<lparr>primary := [9]\<rparr>"
  "pstate demo_one_prepare = (state_new 5)\<lparr>primary := [9]\<rparr>"
  "pstate demo_prepared = (state_new 5)\<lparr>primary := [9]\<rparr>"
  "pstate demo_one_commit = (state_new 5)\<lparr>primary := [9]\<rparr>"
  "requests (plog demo_proposed) = [1 \<mapsto> demo_req]"
  "requests (plog demo_one_prepare) = [1 \<mapsto> demo_req]"
  "requests (plog demo_prepared) = [1 \<mapsto> demo_req]"
  "requests (plog demo_one_commit) = [1 \<mapsto> demo_req]"
  "request_phase_state (plog demo_proposed) = Map.empty"
  "request_phase_state (plog demo_one_prepare) = Map.empty"
  "request_phase_state (plog demo_prepared) = [demo_hash \<mapsto> LogPrepared]"
  "request_phase_state (plog demo_one_commit) = [demo_hash \<mapsto> LogPrepared]"
  by (simp_all add: demo_state_defs record_defs record_request_def Let_def consensus_log_new_def
      update_request_phase_state_def preprepare_seen_def)

lemma demo_prepare_valid:
  "n \<in> {2, 3, 9} \<Longrightarrow> prepare_valid demo demo_proposed (demo_prepare n)"
  "n \<in> {2, 3, 9} \<Longrightarrow> prepare_valid demo demo_one_prepare (demo_prepare n)"
  by (auto simp: prepare_valid_def demo_signature_ok in_window_def demo_hash_def)

lemma demo_commit_valid:
  "n \<in> {2, 3, 9} \<Longrightarrow> commit_valid demo demo_prepared (demo_commit n)"
  "n \<in> {2, 3, 9} \<Longrightarrow> commit_valid demo demo_one_commit (demo_commit n)"
  by (auto simp: commit_valid_def demo_signature_ok in_window_def demo_hash_def)

lemma chars_inject: "chars a = chars b \<longleftrightarrow> a = b"
proof
  have "inj (\<lambda>w::u8. char_of (unat w) :: char)"
  proof (rule injI)
    fix v w :: u8
    assume "(char_of (unat v) :: char) = char_of (unat w)"
    then have "(of_char (char_of (unat v) :: char) :: nat) = of_char (char_of (unat w) :: char)" by simp
    then have "unat v mod 256 = unat w mod 256" by (simp only: of_char_of)
    moreover have "unat v < 256" "unat w < 256"
      using unsigned_less [of v] unsigned_less [of w] by simp_all
    ultimately show "v = w" by (simp add: word_unat_eq_iff)
  qed
  then show "chars a = chars b \<Longrightarrow> a = b" by (simp add: chars_def inj_map_eq_map)
qed simp

lemma demo_key_slots:
  "quorum_slot m \<noteq> None \<Longrightarrow> quorum_slot m' \<noteq> None \<Longrightarrow>
   get_message_key demo m = get_message_key demo m' \<longleftrightarrow> quorum_slot m = quorum_slot m'"
  by (auto simp: get_message_key_slot get_hash_str_def chars_inject)

lemma demo_keys_differ [simp]:
  "get_message_key demo (Prepare (demo_prepare n)) \<noteq> get_message_key demo (PrePrepare demo_pp)"
  "get_message_key demo (Commit (demo_commit n)) \<noteq> get_message_key demo (PrePrepare demo_pp)"
  "get_message_key demo (Commit (demo_commit n)) \<noteq> get_message_key demo (Prepare (demo_prepare k))"
  by (simp_all add: demo_key_slots prefix_defs)

lemma demo_keys_same:
  "get_message_key demo (Prepare (demo_prepare n)) = get_message_key demo (Prepare (demo_prepare k))"
  "get_message_key demo (Commit (demo_commit n)) = get_message_key demo (Commit (demo_commit k))"
  by (simp_all add: demo_key_slots)

lemma demo_buckets:
  "bucket (messages (plog demo_proposed)) (get_message_key demo (Prepare (demo_prepare n))) = []"
  "bucket (messages (plog demo_one_prepare)) (get_message_key demo (Prepare (demo_prepare n))) =
     [Prepare (demo_prepare 2)]"
  "bucket (messages (plog demo_prepared)) (get_message_key demo (Commit (demo_commit n))) = []"
  "bucket (messages (plog demo_one_commit)) (get_message_key demo (Commit (demo_commit n))) =
     [Commit (demo_commit 2)]"
  by (simp_all add: demo_state_defs log_simps record_request_def consensus_log_new_def
      demo_keys_same [of n 2] demo_keys_same [of n 3] demo_keys_same [of 3 2])

subsection \<open>The run is a run\<close>

lemma demo_step:
  assumes "pbft_reachable demo [1] p"
    and "consensus_protocol_message_handler demo [1] p (demo_input b) = Some (p', ps)"
  shows "pbft_reachable demo [1] p'"
  using assms by (blast intro: pbft_reachable.step pbft_step.deliver)

lemma demo_deliver:
  "from_json_consensus_message demo b = Some \<lparr>msg_type = m\<rparr> \<Longrightarrow>
   consensus_protocol_message_handler demo [1] p (demo_input b) =
   handle_message_type demo [1] (demo_input b) p m"
  by (simp add: consensus_protocol_message_handler_def demo_input_def)

lemma demo_node_reachable: "pbft_reachable demo [1] demo_node"
proof -
  have store: "consensus_protocol_message_handler demo [1] p (demo_input [3, n]) =
      Some (p\<lparr>consensus_node_pk := (consensus_node_pk p)([n] \<mapsto> [n])\<rparr>, ContinueExecute [])"
    if "consensus_node_pk p [n] = None" for p n
    using that by (simp add: demo_deliver demo_key_def storage_public_key_by_peer_id_def)
  have "pbft_reachable demo [1] ((pbft_default [1])\<lparr>consensus_node_pk := [[9] \<mapsto> [9]]\<rparr>)"
    by (rule demo_step [OF pbft_reachable.init [of demo "[1]" "[1]"]])
      (subst store [where n = 9], simp_all add: pbft_default_def)
  then have "pbft_reachable demo [1] ((pbft_default [1])\<lparr>consensus_node_pk := [[9] \<mapsto> [9], [2] \<mapsto> [2]]\<rparr>)"
    by (rule demo_step) (subst store [where n = 2], simp_all add: pbft_default_def)
  then show ?thesis
    by (rule demo_step) (subst store [where n = 3], simp_all add: pbft_default_def demo_node_def)
qed

lemma demo_proposed_step:
  "handle_preprepare demo demo_node [1] demo_pp =
     Some (demo_proposed, ContinueExecute [broadcast_of demo (Prepare (my_prepare demo demo_node [1] demo_pp))])"
  by (simp add: demo_proposed_def handle_preprepare_accept [OF demo_preprepare_valid demo_window(1)])

lemma demo_first_prepare:
  "handle_prepare demo demo_proposed [1] (demo_prepare 2) = Some (demo_one_prepare, ContinueExecute [])"
  by (simp add: handle_prepare_accept [OF demo_prepare_valid(1) demo_window(2)] u64_mul_def
      log_simps demo_buckets demo_one_prepare_def)

lemma demo_second_prepare:
  "handle_prepare demo demo_one_prepare [1] (demo_prepare 3) = Some
     (demo_prepared,
      ContinueExecute [broadcast_of demo (Commit (my_commit demo demo_one_prepare [1] (demo_prepare 3)))])"
  by (simp add: handle_prepare_accept [OF demo_prepare_valid(2) demo_window(3)] u64_mul_def
      log_simps demo_buckets demo_prepared_def)

lemma demo_first_commit:
  "handle_commit demo demo_prepared [1] (demo_commit 2) = Some (demo_one_commit, ContinueExecute [])"
  by (simp add: handle_commit_accept [OF demo_commit_valid(1) demo_window(4)] u64_mul_def
      demo_buckets demo_one_commit_def)

lemma demo_second_commit:
  "handle_commit demo demo_one_commit [1] (demo_commit 3) = Some
     (demo_done, Complete demo_req [Unicast [9]
        (json_consensus_message demo \<lparr>msg_type = Reply (my_reply demo demo_one_commit [1] demo_req (demo_commit 3))\<rparr>)])"
  using handle_commit_complete [OF demo_commit_valid(2) demo_window(5), of 3 "[3]" 2 "[9]" demo_req "[1]"]
  by (simp add: u64_mul_def demo_buckets demo_done_def demo_req_def)

lemma demo_reachable:
  "pbft_reachable demo [1] demo_proposed" "pbft_reachable demo [1] demo_one_prepare"
  "pbft_reachable demo [1] demo_prepared" "pbft_reachable demo [1] demo_one_commit"
  "pbft_reachable demo [1] demo_done"
proof -
  show a: "pbft_reachable demo [1] demo_proposed"
    by (rule demo_step [OF demo_node_reachable, of "[0, 0]"]) (simp add: demo_deliver demo_proposed_step)
  show b: "pbft_reachable demo [1] demo_one_prepare"
    by (rule demo_step [OF a, of "[1, 2]"]) (simp add: demo_deliver demo_first_prepare)
  show c: "pbft_reachable demo [1] demo_prepared"
    by (rule demo_step [OF b, of "[1, 3]"]) (simp add: demo_deliver demo_second_prepare)
  show d: "pbft_reachable demo [1] demo_one_commit"
    by (rule demo_step [OF c, of "[2, 2]"]) (simp add: demo_deliver demo_first_commit)
  show "pbft_reachable demo [1] demo_done"
    by (rule demo_step [OF d, of "[2, 3]"]) (simp add: demo_deliver demo_second_commit)
qed

end
