(* ===== verification/PBFT_Properties.thy ===== *)
theory PBFT_Properties
  imports PBFT_Demo
begin

text \<open>
  The properties of the PBFT log and of the PBFT node. Each is followed by its witness, an
  application to the concrete run of the previous theory where it has hypotheses.
\<close>

subsection \<open>Lemmas used below\<close>

text \<open>Delivering already decoded messages one after the other.\<close>

definition deliver_messages ::
    "'a pbft_ext_scheme \<Rightarrow> bytes \<Rightarrow> pbft_input \<Rightarrow> pbft_protocol \<Rightarrow> message_type list \<Rightarrow>
     (pbft_protocol \<times> phase_state list) option" where
  "deliver_messages E me i p ms = run_handler (handle_message_type E me i) p ms"

lemma deliver_Nil: "deliver_messages E me i p [] = Some (p, [])"
  by (simp add: deliver_messages_def)

lemma deliver_Cons:
  "handle_message_type E me i p m = Some (p1, ps) \<Longrightarrow>
   deliver_messages E me i p1 ms = Some (p2, pss) \<Longrightarrow>
   deliver_messages E me i p (m # ms) = Some (p2, ps # pss)"
  by (simp add: deliver_messages_def)

lemma deliver_append:
  "deliver_messages E me i p ms = Some (p1, ps) \<Longrightarrow> deliver_messages E me i p1 ns = Some (p2, qs) \<Longrightarrow>
   deliver_messages E me i p (ms @ ns) = Some (p2, ps @ qs)"
proof (induction ms arbitrary: p ps)
  case (Cons m ms)
  then obtain p0 out outs where "handle_message_type E me i p m = Some (p0, out)"
    and "deliver_messages E me i p0 ms = Some (p1, outs)" and "ps = out # outs"
    by (auto simp: deliver_messages_def bind_eq_Some_conv)
  with Cons.IH [OF this(2) Cons.prems(2)] show ?case by (simp add: deliver_Cons)
qed (simp add: deliver_messages_def)

text \<open>Recording a message of the same phase does not change which messages are valid.\<close>

lemma prepare_valid_record [simp]:
  "prepare_valid E (p\<lparr>plog := record_prepare E (plog p) x\<rparr>) = prepare_valid E p"
  by (simp add: fun_eq_iff prepare_valid_def in_window_def record_prepare_def Let_def)

lemma commit_valid_record [simp]:
  "commit_valid E (p\<lparr>plog := record_commit E (plog p) x\<rparr>) = commit_valid E p"
  by (simp add: fun_eq_iff commit_valid_def in_window_def record_commit_def Let_def)

lemma window_ok_plog [simp]: "window_ok (p\<lparr>plog := l\<rparr>) = window_ok p"
  by (simp add: window_ok_def)

lemma two_prepares:
  assumes "fault_tolerance_count (pstate p) = 1" and "window_ok p"
    and "prepare_valid E p a" and "prepare_valid E p b"
    and "peer_from_bytes E (p_from_peer_id a) = Some qa" and "peer_from_bytes E (p_from_peer_id b) = Some qb"
    and "get_message_key E (Prepare b) = get_message_key E (Prepare a)"
    and "bucket (messages (plog p)) (get_message_key E (Prepare a)) = []"
  shows "deliver_messages E me i p [Prepare a, Prepare b] = Some
     (p\<lparr>plog := update_request_phase_state (p_m_hash b) LogPrepared
          (record_prepare E (record_prepare E (plog p) a) b)\<rparr>,
      [ContinueExecute [], ContinueExecute [broadcast_of E (Commit (my_commit E p me b))]])"
proof -
  let ?p = "p\<lparr>plog := record_prepare E (plog p) a\<rparr>"
  have "handle_prepare E p me a = Some (?p, ContinueExecute [])"
    using handle_prepare_accept [OF assms(3,2,5), of 2 me] assms
    by (simp add: u64_mul_def log_simps Let_def)
  moreover have "handle_prepare E ?p me b = Some
     (p\<lparr>plog := update_request_phase_state (p_m_hash b) LogPrepared
          (record_prepare E (record_prepare E (plog p) a) b)\<rparr>,
      ContinueExecute [broadcast_of E (Commit (my_commit E p me b))])"
    using handle_prepare_accept [of E ?p b, OF _ _ assms(6), of 2 me] assms
    by (simp add: u64_mul_def log_simps Let_def my_commit_def)
  ultimately show ?thesis by (simp add: deliver_Cons deliver_Nil)
qed

lemma two_commits:
  assumes "fault_tolerance_count (pstate p) = 1" and "window_ok p"
    and "commit_valid E p c" and "commit_valid E p d"
    and "peer_from_bytes E (c_from_peer_id c) = Some qc" and "peer_from_bytes E (c_from_peer_id d) = Some qd"
    and "get_message_key E (Commit d) = get_message_key E (Commit c)"
    and "bucket (messages (plog p)) (get_message_key E (Commit c)) = []"
    and "requests (plog p) (c_number d) = Some r"
    and "peer_from_bytes E (primary (pstate p)) = Some to"
    and "unat (current_commited_request_count (pstate p)) + 1 < 2 ^ 64"
  shows "\<exists>p' q. deliver_messages E me i p [Commit c, Commit d] = Some
     (p', [ContinueExecute [], Complete \<lparr>cmd = cmd r\<rparr> q]) \<and> plog p' = reset (plog p) \<and>
     current_commited_request_count (pstate p') = current_commited_request_count (pstate p) + 1"
proof -
  let ?p = "p\<lparr>plog := record_commit E (plog p) c\<rparr>"
  have one: "handle_commit E p me c = Some (?p, ContinueExecute [])"
    using handle_commit_accept [OF assms(3,2,5), of 2 me] assms by (simp add: u64_mul_def)
  have "requests (plog ?p) (c_number d) = Some r"
    using assms(9) by (simp add: record_commit_def Let_def)
  then obtain p' q where two: "handle_commit E ?p me d = Some (p', Complete \<lparr>cmd = cmd r\<rparr> q)"
    and p': "plog p' = reset (plog ?p)"
      "current_commited_request_count (pstate p') = current_commited_request_count (pstate p) + 1"
    using handle_commit_complete [of E ?p d, OF _ _ assms(6), of 2 to r me] assms
    by (simp add: u64_mul_def log_simps)
  have "plog p' = reset (plog p)"
    unfolding p'(1) by (rule reset_eq) (simp add: log_simps)
  with one two p'(2) show ?thesis by (auto simp: deliver_Cons deliver_Nil)
qed

subsection \<open>Certificates\<close>

text \<open>
  C1. A node sends its commit message for a prepare only when its log holds exactly \<open>2f\<close>
  messages under the prepare's key; in a reachable state each of them is filed under its own
  key and, being a prepare or a commit, carries a signature that the registered public key
  of its sender verifies; the request is then marked prepared.
\<close>

theorem prepare_certificate:
  assumes "pbft_reachable E me p" and "handle_prepare E p me msg = Some (p', ps)"
    and "ps \<noteq> ContinueExecute []"
  shows "ps = ContinueExecute [broadcast_of E (Commit (my_commit E p me msg))] \<and>
    length (get_local_messages_by_hash (plog p') (get_message_key E (Prepare msg))) =
      2 * unat (fault_tolerance_count (pstate p)) \<and>
    (\<forall>m \<in> set (get_local_messages_by_hash (plog p') (get_message_key E (Prepare msg))).
       filed_ok E p' (get_message_key E (Prepare msg)) m) \<and>
    get_request_phase_state (plog p') (p_m_hash msg) = Some LogPrepared \<and>
    prepare_valid E p msg"
proof -
  have "handle_message_type E me i p (Prepare msg) = Some (p', ps)" for i
    using assms(2) by simp
  then have "signed_inv E p'"
    using reachable_signed [OF assms(1)] handle_message_type_signed by blast
  then have filed: "filed_ok E p' k m" if "m \<in> set (bucket (messages (plog p')) k)" for k m
    using that by (simp add: signed_inv_def)
  from assms(2) show ?thesis
  proof (cases rule: handle_prepare_cases)
    case quorum
    then have "request_phase_state (plog p') (p_m_hash msg) = Some LogPrepared"
      by (simp add: update_request_phase_state_def)
    with quorum filed show ?thesis by (simp add: read_defs)
  qed (use assms(3) in simp_all)
qed

theorem prepare_certificate_witness:
  "length (get_local_messages_by_hash (plog demo_prepared)
     (get_message_key demo (Prepare (demo_prepare 3)))) = 2 \<and>
   get_request_phase_state (plog demo_prepared) demo_hash = Some LogPrepared"
  using prepare_certificate [OF demo_reachable(2) demo_second_prepare] by simp

text \<open>
  C2. A node reports a request as complete only when, before the delivered commit, its log
  held exactly \<open>2f - 1\<close> signed and properly filed messages under the commit's key; the
  request is the one recorded under the commit's number and hashes to the commit's digest;
  the log is then reset, the committed counter grows by one and the reply goes to the primary.
\<close>

theorem commit_certificate:
  assumes "pbft_reachable E me p" and "handle_commit E p me msg = Some (p', Complete r q)"
  shows "\<exists>m to. requests (plog p) (c_number msg) = Some m \<and> cmd r = cmd m \<and>
    get_message_key E (Request m) = c_m_hash msg \<and>
    signature_ok E p (c_from_peer_id msg) (c_signature msg) (get_message_key E (Commit msg)) \<and>
    Suc (get_local_messages_count_by_hash (plog p) (get_message_key E (Commit msg))) =
      2 * unat (fault_tolerance_count (pstate p)) \<and>
    (\<forall>x \<in> set (get_local_messages_by_hash (plog p) (get_message_key E (Commit msg))).
       filed_ok E p (get_message_key E (Commit msg)) x) \<and>
    plog p' = reset (plog p) \<and>
    unat (current_commited_request_count (pstate p')) =
      Suc (unat (current_commited_request_count (pstate p))) \<and>
    peer_from_bytes E (primary (pstate p)) = Some to \<and>
    q = [Unicast to (json_consensus_message E \<lparr>msg_type = Reply (my_reply E p me m msg)\<rparr>)]"
proof -
  have filed: "filed_ok E p k x" if "x \<in> set (bucket (messages (plog p)) k)" for k x
    using reachable_signed [OF assms(1)] that by (simp add: signed_inv_def)
  from assms(2) show ?thesis
  proof (cases rule: handle_commit_cases)
    case (committed m primary_id)
    have "unat (current_commited_request_count (pstate p) + 1) =
        Suc (unat (current_commited_request_count (pstate p)))"
      using u64_add_unat [of "current_commited_request_count (pstate p)" 1] committed(5)
      by (simp add: u64_add_Some)
    with committed filed show ?thesis by (auto simp: read_defs commit_valid_def)
  qed simp_all
qed

theorem commit_certificate_witness:
  "plog demo_done = reset (plog demo_one_commit) \<and>
   unat (current_commited_request_count (pstate demo_done)) = 1"
  using commit_certificate [OF demo_reachable(4) demo_second_commit] by simp

text \<open>
  C3. The normal case goes through: a node that has filed no messages, requests or request phases yet, with fault bound
  one, that receives a valid proposal, two valid prepares and two valid commits for it (from
  senders whose keys it knows, under three different message keys) reports the request as
  complete at the last of them, after having sent its prepare and its commit.
\<close>

theorem normal_case_completes:
  assumes fresh: "messages (plog p) = Map.empty" "requests (plog p) = Map.empty"
      "request_phase_state (plog p) = Map.empty"
    and f: "fault_tolerance_count (pstate p) = 1"
    and room: "window_ok p" "unat (current_commited_request_count (pstate p)) + 1 < 2 ^ 64"
    and proposal: "preprepare_valid E p pp" "from_json_request E (pp_m pp) = Some r"
      "pp_m_hash pp = get_message_key E (Request r)"
    and prepares: "\<forall>m \<in> {a, b}. p_view m = pp_view pp \<and> p_number m = pp_number pp \<and>
      p_m_hash m = pp_m_hash pp \<and>
      signature_ok E p (p_from_peer_id m) (p_signature m) (get_message_key E (Prepare m))"
    and commits: "\<forall>m \<in> {c, d}. c_view m = pp_view pp \<and> c_number m = pp_number pp \<and>
      c_m_hash m = pp_m_hash pp \<and>
      signature_ok E p (c_from_peer_id m) (c_signature m) (get_message_key E (Commit m))"
    and peers: "\<forall>x \<in> {pp_from_peer_id pp, p_from_peer_id a, p_from_peer_id b, c_from_peer_id c, c_from_peer_id d}.
      peer_from_bytes E x \<noteq> None"
    and keys: "distinct [get_message_key E (PrePrepare pp), get_message_key E (Prepare a), get_message_key E (Commit c)]"
  shows "\<exists>p' q. deliver_messages E me i p [PrePrepare pp, Prepare a, Prepare b, Commit c, Commit d] = Some
     (p', [ContinueExecute [broadcast_of E (Prepare (my_prepare E p me pp))], ContinueExecute [],
           ContinueExecute [broadcast_of E (Commit (my_commit E p me b))], ContinueExecute [],
           Complete \<lparr>cmd = cmd r\<rparr> q]) \<and> plog p' = reset (plog p) \<and>
     current_commited_request_count (pstate p') = current_commited_request_count (pstate p) + 1"
proof -
  define log1 where "log1 = record_preprepare E (record_request (pp_number pp) r (plog p)) pp"
  define p1 where "p1 = (preprepare_seen E p pp r)\<lparr>plog := log1\<rparr>"
  define p2 where "p2 = p1\<lparr>plog := update_request_phase_state (p_m_hash b) LogPrepared
          (record_prepare E (record_prepare E (plog p1) a) b)\<rparr>"
  obtain qp qa qb qc qd where peer: "peer_from_bytes E (pp_from_peer_id pp) = Some qp"
      "peer_from_bytes E (p_from_peer_id a) = Some qa" "peer_from_bytes E (p_from_peer_id b) = Some qb"
      "peer_from_bytes E (c_from_peer_id c) = Some qc" "peer_from_bytes E (c_from_peer_id d) = Some qd"
    using peers by auto
  have same: "get_message_key E (Prepare b) = get_message_key E (Prepare a)"
      "get_message_key E (Commit d) = get_message_key E (Commit c)"
    using prepares commits by (simp_all add: get_message_key.simps)
  have pk: "signature_ok E p1 = signature_ok E p" "signature_ok E p2 = signature_ok E p"
    by (rule signature_ok_cong, simp add: p1_def p2_def)+
  have st: "pstate p2 = pstate p1" "view (pstate p1) = view (pstate p)"
      "stable_checkpoint (pstate p1) = stable_checkpoint (pstate p)"
      "fault_tolerance_count (pstate p1) = 1" "primary (pstate p1) = pp_from_peer_id pp"
      "current_commited_request_count (pstate p1) = current_commited_request_count (pstate p)"
    by (simp_all add: p1_def p2_def f preprepare_seen_def)
  have win: "in_window p (pp_number pp)" "pp_view pp = view (pstate p)"
    using proposal(1) by (simp_all add: preprepare_valid_def)
  have log: "requests (plog p1) (pp_number pp) = Some r" "requests (plog p2) (pp_number pp) = Some r"
      "request_phase_state (plog p1) = Map.empty"
      "request_phase_state (plog p2) = [p_m_hash b \<mapsto> LogPrepared]"
    using fresh by (simp_all add: p1_def p2_def log1_def record_defs record_request_def Let_def
        update_request_phase_state_def)
  have wok: "window_ok p1" "window_ok p2" using room(1) by (simp_all add: window_ok_def st)
  have va: "prepare_valid E p1 a" and vb: "prepare_valid E p1 b"
    using prepares win log proposal(3) by (simp_all add: prepare_valid_def pk st in_window_def)
  have vc: "commit_valid E p2 c" and vd: "commit_valid E p2 d"
    using commits prepares win log proposal(3) by (simp_all add: commit_valid_def pk st in_window_def)
  have b1: "bucket (messages (plog p1)) (get_message_key E (Prepare a)) = []"
    and b2: "bucket (messages (plog p2)) (get_message_key E (Commit c)) = []"
    using keys fresh by (auto simp: p1_def p2_def log1_def log_simps same)
  have s1: "deliver_messages E me i p [PrePrepare pp] = Some
      (p1, [ContinueExecute [broadcast_of E (Prepare (my_prepare E p me pp))]])"
    using handle_preprepare_accept [OF proposal(1) room(1) proposal(2) peer(1), of me]
    by (simp add: p1_def log1_def deliver_Cons deliver_Nil)
  have "my_commit E p1 me b = my_commit E p me b" by (simp add: my_commit_def st p1_def)
  with two_prepares [OF st(4) wok(1) va vb peer(2,3) same(1) b1, of me i]
  have s2: "deliver_messages E me i p1 [Prepare a, Prepare b] = Some
      (p2, [ContinueExecute [], ContinueExecute [broadcast_of E (Commit (my_commit E p me b))]])"
    by (simp add: p2_def)
  have "requests (plog p2) (c_number d) = Some r" using log commits by simp
  with two_commits [OF _ wok(2) vc vd peer(4,5) same(2) b2, of r qp me i] peer(1) room(2)
  obtain p' q where s3: "deliver_messages E me i p2 [Commit c, Commit d] = Some
      (p', [ContinueExecute [], Complete \<lparr>cmd = cmd r\<rparr> q])"
    and p': "plog p' = reset (plog p2)"
      "current_commited_request_count (pstate p') = current_commited_request_count (pstate p) + 1"
    by (auto simp: st)
  have "plog p' = reset (plog p)"
    unfolding p'(1) by (rule reset_eq) (simp add: p2_def p1_def log1_def log_simps)
  with p'(2) deliver_append [OF deliver_append [OF s1 s2] s3] show ?thesis by simp
qed

theorem normal_case_completes_witness:
  "\<exists>p' q. deliver_messages demo [1] (demo_input []) demo_node
       [PrePrepare demo_pp, Prepare (demo_prepare 2), Prepare (demo_prepare 3),
        Commit (demo_commit 2), Commit (demo_commit 3)] = Some
     (p', [ContinueExecute [broadcast_of demo (Prepare (my_prepare demo demo_node [1] demo_pp))],
           ContinueExecute [],
           ContinueExecute [broadcast_of demo (Commit (my_commit demo demo_node [1] (demo_prepare 3)))],
           ContinueExecute [], Complete \<lparr>cmd = cmd demo_req\<rparr> q]) \<and>
     plog p' = reset (plog demo_node) \<and>
     current_commited_request_count (pstate p') = current_commited_request_count (pstate demo_node) + 1"
proof (rule normal_case_completes)
  show "preprepare_valid demo demo_node demo_pp" by (rule demo_preprepare_valid)
  show "window_ok demo_node" by (rule demo_window)
  show "distinct [get_message_key demo (PrePrepare demo_pp), get_message_key demo (Prepare (demo_prepare 2)),
      get_message_key demo (Commit (demo_commit 2))]"
    using demo_keys_differ [of 2] by (simp add: eq_commute)
qed (auto simp: demo_signature_ok demo_hash_def consensus_log_new_def)

subsection \<open>Behaviour of the view change\<close>

text \<open>
  A view change message never makes a node send a new view: the answer is nothing, or the
  node's own view change once more than \<open>f\<close> have arrived. The call of \<open>broadcast_newview\<close>
  stands in a branch whose condition cannot hold.
\<close>

theorem viewchange_never_starts_newview:
  assumes "handle_viewchange E p me msg = Some (p', ps)"
  shows "ps = ContinueExecute [] \<or>
    (broadcast_viewchange E p' me = Some ps \<and>
     unat (fault_tolerance_count (pstate p)) <
       get_viewchange_messages_count_by_view (plog p') (vc_new_view msg))"
  using assms by (cases rule: handle_viewchange_cases) (simp_all add: read_defs)

definition demo_viewchange :: view_change where
  "demo_viewchange = ViewChangeMsg 1 (ProofMessages [] []) [2] ''''"

theorem viewchange_never_starts_newview_witness:
  "get_viewchange_messages_count_by_view
     (plog (demo_node\<lparr>plog := record_viewchange (record_viewchange consensus_log_new demo_viewchange) demo_viewchange\<rparr>)) 1 = 2 \<and>
   (broadcast_viewchange demo (demo_node\<lparr>plog :=
       record_viewchange (record_viewchange consensus_log_new demo_viewchange) demo_viewchange\<rparr>) [1] =
     Some (ContinueExecute [broadcast_of demo (ViewChange (ViewChangeMsg 1 (ProofMessages [] []) [1] ''''))]))"
proof -
  let ?p = "demo_node\<lparr>plog := record_viewchange consensus_log_new demo_viewchange\<rparr>"
  let ?q = "demo_node\<lparr>plog := record_viewchange (record_viewchange consensus_log_new demo_viewchange) demo_viewchange\<rparr>"
  let ?ps = "ContinueExecute [broadcast_of demo (ViewChange (ViewChangeMsg 1 (ProofMessages [] []) [1] ''''))]"
  have count: "get_viewchange_messages_count_by_view (plog ?q) 1 = 2"
    by (simp add: read_defs record_viewchange_def demo_viewchange_def consensus_log_new_def)
  have "broadcast_viewchange demo ?q [1] = Some ?ps"
    by (simp add: broadcast_viewchange_def get_proof_messages_def u64_mul_def u64_add_def
        record_viewchange_def consensus_log_new_def)
  then have "handle_viewchange demo ?p [1] demo_viewchange = Some (?q, ?ps)"
    using count by (simp add: handle_viewchange_def demo_viewchange_def Let_def)
  from viewchange_never_starts_newview [OF this] count show ?thesis by simp
qed

text \<open>
  In every reachable state a node's own view change carries no proof of any prepared
  request: the log of pending requests is always empty, because the future that would fill it
  is never awaited. The broadcast is determined by the node's view and identity alone.
\<close>

theorem viewchange_proofs_empty:
  assumes "pbft_reachable E me p" and "unat (view (pstate p)) + 1 < 2 ^ 64"
  shows "broadcast_viewchange E p me = Some (ContinueExecute
    [broadcast_of E (ViewChange (ViewChangeMsg (view (pstate p) + 1) (ProofMessages [] []) me ''''))])"
  using reachable_static [OF assms(1)] assms(2)
  by (simp add: static_inv_def broadcast_viewchange_def get_proof_messages_def u64_mul_def u64_add_def)

theorem viewchange_proofs_empty_witness:
  "broadcast_viewchange demo demo_prepared [1] = Some (ContinueExecute
    [broadcast_of demo (ViewChange (ViewChangeMsg 1 (ProofMessages [] []) [1] ''''))])"
  using viewchange_proofs_empty [OF demo_reachable(3)] by simp

text \<open>
  A new view message is adopted as it comes: the node moves to the view it names, whatever
  its own view and whatever the message proves, and answers every pre-prepare of the message
  with an unsigned prepare that is serialized without the message wrapper.
\<close>

theorem newview_is_adopted:
  "\<exists>p'. handle_newview E p me msg = Some (p', ContinueExecute
      (map (\<lambda>pp. Broadcast (json_message_type E (Prepare \<lparr>p_view = nv_view msg, p_number = pp_number pp,
         p_m_hash = pp_m_hash pp, p_from_peer_id = me, p_signature = []\<rparr>))) (nv_preprepares msg))) \<and>
    view (pstate p') = nv_view msg \<and> current_requests (plog p') = [] \<and>
    (\<forall>k. get_local_messages_by_hash (plog p') k = get_local_messages_by_hash (plog p) k @
       map PrePrepare (filter (\<lambda>pp. get_message_key E (PrePrepare pp) = k) (nv_preprepares msg)))"
  by (simp add: handle_newview_eq log_simps preprepare_store.get_pushes)
    (simp add: read_defs log_simps)

subsection \<open>Behaviour of the normal case\<close>

text \<open>
  The quorum counts messages, not senders: with fault bound one, the same valid prepare
  delivered twice makes the node send its commit.
\<close>

theorem prepare_quorum_counts_copies:
  assumes "fault_tolerance_count (pstate p) = 1" and "window_ok p" and "prepare_valid E p a"
    and "peer_from_bytes E (p_from_peer_id a) \<noteq> None"
    and "get_local_messages_count_by_hash (plog p) (get_message_key E (Prepare a)) = 0"
  shows "\<exists>p'. deliver_messages E me i p [Prepare a, Prepare a] = Some
      (p', [ContinueExecute [], ContinueExecute [broadcast_of E (Commit (my_commit E p me a))]]) \<and>
    get_request_phase_state (plog p') (p_m_hash a) = Some LogPrepared"
proof -
  from assms(4) obtain q where "peer_from_bytes E (p_from_peer_id a) = Some q" by auto
  with two_prepares [OF assms(1,2,3,3), of q q me i] assms(5) show ?thesis
    by (auto simp: read_defs update_request_phase_state_def)
qed

theorem prepare_quorum_counts_copies_witness:
  "\<exists>p'. deliver_messages demo [1] (demo_input []) demo_proposed [Prepare (demo_prepare 2), Prepare (demo_prepare 2)] =
     Some (p', [ContinueExecute [],
       ContinueExecute [broadcast_of demo (Commit (my_commit demo demo_proposed [1] (demo_prepare 2)))]]) \<and>
   get_request_phase_state (plog p') (p_m_hash (demo_prepare 2)) = Some LogPrepared"
  by (rule prepare_quorum_counts_copies)
    (simp_all add: demo_window demo_prepare_valid read_defs demo_buckets)

text \<open>
  In every reachable state a request is turned into a signed pre-prepare of the node's
  current view; its sequence number is always one, as the counter is never advanced.
\<close>

theorem proposal_number_is_one:
  assumes "pbft_reachable E me p"
  shows "\<exists>p' m. handle_request E p me r = Some (p', ContinueExecute [broadcast_of E (PrePrepare m)]) \<and>
    pp_number m = 1 \<and> pp_view m = view (pstate p) \<and> pp_m_hash m = get_message_key E (Request r) \<and>
    pp_signature m = eddsa_sign E (keypair p) (as_bytes (get_message_key E (PrePrepare m))) \<and>
    check_taken_request p' (bincode_request E r) \<and> is_leader p' me"
proof -
  have zero: "current_sequence_number (pstate p) = 0"
    using reachable_static [OF assms] by (simp add: static_inv_def)
  then obtain p' ps where run: "handle_request E p me r = Some (p', ps)"
    by (simp add: handle_request_def u64_add_def Let_def)
  from handle_request_cases [OF run] zero run show ?thesis
    by (auto simp: check_taken_request_def is_leader_def my_preprepare_def Let_def
        get_message_key.simps)
qed

theorem proposal_number_is_one_witness:
  "\<exists>p' m. handle_request demo demo_node [1] demo_req = Some (p', ContinueExecute [broadcast_of demo (PrePrepare m)]) \<and>
    pp_number m = 1 \<and> pp_view m = 0 \<and> pp_m_hash m = demo_hash"
  using proposal_number_is_one [OF demo_node_reachable, of demo_req] by (auto simp: demo_hash_def)

text \<open>
  C4. What a primary proposes, a replica accepts: if the replica knows the primary's public
  key, is in the same view, has the proposal's number in its window and JSON decodes what it
  encodes, it answers the proposal with a prepare for the same slot, which carries the
  replica's signature of the prepare's key: whoever holds the replica's public key accepts
  the signature.
\<close>

theorem proposal_accepted:
  assumes "handle_request E p me r = Some (p', ps)"
    and "dalek_correct E" and "consensus_node_pk q me = Some (eddsa_get_public_key E (keypair p))"
    and "view (pstate q) = view (pstate p)" and "window_ok q"
    and "in_window q (current_sequence_number (pstate p) + 1)"
    and "from_json_request E (json_request E r) = Some r" and "peer_from_bytes E me \<noteq> None"
  shows "\<exists>m q' x. ps = ContinueExecute [broadcast_of E (PrePrepare m)] \<and>
    handle_preprepare E q you m = Some (q', ContinueExecute [broadcast_of E (Prepare x)]) \<and>
    p_view x = pp_view m \<and> p_number x = pp_number m \<and> p_m_hash x = get_message_key E (Request r) \<and>
    p_from_peer_id x = you \<and> is_leader q' me \<and>
    p_signature x = eddsa_sign E (keypair q) (as_bytes (get_message_key E (Prepare x))) \<and>
    (consensus_node_pk s you = Some (eddsa_get_public_key E (keypair q)) \<longrightarrow>
       signature_ok E s (p_from_peer_id x) (p_signature x) (get_message_key E (Prepare x)))"
proof -
  from assms(8) obtain peer where peer: "peer_from_bytes E me = Some peer" by auto
  let ?m = "my_preprepare E p me r"
  have m: "pp_from_peer_id ?m = me" "pp_view ?m = view (pstate p)" "pp_m ?m = json_request E r"
      "pp_number ?m = current_sequence_number (pstate p) + 1" "pp_m_hash ?m = get_message_key E (Request r)"
      "pp_signature ?m = eddsa_sign E (keypair p) (as_bytes (get_message_key E (PrePrepare ?m)))"
    by (simp_all add: my_preprepare_def Let_def get_message_key.simps)
  have "preprepare_valid E q ?m"
    using assms(3,4,6) eddsa_sign_verify [OF assms(2)]
    by (simp add: preprepare_valid_def signature_ok_def get_public_key_by_peer_id_def m)
  then obtain q' where acc: "handle_preprepare E q you ?m =
      Some (q', ContinueExecute [broadcast_of E (Prepare (my_prepare E q you ?m))])"
    and "is_leader q' me"
    using handle_preprepare_accept [of E q ?m r peer you] assms(5,7) peer by (simp add: m is_leader_def)
  moreover have "p_signature (my_prepare E q you ?m) =
      eddsa_sign E (keypair q) (as_bytes (get_message_key E (Prepare (my_prepare E q you ?m))))"
    by (simp add: my_prepare_def Let_def get_message_key.simps)
  moreover have "p_view (my_prepare E q you ?m) = pp_view ?m" "p_number (my_prepare E q you ?m) = pp_number ?m"
      "p_m_hash (my_prepare E q you ?m) = get_message_key E (Request r)" "p_from_peer_id (my_prepare E q you ?m) = you"
    using assms(4) by (simp_all add: my_prepare_def Let_def m)
  ultimately show ?thesis
    using handle_request_cases [OF assms(1)] eddsa_sign_verify [OF assms(2)]
    by (intro exI [of _ ?m] exI [of _ q'] exI [of _ "my_prepare E q you ?m"])
      (simp add: signature_ok_def get_public_key_by_peer_id_def)
qed

theorem proposal_accepted_witness:
  "\<exists>m q' x. handle_preprepare demo (demo_node\<lparr>consensus_node_pk := [[9] \<mapsto> [1]]\<rparr>) [5] m =
      Some (q', ContinueExecute [broadcast_of demo (Prepare x)]) \<and> is_leader q' [9] \<and>
    signature_ok demo (demo_node\<lparr>consensus_node_pk := [[5] \<mapsto> eddsa_get_public_key demo (keypair demo_node)]\<rparr>) [5]
      (p_signature x) (get_message_key demo (Prepare x))"
proof -
  obtain p' ps where run: "handle_request demo demo_node [9] demo_req = Some (p', ps)"
    by (simp add: handle_request_def u64_add_def Let_def)
  have "window_ok (demo_node\<lparr>consensus_node_pk := [[9] \<mapsto> [1]]\<rparr>)"
    "in_window (demo_node\<lparr>consensus_node_pk := [[9] \<mapsto> [1]]\<rparr>) 1"
    by (simp_all add: window_ok_def in_window_def)
  from proposal_accepted [OF run demo_dalek, of "demo_node\<lparr>consensus_node_pk := [[9] \<mapsto> [1]]\<rparr>" "[5]"
      "demo_node\<lparr>consensus_node_pk := [[5] \<mapsto> eddsa_get_public_key demo (keypair demo_node)]\<rparr>"] this
  obtain m q' x where "handle_preprepare demo (demo_node\<lparr>consensus_node_pk := [[9] \<mapsto> [1]]\<rparr>) [5] m =
      Some (q', ContinueExecute [broadcast_of demo (Prepare x)])" "is_leader q' [9]" "p_from_peer_id x = [5]"
    "signature_ok demo (demo_node\<lparr>consensus_node_pk := [[5] \<mapsto> eddsa_get_public_key demo (keypair demo_node)]\<rparr>)
       (p_from_peer_id x) (p_signature x) (get_message_key demo (Prepare x))"
    by (auto simp: eddsa_get_public_key_def)
  then show ?thesis by auto
qed

text \<open>
  A registered public key is never replaced: whatever sequence of messages a node
  handles, the key it holds for a peer stays the first one it stored.
\<close>

theorem registered_keys_persist:
  assumes "run_handler (consensus_protocol_message_handler E me) p is = Some (p', outs)"
    and "get_public_key_by_peer_id p peer = Some k"
  shows "get_public_key_by_peer_id p' peer = Some k"
proof -
  have "[peer \<mapsto> k] \<subseteq>\<^sub>m consensus_node_pk p'"
    by (rule keys.run_inv [OF _ assms(1)])
      (use assms(2) in \<open>simp add: get_public_key_by_peer_id_def map_le_def\<close>)
  then show ?thesis by (simp add: get_public_key_by_peer_id_def map_le_def)
qed

theorem registered_keys_persist_witness:
  "\<exists>p'. run_handler (consensus_protocol_message_handler demo [1]) demo_node [demo_input [3, 9], demo_input [0, 0]] =
      Some (p', [ContinueExecute [], ContinueExecute [broadcast_of demo (Prepare (my_prepare demo demo_node [1] demo_pp))]]) \<and>
    get_public_key_by_peer_id p' [9] = Some [9]"
proof -
  have run: "run_handler (consensus_protocol_message_handler demo [1]) demo_node [demo_input [3, 9], demo_input [0, 0]] =
      Some (demo_proposed, [ContinueExecute [],
        ContinueExecute [broadcast_of demo (Prepare (my_prepare demo demo_node [1] demo_pp))]])"
    by (simp add: demo_deliver demo_key_def storage_public_key_by_peer_id_def demo_proposed_step)
  from registered_keys_persist [OF run, of "[9]" "[9]"] run show ?thesis
    by (simp add: get_public_key_by_peer_id_def)
qed

text \<open>
  Filing and counting: after recording any sequence of prepare messages into a log, the
  bucket of a key holds what it held before followed by exactly the recorded messages with
  that key, in order, and while messages of one key arrive at an empty bucket, the count
  equals a threshold after exactly that many of them.
\<close>

theorem prepare_log_counts:
  "get_local_messages_by_hash (foldl (record_prepare E) log ms) k =
     get_local_messages_by_hash log k @ map Prepare (filter (\<lambda>m. get_message_key E (Prepare m) = k) ms) \<and>
   (get_local_messages_count_by_hash log k = 0 \<and> (\<forall>m \<in> set ms. get_message_key E (Prepare m) = k) \<and> j \<le> length ms \<longrightarrow>
     (get_local_messages_count_by_hash (foldl (record_prepare E) log (take j ms)) k = n \<longleftrightarrow> j = n))"
  using prepare_store.get_pushes [of E log ms k] prepare_store.threshold_once [of log k ms E j n]
  by simp

theorem prepare_log_counts_witness:
  "get_local_messages_count_by_hash (foldl (record_prepare demo) consensus_log_new
     (take 2 [demo_prepare 2, demo_prepare 3])) (get_message_key demo (Prepare (demo_prepare 2))) = 2"
  using prepare_log_counts [of demo consensus_log_new "[demo_prepare 2, demo_prepare 3]"
      "get_message_key demo (Prepare (demo_prepare 2))" 2 2]
  by (simp add: read_defs consensus_log_new_def demo_keys_same [of 3 2])

subsection \<open>Keys\<close>

text \<open>
  A message key identifies the round of agreement: two quorum messages with the same key
  are of the same kind, view, number and digest, or exhibit a collision of the digest.
\<close>

theorem message_key_identifies_slot:
  assumes "quorum_slot m = Some s" and "quorum_slot m' = Some t"
    and "get_message_key E m = get_message_key E m'"
  shows "s = t \<or> collide E (slot_bytes s) (slot_bytes t)"
  using assms by (auto simp: get_message_key_slot collide_def)

theorem message_key_identifies_slot_witness:
  "quorum_slot (Prepare (demo_prepare 2)) = quorum_slot (Prepare (demo_prepare 3)) \<or>
   collide demo (slot_bytes (PREPARE_PREFIX, 0, 1, demo_hash)) (slot_bytes (PREPARE_PREFIX, 0, 1, demo_hash))"
  using message_key_identifies_slot [of "Prepare (demo_prepare 2)" _ "Prepare (demo_prepare 3)" _ demo]
  by (simp add: demo_keys_same [of 3 2])

text \<open>
  The keys the log computes from a request hash are the keys under which messages of
  that view, number and digest are filed, for each of the three kinds of quorum message.
\<close>

theorem keys_by_request_hash_agree:
  "get_preprepare_key_by_request_hash E (as_bytes (pp_m_hash a)) (pp_view a) (pp_number a) =
     get_message_key E (PrePrepare a) \<and>
   get_prepare_key_by_request_hash E (as_bytes (p_m_hash b)) (p_view b) (p_number b) =
     get_message_key E (Prepare b) \<and>
   get_commit_key_by_request_hash E (as_bytes (c_m_hash c)) (c_view c) (c_number c) =
     get_message_key E (Commit c)"
  by (simp add: get_preprepare_key_by_request_hash_def get_prepare_key_by_request_hash_def
      get_commit_key_by_request_hash_def get_message_key.simps)

subsection \<open>What a new view is built from\<close>

lemma preprepare_map_fold:
  "foldl (\<lambda>m vc. first_preprepare_loop m (proof_preprepares (vc_proof_messages vc))) m vcs k = Some p \<Longrightarrow>
   m k = Some p \<or> (\<exists>vc \<in> set vcs. PrePrepare p \<in> set (proof_preprepares (vc_proof_messages vc)) \<and> pp_number p = k)"
  by (induction vcs arbitrary: m) (fastforce dest: first_preprepare_loop_sound)+

lemma preprepare_map_sound:
  assumes "preprepare_map log v k = Some p"
  shows "pp_number p = k \<and> (\<exists>vc \<in> set (get_viewchange_messages_by_view log v).
    PrePrepare p \<in> set (proof_preprepares (vc_proof_messages vc)))"
  using preprepare_map_fold [of Map.empty "bucket (viewchanges log) v" k p] assms
  by (auto simp: preprepare_map_def read_defs)

text \<open>
  The pre-prepares of a new view cover every sequence number above \<open>mn\<close> and up to \<open>mx\<close>
  once, in order; each is a pre-prepare some recorded view change for that view proves, or
  the null request of the new view. The computation panics exactly when \<open>mx + 1\<close> or
  \<open>mn + 1\<close> overflows.
\<close>

theorem newview_preprepares:
  "case create_newview_preprepare_messages log v mn mx of
     None \<Rightarrow> unat mn + 1 = 2 ^ 64 \<or> unat mx + 1 = 2 ^ 64
   | Some ps \<Rightarrow> length ps = unat mx - unat mn \<and>
       (\<forall>j < length ps. unat (pp_number (ps ! j)) = unat mn + 1 + j \<and>
          (ps ! j = null_preprepare v (pp_number (ps ! j)) \<or>
           (\<exists>vc \<in> set (get_viewchange_messages_by_view log v).
              PrePrepare (ps ! j) \<in> set (proof_preprepares (vc_proof_messages vc)))))"
proof (cases "create_newview_preprepare_messages log v mn mx")
  case None
  moreover have "unat mn < 2 ^ 64" "unat mx < 2 ^ 64"
    using unsigned_less [of mn] unsigned_less [of mx] by simp_all
  ultimately show ?thesis
    by (auto simp: create_newview_preprepare_messages_def u64_add_def Option.bind_eq_None_conv
        split: if_splits)
next
  case (Some ps)
  then obtain lo hi where lo: "u64_add mn 1 = Some lo" and hi: "u64_add mx 1 = Some hi"
    and ps: "ps = map (\<lambda>i. case preprepare_map log v i of Some p \<Rightarrow> p | None \<Rightarrow> null_preprepare v i)
        (map of_nat [unat lo..<unat hi])"
    by (auto simp: create_newview_preprepare_messages_def bind_eq_Some_conv)
  have b: "unat lo = unat mn + 1" "unat hi = unat mx + 1"
    using u64_add_unat [OF lo] u64_add_unat [OF hi] by simp_all
  have "unat (pp_number (ps ! j)) = unat mn + 1 + j \<and>
      (ps ! j = null_preprepare v (pp_number (ps ! j)) \<or>
       (\<exists>vc \<in> set (get_viewchange_messages_by_view log v).
          PrePrepare (ps ! j) \<in> set (proof_preprepares (vc_proof_messages vc))))"
    if j: "j < length ps" for j
  proof -
    let ?i = "of_nat (unat lo + j) :: u64"
    have nth: "ps ! j = (case preprepare_map log v ?i of Some p \<Rightarrow> p | None \<Rightarrow> null_preprepare v ?i)"
      using j by (simp add: ps)
    have "unat lo + j < unat hi" using j by (simp add: ps)
    also have "unat hi < 2 ^ 64" using unsigned_less [of hi] by simp
    finally have "unat lo + j < 2 ^ LENGTH(64)" by simp
    then have "unat ?i = unat lo + j" by (simp only: unat_of_nat mod_less)
    with b have i: "unat ?i = unat mn + 1 + j" by simp
    show ?thesis
    proof (cases "preprepare_map log v ?i")
      case None
      with nth i show ?thesis by (simp add: null_preprepare_def)
    next
      case (Some p)
      with preprepare_map_sound [OF Some] nth i show ?thesis by auto
    qed
  qed
  moreover have "length ps = unat mx - unat mn"
    using b by (simp add: ps del: upt_Suc)
  ultimately show ?thesis using Some by simp
qed

theorem newview_preprepares_witness:
  "\<exists>ps. create_newview_preprepare_messages consensus_log_new 1 0 2 = Some ps \<and>
     length ps = 2 \<and> unat (pp_number (ps ! 1)) = 2"
  using newview_preprepares [where log = consensus_log_new and v = 1 and mn = 0 and mx = 2]
  by (auto split: option.splits)

text \<open>
  The bound used for a new view is the largest sequence number of any prepare that the
  recorded view changes for that view prove, and zero when there is none.
\<close>

theorem max_sequence_number:
  "(\<forall>vc \<in> set (get_viewchange_messages_by_view log v). \<forall>p.
      Prepare p \<in> set (proof_prepares (vc_proof_messages vc)) \<longrightarrow>
      p_number p \<le> get_max_sequence_number_in_viewchange_by_view log v) \<and>
   (get_max_sequence_number_in_viewchange_by_view log v = 0 \<or>
    (\<exists>vc \<in> set (get_viewchange_messages_by_view log v). \<exists>p.
      Prepare p \<in> set (proof_prepares (vc_proof_messages vc)) \<and>
      get_max_sequence_number_in_viewchange_by_view log v = p_number p))"
proof -
  let ?f = "\<lambda>mx vc. max_prepare_loop mx (proof_prepares (vc_proof_messages vc))"
  have ge: "mx \<le> foldl ?f mx vcs" for mx vcs
    by (induction vcs arbitrary: mx) (auto intro: order_trans max_prepare_loop_ge)
  have up: "p_number p \<le> foldl ?f mx vcs"
    if "vc \<in> set vcs" "Prepare p \<in> set (proof_prepares (vc_proof_messages vc))" for vc vcs mx p
    using that
    by (induction vcs arbitrary: mx) (auto intro: order_trans [OF max_prepare_loop_upper ge])
  have at: "foldl ?f mx vcs = mx \<or> (\<exists>vc \<in> set vcs. \<exists>p. Prepare p \<in> set (proof_prepares (vc_proof_messages vc)) \<and>
      foldl ?f mx vcs = p_number p)" for mx vcs
  proof (induction vcs arbitrary: mx)
    case (Cons vc vcs)
    from Cons.IH [of "?f mx vc"] max_prepare_loop_attained [of mx "proof_prepares (vc_proof_messages vc)"]
    show ?case by auto
  qed simp
  show ?thesis
    using up at [of 0]
    by (auto simp: get_max_sequence_number_in_viewchange_by_view_def read_defs)
qed

theorem max_sequence_number_witness:
  "p_number (demo_prepare 2) \<le> get_max_sequence_number_in_viewchange_by_view
     (record_viewchange consensus_log_new (ViewChangeMsg 1 (ProofMessages [] [Prepare (demo_prepare 2)]) [2] '''')) 1"
  using max_sequence_number [of "record_viewchange consensus_log_new
      (ViewChangeMsg 1 (ProofMessages [] [Prepare (demo_prepare 2)]) [2] '''')" 1]
  by (simp add: record_viewchange_def read_defs consensus_log_new_def)

end
