(* ===== verification/HotStuff_Messages.thy ===== *)
theory HotStuff_Messages
  imports Framework_Messages "HOL-Library.AList"
begin

text \<open>
  Messages of the basic HotStuff protocol (\<open>protocols/src/basic_hotstuff/message.rs\<close>), its
  hashes and key generation (\<open>common.rs\<close>) and the threshold signature wrapper
  (\<open>utils/src/crypto/threshold_blsttc.rs\<close>). Keys, signatures and signature shares of the
  blsttc library are byte strings; its functions, bincode and serde_json are fields of the
  record \<open>hs_ext\<close>.
\<close>

subsection \<open>Messages\<close>

record block =
  block_cmd :: string
  parent_hash :: string

record qc =
  qc_msg_type :: u8
  qc_view_num :: u64
  qc_block :: block
  qc_signature :: "bytes option"

record hs_new_view =
  nv_view_num :: u64
  nv_justify :: "qc option"
  nv_from_peer_id :: bytes

record hs_prepare =
  pr_view_num :: u64
  pr_block :: block
  pr_justify :: "qc option"
  pr_from_peer_id :: bytes

record pre_commit =
  pc_view_num :: u64
  pc_justify :: "qc option"

record hs_commit =
  cm_view_num :: u64
  cm_justify :: "qc option"

record decide =
  dc_view_num :: u64
  dc_justify :: "qc option"

record consensus_node_pk_info =
  pki_number :: u64
  pki_public_key :: bytes

record vote =
  vt_view_num :: u64
  vt_block :: block
  vt_partial_signature :: "bytes option"
  vt_from_peer_id :: bytes

record tbls_key =
  secret_key :: bytes
  tk_public_key :: bytes
  common_public_key :: bytes
  pk_set :: bytes

datatype hs_message_type =
    HsRequest request
  | HsNewView hs_new_view
  | HsPrepare hs_prepare
  | HsCommit hs_commit
  | HsPreCommit pre_commit
  | HsDecide decide
  | HsPrepareVote vote
  | HsCommitVote vote
  | HsPreCommitVote vote
  | HsEnd string
  | HsTBLSKey tbls_key
  | HsConsensusNodePKsInfo bytes

record hs_consensus_message =
  hs_msg_type :: hs_message_type

definition qc_new :: "u8 \<Rightarrow> u64 \<Rightarrow> block \<Rightarrow> qc" where
  "qc_new ty v b = \<lparr>qc_msg_type = ty, qc_view_num = v, qc_block = b, qc_signature = None\<rparr>"

definition set_signature :: "qc \<Rightarrow> bytes \<Rightarrow> qc" where
  "set_signature q s = q\<lparr>qc_signature := Some s\<rparr>"

subsection \<open>Third-party functions\<close>

text \<open>
  \<open>bls_sign sk m\<close>, \<open>bls_verify_share pk s m\<close>, \<open>bls_verify pk s m\<close> and \<open>bls_combine pks shares\<close>
  are the operations of \<open>SecretKeyShare\<close>, \<open>PublicKeyShare\<close>, \<open>PublicKey\<close> and \<open>PublicKeySet\<close>;
  \<open>bls_secret_share\<close>, \<open>bls_public_keys\<close>, \<open>bls_public_share\<close>, \<open>bls_public_key\<close> derive the
  keys of one key set.
\<close>

record hs_ext = ext +
  json_hs_message :: "hs_consensus_message \<Rightarrow> bytes"
  from_json_hs_message :: "bytes \<Rightarrow> hs_consensus_message option"
  json_hs_prepare_str :: "hs_prepare \<Rightarrow> string"
  json_vote_str :: "vote \<Rightarrow> string"
  json_pre_commit_str :: "pre_commit \<Rightarrow> string"
  json_hs_commit_str :: "hs_commit \<Rightarrow> string"
  bincode_block :: "block \<Rightarrow> bytes"
  bincode_pks :: "(bytes \<rightharpoonup> consensus_node_pk_info) \<Rightarrow> bytes"
  from_bincode_pks :: "bytes \<Rightarrow> (bytes \<rightharpoonup> consensus_node_pk_info) option"
  peer_from_str :: "string \<Rightarrow> peer_id option"
  bls_sign :: "bytes \<Rightarrow> bytes \<Rightarrow> bytes"
  bls_verify_share :: "bytes \<Rightarrow> bytes \<Rightarrow> bytes \<Rightarrow> bool"
  bls_verify :: "bytes \<Rightarrow> bytes \<Rightarrow> bytes \<Rightarrow> bool"
  bls_combine :: "bytes \<Rightarrow> (u64 \<rightharpoonup> bytes) \<Rightarrow> bytes option"
  bls_secret_share :: "bytes \<Rightarrow> nat \<Rightarrow> bytes"
  bls_public_keys :: "bytes \<Rightarrow> bytes"
  bls_public_share :: "bytes \<Rightarrow> nat \<Rightarrow> bytes"
  bls_public_key :: "bytes \<Rightarrow> bytes"

subsection \<open>The threshold signature wrapper\<close>

definition tbls_sign :: "'a hs_ext_scheme \<Rightarrow> tbls_key \<Rightarrow> bytes \<Rightarrow> bytes" where
  "tbls_sign E k data = bls_sign E (secret_key k) data"

definition partial_verify :: "'a hs_ext_scheme \<Rightarrow> tbls_key \<Rightarrow> bytes \<Rightarrow> bytes \<Rightarrow> bool" where
  "partial_verify E k sig data = bls_verify_share E (tk_public_key k) sig data"

definition threshold_verify :: "'a hs_ext_scheme \<Rightarrow> tbls_key \<Rightarrow> bytes \<Rightarrow> bytes \<Rightarrow> bool" where
  "threshold_verify E k sig data = bls_verify E (common_public_key k) sig data"

definition combine_partial_signatures :: "'a hs_ext_scheme \<Rightarrow> tbls_key \<Rightarrow> (u64 \<rightharpoonup> bytes) \<Rightarrow> bytes option" where
  "combine_partial_signatures E k sigs = bls_combine E (pk_set k) sigs"

record threshold_sig_keys =
  keypair_shares :: "(u64 \<times> bytes \<times> bytes) list"
  common_pk :: bytes
  tsk_pk_set :: bytes

text \<open>\<open>random t\<close> is the key set that \<open>SecretKeySet::random(t, ..)\<close> draws.\<close>

definition generate_keypair_set ::
    "'a hs_ext_scheme \<Rightarrow> (nat \<Rightarrow> bytes) \<Rightarrow> nat \<Rightarrow> nat \<Rightarrow> threshold_sig_keys" where
  "generate_keypair_set E random t n =
     (let sk_set = random t;
          pks = bls_public_keys E sk_set
      in \<lparr>keypair_shares =
            map (\<lambda>i. (of_nat i, bls_secret_share E sk_set i, bls_public_share E pks i)) [0..<n],
          common_pk = bls_public_key E pks, tsk_pk_set = pks\<rparr>)"

subsection \<open>Hashes and key distribution\<close>

definition REQUEST :: u8 where "REQUEST = 0"
definition PREPARE :: u8 where "PREPARE = 1"
definition PRE_COMMIT :: u8 where "PRE_COMMIT = 2"
definition COMMIT :: u8 where "COMMIT = 3"
definition DECIDE :: u8 where "DECIDE = 4"

definition get_block_hash :: "'a hs_ext_scheme \<Rightarrow> block \<Rightarrow> string" where
  "get_block_hash E b = get_hash_str E (bincode_block E b)"

record distribute_tbls_key =
  dk_number :: u64
  dk_peer_id :: peer_id
  dk_tbls_key :: tbls_key

text \<open>\<open>order\<close> is the iteration order of the map of consensus nodes.\<close>

definition generate_bls_keys ::
    "'a hs_ext_scheme \<Rightarrow> (nat \<Rightarrow> bytes) \<Rightarrow> string list \<Rightarrow> (string \<rightharpoonup> peer_id) \<Rightarrow> u64 \<Rightarrow>
     distribute_tbls_key list" where
  "generate_bls_keys E random order consensus_nodes fault_count =
     (let key_set = generate_keypair_set E random (unat fault_count) (length order)
      in map (\<lambda>((i, sk, pk), peer_id).
           \<lparr>dk_number = i, dk_peer_id = peer_id,
            dk_tbls_key = \<lparr>secret_key = sk, tk_public_key = pk,
              common_public_key = common_pk key_set, pk_set = tsk_pk_set key_set\<rparr>\<rparr>)
         (zip (keypair_shares key_set) (List.map_filter consensus_nodes order)))"

definition hs_get_request_hash :: "'a ext_scheme \<Rightarrow> request \<Rightarrow> string" where
  "hs_get_request_hash E request = get_hash_str E (bincode_request E request)"

definition get_message_hash :: "'a hs_ext_scheme \<Rightarrow> u8 \<Rightarrow> u64 \<Rightarrow> block \<Rightarrow> string" where
  "get_message_hash E ty v b =
     (if ty > 4 then ''''
      else get_hash_str E ([ty] @ to_be_bytes v @ bincode_block E b))"

end
