(* ===== verification/HotStuff_Protocol.thy ===== *)
theory HotStuff_Protocol
  imports HotStuff_Messages
begin

text \<open>
  The basic HotStuff node: its state (\<open>protocols/src/basic_hotstuff/state.rs\<close>), its log
  (\<open>log.rs\<close>) and one definition per handler (\<open>protocol.rs\<close>). A handler returns the new
  protocol state and the \<open>PhaseState\<close> for the actuator; \<open>None\<close> is a panic. Hash maps whose
  size is read are association lists with distinct keys.
\<close>

subsection \<open>State and log\<close>

record hs_state =
  hs_view :: u64
  high_qc :: "qc option"
  prepare_qc :: "qc option"
  locked_qc :: "qc option"
  commit_qc :: "qc option"
  hs_primary :: bytes
  hs_node_count :: u64
  hs_fault_tolerance_count :: u64
  tf :: u64
  current_view_timeout :: u64
  hs_current_request_state :: request
  current_id :: bytes

definition hs_state_new :: hs_state where
  "hs_state_new =
     \<lparr>hs_view = 0, high_qc = None, prepare_qc = None, locked_qc = None, commit_qc = None,
      hs_primary = [], hs_node_count = 4, hs_fault_tolerance_count = 1, tf = 10,
      current_view_timeout = 10, hs_current_request_state = \<lparr>cmd = ''None''\<rparr>, current_id = []\<rparr>"

record hs_log =
  message_signatures :: "string \<rightharpoonup> (u64 \<times> bytes) list"
  newviews :: "u64 \<rightharpoonup> hs_new_view list"

definition hs_log_new :: hs_log where
  "hs_log_new = \<lparr>message_signatures = Map.empty, newviews = Map.empty\<rparr>"

definition record_newview :: "hs_log \<Rightarrow> u64 \<Rightarrow> hs_new_view \<Rightarrow> hs_log" where
  "record_newview log v newview = log\<lparr>newviews := push_bucket (newviews log) v newview\<rparr>"

definition get_newviews_count_by_view :: "hs_log \<Rightarrow> u64 \<Rightarrow> nat" where
  "get_newviews_count_by_view log v = bucket_len (newviews log) v"

fun high_qc_loop :: "qc option \<Rightarrow> hs_new_view list \<Rightarrow> qc option" where
  "high_qc_loop h [] = h"
| "high_qc_loop h (newview # rest) =
     (case nv_justify newview of
        None \<Rightarrow> high_qc_loop h rest
      | Some j \<Rightarrow>
          (case h of
             None \<Rightarrow> high_qc_loop (Some j) rest
           | Some q \<Rightarrow>
               if qc_view_num q < qc_view_num j then high_qc_loop (Some j) rest
               else high_qc_loop h rest))"

definition get_high_qc_by_view :: "hs_log \<Rightarrow> u64 \<Rightarrow> qc option \<Rightarrow> qc option option" where
  "get_high_qc_by_view log v prepare = do {
     newview_vec \<leftarrow> newviews log v;
     Some (high_qc_loop prepare newview_vec)
   }"

definition record_messgae_partial_signature :: "hs_log \<Rightarrow> string \<Rightarrow> u64 \<Rightarrow> bytes \<Rightarrow> hs_log" where
  "record_messgae_partial_signature log msg_hash keypair_num partial_sig =
     (case message_signatures log msg_hash of
        Some signatures \<Rightarrow> log\<lparr>message_signatures := (message_signatures log)
          (msg_hash \<mapsto> AList.update keypair_num partial_sig signatures)\<rparr>
      | None \<Rightarrow> log\<lparr>message_signatures := (message_signatures log)
          (msg_hash \<mapsto> [(keypair_num, partial_sig)])\<rparr>)"

definition get_partial_signatures_by_message_hash :: "hs_log \<Rightarrow> string \<Rightarrow> (u64 \<times> bytes) list option" where
  "get_partial_signatures_by_message_hash log msg_hash = message_signatures log msg_hash"

definition get_partial_signatures_count_by_message_hash :: "hs_log \<Rightarrow> string \<Rightarrow> nat" where
  "get_partial_signatures_count_by_message_hash log msg_hash =
     (case message_signatures log msg_hash of Some signatures \<Rightarrow> length signatures | None \<Rightarrow> 0)"

subsection \<open>The protocol object\<close>

text \<open>
  A notification object of tokio is a handle (a number). The timer calls of the code are
  kept as a trace: \<open>TimerSpawn t s d v\<close> is the task that notifies \<open>t\<close> after \<open>d\<close> seconds
  unless \<open>s\<close> is notified first, and \<open>NotifyOne s\<close> is the call of \<open>notify_one\<close>.
\<close>

datatype timer_event = TimerSpawn nat nat u64 u64 | NotifyOne nat

record hs_protocol =
  hstate :: hs_state
  hlog :: hs_log
  hs_peer_id :: string
  hs_phase_map :: "u8 \<rightharpoonup> string"
  hs_keypair :: "tbls_key option"
  consensus_nodes :: "string \<rightharpoonup> peer_id"
  pk_consensus_nodes :: "(u64 \<times> bytes) list"
  consensus_node_pks :: "bytes \<rightharpoonup> consensus_node_pk_info"
  view_timeout_notify :: nat
  view_timeout_stop_notify :: nat
  timer_events :: "timer_event list"

text \<open>\<open>rnd\<close> is the string of the random peer identifier, \<open>t\<close> and \<open>s\<close> the two fresh handles.\<close>

definition hs_default :: "string \<Rightarrow> nat \<Rightarrow> nat \<Rightarrow> hs_protocol" where
  "hs_default rnd t s =
     \<lparr>hstate = hs_state_new, hlog = hs_log_new, hs_peer_id = rnd, hs_phase_map = Map.empty,
      hs_keypair = None, consensus_nodes = Map.empty, pk_consensus_nodes = [],
      consensus_node_pks = Map.empty, view_timeout_notify = t, view_timeout_stop_notify = s,
      timer_events = []\<rparr>"

definition hs_view_timeout_start :: "hs_protocol \<Rightarrow> u64 \<Rightarrow> hs_protocol" where
  "hs_view_timeout_start p view_num =
     p\<lparr>timer_events := timer_events p @
        [TimerSpawn (view_timeout_notify p) (view_timeout_stop_notify p)
           (current_view_timeout (hstate p)) view_num]\<rparr>"

definition hs_view_timeout_stop :: "hs_protocol \<Rightarrow> hs_protocol" where
  "hs_view_timeout_stop p =
     p\<lparr>hstate := (hstate p)\<lparr>current_view_timeout := tf (hstate p)\<rparr>,
       timer_events := timer_events p @ [NotifyOne (view_timeout_stop_notify p)]\<rparr>"

definition next_view :: "hs_protocol \<Rightarrow> hs_protocol option" where
  "next_view p = do {
     v \<leftarrow> u64_add (hs_view (hstate p)) 1;
     Some (p\<lparr>hstate := (hstate p)\<lparr>hs_view := v\<rparr>\<rparr>)
   }"

abbreviation hs_json :: "'a hs_ext_scheme \<Rightarrow> hs_message_type \<Rightarrow> bytes" where
  "hs_json E m \<equiv> json_hs_message E \<lparr>hs_msg_type = m\<rparr>"

subsection \<open>Entering a view\<close>

definition change_leader :: "hs_protocol \<Rightarrow> u64 \<Rightarrow> hs_protocol option" where
  "change_leader p view_num = do {
     leader_num \<leftarrow> u64_rem view_num (of_nat (length (pk_consensus_nodes p)));
     leader \<leftarrow> map_of (pk_consensus_nodes p) leader_num;
     Some (p\<lparr>hstate := (hstate p)\<lparr>hs_primary := leader\<rparr>\<rparr>)
   }"

definition newview :: "'a hs_ext_scheme \<Rightarrow> hs_protocol \<Rightarrow> bytes \<Rightarrow> (hs_protocol \<times> phase_state) option" where
  "newview E p current_peer_id = do {
     next \<leftarrow> u64_add (hs_view (hstate p)) 1;
     p1 \<leftarrow> change_leader p next;
     send_queue \<leftarrow>
       (if hs_primary (hstate p1) = current_peer_id then Some []
        else do {
          leader \<leftarrow> peer_from_bytes E (hs_primary (hstate p1));
          Some [Unicast leader (hs_json E (HsNewView
            \<lparr>nv_view_num = hs_view (hstate p1), nv_justify = prepare_qc (hstate p1),
             nv_from_peer_id = current_peer_id\<rparr>))]
        });
     let p2 = p1\<lparr>hstate := (hstate p1)\<lparr>hs_view := next\<rparr>\<rparr>;
     _ \<leftarrow> peer_from_bytes E (hs_primary (hstate p2));
     Some (hs_view_timeout_start p2 next, ContinueExecute send_queue)
   }"

text \<open>\<open>if let PhaseState::ContinueExecute(msg) = messages { for i in msg { queue.push_back(i) } }\<close>\<close>

definition append_continue :: "send_type list \<Rightarrow> phase_state \<Rightarrow> send_type list" where
  "append_continue q ps = (case ps of ContinueExecute msg \<Rightarrow> q @ msg | _ \<Rightarrow> q)"

subsection \<open>Keys\<close>

definition storage_tbls_key :: "hs_protocol \<Rightarrow> tbls_key \<Rightarrow> hs_protocol" where
  "storage_tbls_key p k = p\<lparr>hs_keypair := Some k\<rparr>"

text \<open>\<open>order\<close> is the iteration order of the map of public keys.\<close>

fun storage_pk_loop :: "'a hs_ext_scheme \<Rightarrow> (bytes \<rightharpoonup> consensus_node_pk_info) \<Rightarrow> bytes list \<Rightarrow>
    (u64 \<times> bytes) list \<Rightarrow> (u64 \<times> bytes) list option" where
  "storage_pk_loop E pks_info [] nodes = Some nodes"
| "storage_pk_loop E pks_info (peer_id # rest) nodes =
     (case pks_info peer_id of
        None \<Rightarrow> storage_pk_loop E pks_info rest nodes
      | Some pk_info \<Rightarrow> do {
          _ \<leftarrow> peer_from_bytes E peer_id;
          storage_pk_loop E pks_info rest (AList.update (pki_number pk_info) peer_id nodes)
        })"

definition storage_consensus_node_pk ::
    "'a hs_ext_scheme \<Rightarrow> bytes list \<Rightarrow> hs_protocol \<Rightarrow> (bytes \<rightharpoonup> consensus_node_pk_info) \<Rightarrow> peer_id \<Rightarrow>
     (hs_protocol \<times> phase_state) option" where
  "storage_consensus_node_pk E order p pks_info current_peer_id = do {
     nodes \<leftarrow> storage_pk_loop E pks_info order (pk_consensus_nodes p);
     newview E (p\<lparr>pk_consensus_nodes := nodes\<rparr>) (peer_to_bytes E current_peer_id)
   }"

definition get_public_key_info_by_peer_id :: "hs_protocol \<Rightarrow> bytes \<Rightarrow> consensus_node_pk_info option" where
  "get_public_key_info_by_peer_id p peer_id = consensus_node_pks p peer_id"

fun distribute_keys_loop :: "'a hs_ext_scheme \<Rightarrow> distribute_tbls_key list \<Rightarrow> hs_protocol \<Rightarrow> send_type list \<Rightarrow>
    (bytes \<rightharpoonup> consensus_node_pk_info) \<Rightarrow>
    (hs_protocol \<times> send_type list \<times> (bytes \<rightharpoonup> consensus_node_pk_info)) option" where
  "distribute_keys_loop E [] p queue pks = Some (p, queue, pks)"
| "distribute_keys_loop E (key_info # rest) p queue pks = do {
     let serialized_msg = hs_json E (HsTBLSKey (dk_tbls_key key_info));
     p1 \<leftarrow> (if peer_to_string E (dk_peer_id key_info) = hs_peer_id p
             then do {
               _ \<leftarrow> peer_from_str E (hs_peer_id p);
               Some (storage_tbls_key p (dk_tbls_key key_info))
             }
             else Some p);
     distribute_keys_loop E rest p1 (queue @ [Unicast (dk_peer_id key_info) serialized_msg])
       (pks(peer_to_bytes E (dk_peer_id key_info) \<mapsto>
          \<lparr>pki_number = dk_number key_info, pki_public_key = tk_public_key (dk_tbls_key key_info)\<rparr>))
   }"

text \<open>
  \<open>order\<close> and \<open>pks_order\<close> are the iteration orders of the map of nodes and of the map of
  public keys that the loop builds. The first key is sent through serde_json once, only to
  be printed.
\<close>

definition distribute_keys ::
    "'a hs_ext_scheme \<Rightarrow> (nat \<Rightarrow> bytes) \<Rightarrow> string list \<Rightarrow> bytes list \<Rightarrow> hs_protocol \<Rightarrow> peer_id \<Rightarrow>
     (hs_protocol \<times> phase_state) option" where
  "distribute_keys E random order pks_order p current_peer_id = do {
     let keys = generate_bls_keys E random order (consensus_nodes p) (hs_fault_tolerance_count (hstate p));
     first \<leftarrow> (case keys of [] \<Rightarrow> None | k # _ \<Rightarrow> Some (dk_tbls_key k));
     _ \<leftarrow> from_json_hs_message E (hs_json E (HsTBLSKey first));
     (p1, queue, pks) \<leftarrow> distribute_keys_loop E keys p [] Map.empty;
     let p2 = p1\<lparr>consensus_node_pks := pks\<rparr>;
     let queue1 = queue @ [Broadcast (hs_json E (HsConsensusNodePKsInfo (bincode_pks E pks)))];
     (p3, data) \<leftarrow> storage_consensus_node_pk E pks_order p2 pks current_peer_id;
     Some (p3, ContinueExecute (append_continue queue1 data))
   }"

subsection \<open>Proposals\<close>

definition safe_node :: "'a hs_ext_scheme \<Rightarrow> hs_protocol \<Rightarrow> block \<Rightarrow> qc \<Rightarrow> bool" where
  "safe_node E p b q =
     (case locked_qc (hstate p) of
        Some locked \<Rightarrow> qc_view_num q > qc_view_num locked \<or> parent_hash b = get_block_hash E (qc_block locked)
      | None \<Rightarrow> qc_view_num q > 0 \<or> parent_hash b = '''')"

definition hs_handle_newview ::
    "hs_protocol \<Rightarrow> hs_new_view \<Rightarrow> (hs_protocol \<times> phase_state) option" where
  "hs_handle_newview p nv = do {
     let p1 = p\<lparr>hlog := record_newview (hlog p) (nv_view_num nv) nv\<rparr>;
     let count = get_newviews_count_by_view (hlog p1) (nv_view_num nv);
     twice \<leftarrow> u64_mul 2 (hs_fault_tolerance_count (hstate p1));
     threshold \<leftarrow> u64_add twice 1;
     if count = unat threshold
     then do {
       h \<leftarrow> get_high_qc_by_view (hlog p1) (nv_view_num nv) (prepare_qc (hstate p1));
       Some (p1\<lparr>hstate := (hstate p1)\<lparr>high_qc := h\<rparr>\<rparr>, Over None)
     }
     else Some (p1, ContinueExecute [])
   }"

definition hs_handle_request :: "'a hs_ext_scheme \<Rightarrow> hs_protocol \<Rightarrow> request \<Rightarrow> bytes \<Rightarrow> phase_state" where
  "hs_handle_request E p request current_peer_id =
     (let parent = (case high_qc (hstate p) of Some q \<Rightarrow> get_block_hash E (qc_block q) | None \<Rightarrow> '''');
          prepare = \<lparr>pr_view_num = hs_view (hstate p),
                     pr_block = \<lparr>block_cmd = cmd request, parent_hash = parent\<rparr>,
                     pr_justify = high_qc (hstate p), pr_from_peer_id = current_peer_id\<rparr>
      in ContinueExecute [Broadcast (hs_json E (HsPrepare prepare))])"

text \<open>
  The end of the three voting handlers: sign the hash of the phase, the view and the block
  and send the vote to the primary; without a key pair nothing is sent.
\<close>

definition send_vote :: "'a hs_ext_scheme \<Rightarrow> hs_protocol \<Rightarrow> u8 \<Rightarrow> (vote \<Rightarrow> hs_message_type) \<Rightarrow>
    u64 \<Rightarrow> block \<Rightarrow> bytes \<Rightarrow> (hs_protocol \<times> phase_state) option" where
  "send_vote E p ty vote_msg view_num b current_peer_id =
     (case hs_keypair p of
        Some k \<Rightarrow> do {
          let vt = \<lparr>vt_view_num = view_num, vt_block = b,
                    vt_partial_signature = Some (tbls_sign E k (as_bytes (get_message_hash E ty view_num b))),
                    vt_from_peer_id = current_peer_id\<rparr>;
          leader_id \<leftarrow> peer_from_bytes E (hs_primary (hstate p));
          Some (p, ContinueExecute [Unicast leader_id (hs_json E (vote_msg vt))])
        }
      | None \<Rightarrow> Some (p, ContinueExecute []))"

definition hs_handle_prepare ::
    "'a hs_ext_scheme \<Rightarrow> hs_protocol \<Rightarrow> hs_prepare \<Rightarrow> bytes \<Rightarrow> (hs_protocol \<times> phase_state) option" where
  "hs_handle_prepare E p prepare current_peer_id =
     (let extends = (case pr_justify prepare of
            None \<Rightarrow> parent_hash (pr_block prepare) = ''''
          | Some q \<Rightarrow> get_block_hash E (qc_block q) = parent_hash (pr_block prepare) \<and>
                      safe_node E p (pr_block prepare) q)
      in if \<not> extends then Some (p, ContinueExecute [])
         else send_vote E (p\<lparr>hstate := (hstate p)\<lparr>hs_primary := pr_from_peer_id prepare\<rparr>\<rparr>)
                PREPARE HsPrepareVote (pr_view_num prepare) (pr_block prepare) current_peer_id)"

subsection \<open>Collecting votes\<close>

text \<open>
  The common part of the three vote handlers of the leader: verify the share with the
  voter's public key, file it, and when exactly \<open>2f + 1\<close> shares are filed combine them into
  a certificate of the phase.
\<close>

definition collect_vote :: "'a hs_ext_scheme \<Rightarrow> u8 \<Rightarrow> hs_protocol \<Rightarrow> vote \<Rightarrow> (hs_protocol \<times> qc option) option" where
  "collect_vote E ty p vt = do {
     let msg_hash = get_message_hash E ty (vt_view_num vt) (vt_block vt);
     pk_info \<leftarrow> get_public_key_info_by_peer_id p (vt_from_peer_id vt);
     share \<leftarrow> vt_partial_signature vt;
     if \<not> bls_verify_share E (pki_public_key pk_info) share (as_bytes msg_hash)
     then Some (p, None)
     else do {
       let p1 = p\<lparr>hlog := record_messgae_partial_signature (hlog p) msg_hash (pki_number pk_info) share\<rparr>;
       let partial_sig_count = get_partial_signatures_count_by_message_hash (hlog p1) msg_hash;
       twice \<leftarrow> u64_mul 2 (hs_fault_tolerance_count (hstate p1));
       threshold \<leftarrow> u64_add twice 1;
       if partial_sig_count \<noteq> unat threshold then Some (p1, None)
       else do {
         partial_sigs \<leftarrow> get_partial_signatures_by_message_hash (hlog p1) msg_hash;
         k \<leftarrow> hs_keypair p1;
         signature \<leftarrow> combine_partial_signatures E k (map_of partial_sigs);
         Some (p1, Some (set_signature (qc_new ty (vt_view_num vt) (vt_block vt)) signature))
       }
     }
   }"

definition handle_prepare_vote ::
    "'a hs_ext_scheme \<Rightarrow> hs_protocol \<Rightarrow> vote \<Rightarrow> (hs_protocol \<times> phase_state) option" where
  "handle_prepare_vote E p vt = do {
     (p1, certificate) \<leftarrow> collect_vote E PREPARE p vt;
     (case certificate of
        None \<Rightarrow> Some (p1, ContinueExecute [])
      | Some q \<Rightarrow> Some (p1, ContinueExecute [Broadcast (hs_json E (HsPreCommit
          \<lparr>pc_view_num = vt_view_num vt, pc_justify = Some q\<rparr>))]))
   }"

definition handle_precommit_vote ::
    "'a hs_ext_scheme \<Rightarrow> hs_protocol \<Rightarrow> vote \<Rightarrow> (hs_protocol \<times> phase_state) option" where
  "handle_precommit_vote E p vt = do {
     (p1, certificate) \<leftarrow> collect_vote E PRE_COMMIT p vt;
     (case certificate of
        None \<Rightarrow> Some (p1, ContinueExecute [])
      | Some q \<Rightarrow> Some (p1, ContinueExecute [Broadcast (hs_json E (HsCommit
          \<lparr>cm_view_num = vt_view_num vt, cm_justify = Some q\<rparr>))]))
   }"

definition handle_commit_vote ::
    "'a hs_ext_scheme \<Rightarrow> hs_protocol \<Rightarrow> vote \<Rightarrow> bytes \<Rightarrow> (hs_protocol \<times> phase_state) option" where
  "handle_commit_vote E p vt current_peer_id = do {
     (p1, certificate) \<leftarrow> collect_vote E COMMIT p vt;
     (case certificate of
        None \<Rightarrow> Some (p1, ContinueExecute [])
      | Some q \<Rightarrow> do {
          let queue = [Broadcast (hs_json E (HsDecide \<lparr>dc_view_num = vt_view_num vt, dc_justify = Some q\<rparr>))];
          (p2, messages) \<leftarrow> newview E (hs_view_timeout_stop p1) current_peer_id;
          Some (p2, Complete \<lparr>cmd = block_cmd (qc_block q)\<rparr> (append_continue queue messages))
        })
   }"

subsection \<open>Certificates\<close>

text \<open>
  The common check of the three handlers that receive a certificate: \<open>Some None\<close> is a
  certificate the handler drops.
\<close>

definition checked_justify :: "'a hs_ext_scheme \<Rightarrow> u8 \<Rightarrow> hs_protocol \<Rightarrow> qc option \<Rightarrow> qc option option" where
  "checked_justify E ty p justify =
     (case justify of
        None \<Rightarrow> Some None
      | Some q \<Rightarrow>
          (case qc_signature q of
             None \<Rightarrow> Some None
           | Some signature \<Rightarrow>
               if qc_msg_type q \<noteq> ty \<or> qc_view_num q \<noteq> hs_view (hstate p) then Some None
               else do {
                 k \<leftarrow> hs_keypair p;
                 if \<not> threshold_verify E k signature
                        (as_bytes (get_message_hash E ty (qc_view_num q) (qc_block q)))
                 then Some None else Some (Some q)
               }))"

definition handle_precommit ::
    "'a hs_ext_scheme \<Rightarrow> hs_protocol \<Rightarrow> pre_commit \<Rightarrow> bytes \<Rightarrow> (hs_protocol \<times> phase_state) option" where
  "handle_precommit E p msg current_peer_id = do {
     checked \<leftarrow> checked_justify E PREPARE p (pc_justify msg);
     (case checked of
        None \<Rightarrow> Some (p, ContinueExecute [])
      | Some q \<Rightarrow> send_vote E (p\<lparr>hstate := (hstate p)\<lparr>prepare_qc := Some q\<rparr>\<rparr>)
                   PRE_COMMIT HsPreCommitVote (pc_view_num msg) (qc_block q) current_peer_id)
   }"

definition hs_handle_commit ::
    "'a hs_ext_scheme \<Rightarrow> hs_protocol \<Rightarrow> hs_commit \<Rightarrow> bytes \<Rightarrow> (hs_protocol \<times> phase_state) option" where
  "hs_handle_commit E p msg current_peer_id = do {
     checked \<leftarrow> checked_justify E PRE_COMMIT p (cm_justify msg);
     (case checked of
        None \<Rightarrow> Some (p, ContinueExecute [])
      | Some q \<Rightarrow> send_vote E (p\<lparr>hstate := (hstate p)\<lparr>locked_qc := Some q\<rparr>\<rparr>)
                   COMMIT HsCommitVote (cm_view_num msg) (qc_block q) current_peer_id)
   }"

definition handle_decide ::
    "'a hs_ext_scheme \<Rightarrow> hs_protocol \<Rightarrow> decide \<Rightarrow> bytes \<Rightarrow> (hs_protocol \<times> phase_state) option" where
  "handle_decide E p msg current_peer_id = do {
     checked \<leftarrow> checked_justify E COMMIT p (dc_justify msg);
     (case checked of
        None \<Rightarrow> Some (p, ContinueExecute [])
      | Some q \<Rightarrow> do {
          (p1, messages) \<leftarrow> newview E (hs_view_timeout_stop p) current_peer_id;
          Some (p1, Complete \<lparr>cmd = block_cmd (qc_block q)\<rparr> (append_continue [] messages))
        })
   }"

subsection \<open>The calls of the actuator\<close>

definition init_timeout_notify :: "hs_protocol \<Rightarrow> nat \<Rightarrow> hs_protocol" where
  "init_timeout_notify p h = p\<lparr>view_timeout_notify := h\<rparr>"

text \<open>\<open>nodes\<close> is the set of peers in its iteration order.\<close>

definition hs_extra_initial_start ::
    "'a hs_ext_scheme \<Rightarrow> (nat \<Rightarrow> bytes) \<Rightarrow> string list \<Rightarrow> bytes list \<Rightarrow> hs_protocol \<Rightarrow> peer_id list \<Rightarrow> bytes \<Rightarrow>
     (hs_protocol \<times> phase_state) option" where
  "hs_extra_initial_start E random order pks_order p nodes current_peer_id = do {
     let p1 = p\<lparr>consensus_nodes := foldl (\<lambda>m i. m(peer_to_string E i \<mapsto> i)) Map.empty nodes,
                hstate := (hstate p)\<lparr>current_id := current_peer_id\<rparr>\<rparr>;
     peer \<leftarrow> peer_from_bytes E current_peer_id;
     distribute_keys E random order pks_order (p1\<lparr>hs_peer_id := peer_to_string E peer\<rparr>) peer
   }"

text \<open>A delivered message, with the iteration order of the map a key message decodes to.\<close>

record hs_input =
  hs_in_bytes :: bytes
  hs_in_pks_order :: "bytes list"

fun hs_handle_message_type :: "'a hs_ext_scheme \<Rightarrow> bytes \<Rightarrow> bytes list \<Rightarrow> hs_protocol \<Rightarrow> hs_message_type \<Rightarrow>
    (hs_protocol \<times> phase_state) option" where
  "hs_handle_message_type E me order p (HsRequest msg) =
     (let p1 = p\<lparr>hstate := (hstate p)\<lparr>hs_current_request_state := msg\<rparr>\<rparr>
      in Some (p1, hs_handle_request E p1 msg me))"
| "hs_handle_message_type E me order p (HsNewView msg) = hs_handle_newview p msg"
| "hs_handle_message_type E me order p (HsPrepare msg) = hs_handle_prepare E p msg me"
| "hs_handle_message_type E me order p (HsCommit msg) = hs_handle_commit E p msg me"
| "hs_handle_message_type E me order p (HsPreCommit msg) = handle_precommit E p msg me"
| "hs_handle_message_type E me order p (HsDecide msg) = handle_decide E p msg me"
| "hs_handle_message_type E me order p (HsPrepareVote msg) = handle_prepare_vote E p msg"
| "hs_handle_message_type E me order p (HsCommitVote msg) = handle_commit_vote E p msg me"
| "hs_handle_message_type E me order p (HsPreCommitVote msg) = handle_precommit_vote E p msg"
| "hs_handle_message_type E me order p (HsEnd msg) = Some (p, ContinueExecute [Broadcast []])"
| "hs_handle_message_type E me order p (HsTBLSKey msg) = do {
     _ \<leftarrow> peer_from_bytes E me;
     Some (storage_tbls_key p msg, ContinueExecute [Broadcast []])
   }"
| "hs_handle_message_type E me order p (HsConsensusNodePKsInfo msg) = do {
     info \<leftarrow> from_bincode_pks E msg;
     peer \<leftarrow> peer_from_bytes E me;
     storage_consensus_node_pk E order (p\<lparr>consensus_node_pks := info\<rparr>) info peer
   }"

definition hs_message_handler ::
    "'a hs_ext_scheme \<Rightarrow> bytes \<Rightarrow> hs_protocol \<Rightarrow> hs_input \<Rightarrow> (hs_protocol \<times> phase_state) option" where
  "hs_message_handler E current_peer_id p i = do {
     message \<leftarrow> from_json_hs_message E (hs_in_bytes i);
     hs_handle_message_type E current_peer_id (hs_in_pks_order i) p (hs_msg_type message)
   }"

definition hs_receive_consensus_requests :: "hs_protocol \<Rightarrow> request list \<Rightarrow> hs_protocol option" where
  "hs_receive_consensus_requests p requests = None"

definition hs_get_current_phase :: "'a hs_ext_scheme \<Rightarrow> bytes \<Rightarrow> u8 option" where
  "hs_get_current_phase E msg =
     (if msg = [] then Some 0
      else do {
        data \<leftarrow> from_json_hs_message E msg;
        Some (case hs_msg_type data of
            HsPrepare _ \<Rightarrow> 1 | HsCommit _ \<Rightarrow> 3 | HsPreCommit _ \<Rightarrow> 2
          | HsPrepareVote _ \<Rightarrow> 1 | HsCommitVote _ \<Rightarrow> 3 | HsPreCommitVote _ \<Rightarrow> 2 | _ \<Rightarrow> 0)
      })"

definition hs_protocol_phases ::
    "'a hs_ext_scheme \<Rightarrow> hs_protocol \<Rightarrow> hs_protocol \<times> (u8 \<rightharpoonup> bytes)" where
  "hs_protocol_phases E p =
     (let b = \<lparr>block_cmd = ''test'', parent_hash = ''test''\<rparr>;
          q = \<lparr>qc_msg_type = 1, qc_view_num = 1, qc_block = b, qc_signature = None\<rparr>;
          prepare = as_bytes (json_hs_prepare_str E
            \<lparr>pr_view_num = 1, pr_block = b, pr_justify = Some q, pr_from_peer_id = [1]\<rparr>);
          vt = as_bytes (json_vote_str E
            \<lparr>vt_view_num = 1, vt_block = b, vt_partial_signature = None, vt_from_peer_id = [1]\<rparr>);
          pre_commit = as_bytes (json_pre_commit_str E \<lparr>pc_view_num = 1, pc_justify = Some q\<rparr>);
          commit = as_bytes (json_hs_commit_str E \<lparr>cm_view_num = 1, cm_justify = Some q\<rparr>)
      in (p\<lparr>hs_phase_map := (hs_phase_map p)(1 \<mapsto> ''Prepare'', 2 \<mapsto> ''Vote'', 3 \<mapsto> ''PreCommit'',
              4 \<mapsto> ''Vote'', 5 \<mapsto> ''Commit'', 6 \<mapsto> ''Vote'')\<rparr>,
          [1 \<mapsto> prepare, 2 \<mapsto> vt, 3 \<mapsto> pre_commit, 4 \<mapsto> vt, 5 \<mapsto> commit, 6 \<mapsto> vt]))"

definition hs_is_leader :: "hs_protocol \<Rightarrow> bytes \<Rightarrow> bool" where
  "hs_is_leader p peer_id = (hs_primary (hstate p) = peer_id)"

definition hs_generate_serialized_request_message :: "'a hs_ext_scheme \<Rightarrow> request \<Rightarrow> bytes" where
  "hs_generate_serialized_request_message E request = hs_json E (HsRequest request)"

definition view_timeout_handler ::
    "'a hs_ext_scheme \<Rightarrow> hs_protocol \<Rightarrow> peer_id \<Rightarrow> (hs_protocol \<times> phase_state) option" where
  "view_timeout_handler E p current_peer_id = do {
     doubled \<leftarrow> u64_mul (current_view_timeout (hstate p)) 2;
     newview E (p\<lparr>hstate := (hstate p)\<lparr>current_view_timeout := doubled\<rparr>\<rparr>)
       (peer_to_bytes E current_peer_id)
   }"

definition hs_current_request :: "hs_protocol \<Rightarrow> request" where
  "hs_current_request p = hs_current_request_state (hstate p)"

text \<open>\<open>rnd\<close>, \<open>t\<close> and \<open>s\<close> as in the default object.\<close>

definition protocol_reset :: "string \<Rightarrow> nat \<Rightarrow> nat \<Rightarrow> hs_protocol \<Rightarrow> hs_protocol" where
  "protocol_reset rnd t s p =
     (let p1 = hs_view_timeout_stop p
      in p1\<lparr>hstate := (hstate p1)\<lparr>current_id := [], hs_current_request_state := \<lparr>cmd = ''None''\<rparr>,
              hs_view := 0, hs_primary := [], hs_node_count := 4, hs_fault_tolerance_count := 1,
              high_qc := None, prepare_qc := None, locked_qc := None, commit_qc := None,
              tf := 10, current_view_timeout := 10\<rparr>,
            hs_keypair := None, consensus_nodes := Map.empty, pk_consensus_nodes := [],
            hlog := (hlog p1)\<lparr>message_signatures := Map.empty, newviews := Map.empty\<rparr>,
            consensus_node_pks := Map.empty, hs_peer_id := rnd,
            view_timeout_notify := t, view_timeout_stop_notify := s\<rparr>)"

end
