(* ===== verification/HotStuff_Invariants.thy ===== *)
theory HotStuff_Invariants
  imports HotStuff_Protocol
begin

text \<open>
  What each handler of the HotStuff node can do, the step relation of a node, and the
  invariants of its reachable states: views, locks and the filed signature shares.
\<close>

subsection \<open>Association lists as hash maps\<close>

lemma length_update:
  "length (AList.update k v al) = (if k \<in> fst ` set al then length al else Suc (length al))"
  by (induction al) auto

lemma set_update_distinct:
  "distinct (map fst al) \<Longrightarrow> (n, s) \<in> set (AList.update k v al) \<Longrightarrow>
   (n, s) = (k, v) \<or> (n, s) \<in> set al"
  by (induction al) (auto split: if_splits)

subsection \<open>The signature log\<close>

text \<open>The shares filed under a hash.\<close>

definition shares :: "hs_log \<Rightarrow> string \<Rightarrow> (u64 \<times> bytes) list" where
  "shares log h = (case message_signatures log h of Some sigs \<Rightarrow> sigs | None \<Rightarrow> [])"

lemma shares_record [log_simps]:
  "shares (record_messgae_partial_signature log h n s) h' =
     (if h' = h then AList.update n s (shares log h) else shares log h')"
  by (auto simp: shares_def record_messgae_partial_signature_def split: option.splits)

lemma shares_new [log_simps]: "shares hs_log_new h = []"
  by (simp add: shares_def hs_log_new_def)

lemma count_shares [log_simps]:
  "get_partial_signatures_count_by_message_hash log h = length (shares log h)"
  by (simp add: get_partial_signatures_count_by_message_hash_def shares_def split: option.splits)

lemma get_shares_recorded [log_simps]:
  "get_partial_signatures_by_message_hash (record_messgae_partial_signature log h n s) h =
     Some (AList.update n s (shares log h))"
  by (simp add: get_partial_signatures_by_message_hash_def record_messgae_partial_signature_def
      shares_def split: option.splits)

lemma newviews_record [log_simps]:
  "newviews (record_messgae_partial_signature log h n s) = newviews log"
  "message_signatures (record_newview log v nv) = message_signatures log"
  "shares (record_newview log v nv) h = shares log h"
  by (simp_all add: record_messgae_partial_signature_def record_newview_def shares_def split: option.splits)

interpretation newview_store: bucket_store
  "\<lambda>log (v, nv). record_newview log v nv" "\<lambda>log v. bucket (newviews log) v"
  get_newviews_count_by_view fst snd
  by unfold_locales (auto simp: record_newview_def get_newviews_count_by_view_def)

subsection \<open>What a handler can do\<close>

definition quorum :: "hs_protocol \<Rightarrow> nat" where
  "quorum p = 2 * unat (hs_fault_tolerance_count (hstate p)) + 1"

lemma threshold_quorum:
  assumes "u64_mul 2 (hs_fault_tolerance_count (hstate p)) = Some a" and "u64_add a 1 = Some b"
  shows "unat b = quorum p"
  using u64_mul_unat [OF assms(1)] u64_add_unat [OF assms(2)] by (simp add: quorum_def)

text \<open>The state after entering a view, with its leader and its timer.\<close>

definition entered :: "hs_protocol \<Rightarrow> u64 \<Rightarrow> bytes \<Rightarrow> hs_protocol" where
  "entered p v leader = hs_view_timeout_start
     (p\<lparr>hstate := (hstate p)\<lparr>hs_primary := leader, hs_view := v\<rparr>\<rparr>) v"

definition newview_message :: "'a hs_ext_scheme \<Rightarrow> hs_protocol \<Rightarrow> bytes \<Rightarrow> bytes" where
  "newview_message E p me = hs_json E (HsNewView
     \<lparr>nv_view_num = hs_view (hstate p), nv_justify = prepare_qc (hstate p), nv_from_peer_id = me\<rparr>)"

definition leader_of :: "hs_protocol \<Rightarrow> u64 \<Rightarrow> bytes option" where
  "leader_of p v = (if (of_nat (length (pk_consensus_nodes p)) :: u64) = 0
     then None else map_of (pk_consensus_nodes p) (v mod of_nat (length (pk_consensus_nodes p))))"

lemma change_leader_leader_of:
  "change_leader p v =
     map_option (\<lambda>leader. p\<lparr>hstate := (hstate p)\<lparr>hs_primary := leader\<rparr>\<rparr>) (leader_of p v)"
  by (auto simp: change_leader_def leader_of_def u64_rem_def map_option_case split: option.splits)

lemma newview_cases:
  assumes "newview E p me = Some (p', ps)"
  obtains v leader peer where "u64_add (hs_view (hstate p)) 1 = Some v" "leader_of p v = Some leader"
    "peer_from_bytes E leader = Some peer" "p' = entered p v leader"
    "ps = ContinueExecute (if leader = me then [] else [Unicast peer (newview_message E p me)])"
proof -
  from assms obtain v leader where v: "u64_add (hs_view (hstate p)) 1 = Some v"
    and l: "leader_of p v = Some leader"
    by (auto simp: newview_def change_leader_leader_of bind_eq_Some_conv)
  with assms obtain peer where peer: "peer_from_bytes E leader = Some peer"
    by (auto simp: newview_def change_leader_leader_of bind_eq_Some_conv Let_def split: if_splits)
  from assms v l peer have "p' = entered p v leader \<and>
      ps = ContinueExecute (if leader = me then [] else [Unicast peer (newview_message E p me)])"
    by (auto simp: newview_def change_leader_leader_of entered_def newview_message_def Let_def
        split: if_splits)
  with that v l peer show thesis by blast
qed

lemma newview_returns:
  assumes "u64_add (hs_view (hstate p)) 1 = Some v" and "leader_of p v = Some leader"
    and "peer_from_bytes E leader = Some peer"
  shows "newview E p me = Some (entered p v leader,
    ContinueExecute (if leader = me then [] else [Unicast peer (newview_message E p me)]))"
  using assms
  by (simp add: newview_def change_leader_leader_of entered_def newview_message_def Let_def)

lemma entered_fields [simp]:
  "hs_view (hstate (entered p v l)) = v" "hs_primary (hstate (entered p v l)) = l"
  "prepare_qc (hstate (entered p v l)) = prepare_qc (hstate p)"
  "locked_qc (hstate (entered p v l)) = locked_qc (hstate p)"
  "high_qc (hstate (entered p v l)) = high_qc (hstate p)"
  "commit_qc (hstate (entered p v l)) = commit_qc (hstate p)"
  "tf (hstate (entered p v l)) = tf (hstate p)"
  "current_view_timeout (hstate (entered p v l)) = current_view_timeout (hstate p)"
  "hs_fault_tolerance_count (hstate (entered p v l)) = hs_fault_tolerance_count (hstate p)"
  "hlog (entered p v l) = hlog p" "hs_keypair (entered p v l) = hs_keypair p"
  "consensus_node_pks (entered p v l) = consensus_node_pks p"
  "pk_consensus_nodes (entered p v l) = pk_consensus_nodes p"
  "timer_events (entered p v l) = timer_events p @
     [TimerSpawn (view_timeout_notify p) (view_timeout_stop_notify p) (current_view_timeout (hstate p)) v]"
  by (simp_all add: entered_def hs_view_timeout_start_def)

lemma stop_fields [simp]:
  "hs_view (hstate (hs_view_timeout_stop p)) = hs_view (hstate p)"
  "prepare_qc (hstate (hs_view_timeout_stop p)) = prepare_qc (hstate p)"
  "locked_qc (hstate (hs_view_timeout_stop p)) = locked_qc (hstate p)"
  "commit_qc (hstate (hs_view_timeout_stop p)) = commit_qc (hstate p)"
  "tf (hstate (hs_view_timeout_stop p)) = tf (hstate p)"
  "current_view_timeout (hstate (hs_view_timeout_stop p)) = tf (hstate p)"
  "hs_fault_tolerance_count (hstate (hs_view_timeout_stop p)) = hs_fault_tolerance_count (hstate p)"
  "hlog (hs_view_timeout_stop p) = hlog p" "hs_keypair (hs_view_timeout_stop p) = hs_keypair p"
  "consensus_node_pks (hs_view_timeout_stop p) = consensus_node_pks p"
  "pk_consensus_nodes (hs_view_timeout_stop p) = pk_consensus_nodes p"
  "view_timeout_notify (hs_view_timeout_stop p) = view_timeout_notify p"
  "view_timeout_stop_notify (hs_view_timeout_stop p) = view_timeout_stop_notify p"
  "timer_events (hs_view_timeout_stop p) = timer_events p @ [NotifyOne (view_timeout_stop_notify p)]"
  "leader_of (hs_view_timeout_stop p) v = leader_of p v"
  by (simp_all add: hs_view_timeout_stop_def leader_of_def)

definition my_vote :: "'a hs_ext_scheme \<Rightarrow> tbls_key \<Rightarrow> u8 \<Rightarrow> u64 \<Rightarrow> block \<Rightarrow> bytes \<Rightarrow> vote" where
  "my_vote E k ty v b me = \<lparr>vt_view_num = v, vt_block = b,
     vt_partial_signature = Some (tbls_sign E k (as_bytes (get_message_hash E ty v b))),
     vt_from_peer_id = me\<rparr>"

lemma send_vote_cases:
  assumes "send_vote E p ty c v b me = Some (p', ps)"
  shows "p' = p \<and> (ps = ContinueExecute [] \<and> hs_keypair p = None \<or>
    (\<exists>k leader. hs_keypair p = Some k \<and> peer_from_bytes E (hs_primary (hstate p)) = Some leader \<and>
       ps = ContinueExecute [Unicast leader (hs_json E (c (my_vote E k ty v b me)))]))"
  using assms by (auto simp: send_vote_def my_vote_def bind_eq_Some_conv Let_def split: option.splits)

text \<open>The certificate of a vote and what it takes to form it.\<close>

definition certificate :: "u8 \<Rightarrow> vote \<Rightarrow> bytes \<Rightarrow> qc" where
  "certificate ty vt s = \<lparr>qc_msg_type = ty, qc_view_num = vt_view_num vt, qc_block = vt_block vt,
     qc_signature = Some s\<rparr>"

definition vote_hash :: "'a hs_ext_scheme \<Rightarrow> u8 \<Rightarrow> vote \<Rightarrow> string" where
  "vote_hash E ty vt = get_message_hash E ty (vt_view_num vt) (vt_block vt)"

lemma collect_vote_cases:
  assumes "collect_vote E ty p vt = Some (p', c)"
  obtains (dropped) "p' = p" "c = None"
  | (filed) info share where "consensus_node_pks p (vt_from_peer_id vt) = Some info"
      "vt_partial_signature vt = Some share"
      "bls_verify_share E (pki_public_key info) share (as_bytes (vote_hash E ty vt))"
      "p' = p\<lparr>hlog := record_messgae_partial_signature (hlog p) (vote_hash E ty vt) (pki_number info) share\<rparr>"
      "c = None" "length (shares (hlog p') (vote_hash E ty vt)) \<noteq> quorum p"
  | (formed) info share k s where "consensus_node_pks p (vt_from_peer_id vt) = Some info"
      "vt_partial_signature vt = Some share"
      "bls_verify_share E (pki_public_key info) share (as_bytes (vote_hash E ty vt))"
      "p' = p\<lparr>hlog := record_messgae_partial_signature (hlog p) (vote_hash E ty vt) (pki_number info) share\<rparr>"
      "length (shares (hlog p') (vote_hash E ty vt)) = quorum p"
      "hs_keypair p = Some k"
      "combine_partial_signatures E k (map_of (shares (hlog p') (vote_hash E ty vt))) = Some s"
      "c = Some (certificate ty vt s)"
proof -
  from assms obtain info share where i: "consensus_node_pks p (vt_from_peer_id vt) = Some info"
      "vt_partial_signature vt = Some share"
    by (auto simp: collect_vote_def get_public_key_info_by_peer_id_def bind_eq_Some_conv Let_def)
  show thesis
  proof (cases "bls_verify_share E (pki_public_key info) share (as_bytes (vote_hash E ty vt))")
    case False
    with assms i have "p' = p" "c = None"
      by (simp_all add: collect_vote_def get_public_key_info_by_peer_id_def vote_hash_def Let_def)
    then show thesis by (rule dropped)
  next
    case True
    let ?p1 = "p\<lparr>hlog := record_messgae_partial_signature (hlog p) (vote_hash E ty vt) (pki_number info) share\<rparr>"
    from assms i True obtain a b where ab: "u64_mul 2 (hs_fault_tolerance_count (hstate p)) = Some a"
        "u64_add a 1 = Some b"
      by (auto simp: collect_vote_def get_public_key_info_by_peer_id_def vote_hash_def Let_def bind_eq_Some_conv)
    note q = threshold_quorum [OF ab]
    show thesis
    proof (cases "length (shares (hlog ?p1) (vote_hash E ty vt)) = quorum p")
      case False
      with assms i True ab q have "p' = ?p1" "c = None"
        by (simp_all add: collect_vote_def get_public_key_info_by_peer_id_def vote_hash_def Let_def
            count_shares)
      with False i True show thesis by (intro filed) simp_all
    next
      case eq: True
      with assms i True ab q obtain k s where "p' = ?p1" "hs_keypair p = Some k"
          "combine_partial_signatures E k (map_of (shares (hlog ?p1) (vote_hash E ty vt))) = Some s"
          "c = Some (certificate ty vt s)"
        by (auto simp: collect_vote_def get_public_key_info_by_peer_id_def vote_hash_def Let_def
            count_shares get_shares_recorded bind_eq_Some_conv shares_record certificate_def
            set_signature_def qc_new_def)
      with eq i True show thesis by (intro formed) simp_all
    qed
  qed
qed

lemma collect_vote_frame:
  assumes "collect_vote E ty p vt = Some (p', c)"
  shows "hstate p' = hstate p \<and> hs_keypair p' = hs_keypair p \<and>
    consensus_node_pks p' = consensus_node_pks p \<and> pk_consensus_nodes p' = pk_consensus_nodes p \<and>
    newviews (hlog p') = newviews (hlog p)"
  using assms by (cases rule: collect_vote_cases) (simp_all add: log_simps)

lemma checked_justify_cases:
  assumes "checked_justify E ty p j = Some (Some q)"
  shows "j = Some q \<and> qc_msg_type q = ty \<and> qc_view_num q = hs_view (hstate p) \<and>
    (\<exists>s k. qc_signature q = Some s \<and> hs_keypair p = Some k \<and>
       threshold_verify E k s (as_bytes (get_message_hash E ty (qc_view_num q) (qc_block q))))"
  using assms by (auto simp: checked_justify_def bind_eq_Some_conv split: option.splits if_splits)

lemma checked_justify_accepts:
  assumes "qc_msg_type q = ty" "qc_view_num q = hs_view (hstate p)" "qc_signature q = Some s"
    and "hs_keypair p = Some k"
    and "threshold_verify E k s (as_bytes (get_message_hash E ty (qc_view_num q) (qc_block q)))"
  shows "checked_justify E ty p (Some q) = Some (Some q)"
  using assms by (simp add: checked_justify_def)

subsection \<open>How a call changes views and certificates\<close>

text \<open>
  A call never lowers the view; it keeps the prepare certificate and the lock or replaces
  them by a signed certificate of the right phase and of the view the node was in; the
  fault bound, the base timeout and the unused \<open>commit_qc\<close> stay.
\<close>

definition fresh_qc :: "u8 \<Rightarrow> hs_protocol \<Rightarrow> qc option \<Rightarrow> bool" where
  "fresh_qc ty p c \<longleftrightarrow>
     (\<exists>q. c = Some q \<and> qc_msg_type q = ty \<and> qc_view_num q = hs_view (hstate p) \<and> qc_signature q \<noteq> None)"

definition advance :: "hs_protocol \<Rightarrow> hs_protocol \<Rightarrow> bool" where
  "advance p p' \<longleftrightarrow>
     hs_view (hstate p) \<le> hs_view (hstate p') \<and>
     (prepare_qc (hstate p') = prepare_qc (hstate p) \<or> fresh_qc PREPARE p (prepare_qc (hstate p'))) \<and>
     (locked_qc (hstate p') = locked_qc (hstate p) \<or> fresh_qc PRE_COMMIT p (locked_qc (hstate p'))) \<and>
     commit_qc (hstate p') = commit_qc (hstate p) \<and> tf (hstate p') = tf (hstate p) \<and>
     hs_fault_tolerance_count (hstate p') = hs_fault_tolerance_count (hstate p)"

lemma u64_add_le: "u64_add a b = Some c \<Longrightarrow> a \<le> c"
  by (drule u64_add_unat) (simp add: word_le_nat_alt)

lemma advance_same_state: "hstate p' = hstate p \<Longrightarrow> advance p p'"
  by (simp add: advance_def)

lemma advance_from:
  "advance p1 p' \<Longrightarrow> hs_view (hstate p1) = hs_view (hstate p) \<Longrightarrow>
   prepare_qc (hstate p1) = prepare_qc (hstate p) \<Longrightarrow> locked_qc (hstate p1) = locked_qc (hstate p) \<Longrightarrow>
   commit_qc (hstate p1) = commit_qc (hstate p) \<Longrightarrow> tf (hstate p1) = tf (hstate p) \<Longrightarrow>
   hs_fault_tolerance_count (hstate p1) = hs_fault_tolerance_count (hstate p) \<Longrightarrow> advance p p'"
  by (simp add: advance_def fresh_qc_def)

lemma newview_advance: "newview E p me = Some (p', ps) \<Longrightarrow> advance p p'"
  by (erule newview_cases) (simp add: advance_def u64_add_le)

lemma send_vote_same: "send_vote E p ty c v b me = Some (p', ps) \<Longrightarrow> p' = p"
  using send_vote_cases by blast

lemma storage_consensus_node_pk_advance:
  assumes "storage_consensus_node_pk E order p pks me = Some (p', ps)"
  shows "advance p p'"
proof -
  from assms obtain nodes where
    "newview E (p\<lparr>pk_consensus_nodes := nodes\<rparr>) (peer_to_bytes E me) = Some (p', ps)"
    by (auto simp: storage_consensus_node_pk_def bind_eq_Some_conv)
  from newview_advance [OF this] show ?thesis by (rule advance_from) simp_all
qed

lemma distribute_keys_loop_frame:
  "distribute_keys_loop E ks p q pks = Some (p', q', pks') \<Longrightarrow>
   hstate p' = hstate p \<and> hlog p' = hlog p \<and> pk_consensus_nodes p' = pk_consensus_nodes p \<and>
   hs_peer_id p' = hs_peer_id p"
proof (induction ks arbitrary: p q pks)
  case Nil
  then show ?case by simp
next
  case (Cons k ks)
  then show ?case
    by (auto simp: bind_eq_Some_conv Let_def storage_tbls_key_def split: if_splits)
qed

lemma distribute_keys_advance:
  assumes "distribute_keys E random order pks_order p me = Some (p', ps)"
  shows "advance p p'"
proof -
  from assms obtain ks p1 queue pks data where
    loop: "distribute_keys_loop E ks p [] Map.empty = Some (p1, queue, pks)"
    and st: "storage_consensus_node_pk E pks_order (p1\<lparr>consensus_node_pks := pks\<rparr>) pks me = Some (p', data)"
    by (auto simp: distribute_keys_def bind_eq_Some_conv Let_def)
  from storage_consensus_node_pk_advance [OF st] distribute_keys_loop_frame [OF loop]
  show ?thesis by (auto intro: advance_from)
qed

lemma view_timeout_handler_advance:
  assumes "view_timeout_handler E p me = Some (p', ps)"
  shows "advance p p'"
proof -
  from assms obtain d where
    "newview E (p\<lparr>hstate := (hstate p)\<lparr>current_view_timeout := d\<rparr>\<rparr>) (peer_to_bytes E me) = Some (p', ps)"
    by (auto simp: view_timeout_handler_def bind_eq_Some_conv)
  from newview_advance [OF this] show ?thesis by (rule advance_from) simp_all
qed

lemma hs_extra_initial_start_advance:
  assumes "hs_extra_initial_start E random order pks_order p nodes me = Some (p', ps)"
  shows "advance p p'"
proof -
  from assms obtain p1 peer where "distribute_keys E random order pks_order p1 peer = Some (p', ps)"
    and "hstate p1 = (hstate p)\<lparr>current_id := me\<rparr>"
    by (auto simp: hs_extra_initial_start_def bind_eq_Some_conv Let_def)
  then show ?thesis by (auto intro: advance_from [OF distribute_keys_advance])
qed

lemma newview_after_stop_advance:
  assumes "newview E (hs_view_timeout_stop p) me = Some (p', ps)"
  shows "advance p p'"
  using newview_advance [OF assms] by (rule advance_from) simp_all

lemma collect_then_newview_advance:
  assumes "collect_vote E ty p vt = Some (p1, c)" and "newview E (hs_view_timeout_stop p1) me = Some (p', ps)"
  shows "advance p p'"
  using newview_after_stop_advance [OF assms(2)] collect_vote_frame [OF assms(1)]
  by (auto intro: advance_from)

lemma checked_justify_fresh: "checked_justify E ty p j = Some (Some q) \<Longrightarrow> fresh_qc ty p (Some q)"
  using checked_justify_cases by (fastforce simp: fresh_qc_def)

lemma hs_handle_message_type_advance:
  assumes "hs_handle_message_type E me order p m = Some (p', ps)"
  shows "advance p p'"
proof (cases m)
  case (HsPrepare x)
  with assms show ?thesis
    by (auto simp: hs_handle_prepare_def Let_def advance_def dest!: send_vote_same split: if_splits)
next
  case (HsCommit x)
  with assms show ?thesis
    by (auto simp: hs_handle_commit_def bind_eq_Some_conv advance_def
        dest!: send_vote_same checked_justify_fresh split: option.splits)
next
  case (HsPreCommit x)
  with assms show ?thesis
    by (auto simp: handle_precommit_def bind_eq_Some_conv advance_def
        dest!: send_vote_same checked_justify_fresh split: option.splits)
next
  case (HsDecide x)
  with assms show ?thesis
    by (auto simp: handle_decide_def bind_eq_Some_conv
        intro: newview_after_stop_advance advance_same_state split: option.splits)
next
  case (HsCommitVote x)
  with assms show ?thesis
    by (auto simp: handle_commit_vote_def bind_eq_Some_conv Let_def
        intro: collect_then_newview_advance advance_same_state dest: collect_vote_frame split: option.splits)
next
  case (HsPrepareVote x)
  with assms show ?thesis
    by (auto simp: handle_prepare_vote_def bind_eq_Some_conv
        intro!: advance_same_state dest: collect_vote_frame split: option.splits)
next
  case (HsPreCommitVote x)
  with assms show ?thesis
    by (auto simp: handle_precommit_vote_def bind_eq_Some_conv
        intro!: advance_same_state dest: collect_vote_frame split: option.splits)
next
  case (HsConsensusNodePKsInfo x)
  with assms show ?thesis
    by (auto simp: bind_eq_Some_conv intro: advance_from [OF storage_consensus_node_pk_advance])
next
  case (HsNewView x)
  with assms show ?thesis
    by (auto simp: hs_handle_newview_def bind_eq_Some_conv Let_def advance_def split: if_splits)
qed (use assms in \<open>auto simp: Let_def advance_def bind_eq_Some_conv storage_tbls_key_def\<close>)

subsection \<open>Steps and reachable states of a node\<close>

text \<open>
  Between two resets the actuator delivers messages, starts the node, reports timeouts,
  asks for the phases and hands over a notification handle, in any order.
\<close>

inductive hs_step :: "'a hs_ext_scheme \<Rightarrow> bytes \<Rightarrow> hs_protocol \<Rightarrow> hs_protocol \<Rightarrow> bool" for E me where
  hs_deliver: "hs_message_handler E me p i = Some (p', ps) \<Longrightarrow> hs_step E me p p'"
| hs_start: "hs_extra_initial_start E random order pks_order p nodes me = Some (p', ps) \<Longrightarrow> hs_step E me p p'"
| hs_timeout: "view_timeout_handler E p peer = Some (p', ps) \<Longrightarrow> hs_step E me p p'"
| hs_phases: "hs_step E me p (fst (hs_protocol_phases E p))"
| hs_notify: "hs_step E me p (init_timeout_notify p h)"

inductive hs_reachable :: "'a hs_ext_scheme \<Rightarrow> bytes \<Rightarrow> hs_protocol \<Rightarrow> bool" for E me where
  hs_init: "hs_reachable E me (hs_default rnd t s)"
| hs_next: "hs_reachable E me p \<Longrightarrow> hs_step E me p p' \<Longrightarrow> hs_reachable E me p'"
| hs_reset: "hs_reachable E me p \<Longrightarrow> hs_reachable E me (protocol_reset rnd t s p)"

inductive_cases hs_stepE: "hs_step E me p p'"

lemma hs_step_advance: "hs_step E me p p' \<Longrightarrow> advance p p'"
proof (induction rule: hs_step.induct)
  case (hs_deliver p i p' ps)
  then show ?case
    by (auto simp: hs_message_handler_def bind_eq_Some_conv intro: hs_handle_message_type_advance)
next
  case (hs_start random order pks_order p nodes p' ps)
  then show ?case by (rule hs_extra_initial_start_advance)
next
  case (hs_timeout p peer p' ps)
  then show ?case by (rule view_timeout_handler_advance)
qed (simp_all add: advance_def hs_protocol_phases_def init_timeout_notify_def Let_def)

text \<open>The certificates a node holds are signed, of the right phase and not of a later view.\<close>

definition held_qc :: "u8 \<Rightarrow> hs_protocol \<Rightarrow> qc option \<Rightarrow> bool" where
  "held_qc ty p c \<longleftrightarrow> (\<forall>q. c = Some q \<longrightarrow>
     qc_msg_type q = ty \<and> qc_view_num q \<le> hs_view (hstate p) \<and> qc_signature q \<noteq> None)"

definition qc_inv :: "hs_protocol \<Rightarrow> bool" where
  "qc_inv p \<longleftrightarrow> held_qc PREPARE p (prepare_qc (hstate p)) \<and> held_qc PRE_COMMIT p (locked_qc (hstate p)) \<and>
     commit_qc (hstate p) = None \<and> tf (hstate p) = 10 \<and> hs_fault_tolerance_count (hstate p) = 1"

lemma fresh_held: "fresh_qc ty p c \<Longrightarrow> hs_view (hstate p) \<le> hs_view (hstate p') \<Longrightarrow> held_qc ty p' c"
  by (auto simp: fresh_qc_def held_qc_def)

lemma held_later: "held_qc ty p c \<Longrightarrow> hs_view (hstate p) \<le> hs_view (hstate p') \<Longrightarrow> held_qc ty p' c"
  by (auto simp: held_qc_def intro: order_trans)

lemma qc_inv_advance: "qc_inv p \<Longrightarrow> advance p p' \<Longrightarrow> qc_inv p'"
  unfolding qc_inv_def advance_def by (metis fresh_held held_later)

lemma qc_inv_new: "qc_inv (hs_default rnd t s)" "qc_inv (protocol_reset rnd t s p)"
  by (simp_all add: qc_inv_def held_qc_def hs_default_def hs_state_new_def protocol_reset_def Let_def)

lemma reachable_qc_inv: "hs_reachable E me p \<Longrightarrow> qc_inv p"
  by (induction rule: hs_reachable.induct) (auto intro: qc_inv_new qc_inv_advance hs_step_advance)

interpretation certificates: invariant_handler "hs_message_handler E me" qc_inv for E me
  by unfold_locales
    (auto simp: hs_message_handler_def bind_eq_Some_conv intro: qc_inv_advance hs_handle_message_type_advance)

text \<open>The view a certificate locks, zero for none.\<close>

definition qc_view :: "qc option \<Rightarrow> u64" where
  "qc_view c = (case c of Some q \<Rightarrow> qc_view_num q | None \<Rightarrow> 0)"

lemma advance_locks:
  assumes "qc_inv p" and "advance p p'"
  shows "qc_view (locked_qc (hstate p)) \<le> qc_view (locked_qc (hstate p')) \<and>
    qc_view (prepare_qc (hstate p)) \<le> qc_view (prepare_qc (hstate p'))"
proof -
  have le: "qc_view c \<le> hs_view (hstate p)" if "held_qc ty p c" for ty c
    using that by (auto simp: held_qc_def qc_view_def split: option.splits)
  have "qc_view c \<le> qc_view c'" if "held_qc ty p c" "c' = c \<or> fresh_qc ty p c'" for ty c c'
  proof (cases "c' = c")
    case False
    with that(2) have "qc_view c' = hs_view (hstate p)" by (auto simp: fresh_qc_def qc_view_def)
    with le [OF that(1)] show ?thesis by simp
  qed simp
  with assms show ?thesis by (auto simp: qc_inv_def advance_def)
qed

subsection \<open>Key epochs and filed shares\<close>

text \<open>
  A key epoch: the node starts with no filed share and the table of public keys is not
  replaced. Every share in its log then verifies under the registered key of its number.
\<close>

fun key_message :: "hs_message_type \<Rightarrow> bool" where
  "key_message (HsConsensusNodePKsInfo m) = True"
| "key_message m = False"

inductive hs_epoch :: "'a hs_ext_scheme \<Rightarrow> bytes \<Rightarrow> hs_protocol \<Rightarrow> bool" for E me where
  epoch_begin: "message_signatures (hlog p) = Map.empty \<Longrightarrow> hs_epoch E me p"
| epoch_deliver: "hs_epoch E me p \<Longrightarrow> hs_handle_message_type E me order p m = Some (p', ps) \<Longrightarrow>
    \<not> key_message m \<Longrightarrow> hs_epoch E me p'"
| epoch_timeout: "hs_epoch E me p \<Longrightarrow> view_timeout_handler E p peer = Some (p', ps) \<Longrightarrow> hs_epoch E me p'"

definition share_valid :: "'a hs_ext_scheme \<Rightarrow> hs_protocol \<Rightarrow> string \<Rightarrow> u64 \<times> bytes \<Rightarrow> bool" where
  "share_valid E p h ns \<longleftrightarrow> (\<exists>peer info. consensus_node_pks p peer = Some info \<and>
     pki_number info = fst ns \<and> bls_verify_share E (pki_public_key info) (snd ns) (as_bytes h))"

definition share_inv :: "'a hs_ext_scheme \<Rightarrow> hs_protocol \<Rightarrow> bool" where
  "share_inv E p \<longleftrightarrow> (\<forall>h. distinct (map fst (shares (hlog p) h)) \<and>
     (\<forall>ns \<in> set (shares (hlog p) h). share_valid E p h ns))"

lemma share_inv_same:
  "share_inv E p \<Longrightarrow> (\<And>h. shares (hlog p') h = shares (hlog p) h) \<Longrightarrow>
   consensus_node_pks p' = consensus_node_pks p \<Longrightarrow> share_inv E p'"
  by (simp add: share_inv_def share_valid_def)

lemma share_inv_hstate [simp]: "share_inv E (p\<lparr>hstate := x\<rparr>) = share_inv E p"
  by (simp add: share_inv_def share_valid_def)

lemma share_inv_record:
  assumes inv: "share_inv E p" and v: "share_valid E p h (n, s)"
  shows "share_inv E (p\<lparr>hlog := record_messgae_partial_signature (hlog p) h n s\<rparr>)"
proof -
  have "share_valid E p h ns" if "ns \<in> set (AList.update n s (shares (hlog p) h))" for ns
    using that inv v set_update_distinct [of "shares (hlog p) h" "fst ns" "snd ns" n s]
    by (auto simp: share_inv_def)
  with inv show ?thesis
    by (auto simp: share_inv_def share_valid_def shares_record distinct_update)
qed

lemma collect_vote_share_inv:
  assumes "share_inv E p" and "collect_vote E ty p vt = Some (p', c)"
  shows "share_inv E p'"
  using assms(2)
proof (cases rule: collect_vote_cases)
  case dropped
  with assms(1) show ?thesis by simp
next
  case (filed info share)
  then have "share_valid E p (vote_hash E ty vt) (pki_number info, share)"
    by (auto simp: share_valid_def)
  from share_inv_record [OF assms(1) this] filed(4) show ?thesis by simp
next
  case (formed info share k s)
  then have "share_valid E p (vote_hash E ty vt) (pki_number info, share)"
    by (auto simp: share_valid_def)
  from share_inv_record [OF assms(1) this] formed(4) show ?thesis by simp
qed

lemma newview_share_inv:
  assumes "share_inv E p1" and "newview E p me = Some (p', ps)" and "hlog p = hlog p1"
    and "consensus_node_pks p = consensus_node_pks p1"
  shows "share_inv E p'"
  using assms(2)
  by (rule newview_cases) (use assms in \<open>auto intro: share_inv_same\<close>)

lemma newview_after_stop_share_inv:
  "share_inv E p \<Longrightarrow> newview E (hs_view_timeout_stop p) me = Some (p', ps) \<Longrightarrow> share_inv E p'"
  by (rule newview_share_inv [where ?p1.0 = p and p = "hs_view_timeout_stop p"]) simp_all

lemma handler_share_inv:
  assumes inv: "share_inv E p" and h: "hs_handle_message_type E me order p m = Some (p', ps)"
    and "\<not> key_message m"
  shows "share_inv E p'"
proof (cases m)
  case (HsPrepare x)
  with inv h show ?thesis
    by (auto simp: hs_handle_prepare_def Let_def dest!: send_vote_same
        intro: share_inv_same [OF inv] split: if_splits)
next
  case (HsCommit x)
  with inv h show ?thesis
    by (auto simp: hs_handle_commit_def bind_eq_Some_conv dest!: send_vote_same
        intro: share_inv_same [OF inv] split: option.splits)
next
  case (HsPreCommit x)
  with inv h show ?thesis
    by (auto simp: handle_precommit_def bind_eq_Some_conv dest!: send_vote_same
        intro: share_inv_same [OF inv] split: option.splits)
next
  case (HsDecide x)
  with inv h show ?thesis
    by (auto simp: handle_decide_def bind_eq_Some_conv dest: newview_after_stop_share_inv [OF inv] split: option.splits)
next
  case (HsCommitVote x)
  then obtain p1 c where c: "collect_vote E COMMIT p x = Some (p1, c)"
    using h by (auto simp: handle_commit_vote_def bind_eq_Some_conv)
  note inv1 = collect_vote_share_inv [OF inv c]
  from HsCommitVote h c inv1 show ?thesis
    by (auto simp: handle_commit_vote_def bind_eq_Some_conv Let_def
        dest: newview_after_stop_share_inv [OF inv1] split: option.splits)
next
  case (HsPrepareVote x)
  with inv h show ?thesis
    by (auto simp: handle_prepare_vote_def bind_eq_Some_conv
        dest: collect_vote_share_inv [OF inv] split: option.splits)
next
  case (HsPreCommitVote x)
  with inv h show ?thesis
    by (auto simp: handle_precommit_vote_def bind_eq_Some_conv
        dest: collect_vote_share_inv [OF inv] split: option.splits)
next
  case (HsNewView x)
  with inv h show ?thesis
    by (auto simp: hs_handle_newview_def bind_eq_Some_conv Let_def log_simps
        intro: share_inv_same [OF inv] split: if_splits)
qed (use assms in \<open>auto simp: Let_def bind_eq_Some_conv storage_tbls_key_def intro: share_inv_same [OF inv]\<close>)

lemma epoch_share_inv: "hs_epoch E me p \<Longrightarrow> share_inv E p"
proof (induction rule: hs_epoch.induct)
  case (epoch_begin p)
  then show ?case by (simp add: share_inv_def shares_def)
next
  case (epoch_deliver p order m p' ps)
  then show ?case by (auto intro: handler_share_inv)
next
  case (epoch_timeout p peer p' ps)
  then show ?case
    by (auto simp: view_timeout_handler_def bind_eq_Some_conv dest!: newview_share_inv [OF epoch_timeout.IH])
qed

end
