(* ===== verification/HotStuff_Properties.thy ===== *)
theory HotStuff_Properties
  imports HotStuff_Invariants
begin

text \<open>
  The properties of the basic HotStuff node: how certificates are formed and accepted, what
  a node votes for, how views, locks, leaders and timeouts evolve. Each is applied at a
  concrete node of the instance defined first.
\<close>

subsection \<open>A concrete instance\<close>

text \<open>
  Peer and key number \<open>n\<close> are the byte \<open>n\<close>; a share is the key followed by the message, and
  the combined signature of a key set is the key set.
\<close>

definition hs_chars :: "bytes \<Rightarrow> string" where
  "hs_chars b = map (\<lambda>w. char_of (unat w)) b"

definition hs_demo_block :: block where
  "hs_demo_block = \<lparr>block_cmd = ''x'', parent_hash = ''''\<rparr>"

definition hs_demo_pks :: "bytes \<rightharpoonup> consensus_node_pk_info" where
  "hs_demo_pks = (\<lambda>b. if b \<in> {[0], [1], [2], [3]}
     then Some \<lparr>pki_number = ucast (hd b), pki_public_key = b\<rparr> else None)"

definition hs_demo :: hs_ext where
  "hs_demo = \<lparr>sha3_256_hex = hs_chars, bincode_request = (\<lambda>r. as_bytes (cmd r)),
     json_request = (\<lambda>r. as_bytes (cmd r)), from_json_request = (\<lambda>b. None),
     peer_from_bytes = Some, peer_to_bytes = (\<lambda>p. p), peer_to_string = hs_chars,
     dalek_public = (\<lambda>kp. kp), dalek_sign = (\<lambda>kp m. kp @ m),
     dalek_public_key_ok = (\<lambda>_. True), dalek_signature_ok = (\<lambda>_. True),
     dalek_verify = (\<lambda>k m s. s = k @ m),
     json_hs_message = (\<lambda>m. case hs_msg_type m of HsTBLSKey k \<Rightarrow> [1] | _ \<Rightarrow> [0]),
     from_json_hs_message = (\<lambda>b. if b = [1] then Some \<lparr>hs_msg_type = HsEnd ''''\<rparr> else None),
     json_hs_prepare_str = (\<lambda>_. ''''), json_vote_str = (\<lambda>_. ''''), json_pre_commit_str = (\<lambda>_. ''''),
     json_hs_commit_str = (\<lambda>_. ''''), bincode_block = (\<lambda>b. as_bytes (block_cmd b)),
     bincode_pks = (\<lambda>_. [7]), from_bincode_pks = (\<lambda>_. Some hs_demo_pks), peer_from_str = (\<lambda>s. Some []),
     bls_sign = (\<lambda>k m. k @ m), bls_verify_share = (\<lambda>k s m. s = k @ m), bls_verify = (\<lambda>k s m. s = k),
     bls_combine = (\<lambda>pks sh. Some pks), bls_secret_share = (\<lambda>k i. [of_nat i]),
     bls_public_keys = (\<lambda>k. k), bls_public_share = (\<lambda>pks i. [of_nat i]), bls_public_key = (\<lambda>pks. pks)\<rparr>"

lemma hs_demo_fields [simp]:
  "peer_from_bytes hs_demo = Some" "peer_to_bytes hs_demo = (\<lambda>p. p)"
  "bls_sign hs_demo = (\<lambda>k m. k @ m)" "bls_verify_share hs_demo = (\<lambda>k s m. s = k @ m)"
  "bls_verify hs_demo = (\<lambda>k s m. s = k)" "bls_combine hs_demo = (\<lambda>pks sh. Some pks)"
  "bls_public_key hs_demo = (\<lambda>pks. pks)" "bls_public_share hs_demo = (\<lambda>pks i. [of_nat i])"
  "bls_public_keys hs_demo = (\<lambda>k. k)" "bls_secret_share hs_demo = (\<lambda>k i. [of_nat i])"
  "peer_from_str hs_demo = (\<lambda>s. Some [])" "peer_to_string hs_demo = hs_chars"
  "json_hs_message hs_demo = (\<lambda>m. case hs_msg_type m of HsTBLSKey k \<Rightarrow> [1] | _ \<Rightarrow> [0])"
  "from_json_hs_message hs_demo = (\<lambda>b. if b = [1] then Some \<lparr>hs_msg_type = HsEnd ''''\<rparr> else None)"
  by (simp_all add: hs_demo_def)

definition hs_demo_key :: "u8 \<Rightarrow> tbls_key" where
  "hs_demo_key n = \<lparr>secret_key = [n], tk_public_key = [n], common_public_key = [9], pk_set = [9]\<rparr>"

text \<open>Node \<open>n\<close> of four in view 1, whose leader is node 1.\<close>

definition hs_demo_node :: "u8 \<Rightarrow> hs_protocol" where
  "hs_demo_node n = (hs_default '''' 0 1)\<lparr>hs_keypair := Some (hs_demo_key n),
     consensus_node_pks := hs_demo_pks, pk_consensus_nodes := [(0, [0]), (1, [1]), (2, [2]), (3, [3])],
     hstate := hs_state_new\<lparr>hs_view := 1, hs_primary := [1]\<rparr>\<rparr>"

definition hs_demo_vote :: "u8 \<Rightarrow> u8 \<Rightarrow> vote" where
  "hs_demo_vote ty n = my_vote hs_demo (hs_demo_key n) ty 1 hs_demo_block [n]"

text \<open>The leader after the votes of nodes 2 and 3 in a phase.\<close>

definition hs_demo_leader :: "u8 \<Rightarrow> hs_protocol" where
  "hs_demo_leader ty = (hs_demo_node 1)\<lparr>hlog := \<lparr>
     message_signatures = [vote_hash hs_demo ty (hs_demo_vote ty 0) \<mapsto>
       [(2, the (vt_partial_signature (hs_demo_vote ty 2))), (3, the (vt_partial_signature (hs_demo_vote ty 3)))]],
     newviews = Map.empty\<rparr>\<rparr>"

lemma hs_demo_node_fields [simp]:
  "hstate (hs_demo_node n) = hs_state_new\<lparr>hs_view := 1, hs_primary := [1]\<rparr>"
  "hlog (hs_demo_node n) = hs_log_new" "hs_keypair (hs_demo_node n) = Some (hs_demo_key n)"
  "consensus_node_pks (hs_demo_node n) = hs_demo_pks"
  "pk_consensus_nodes (hs_demo_node n) = [(0, [0]), (1, [1]), (2, [2]), (3, [3])]"
  "view_timeout_notify (hs_demo_node n) = 0" "view_timeout_stop_notify (hs_demo_node n) = 1"
  by (simp_all add: hs_demo_node_def hs_default_def)

lemma hs_state_new_fields [simp]:
  "hs_view hs_state_new = 0" "prepare_qc hs_state_new = None" "locked_qc hs_state_new = None"
  "high_qc hs_state_new = None" "commit_qc hs_state_new = None" "hs_fault_tolerance_count hs_state_new = 1"
  "tf hs_state_new = 10" "current_view_timeout hs_state_new = 10"
  by (simp_all add: hs_state_new_def)

lemma hs_demo_vote_fields [simp]:
  "vt_view_num (hs_demo_vote ty n) = 1" "vt_block (hs_demo_vote ty n) = hs_demo_block"
  "vt_from_peer_id (hs_demo_vote ty n) = [n]"
  "vt_partial_signature (hs_demo_vote ty n) = Some (n # as_bytes (get_message_hash hs_demo ty 1 hs_demo_block))"
  "vote_hash hs_demo ty (hs_demo_vote ty n) = get_message_hash hs_demo ty 1 hs_demo_block"
  by (simp_all add: hs_demo_vote_def my_vote_def tbls_sign_def vote_hash_def hs_demo_key_def)

lemma hs_demo_key_fields [simp]:
  "pk_set (hs_demo_key n) = [9]" "common_public_key (hs_demo_key n) = [9]" "secret_key (hs_demo_key n) = [n]"
  by (simp_all add: hs_demo_key_def)

lemma hs_demo_pks_at [simp]:
  "hs_demo_pks [0] = Some \<lparr>pki_number = 0, pki_public_key = [0]\<rparr>"
  "hs_demo_pks [1] = Some \<lparr>pki_number = 1, pki_public_key = [1]\<rparr>"
  "hs_demo_pks [2] = Some \<lparr>pki_number = 2, pki_public_key = [2]\<rparr>"
  "hs_demo_pks [3] = Some \<lparr>pki_number = 3, pki_public_key = [3]\<rparr>"
  by (simp_all add: hs_demo_pks_def)

lemma hs_demo_threshold [simp]: "u64_mul 2 1 = Some 2" "u64_add 2 1 = Some 3" "u64_add 1 1 = Some 2"
  by (simp_all add: u64_mul_def u64_add_def)

lemma hs_demo_filing:
  assumes "n = 2 \<or> n = 3 \<or> n = 0"
  shows "collect_vote hs_demo ty ((hs_demo_node 1)\<lparr>hlog := log\<rparr>) (hs_demo_vote ty n) =
    (let log1 = record_messgae_partial_signature log (get_message_hash hs_demo ty 1 hs_demo_block) (ucast n)
           (n # as_bytes (get_message_hash hs_demo ty 1 hs_demo_block));
         p1 = (hs_demo_node 1)\<lparr>hlog := log1\<rparr>
     in Some (p1, if length (shares log1 (get_message_hash hs_demo ty 1 hs_demo_block)) \<noteq> 3 then None
          else Some (certificate ty (hs_demo_vote ty n) [9])))"
  using assms
  by (auto simp: collect_vote_def get_public_key_info_by_peer_id_def Let_def count_shares
      get_shares_recorded certificate_def combine_partial_signatures_def set_signature_def qc_new_def)

lemma hs_demo_leader_log:
  "hlog (hs_demo_leader ty) =
     record_messgae_partial_signature
       (record_messgae_partial_signature hs_log_new (get_message_hash hs_demo ty 1 hs_demo_block) 2
          (2 # as_bytes (get_message_hash hs_demo ty 1 hs_demo_block)))
       (get_message_hash hs_demo ty 1 hs_demo_block) 3
       (3 # as_bytes (get_message_hash hs_demo ty 1 hs_demo_block))"
  by (simp add: hs_demo_leader_def record_messgae_partial_signature_def hs_log_new_def)

lemma hs_demo_leader_node: "hs_demo_leader ty = (hs_demo_node 1)\<lparr>hlog := hlog (hs_demo_leader ty)\<rparr>"
  by (simp add: hs_demo_leader_def)

lemma hs_demo_leader_collects:
  "\<exists>p1. collect_vote hs_demo ty (hs_demo_node 1) (hs_demo_vote ty 2) = Some (p1, None) \<and>
        collect_vote hs_demo ty p1 (hs_demo_vote ty 3) = Some (hs_demo_leader ty, None)"
proof -
  let ?h = "get_message_hash hs_demo ty 1 hs_demo_block"
  let ?l1 = "record_messgae_partial_signature hs_log_new ?h 2 (2 # as_bytes ?h)"
  have "collect_vote hs_demo ty ((hs_demo_node 1)\<lparr>hlog := hs_log_new\<rparr>) (hs_demo_vote ty 2) =
      Some ((hs_demo_node 1)\<lparr>hlog := ?l1\<rparr>, None)"
    by (simp add: hs_demo_filing Let_def shares_record shares_new)
  moreover have "(hs_demo_node 1)\<lparr>hlog := hs_log_new\<rparr> = hs_demo_node 1"
    by (simp add: hs_demo_node_def hs_default_def)
  moreover have "collect_vote hs_demo ty ((hs_demo_node 1)\<lparr>hlog := ?l1\<rparr>) (hs_demo_vote ty 3) =
      Some (hs_demo_leader ty, None)"
    by (subst hs_demo_leader_node)
      (simp add: hs_demo_filing Let_def shares_record shares_new hs_demo_leader_log)
  ultimately show ?thesis by auto
qed

lemma hs_demo_leader_last:
  "\<exists>p'. collect_vote hs_demo ty (hs_demo_leader ty) (hs_demo_vote ty 0) =
     Some (p', Some (certificate ty (hs_demo_vote ty 0) [9]))"
  by (subst hs_demo_leader_node)
    (simp add: hs_demo_filing Let_def shares_record shares_new hs_demo_leader_log)

lemma hs_demo_node_epoch: "hs_epoch E me (hs_demo_node n)"
  by (rule epoch_begin) (simp add: hs_log_new_def)

lemma hs_demo_leader_epoch:
  "hs_epoch hs_demo [1] (hs_demo_leader PREPARE)" "hs_epoch hs_demo [1] (hs_demo_leader COMMIT)"
proof -
  obtain p1 where p1: "collect_vote hs_demo PREPARE (hs_demo_node 1) (hs_demo_vote PREPARE 2) = Some (p1, None)"
    "collect_vote hs_demo PREPARE p1 (hs_demo_vote PREPARE 3) = Some (hs_demo_leader PREPARE, None)"
    using hs_demo_leader_collects by blast
  have "hs_epoch hs_demo [1] p1"
    by (rule epoch_deliver [OF hs_demo_node_epoch [where n = 1], where m = "HsPrepareVote (hs_demo_vote PREPARE 2)"])
      (simp_all add: handle_prepare_vote_def p1)
  then show "hs_epoch hs_demo [1] (hs_demo_leader PREPARE)"
    by (rule epoch_deliver [where m = "HsPrepareVote (hs_demo_vote PREPARE 3)"])
      (simp_all add: handle_prepare_vote_def p1)
  obtain p2 where p2: "collect_vote hs_demo COMMIT (hs_demo_node 1) (hs_demo_vote COMMIT 2) = Some (p2, None)"
    "collect_vote hs_demo COMMIT p2 (hs_demo_vote COMMIT 3) = Some (hs_demo_leader COMMIT, None)"
    using hs_demo_leader_collects by blast
  have "hs_epoch hs_demo [1] p2"
    by (rule epoch_deliver [OF hs_demo_node_epoch [where n = 1], where m = "HsCommitVote (hs_demo_vote COMMIT 2)"])
      (simp_all add: handle_commit_vote_def p2)
  then show "hs_epoch hs_demo [1] (hs_demo_leader COMMIT)"
    by (rule epoch_deliver [where m = "HsCommitVote (hs_demo_vote COMMIT 3)"])
      (simp_all add: handle_commit_vote_def p2)
qed

subsection \<open>Certificates\<close>

text \<open>The phase a vote message belongs to, and the message that announces its certificate.\<close>

fun vote_phase :: "hs_message_type \<Rightarrow> (u8 \<times> vote) option" where
  "vote_phase (HsPrepareVote vt) = Some (PREPARE, vt)"
| "vote_phase (HsPreCommitVote vt) = Some (PRE_COMMIT, vt)"
| "vote_phase (HsCommitVote vt) = Some (COMMIT, vt)"
| "vote_phase m = None"

definition announcement :: "u8 \<Rightarrow> u64 \<Rightarrow> qc \<Rightarrow> hs_message_type" where
  "announcement ty v q =
     (if ty = PREPARE then HsPreCommit \<lparr>pc_view_num = v, pc_justify = Some q\<rparr>
      else if ty = PRE_COMMIT then HsCommit \<lparr>cm_view_num = v, cm_justify = Some q\<rparr>
      else HsDecide \<lparr>dc_view_num = v, dc_justify = Some q\<rparr>)"

lemma hd_append_continue [simp]: "hd (append_continue (x # q) ps) = x"
  by (cases ps) (simp_all add: append_continue_def)

lemma vote_handler_sends:
  assumes "vote_phase m = Some (ty, vt)" and "hs_handle_message_type E me order p m = Some (p', ps)"
    and "sends ps \<noteq> []"
  shows "\<exists>p1 q. collect_vote E ty p vt = Some (p1, Some q) \<and>
    hd (sends ps) = Broadcast (hs_json E (announcement ty (vt_view_num vt) q)) \<and> hlog p' = hlog p1 \<and>
    consensus_node_pks p' = consensus_node_pks p1"
  using assms
  by (cases m) (auto simp: handle_prepare_vote_def handle_precommit_vote_def handle_commit_vote_def
      bind_eq_Some_conv Let_def announcement_def PREPARE_def PRE_COMMIT_def COMMIT_def
      split: option.splits elim!: newview_cases)

lemma shares_filed: "shares log h \<noteq> [] \<Longrightarrow> message_signatures log h = Some (shares log h)"
  by (auto simp: shares_def split: option.splits)

lemma certificate_shares:
  assumes "share_inv E p" and "collect_vote E ty p vt = Some (p', Some q)"
  shows "\<exists>s k. q = certificate ty vt s \<and> hs_keypair p = Some k \<and>
    combine_partial_signatures E k (map_of (shares (hlog p') (vote_hash E ty vt))) = Some s \<and>
    distinct (map fst (shares (hlog p') (vote_hash E ty vt))) \<and>
    length (shares (hlog p') (vote_hash E ty vt)) = quorum p \<and>
    (\<forall>ns \<in> set (shares (hlog p') (vote_hash E ty vt)). share_valid E p (vote_hash E ty vt) ns)"
proof -
  from collect_vote_share_inv [OF assms] collect_vote_frame [OF assms(2)]
  have "distinct (map fst (shares (hlog p') (vote_hash E ty vt)))"
    "\<forall>ns \<in> set (shares (hlog p') (vote_hash E ty vt)). share_valid E p (vote_hash E ty vt) ns"
    by (simp_all add: share_inv_def share_valid_def)
  with assms(2) show ?thesis by (cases rule: collect_vote_cases) auto
qed

text \<open>
  C5. During a key epoch, that is, in a run of messages and timeouts that starts at a node
  with no filed share and in which no message replaces its table of public keys, a leader
  announces a certificate for a phase, a view and a block only when the shares it has filed
  for them are exactly \<open>2f + 1\<close>, have pairwise different key numbers and each verify for that
  phase, view and block under the public key registered for the number; the certificate
  carries the combination of exactly the filed shares. (Shares filed before a replacement of
  the table stay in the log unverified against the new keys; such runs are excluded.)
\<close>

theorem certificate_formed:
  assumes "hs_epoch E me p" and "hs_handle_message_type E me order p m = Some (p', ps)"
    and "vote_phase m = Some (ty, vt)" and "sends ps \<noteq> []"
  shows "\<exists>s k sigs. hd (sends ps) = Broadcast (hs_json E (announcement ty (vt_view_num vt) (certificate ty vt s))) \<and>
    message_signatures (hlog p') (vote_hash E ty vt) = Some sigs \<and>
    distinct (map fst sigs) \<and> length sigs = 2 * unat (hs_fault_tolerance_count (hstate p)) + 1 \<and>
    (\<forall>ns \<in> set sigs. share_valid E p (vote_hash E ty vt) ns) \<and>
    hs_keypair p = Some k \<and> combine_partial_signatures E k (map_of sigs) = Some s"
proof -
  from vote_handler_sends [OF assms(3,2,4)] obtain p1 q where
    c: "collect_vote E ty p vt = Some (p1, Some q)"
    and hd: "hd (sends ps) = Broadcast (hs_json E (announcement ty (vt_view_num vt) q))"
    and log: "hlog p' = hlog p1" by blast
  note formed = certificate_shares [OF epoch_share_inv [OF assms(1)] c]
  then have "shares (hlog p') (vote_hash E ty vt) \<noteq> []" by (auto simp: log quorum_def)
  then have "message_signatures (hlog p') (vote_hash E ty vt) = Some (shares (hlog p1) (vote_hash E ty vt))"
    by (simp add: shares_filed log)
  with formed hd show ?thesis unfolding quorum_def by blast
qed

theorem certificate_formed_witness:
  "\<exists>p' ps s k sigs. hs_handle_message_type hs_demo [1] [] (hs_demo_leader PREPARE)
      (HsPrepareVote (hs_demo_vote PREPARE 0)) = Some (p', ps) \<and>
    hd (sends ps) = Broadcast (hs_json hs_demo
      (announcement PREPARE 1 (certificate PREPARE (hs_demo_vote PREPARE 0) s))) \<and>
    message_signatures (hlog p') (vote_hash hs_demo PREPARE (hs_demo_vote PREPARE 0)) = Some sigs \<and>
    distinct (map fst sigs) \<and> length sigs = 3 \<and>
    (\<forall>ns \<in> set sigs. share_valid hs_demo (hs_demo_leader PREPARE) (vote_hash hs_demo PREPARE (hs_demo_vote PREPARE 0)) ns) \<and>
    hs_keypair (hs_demo_leader PREPARE) = Some k \<and> combine_partial_signatures hs_demo k (map_of sigs) = Some s"
proof -
  obtain p' where "collect_vote hs_demo PREPARE (hs_demo_leader PREPARE) (hs_demo_vote PREPARE 0) =
      Some (p', Some (certificate PREPARE (hs_demo_vote PREPARE 0) [9]))"
    using hs_demo_leader_last by blast
  then obtain ps where h: "hs_handle_message_type hs_demo [1] [] (hs_demo_leader PREPARE)
      (HsPrepareVote (hs_demo_vote PREPARE 0)) = Some (p', ps)" and "sends ps \<noteq> []"
    by (simp add: handle_prepare_vote_def)
  moreover have "unat (hs_fault_tolerance_count (hstate (hs_demo_leader PREPARE))) = 1"
    by (simp add: hs_demo_leader_def)
  ultimately show ?thesis
    using certificate_formed [OF hs_demo_leader_epoch(1) h] by auto
qed

text \<open>
  The key numbers that are registered, those whose shares are filed under a vote's hash, and
  those among the latter whose filed share verifies under the registered key.
\<close>

definition registered_numbers :: "hs_protocol \<Rightarrow> u64 set" where
  "registered_numbers p = {pki_number info | info peer. consensus_node_pks p peer = Some info}"

definition voters :: "'a hs_ext_scheme \<Rightarrow> u8 \<Rightarrow> hs_protocol \<Rightarrow> vote \<Rightarrow> u64 set" where
  "voters E ty p vt = fst ` set (shares (hlog p) (vote_hash E ty vt))"

definition verified_voters :: "'a hs_ext_scheme \<Rightarrow> u8 \<Rightarrow> hs_protocol \<Rightarrow> vote \<Rightarrow> u64 set" where
  "verified_voters E ty p vt =
     fst ` {ns \<in> set (shares (hlog p) (vote_hash E ty vt)). share_valid E p (vote_hash E ty vt) ns}"

lemma quorums_intersect:
  assumes "A \<subseteq> N" "B \<subseteq> N" "finite N" "card A = 2 * f + 1" "card B = 2 * f + 1" "card N \<le> 3 * f + 1"
  shows "f + 1 \<le> card (A \<inter> B)"
proof -
  have fin: "finite A" "finite B" using assms finite_subset by blast+
  have "card A + card B = card (A \<union> B) + card (A \<inter> B)" by (rule card_Un_Int [OF fin])
  moreover have "card (A \<union> B) \<le> card N" using assms by (intro card_mono) auto
  ultimately show ?thesis using assms by linarith
qed

lemma announced_voters:
  assumes "hs_epoch E me p" and "hs_handle_message_type E me order p m = Some (p', ps)"
    and "vote_phase m = Some (ty, vt)" and "sends ps \<noteq> []"
  shows "verified_voters E ty p' vt \<subseteq> registered_numbers p \<and>
    card (verified_voters E ty p' vt) = 2 * unat (hs_fault_tolerance_count (hstate p)) + 1"
proof -
  from vote_handler_sends [OF assms(3,2,4)] obtain p1 q where
    c: "collect_vote E ty p vt = Some (p1, Some q)" and same: "hlog p' = hlog p1"
      "consensus_node_pks p' = consensus_node_pks p1" by blast
  from same collect_vote_frame [OF c] have pks: "consensus_node_pks p' = consensus_node_pks p" by simp
  from certificate_shares [OF epoch_share_inv [OF assms(1)] c] have
    d: "distinct (map fst (shares (hlog p') (vote_hash E ty vt)))"
    and l: "length (shares (hlog p') (vote_hash E ty vt)) = quorum p"
    and v: "\<forall>ns \<in> set (shares (hlog p') (vote_hash E ty vt)). share_valid E p' (vote_hash E ty vt) ns"
    by (auto simp: same(1) pks share_valid_def)
  then have all: "verified_voters E ty p' vt = set (map fst (shares (hlog p') (vote_hash E ty vt)))"
    by (auto simp: verified_voters_def)
  from distinct_card [OF d] l have "card (verified_voters E ty p' vt) = quorum p" by (simp add: all)
  moreover from v have "verified_voters E ty p' vt \<subseteq> registered_numbers p"
    by (force simp: verified_voters_def registered_numbers_def share_valid_def pks)
  ultimately show ?thesis by (simp add: quorum_def)
qed

text \<open>
  C6. Quorum intersection: let two nodes be in key epochs (no share was filed at the start,
  no message has replaced the key table since) with the same table of at most \<open>3f + 1\<close> key
  numbers. Whenever votes make both of them announce a certificate, for whatever phases, views
  and blocks, there are at least \<open>f + 1\<close> key numbers of which both nodes have filed a share
  that verifies, for the phase, view and block of that node's certificate, under the key
  registered for the number.
\<close>

theorem certificates_share_voters:
  assumes "hs_epoch E me p" and "hs_epoch E you r"
    and "hs_handle_message_type E me order p m = Some (p', ps)" and "vote_phase m = Some (ty, vt)" and "sends ps \<noteq> []"
    and "hs_handle_message_type E you order2 r m2 = Some (r', ps2)" and "vote_phase m2 = Some (ty2, vt2)"
    and "sends ps2 \<noteq> []"
    and "consensus_node_pks r = consensus_node_pks p"
    and "hs_fault_tolerance_count (hstate r) = hs_fault_tolerance_count (hstate p)"
    and "finite (registered_numbers p)"
    and "card (registered_numbers p) \<le> 3 * unat (hs_fault_tolerance_count (hstate p)) + 1"
  shows "unat (hs_fault_tolerance_count (hstate p)) + 1 \<le>
    card (verified_voters E ty p' vt \<inter> verified_voters E ty2 r' vt2)"
proof -
  have "registered_numbers r = registered_numbers p"
    using assms(9) by (simp add: registered_numbers_def)
  with assms(10-12) announced_voters [OF assms(1,3-5)] announced_voters [OF assms(2,6-8)]
  show ?thesis by (intro quorums_intersect [where N = "registered_numbers p"]) simp_all
qed

lemma hs_demo_registered: "registered_numbers (hs_demo_leader ty) = {0, 1, 2, 3}"
proof
  show "registered_numbers (hs_demo_leader ty) \<subseteq> {0, 1, 2, 3}"
    by (auto simp: registered_numbers_def hs_demo_leader_def hs_demo_pks_def split: if_splits)
  have "pki_number info \<in> registered_numbers (hs_demo_leader ty)" if "hs_demo_pks peer = Some info" for peer info
    using that by (auto simp: registered_numbers_def hs_demo_leader_def)
  from this [OF hs_demo_pks_at(1)] this [OF hs_demo_pks_at(2)]
    this [OF hs_demo_pks_at(3)] this [OF hs_demo_pks_at(4)]
  show "{0, 1, 2, 3} \<subseteq> registered_numbers (hs_demo_leader ty)" by simp
qed

theorem certificates_share_voters_witness:
  "\<exists>p' r' ps ps2. hs_handle_message_type hs_demo [1] [] (hs_demo_leader PREPARE)
       (HsPrepareVote (hs_demo_vote PREPARE 0)) = Some (p', ps) \<and>
     hs_handle_message_type hs_demo [1] [] (hs_demo_leader COMMIT) (HsCommitVote (hs_demo_vote COMMIT 0)) = Some (r', ps2) \<and>
     2 \<le> card (verified_voters hs_demo PREPARE p' (hs_demo_vote PREPARE 0) \<inter>
           verified_voters hs_demo COMMIT r' (hs_demo_vote COMMIT 0))"
proof -
  obtain p1 r1 where c: "collect_vote hs_demo PREPARE (hs_demo_leader PREPARE) (hs_demo_vote PREPARE 0) =
      Some (p1, Some (certificate PREPARE (hs_demo_vote PREPARE 0) [9]))"
    "collect_vote hs_demo COMMIT (hs_demo_leader COMMIT) (hs_demo_vote COMMIT 0) =
      Some (r1, Some (certificate COMMIT (hs_demo_vote COMMIT 0) [9]))"
    using hs_demo_leader_last by blast
  have "hs_view (hstate r1) = 1" "pk_consensus_nodes r1 = pk_consensus_nodes (hs_demo_node 1)"
    using collect_vote_frame [OF c(2)] by (simp_all add: hs_demo_leader_def)
  then have "u64_add (hs_view (hstate (hs_view_timeout_stop r1))) 1 = Some 2"
    "leader_of (hs_view_timeout_stop r1) 2 = Some [2]"
    by (simp_all add: leader_of_def)
  from newview_returns [OF this, of hs_demo "[2]" "[1]"] obtain r' q where
    "newview hs_demo (hs_view_timeout_stop r1) [1] = Some (r', ContinueExecute q)"
    by auto
  with c obtain ps ps2 where
    h: "hs_handle_message_type hs_demo [1] [] (hs_demo_leader PREPARE) (HsPrepareVote (hs_demo_vote PREPARE 0)) = Some (p1, ps)"
      "hs_handle_message_type hs_demo [1] [] (hs_demo_leader COMMIT) (HsCommitVote (hs_demo_vote COMMIT 0)) = Some (r', ps2)"
    and s: "sends ps \<noteq> []" "sends ps2 \<noteq> []"
    by (simp add: handle_prepare_vote_def handle_commit_vote_def append_continue_def)
  have "consensus_node_pks (hs_demo_leader COMMIT) = consensus_node_pks (hs_demo_leader PREPARE)"
    "hstate (hs_demo_leader COMMIT) = hstate (hs_demo_leader PREPARE)"
    "hs_fault_tolerance_count (hstate (hs_demo_leader PREPARE)) = 1"
    by (simp_all add: hs_demo_leader_def)
  with certificates_share_voters [OF hs_demo_leader_epoch h(1) vote_phase.simps(1) s(1) h(2) vote_phase.simps(3) s(2)] h show ?thesis
    by (auto simp: hs_demo_registered)
qed

subsection \<open>Progress\<close>

text \<open>
  Documented behaviour of threshold signatures: more than \<open>t\<close> shares that the public key
  shares of one key set verify for a message combine to a signature that the common public
  key of the set verifies.
\<close>

definition bls_combines :: "'a hs_ext_scheme \<Rightarrow> bytes \<Rightarrow> nat \<Rightarrow> bool" where
  "bls_combines E pks t \<longleftrightarrow>
     (\<forall>sh m. t < card (dom sh) \<and>
        (\<forall>n s. sh n = Some s \<longrightarrow> bls_verify_share E (bls_public_share E pks (unat n)) s m) \<longrightarrow>
        (\<exists>sig. bls_combine E pks sh = Some sig \<and> bls_verify E (bls_public_key E pks) sig m))"

lemma bls_combinesD:
  assumes "bls_combines E pks t" and "t < card (dom sh)"
    and "\<And>n s. sh n = Some s \<Longrightarrow> bls_verify_share E (bls_public_share E pks (unat n)) s m"
  obtains sig where "bls_combine E pks sh = Some sig" "bls_verify E (bls_public_key E pks) sig m"
  using assms unfolding bls_combines_def by blast

text \<open>The table of a node holds the public key shares of one key set.\<close>

definition keys_of_set :: "'a hs_ext_scheme \<Rightarrow> hs_protocol \<Rightarrow> bytes \<Rightarrow> bool" where
  "keys_of_set E p pks \<longleftrightarrow> (\<forall>peer info. consensus_node_pks p peer = Some info \<longrightarrow>
     pki_public_key info = bls_public_share E pks (unat (pki_number info)))"

text \<open>A vote that completes a quorum: verified, from a new key number, after \<open>2f\<close> others.\<close>

definition completing_vote :: "'a hs_ext_scheme \<Rightarrow> u8 \<Rightarrow> hs_protocol \<Rightarrow> vote \<Rightarrow> bool" where
  "completing_vote E ty p vt \<longleftrightarrow> (\<exists>info share.
     consensus_node_pks p (vt_from_peer_id vt) = Some info \<and> vt_partial_signature vt = Some share \<and>
     bls_verify_share E (pki_public_key info) share (as_bytes (vote_hash E ty vt)) \<and>
     pki_number info \<notin> voters E ty p vt \<and>
     card (voters E ty p vt) = 2 * unat (hs_fault_tolerance_count (hstate p)))"

lemma quorum_threshold:
  assumes "unat (hs_fault_tolerance_count (hstate p)) < 2 ^ 62"
  obtains a b where "u64_mul 2 (hs_fault_tolerance_count (hstate p)) = Some a" "u64_add a 1 = Some b"
    "unat b = quorum p"
proof -
  from assms have "2 * unat (hs_fault_tolerance_count (hstate p)) < 2 ^ 64" by simp
  then obtain a where a: "u64_mul 2 (hs_fault_tolerance_count (hstate p)) = Some a"
    by (simp add: u64_mul_def)
  from u64_mul_unat [OF a] assms obtain b where b: "u64_add a 1 = Some b"
    by (simp add: u64_add_def)
  from a b threshold_quorum [OF a b] show thesis by (rule that)
qed

lemma completing_vote_forms:
  assumes inv: "share_inv E p" and combines: "bls_combines E pks (unat (hs_fault_tolerance_count (hstate p)))"
    and keys: "keys_of_set E p pks" and k: "hs_keypair p = Some k" "pk_set k = pks"
    and small: "unat (hs_fault_tolerance_count (hstate p)) < 2 ^ 62"
    and vote: "completing_vote E ty p vt"
  shows "\<exists>p' s. collect_vote E ty p vt = Some (p', Some (certificate ty vt s)) \<and>
    bls_verify E (bls_public_key E pks) s (as_bytes (vote_hash E ty vt))"
proof -
  let ?h = "vote_hash E ty vt"
  from vote obtain info share where i: "consensus_node_pks p (vt_from_peer_id vt) = Some info"
      "vt_partial_signature vt = Some share" "bls_verify_share E (pki_public_key info) share (as_bytes ?h)"
    and new: "pki_number info \<notin> voters E ty p vt"
    and card: "card (voters E ty p vt) = 2 * unat (hs_fault_tolerance_count (hstate p))"
    by (auto simp: completing_vote_def)
  let ?p1 = "p\<lparr>hlog := record_messgae_partial_signature (hlog p) ?h (pki_number info) share\<rparr>"
  let ?sigs = "shares (hlog ?p1) ?h"
  have inv1: "share_inv E ?p1" using inv i by (intro share_inv_record) (auto simp: share_valid_def)
  have "length (shares (hlog p) ?h) = card (voters E ty p vt)"
    using inv distinct_card [of "map fst (shares (hlog p) ?h)"] by (simp add: share_inv_def voters_def)
  with new card have len: "length ?sigs = quorum p"
    by (simp add: shares_record length_update voters_def quorum_def)
  from inv1 have d: "distinct (map fst ?sigs)" and valid: "\<forall>ns \<in> set ?sigs. share_valid E ?p1 ?h ns"
    by (simp_all add: share_inv_def)
  have big: "unat (hs_fault_tolerance_count (hstate p)) < card (dom (map_of ?sigs))"
    using distinct_card [OF d] len by (simp add: dom_map_of_conv_image_fst quorum_def)
  have "bls_verify_share E (bls_public_share E pks (unat n)) s (as_bytes ?h)"
    if "map_of ?sigs n = Some s" for n s
    using map_of_SomeD [OF that] valid keys by (force simp: share_valid_def keys_of_set_def)
  from bls_combinesD [OF combines big this]
  obtain sig where sig: "bls_combine E pks (map_of ?sigs) = Some sig"
      "bls_verify E (bls_public_key E pks) sig (as_bytes ?h)" .
  from quorum_threshold [OF small] obtain a b where
    "u64_mul 2 (hs_fault_tolerance_count (hstate p)) = Some a" "u64_add a 1 = Some b" "unat b = quorum p" .
  with i k sig len have "collect_vote E ty p vt = Some (?p1, Some (certificate ty vt sig))"
    by (simp add: collect_vote_def get_public_key_info_by_peer_id_def Let_def flip: vote_hash_def,
      simp add: count_shares get_shares_recorded shares_record combine_partial_signatures_def
        certificate_def set_signature_def qc_new_def)
  with sig show ?thesis by blast
qed

lemma certificate_checked:
  assumes "bls_verify E (bls_public_key E pks) s (as_bytes (vote_hash E ty vt))"
    and "hs_keypair r = Some k" and "common_public_key k = bls_public_key E pks"
    and "hs_view (hstate r) = vt_view_num vt"
  shows "checked_justify E ty r (Some (certificate ty vt s)) = Some (Some (certificate ty vt s))"
  using assms
  by (intro checked_justify_accepts) (auto simp: certificate_def vote_hash_def threshold_verify_def)

text \<open>
  The prepare phase makes progress: when a verified prepare vote completes a quorum at
  the leader, the leader broadcasts a pre-commit message whose certificate every replica in
  that view with the keys of the same set accepts: the replica stores it as its prepare
  certificate and sends its signed pre-commit vote for the block to its primary.
\<close>

theorem prepare_quorum_advances:
  assumes "hs_epoch E me p" and "bls_combines E pks (unat (hs_fault_tolerance_count (hstate p)))"
    and "keys_of_set E p pks" and "hs_keypair p = Some k" and "pk_set k = pks"
    and "unat (hs_fault_tolerance_count (hstate p)) < 2 ^ 62" and "completing_vote E PREPARE p vt"
    and "hs_keypair r = Some k'" and "common_public_key k' = bls_public_key E pks"
    and "hs_view (hstate r) = vt_view_num vt"
    and "peer_from_bytes E (hs_primary (hstate r)) = Some leader"
  shows "\<exists>p' msg q. handle_prepare_vote E p vt = Some (p', ContinueExecute [Broadcast (hs_json E (HsPreCommit msg))]) \<and>
    pc_justify msg = Some q \<and>
    handle_precommit E r msg you = Some (r\<lparr>hstate := (hstate r)\<lparr>prepare_qc := Some q\<rparr>\<rparr>,
      ContinueExecute [Unicast leader (hs_json E (HsPreCommitVote
        (my_vote E k' PRE_COMMIT (vt_view_num vt) (vt_block vt) you)))])"
proof -
  from completing_vote_forms [OF epoch_share_inv [OF assms(1)] assms(2-7)] obtain p' s where
    c: "collect_vote E PREPARE p vt = Some (p', Some (certificate PREPARE vt s))"
    and v: "bls_verify E (bls_public_key E pks) s (as_bytes (vote_hash E PREPARE vt))" by blast
  let ?msg = "\<lparr>pc_view_num = vt_view_num vt, pc_justify = Some (certificate PREPARE vt s)\<rparr>"
  have "handle_prepare_vote E p vt = Some (p', ContinueExecute [Broadcast (hs_json E (HsPreCommit ?msg))])"
    by (simp add: handle_prepare_vote_def c)
  moreover from certificate_checked [OF v assms(8-10)] assms(8,11)
  have "handle_precommit E r ?msg you =
      Some (r\<lparr>hstate := (hstate r)\<lparr>prepare_qc := Some (certificate PREPARE vt s)\<rparr>\<rparr>,
        ContinueExecute [Unicast leader (hs_json E (HsPreCommitVote
          (my_vote E k' PRE_COMMIT (vt_view_num vt) (vt_block vt) you)))])"
    by (simp add: handle_precommit_def send_vote_def my_vote_def) (simp add: certificate_def)
  ultimately show ?thesis by fastforce
qed

lemma hs_demo_combines: "bls_combines hs_demo [9] t"
  by (simp add: bls_combines_def)

lemma hs_demo_keys: "keys_of_set hs_demo (hs_demo_leader ty) [9]"
  by (auto simp: keys_of_set_def hs_demo_leader_def hs_demo_pks_def split: if_splits)

lemma hs_demo_completing: "completing_vote hs_demo ty (hs_demo_leader ty) (hs_demo_vote ty 0)"
proof -
  have "voters hs_demo ty (hs_demo_leader ty) (hs_demo_vote ty 0) = {2, 3}"
    by (simp add: voters_def hs_demo_leader_log shares_record shares_new)
  then show ?thesis by (simp add: completing_vote_def) (simp add: hs_demo_leader_def)
qed

lemma hs_demo_leader_fields [simp]:
  "hstate (hs_demo_leader ty) = hs_state_new\<lparr>hs_view := 1, hs_primary := [1]\<rparr>"
  "hs_keypair (hs_demo_leader ty) = Some (hs_demo_key 1)"
  "pk_consensus_nodes (hs_demo_leader ty) = [(0, [0]), (1, [1]), (2, [2]), (3, [3])]"
  by (simp_all add: hs_demo_leader_def)

theorem prepare_quorum_advances_witness:
  "\<exists>p' msg q. handle_prepare_vote hs_demo (hs_demo_leader PREPARE) (hs_demo_vote PREPARE 0) =
      Some (p', ContinueExecute [Broadcast (hs_json hs_demo (HsPreCommit msg))]) \<and>
    pc_justify msg = Some q \<and>
    handle_precommit hs_demo (hs_demo_node 2) msg [2] =
      Some ((hs_demo_node 2)\<lparr>hstate := (hstate (hs_demo_node 2))\<lparr>prepare_qc := Some q\<rparr>\<rparr>,
        ContinueExecute [Unicast [1] (hs_json hs_demo (HsPreCommitVote
          (my_vote hs_demo (hs_demo_key 2) PRE_COMMIT 1 hs_demo_block [2])))])"
  using prepare_quorum_advances [OF hs_demo_leader_epoch(1) hs_demo_combines hs_demo_keys _ _ _
      hs_demo_completing, of "hs_demo_key 1" "hs_demo_node 2" "hs_demo_key 2" "[1]" "[2]"]
  by simp

lemma leader_of_cong: "pk_consensus_nodes r = pk_consensus_nodes p \<Longrightarrow> leader_of r v = leader_of p v"
  by (simp add: leader_of_def)

text \<open>
  C7. The commit phase completes the view: when, in a key epoch (no share filed at its start,
  the key table not replaced since), a verified commit vote completes a quorum at a leader
  that can enter the next view, the leader reports the block's command as complete,
  broadcasts a decide message and enters the next view; every replica of that view with the
  keys of the same set that receives the decide message reports the same command as complete,
  enters the next view with the same leader and resets its timeout.
\<close>

theorem commit_quorum_decides:
  assumes "hs_epoch E me p" and "bls_combines E pks (unat (hs_fault_tolerance_count (hstate p)))"
    and "keys_of_set E p pks" and "hs_keypair p = Some k" and "pk_set k = pks"
    and "unat (hs_fault_tolerance_count (hstate p)) < 2 ^ 62" and "completing_vote E COMMIT p vt"
    and "hs_keypair r = Some k'" and "common_public_key k' = bls_public_key E pks"
    and "hs_view (hstate r) = vt_view_num vt" and "hs_view (hstate p) = vt_view_num vt"
    and "pk_consensus_nodes r = pk_consensus_nodes p"
    and "u64_add (vt_view_num vt) 1 = Some v" and "leader_of p v = Some leader"
    and "peer_from_bytes E leader = Some peer"
  shows "\<exists>p' r' q q' msg. handle_commit_vote E p vt me = Some (p', Complete \<lparr>cmd = block_cmd (vt_block vt)\<rparr>
        (Broadcast (hs_json E (HsDecide msg)) # q)) \<and>
    handle_decide E r msg you = Some (r', Complete \<lparr>cmd = block_cmd (vt_block vt)\<rparr> q') \<and>
    hs_view (hstate p') = v \<and> hs_view (hstate r') = v \<and>
    hs_primary (hstate p') = leader \<and> hs_primary (hstate r') = leader \<and>
    current_view_timeout (hstate r') = tf (hstate r)"
proof -
  from completing_vote_forms [OF epoch_share_inv [OF assms(1)] assms(2-7)] obtain p1 s where
    c: "collect_vote E COMMIT p vt = Some (p1, Some (certificate COMMIT vt s))"
    and sig: "bls_verify E (bls_public_key E pks) s (as_bytes (vote_hash E COMMIT vt))" by blast
  let ?msg = "\<lparr>dc_view_num = vt_view_num vt, dc_justify = Some (certificate COMMIT vt s)\<rparr>"
  note same = collect_vote_frame [OF c]
  have nv: "newview E (hs_view_timeout_stop p1) me = Some (entered (hs_view_timeout_stop p1) v leader,
      ContinueExecute (if leader = me then [] else [Unicast peer (newview_message E (hs_view_timeout_stop p1) me)]))"
    using assms same leader_of_cong [of p1 p] by (intro newview_returns) simp_all
  have nv2: "newview E (hs_view_timeout_stop r) you = Some (entered (hs_view_timeout_stop r) v leader,
      ContinueExecute (if leader = you then [] else [Unicast peer (newview_message E (hs_view_timeout_stop r) you)]))"
    using assms leader_of_cong [of r p] by (intro newview_returns) simp_all
  have "qc_block (certificate COMMIT vt s) = vt_block vt" by (simp add: certificate_def)
  with c nv have "handle_commit_vote E p vt me = Some (entered (hs_view_timeout_stop p1) v leader,
      Complete \<lparr>cmd = block_cmd (vt_block vt)\<rparr> (Broadcast (hs_json E (HsDecide ?msg)) #
        (if leader = me then [] else [Unicast peer (newview_message E (hs_view_timeout_stop p1) me)])))"
    by (simp add: handle_commit_vote_def append_continue_def)
  moreover from certificate_checked [OF sig assms(8-10)] nv2
  have "\<exists>q'. handle_decide E r ?msg you = Some (entered (hs_view_timeout_stop r) v leader,
      Complete \<lparr>cmd = block_cmd (vt_block vt)\<rparr> q')"
    by (simp add: handle_decide_def) (simp add: certificate_def)
  ultimately show ?thesis by fastforce
qed

theorem commit_quorum_decides_witness:
  "\<exists>p' r' q q' msg. handle_commit_vote hs_demo (hs_demo_leader COMMIT) (hs_demo_vote COMMIT 0) [1] =
      Some (p', Complete \<lparr>cmd = ''x''\<rparr> (Broadcast (hs_json hs_demo (HsDecide msg)) # q)) \<and>
    handle_decide hs_demo (hs_demo_node 2) msg [2] = Some (r', Complete \<lparr>cmd = ''x''\<rparr> q') \<and>
    hs_view (hstate p') = 2 \<and> hs_view (hstate r') = 2 \<and>
    hs_primary (hstate p') = [2] \<and> hs_primary (hstate r') = [2] \<and>
    current_view_timeout (hstate r') = 10"
  using commit_quorum_decides [OF hs_demo_leader_epoch(2) hs_demo_combines hs_demo_keys _ _ _
      hs_demo_completing, of "hs_demo_key 1" "hs_demo_node 2" "hs_demo_key 2" 2 "[2]" "[2]" "[2]"]
  by (simp add: leader_of_def hs_demo_block_def)

subsection \<open>What a node votes for\<close>

text \<open>The block extends the block its justification certifies and respects the lock.\<close>

definition extends_justify :: "'a hs_ext_scheme \<Rightarrow> hs_protocol \<Rightarrow> hs_prepare \<Rightarrow> bool" where
  "extends_justify E p m \<longleftrightarrow>
     (case pr_justify m of
        None \<Rightarrow> parent_hash (pr_block m) = ''''
      | Some q \<Rightarrow> parent_hash (pr_block m) = get_block_hash E (qc_block q) \<and>
          (case locked_qc (hstate p) of
             None \<Rightarrow> 0 < qc_view_num q \<or> parent_hash (pr_block m) = ''''
           | Some l \<Rightarrow> qc_view_num l < qc_view_num q \<or>
               parent_hash (pr_block m) = get_block_hash E (qc_block l)))"

lemma hs_handle_prepare_rejects:
  "\<not> extends_justify E p m \<Longrightarrow> hs_handle_prepare E p m me = Some (p, ContinueExecute [])"
  by (auto simp: extends_justify_def hs_handle_prepare_def safe_node_def Let_def split: option.splits)

lemma hs_handle_prepare_votes:
  assumes "extends_justify E p m" and "hs_keypair p = Some k" and "peer_from_bytes E (pr_from_peer_id m) = Some leader"
  shows "hs_handle_prepare E p m me = Some (p\<lparr>hstate := (hstate p)\<lparr>hs_primary := pr_from_peer_id m\<rparr>\<rparr>,
    ContinueExecute [Unicast leader (hs_json E (HsPrepareVote
      (my_vote E k PREPARE (pr_view_num m) (pr_block m) me)))])"
  using assms
  by (auto simp: extends_justify_def hs_handle_prepare_def safe_node_def Let_def send_vote_def my_vote_def
      split: option.splits)

text \<open>
  A node with its key pair answers a proposal with exactly one vote when the proposed
  block extends the block of its justification and the justification is newer than the
  node's lock or the block extends the locked block (with no justification: when the parent
  hash is empty), and otherwise changes nothing and sends nothing. The vote is the node's
  signed share for the proposal's own view and block, sent to the proposer, who becomes the
  node's primary; the node's view and certificates stay.
\<close>

theorem prepare_vote_rule:
  assumes "hs_keypair p = Some k" and "peer_from_bytes E (pr_from_peer_id m) = Some leader"
  shows "hs_handle_prepare E p m me =
    (if extends_justify E p m
     then Some (p\<lparr>hstate := (hstate p)\<lparr>hs_primary := pr_from_peer_id m\<rparr>\<rparr>,
       ContinueExecute [Unicast leader (hs_json E (HsPrepareVote
         \<lparr>vt_view_num = pr_view_num m, vt_block = pr_block m,
          vt_partial_signature = Some (tbls_sign E k
            (as_bytes (get_message_hash E PREPARE (pr_view_num m) (pr_block m)))),
          vt_from_peer_id = me\<rparr>))])
     else Some (p, ContinueExecute []))"
  using hs_handle_prepare_votes [OF _ assms, of me] hs_handle_prepare_rejects [of E p m me]
  by (cases "extends_justify E p m") (simp_all add: my_vote_def)

definition hs_demo_proposal :: "qc option \<Rightarrow> block \<Rightarrow> hs_prepare" where
  "hs_demo_proposal j b = \<lparr>pr_view_num = 1, pr_block = b, pr_justify = j, pr_from_peer_id = [1]\<rparr>"

lemma hs_demo_proposal_fields [simp]:
  "pr_view_num (hs_demo_proposal j b) = 1" "pr_block (hs_demo_proposal j b) = b"
  "pr_justify (hs_demo_proposal j b) = j" "pr_from_peer_id (hs_demo_proposal j b) = [1]"
  by (simp_all add: hs_demo_proposal_def)

theorem prepare_vote_rule_witness:
  "\<exists>p'. hs_handle_prepare hs_demo (hs_demo_node 2) (hs_demo_proposal None hs_demo_block) [2] =
     Some (p', ContinueExecute [Unicast [1] (hs_json hs_demo (HsPrepareVote (hs_demo_vote PREPARE 2)))])"
proof -
  have "extends_justify hs_demo (hs_demo_node 2) (hs_demo_proposal None hs_demo_block)"
    by (simp add: extends_justify_def hs_demo_block_def)
  then show ?thesis
    using prepare_vote_rule [of "hs_demo_node 2" "hs_demo_key 2" hs_demo
        "hs_demo_proposal None hs_demo_block" "[1]" "[2]"]
    by (simp add: hs_demo_vote_def my_vote_def)
qed

text \<open>
  C8. Views, prepare certificates and locks never go back: between two resets every call the
  actuator makes keeps or raises the view, the view of the prepare certificate and the view
  of the lock, and in every reachable state these certificates are signed, of their own
  phase and not of a later view than the node's.
\<close>

theorem views_and_locks_monotone:
  assumes "hs_reachable E me p" and "hs_step E me p p'"
  shows "hs_view (hstate p) \<le> hs_view (hstate p') \<and>
    qc_view (prepare_qc (hstate p)) \<le> qc_view (prepare_qc (hstate p')) \<and>
    qc_view (locked_qc (hstate p)) \<le> qc_view (locked_qc (hstate p')) \<and>
    held_qc PREPARE p' (prepare_qc (hstate p')) \<and> held_qc PRE_COMMIT p' (locked_qc (hstate p'))"
proof -
  note inv = reachable_qc_inv [OF assms(1)] and adv = hs_step_advance [OF assms(2)]
  from advance_locks [OF inv adv] qc_inv_advance [OF inv adv] adv show ?thesis
    by (simp add: qc_inv_def advance_def)
qed

theorem views_and_locks_monotone_witness:
  "hs_view (hstate (hs_default '''' 0 1)) \<le>
     hs_view (hstate (fst (hs_protocol_phases hs_demo (hs_default '''' 0 1)))) \<and>
   held_qc PREPARE (fst (hs_protocol_phases hs_demo (hs_default '''' 0 1)))
     (prepare_qc (hstate (fst (hs_protocol_phases hs_demo (hs_default '''' 0 1)))))"
  using views_and_locks_monotone [OF hs_init hs_phases] by blast

text \<open>
  The lock does not protect against a forged justification: whatever certificate a node
  has locked, it votes for any block of any view that is proposed with an unsigned
  justification numbered above the lock, and for any block with an empty parent hash that is
  proposed without justification.
\<close>

theorem lock_is_bypassed:
  assumes "locked_qc (hstate p) = Some l" and "hs_keypair p = Some k"
    and "peer_from_bytes E from_peer = Some leader" and "unat (qc_view_num l) + 1 < 2 ^ 64"
  shows "(\<exists>p'. hs_handle_prepare E p
      \<lparr>pr_view_num = v, pr_block = \<lparr>block_cmd = c, parent_hash = get_block_hash E parent\<rparr>,
       pr_justify = Some (qc_new PREPARE (qc_view_num l + 1) parent), pr_from_peer_id = from_peer\<rparr> me =
      Some (p', ContinueExecute [Unicast leader (hs_json E (HsPrepareVote (my_vote E k PREPARE v
        \<lparr>block_cmd = c, parent_hash = get_block_hash E parent\<rparr> me)))])) \<and>
    (\<exists>p'. hs_handle_prepare E p
      \<lparr>pr_view_num = v, pr_block = \<lparr>block_cmd = c, parent_hash = ''''\<rparr>,
       pr_justify = None, pr_from_peer_id = from_peer\<rparr> me =
      Some (p', ContinueExecute [Unicast leader (hs_json E (HsPrepareVote (my_vote E k PREPARE v
        \<lparr>block_cmd = c, parent_hash = ''''\<rparr> me)))]))"
proof -
  have "u64_add (qc_view_num l) 1 = Some (qc_view_num l + 1)"
    using assms(4) by (simp add: u64_add_def)
  then have "unat (qc_view_num l + 1) = unat (qc_view_num l) + 1" by (auto dest: u64_add_unat)
  then have newer: "qc_view_num l < qc_view_num l + 1" by (simp add: word_less_nat_alt)
  show ?thesis
    using assms newer by (intro conjI exI) (subst hs_handle_prepare_votes,
      auto simp: extends_justify_def qc_new_def)+
qed

definition hs_demo_locked :: hs_protocol where
  "hs_demo_locked = (hs_demo_node 2)\<lparr>hstate := (hstate (hs_demo_node 2))\<lparr>locked_qc :=
     Some (certificate PRE_COMMIT (hs_demo_vote PRE_COMMIT 0) [9])\<rparr>\<rparr>"

theorem lock_is_bypassed_witness:
  "\<exists>p'. hs_handle_prepare hs_demo hs_demo_locked
     \<lparr>pr_view_num = 1, pr_block = \<lparr>block_cmd = ''y'', parent_hash = ''''\<rparr>,
      pr_justify = None, pr_from_peer_id = [3]\<rparr> [2] =
     Some (p', ContinueExecute [Unicast [3] (hs_json hs_demo (HsPrepareVote (my_vote hs_demo (hs_demo_key 2) PREPARE 1
       \<lparr>block_cmd = ''y'', parent_hash = ''''\<rparr> [2])))])"
  using lock_is_bypassed [of hs_demo_locked "certificate PRE_COMMIT (hs_demo_vote PRE_COMMIT 0) [9]"
      "hs_demo_key 2" hs_demo "[3]" "[3]" 1 "''y''" hs_demo_block "[2]"]
  by (simp add: hs_demo_locked_def) (simp add: certificate_def)

text \<open>
  Votes of one view are not exclusive: a node that has voted for a proposal votes for
  another proposal of the same view as well, with a share for the other block, as long as
  that proposal passes the same test; the first vote leaves the outcome of the second unchanged.
\<close>

theorem votes_twice_in_a_view:
  assumes "hs_keypair p = Some k" and "peer_from_bytes E (pr_from_peer_id m1) = Some leader1"
    and "peer_from_bytes E (pr_from_peer_id m2) = Some leader2"
    and "extends_justify E p m1" and "extends_justify E p m2" and "pr_view_num m2 = pr_view_num m1"
  shows "\<exists>p1 p2. hs_handle_prepare E p m1 me = Some (p1, ContinueExecute [Unicast leader1 (hs_json E
        (HsPrepareVote (my_vote E k PREPARE (pr_view_num m1) (pr_block m1) me)))]) \<and>
    hs_handle_prepare E p1 m2 me = Some (p2, ContinueExecute [Unicast leader2 (hs_json E
        (HsPrepareVote (my_vote E k PREPARE (pr_view_num m1) (pr_block m2) me)))])"
proof -
  let ?p1 = "p\<lparr>hstate := (hstate p)\<lparr>hs_primary := pr_from_peer_id m1\<rparr>\<rparr>"
  have "extends_justify E ?p1 m2 = extends_justify E p m2" by (simp add: extends_justify_def split: option.splits)
  with assms show ?thesis
    using hs_handle_prepare_votes [OF assms(4,1,2)] hs_handle_prepare_votes [of E ?p1 m2 k leader2 me] by simp
qed

theorem votes_twice_in_a_view_witness:
  "\<exists>p1 p2. hs_handle_prepare hs_demo (hs_demo_node 2) (hs_demo_proposal None hs_demo_block) [2] =
      Some (p1, ContinueExecute [Unicast [1] (hs_json hs_demo (HsPrepareVote
        (my_vote hs_demo (hs_demo_key 2) PREPARE 1 hs_demo_block [2])))]) \<and>
    hs_handle_prepare hs_demo p1 (hs_demo_proposal None \<lparr>block_cmd = ''y'', parent_hash = ''''\<rparr>) [2] =
      Some (p2, ContinueExecute [Unicast [1] (hs_json hs_demo (HsPrepareVote
        (my_vote hs_demo (hs_demo_key 2) PREPARE 1 \<lparr>block_cmd = ''y'', parent_hash = ''''\<rparr> [2])))])"
  using votes_twice_in_a_view [of "hs_demo_node 2" "hs_demo_key 2" hs_demo
      "hs_demo_proposal None hs_demo_block" "[1]"
      "hs_demo_proposal None \<lparr>block_cmd = ''y'', parent_hash = ''''\<rparr>" "[1]" "[2]"]
  by (simp add: extends_justify_def) (simp add: hs_demo_block_def)

subsection \<open>Completion, new views and leaders\<close>

text \<open>
  A node reports a command as complete on a decide message only when the message carries
  a commit certificate of the node's current view whose signature its common public key
  verifies; it then stops and resets its timer, enters the next view under the leader whose
  key number is that view modulo the number of nodes, and starts a timer of the base
  duration for it.
\<close>

theorem decide_needs_certificate:
  assumes "handle_decide E p msg me = Some (p', Complete request queue)"
  shows "\<exists>q s k v leader. dc_justify msg = Some q \<and> request = \<lparr>cmd = block_cmd (qc_block q)\<rparr> \<and>
    qc_msg_type q = COMMIT \<and> qc_view_num q = hs_view (hstate p) \<and> qc_signature q = Some s \<and>
    hs_keypair p = Some k \<and>
    threshold_verify E k s (as_bytes (get_message_hash E COMMIT (qc_view_num q) (qc_block q))) \<and>
    unat v = unat (hs_view (hstate p)) + 1 \<and>
    map_of (pk_consensus_nodes p) (v mod of_nat (length (pk_consensus_nodes p))) = Some leader \<and>
    hs_view (hstate p') = v \<and> hs_primary (hstate p') = leader \<and>
    timer_events p' = timer_events p @ [NotifyOne (view_timeout_stop_notify p),
      TimerSpawn (view_timeout_notify p) (view_timeout_stop_notify p) (tf (hstate p)) v]"
proof -
  from assms obtain q messages where q: "checked_justify E COMMIT p (dc_justify msg) = Some (Some q)"
    and nv: "newview E (hs_view_timeout_stop p) me = Some (p', messages)"
    and r: "request = \<lparr>cmd = block_cmd (qc_block q)\<rparr>"
    by (auto simp: handle_decide_def bind_eq_Some_conv split: option.splits)
  from nv show ?thesis
  proof (rule newview_cases)
    fix v leader peer
    assume v: "u64_add (hs_view (hstate (hs_view_timeout_stop p))) 1 = Some v"
      and l: "leader_of (hs_view_timeout_stop p) v = Some leader"
      and p': "p' = entered (hs_view_timeout_stop p) v leader"
    from u64_add_unat [OF v] have "unat v = unat (hs_view (hstate p)) + 1" by simp
    moreover from l have
      "map_of (pk_consensus_nodes p) (v mod of_nat (length (pk_consensus_nodes p))) = Some leader"
      by (simp add: leader_of_def split: if_splits)
    ultimately show ?thesis using checked_justify_cases [OF q] r p' by auto
  qed
qed

definition hs_demo_decide :: decide where
  "hs_demo_decide = \<lparr>dc_view_num = 1, dc_justify = Some (certificate COMMIT (hs_demo_vote COMMIT 0) [9])\<rparr>"

lemma hs_demo_decides:
  "\<exists>p' queue. handle_decide hs_demo (hs_demo_node 2) hs_demo_decide [2] = Some (p', Complete \<lparr>cmd = ''x''\<rparr> queue)"
proof -
  have "checked_justify hs_demo COMMIT (hs_demo_node 2) (dc_justify hs_demo_decide) =
      Some (dc_justify hs_demo_decide)"
    using certificate_checked [of hs_demo "[9]" "[9]" COMMIT "hs_demo_vote COMMIT 0" "hs_demo_node 2" "hs_demo_key 2"]
    by (simp add: hs_demo_decide_def)
  moreover have "newview hs_demo (hs_view_timeout_stop (hs_demo_node 2)) [2] =
      Some (entered (hs_view_timeout_stop (hs_demo_node 2)) 2 [2], ContinueExecute [])"
    using newview_returns [of "hs_view_timeout_stop (hs_demo_node 2)" 2 "[2]" hs_demo "[2]" "[2]"]
    by (simp add: leader_of_def)
  ultimately show ?thesis
    by (simp add: handle_decide_def hs_demo_decide_def certificate_def hs_demo_block_def)
qed

theorem decide_needs_certificate_witness:
  "\<exists>p' queue v. handle_decide hs_demo (hs_demo_node 2) hs_demo_decide [2] = Some (p', Complete \<lparr>cmd = ''x''\<rparr> queue) \<and>
     unat v = 2 \<and> hs_view (hstate p') = v"
proof -
  obtain p' queue where d: "handle_decide hs_demo (hs_demo_node 2) hs_demo_decide [2] =
      Some (p', Complete \<lparr>cmd = ''x''\<rparr> queue)"
    using hs_demo_decides by blast
  with decide_needs_certificate [OF d] show ?thesis by auto
qed

text \<open>The certificate with the highest view among a list, the first one when several have it.\<close>

lemma high_qc_loop_start:
  "\<exists>h'. high_qc_loop (Some j) nvs = Some h' \<and> qc_view_num j \<le> qc_view_num h'"
proof (induction nvs arbitrary: j)
  case Nil
  then show ?case by simp
next
  case (Cons nv nvs)
  show ?case
  proof (cases "\<exists>i. nv_justify nv = Some i \<and> qc_view_num j < qc_view_num i")
    case True
    then obtain i where i: "nv_justify nv = Some i" "qc_view_num j < qc_view_num i" by blast
    from Cons.IH [of i] obtain h' where "high_qc_loop (Some i) nvs = Some h'" "qc_view_num i \<le> qc_view_num h'"
      by blast
    with i show ?thesis by simp
  next
    case False
    then have "high_qc_loop (Some j) (nv # nvs) = high_qc_loop (Some j) nvs"
      by (simp split: option.splits)
    with Cons.IH [of j] show ?thesis by simp
  qed
qed

lemma high_qc_loop_upper:
  assumes "nv \<in> set nvs" and "nv_justify nv = Some j"
  shows "\<exists>h'. high_qc_loop h nvs = Some h' \<and> qc_view_num j \<le> qc_view_num h'"
  using assms(1)
proof (induction nvs arbitrary: h)
  case (Cons m nvs)
  show ?case
  proof (cases "nv = m")
    case True
    with assms(2) have "\<exists>i. high_qc_loop h (m # nvs) = high_qc_loop (Some i) nvs \<and> qc_view_num j \<le> qc_view_num i"
      by (cases h; cases "qc_view_num (the h) < qc_view_num j") (auto simp: not_less)
    then obtain i where "high_qc_loop h (m # nvs) = high_qc_loop (Some i) nvs" "qc_view_num j \<le> qc_view_num i"
      by blast
    with high_qc_loop_start [of i nvs] show ?thesis by (auto intro: order_trans)
  next
    case False
    with Cons.prems have "nv \<in> set nvs" by simp
    moreover have "\<exists>h1. high_qc_loop h (m # nvs) = high_qc_loop h1 nvs"
      by (auto split: option.splits)
    ultimately show ?thesis using Cons.IH by metis
  qed
qed simp

lemma high_qc_loop_source:
  "high_qc_loop h nvs = h \<or> (\<exists>nv \<in> set nvs. high_qc_loop h nvs = nv_justify nv)"
proof (induction nvs arbitrary: h)
  case (Cons m nvs)
  have "high_qc_loop h (m # nvs) = high_qc_loop h nvs \<or>
      high_qc_loop h (m # nvs) = high_qc_loop (nv_justify m) nvs"
    by (simp split: option.splits)
  with Cons.IH [of h] Cons.IH [of "nv_justify m"] show ?case by auto
qed simp

text \<open>
  The highest certificate: the new view message that brings the number of new view
  messages for a view to \<open>2f + 1\<close> makes the node store, as the certificate to extend, one
  whose view is at least that of its own prepare certificate and of every justification in
  those messages, and which is one of these certificates (none only when all are none); the
  node then reports readiness. Any other new view message changes nothing but the log.
\<close>

theorem newview_quorum_high_qc:
  assumes "hs_handle_newview p nv = Some (p', ps)"
  shows "(if length (bucket (newviews (hlog p)) (nv_view_num nv)) + 1 =
        2 * unat (hs_fault_tolerance_count (hstate p)) + 1
     then ps = Over None \<and>
       (\<forall>j. prepare_qc (hstate p) = Some j \<or>
          (\<exists>m \<in> set (bucket (newviews (hlog p)) (nv_view_num nv)) \<union> {nv}. nv_justify m = Some j) \<longrightarrow>
          (\<exists>h. high_qc (hstate p') = Some h \<and> qc_view_num j \<le> qc_view_num h)) \<and>
       (high_qc (hstate p') = prepare_qc (hstate p) \<or>
        (\<exists>m \<in> set (bucket (newviews (hlog p)) (nv_view_num nv)) \<union> {nv}. high_qc (hstate p') = nv_justify m))
     else ps = ContinueExecute [] \<and> hstate p' = hstate p) \<and>
    bucket (newviews (hlog p')) (nv_view_num nv) = bucket (newviews (hlog p)) (nv_view_num nv) @ [nv]"
proof -
  let ?nvs = "bucket (newviews (hlog p)) (nv_view_num nv) @ [nv]"
  let ?p1 = "p\<lparr>hlog := record_newview (hlog p) (nv_view_num nv) nv\<rparr>"
  from assms obtain a b where ab: "u64_mul 2 (hs_fault_tolerance_count (hstate p)) = Some a"
      "u64_add a 1 = Some b"
    by (auto simp: hs_handle_newview_def bind_eq_Some_conv Let_def)
  have cnt: "get_newviews_count_by_view (hlog ?p1) (nv_view_num nv) = length ?nvs"
    by (simp add: get_newviews_count_by_view_def record_newview_def)
  have high: "get_high_qc_by_view (hlog ?p1) (nv_view_num nv) c = Some (high_qc_loop c ?nvs)" for c
    by (simp add: get_high_qc_by_view_def record_newview_def)
  note q = threshold_quorum [OF ab]
  show ?thesis
  proof (cases "length ?nvs = quorum p")
    case True
    with assms ab q cnt high have "p' = ?p1\<lparr>hstate := (hstate p)\<lparr>high_qc := high_qc_loop (prepare_qc (hstate p)) ?nvs\<rparr>\<rparr>"
        "ps = Over None"
      by (simp_all add: hs_handle_newview_def Let_def)
    with True high_qc_loop_start [of _ ?nvs] high_qc_loop_upper [of _ ?nvs _ "prepare_qc (hstate p)"]
      high_qc_loop_source [of "prepare_qc (hstate p)" ?nvs] show ?thesis
      by (auto simp: quorum_def record_newview_def)
  next
    case False
    with assms ab q cnt have "p' = ?p1" "ps = ContinueExecute []"
      by (simp_all add: hs_handle_newview_def Let_def)
    with False show ?thesis by (simp add: quorum_def record_newview_def)
  qed
qed

definition hs_demo_newview :: hs_new_view where
  "hs_demo_newview = \<lparr>nv_view_num = 0, nv_justify = Some (certificate PREPARE (hs_demo_vote PREPARE 0) [9]),
     nv_from_peer_id = [3]\<rparr>"

theorem newview_quorum_high_qc_witness:
  "\<exists>p'. hs_handle_newview ((hs_demo_node 1)\<lparr>hlog := hs_log_new\<lparr>newviews :=
      [0 \<mapsto> [hs_demo_newview, hs_demo_newview]]\<rparr>\<rparr>) hs_demo_newview = Some (p', Over None) \<and>
    (\<exists>h. high_qc (hstate p') = Some h \<and> 1 \<le> qc_view_num h)"
proof -
  let ?p = "(hs_demo_node 1)\<lparr>hlog := hs_log_new\<lparr>newviews := [0 \<mapsto> [hs_demo_newview, hs_demo_newview]]\<rparr>\<rparr>"
  obtain p' ps where h: "hs_handle_newview ?p hs_demo_newview = Some (p', ps)"
    by (cases "hs_handle_newview ?p hs_demo_newview")
      (auto simp: hs_handle_newview_def get_high_qc_by_view_def record_newview_def Let_def split: if_splits)
  have l: "length (bucket (newviews (hlog ?p)) (nv_view_num hs_demo_newview)) = 2"
    "unat (hs_fault_tolerance_count (hstate ?p)) = 1"
    by (simp_all add: bucket_def hs_demo_newview_def)
  have "nv_justify hs_demo_newview = Some (certificate PREPARE (hs_demo_vote PREPARE 0) [9])"
    "qc_view_num (certificate PREPARE (hs_demo_vote PREPARE 0) [9]) = 1"
    by (simp_all add: hs_demo_newview_def certificate_def)
  with newview_quorum_high_qc [OF h] l h show ?thesis by force
qed

text \<open>No two peers of a table have the same key number.\<close>

definition numbers_unique :: "(bytes \<rightharpoonup> consensus_node_pk_info) \<Rightarrow> bool" where
  "numbers_unique pks \<longleftrightarrow>
     (\<forall>k k' i i'. pks k = Some i \<and> pks k' = Some i' \<and> pki_number i = pki_number i' \<longrightarrow> k = k')"

lemma storage_pk_loop_map:
  assumes "storage_pk_loop E pks order nodes = Some nodes'" and "numbers_unique pks"
  shows "map_of nodes' n = Some k \<longleftrightarrow>
    (k \<in> set order \<and> (\<exists>info. pks k = Some info \<and> pki_number info = n)) \<or>
    (map_of nodes n = Some k \<and> \<not> (\<exists>k' \<in> set order. \<exists>info. pks k' = Some info \<and> pki_number info = n))"
  using assms(1)
proof (induction order arbitrary: nodes)
  case Nil
  then show ?case by simp
next
  case (Cons a order)
  show ?case
  proof (cases "pks a")
    case None
    with Cons show ?thesis by auto
  next
    case (Some info)
    with Cons.prems have "storage_pk_loop E pks order (AList.update (pki_number info) a nodes) = Some nodes'"
      by (auto simp: bind_eq_Some_conv)
    from Cons.IH [OF this] Some show ?thesis
      using assms(2) unfolding numbers_unique_def by (auto simp: update_conv' split: if_splits)
  qed
qed

lemma storage_pk_loop_distinct:
  "storage_pk_loop E pks order nodes = Some nodes' \<Longrightarrow> distinct (map fst nodes) \<Longrightarrow> distinct (map fst nodes')"
  by (induction order arbitrary: nodes)
    (auto simp: bind_eq_Some_conv distinct_update split: option.splits)

lemma storage_pk_loop_agree:
  assumes "storage_pk_loop E pks o1 [] = Some n1" and "storage_pk_loop E2 pks o2 [] = Some n2"
    and "enumerates o1 pks" and "enumerates o2 pks" and "numbers_unique pks"
  shows "map_of n1 = map_of n2 \<and> length n1 = length n2"
proof -
  have "map_of n1 n = Some k \<longleftrightarrow> map_of n2 n = Some k" for n k
    using storage_pk_loop_map [OF assms(1,5)] storage_pk_loop_map [OF assms(2,5)] assms(3,4)
    by (simp add: enumerates_def)
  then have eq: "map_of n1 = map_of n2" by (intro ext) (metis not_Some_eq)
  have "length ns = card (dom (map_of ns))" if "distinct (map fst ns)" for ns :: "(u64 \<times> bytes) list"
    using distinct_card [OF that] by (simp add: dom_map_of_conv_image_fst)
  with eq storage_pk_loop_distinct [OF assms(1)] storage_pk_loop_distinct [OF assms(2)] show ?thesis
    by simp
qed

lemma distribute_keys_loop_unique:
  assumes "distribute_keys_loop E ks p q pks = Some (p', q', pks')"
    and "distinct (map dk_number ks)" and "numbers_unique pks"
    and "\<And>k i. pks k = Some i \<Longrightarrow> pki_number i \<notin> set (map dk_number ks)"
  shows "numbers_unique pks'"
  using assms
proof (induction ks arbitrary: p q pks)
  case Nil
  then show ?case by simp
next
  case (Cons a ks)
  from Cons.prems(1) obtain p1 q1 where rec: "distribute_keys_loop E ks p1 q1
      (pks(peer_to_bytes E (dk_peer_id a) \<mapsto>
        \<lparr>pki_number = dk_number a, pki_public_key = tk_public_key (dk_tbls_key a)\<rparr>)) = Some (p', q', pks')"
    by (auto simp: bind_eq_Some_conv Let_def)
  show ?case
  proof (rule Cons.IH [OF rec])
    show "distinct (map dk_number ks)" using Cons.prems(2) by simp
    have other: "pki_number i \<noteq> dk_number a" if "pks k = Some i" for k i
      using Cons.prems(4) [OF that] by auto
    show "numbers_unique (pks(peer_to_bytes E (dk_peer_id a) \<mapsto>
        \<lparr>pki_number = dk_number a, pki_public_key = tk_public_key (dk_tbls_key a)\<rparr>))"
      using Cons.prems(3) other unfolding numbers_unique_def by (auto split: if_splits) metis+
    show "pki_number i \<notin> set (map dk_number ks)"
      if "(pks(peer_to_bytes E (dk_peer_id a) \<mapsto> \<lparr>pki_number = dk_number a,
        pki_public_key = tk_public_key (dk_tbls_key a)\<rparr>)) k = Some i" for k i
      using that Cons.prems(2) Cons.prems(4) [of k i] by (auto split: if_splits)
  qed
qed

lemma generate_bls_keys_numbers:
  assumes "length order < 2 ^ 64"
  shows "distinct (map dk_number (generate_bls_keys E random order nodes f))"
proof -
  let ?peers = "List.map_filter nodes order"
  have "map dk_number (generate_bls_keys E random order nodes f) =
      map of_nat (map fst (zip [0..<length order] ?peers))"
    by (simp add: generate_bls_keys_def generate_keypair_set_def Let_def zip_map1 case_prod_beta comp_def)
  then have "map dk_number (generate_bls_keys E random order nodes f) =
      map of_nat (take (min (length order) (length ?peers)) [0..<length order])"
    by (simp only: map_fst_zip_take length_upt diff_zero)
  moreover have "inj_on (of_nat :: nat \<Rightarrow> u64) {0..<length order}"
  proof (rule inj_onI)
    fix x y assume "x \<in> {0..<length order}" "y \<in> {0..<length order}" "(of_nat x :: u64) = of_nat y"
    have "unat (of_nat z :: u64) = z" if "z < length order" for z
    proof -
      from that assms have "z < 2 ^ LENGTH(64)" by simp
      then show ?thesis by (simp only: unat_of_nat mod_less)
    qed
    with \<open>x \<in> _\<close> \<open>y \<in> _\<close> have "unat (of_nat x :: u64) = x" "unat (of_nat y :: u64) = y" by simp_all
    with \<open>of_nat x = of_nat y\<close> show "x = y" by metis
  qed
  ultimately show ?thesis
    by (simp add: distinct_map) (erule inj_on_subset, simp)
qed

text \<open>
  C9. Nodes agree on the leaders: the node that distributes the keys broadcasts the table of
  public keys it uses; a node without a table that handles this broadcast has, whatever the
  iteration orders of the hash maps, the same leader for every view as the distributing
  node, and the same primary when both started in the same view.
\<close>

theorem leaders_agree:
  assumes "distribute_keys E random order pks_order p me = Some (p', ps)" and "length order < 2 ^ 64"
    and "pk_consensus_nodes p = []" and "enumerates pks_order (consensus_node_pks p')"
    and "from_bincode_pks E (bincode_pks E (consensus_node_pks p')) = Some (consensus_node_pks p')"
    and "hs_handle_message_type E you order2 r
      (HsConsensusNodePKsInfo (bincode_pks E (consensus_node_pks p'))) = Some (r', ps')"
    and "pk_consensus_nodes r = []" and "enumerates order2 (consensus_node_pks p')"
  shows "Broadcast (hs_json E (HsConsensusNodePKsInfo (bincode_pks E (consensus_node_pks p')))) \<in> set (sends ps) \<and>
    (\<forall>v. leader_of r' v = leader_of p' v) \<and>
    (hs_view (hstate r) = hs_view (hstate p) \<longrightarrow> hs_primary (hstate r') = hs_primary (hstate p'))"
proof -
  from assms(1) obtain p1 queue pks data where
    loop: "distribute_keys_loop E (generate_bls_keys E random order (consensus_nodes p)
      (hs_fault_tolerance_count (hstate p))) p [] Map.empty = Some (p1, queue, pks)"
    and st: "storage_consensus_node_pk E pks_order (p1\<lparr>consensus_node_pks := pks\<rparr>) pks me = Some (p', data)"
    and ps: "ps = ContinueExecute (append_continue
      (queue @ [Broadcast (hs_json E (HsConsensusNodePKsInfo (bincode_pks E pks)))]) data)"
    by (auto simp: distribute_keys_def bind_eq_Some_conv Let_def)
  note frame = distribute_keys_loop_frame [OF loop]
  from st frame assms(3) obtain n1 where n1: "storage_pk_loop E pks pks_order [] = Some n1"
    and nv1: "newview E (p1\<lparr>consensus_node_pks := pks, pk_consensus_nodes := n1\<rparr>) (peer_to_bytes E me) = Some (p', data)"
    by (auto simp: storage_consensus_node_pk_def bind_eq_Some_conv)
  from nv1 have p': "consensus_node_pks p' = pks" "pk_consensus_nodes p' = n1"
    by (auto elim: newview_cases)
  from assms(5-7) p' obtain n2 you' where n2: "storage_pk_loop E pks order2 [] = Some n2"
    and nv2: "newview E (r\<lparr>consensus_node_pks := pks, pk_consensus_nodes := n2\<rparr>) you' = Some (r', ps')"
    by (auto simp: storage_consensus_node_pk_def bind_eq_Some_conv)
  from nv2 have r': "pk_consensus_nodes r' = n2" by (auto elim: newview_cases)
  have "numbers_unique pks"
    using generate_bls_keys_numbers [OF assms(2)]
    by (intro distribute_keys_loop_unique [OF loop]) (auto simp: numbers_unique_def)
  from storage_pk_loop_agree [OF n1 n2 _ _ this] assms(4,8) p'
  have same: "map_of n1 = map_of n2" "length n1 = length n2" by simp_all
  then have leaders: "leader_of r' v = leader_of p' v" for v by (simp add: leader_of_def p' r')
  have prim: "leader_of x' (hs_view (hstate x')) = Some (hs_primary (hstate x')) \<and>
      unat (hs_view (hstate x')) = unat (hs_view (hstate x)) + 1"
    if "newview E x z = Some (x', out)" for x x' z out
    using that by (rule newview_cases) (auto dest: u64_add_unat simp: leader_of_def)
  from prim [OF nv1] prim [OF nv2] frame leaders
  have "hs_primary (hstate r') = hs_primary (hstate p')" if "hs_view (hstate r) = hs_view (hstate p)"
    using that by (simp add: word_unat_eq_iff) (metis option.inject word_unat_eq_iff)
  moreover have "Broadcast (hs_json E (HsConsensusNodePKsInfo (bincode_pks E pks))) \<in> set (sends ps)"
    by (simp add: ps append_continue_def split: phase_state.split)
  ultimately show ?thesis using leaders p' by simp
qed

definition hs_demo_starter :: hs_protocol where
  "hs_demo_starter = (hs_default '''' 0 1)\<lparr>consensus_nodes :=
     [''a'' \<mapsto> [0], ''b'' \<mapsto> [1], ''c'' \<mapsto> [2], ''d'' \<mapsto> [3]]\<rparr>"

lemma hs_demo_pks_upds:
  "[[0] \<mapsto> \<lparr>pki_number = 0, pki_public_key = [0]\<rparr>, [1] \<mapsto> \<lparr>pki_number = 1, pki_public_key = [1]\<rparr>,
    [2] \<mapsto> \<lparr>pki_number = 2, pki_public_key = [2]\<rparr>, [3] \<mapsto> \<lparr>pki_number = 3, pki_public_key = [3]\<rparr>] = hs_demo_pks"
  by (rule ext) (auto simp: hs_demo_pks_def)

lemma hs_demo_enumerates:
  "enumerates [[0], [1], [2], [3]] hs_demo_pks" "enumerates [[3], [1], [0], [2]] hs_demo_pks"
  by (auto simp: enumerates_def hs_demo_pks_def split: if_splits)

lemma hs_demo_distributes:
  "\<exists>p' ps. distribute_keys hs_demo (\<lambda>t. [9]) [''a'', ''b'', ''c'', ''d''] [[0], [1], [2], [3]] hs_demo_starter [0] =
     Some (p', ps) \<and> consensus_node_pks p' = hs_demo_pks"
proof -
  let ?keys = "generate_bls_keys hs_demo (\<lambda>t. [9]) [''a'', ''b'', ''c'', ''d''] (consensus_nodes hs_demo_starter)
    (hs_fault_tolerance_count (hstate hs_demo_starter))"
  have keys: "?keys = map (\<lambda>n. \<lparr>dk_number = ucast n, dk_peer_id = [n], dk_tbls_key = hs_demo_key n\<rparr>) [0, 1, 2, 3]"
    by (simp add: generate_bls_keys_def generate_keypair_set_def hs_demo_starter_def hs_default_def
        map_filter_simps upt_rec hs_demo_key_def Let_def)
  have "\<exists>q. distribute_keys_loop hs_demo ?keys hs_demo_starter [] Map.empty = Some (hs_demo_starter, q, hs_demo_pks)"
  proof -
    have "hs_peer_id hs_demo_starter = []" by (simp add: hs_demo_starter_def hs_default_def)
    then show ?thesis
      unfolding keys by (simp add: hs_chars_def hs_demo_key_def) (simp flip: hs_demo_pks_upds)
  qed
  then obtain q where loop: "distribute_keys_loop hs_demo ?keys hs_demo_starter [] Map.empty =
      Some (hs_demo_starter, q, hs_demo_pks)" ..
  let ?n = "[(0, [0]), (1, [1]), (2, [2]), (3, [3])]"
  let ?p = "hs_demo_starter\<lparr>consensus_node_pks := hs_demo_pks, pk_consensus_nodes := ?n\<rparr>"
  have "newview hs_demo ?p [0] = Some (entered ?p 1 [1],
      ContinueExecute [Unicast [1] (newview_message hs_demo ?p [0])])"
    using newview_returns [of ?p 1 "[1]" hs_demo "[1]" "[0]"]
    by (simp add: leader_of_def hs_demo_starter_def hs_default_def u64_add_def)
  moreover have "storage_pk_loop hs_demo hs_demo_pks [[0], [1], [2], [3]] (pk_consensus_nodes hs_demo_starter) = Some ?n"
    by (simp add: hs_demo_starter_def hs_default_def)
  ultimately show ?thesis
    using loop by (simp add: distribute_keys_def keys storage_consensus_node_pk_def Let_def)
qed

theorem leaders_agree_witness:
  "\<exists>p' ps r' ps'. distribute_keys hs_demo (\<lambda>t. [9]) [''a'', ''b'', ''c'', ''d''] [[0], [1], [2], [3]] hs_demo_starter [0] =
      Some (p', ps) \<and>
    hs_handle_message_type hs_demo [2] [[3], [1], [0], [2]] (hs_default '''' 2 3)
      (HsConsensusNodePKsInfo (bincode_pks hs_demo (consensus_node_pks p'))) = Some (r', ps') \<and>
    (\<forall>v. leader_of r' v = leader_of p' v) \<and> hs_primary (hstate r') = hs_primary (hstate p')"
proof -
  obtain p' ps where d: "distribute_keys hs_demo (\<lambda>t. [9]) [''a'', ''b'', ''c'', ''d'']
      [[0], [1], [2], [3]] hs_demo_starter [0] = Some (p', ps)" and pks: "consensus_node_pks p' = hs_demo_pks"
    using hs_demo_distributes by blast
  let ?n = "[(3, [3]), (1, [1]), (0, [0]), (2, [2])]"
  let ?r = "(hs_default '''' 2 3)\<lparr>consensus_node_pks := hs_demo_pks, pk_consensus_nodes := ?n\<rparr>"
  have "newview hs_demo ?r [2] = Some (entered ?r 1 [1],
      ContinueExecute [Unicast [1] (newview_message hs_demo ?r [2])])"
    using newview_returns [of ?r 1 "[1]" hs_demo "[1]" "[2]"]
    by (simp add: leader_of_def hs_default_def u64_add_def)
  moreover have rt: "from_bincode_pks hs_demo b = Some hs_demo_pks" for b by (simp add: hs_demo_def)
  ultimately obtain r' ps' where r: "hs_handle_message_type hs_demo [2] [[3], [1], [0], [2]] (hs_default '''' 2 3)
      (HsConsensusNodePKsInfo (bincode_pks hs_demo (consensus_node_pks p'))) = Some (r', ps')"
    by (simp add: storage_consensus_node_pk_def hs_default_def)
  have "pk_consensus_nodes hs_demo_starter = []" "pk_consensus_nodes (hs_default '''' 2 3) = []"
    "hs_view (hstate (hs_default '''' 2 3)) = hs_view (hstate hs_demo_starter)"
    by (simp_all add: hs_demo_starter_def hs_default_def)
  with leaders_agree [OF d _ _ _ _ r] d r pks rt hs_demo_enumerates show ?thesis by simp
qed

subsection \<open>Timeouts and reset\<close>

text \<open>Successive timeouts with no message handled in between.\<close>

fun run_timeouts :: "'a hs_ext_scheme \<Rightarrow> peer_id \<Rightarrow> nat \<Rightarrow> hs_protocol \<Rightarrow> hs_protocol option" where
  "run_timeouts E me 0 p = Some p"
| "run_timeouts E me (Suc n) p = do {
     (p1, _) \<leftarrow> view_timeout_handler E p me;
     run_timeouts E me n p1
   }"

lemma view_timeout_handler_doubles:
  assumes "view_timeout_handler E p me = Some (p', ps)"
  shows "unat (current_view_timeout (hstate p')) = 2 * unat (current_view_timeout (hstate p)) \<and>
    unat (hs_view (hstate p')) = unat (hs_view (hstate p)) + 1 \<and>
    timer_events p' = timer_events p @ [TimerSpawn (view_timeout_notify p) (view_timeout_stop_notify p)
      (current_view_timeout (hstate p')) (hs_view (hstate p'))]"
proof -
  from assms obtain d where d: "u64_mul (current_view_timeout (hstate p)) 2 = Some d"
    and nv: "newview E (p\<lparr>hstate := (hstate p)\<lparr>current_view_timeout := d\<rparr>\<rparr>) (peer_to_bytes E me) = Some (p', ps)"
    by (auto simp: view_timeout_handler_def bind_eq_Some_conv)
  from nv u64_mul_unat [OF d] show ?thesis
    by (elim newview_cases) (auto dest: u64_add_unat)
qed

text \<open>
  Every timeout without progress doubles the view timeout and moves to the next view:
  after \<open>n\<close> successive timeouts the duration is \<open>2 ^ n\<close> times the initial one and the view has
  grown by \<open>n\<close>; with the default duration of ten seconds the node can survive at most sixty
  of them, as the next doubling overflows and panics.
\<close>

theorem timeouts_double:
  assumes "run_timeouts E me n p = Some p'"
  shows "unat (current_view_timeout (hstate p')) = 2 ^ n * unat (current_view_timeout (hstate p)) \<and>
    unat (hs_view (hstate p')) = unat (hs_view (hstate p)) + n \<and>
    (current_view_timeout (hstate p) = 10 \<longrightarrow> n \<le> 60)"
proof -
  have dbl: "unat (current_view_timeout (hstate p')) = 2 ^ n * unat (current_view_timeout (hstate p)) \<and>
      unat (hs_view (hstate p')) = unat (hs_view (hstate p)) + n"
    using assms
  proof (induction n arbitrary: p)
    case (Suc n)
    then obtain p1 ps where p1: "view_timeout_handler E p me = Some (p1, ps)" "run_timeouts E me n p1 = Some p'"
      by (auto simp: bind_eq_Some_conv)
    from Suc.IH [OF p1(2)] view_timeout_handler_doubles [OF p1(1)] show ?case by simp
  qed simp
  have "n \<le> 60" if "current_view_timeout (hstate p) = 10"
  proof (rule ccontr)
    assume "\<not> n \<le> 60"
    then have "(2::nat) ^ 61 \<le> 2 ^ n" by (intro power_increasing) simp_all
    moreover have "unat (current_view_timeout (hstate p')) < 2 ^ 64"
      using unsigned_less [of "current_view_timeout (hstate p')"] by simp
    ultimately show False using dbl that by simp
  qed
  with dbl show ?thesis by blast
qed

theorem timeouts_double_witness:
  "\<exists>p'. run_timeouts hs_demo [2] 1 (hs_demo_node 2) = Some p' \<and>
     unat (current_view_timeout (hstate p')) = 20 \<and> unat (hs_view (hstate p')) = 2"
proof -
  let ?p = "(hs_demo_node 2)\<lparr>hstate := (hstate (hs_demo_node 2))\<lparr>current_view_timeout := 20\<rparr>\<rparr>"
  have "newview hs_demo ?p [2] = Some (entered ?p 2 [2], ContinueExecute [])"
    using newview_returns [of ?p 2 "[2]" hs_demo "[2]" "[2]"] by (simp add: leader_of_def)
  then have "run_timeouts hs_demo [2] 1 (hs_demo_node 2) = Some (entered ?p 2 [2])"
    by (simp add: view_timeout_handler_def u64_mul_def)
  with timeouts_double [OF this] show ?thesis by auto
qed

text \<open>
  A reset leaves the node as a fresh default object, apart from the phase names and the
  timer calls already made: no key, no node table, no log, no certificate and view zero
  survive. The notification handle the actuator registered is replaced as well, so that
  timers started afterwards do not reach it.
\<close>

theorem reset_is_default:
  "protocol_reset rnd t s p = (hs_default rnd t s)\<lparr>hs_phase_map := hs_phase_map p,
     timer_events := timer_events p @ [NotifyOne (view_timeout_stop_notify p)]\<rparr> \<and>
   timer_events (hs_view_timeout_start (protocol_reset rnd t s (init_timeout_notify p h)) v) =
     timer_events p @ [NotifyOne (view_timeout_stop_notify p), TimerSpawn t s 10 v]"
  by (simp add: protocol_reset_def hs_default_def hs_state_new_def hs_log_new_def
      hs_view_timeout_stop_def hs_view_timeout_start_def init_timeout_notify_def Let_def)

subsection \<open>What is signed\<close>

text \<open>The bytes whose digest a vote signs.\<close>

definition vote_bytes :: "'a hs_ext_scheme \<Rightarrow> u8 \<Rightarrow> u64 \<Rightarrow> block \<Rightarrow> bytes" where
  "vote_bytes E ty v b = [ty] @ to_be_bytes v @ bincode_block E b"

text \<open>
  A signed hash identifies the vote: with an injective serialization of blocks, two
  votes of known phases with the same message hash are for the same phase, view and block, or
  the bytes that were hashed for them are a collision of the digest function.
\<close>

theorem message_hash_identifies_vote:
  assumes "inj (bincode_block E)" and "ty \<le> 4" and "ty2 \<le> 4"
    and "get_message_hash E ty v b = get_message_hash E ty2 v2 b2"
  shows "ty = ty2 \<and> v = v2 \<and> b = b2 \<or>
    vote_bytes E ty v b \<noteq> vote_bytes E ty2 v2 b2 \<and>
    get_hash_str E (vote_bytes E ty v b) = get_hash_str E (vote_bytes E ty2 v2 b2)"
proof (cases "vote_bytes E ty v b = vote_bytes E ty2 v2 b2")
  case True
  with assms(1) show ?thesis by (auto simp: vote_bytes_def append_eq_append_conv dest: injD)
next
  case False
  moreover from assms have "get_hash_str E (vote_bytes E ty v b) = get_hash_str E (vote_bytes E ty2 v2 b2)"
    by (auto simp: get_message_hash_def vote_bytes_def simp flip: not_less)
  ultimately show ?thesis by blast
qed

text \<open>An instance with an injective serialization of blocks and a constant digest.\<close>

fun escaped :: "bytes \<Rightarrow> bytes" where
  "escaped [] = [0]"
| "escaped (b # bs) = 1 # b # escaped bs"

lemma escaped_append_inject: "escaped a @ x = escaped b @ y \<Longrightarrow> a = b \<and> x = y"
proof (induction a arbitrary: b)
  case Nil
  then show ?case by (cases b) simp_all
next
  case (Cons c a)
  then show ?case by (cases b) auto
qed

definition hs_collision_demo :: hs_ext where
  "hs_collision_demo = hs_demo\<lparr>sha3_256_hex := (\<lambda>b. []),
     bincode_block := (\<lambda>b. escaped (as_bytes (block_cmd b)) @ as_bytes (parent_hash b))\<rparr>"

lemma hs_collision_demo_inj: "inj (bincode_block hs_collision_demo)"
proof (rule injI)
  fix x y assume "bincode_block hs_collision_demo x = bincode_block hs_collision_demo y"
  then have "block_cmd x = block_cmd y \<and> parent_hash x = parent_hash y"
    by (auto simp: hs_collision_demo_def dest: escaped_append_inject)
  then show "x = y" by simp
qed

theorem message_hash_identifies_vote_witness:
  "get_message_hash hs_collision_demo PREPARE 1 hs_demo_block = get_message_hash hs_collision_demo COMMIT 2 hs_demo_block \<and>
   vote_bytes hs_collision_demo PREPARE 1 hs_demo_block \<noteq> vote_bytes hs_collision_demo COMMIT 2 hs_demo_block"
proof -
  have "get_message_hash hs_collision_demo PREPARE 1 hs_demo_block = get_message_hash hs_collision_demo COMMIT 2 hs_demo_block"
    by (simp add: get_message_hash_def get_hash_str_def hs_collision_demo_def PREPARE_def COMMIT_def)
  with message_hash_identifies_vote [OF hs_collision_demo_inj _ _ this] show ?thesis
    by (simp add: PREPARE_def COMMIT_def)
qed

end
