(* ===== verification/Interactive_Messages.thy ===== *)
theory Interactive_Messages
  imports Framework_Messages
begin

text \<open>
  The messages that controller, analyzer and consensus nodes exchange
  (\<open>components/src/message.rs\<close>) and the node modes they carry
  (\<open>components/src/protocol_actuator.rs\<close>).
\<close>

datatype configure_state = First | Other

datatype malicious_mode =
    ModeLeaderFeignDeath u64 u8
  | ModeLeaderSendAmbiguousMessage u64 u8 "string list" u16
  | ModeLeaderDelaySendMessage u64 u8
  | ModeLeaderSendDuplicateMessages u64 u8
  | ModeReplicaNodeConspireForgeMessages u64 u8 "string list" request

datatype consensus_node_mode =
    ModeUninitialized
  | ModeHonest configure_state
  | ModeDishonest malicious_mode
  | ModeCrash u64

datatype component =
    Controller bytes
  | Analyzer bytes
  | ConsensusNode bytes

datatype interactive_message =
    ComponentInfo component
  | TestItem test_item
  | StartTest u64
  | CompletedTest test_item
  | CrashNode u16 "bytes option"
  | DishonestNode bytes
  | JoinConsensus u64
  | JoinConsensusSuccess
  | MaliciousTestPreparation
  | ConsensusPhase u8 bytes
  | ConfigureConsensusNode configure_state
  | ConfigureConsensusNodeSuccess configure_state
  | ConsensusNodeMode consensus_node_mode
  | ConsensusNodeModeSuccess consensus_node_mode
  | ProtocolStart u64
  | Reset u64
  | ResetSuccess consensus_node_mode
  | MakeAConsensusRequest request
  | MakeConsensusRequests "request list"

record message =
  interactive :: interactive_message
  source :: bytes

text \<open>
  The coding of what the components exchange, \<open>coder::serialize_into_bytes\<close> (bincode) on
  messages and \<open>coder::serialize_into_json_bytes\<close> (serde_json) on running data.
\<close>

record msg_ext = ext +
  bincode_message :: "message \<Rightarrow> bytes"
  from_bincode_message :: "bytes \<Rightarrow> message option"
  json_consensus_data :: "consensus_data \<Rightarrow> bytes"
  from_json_consensus_data :: "bytes \<Rightarrow> consensus_data option"

text \<open>
  What a component asks of the network and of the tokio runtime, recorded as a trace in its
  state. A timer task waits and then notifies the event loop of the component.
\<close>

datatype effect =
    SendMessage peer_id bytes
  | Publish string bytes
  | Subscribe string
  | Unsubscribe string
  | AddPeer peer_id
  | RemovePeer peer_id
  | PerformanceTimer u64 u64
  | CrashTimer u64
  | MaliciousTimer u64
  | ConspireTimer u64

text \<open>Documented behaviour of the coders: decoding inverts encoding. A theorem asks for it at single messages.\<close>

definition decodes :: "'a msg_ext_scheme \<Rightarrow> message \<Rightarrow> bool" where
  "decodes E m \<longleftrightarrow> from_bincode_message E (bincode_message E m) = Some m"

definition decodes_data :: "'a msg_ext_scheme \<Rightarrow> consensus_data \<Rightarrow> bool" where
  "decodes_data E d \<longleftrightarrow> from_json_consensus_data E (json_consensus_data E d) = Some d"

text \<open>Two components use the same coding and the same peer identifiers.\<close>

definition same_coding :: "'a msg_ext_scheme \<Rightarrow> 'b msg_ext_scheme \<Rightarrow> bool" where
  "same_coding E D \<longleftrightarrow> msg_ext.truncate E = msg_ext.truncate D"

lemma same_codingD:
  assumes "same_coding E D"
  shows "bincode_message E = bincode_message D" "from_bincode_message E = from_bincode_message D"
    "json_consensus_data E = json_consensus_data D" "from_json_consensus_data E = from_json_consensus_data D"
    "peer_to_bytes E = peer_to_bytes D" "peer_from_bytes E = peer_from_bytes D" "peer_to_string E = peer_to_string D"
  using assms by (auto simp: same_coding_def msg_ext.truncate_def)

end
