(* ===== verification/Rust_F64.thy ===== *)
theory Rust_F64
  imports Prelude "HOL-Library.Log_Nat" Complex_Main
begin

text \<open>
  The part of Rust's \<open>f64\<close> arithmetic that the throughput computation uses: non-negative
  values, rounded to the nearest 53-bit significand with ties to even, and the saturating
  conversion to \<open>u64\<close>. A finite value is a fraction of naturals. The operands lie far inside
  the range of normal numbers, so that exponents need no bound.
\<close>

datatype f64 = Finite nat nat | Infinity | NaN

definition round_half_even :: "nat \<Rightarrow> nat \<Rightarrow> nat" where
  "round_half_even a b =
     (let q = a div b; r = a mod b
      in if 2 * r < b then q else if b < 2 * r then Suc q else if even q then q else Suc q)"

text \<open>The fraction \<open>a / b\<close> times \<open>2 ^ s\<close>.\<close>

definition scaled :: "nat \<Rightarrow> nat \<Rightarrow> int \<Rightarrow> nat \<times> nat" where
  "scaled a b s = (if 0 \<le> s then (a * 2 ^ nat s, b) else (a, b * 2 ^ nat (- s)))"

text \<open>The scale that brings \<open>a / b\<close> between \<open>2 ^ 52\<close> and \<open>2 ^ 53\<close>.\<close>

definition f64_exponent :: "nat \<Rightarrow> nat \<Rightarrow> int" where
  "f64_exponent a b =
     (let s = 53 + int (floorlog 2 b) - int (floorlog 2 a)
      in case scaled a b s of (x, y) \<Rightarrow> if 2 ^ 53 * y \<le> x then s - 1 else s)"

definition f64_round :: "nat \<Rightarrow> nat \<Rightarrow> f64" where
  "f64_round a b =
     (if a = 0 then Finite 0 1
      else let s = f64_exponent a b
           in case scaled a b s of (x, y) \<Rightarrow>
                case scaled (round_half_even x y) 1 (- s) of (p, q) \<Rightarrow> Finite p q)"

definition f64_of_u64 :: "u64 \<Rightarrow> f64" where
  "f64_of_u64 w = f64_round (unat w) 1"

fun f64_mul :: "f64 \<Rightarrow> f64 \<Rightarrow> f64" where
  "f64_mul (Finite a b) (Finite c d) = f64_round (a * c) (b * d)"
| "f64_mul (Finite a b) Infinity = (if a = 0 then NaN else Infinity)"
| "f64_mul Infinity (Finite a b) = (if a = 0 then NaN else Infinity)"
| "f64_mul Infinity Infinity = Infinity"
| "f64_mul NaN y = NaN"
| "f64_mul x NaN = NaN"

fun f64_div :: "f64 \<Rightarrow> f64 \<Rightarrow> f64" where
  "f64_div (Finite a b) (Finite c d) =
     (if c = 0 then (if a = 0 then NaN else Infinity) else f64_round (a * d) (b * c))"
| "f64_div (Finite a b) Infinity = Finite 0 1"
| "f64_div Infinity (Finite a b) = Infinity"
| "f64_div Infinity Infinity = NaN"
| "f64_div NaN y = NaN"
| "f64_div x NaN = NaN"

fun f64_as_u64 :: "f64 \<Rightarrow> u64" where
  "f64_as_u64 (Finite a b) = (if a div b < 2 ^ 64 then of_nat (a div b) else - 1)"
| "f64_as_u64 Infinity = - 1"
| "f64_as_u64 NaN = 0"

subsection \<open>Accuracy\<close>

text \<open>The value of a finite number, and the relative error of one rounding.\<close>

fun f64_val :: "f64 \<Rightarrow> real" where
  "f64_val (Finite a b) = real a / real b"
| "f64_val _ = 0"

fun f64_ok :: "f64 \<Rightarrow> bool" where
  "f64_ok (Finite a b) \<longleftrightarrow> 0 < b"
| "f64_ok _ \<longleftrightarrow> False"

definition close :: "real \<Rightarrow> real \<Rightarrow> bool" where
  "close y x \<longleftrightarrow> \<bar>y - x\<bar> \<le> x / 2 ^ 53"

lemma round_half_even_error:
  assumes "0 < b"
  shows "\<bar>real (round_half_even a b) - real a / real b\<bar> \<le> 1 / 2"
proof -
  let ?q = "a div b" and ?r = "a mod b"
  have "real a = real b * real ?q + real ?r"
    by (simp flip: of_nat_mult of_nat_add)
  with assms have v: "real a / real b = real ?q + real ?r / real b" by (simp add: field_simps)
  have r: "0 \<le> real ?r / real b" "real ?r / real b < 1" using assms by simp_all
  consider "2 * ?r < b" | "b < 2 * ?r" | "2 * ?r = b" by linarith
  then show ?thesis
  proof cases
    case 1
    then have "real ?r / real b \<le> 1 / 2" using assms by (simp add: field_simps flip: of_nat_mult)
    with 1 v r show ?thesis by (simp add: round_half_even_def Let_def)
  next
    case 2
    then have "1 / 2 \<le> real ?r / real b" using assms by (simp add: field_simps flip: of_nat_mult)
    with 2 v r show ?thesis by (simp add: round_half_even_def Let_def)
  next
    case 3
    then have "real b = 2 * real ?r" by (metis of_nat_mult of_nat_numeral)
    with assms have "real ?r / real b = 1 / 2" by simp
    with 3 v show ?thesis by (simp add: round_half_even_def Let_def)
  qed
qed

lemma scaled_value:
  assumes "scaled a b s = (x, y)" and "0 < b"
  shows "0 < y \<and> real x / real y = real a / real b * 2 powr s"
proof (cases "0 \<le> s")
  case True
  then have "2 powr s = 2 ^ nat s" by (simp flip: powr_realpow)
  with True assms show ?thesis by (auto simp: scaled_def)
next
  case False
  then have "2 powr s = 1 / 2 ^ nat (- s)"
    by (simp add: powr_minus_divide flip: powr_realpow)
  with False assms show ?thesis by (auto simp: scaled_def)
qed

lemma f64_exponent_value:
  assumes "scaled a b (f64_exponent a b) = (x, y)" and "0 < a" and "0 < b"
  shows "2 ^ 52 \<le> real x / real y"
proof -
  let ?s = "53 + int (floorlog 2 b) - int (floorlog 2 a)"
  obtain u v where uv: "scaled a b ?s = (u, v)" by (cases "scaled a b ?s")
  note val = scaled_value [OF uv assms(3)]
  have "real b < 2 ^ floorlog 2 b" using floorlog_bounds [of b 2] assms(3) by (simp flip: of_nat_power)
  then have b: "real b < 2 powr floorlog 2 b" by (simp add: powr_realpow)
  have "2 ^ (floorlog 2 a - 1) \<le> a" using floorlog_bounds [of a 2] assms(2) by simp
  then have "2 ^ (floorlog 2 a - 1) \<le> real a" by (simp flip: of_nat_power)
  moreover have "0 < floorlog 2 a" using assms(2) by (simp add: floorlog_def)
  ultimately have a: "2 powr (real (floorlog 2 a) - 1) \<le> real a"
    by (simp add: of_nat_diff flip: powr_realpow)
  have "2 powr (real (floorlog 2 a) - 1) / 2 powr floorlog 2 b \<le> real a / real b"
    using a b assms by (intro frac_le) simp_all
  then have "2 powr (real (floorlog 2 a) - 1) / 2 powr floorlog 2 b * 2 powr ?s \<le> real u / real v"
    unfolding val [THEN conjunct2] by (rule mult_right_mono) simp
  moreover have "2 powr (real (floorlog 2 a) - 1) / 2 powr floorlog 2 b * 2 powr ?s = 2 powr 52"
    by (simp flip: powr_diff powr_add)
  ultimately have low: "2 ^ 52 \<le> real u / real v" by (simp add: powr_realpow flip: powr_numeral)
  show ?thesis
  proof (cases "2 ^ 53 * v \<le> u")
    case False
    with uv assms(1) low show ?thesis by (simp add: f64_exponent_def Let_def)
  next
    case True
    with uv assms(1) have "scaled a b (?s - 1) = (x, y)" by (simp add: f64_exponent_def Let_def)
    note xy = scaled_value [OF this assms(3)]
    have half: "(2::real) powr real_of_int (t - 1) = 2 powr real_of_int t / 2" for t
      by (simp add: powr_diff)
    have "real x / real y = real u / real v / 2"
      unfolding xy [THEN conjunct2] val [THEN conjunct2] half by simp
    moreover have "2 ^ 53 * real v \<le> real u"
      using True by (metis of_nat_le_iff of_nat_mult of_nat_numeral of_nat_power)
    then have "2 ^ 53 \<le> real u / real v" using val [THEN conjunct1] by (simp add: field_simps)
    ultimately show ?thesis by simp
  qed
qed

lemma f64_round_close:
  assumes "0 < b"
  shows "f64_ok (f64_round a b) \<and> close (f64_val (f64_round a b)) (real a / real b)"
proof (cases "a = 0")
  case True
  then show ?thesis by (simp add: f64_round_def close_def)
next
  case False
  let ?s = "f64_exponent a b"
  obtain x y where xy: "scaled a b ?s = (x, y)" by (cases "scaled a b ?s")
  let ?m = "round_half_even x y"
  obtain p q where pq: "scaled ?m 1 (- ?s) = (p, q)" by (cases "scaled ?m 1 (- ?s)")
  have r: "f64_round a b = Finite p q" using False xy pq by (simp add: f64_round_def)
  note v = scaled_value [OF xy assms]
  from scaled_value [OF pq] have w: "0 < q" "real p / real q = real ?m * 2 powr - ?s" by simp_all
  have "2 powr ?s * 2 powr - ?s = (1::real)" by (simp flip: powr_add)
  with v have ab: "real a / real b = real x / real y * 2 powr - ?s" by (simp add: field_simps)
  have "\<bar>real p / real q - real a / real b\<bar> = \<bar>real ?m - real x / real y\<bar> * 2 powr - ?s"
    unfolding w(2) ab left_diff_distrib [symmetric] abs_mult by simp
  also have "\<dots> \<le> 1 / 2 * 2 powr - ?s"
    using round_half_even_error [of y x] v by (intro mult_right_mono) simp_all
  also have "\<dots> \<le> real x / real y / 2 ^ 53 * 2 powr - ?s"
    using f64_exponent_value [OF xy _ assms] False by (intro mult_right_mono) simp_all
  also have "\<dots> = real a / real b / 2 ^ 53" unfolding ab by simp
  finally show ?thesis using w r by (simp add: close_def)
qed

end
