(* ===== verification/Data_Warehouse.thy ===== *)
theory Data_Warehouse
  imports Interactive_Messages Rust_F64
begin

text \<open>
  The analyzer's store of protocol running data (\<open>components/src/analyzer/data_warehouse.rs\<close>).
  A hash map is a map; where the code iterates over one, the definition takes the iteration
  order as an argument. The statements sent to MySQL are kept as a trace; whether the
  database accepts a statement, and what a query returns, are third-party functions, and a
  refused statement panics (\<open>None\<close>).
\<close>

subsection \<open>Data\<close>

text \<open>
  A statement names the table and the values bound to its columns; the column \<open>item\<close> holds
  the display form of the test item, kept here as the item itself.
\<close>

datatype db_statement =
    DropTable string
  | CreateTable string
  | InsertThroughput u64 string u64
  | InsertLatency string string u64
  | InsertScalabilityItem test_item
  | InsertScalabilityThroughput test_item u64 string u64
  | InsertScalabilityLatency test_item string string u64

record dw_ext = msg_ext +
  mysql_accepts :: "db_statement list \<Rightarrow> db_statement \<Rightarrow> bool"
  mysql_throughput :: "db_statement list \<Rightarrow> u64 \<Rightarrow> u64 \<Rightarrow> (u64 \<times> string \<times> u64) list option"
  mysql_latency :: "db_statement list \<Rightarrow> u64 \<Rightarrow> u64 \<Rightarrow> (string \<times> string \<times> u64) list option"
  mysql_items :: "db_statement list \<Rightarrow> string list option"
  mysql_scalability_throughput ::
    "db_statement list \<Rightarrow> string \<Rightarrow> u64 \<Rightarrow> u64 \<Rightarrow> (u64 \<times> string \<times> u64) list option"
  mysql_scalability_latency ::
    "db_statement list \<Rightarrow> string \<Rightarrow> u64 \<Rightarrow> u64 \<Rightarrow> (string \<times> string \<times> u64) list option"

record latency_result =
  lr_request :: request
  lr_latency :: u64

record scalability_result =
  sr_throughput :: u64
  sr_latency_results :: "latency_result list"

type_synonym security_result = "request list"

record data_warehouse =
  test_start_time :: u64
  mysql_trace :: "db_statement list"
  t_start_data :: "string \<rightharpoonup> consensus_start_data"
  t_end_data :: "peer_id \<times> string \<rightharpoonup> consensus_end_data"
  t_start_data_computing :: "string \<rightharpoonup> consensus_start_data"
  t_end_data_computing :: "peer_id \<times> string \<rightharpoonup> consensus_end_data"
  throughput_mid_results :: "peer_id \<rightharpoonup> u64"
  throughput_results :: "u64 \<times> peer_id \<rightharpoonup> u64"
  l_start_data :: "string \<rightharpoonup> consensus_start_data"
  l_end_data :: "peer_id \<times> string \<rightharpoonup> consensus_end_data"
  l_start_data_computing :: "string \<rightharpoonup> consensus_start_data"
  l_end_data_computing :: "peer_id \<times> string \<rightharpoonup> consensus_end_data"
  latency_results :: "peer_id \<rightharpoonup> latency_result list"
  scalability_mid_throughputs :: "peer_id \<rightharpoonup> u64"
  scalability_mid_latencies :: "peer_id \<rightharpoonup> latency_result list"
  scalability_throughput_results :: "test_item \<rightharpoonup> (u64 \<times> peer_id \<times> u64) list"
  scalability_latency_results :: "test_item \<rightharpoonup> (peer_id \<times> request \<times> u64) list"
  scalability_results :: "u16 \<rightharpoonup> (peer_id \<rightharpoonup> scalability_result)"
  s_start_data :: "string \<rightharpoonup> consensus_start_data"
  s_end_data :: "peer_id \<times> string \<rightharpoonup> consensus_end_data"
  crash_nodes :: "u16 \<rightharpoonup> peer_id list"
  crash_results_map :: "u16 \<rightharpoonup> (peer_id \<rightharpoonup> security_result)"
  malicious_results :: "test_item \<rightharpoonup> (peer_id \<rightharpoonup> security_result)"
  internal_round :: u64
  throughput_internal :: u64

definition data_warehouse_new :: data_warehouse where
  "data_warehouse_new = \<lparr>
     test_start_time = 0, mysql_trace = [],
     t_start_data = Map.empty, t_end_data = Map.empty,
     t_start_data_computing = Map.empty, t_end_data_computing = Map.empty,
     throughput_mid_results = Map.empty, throughput_results = Map.empty,
     l_start_data = Map.empty, l_end_data = Map.empty,
     l_start_data_computing = Map.empty, l_end_data_computing = Map.empty,
     latency_results = Map.empty, scalability_mid_throughputs = Map.empty,
     scalability_mid_latencies = Map.empty, scalability_throughput_results = Map.empty,
     scalability_latency_results = Map.empty, scalability_results = Map.empty,
     s_start_data = Map.empty, s_end_data = Map.empty, crash_nodes = Map.empty,
     crash_results_map = Map.empty, malicious_results = Map.empty,
     internal_round = 0, throughput_internal = 0\<rparr>"

subsection \<open>The database\<close>

definition exec_drop :: "'a dw_ext_scheme \<Rightarrow> data_warehouse \<Rightarrow> db_statement \<Rightarrow> data_warehouse option" where
  "exec_drop E w stmt =
     (if mysql_accepts E (mysql_trace w) stmt then Some (w\<lparr>mysql_trace := mysql_trace w @ [stmt]\<rparr>) else None)"

text \<open>The result of dropping a table is ignored (\<open>.ok()\<close>).\<close>

definition drop_tables :: "data_warehouse \<Rightarrow> data_warehouse" where
  "drop_tables w = w\<lparr>mysql_trace := mysql_trace w @ map DropTable
     [''throughput_results'', ''latency_results'', ''scalability_items'',
      ''scalability_throughput_results'', ''scalability_latency_results'']\<rparr>"

definition create_result_tables :: "'a dw_ext_scheme \<Rightarrow> data_warehouse \<Rightarrow> data_warehouse option" where
  "create_result_tables E w = do {
     w1 \<leftarrow> exec_drop E (drop_tables w) (CreateTable ''throughput_results'');
     w2 \<leftarrow> exec_drop E w1 (CreateTable ''latency_results'');
     w3 \<leftarrow> exec_drop E w2 (CreateTable ''scalability_items'');
     w4 \<leftarrow> exec_drop E w3 (CreateTable ''scalability_throughput_results'');
     exec_drop E w4 (CreateTable ''scalability_latency_results'')
   }"

definition insert_throughput_result ::
    "'a dw_ext_scheme \<Rightarrow> data_warehouse \<Rightarrow> u64 \<Rightarrow> peer_id \<Rightarrow> u64 \<Rightarrow> data_warehouse option" where
  "insert_throughput_result E w rnd peer_id throughput =
     exec_drop E w (InsertThroughput rnd (peer_to_string E peer_id) throughput)"

definition insert_latency_result ::
    "'a dw_ext_scheme \<Rightarrow> data_warehouse \<Rightarrow> peer_id \<Rightarrow> request \<Rightarrow> u64 \<Rightarrow> data_warehouse option" where
  "insert_latency_result E w peer_id request latency =
     exec_drop E w (InsertLatency (peer_to_string E peer_id) (cmd request) latency)"

definition insert_scalability_item ::
    "'a dw_ext_scheme \<Rightarrow> data_warehouse \<Rightarrow> test_item \<Rightarrow> data_warehouse option" where
  "insert_scalability_item E w item = exec_drop E w (InsertScalabilityItem item)"

definition insert_scalability_throughput_result ::
    "'a dw_ext_scheme \<Rightarrow> data_warehouse \<Rightarrow> test_item \<Rightarrow> u64 \<Rightarrow> peer_id \<Rightarrow> u64 \<Rightarrow> data_warehouse option" where
  "insert_scalability_throughput_result E w item rnd peer_id throughput =
     exec_drop E w (InsertScalabilityThroughput item rnd (peer_to_string E peer_id) throughput)"

definition insert_scalability_latency_result ::
    "'a dw_ext_scheme \<Rightarrow> data_warehouse \<Rightarrow> test_item \<Rightarrow> peer_id \<Rightarrow> request \<Rightarrow> u64 \<Rightarrow> data_warehouse option" where
  "insert_scalability_latency_result E w item peer_id request latency =
     exec_drop E w (InsertScalabilityLatency item (peer_to_string E peer_id) (cmd request) latency)"

text \<open>A failing query is an empty result.\<close>

definition rows_of :: "'r list option \<Rightarrow> 'r list" where
  "rows_of results = (case results of None \<Rightarrow> [] | Some rows \<Rightarrow> rows)"

definition query_throughput_results ::
    "'a dw_ext_scheme \<Rightarrow> data_warehouse \<Rightarrow> u64 \<Rightarrow> u64 \<Rightarrow> (u64 \<times> string \<times> u64) list" where
  "query_throughput_results E w start count = rows_of (mysql_throughput E (mysql_trace w) start count)"

definition query_latency_results ::
    "'a dw_ext_scheme \<Rightarrow> data_warehouse \<Rightarrow> u64 \<Rightarrow> u64 \<Rightarrow> (string \<times> request \<times> u64) list" where
  "query_latency_results E w start count =
     map (\<lambda>(peer_id, request_cmd, latency). (peer_id, \<lparr>cmd = request_cmd\<rparr>, latency))
       (rows_of (mysql_latency E (mysql_trace w) start count))"

definition query_scalability_items :: "'a dw_ext_scheme \<Rightarrow> data_warehouse \<Rightarrow> string list" where
  "query_scalability_items E w = rows_of (mysql_items E (mysql_trace w))"

definition query_scalability_throughput_results ::
    "'a dw_ext_scheme \<Rightarrow> data_warehouse \<Rightarrow> string \<Rightarrow> u64 \<Rightarrow> u64 \<Rightarrow> (u64 \<times> string \<times> u64) list" where
  "query_scalability_throughput_results E w item start count =
     rows_of (mysql_scalability_throughput E (mysql_trace w) item start count)"

definition query_scalability_latency_results ::
    "'a dw_ext_scheme \<Rightarrow> data_warehouse \<Rightarrow> string \<Rightarrow> u64 \<Rightarrow> u64 \<Rightarrow> (string \<times> request \<times> u64) list" where
  "query_scalability_latency_results E w item start count =
     map (\<lambda>(peer_id, request_cmd, latency). (peer_id, \<lparr>cmd = request_cmd\<rparr>, latency))
       (rows_of (mysql_scalability_latency E (mysql_trace w) item start count))"

subsection \<open>Printing the results\<close>

text \<open>
  The paging loop of the print functions, over the query with a start and a count. It
  returns the printed rows and the printed total; a database that always fills a page makes
  it run until \<open>start\<close> overflows.
\<close>

partial_function (option) print_pages ::
    "(u64 \<Rightarrow> u64 \<Rightarrow> 'r list) \<Rightarrow> u64 \<Rightarrow> 'r list \<Rightarrow> ('r list \<times> u64) option" where
  "print_pages query start printed =
     (let results = query start 100; count = length results
      in if 100 > count
         then Option.bind (u64_add start (of_nat count)) (\<lambda>total. Some (printed @ results, total))
         else Option.bind (u64_add start 100) (\<lambda>start1. print_pages query start1 (printed @ results)))"

definition print_throughput_results ::
    "'a dw_ext_scheme \<Rightarrow> data_warehouse \<Rightarrow> ((u64 \<times> string \<times> u64) list \<times> u64) option" where
  "print_throughput_results E w = print_pages (query_throughput_results E w) 0 []"

definition print_latency_results ::
    "'a dw_ext_scheme \<Rightarrow> data_warehouse \<Rightarrow> ((string \<times> request \<times> u64) list \<times> u64) option" where
  "print_latency_results E w = print_pages (query_latency_results E w) 0 []"

fun print_items :: "(string \<Rightarrow> ('r list \<times> u64) option) \<Rightarrow> string list \<Rightarrow> (string \<times> 'r list \<times> u64) list option" where
  "print_items print_item [] = Some []"
| "print_items print_item (item # items) = do {
     (rows, total) \<leftarrow> print_item item;
     rest \<leftarrow> print_items print_item items;
     Some ((item, rows, total) # rest)
   }"

definition print_scalability_throughput_results ::
    "'a dw_ext_scheme \<Rightarrow> data_warehouse \<Rightarrow> (string \<times> (u64 \<times> string \<times> u64) list \<times> u64) list option" where
  "print_scalability_throughput_results E w =
     print_items (\<lambda>item. print_pages (query_scalability_throughput_results E w item) 0 [])
       (query_scalability_items E w)"

definition print_scalability_latency_results ::
    "'a dw_ext_scheme \<Rightarrow> data_warehouse \<Rightarrow> (string \<times> (string \<times> request \<times> u64) list \<times> u64) list option" where
  "print_scalability_latency_results E w =
     print_items (\<lambda>item. print_pages (query_scalability_latency_results E w item) 0 [])
       (query_scalability_items E w)"

subsection \<open>Storing data\<close>

text \<open>
  \<open>order\<close> is the iteration order of \<open>crash_nodes\<close>; \<open>iter().last()\<close> is its last key.
\<close>

definition record_crash_node :: "u16 list \<Rightarrow> data_warehouse \<Rightarrow> u16 \<Rightarrow> peer_id \<Rightarrow> data_warehouse option" where
  "record_crash_node order w count peer_id =
     (if 0 \<noteq> length order
      then do {
        last_one \<leftarrow> crash_nodes w (last order);
        Some (w\<lparr>crash_nodes := (crash_nodes w)(count \<mapsto> last_one @ [peer_id])\<rparr>)
      }
      else Some (w\<lparr>crash_nodes := (crash_nodes w)(count \<mapsto> [peer_id])\<rparr>))"

definition set_test_start_time :: "data_warehouse \<Rightarrow> u64 \<Rightarrow> data_warehouse" where
  "set_test_start_time w t = w\<lparr>test_start_time := t\<rparr>"

definition set_throughput_internal :: "data_warehouse \<Rightarrow> u64 \<Rightarrow> data_warehouse" where
  "set_throughput_internal w internal = w\<lparr>throughput_internal := internal\<rparr>"

definition store_consensus_start_data ::
    "'a ext_scheme \<Rightarrow> data_warehouse \<Rightarrow> peer_id \<Rightarrow> consensus_start_data \<Rightarrow> data_warehouse" where
  "store_consensus_start_data E w origin_peer_id data =
     (let request_hash = get_request_hash E (start_request data)
      in w\<lparr>t_start_data := (t_start_data w)(request_hash \<mapsto> data),
           l_start_data := (l_start_data w)(request_hash \<mapsto> data),
           s_start_data := (s_start_data w)(request_hash \<mapsto> data)\<rparr>)"

definition store_consensus_end_data ::
    "'a ext_scheme \<Rightarrow> data_warehouse \<Rightarrow> peer_id \<Rightarrow> consensus_end_data \<Rightarrow> data_warehouse" where
  "store_consensus_end_data E w origin_peer_id data =
     (let request_hash = get_request_hash E (end_request data)
      in w\<lparr>t_end_data := (t_end_data w)((origin_peer_id, request_hash) \<mapsto> data),
           l_end_data := (l_end_data w)((origin_peer_id, request_hash) \<mapsto> data),
           s_end_data := (s_end_data w)((origin_peer_id, request_hash) \<mapsto> data)\<rparr>)"

definition prepare_compute_throughput :: "data_warehouse \<Rightarrow> data_warehouse" where
  "prepare_compute_throughput w =
     w\<lparr>t_start_data_computing := t_start_data w, t_start_data := Map.empty,
       t_end_data_computing := t_end_data w, t_end_data := Map.empty\<rparr>"

definition prepare_compute_latency :: "data_warehouse \<Rightarrow> data_warehouse" where
  "prepare_compute_latency w =
     w\<lparr>l_start_data_computing := l_start_data w, l_start_data := Map.empty,
       l_end_data_computing := l_end_data w, l_end_data := Map.empty\<rparr>"

subsection \<open>Throughput\<close>

definition update_request_count_with_peer :: "data_warehouse \<Rightarrow> peer_id \<Rightarrow> data_warehouse option" where
  "update_request_count_with_peer w peer_id =
     (case throughput_mid_results w peer_id of
        Some count \<Rightarrow> do {
          count1 \<leftarrow> u64_add count 1;
          Some (w\<lparr>throughput_mid_results := (throughput_mid_results w)(peer_id \<mapsto> count1)\<rparr>)
        }
      | None \<Rightarrow> Some (w\<lparr>throughput_mid_results := (throughput_mid_results w)(peer_id \<mapsto> 1)\<rparr>))"

text \<open>The first loop: \<open>ks\<close> are the keys of the cloned end data in iteration order.\<close>

fun count_loop :: "(peer_id \<times> string) list \<Rightarrow> data_warehouse \<Rightarrow> data_warehouse option" where
  "count_loop [] w = Some w"
| "count_loop (k # ks) w =
     (case t_start_data_computing w (snd k) of
        Some _ \<Rightarrow> do {
          w1 \<leftarrow> update_request_count_with_peer w (fst k);
          count_loop ks (w1\<lparr>t_end_data_computing := (t_end_data_computing w1)(k := None)\<rparr>)
        }
      | None \<Rightarrow> count_loop ks w)"

definition throughput_of :: "u64 \<Rightarrow> u64 \<Rightarrow> u64 \<Rightarrow> u64 option" where
  "throughput_of count rnd internal = do {
     elapsed \<leftarrow> u64_mul rnd internal;
     Some (f64_as_u64 (f64_div (f64_of_u64 count) (f64_mul (f64_round 1 1000) (f64_of_u64 elapsed))))
   }"

text \<open>The second loop: one inserted row per counted peer; \<open>ins\<close> is the insert operation.\<close>

fun throughput_rows :: "(data_warehouse \<Rightarrow> u64 \<Rightarrow> peer_id \<Rightarrow> u64 \<Rightarrow> data_warehouse option) \<Rightarrow> u64 \<Rightarrow>
    (peer_id \<rightharpoonup> u64) \<Rightarrow> peer_id list \<Rightarrow> data_warehouse \<Rightarrow> data_warehouse option" where
  "throughput_rows ins index mid [] w = Some w"
| "throughput_rows ins index mid (peer_id # peers) w =
     (case mid peer_id of
        None \<Rightarrow> throughput_rows ins index mid peers w
      | Some count \<Rightarrow> do {
          throughput \<leftarrow> throughput_of count (internal_round w) (throughput_internal w);
          w1 \<leftarrow> ins w index peer_id throughput;
          throughput_rows ins index mid peers w1
        })"

definition rewrite_throughput_data :: "data_warehouse \<Rightarrow> data_warehouse" where
  "rewrite_throughput_data w =
     w\<lparr>t_start_data := t_start_data w ++ t_start_data_computing w,
       t_end_data := t_end_data w ++ t_end_data_computing w,
       t_start_data_computing := Map.empty, t_end_data_computing := Map.empty\<rparr>"

text \<open>
  The common body of \<open>compute_throughput\<close> and \<open>compute_scalability_throughput\<close>, which differ
  in the insert operation; \<open>ends\<close> and \<open>peers\<close> are the two iteration orders.
\<close>

definition compute_throughput_with ::
    "(data_warehouse \<Rightarrow> u64 \<Rightarrow> peer_id \<Rightarrow> u64 \<Rightarrow> data_warehouse option) \<Rightarrow>
     (peer_id \<times> string) list \<Rightarrow> peer_id list \<Rightarrow> data_warehouse \<Rightarrow> data_warehouse option" where
  "compute_throughput_with ins ends peers w = do {
     w1 \<leftarrow> count_loop ends (prepare_compute_throughput w);
     let index = internal_round w1;
     next \<leftarrow> u64_add (internal_round w1) 1;
     let w2 = w1\<lparr>internal_round := next\<rparr>;
     w3 \<leftarrow> throughput_rows ins index (throughput_mid_results w2) peers w2;
     Some (rewrite_throughput_data w3)
   }"

definition compute_throughput ::
    "'a dw_ext_scheme \<Rightarrow> (peer_id \<times> string) list \<Rightarrow> peer_id list \<Rightarrow> data_warehouse \<Rightarrow> data_warehouse option" where
  "compute_throughput E ends peers w = compute_throughput_with (insert_throughput_result E) ends peers w"

definition compute_scalability_throughput ::
    "'a dw_ext_scheme \<Rightarrow> (peer_id \<times> string) list \<Rightarrow> peer_id list \<Rightarrow> data_warehouse \<Rightarrow> test_item \<Rightarrow>
     data_warehouse option" where
  "compute_scalability_throughput E ends peers w item =
     compute_throughput_with (\<lambda>w. insert_scalability_throughput_result E w item) ends peers w"

subsection \<open>Latency\<close>

fun latency_loop :: "'a dw_ext_scheme \<Rightarrow> (peer_id \<times> string \<rightharpoonup> consensus_end_data) \<Rightarrow>
    (peer_id \<times> string) list \<Rightarrow> data_warehouse \<Rightarrow> data_warehouse option" where
  "latency_loop E data_computing [] w = Some w"
| "latency_loop E data_computing (k # ks) w =
     (case (data_computing k, l_start_data_computing w (snd k)) of
        (Some end_data, Some start_data) \<Rightarrow>
          (let latency = completed_time end_data - start_time start_data
           in if latency > 100000 then latency_loop E data_computing ks w
              else do {
                w1 \<leftarrow> insert_latency_result E w (fst k) (start_request start_data) latency;
                latency_loop E data_computing ks
                  (w1\<lparr>l_end_data_computing := (l_end_data_computing w1)(k := None)\<rparr>)
              })
      | _ \<Rightarrow> latency_loop E data_computing ks w)"

definition compute_latency ::
    "'a dw_ext_scheme \<Rightarrow> (peer_id \<times> string) list \<Rightarrow> data_warehouse \<Rightarrow> data_warehouse option" where
  "compute_latency E ends w = do {
     let w1 = prepare_compute_latency w;
     w2 \<leftarrow> latency_loop E (l_end_data_computing w1) ends w1;
     Some (w2\<lparr>l_start_data := l_start_data w2 ++ l_start_data_computing w2,
              l_end_data := l_end_data w2 ++ l_end_data_computing w2,
              l_start_data_computing := Map.empty, l_end_data_computing := Map.empty\<rparr>)
   }"

fun scalability_latency_loop :: "'a dw_ext_scheme \<Rightarrow> test_item \<Rightarrow> (peer_id \<times> string \<rightharpoonup> consensus_end_data) \<Rightarrow>
    (peer_id \<times> string) list \<Rightarrow> data_warehouse \<Rightarrow> data_warehouse option" where
  "scalability_latency_loop E item data_computing [] w = Some w"
| "scalability_latency_loop E item data_computing (k # ks) w =
     (case (data_computing k, l_start_data_computing w (snd k)) of
        (Some end_data, Some start_data) \<Rightarrow> do {
          latency \<leftarrow> u64_sub (completed_time end_data) (start_time start_data);
          w1 \<leftarrow> insert_scalability_latency_result E w item (fst k) (start_request start_data) latency;
          scalability_latency_loop E item data_computing ks
            (w1\<lparr>l_end_data_computing := (l_end_data_computing w1)(k := None)\<rparr>)
        }
      | _ \<Rightarrow> scalability_latency_loop E item data_computing ks w)"

definition compute_scalability_latency ::
    "'a dw_ext_scheme \<Rightarrow> (peer_id \<times> string) list \<Rightarrow> data_warehouse \<Rightarrow> test_item \<Rightarrow> data_warehouse option" where
  "compute_scalability_latency E ends w item = do {
     let w1 = prepare_compute_latency w;
     w2 \<leftarrow> scalability_latency_loop E item (l_end_data_computing w1) ends w1;
     Some (w2\<lparr>l_end_data := l_end_data w2 ++ l_end_data_computing w2,
              l_start_data_computing := Map.empty, l_end_data_computing := Map.empty\<rparr>)
   }"

text \<open>The iteration orders a computation meets.\<close>

record orders =
  o_t_ends :: "(peer_id \<times> string) list"
  o_peers :: "peer_id list"
  o_l_ends :: "(peer_id \<times> string) list"
  o_s_ends :: "(peer_id \<times> string) list"

definition compute_scalability ::
    "'a dw_ext_scheme \<Rightarrow> orders \<Rightarrow> data_warehouse \<Rightarrow> u16 \<Rightarrow> test_item \<Rightarrow> data_warehouse option" where
  "compute_scalability E ord w node_count item = do {
     w1 \<leftarrow> compute_scalability_latency E (o_l_ends ord) w item;
     compute_scalability_throughput E (o_t_ends ord) (o_peers ord) w1 item
   }"

subsection \<open>Crash and malicious tests\<close>

definition store_security_result ::
    "(peer_id \<rightharpoonup> security_result) \<Rightarrow> peer_id \<Rightarrow> request \<Rightarrow> (peer_id \<rightharpoonup> security_result)" where
  "store_security_result results peer_id request = push_bucket results peer_id request"

definition crash_results :: "data_warehouse \<Rightarrow> u16 \<Rightarrow> data_warehouse \<times> (peer_id \<rightharpoonup> security_result)" where
  "crash_results w crash_count =
     (case crash_results_map w crash_count of
        Some results \<Rightarrow> (w, results)
      | None \<Rightarrow> (w\<lparr>crash_results_map := (crash_results_map w)(crash_count \<mapsto> Map.empty)\<rparr>, Map.empty))"

fun crash_loop :: "(peer_id \<times> string \<rightharpoonup> consensus_end_data) \<Rightarrow> (peer_id \<times> string) list \<Rightarrow>
    data_warehouse \<Rightarrow> (peer_id \<rightharpoonup> security_result) \<Rightarrow> data_warehouse \<times> (peer_id \<rightharpoonup> security_result)" where
  "crash_loop data [] w results = (w, results)"
| "crash_loop data (k # ks) w results =
     (case (data k, s_start_data w (snd k)) of
        (Some end_data, Some _) \<Rightarrow>
          crash_loop data ks (w\<lparr>s_end_data := (s_end_data w)(k := None)\<rparr>)
            (store_security_result results (fst k) (end_request end_data))
      | _ \<Rightarrow> crash_loop data ks w results)"

definition test_crash :: "(peer_id \<times> string) list \<Rightarrow> data_warehouse \<Rightarrow> u16 \<Rightarrow> data_warehouse" where
  "test_crash ends w crash_count =
     (let (w1, results) = crash_results w crash_count;
          (w2, results1) = crash_loop (s_end_data w1) ends w1 results
      in w2\<lparr>crash_results_map := (crash_results_map w2)(crash_count \<mapsto> results1)\<rparr>)"

definition malicous_results :: "data_warehouse \<Rightarrow> test_item \<Rightarrow> data_warehouse \<times> (peer_id \<rightharpoonup> security_result)" where
  "malicous_results w test_item =
     (case malicious_results w test_item of
        Some results \<Rightarrow> (w, results)
      | None \<Rightarrow> (w\<lparr>malicious_results := (malicious_results w)(test_item \<mapsto> Map.empty)\<rparr>, Map.empty))"

fun malicious_loop :: "(peer_id \<times> string \<rightharpoonup> consensus_end_data) \<Rightarrow> (peer_id \<times> string) list \<Rightarrow>
    data_warehouse \<Rightarrow> (peer_id \<rightharpoonup> security_result) \<Rightarrow> data_warehouse \<times> (peer_id \<rightharpoonup> security_result)" where
  "malicious_loop data [] w results = (w, results)"
| "malicious_loop data (k # ks) w results =
     (case data k of
        Some end_data \<Rightarrow>
          malicious_loop data ks (w\<lparr>s_end_data := (s_end_data w)(k := None)\<rparr>)
            (store_security_result results (fst k) (end_request end_data))
      | None \<Rightarrow> malicious_loop data ks w results)"

definition test_malicious :: "(peer_id \<times> string) list \<Rightarrow> data_warehouse \<Rightarrow> test_item \<Rightarrow> data_warehouse" where
  "test_malicious ends w test_item =
     (let (w1, results) = malicous_results w test_item;
          (w2, results1) = malicious_loop (s_end_data w1) ends w1 results
      in w2\<lparr>malicious_results := (malicious_results w2)(test_item \<mapsto> results1)\<rparr>)"

subsection \<open>Remaining operations\<close>

definition store_latency_result :: "data_warehouse \<Rightarrow> peer_id \<Rightarrow> latency_result \<Rightarrow> data_warehouse" where
  "store_latency_result w peer_id latency_result =
     w\<lparr>latency_results := push_bucket (latency_results w) peer_id latency_result\<rparr>"

definition record_scalability_mid_latency :: "data_warehouse \<Rightarrow> peer_id \<Rightarrow> latency_result \<Rightarrow> data_warehouse" where
  "record_scalability_mid_latency w peer_id latency_result =
     w\<lparr>scalability_mid_latencies := push_bucket (scalability_mid_latencies w) peer_id latency_result\<rparr>"

definition dw_reset :: "data_warehouse \<Rightarrow> data_warehouse" where
  "dw_reset w =
     w\<lparr>t_start_data := Map.empty, t_end_data := Map.empty,
       t_start_data_computing := Map.empty, t_end_data_computing := Map.empty,
       l_start_data := Map.empty, l_end_data := Map.empty,
       l_start_data_computing := Map.empty, l_end_data_computing := Map.empty,
       throughput_mid_results := Map.empty, internal_round := 0\<rparr>"

end
