(* ===== verification/Analyzer.thy ===== *)
theory Analyzer
  imports Data_Warehouse
begin

text \<open>
  The analyzer node (\<open>components/src/analyzer/analyzer.rs\<close>): its state, its handlers and one
  turn of its event loop. Timer tasks and network calls are a trace of effects; a panic is
  \<open>None\<close>.
\<close>

record analyzer =
  an_id :: peer_id
  connected_nodes :: "string \<rightharpoonup> peer_id"
  controller_id :: peer_id
  other_analyzer_node :: "peer_id list"
  current_test_item :: "test_item option"
  performance_test_duration :: u64
  performance_test_internal :: u64
  crash_test_duration :: u64
  malicious_test_duration :: u64
  warehouse :: data_warehouse
  effects :: "effect list"

text \<open>\<open>rnd\<close> is the random peer identifier that stands for an unknown controller.\<close>

definition analyzer_new :: "peer_id \<Rightarrow> peer_id \<Rightarrow> u64 \<Rightarrow> u64 \<Rightarrow> u64 \<Rightarrow> u64 \<Rightarrow> analyzer" where
  "analyzer_new ident rnd duration internal crash_duration malicious_duration =
     \<lparr>an_id = ident, connected_nodes = Map.empty, controller_id = rnd, other_analyzer_node = [],
      current_test_item = None, performance_test_duration = duration,
      performance_test_internal = internal, crash_test_duration = crash_duration,
      malicious_test_duration = malicious_duration, warehouse = data_warehouse_new, effects = []\<rparr>"

abbreviation perform :: "effect \<Rightarrow> analyzer \<Rightarrow> analyzer" where
  "perform e a \<equiv> a\<lparr>effects := effects a @ [e]\<rparr>"

definition id_bytes :: "'a ext_scheme \<Rightarrow> analyzer \<Rightarrow> bytes" where
  "id_bytes E a = peer_to_bytes E (an_id a)"

definition add_controller :: "analyzer \<Rightarrow> peer_id \<Rightarrow> analyzer" where
  "add_controller a c = a\<lparr>controller_id := c\<rparr>"

definition set_test_item :: "analyzer \<Rightarrow> test_item \<Rightarrow> analyzer" where
  "set_test_item a item = a\<lparr>current_test_item := Some item\<rparr>"

definition clear_test_item :: "analyzer \<Rightarrow> analyzer" where
  "clear_test_item a = a\<lparr>current_test_item := None\<rparr>"

definition performance_test_timer_start :: "analyzer \<Rightarrow> analyzer" where
  "performance_test_timer_start a =
     perform (PerformanceTimer (performance_test_duration a) (performance_test_internal a)) a"

definition crash_test_timer_start :: "analyzer \<Rightarrow> analyzer" where
  "crash_test_timer_start a = perform (CrashTimer (crash_test_duration a)) a"

definition malicious_test_timer_start :: "analyzer \<Rightarrow> analyzer" where
  "malicious_test_timer_start a = perform (MaliciousTimer (malicious_test_duration a)) a"

definition analyzer_init :: "'a msg_ext_scheme \<Rightarrow> analyzer \<Rightarrow> analyzer" where
  "analyzer_init E a =
     perform (Publish ''Initialization'' (bincode_message E
       \<lparr>interactive = ComponentInfo (Analyzer (id_bytes E a)), source = id_bytes E a\<rparr>)) a"

definition compute_and_analyse :: "'a dw_ext_scheme \<Rightarrow> orders \<Rightarrow> analyzer \<Rightarrow> analyzer option" where
  "compute_and_analyse E ord a =
     (case current_test_item a of
        None \<Rightarrow> Some a
      | Some test_item \<Rightarrow> do {
          w \<leftarrow> (case test_item of
              Throughput \<Rightarrow> compute_throughput E (o_t_ends ord) (o_peers ord) (warehouse a)
            | Latency \<Rightarrow> compute_latency E (o_l_ends ord) (warehouse a)
            | ThroughputAndLatency \<Rightarrow> do {
                w1 \<leftarrow> compute_throughput E (o_t_ends ord) (o_peers ord) (warehouse a);
                compute_latency E (o_l_ends ord) w1
              }
            | Scalability count mx step \<Rightarrow> compute_scalability E ord (warehouse a) count test_item
            | Crash count mx \<Rightarrow> Some (test_crash (o_s_ends ord) (warehouse a) count)
            | Malicious m \<Rightarrow> Some (test_malicious (o_s_ends ord) (warehouse a) test_item));
          Some (a\<lparr>warehouse := w\<rparr>)
        })"

definition next_test :: "'a msg_ext_scheme \<Rightarrow> analyzer \<Rightarrow> analyzer option" where
  "next_test E a = do {
     item \<leftarrow> current_test_item a;
     let a1 = clear_test_item a;
     Some (perform (SendMessage (controller_id a1) (bincode_message E
       \<lparr>interactive = CompletedTest item, source = id_bytes E a1\<rparr>)) a1)
   }"

text \<open>\<open>order\<close> is the iteration order of the map of crash nodes.\<close>

fun controller_message_handler ::
    "'a dw_ext_scheme \<Rightarrow> u16 list \<Rightarrow> analyzer \<Rightarrow> interactive_message \<Rightarrow> analyzer option" where
  "controller_message_handler E order a (ComponentInfo (Controller b)) = do {
     c \<leftarrow> peer_from_bytes E b;
     Some (add_controller a c)
   }"
| "controller_message_handler E order a (TestItem item) = do {
     let a1 = set_test_item a item;
     w \<leftarrow> (case item of
         Scalability n1 n2 n3 \<Rightarrow> insert_scalability_item E (warehouse a1) item
       | _ \<Rightarrow> Some (warehouse a1));
     Some (a1\<lparr>warehouse := dw_reset w\<rparr>)
   }"
| "controller_message_handler E order a (CrashNode count peer_id_bytes) =
     (case peer_id_bytes of
        Some b \<Rightarrow> do {
          peer_id \<leftarrow> peer_from_bytes E b;
          w \<leftarrow> record_crash_node order (warehouse a) count peer_id;
          Some (a\<lparr>warehouse := w\<rparr>)
        }
      | None \<Rightarrow> Some a)"
| "controller_message_handler E order a (StartTest n) =
     (let a1 = a\<lparr>warehouse := set_throughput_internal (warehouse a) (performance_test_internal a)\<rparr>
      in Some (case current_test_item a1 of
           None \<Rightarrow> a1
         | Some test_item \<Rightarrow>
             (case test_item of
                Crash n1 n2 \<Rightarrow> crash_test_timer_start a1
              | Malicious m \<Rightarrow> malicious_test_timer_start a1
              | _ \<Rightarrow> performance_test_timer_start a1)))"
| "controller_message_handler E order a m = Some a"

fun consensus_node_message_handler ::
    "'a dw_ext_scheme \<Rightarrow> analyzer \<Rightarrow> peer_id \<Rightarrow> consensus_data \<Rightarrow> analyzer" where
  "consensus_node_message_handler E a origin_peer_id (ConsensusStartData data) =
     a\<lparr>warehouse := store_consensus_start_data E (warehouse a) origin_peer_id data\<rparr>"
| "consensus_node_message_handler E a origin_peer_id (ConsensusEndData data) =
     a\<lparr>warehouse := store_consensus_end_data E (warehouse a) origin_peer_id data\<rparr>"

text \<open>\<open>matches\<close> tells which subcommands clap has matched. The print functions only read.\<close>

definition cmd_match :: "'a dw_ext_scheme \<Rightarrow> (string \<Rightarrow> bool) \<Rightarrow> analyzer \<Rightarrow> analyzer option" where
  "cmd_match E matches a = do {
     let a1 = (if matches ''init'' then analyzer_init E a else a);
     _ \<leftarrow> (if matches ''printThroughputResults''
            then map_option (\<lambda>_. ()) (print_throughput_results E (warehouse a1)) else Some ());
     _ \<leftarrow> (if matches ''printLatencyResults''
            then map_option (\<lambda>_. ()) (print_latency_results E (warehouse a1)) else Some ());
     _ \<leftarrow> (if matches ''printScalabilityThroughputResults''
            then map_option (\<lambda>_. ()) (print_scalability_throughput_results E (warehouse a1)) else Some ());
     _ \<leftarrow> (if matches ''printScalabilityLatencyResults''
            then map_option (\<lambda>_. ()) (print_scalability_latency_results E (warehouse a1)) else Some ());
     Some a1
   }"

subsection \<open>The event loop\<close>

text \<open>
  What the loop waits for: a parsed command, the two test notifications, and the events of
  the swarm. An expired peer comes with mdns's answer whether it still has the node.
\<close>

datatype an_event =
    CommandArgs "string \<Rightarrow> bool"
  | InternalNotified
  | CompletedNotified
  | UnicastReceived bytes bytes
  | GossipReceived bytes
  | Discovered "peer_id list"
  | Expired "(peer_id \<times> bool) list"
  | OtherEvent

text \<open>One turn of the loop in \<open>message_handler_start\<close>.\<close>

fun analyzer_turn ::
    "'a dw_ext_scheme \<Rightarrow> orders \<Rightarrow> u16 list \<Rightarrow> analyzer \<Rightarrow> an_event \<Rightarrow> analyzer option" where
  "analyzer_turn E ord crash_order a (CommandArgs matches) = cmd_match E matches a"
| "analyzer_turn E ord crash_order a InternalNotified = compute_and_analyse E ord a"
| "analyzer_turn E ord crash_order a CompletedNotified = do {
     a1 \<leftarrow> compute_and_analyse E ord a;
     next_test E a1
   }"
| "analyzer_turn E ord crash_order a (UnicastReceived src data) = do {
     peer_id \<leftarrow> peer_from_bytes E src;
     (if peer_to_string E (controller_id a) = peer_to_string E peer_id
      then do {
        m \<leftarrow> from_bincode_message E data;
        controller_message_handler E crash_order a (interactive m)
      }
      else if connected_nodes a (peer_to_string E peer_id) \<noteq> None
      then do {
        d \<leftarrow> from_json_consensus_data E data;
        Some (consensus_node_message_handler E a peer_id d)
      }
      else Some a)
   }"
| "analyzer_turn E ord crash_order a (GossipReceived data) = do {
     m \<leftarrow> from_bincode_message E data;
     (case interactive m of
        ComponentInfo (Controller b) \<Rightarrow> do {
          c \<leftarrow> peer_from_bytes E b;
          Some (add_controller a c)
        }
      | _ \<Rightarrow> Some a)
   }"
| "analyzer_turn E ord crash_order a (Discovered peers) =
     Some (foldl (\<lambda>a peer. perform (AddPeer peer)
       (a\<lparr>connected_nodes := (connected_nodes a)(peer_to_string E peer \<mapsto> peer)\<rparr>)) a peers)"
| "analyzer_turn E ord crash_order a (Expired peers) =
     Some (foldl (\<lambda>a (peer, has_node). if \<not> has_node then perform (RemovePeer peer) a else a) a peers)"
| "analyzer_turn E ord crash_order a OtherEvent = Some a"

end
