(* ===== verification/Warehouse_Properties.thy ===== *)
theory Warehouse_Properties
  imports Data_Warehouse
begin

text \<open>
  The properties of the data warehouse: what each computation counts, reports and keeps,
  how security results are collected, and that the paging loop prints everything.
\<close>

subsection \<open>Counting\<close>

text \<open>The number of completed requests counted for a peer.\<close>

definition peer_count :: "data_warehouse \<Rightarrow> peer_id \<Rightarrow> nat" where
  "peer_count w p = (case throughput_mid_results w p of Some c \<Rightarrow> unat c | None \<Rightarrow> 0)"

abbreviation matched :: "(string \<rightharpoonup> consensus_start_data) \<Rightarrow> peer_id \<times> string \<Rightarrow> bool" where
  "matched starts k \<equiv> starts (snd k) \<noteq> None"

text \<open>End data without the entries a predicate selects.\<close>

definition without :: "(peer_id \<times> string \<rightharpoonup> consensus_end_data) \<Rightarrow> (peer_id \<times> string \<Rightarrow> bool) \<Rightarrow>
    (peer_id \<times> string \<rightharpoonup> consensus_end_data)" where
  "without m P = (\<lambda>k. if P k then None else m k)"

lemma update_request_count_Some:
  assumes "update_request_count_with_peer w p = Some w'"
  shows "w' = w\<lparr>throughput_mid_results := throughput_mid_results w'\<rparr>"
    and "dom (throughput_mid_results w') = insert p (dom (throughput_mid_results w))"
    and "peer_count w' q = peer_count w q + (if q = p then 1 else 0)"
proof -
  have add: "unat c1 = unat c + 1" if "u64_add c 1 = Some c1" for c c1
    using u64_add_unat [OF that] by simp
  from assms show "w' = w\<lparr>throughput_mid_results := throughput_mid_results w'\<rparr>"
    and "dom (throughput_mid_results w') = insert p (dom (throughput_mid_results w))"
    by (auto simp: update_request_count_with_peer_def bind_eq_Some_conv split: option.splits)
  from assms add show "peer_count w' q = peer_count w q + (if q = p then 1 else 0)"
    by (auto simp: update_request_count_with_peer_def peer_count_def bind_eq_Some_conv split: option.splits)
qed

lemma count_loop_cases:
  assumes "count_loop (k # ks) w = Some w'"
  obtains (unmatched) "\<not> matched (t_start_data_computing w) k" "count_loop ks w = Some w'"
  | (counted) w1 where "matched (t_start_data_computing w) k"
      "update_request_count_with_peer w (fst k) = Some w1"
      "count_loop ks (w1\<lparr>t_end_data_computing := (t_end_data_computing w1)(k := None)\<rparr>) = Some w'"
  using assms by (auto simp: bind_eq_Some_conv split: option.splits)

lemma count_loop_state:
  "count_loop ks w = Some w' \<Longrightarrow>
   w' = w\<lparr>t_end_data_computing := without (t_end_data_computing w)
      (\<lambda>k. k \<in> set ks \<and> matched (t_start_data_computing w) k),
      throughput_mid_results := throughput_mid_results w'\<rparr> \<and>
   dom (throughput_mid_results w') =
     dom (throughput_mid_results w) \<union> fst ` {k \<in> set ks. matched (t_start_data_computing w) k}"
proof (induction ks arbitrary: w)
  case Nil
  then show ?case by (simp add: without_def)
next
  case (Cons k ks)
  from Cons.prems show ?case
  proof (cases rule: count_loop_cases)
    case unmatched
    have "without m (\<lambda>x. x \<in> set (k # ks) \<and> matched (t_start_data_computing w) x) =
        without m (\<lambda>x. x \<in> set ks \<and> matched (t_start_data_computing w) x)" for m
      using unmatched(1) by (auto simp: without_def fun_eq_iff)
    with Cons.IH [OF unmatched(2)] unmatched(1) show ?thesis by auto
  next
    case (counted w1)
    from update_request_count_Some(1,2) [OF counted(2)] obtain mid where
      w1: "w1 = w\<lparr>throughput_mid_results := mid\<rparr>"
      and dom: "dom mid = insert (fst k) (dom (throughput_mid_results w))" by fastforce
    have "without m (\<lambda>x. x \<in> set (k # ks) \<and> matched (t_start_data_computing w) x) =
        without (m(k := None)) (\<lambda>x. x \<in> set ks \<and> matched (t_start_data_computing w) x)" for m
      using counted(1) by (auto simp: without_def fun_eq_iff)
    note eq = this [of "t_end_data_computing w"]
    from Cons.IH [OF counted(3)] have
      st: "w' = w\<lparr>t_end_data_computing := without ((t_end_data_computing w)(k := None))
        (\<lambda>k. k \<in> set ks \<and> matched (t_start_data_computing w) k),
        throughput_mid_results := throughput_mid_results w'\<rparr>"
      and d: "dom (throughput_mid_results w') =
        dom mid \<union> fst ` {k \<in> set ks. matched (t_start_data_computing w) k}"
      by (simp_all add: w1 fun_upd_def)
    show ?thesis
    proof
      show "w' = w\<lparr>t_end_data_computing := without (t_end_data_computing w)
          (\<lambda>x. x \<in> set (k # ks) \<and> matched (t_start_data_computing w) x),
          throughput_mid_results := throughput_mid_results w'\<rparr>"
        unfolding eq by (rule st)
      show "dom (throughput_mid_results w') = dom (throughput_mid_results w) \<union>
          fst ` {x \<in> set (k # ks). matched (t_start_data_computing w) x}"
        using counted(1) unfolding d dom by auto
    qed
  qed
qed

lemma count_loop_counts:
  "count_loop ks w = Some w' \<Longrightarrow> peer_count w' p = peer_count w p +
     length (filter (\<lambda>k. fst k = p \<and> matched (t_start_data_computing w) k) ks)"
proof (induction ks arbitrary: w)
  case (Cons k ks)
  from Cons.prems show ?case
  proof (cases rule: count_loop_cases)
    case unmatched
    with Cons.IH show ?thesis by auto
  next
    case (counted w1)
    have "t_start_data_computing w1 = t_start_data_computing w"
      by (subst update_request_count_Some(1) [OF counted(2)]) simp
    moreover have "peer_count (w1\<lparr>t_end_data_computing := x\<rparr>) p = peer_count w1 p" for x
      by (simp add: peer_count_def)
    ultimately show ?thesis
      using Cons.IH [OF counted(3)] update_request_count_Some(3) [OF counted(2), of p] counted(1) by auto
  qed
qed simp

lemma matched_card:
  assumes "enumerates ends m"
  shows "length (filter (\<lambda>k. fst k = p \<and> matched starts k) ends) =
    card {h. m (p, h) \<noteq> None \<and> starts h \<noteq> None}"
proof -
  let ?ks = "filter (\<lambda>k. fst k = p \<and> matched starts k) ends"
  let ?hs = "{h. m (p, h) \<noteq> None \<and> starts h \<noteq> None}"
  have "k \<in> set ends \<longleftrightarrow> m k \<noteq> None" for k
    using enumerates_in_dom [OF assms] by blast
  then have "set ?ks = (\<lambda>h. (p, h)) ` ?hs" by (auto simp: image_iff)
  moreover have "card ((\<lambda>h. (p, h)) ` ?hs) = card ?hs" by (rule card_image) (auto intro: inj_onI)
  moreover have "distinct ?ks" using assms by (simp add: enumerates_def)
  ultimately show ?thesis using distinct_card [of ?ks] by simp
qed

subsection \<open>The insert interface\<close>

text \<open>
  What the throughput computation relies on in the database layer: an insert that returns
  has appended one statement to the trace and changed nothing else.
\<close>

locale row_insert =
  fixes ins :: "data_warehouse \<Rightarrow> u64 \<Rightarrow> peer_id \<Rightarrow> u64 \<Rightarrow> data_warehouse option"
    and stmt :: "u64 \<Rightarrow> peer_id \<Rightarrow> u64 \<Rightarrow> db_statement"
  assumes ins_Some: "ins w i p t = Some w' \<Longrightarrow> w' = w\<lparr>mysql_trace := mysql_trace w @ [stmt i p t]\<rparr>"
begin

definition rows :: "u64 \<Rightarrow> (peer_id \<rightharpoonup> u64) \<Rightarrow> u64 \<Rightarrow> u64 \<Rightarrow> peer_id list \<Rightarrow> db_statement list" where
  "rows i mid r internal peers =
     map (\<lambda>p. stmt i p (the (throughput_of (the (mid p)) r internal))) (filter (\<lambda>p. mid p \<noteq> None) peers)"

lemma throughput_rows_trace:
  "throughput_rows ins i mid peers w = Some w' \<Longrightarrow>
   w' = w\<lparr>mysql_trace := mysql_trace w @ rows i mid (internal_round w) (throughput_internal w) peers\<rparr>"
proof (induction peers arbitrary: w)
  case Nil
  then show ?case by (simp add: rows_def)
next
  case (Cons p peers)
  show ?case
  proof (cases "mid p")
    case None
    with Cons show ?thesis by (simp add: rows_def)
  next
    case (Some c)
    with Cons.prems obtain t w1 where
      t: "throughput_of c (internal_round w) (throughput_internal w) = Some t"
      and w1: "ins w i p t = Some w1" and rec: "throughput_rows ins i mid peers w1 = Some w'"
      by (auto simp: bind_eq_Some_conv)
    from Cons.IH [OF rec] ins_Some [OF w1] Some t show ?thesis by (simp add: rows_def)
  qed
qed

lemma compute_state:
  assumes "compute_throughput_with ins ends peers w = Some w'" and "enumerates ends (t_end_data w)"
  shows "w' = w\<lparr>t_end_data := without (t_end_data w) (matched (t_start_data w)),
      t_start_data_computing := Map.empty, t_end_data_computing := Map.empty,
      throughput_mid_results := throughput_mid_results w', internal_round := internal_round w + 1,
      mysql_trace := mysql_trace w @ rows (internal_round w) (throughput_mid_results w')
        (internal_round w + 1) (throughput_internal w) peers\<rparr> \<and>
    dom (throughput_mid_results w') =
      dom (throughput_mid_results w) \<union> fst ` {k \<in> dom (t_end_data w). matched (t_start_data w) k} \<and>
    (\<forall>p. peer_count w' p = peer_count w p +
      length (filter (\<lambda>k. fst k = p \<and> matched (t_start_data w) k) ends))"
proof -
  from assms(1) obtain w1 nxt w3 where w1: "count_loop ends (prepare_compute_throughput w) = Some w1"
    and nxt: "u64_add (internal_round w1) 1 = Some nxt"
    and w3: "throughput_rows ins (internal_round w1) (throughput_mid_results w1) peers
      (w1\<lparr>internal_round := nxt\<rparr>) = Some w3"
    and w': "w' = rewrite_throughput_data w3"
    by (auto simp: compute_throughput_with_def bind_eq_Some_conv Let_def)
  let ?w0 = "prepare_compute_throughput w"
  define mid where "mid = throughput_mid_results w1"
  from count_loop_state [OF w1] assms(2) have
    st: "w1 = ?w0\<lparr>t_end_data_computing := without (t_end_data w) (\<lambda>k. k \<in> dom (t_end_data w) \<and> matched (t_start_data w) k),
      throughput_mid_results := mid\<rparr>"
    and d: "dom mid = dom (throughput_mid_results w) \<union> fst ` {k \<in> dom (t_end_data w). matched (t_start_data w) k}"
    by (simp_all add: mid_def prepare_compute_throughput_def enumerates_def)
  have wo: "without (t_end_data w) (\<lambda>k. k \<in> dom (t_end_data w) \<and> matched (t_start_data w) k) =
      without (t_end_data w) (matched (t_start_data w))"
    by (auto simp: without_def fun_eq_iff)
  from nxt have nxt': "nxt = internal_round w + 1"
    by (simp add: u64_add_Some st prepare_compute_throughput_def)
  have w3': "w3 = w1\<lparr>internal_round := nxt, mysql_trace := mysql_trace w @
      rows (internal_round w) mid nxt (throughput_internal w) peers\<rparr>"
    using throughput_rows_trace [OF w3] by (simp add: st prepare_compute_throughput_def)
  then have mid': "throughput_mid_results w' = mid"
    by (simp add: w' rewrite_throughput_data_def st)
  have "w' = w\<lparr>t_end_data := without (t_end_data w) (matched (t_start_data w)),
      t_start_data_computing := Map.empty, t_end_data_computing := Map.empty,
      throughput_mid_results := mid, internal_round := internal_round w + 1,
      mysql_trace := mysql_trace w @ rows (internal_round w) mid
        (internal_round w + 1) (throughput_internal w) peers\<rparr>"
    unfolding w' w3' st wo nxt'
    by (simp add: rewrite_throughput_data_def prepare_compute_throughput_def)
  moreover have "peer_count w' p = peer_count w1 p" "peer_count ?w0 p = peer_count w p" for p
    using mid' by (simp_all add: peer_count_def mid_def prepare_compute_throughput_def)
  with count_loop_counts [OF w1] have "peer_count w' p = peer_count w p +
      length (filter (\<lambda>k. fst k = p \<and> matched (t_start_data w) k) ends)" for p
    by (simp add: prepare_compute_throughput_def)
  ultimately show ?thesis using d mid' by simp
qed

lemma compute_fields:
  assumes "compute_throughput_with ins ends peers w = Some w'" and "enumerates ends (t_end_data w)"
  shows "t_start_data w' = t_start_data w"
    and "t_end_data w' = without (t_end_data w) (matched (t_start_data w))"
    and "mysql_trace w' = mysql_trace w @ rows (internal_round w) (throughput_mid_results w')
        (internal_round w + 1) (throughput_internal w) peers"
    and "internal_round w' = internal_round w + 1"
    and "dom (throughput_mid_results w') =
      dom (throughput_mid_results w) \<union> fst ` {k \<in> dom (t_end_data w). matched (t_start_data w) k}"
    and "peer_count w' p = peer_count w p + card {h. t_end_data w (p, h) \<noteq> None \<and> t_start_data w h \<noteq> None}"
proof -
  note st = compute_state [OF assms]
  define mid where "mid = throughput_mid_results w'"
  from st [folded mid_def] have w': "w' = w\<lparr>t_end_data := without (t_end_data w) (matched (t_start_data w)),
      t_start_data_computing := Map.empty, t_end_data_computing := Map.empty,
      throughput_mid_results := mid, internal_round := internal_round w + 1,
      mysql_trace := mysql_trace w @ rows (internal_round w) mid (internal_round w + 1) (throughput_internal w) peers\<rparr>"
    by blast
  show "t_start_data w' = t_start_data w"
    and "t_end_data w' = without (t_end_data w) (matched (t_start_data w))"
    and "mysql_trace w' = mysql_trace w @ rows (internal_round w) (throughput_mid_results w')
        (internal_round w + 1) (throughput_internal w) peers"
    and "internal_round w' = internal_round w + 1"
    by (simp_all add: w')
  from st show "dom (throughput_mid_results w') =
      dom (throughput_mid_results w) \<union> fst ` {k \<in> dom (t_end_data w). matched (t_start_data w) k}" by blast
  from st have "peer_count w' p = peer_count w p +
      length (filter (\<lambda>k. fst k = p \<and> matched (t_start_data w) k) ends)" by blast
  then show "peer_count w' p = peer_count w p + card {h. t_end_data w (p, h) \<noteq> None \<and> t_start_data w h \<noteq> None}"
    by (simp only: matched_card [OF assms(2)])
qed

end

interpretation throughput_insert: row_insert "insert_throughput_result E"
  "\<lambda>i p t. InsertThroughput i (peer_to_string E p) t" for E
  by unfold_locales (auto simp: insert_throughput_result_def exec_drop_def split: if_splits)

interpretation scalability_insert: row_insert "\<lambda>w. insert_scalability_throughput_result E w item"
  "\<lambda>i p t. InsertScalabilityThroughput item i (peer_to_string E p) t" for E item
  by unfold_locales (auto simp: insert_scalability_throughput_result_def exec_drop_def split: if_splits)

subsection \<open>A concrete warehouse\<close>

text \<open>Node 1 has completed the requests \<open>a\<close> and \<open>b\<close>, node 2 the request \<open>a\<close>; only \<open>a\<close> has start data.\<close>

definition dw_demo_ext :: dw_ext where
  "dw_demo_ext = \<lparr>sha3_256_hex = map (\<lambda>b. char_of (unat b)), bincode_request = (\<lambda>r. as_bytes (cmd r)),
     json_request = (\<lambda>r. as_bytes (cmd r)), from_json_request = (\<lambda>b. None),
     peer_from_bytes = Some, peer_to_bytes = (\<lambda>p. p), peer_to_string = map (\<lambda>b. char_of (unat b)),
     dalek_public = (\<lambda>k. k), dalek_sign = (\<lambda>k m. m), dalek_public_key_ok = (\<lambda>k. True),
     dalek_signature_ok = (\<lambda>s. True), dalek_verify = (\<lambda>k m s. True),
     bincode_message = (\<lambda>m. []), from_bincode_message = (\<lambda>b. None),
     json_consensus_data = (\<lambda>d. []), from_json_consensus_data = (\<lambda>b. None),
     mysql_accepts = (\<lambda>t s. True), mysql_throughput = (\<lambda>t s c. None), mysql_latency = (\<lambda>t s c. None),
     mysql_items = (\<lambda>t. None), mysql_scalability_throughput = (\<lambda>t i s c. None),
     mysql_scalability_latency = (\<lambda>t i s c. None)\<rparr>"

definition dw_start :: consensus_start_data where
  "dw_start = \<lparr>start_request = \<lparr>cmd = ''a''\<rparr>, start_time = 10\<rparr>"

definition dw_end :: "string \<Rightarrow> consensus_end_data" where
  "dw_end c = \<lparr>end_request = \<lparr>cmd = c\<rparr>, completed_time = 25\<rparr>"

definition dw_demo_ends :: "peer_id \<times> string \<rightharpoonup> consensus_end_data" where
  "dw_demo_ends = [([1], ''a'') \<mapsto> dw_end ''a'', ([1], ''b'') \<mapsto> dw_end ''b'', ([2], ''a'') \<mapsto> dw_end ''a'']"

definition dw_demo :: data_warehouse where
  "dw_demo = data_warehouse_new\<lparr>throughput_internal := 1000,
     t_start_data := [''a'' \<mapsto> dw_start], t_end_data := dw_demo_ends,
     l_start_data := [''a'' \<mapsto> dw_start], l_end_data := dw_demo_ends,
     s_start_data := [''a'' \<mapsto> dw_start], s_end_data := dw_demo_ends\<rparr>"

abbreviation dw_demo_order :: "(peer_id \<times> string) list" where
  "dw_demo_order \<equiv> [([1], ''a''), ([1], ''b''), ([2], ''a'')]"

lemma dw_demo_fields [simp]:
  "t_start_data dw_demo = [''a'' \<mapsto> dw_start]" "t_end_data dw_demo = dw_demo_ends"
  "l_start_data dw_demo = [''a'' \<mapsto> dw_start]" "l_end_data dw_demo = dw_demo_ends"
  "s_start_data dw_demo = [''a'' \<mapsto> dw_start]" "s_end_data dw_demo = dw_demo_ends"
  "throughput_internal dw_demo = 1000" "internal_round dw_demo = 0" "mysql_trace dw_demo = []"
  "throughput_mid_results dw_demo = Map.empty" "crash_results_map dw_demo = Map.empty"
  "malicious_results dw_demo = Map.empty"
  by (simp_all add: dw_demo_def data_warehouse_new_def)

lemma dw_demo_enumerates: "enumerates dw_demo_order dw_demo_ends"
  by (auto simp: enumerates_def dw_demo_ends_def)

lemma dw_demo_accepts [simp]: "exec_drop dw_demo_ext w s = Some (w\<lparr>mysql_trace := mysql_trace w @ [s]\<rparr>)"
  by (simp add: exec_drop_def dw_demo_ext_def)

subsection \<open>Throughput\<close>

text \<open>
  C33. Counting is exact: one throughput computation adds to the count of every peer the
  number of its end data whose request has start data, removes exactly these end data, keeps
  the others and all start data; a further computation without new data counts nothing.
\<close>

theorem throughput_counts_once:
  assumes "compute_throughput E ends peers w = Some w'" and "enumerates ends (t_end_data w)"
  shows "(\<forall>p. peer_count w' p = peer_count w p +
      card {h. t_end_data w (p, h) \<noteq> None \<and> t_start_data w h \<noteq> None}) \<and>
    t_start_data w' = t_start_data w \<and>
    (\<forall>p h. t_end_data w' (p, h) = (if t_start_data w h = None then t_end_data w (p, h) else None)) \<and>
    (\<forall>ends2 peers2 w''. compute_throughput E ends2 peers2 w' = Some w'' \<longrightarrow> enumerates ends2 (t_end_data w') \<longrightarrow>
      (\<forall>p. peer_count w'' p = peer_count w' p) \<and> t_end_data w'' = t_end_data w')"
proof -
  note f = throughput_insert.compute_fields [OF assms(1) [unfolded compute_throughput_def] assms(2)]
  have again: "(\<forall>p. peer_count w'' p = peer_count w' p) \<and> t_end_data w'' = t_end_data w'"
    if c: "compute_throughput E ends2 peers2 w' = Some w''" and e: "enumerates ends2 (t_end_data w')"
    for ends2 peers2 w''
  proof -
    note g = throughput_insert.compute_fields [OF c [unfolded compute_throughput_def] e]
    have none: "{h. t_end_data w' (p, h) \<noteq> None \<and> t_start_data w' h \<noteq> None} = {}" for p
      by (auto simp: f without_def)
    have "peer_count w'' p = peer_count w' p" for p
      using g(6) [of p] unfolding none by simp
    moreover have "t_end_data w'' = t_end_data w'"
      unfolding g(2) f(1,2) by (auto simp: without_def fun_eq_iff)
    ultimately show ?thesis by blast
  qed
  have "t_end_data w' (p, h) = (if t_start_data w h = None then t_end_data w (p, h) else None)" for p h
    by (simp add: f without_def)
  then show ?thesis using f(1,6) again by blast
qed

lemma dw_demo_computes: "\<exists>w'. compute_throughput dw_demo_ext dw_demo_order [[1], [2]] dw_demo = Some w'"
  by (simp add: compute_throughput_def compute_throughput_with_def prepare_compute_throughput_def
      update_request_count_with_peer_def insert_throughput_result_def throughput_of_def u64_add_def u64_mul_def)

theorem throughput_counts_once_witness:
  "\<exists>w'. compute_throughput dw_demo_ext dw_demo_order [[1], [2]] dw_demo = Some w' \<and>
     peer_count w' [1] = 1 \<and> peer_count w' [2] = 1 \<and> t_end_data w' ([1], ''b'') = Some (dw_end ''b'') \<and>
     t_end_data w' ([1], ''a'') = None"
proof -
  obtain w' where w': "compute_throughput dw_demo_ext dw_demo_order [[1], [2]] dw_demo = Some w'"
    using dw_demo_computes by blast
  have "{h. dw_demo_ends (p, h) \<noteq> None \<and> [''a'' \<mapsto> dw_start] h \<noteq> None} = {''a''}" if "p = [1] \<or> p = [2]" for p
    using that by (auto simp: dw_demo_ends_def)
  moreover have "peer_count dw_demo p = 0" for p by (simp add: peer_count_def)
  moreover have "enumerates dw_demo_order (t_end_data dw_demo)" using dw_demo_enumerates by simp
  ultimately show ?thesis
    using throughput_counts_once [OF w'] w' by (auto simp: dw_demo_ends_def)
qed

text \<open>
  C34. Every throughput computation reports one row per peer counted so far, all with the
  number of the round just computed: the value is the peer's total count divided by the time
  since the first round (rounds times interval, in seconds), in \<open>f64\<close> arithmetic. The counted
  peers are those counted before and those with newly matched end data. The same holds for
  the scalability test, whose rows carry the test item.
\<close>

theorem throughput_rows_reported:
  assumes "enumerates ends (t_end_data w)"
  shows "(\<forall>w'. compute_throughput E ends peers w = Some w' \<longrightarrow> enumerates peers (throughput_mid_results w') \<longrightarrow>
      mysql_trace w' = mysql_trace w @ map (\<lambda>p. InsertThroughput (internal_round w) (peer_to_string E p)
        (the (throughput_of (the (throughput_mid_results w' p)) (internal_round w + 1) (throughput_internal w)))) peers \<and>
      set peers = dom (throughput_mid_results w) \<union> {p. \<exists>h. t_end_data w (p, h) \<noteq> None \<and> t_start_data w h \<noteq> None}) \<and>
    (\<forall>w'. compute_scalability_throughput E ends peers w item = Some w' \<longrightarrow> enumerates peers (throughput_mid_results w') \<longrightarrow>
      mysql_trace w' = mysql_trace w @ map (\<lambda>p. InsertScalabilityThroughput item (internal_round w) (peer_to_string E p)
        (the (throughput_of (the (throughput_mid_results w' p)) (internal_round w + 1) (throughput_internal w)))) peers \<and>
      set peers = dom (throughput_mid_results w) \<union> {p. \<exists>h. t_end_data w (p, h) \<noteq> None \<and> t_start_data w h \<noteq> None})"
proof -
  have all: "filter (\<lambda>p. mid p \<noteq> None) peers = peers" if "enumerates peers mid" for mid :: "peer_id \<rightharpoonup> u64"
    using that by (auto simp: enumerates_def filter_id_conv dom_def)
  have keys: "fst ` {k \<in> dom (t_end_data w). matched (t_start_data w) k} =
      {p. \<exists>h. t_end_data w (p, h) \<noteq> None \<and> t_start_data w h \<noteq> None}"
    by (force simp: image_iff)
  show ?thesis
    using throughput_insert.compute_fields(3,5) [OF _ assms, of E peers, folded compute_throughput_def]
      scalability_insert.compute_fields(3,5) [OF _ assms, of E item peers, folded compute_scalability_throughput_def]
      keys all
    by (auto simp: throughput_insert.rows_def scalability_insert.rows_def enumerates_def)
qed

theorem throughput_rows_reported_witness:
  "\<exists>w'. compute_throughput dw_demo_ext dw_demo_order [[1], [2]] dw_demo = Some w' \<and>
     set [[1], [2]] = dom (throughput_mid_results w') \<and> length (mysql_trace w') = 2"
proof -
  obtain w' where w': "compute_throughput dw_demo_ext dw_demo_order [[1], [2]] dw_demo = Some w'"
    using dw_demo_computes by blast
  have en: "enumerates dw_demo_order (t_end_data dw_demo)" using dw_demo_enumerates by simp
  have "{p. \<exists>h. dw_demo_ends (p, h) \<noteq> None \<and> [''a'' \<mapsto> dw_start] h \<noteq> None} = {[1], [2]}"
    by (auto simp: dw_demo_ends_def)
  moreover have "dom (throughput_mid_results w') = {p. \<exists>h. dw_demo_ends (p, h) \<noteq> None \<and> [''a'' \<mapsto> dw_start] h \<noteq> None}"
    using throughput_insert.compute_fields(5) [OF w' [unfolded compute_throughput_def] en]
    by (force simp: image_iff)
  ultimately have d: "enumerates [[1], [2]] (throughput_mid_results w')" by (simp add: enumerates_def)
  with throughput_rows_reported [OF en, of dw_demo_ext "[[1], [2]]"] w' show ?thesis
    by (auto simp: enumerates_def)
qed

subsection \<open>Latency\<close>

text \<open>The latency of an end datum with start data, in wrapping arithmetic as in the code.\<close>

definition latency_at :: "(string \<rightharpoonup> consensus_start_data) \<Rightarrow> (peer_id \<times> string \<rightharpoonup> consensus_end_data) \<Rightarrow>
    peer_id \<times> string \<Rightarrow> u64 option" where
  "latency_at starts ends k = (case (ends k, starts (snd k)) of
     (Some e, Some s) \<Rightarrow> Some (completed_time e - start_time s) | _ \<Rightarrow> None)"

definition reportable :: "(string \<rightharpoonup> consensus_start_data) \<Rightarrow> (peer_id \<times> string \<rightharpoonup> consensus_end_data) \<Rightarrow>
    peer_id \<times> string \<Rightarrow> bool" where
  "reportable starts ends k \<longleftrightarrow> (\<exists>l. latency_at starts ends k = Some l \<and> l \<le> 100000)"

definition latency_row :: "'a ext_scheme \<Rightarrow> (string \<Rightarrow> string \<Rightarrow> u64 \<Rightarrow> db_statement) \<Rightarrow>
    (string \<rightharpoonup> consensus_start_data) \<Rightarrow> (peer_id \<times> string \<rightharpoonup> consensus_end_data) \<Rightarrow>
    peer_id \<times> string \<Rightarrow> db_statement" where
  "latency_row E stmt starts ends k = stmt (peer_to_string E (fst k))
     (cmd (start_request (the (starts (snd k))))) (the (latency_at starts ends k))"

lemma latency_loop_state:
  "latency_loop E data ks w = Some w' \<Longrightarrow>
   w' = w\<lparr>l_end_data_computing := without (l_end_data_computing w)
        (\<lambda>k. k \<in> set ks \<and> reportable (l_start_data_computing w) data k),
      mysql_trace := mysql_trace w @ map (latency_row E InsertLatency (l_start_data_computing w) data)
        (filter (reportable (l_start_data_computing w) data) ks)\<rparr>"
proof (induction ks arbitrary: w)
  case Nil
  then show ?case by (simp add: without_def)
next
  case (Cons k ks)
  let ?r = "reportable (l_start_data_computing w) data"
  show ?case
  proof (cases "?r k")
    case False
    have "latency_loop E data ks w = Some w'"
      using Cons.prems False
      by (auto simp: reportable_def latency_at_def Let_def not_le split: option.splits if_splits)
    moreover have "without m (\<lambda>x. x \<in> set (k # ks) \<and> ?r x) = without m (\<lambda>x. x \<in> set ks \<and> ?r x)" for m
      using False by (auto simp: without_def fun_eq_iff)
    ultimately show ?thesis using Cons.IH False by simp
  next
    case True
    then obtain e s where es: "data k = Some e" "l_start_data_computing w (snd k) = Some s"
        "completed_time e - start_time s \<le> 100000"
      by (auto simp: reportable_def latency_at_def split: option.splits)
    let ?row = "InsertLatency (peer_to_string E (fst k)) (cmd (start_request s)) (completed_time e - start_time s)"
    let ?w1 = "w\<lparr>mysql_trace := mysql_trace w @ [?row],
      l_end_data_computing := (l_end_data_computing w)(k := None)\<rparr>"
    have rec: "latency_loop E data ks ?w1 = Some w'"
      using Cons.prems es
      by (auto simp: Let_def insert_latency_result_def exec_drop_def bind_eq_Some_conv split: if_splits)
    have row: "latency_row E InsertLatency (l_start_data_computing w) data k = ?row"
      using es by (simp add: latency_row_def latency_at_def)
    have "without m (\<lambda>x. x \<in> set (k # ks) \<and> ?r x) = without (m(k := None)) (\<lambda>x. x \<in> set ks \<and> ?r x)" for m
      using True by (auto simp: without_def fun_eq_iff)
    note eq = this [of "l_end_data_computing w"]
    show ?thesis
      unfolding eq using Cons.IH [OF rec] True row by (simp add: fun_upd_def)
  qed
qed

text \<open>
  The latency computation reports, once and in iteration order, exactly the end data
  with start data whose wrapping difference of times is at most 100000, with the request of
  the start data; these end data are removed, all others and the start data are kept. With
  time stamps below \<open>2 ^ 63\<close> the reported ones are those that completed at or after their
  start within 100000, and the reported latency is the difference.
\<close>

theorem latency_reported_once:
  assumes "compute_latency E ends w = Some w'" and "enumerates ends (l_end_data w)"
  shows "mysql_trace w' = mysql_trace w @ map (latency_row E InsertLatency (l_start_data w) (l_end_data w))
      (filter (reportable (l_start_data w) (l_end_data w)) ends) \<and>
    l_start_data w' = l_start_data w \<and>
    l_end_data w' = without (l_end_data w) (reportable (l_start_data w) (l_end_data w)) \<and>
    (\<forall>k e s. l_end_data w k = Some e \<longrightarrow> l_start_data w (snd k) = Some s \<longrightarrow>
       unat (completed_time e) < 2 ^ 63 \<longrightarrow> unat (start_time s) < 2 ^ 63 \<longrightarrow>
       (reportable (l_start_data w) (l_end_data w) k \<longleftrightarrow>
          start_time s \<le> completed_time e \<and> unat (completed_time e) - unat (start_time s) \<le> 100000) \<and>
       (start_time s \<le> completed_time e \<longrightarrow>
          unat (the (latency_at (l_start_data w) (l_end_data w) k)) = unat (completed_time e) - unat (start_time s)))"
proof -
  from assms(1) obtain w2 where loop: "latency_loop E (l_end_data w) ends (prepare_compute_latency w) = Some w2"
    and w': "w' = w2\<lparr>l_start_data := l_start_data w2 ++ l_start_data_computing w2,
              l_end_data := l_end_data w2 ++ l_end_data_computing w2,
              l_start_data_computing := Map.empty, l_end_data_computing := Map.empty\<rparr>"
    by (auto simp: compute_latency_def prepare_compute_latency_def bind_eq_Some_conv Let_def)
  let ?r = "reportable (l_start_data w) (l_end_data w)"
  have "without (l_end_data w) (\<lambda>k. k \<in> set ends \<and> ?r k) = without (l_end_data w) ?r"
    using assms(2) by (auto simp: without_def fun_eq_iff enumerates_def)
  with latency_loop_state [OF loop] have
    w2: "w2 = (prepare_compute_latency w)\<lparr>l_end_data_computing := without (l_end_data w) ?r,
      mysql_trace := mysql_trace w @ map (latency_row E InsertLatency (l_start_data w) (l_end_data w))
        (filter ?r ends)\<rparr>"
    by (simp add: prepare_compute_latency_def)
  have diff: "(c - s \<le> 100000 \<longleftrightarrow> s \<le> c \<and> unat c - unat s \<le> 100000) \<and> (s \<le> c \<longrightarrow> unat (c - s) = unat c - unat s)"
    if "unat c < 2 ^ 63" "unat s < 2 ^ 63" for c s :: u64
  proof (cases "s \<le> c")
    case True
    then have "unat (c - s) = unat c - unat s" by (rule unat_sub)
    with True show ?thesis by (simp add: word_le_nat_alt)
  next
    case False
    then have "unat (c - s) = unat c + 2 ^ 64 - unat s" by (simp add: unat_sub_if' word_le_nat_alt)
    with that have "100000 < unat (c - s)" by simp
    with False show ?thesis by (simp add: word_le_nat_alt)
  qed
  have "l_start_data w' = l_start_data w" "l_end_data w' = without (l_end_data w) ?r"
    "mysql_trace w' = mysql_trace w @ map (latency_row E InsertLatency (l_start_data w) (l_end_data w)) (filter ?r ends)"
    by (simp_all add: w' w2 prepare_compute_latency_def)
  with diff show ?thesis by (auto simp: reportable_def latency_at_def)
qed

lemma dw_demo_latency: "\<exists>w'. compute_latency dw_demo_ext dw_demo_order dw_demo = Some w'"
  by (simp add: compute_latency_def prepare_compute_latency_def insert_latency_result_def
      dw_demo_ends_def dw_start_def dw_end_def)

theorem latency_reported_once_witness:
  "\<exists>w'. compute_latency dw_demo_ext dw_demo_order dw_demo = Some w' \<and>
     mysql_trace w' = [InsertLatency (peer_to_string dw_demo_ext [1]) ''a'' 15,
       InsertLatency (peer_to_string dw_demo_ext [2]) ''a'' 15] \<and>
     l_end_data w' ([1], ''b'') = Some (dw_end ''b'')"
proof -
  obtain w' where w': "compute_latency dw_demo_ext dw_demo_order dw_demo = Some w'"
    using dw_demo_latency by blast
  have "enumerates dw_demo_order (l_end_data dw_demo)" using dw_demo_enumerates by simp
  from latency_reported_once [OF w' this] w' show ?thesis
    by (simp add: reportable_def latency_at_def latency_row_def without_def dw_demo_ends_def dw_start_def dw_end_def)
qed

abbreviation both :: "(string \<rightharpoonup> consensus_start_data) \<Rightarrow> (peer_id \<times> string \<rightharpoonup> consensus_end_data) \<Rightarrow>
    peer_id \<times> string \<Rightarrow> bool" where
  "both starts ends k \<equiv> ends k \<noteq> None \<and> starts (snd k) \<noteq> None"

lemma scalability_latency_loop_state:
  "scalability_latency_loop E item data ks w = Some w' \<Longrightarrow>
   (\<forall>k \<in> set ks. \<forall>e s. data k = Some e \<longrightarrow> l_start_data_computing w (snd k) = Some s \<longrightarrow> start_time s \<le> completed_time e) \<and>
   w' = w\<lparr>l_end_data_computing := without (l_end_data_computing w)
        (\<lambda>k. k \<in> set ks \<and> both (l_start_data_computing w) data k),
      mysql_trace := mysql_trace w @ map (latency_row E (InsertScalabilityLatency item) (l_start_data_computing w) data)
        (filter (both (l_start_data_computing w) data) ks)\<rparr>"
proof (induction ks arbitrary: w)
  case Nil
  then show ?case by (simp add: without_def)
next
  case (Cons k ks)
  let ?r = "both (l_start_data_computing w) data"
  show ?case
  proof (cases "?r k")
    case False
    then have "scalability_latency_loop E item data ks w = Some w'"
      using Cons.prems by (auto split: option.splits)
    moreover have "without m (\<lambda>x. x \<in> set (k # ks) \<and> ?r x) = without m (\<lambda>x. x \<in> set ks \<and> ?r x)" for m
      using False by (auto simp: without_def fun_eq_iff)
    ultimately show ?thesis using Cons.IH False by auto
  next
    case True
    then obtain e s where es: "data k = Some e" "l_start_data_computing w (snd k) = Some s" by auto
    let ?row = "InsertScalabilityLatency item (peer_to_string E (fst k)) (cmd (start_request s))
      (completed_time e - start_time s)"
    let ?w1 = "w\<lparr>mysql_trace := mysql_trace w @ [?row],
      l_end_data_computing := (l_end_data_computing w)(k := None)\<rparr>"
    have rec: "scalability_latency_loop E item data ks ?w1 = Some w'" and le: "start_time s \<le> completed_time e"
      using Cons.prems es
      by (auto simp: insert_scalability_latency_result_def exec_drop_def bind_eq_Some_conv u64_sub_Some
          word_le_nat_alt split: if_splits)
    have row: "latency_row E (InsertScalabilityLatency item) (l_start_data_computing w) data k = ?row"
      using es by (simp add: latency_row_def latency_at_def)
    have "without m (\<lambda>x. x \<in> set (k # ks) \<and> ?r x) = without (m(k := None)) (\<lambda>x. x \<in> set ks \<and> ?r x)" for m
      using True by (auto simp: without_def fun_eq_iff)
    note eq = this [of "l_end_data_computing w"]
    show ?thesis
      unfolding eq using Cons.IH [OF rec] True row le es by (simp add: fun_upd_def)
  qed
qed

lemma scalability_latency_loop_no_start:
  "l_start_data_computing w = Map.empty \<Longrightarrow> scalability_latency_loop E item data ks w = Some w"
  by (induction ks) (simp_all split: option.splits)

text \<open>
  The scalability test reports every end datum with start data once, and panics when one
  completed before its start. Unlike the plain latency test it then forgets all start data: end
  data stored afterwards for the requests seen so far are never reported, the next
  computation adds no row.
\<close>

theorem scalability_latency_forgets_starts:
  assumes "compute_scalability_latency E ends w item = Some w'" and "enumerates ends (l_end_data w)"
  shows "(\<forall>k e s. l_end_data w k = Some e \<longrightarrow> l_start_data w (snd k) = Some s \<longrightarrow> start_time s \<le> completed_time e) \<and>
    mysql_trace w' = mysql_trace w @ map (latency_row E (InsertScalabilityLatency item) (l_start_data w) (l_end_data w))
      (filter (\<lambda>k. l_start_data w (snd k) \<noteq> None) ends) \<and>
    l_start_data w' = Map.empty \<and> l_end_data w' = without (l_end_data w) (\<lambda>k. l_start_data w (snd k) \<noteq> None) \<and>
    (\<forall>peer data ends2. \<exists>w''. compute_scalability_latency E ends2 (store_consensus_end_data E w' peer data) item = Some w'' \<and>
       mysql_trace w'' = mysql_trace w')"
proof -
  from assms(1) obtain w2 where
    loop: "scalability_latency_loop E item (l_end_data w) ends (prepare_compute_latency w) = Some w2"
    and w': "w' = w2\<lparr>l_end_data := l_end_data w2 ++ l_end_data_computing w2,
              l_start_data_computing := Map.empty, l_end_data_computing := Map.empty\<rparr>"
    by (auto simp: compute_scalability_latency_def prepare_compute_latency_def bind_eq_Some_conv Let_def)
  note st = scalability_latency_loop_state [OF loop]
  have dom: "k \<in> set ends \<longleftrightarrow> l_end_data w k \<noteq> None" for k
    using enumerates_in_dom [OF assms(2)] by blast
  have wo: "without (l_end_data w) (\<lambda>k. k \<in> set ends \<and> both (l_start_data w) (l_end_data w) k) =
      without (l_end_data w) (matched (l_start_data w))"
    by (auto simp: without_def fun_eq_iff dom)
  have fi: "filter (both (l_start_data w) (l_end_data w)) ends = filter (matched (l_start_data w)) ends"
    by (rule filter_cong) (use dom in auto)
  have w2: "w2 = (prepare_compute_latency w)\<lparr>l_end_data_computing := without (l_end_data w) (matched (l_start_data w)),
      mysql_trace := mysql_trace w @ map (latency_row E (InsertScalabilityLatency item) (l_start_data w) (l_end_data w))
        (filter (matched (l_start_data w)) ends)\<rparr>"
    using st wo fi by (simp add: prepare_compute_latency_def)
  have "start_time s \<le> completed_time e" if "l_end_data w k = Some e" "l_start_data w (snd k) = Some s" for k e s
    using st that dom [of k] by (auto simp: prepare_compute_latency_def)
  moreover have start: "l_start_data w' = Map.empty"
    by (simp add: w' w2 prepare_compute_latency_def)
  moreover have "\<exists>w''. compute_scalability_latency E ends2 (store_consensus_end_data E w' peer data) item = Some w'' \<and>
      mysql_trace w'' = mysql_trace w'" for peer data ends2
    using start by (simp add: compute_scalability_latency_def prepare_compute_latency_def
        store_consensus_end_data_def scalability_latency_loop_no_start Let_def)
  ultimately show ?thesis by (simp add: w' w2 prepare_compute_latency_def)
qed

theorem scalability_latency_forgets_starts_witness:
  "\<exists>w'. compute_scalability_latency dw_demo_ext dw_demo_order dw_demo (Scalability 4 8 2) = Some w' \<and>
     length (mysql_trace w') = 2 \<and> l_start_data w' = Map.empty"
proof -
  obtain w' where w': "compute_scalability_latency dw_demo_ext dw_demo_order dw_demo (Scalability 4 8 2) = Some w'"
    by (simp add: compute_scalability_latency_def prepare_compute_latency_def insert_scalability_latency_result_def
      dw_demo_ends_def dw_start_def dw_end_def u64_sub_def)
  have "enumerates dw_demo_order (l_end_data dw_demo)" using dw_demo_enumerates by simp
  from scalability_latency_forgets_starts [OF w' this] w' show ?thesis by simp
qed

subsection \<open>Security tests\<close>

text \<open>The requests that selected end data of a peer report, in iteration order.\<close>

definition reported_requests :: "(peer_id \<times> string \<rightharpoonup> consensus_end_data) \<Rightarrow> (peer_id \<times> string \<Rightarrow> bool) \<Rightarrow>
    (peer_id \<times> string) list \<Rightarrow> peer_id \<Rightarrow> request list" where
  "reported_requests data P ks p = map (\<lambda>k. end_request (the (data k)))
     (filter (\<lambda>k. fst k = p \<and> data k \<noteq> None \<and> P k) ks)"

lemma crash_loop_state:
  "crash_loop data ks w results = (w', results') \<Longrightarrow>
   w' = w\<lparr>s_end_data := without (s_end_data w) (\<lambda>k. k \<in> set ks \<and> both (s_start_data w) data k)\<rparr> \<and>
   (\<forall>p. bucket results' p = bucket results p @ reported_requests data (matched (s_start_data w)) ks p)"
proof (induction ks arbitrary: w results)
  case Nil
  then show ?case by (auto simp: without_def reported_requests_def)
next
  case (Cons k ks)
  let ?r = "both (s_start_data w) data"
  show ?case
  proof (cases "?r k")
    case False
    have "without m (\<lambda>x. x \<in> set (k # ks) \<and> ?r x) = without m (\<lambda>x. x \<in> set ks \<and> ?r x)" for m
      using False by (auto simp: without_def fun_eq_iff)
    moreover have "crash_loop data ks w results = (w', results')"
      using Cons.prems False by (auto split: option.splits)
    ultimately show ?thesis using Cons.IH False by (auto simp: reported_requests_def)
  next
    case True
    then obtain e s where es: "data k = Some e" "s_start_data w (snd k) = Some s" by auto
    have "without m (\<lambda>x. x \<in> set (k # ks) \<and> ?r x) = without (m(k := None)) (\<lambda>x. x \<in> set ks \<and> ?r x)" for m
      using True by (auto simp: without_def fun_eq_iff)
    note eq = this [of "s_end_data w"]
    have rec: "crash_loop data ks (w\<lparr>s_end_data := (s_end_data w)(k := None)\<rparr>)
        (store_security_result results (fst k) (end_request e)) = (w', results')"
      using Cons.prems es by simp
    show ?thesis
      unfolding eq using Cons.IH [OF rec] es
      by (simp add: store_security_result_def reported_requests_def fun_upd_def)
  qed
qed

lemma malicious_loop_state:
  "malicious_loop data ks w results = (w', results') \<Longrightarrow>
   w' = w\<lparr>s_end_data := without (s_end_data w) (\<lambda>k. k \<in> set ks \<and> data k \<noteq> None)\<rparr> \<and>
   (\<forall>p. bucket results' p = bucket results p @ reported_requests data (\<lambda>k. True) ks p)"
proof (induction ks arbitrary: w results)
  case Nil
  then show ?case by (auto simp: without_def reported_requests_def)
next
  case (Cons k ks)
  show ?case
  proof (cases "data k")
    case None
    have "without m (\<lambda>x. x \<in> set (k # ks) \<and> data x \<noteq> None) = without m (\<lambda>x. x \<in> set ks \<and> data x \<noteq> None)" for m
      using None by (auto simp: without_def fun_eq_iff)
    with Cons None show ?thesis by (auto simp: reported_requests_def)
  next
    case (Some e)
    have "without m (\<lambda>x. x \<in> set (k # ks) \<and> data x \<noteq> None) =
        without (m(k := None)) (\<lambda>x. x \<in> set ks \<and> data x \<noteq> None)" for m
      using Some by (auto simp: without_def fun_eq_iff)
    note eq = this [of "s_end_data w"]
    have rec: "malicious_loop data ks (w\<lparr>s_end_data := (s_end_data w)(k := None)\<rparr>)
        (store_security_result results (fst k) (end_request e)) = (w', results')"
      using Cons.prems Some by simp
    show ?thesis
      unfolding eq using Cons.IH [OF rec] Some
      by (simp add: store_security_result_def reported_requests_def fun_upd_def)
  qed
qed

text \<open>The results recorded for a key, none when there is no entry yet.\<close>

definition results_at :: "('k \<rightharpoonup> (peer_id \<rightharpoonup> security_result)) \<Rightarrow> 'k \<Rightarrow> peer_id \<Rightarrow> request list" where
  "results_at m k p = (case m k of None \<Rightarrow> [] | Some r \<Rightarrow> bucket r p)"

text \<open>
  The crash test moves exactly the end data whose request has start data into the
  results of its crash count, appended per peer in iteration order to what is there; end data
  without start data stay, and the results of other crash counts are unchanged.
\<close>

theorem crash_results_collected:
  assumes "enumerates ends (s_end_data w)"
  shows "results_at (crash_results_map (test_crash ends w n)) n p =
      results_at (crash_results_map w) n p @
      reported_requests (s_end_data w) (\<lambda>k. s_start_data w (snd k) \<noteq> None) ends p \<and>
    (\<forall>m. m \<noteq> n \<longrightarrow> crash_results_map (test_crash ends w n) m = crash_results_map w m) \<and>
    s_end_data (test_crash ends w n) = without (s_end_data w) (\<lambda>k. s_start_data w (snd k) \<noteq> None) \<and>
    s_start_data (test_crash ends w n) = s_start_data w"
proof -
  obtain w1 results where r: "crash_results w n = (w1, results)" by (cases "crash_results w n")
  then have w1: "s_end_data w1 = s_end_data w" "s_start_data w1 = s_start_data w"
    "\<forall>m. m \<noteq> n \<longrightarrow> crash_results_map w1 m = crash_results_map w m" "bucket results p = results_at (crash_results_map w) n p"
    by (auto simp: crash_results_def results_at_def split: option.splits)
  obtain w2 results1 where l: "crash_loop (s_end_data w) ends w1 results = (w2, results1)"
    by (cases "crash_loop (s_end_data w) ends w1 results")
  note st = crash_loop_state [OF l]
  have "without (s_end_data w) (\<lambda>k. k \<in> set ends \<and> both (s_start_data w) (s_end_data w) k) =
      without (s_end_data w) (matched (s_start_data w))"
    using assms by (auto simp: without_def fun_eq_iff enumerates_def)
  with st w1 have w2: "w2 = w1\<lparr>s_end_data := without (s_end_data w) (matched (s_start_data w))\<rparr>" by simp
  have "test_crash ends w n = w2\<lparr>crash_results_map := (crash_results_map w2)(n \<mapsto> results1)\<rparr>"
    using r l w1 by (simp add: test_crash_def)
  with w2 st w1 show ?thesis by (simp add: results_at_def)
qed

theorem crash_results_collected_witness:
  "results_at (crash_results_map (test_crash dw_demo_order dw_demo 1)) 1 [1] = [\<lparr>cmd = ''a''\<rparr>] \<and>
   s_end_data (test_crash dw_demo_order dw_demo 1) ([1], ''b'') = Some (dw_end ''b'')"
proof -
  have "enumerates dw_demo_order (s_end_data dw_demo)" using dw_demo_enumerates by simp
  from crash_results_collected [OF this, of 1 "[1]"] show ?thesis
    by (simp add: results_at_def reported_requests_def dw_demo_ends_def dw_end_def without_def)
qed

text \<open>
  Resetting the warehouse for a new test item keeps the data of the security tests, and
  the malicious test asks for no start data: every end datum that any earlier test has left
  is attributed to the item, appended per peer in iteration order, and none is left.
\<close>

theorem malicious_test_takes_leftovers:
  assumes "enumerates ends (s_end_data w)"
  shows "results_at (malicious_results (test_malicious ends (dw_reset w) item)) item p =
      results_at (malicious_results w) item p @ reported_requests (s_end_data w) (\<lambda>k. True) ends p \<and>
    s_end_data (test_malicious ends (dw_reset w) item) = Map.empty"
proof -
  obtain w1 results where r: "malicous_results (dw_reset w) item = (w1, results)"
    by (cases "malicous_results (dw_reset w) item")
  then have w1: "s_end_data w1 = s_end_data w" "bucket results p = results_at (malicious_results w) item p"
    by (auto simp: malicous_results_def results_at_def dw_reset_def split: option.splits)
  obtain w2 results1 where l: "malicious_loop (s_end_data w) ends w1 results = (w2, results1)"
    by (cases "malicious_loop (s_end_data w) ends w1 results")
  note st = malicious_loop_state [OF l]
  have "without (s_end_data w) (\<lambda>k. k \<in> set ends \<and> s_end_data w k \<noteq> None) = Map.empty"
    using assms by (auto simp: without_def fun_eq_iff enumerates_def)
  with st w1 have w2: "w2 = w1\<lparr>s_end_data := Map.empty\<rparr>" by simp
  have "test_malicious ends (dw_reset w) item =
      w2\<lparr>malicious_results := (malicious_results w2)(item \<mapsto> results1)\<rparr>"
    using r l w1 by (simp add: test_malicious_def)
  with w2 st w1 show ?thesis by (simp add: results_at_def)
qed

theorem malicious_test_takes_leftovers_witness:
  "results_at (malicious_results (test_malicious dw_demo_order (dw_reset dw_demo)
      (Malicious (LeaderDelaySendMessage FirstRound 1)))) (Malicious (LeaderDelaySendMessage FirstRound 1)) [1] =
    [\<lparr>cmd = ''a''\<rparr>, \<lparr>cmd = ''b''\<rparr>]"
proof -
  have "enumerates dw_demo_order (s_end_data dw_demo)" using dw_demo_enumerates by simp
  from malicious_test_takes_leftovers [OF this, of "Malicious (LeaderDelaySendMessage FirstRound 1)" "[1]"]
  show ?thesis by (simp add: results_at_def reported_requests_def dw_demo_ends_def dw_end_def)
qed

text \<open>
  The crash nodes recorded for a count are the nodes recorded for whatever count the hash
  map happens to iterate last, plus the new one: for the same recorded nodes, two iteration
  orders that end in different counts give different results when these counts' nodes differ.
\<close>

theorem crash_nodes_depend_on_order:
  assumes "enumerates o1 (crash_nodes w)" and "enumerates o2 (crash_nodes w)" and "crash_nodes w \<noteq> Map.empty"
    and "crash_nodes w (last o1) \<noteq> crash_nodes w (last o2)"
  shows "\<exists>w1 w2. record_crash_node o1 w n peer = Some w1 \<and> record_crash_node o2 w n peer = Some w2 \<and>
    crash_nodes w1 n = Some (the (crash_nodes w (last o1)) @ [peer]) \<and>
    crash_nodes w2 n = Some (the (crash_nodes w (last o2)) @ [peer]) \<and> crash_nodes w1 n \<noteq> crash_nodes w2 n"
proof -
  have ne: "ord \<noteq> [] \<and> (\<exists>v. crash_nodes w (last ord) = Some v)" if "enumerates ord (crash_nodes w)" for ord
  proof -
    from that assms(3) have "set ord \<noteq> {}" by (metis dom_eq_empty_conv enumerates_def)
    then have "ord \<noteq> []" by auto
    with that last_in_set [of ord] show ?thesis by (auto simp: enumerates_def)
  qed
  from ne [OF assms(1)] ne [OF assms(2)] assms(4) show ?thesis
    by (auto simp: record_crash_node_def)
qed

theorem crash_nodes_depend_on_order_witness:
  "\<exists>w1 w2. record_crash_node [1, 2] (data_warehouse_new\<lparr>crash_nodes := [1 \<mapsto> [[1]], 2 \<mapsto> [[1], [2]]]\<rparr>) 3 [3] = Some w1 \<and>
     record_crash_node [2, 1] (data_warehouse_new\<lparr>crash_nodes := [1 \<mapsto> [[1]], 2 \<mapsto> [[1], [2]]]\<rparr>) 3 [3] = Some w2 \<and>
     crash_nodes w1 3 \<noteq> crash_nodes w2 3"
proof -
  let ?w = "data_warehouse_new\<lparr>crash_nodes := [1 \<mapsto> [[1]], 2 \<mapsto> [[1], [2]]]\<rparr>"
  have "enumerates [1, 2] (crash_nodes ?w)" "enumerates [2, 1] (crash_nodes ?w)" "crash_nodes ?w \<noteq> Map.empty"
    by (auto simp: enumerates_def)
  from crash_nodes_depend_on_order [OF this, of 3 "[3]"] show ?thesis by auto
qed

subsection \<open>Printing\<close>

lemma print_pages_from:
  assumes limit: "\<And>s c. query s c = take (unat c) (drop (unat s) rows)"
    and small: "length rows + 100 < 2 ^ 64"
  shows "n \<le> length rows \<Longrightarrow> print_pages query (of_nat n) (take n rows) = Some (rows, of_nat (length rows))"
proof (induction "length rows - n" arbitrary: n rule: less_induct)
  case less
  have un: "unat (of_nat m :: u64) = m" if "m \<le> length rows + 100" for m
  proof -
    from that small have "m < 2 ^ LENGTH(64)" by simp
    then show ?thesis by (simp only: unat_of_nat mod_less)
  qed
  from less.prems un [of n] have page: "query (of_nat n) 100 = take 100 (drop n rows)" by (simp add: limit)
  show ?case
  proof (cases "length rows - n < 100")
    case True
    with page have all: "query (of_nat n) 100 = drop n rows" by simp
    have "u64_add (of_nat n) (of_nat (length rows - n)) = Some (of_nat (length rows))"
      using less.prems un [of n] un [of "length rows - n"] small
      by (simp add: u64_add_def flip: of_nat_add)
    with True all less.prems show ?thesis
      by (subst print_pages.simps) (simp add: Let_def)
  next
    case False
    have "u64_add (of_nat n) 100 = Some (of_nat (n + 100))"
      using less.prems un [of n] small by (simp add: u64_add_def)
    moreover have "take n rows @ take 100 (drop n rows) = take (n + 100) rows" by (simp add: take_add)
    moreover have "print_pages query (of_nat (n + 100)) (take (n + 100) rows) = Some (rows, of_nat (length rows))"
      using False less.prems by (intro less.hyps) simp_all
    ultimately show ?thesis
      using False by (subst print_pages.simps) (simp add: Let_def page)
  qed
qed

text \<open>
  Printing terminates and is complete: when the database answers a query with a limit by
  the requested slice of its rows, the paging loops of the throughput and of the latency
  results end, print every row exactly once and in order, and print the right total.
\<close>

theorem print_results_complete:
  assumes "\<And>s c. mysql_throughput E (mysql_trace w) s c = Some (take (unat c) (drop (unat s) rows))"
    and "\<And>s c. mysql_latency E (mysql_trace w) s c = Some (take (unat c) (drop (unat s) lrows))"
    and "length rows + 100 < 2 ^ 64" and "length lrows + 100 < 2 ^ 64"
  shows "print_throughput_results E w = Some (rows, of_nat (length rows)) \<and>
    print_latency_results E w =
      Some (map (\<lambda>(p, c, l). (p, \<lparr>cmd = c\<rparr>, l)) lrows, of_nat (length lrows))"
proof
  have "query_throughput_results E w s c = take (unat c) (drop (unat s) rows)" for s c
    by (simp add: query_throughput_results_def rows_of_def assms(1))
  from print_pages_from [OF this assms(3), of 0]
  show "print_throughput_results E w = Some (rows, of_nat (length rows))"
    by (simp add: print_throughput_results_def)
  let ?f = "\<lambda>(p, c, l). (p, \<lparr>cmd = c\<rparr>, l)"
  have "query_latency_results E w s c = take (unat c) (drop (unat s) (map ?f lrows))" for s c
    by (simp add: query_latency_results_def rows_of_def assms(2) take_map drop_map)
  from print_pages_from [OF this, of 0] assms(4)
  show "print_latency_results E w = Some (map ?f lrows, of_nat (length lrows))"
    by (simp add: print_latency_results_def)
qed

theorem print_results_complete_witness:
  "print_throughput_results (dw_demo_ext\<lparr>
      mysql_throughput := (\<lambda>t s c. Some (take (unat c) (drop (unat s) (replicate 250 (0, ''n'', 5))))),
      mysql_latency := (\<lambda>t s c. Some [])\<rparr>) dw_demo = Some (replicate 250 (0, ''n'', 5), 250)"
  using print_results_complete [of "dw_demo_ext\<lparr>
      mysql_throughput := (\<lambda>t s c. Some (take (unat c) (drop (unat s) (replicate 250 (0, ''n'', 5))))),
      mysql_latency := (\<lambda>t s c. Some [])\<rparr>" dw_demo "replicate 250 (0, ''n'', 5)" "[]"]
  by (simp add: min_def)

subsection \<open>Accuracy of the throughput\<close>

lemma close_bounds:
  assumes "close y x"
  shows "x * (1 - 1 / 2 ^ 53) \<le> y" and "y \<le> x * (1 + 1 / 2 ^ 53)"
proof -
  define z where "z = x / 2 ^ 53"
  have "x * (1 - 1 / 2 ^ 53) = x - z" "x * (1 + 1 / 2 ^ 53) = x + z"
    by (simp_all add: z_def right_diff_distrib distrib_left)
  moreover have "\<bar>y - x\<bar> \<le> z" using assms by (simp add: close_def z_def)
  ultimately show "x * (1 - 1 / 2 ^ 53) \<le> y" and "y \<le> x * (1 + 1 / 2 ^ 53)" by (simp_all only: abs_le_iff) linarith+
qed

text \<open>The denominator, the elapsed time in seconds, takes three roundings.\<close>

lemma elapsed_seconds:
  assumes "0 < elapsed"
  defines "l \<equiv> real (unat elapsed)"
  obtains p q where "f64_mul (f64_round 1 1000) (f64_of_u64 elapsed) = Finite p q"
    and "0 < q" and "0 < real p / real q"
    and "l / 1000 * (1 - 1 / 2 ^ 53) ^ 3 \<le> real p / real q"
    and "real p / real q \<le> l / 1000 * (1 + 1 / 2 ^ 53) ^ 3"
proof -
  let ?e = "1 / 2 ^ 53 :: real"
  have "0 < unat elapsed" using assms(1) by (simp add: unat_gt_0 word_neq_0_conv [symmetric])
  then have pos: "0 < l" unfolding l_def by (simp only: of_nat_0_less_iff)
  obtain a b where k: "f64_round 1 1000 = Finite a b" using f64_round_close [of 1000 1] by (cases "f64_round 1 1000") auto
  obtain m n where el: "f64_of_u64 elapsed = Finite m n"
    using f64_round_close [of 1 "unat elapsed"] by (cases "f64_round (unat elapsed) 1") (auto simp: f64_of_u64_def)
  have K: "0 < b" "close (real a / real b) (1 / 1000)" using f64_round_close [of 1000 1] k by simp_all
  have L: "0 < n" "close (real m / real n) l"
    unfolding l_def using f64_round_close [of 1 "unat elapsed"] el by (simp_all add: f64_of_u64_def)
  obtain p q where d: "f64_round (a * m) (b * n) = Finite p q"
    using f64_round_close [of "b * n" "a * m"] K L by (cases "f64_round (a * m) (b * n)") auto
  have D: "0 < q" "close (real p / real q) (real a / real b * (real m / real n))"
    using f64_round_close [of "b * n" "a * m"] d K L by simp_all
  have km: "1 / 1000 * (1 - ?e) * (l * (1 - ?e)) \<le> real a / real b * (real m / real n)"
    "real a / real b * (real m / real n) \<le> 1 / 1000 * (1 + ?e) * (l * (1 + ?e))"
    by (rule mult_mono; use close_bounds [OF K(2)] close_bounds [OF L(2)] pos in simp)+
  have dlo: "l / 1000 * (1 - ?e) ^ 3 \<le> real p / real q"
  proof -
    have "l / 1000 * (1 - ?e) ^ 3 = (1 / 1000 * (1 - ?e) * (l * (1 - ?e))) * (1 - ?e)" by (simp add: power3_eq_cube)
    also have "\<dots> \<le> real a / real b * (real m / real n) * (1 - ?e)" using km(1) by (rule mult_right_mono) simp
    finally show ?thesis using close_bounds(1) [OF D(2)] by (rule order_trans)
  qed
  have dhi: "real p / real q \<le> l / 1000 * (1 + ?e) ^ 3"
  proof -
    have "real a / real b * (real m / real n) * (1 + ?e) \<le> (1 / 1000 * (1 + ?e) * (l * (1 + ?e))) * (1 + ?e)"
      using km(2) by (rule mult_right_mono) simp
    also have "\<dots> = l / 1000 * (1 + ?e) ^ 3" by (simp add: power3_eq_cube)
    finally show ?thesis using close_bounds(2) [OF D(2)] by (rule order_trans [rotated])
  qed
  have "0 < l / 1000 * (1 - ?e) ^ 3" using pos by simp
  then have dpos: "0 < real p / real q" using dlo by (rule less_le_trans)
  have "f64_mul (f64_round 1 1000) (f64_of_u64 elapsed) = Finite p q" unfolding k el using d by simp
  then show ?thesis using D(1) dpos dlo dhi by (rule that)
qed

text \<open>The five roundings of the computation leave a relative error below \<open>2 ^ -50\<close>.\<close>

lemma throughput_value:
  assumes "0 < elapsed" and "0 < count"
  defines "t \<equiv> f64_div (f64_of_u64 count) (f64_mul (f64_round 1 1000) (f64_of_u64 elapsed))"
    and "T \<equiv> 1000 * real (unat count) / real (unat elapsed)"
  shows "f64_ok t \<and> T * (1 - 1 / 2 ^ 50) \<le> f64_val t \<and> f64_val t \<le> T * (1 + 1 / 2 ^ 50)"
proof -
  let ?e = "1 / 2 ^ 53 :: real"
  let ?c = "real (unat count)" and ?l = "real (unat elapsed)"
  have "0 < unat count" "0 < unat elapsed" using assms(1,2) by (simp_all add: unat_gt_0 word_neq_0_conv [symmetric])
  then have pos: "0 < ?c" "0 < ?l" by (simp_all only: of_nat_0_less_iff)
  obtain x y where c: "f64_of_u64 count = Finite x y"
    using f64_round_close [of 1 "unat count"] by (cases "f64_round (unat count) 1") (auto simp: f64_of_u64_def)
  have C: "0 < y" "close (real x / real y) ?c"
    using f64_round_close [of 1 "unat count"] c by (simp_all add: f64_of_u64_def)
  obtain p q where d: "f64_mul (f64_round 1 1000) (f64_of_u64 elapsed) = Finite p q" and q: "0 < q"
    and dpos: "0 < real p / real q" and dlo: "?l / 1000 * (1 - ?e) ^ 3 \<le> real p / real q"
    and dhi: "real p / real q \<le> ?l / 1000 * (1 + ?e) ^ 3"
    using elapsed_seconds [OF assms(1)] by blast
  from dpos have p: "p \<noteq> 0" by (intro notI) simp
  have t: "t = f64_round (x * q) (y * p)"
    unfolding t_def c d using p by simp
  have R: "f64_ok t" "close (f64_val t) (real x / real y / (real p / real q))"
    using f64_round_close [of "y * p" "x * q"] C p t by simp_all
  have hi: "real x / real y / (real p / real q) \<le> T * ((1 + ?e) / (1 - ?e) ^ 3)"
  proof -
    have "real x / real y / (real p / real q) \<le> ?c * (1 + ?e) / (?l / 1000 * (1 - ?e) ^ 3)"
      using close_bounds(2) [OF C(2)] dlo pos by (intro frac_le) simp_all
    also have "\<dots> = T * ((1 + ?e) / (1 - ?e) ^ 3)" by (simp add: T_def)
    finally show ?thesis .
  qed
  have lo: "T * ((1 - ?e) / (1 + ?e) ^ 3) \<le> real x / real y / (real p / real q)"
  proof -
    have "?c * (1 - ?e) / (?l / 1000 * (1 + ?e) ^ 3) \<le> real x / real y / (real p / real q)"
      using close_bounds(1) [OF C(2)] dhi dpos pos by (intro frac_le) simp_all
    moreover have "?c * (1 - ?e) / (?l / 1000 * (1 + ?e) ^ 3) = T * ((1 - ?e) / (1 + ?e) ^ 3)" by (simp add: T_def)
    ultimately show ?thesis by simp
  qed
  have T: "0 \<le> T" unfolding T_def by (intro divide_nonneg_nonneg mult_nonneg_nonneg of_nat_0_le_iff) simp
  have "f64_val t \<le> T * ((1 + ?e) / (1 - ?e) ^ 3) * (1 + ?e)"
    using close_bounds(2) [OF R(2)] mult_right_mono [OF hi, of "1 + ?e"] by simp
  also have "\<dots> = T * ((1 + ?e) / (1 - ?e) ^ 3 * (1 + ?e))" by simp
  also have "\<dots> \<le> T * (1 + 1 / 2 ^ 50)" using T by (intro mult_left_mono) (simp_all add: power3_eq_cube)
  finally have upper: "f64_val t \<le> T * (1 + 1 / 2 ^ 50)" .
  have "T * (1 - 1 / 2 ^ 50) \<le> T * ((1 - ?e) / (1 + ?e) ^ 3 * (1 - ?e))"
    using T by (intro mult_left_mono) (simp_all add: power3_eq_cube)
  also have "\<dots> = T * ((1 - ?e) / (1 + ?e) ^ 3) * (1 - ?e)" by simp
  also have "\<dots> \<le> f64_val t"
    using close_bounds(1) [OF R(2)] mult_right_mono [OF lo, of "1 - ?e"] by simp
  finally show ?thesis using upper R(1) by blast
qed


lemma f64_as_u64_floor:
  assumes "f64_ok t" and "f64_val t < 2 ^ 64"
  shows "real (unat (f64_as_u64 t)) \<le> f64_val t \<and> f64_val t < real (unat (f64_as_u64 t)) + 1"
proof -
  from assms(1) obtain a b where t: "t = Finite a b" and b: "0 < b" by (cases t) simp_all
  have "real a < 2 ^ 64 * real b" using assms(2) b t by (simp add: field_simps)
  then have "a < 2 ^ 64 * b" by (metis (mono_tags) of_nat_less_iff of_nat_mult of_nat_numeral of_nat_power)
  then have q: "a div b < 2 ^ 64" using b by (simp add: less_mult_imp_div_less)
  then have "unat (f64_as_u64 t) = a div b" unfolding t by (simp add: unat_of_nat take_bit_nat_eq_self)
  moreover have "real (a div b) \<le> real a / real b" by (rule of_nat_div_le_of_nat)
  moreover have "real a / real b < real (a div b) + 1"
  proof -
    have "a < (a div b + 1) * b" using b dividend_less_times_div [of b a] by (simp add: algebra_simps)
    then have "real a < (real (a div b) + 1) * real b" by (metis of_nat_1 of_nat_add of_nat_less_iff of_nat_mult)
    then show ?thesis using b by (simp add: pos_divide_less_eq)
  qed
  ultimately show ?thesis unfolding t by simp
qed

lemma f64_as_u64_saturates:
  assumes "f64_ok t" and "2 ^ 64 \<le> f64_val t"
  shows "f64_as_u64 t = - 1"
proof -
  from assms(1) obtain a b where t: "t = Finite a b" and b: "0 < b" by (cases t) simp_all
  have "2 ^ 64 * real b \<le> real a" using assms(2) b t by (simp add: field_simps)
  then have "2 ^ 64 * b \<le> a" by (metis (mono_tags) of_nat_le_iff of_nat_mult of_nat_numeral of_nat_power)
  then have "2 ^ 64 \<le> a div b" using b by (simp add: less_eq_div_iff_mult_less_eq)
  then show ?thesis unfolding t by simp
qed

lemma throughput_of_zero_time:
  assumes "0 < count"
  shows "f64_div (f64_of_u64 count) (f64_mul (f64_round 1 1000) (f64_of_u64 0)) = Infinity"
proof -
  obtain a b where k: "f64_round 1 1000 = Finite a b" using f64_round_close [of 1000 1] by (cases "f64_round 1 1000") auto
  obtain x y where c: "f64_of_u64 count = Finite x y"
    using f64_round_close [of 1 "unat count"] by (cases "f64_round (unat count) 1") (auto simp: f64_of_u64_def)
  have "unat count \<noteq> 0" using assms by (simp add: unat_eq_zero word_neq_0_conv)
  then have "0 < real (unat count) * (1 - 1 / 2 ^ 53)" by (simp only: zero_less_mult_iff of_nat_0_less_iff) simp
  moreover have "close (real x / real y) (real (unat count))"
    using f64_round_close [of 1 "unat count"] c by (simp add: f64_of_u64_def)
  ultimately have "0 < real x / real y" using close_bounds(1) by (blast intro: less_le_trans)
  then have "x \<noteq> 0" by (intro notI) simp
  then show ?thesis using c k by (simp add: f64_of_u64_def f64_round_def)
qed

text \<open>
  C35. The throughput of a node is its number of requests per second up to rounding. When the
  computation returns, the product of the round and the interval has not overflowed, and for a
  non-zero count over a non-zero time the reported value differs from the exact quotient by less
  than one plus a relative error of \<open>2 ^ -50\<close>, provided that the quotient is below \<open>2 ^ 63\<close>; for
  quotients from \<open>2 ^ 65\<close> on the conversion saturates and the largest \<open>u64\<close> is reported, as it is
  when the time is zero, where the division yields an infinity.
\<close>

theorem throughput_accuracy:
  assumes "throughput_of count rnd internal = Some t" and "0 < count"
  defines "T \<equiv> 1000 * real (unat count) / (real (unat rnd) * real (unat internal))"
  shows "unat rnd * unat internal < 2 ^ 64 \<and>
    (if rnd = 0 \<or> internal = 0 then t = - 1
     else (T < 2 ^ 63 \<longrightarrow> \<bar>real (unat t) - T\<bar> < 1 + T / 2 ^ 50) \<and> (2 ^ 65 \<le> T \<longrightarrow> t = - 1))"
proof (intro conjI)
  from assms(1) obtain elapsed where e: "u64_mul rnd internal = Some elapsed"
    and t: "t = f64_as_u64 (f64_div (f64_of_u64 count) (f64_mul (f64_round 1 1000) (f64_of_u64 elapsed)))"
    by (auto simp: throughput_of_def bind_eq_Some_conv)
  have ue: "unat elapsed = unat rnd * unat internal" by (rule u64_mul_unat [OF e])
  show "unat rnd * unat internal < 2 ^ 64" using e by (simp add: u64_mul_def split: if_splits)
  show "if rnd = 0 \<or> internal = 0 then t = - 1
    else (T < 2 ^ 63 \<longrightarrow> \<bar>real (unat t) - T\<bar> < 1 + T / 2 ^ 50) \<and> (2 ^ 65 \<le> T \<longrightarrow> t = - 1)"
  proof (cases "rnd = 0 \<or> internal = 0")
    case True
    then have z: "elapsed = 0" using ue by (auto simp: unat_eq_zero)
    have "t = - 1" unfolding t z throughput_of_zero_time [OF assms(2)] by simp
    then show ?thesis using True by simp
  next
    case False
    then have "unat elapsed \<noteq> 0" using ue by (simp add: unat_eq_zero)
    then have el: "0 < elapsed" by (metis unat_0 word_neq_0_conv)
    have T: "T = 1000 * real (unat count) / real (unat elapsed)" unfolding T_def ue by simp
    let ?v = "f64_val (f64_div (f64_of_u64 count) (f64_mul (f64_round 1 1000) (f64_of_u64 elapsed)))"
    note v = throughput_value [OF el assms(2), folded T]
    { assume small: "T < 2 ^ 63"
      have T0: "0 \<le> T" unfolding T_def by (intro divide_nonneg_nonneg mult_nonneg_nonneg of_nat_0_le_iff) simp
      have hi: "?v \<le> T + T / 2 ^ 50" and lo: "T - T / 2 ^ 50 \<le> ?v"
        using v by (simp_all add: algebra_simps)
      have "?v < 2 ^ 64" using hi small by simp
      then have "real (unat t) \<le> ?v \<and> ?v < real (unat t) + 1"
        unfolding t using v by (intro f64_as_u64_floor) blast+
      then have "\<bar>real (unat t) - T\<bar> < 1 + T / 2 ^ 50" using hi lo T0 by (auto simp only: abs_less_iff) }
    moreover
    { assume "2 ^ 65 \<le> T"
      moreover have "T - T / 2 ^ 50 \<le> ?v" using v by (simp add: algebra_simps)
      ultimately have "2 ^ 64 \<le> ?v" by simp
      then have "t = - 1" unfolding t using v by (intro f64_as_u64_saturates) blast+ }
    ultimately show ?thesis using False by simp
  qed
qed

lemma floorlog_demo [simp]:
  "floorlog 2 (Suc 0) = 1"
  "floorlog 2 (50::nat) = 6"
  "floorlog 2 (300::nat) = 9"
  "floorlog 2 (1000::nat) = 10"
  "floorlog 2 (760590360136937612750524252160::nat) = 100"
  "floorlog 2 (24338891524382005015391659622400::nat) = 105"
  "floorlog 2 (81129638414606681695789005144064::nat) = 107"
  "floorlog 2 (126765060022822940149670320537600::nat) = 107"
  by (simp_all add: compute_floorlog)

lemma f64_demo [simp]:
  "f64_round (Suc 0) 1000 = Finite 4611686018427388 4611686018427387904"
  "f64_round 50 (Suc 0) = Finite 7036874417766400 140737488355328"
  "f64_round 300 (Suc 0) = Finite 5277655813324800 17592186044416"
  "f64_round 24338891524382005015391659622400 81129638414606681695789005144064 = Finite 5404319552844595 18014398509481984"
  "f64_round 126765060022822940149670320537600 760590360136937612750524252160 = Finite 5864062014805334 35184372088832"
  by (simp_all add: f64_round_def f64_exponent_def scaled_def round_half_even_def)

theorem throughput_accuracy_witness:
  "throughput_of 50 3 100 = Some 166 \<and> 1000 * 50 / (3 * 100) < (2 ^ 63 :: real)
   \<and> \<bar>166 - 1000 * 50 / (3 * 100)\<bar> < (1 + (1000 * 50 / (3 * 100)) / 2 ^ 50 :: real)"
proof -
  have t: "throughput_of 50 3 100 = Some 166" by (simp add: throughput_of_def f64_of_u64_def u64_mul_def)
  show ?thesis using throughput_accuracy [OF t] t by simp
qed

end
