(* ===== verification/Analyzer_Properties.thy ===== *)
theory Analyzer_Properties
  imports Analyzer Warehouse_Properties
begin

text \<open>
  The analyzer's test cycle: configuring a test item, starting its timer, and reporting its
  completion to the controller.
\<close>

text \<open>Computing changes only the warehouse.\<close>

lemma compute_and_analyse_frame:
  assumes "compute_and_analyse E ord a = Some a'"
  shows "a' = a\<lparr>warehouse := warehouse a'\<rparr>"
  using assms by (auto simp: compute_and_analyse_def bind_eq_Some_conv split: option.splits)

text \<open>A concrete analyzer with a controller, in the middle of a latency test.\<close>

definition an_demo_ext :: dw_ext where
  "an_demo_ext = dw_demo_ext\<lparr>
     bincode_message := (\<lambda>m. case interactive m of CompletedTest i \<Rightarrow> [1] | _ \<Rightarrow> [0]),
     from_bincode_message := (\<lambda>b. if b = [1] then Some \<lparr>interactive = TestItem (Crash 1 2), source = [9]\<rparr>
          else Some \<lparr>interactive = StartTest 0, source = [9]\<rparr>)\<rparr>"

definition an_demo :: analyzer where
  "an_demo = (analyzer_new [7] [9] 5000 1000 6000 7000)\<lparr>warehouse := dw_demo, current_test_item := Some Latency\<rparr>"

lemma an_demo_ext_fields [simp]:
  "peer_from_bytes an_demo_ext = Some" "mysql_accepts an_demo_ext = (\<lambda>t s. True)"
  "from_bincode_message an_demo_ext b = (if b = [1] then Some \<lparr>interactive = TestItem (Crash 1 2), source = [9]\<rparr>
          else Some \<lparr>interactive = StartTest 0, source = [9]\<rparr>)"
  by (simp_all add: an_demo_ext_def dw_demo_ext_def)

lemma an_demo_fields [simp]:
  "warehouse an_demo = dw_demo" "current_test_item an_demo = Some Latency" "controller_id an_demo = [9]"
  "effects an_demo = []" "performance_test_internal an_demo = 1000" "crash_test_duration an_demo = 6000"
  by (simp_all add: an_demo_def analyzer_new_def)

lemma an_demo_exec [simp]: "exec_drop an_demo_ext w s = Some (w\<lparr>mysql_trace := mysql_trace w @ [s]\<rparr>)"
  by (simp add: exec_drop_def)

text \<open>
  The end of a test: when the completion timer fires, the analyzer computes once more,
  sends exactly one message to the controller, the completion of the item under test, and
  clears the item. A completion without an item under test, and so a second completion in a
  row, panics.
\<close>

theorem completion_is_reported_once:
  assumes "analyzer_turn E ord crash_order a CompletedNotified = Some a'"
  shows "(\<exists>item. current_test_item a = Some item \<and>
      effects a' = effects a @ [SendMessage (controller_id a)
        (bincode_message E \<lparr>interactive = CompletedTest item, source = peer_to_bytes E (an_id a)\<rparr>)]) \<and>
    current_test_item a' = None \<and> controller_id a' = controller_id a \<and>
    (\<forall>ord2 crash_order2. analyzer_turn E ord2 crash_order2 a' CompletedNotified = None)"
proof -
  from assms obtain a1 item where c: "compute_and_analyse E ord a = Some a1"
    and item: "current_test_item a1 = Some item"
    and a': "a' = perform (SendMessage (controller_id a1) (bincode_message E
       \<lparr>interactive = CompletedTest item, source = id_bytes E a1\<rparr>)) (clear_test_item a1)"
    by (auto simp: bind_eq_Some_conv next_test_def Let_def clear_test_item_def id_bytes_def)
  from compute_and_analyse_frame [OF c] obtain w where a1: "a1 = a\<lparr>warehouse := w\<rparr>" by blast
  have none: "current_test_item a' = None" by (simp add: a' clear_test_item_def)
  then have "compute_and_analyse E ord2 a' = Some a'" for ord2 by (simp add: compute_and_analyse_def)
  with none have "analyzer_turn E ord2 crash_order2 a' CompletedNotified = None" for ord2 crash_order2
    by (simp add: next_test_def)
  with none item show ?thesis by (simp add: a' a1 clear_test_item_def id_bytes_def)
qed

theorem completion_is_reported_once_witness:
  "\<exists>a'. analyzer_turn an_demo_ext \<lparr>o_t_ends = [], o_peers = [], o_l_ends = dw_demo_order, o_s_ends = []\<rparr> []
      an_demo CompletedNotified = Some a' \<and>
    current_test_item a' = None \<and> length (effects a') = 1"
proof -
  let ?ord = "\<lparr>o_t_ends = [], o_peers = [], o_l_ends = dw_demo_order, o_s_ends = []\<rparr>"
  obtain a' where a': "analyzer_turn an_demo_ext ?ord [] an_demo CompletedNotified = Some a'"
    by (simp add: compute_and_analyse_def next_test_def compute_latency_def prepare_compute_latency_def
        insert_latency_result_def dw_demo_ends_def dw_start_def dw_end_def clear_test_item_def Let_def)
  from completion_is_reported_once [OF a'] a' show ?thesis by auto
qed

text \<open>The timer a test item runs under.\<close>

definition timer_of :: "analyzer \<Rightarrow> test_item \<Rightarrow> effect" where
  "timer_of a item = (case item of
     Crash n m \<Rightarrow> CrashTimer (crash_test_duration a)
   | Malicious b \<Rightarrow> MaliciousTimer (malicious_test_duration a)
   | _ \<Rightarrow> PerformanceTimer (performance_test_duration a) (performance_test_internal a))"

text \<open>
  The start of a test: a test item received from the controller becomes the item under
  test and empties the performance data of the warehouse (start and end data, counts, round
  number); the start message that follows sets the reporting interval and starts exactly the
  timer of that kind of item. No data of an earlier performance test enters the new one.
\<close>

theorem configured_test_starts_clean:
  assumes "peer_from_bytes E src = Some peer" and "peer_to_string E (controller_id a) = peer_to_string E peer"
    and "from_bincode_message E d1 = Some \<lparr>interactive = TestItem item, source = s1\<rparr>"
    and "from_bincode_message E d2 = Some \<lparr>interactive = StartTest n, source = s2\<rparr>"
    and "analyzer_turn E ord crash_order a (UnicastReceived src d1) = Some a1"
  shows "current_test_item a1 = Some item \<and>
    t_start_data (warehouse a1) = Map.empty \<and> t_end_data (warehouse a1) = Map.empty \<and>
    l_start_data (warehouse a1) = Map.empty \<and> l_end_data (warehouse a1) = Map.empty \<and>
    (\<forall>p. peer_count (warehouse a1) p = 0) \<and> internal_round (warehouse a1) = 0 \<and>
    (\<exists>a2. analyzer_turn E ord2 crash_order2 a1 (UnicastReceived src d2) = Some a2 \<and>
       effects a2 = effects a @ [timer_of a item] \<and> current_test_item a2 = Some item \<and>
       throughput_internal (warehouse a2) = performance_test_internal a)"
proof -
  from assms(1,2,3,5) obtain w where a1: "a1 = (set_test_item a item)\<lparr>warehouse := dw_reset w\<rparr>"
    by (auto simp: bind_eq_Some_conv Let_def)
  have "\<exists>a2. analyzer_turn E ord2 crash_order2 a1 (UnicastReceived src d2) = Some a2 \<and>
       effects a2 = effects a @ [timer_of a item] \<and> current_test_item a2 = Some item \<and>
       throughput_internal (warehouse a2) = performance_test_internal a"
    using assms(1,2,4)
    by (cases item) (simp_all add: a1 set_test_item_def timer_of_def set_throughput_internal_def
        crash_test_timer_start_def malicious_test_timer_start_def performance_test_timer_start_def)
  then show ?thesis by (simp add: a1 set_test_item_def dw_reset_def peer_count_def)
qed

theorem configured_test_starts_clean_witness:
  "\<exists>a1 a2. analyzer_turn an_demo_ext \<lparr>o_t_ends = [], o_peers = [], o_l_ends = [], o_s_ends = []\<rparr> []
      an_demo (UnicastReceived [9] [1]) = Some a1 \<and>
    analyzer_turn an_demo_ext \<lparr>o_t_ends = [], o_peers = [], o_l_ends = [], o_s_ends = []\<rparr> []
      a1 (UnicastReceived [9] [2]) = Some a2 \<and> t_end_data (warehouse a1) = Map.empty \<and> effects a2 = [CrashTimer 6000]"
proof -
  let ?ord = "\<lparr>o_t_ends = [], o_peers = [], o_l_ends = [], o_s_ends = []\<rparr>"
  obtain a1 where a1: "analyzer_turn an_demo_ext ?ord [] an_demo (UnicastReceived [9] [1]) = Some a1"
    by (simp add: Let_def)
  have "from_bincode_message an_demo_ext [1] = Some \<lparr>interactive = TestItem (Crash 1 2), source = [9]\<rparr>"
    "from_bincode_message an_demo_ext [2] = Some \<lparr>interactive = StartTest 0, source = [9]\<rparr>" by simp_all
  from configured_test_starts_clean [OF _ _ this a1, of "[9]" ?ord "[]"] a1 show ?thesis
    by (auto simp: timer_of_def)
qed

end
