(* ===== verification/Json_Parse.thy ===== *)
theory Json_Parse
  imports Interactive_Messages "HOL-Library.Char_ord" "HOL-Library.List_Lexorder"
begin

text \<open>
  JSON values as serde_json documents them, their indexing, and the field extraction of
  \<open>utils/src/parse.rs\<close>: which fields of a consensus message the malicious tests corrupt.
\<close>

subsection \<open>JSON values\<close>

text \<open>
  A number is a non-negative integer, a negative one (as the bits of an \<open>i64\<close>) or a float (as
  its bits). An object is the list of its entries in the order of the keys, in which
  serde_json's default map iterates.
\<close>

datatype json_number = PosInt u64 | NegInt "64 word" | Float "64 word"

datatype json =
    JNull
  | JBool bool
  | JNumber json_number
  | JString string
  | JArray "json list"
  | JObject "(string \<times> json) list"

fun as_u64 :: "json_number \<Rightarrow> u64 option" where
  "as_u64 (PosInt n) = Some n"
| "as_u64 n = None"

fun as_object :: "json \<Rightarrow> (string \<times> json) list option" where
  "as_object (JObject m) = Some m"
| "as_object j = None"

fun map_insert :: "string \<Rightarrow> json \<Rightarrow> (string \<times> json) list \<Rightarrow> (string \<times> json) list" where
  "map_insert k v [] = [(k, v)]"
| "map_insert k v ((k', v') # m) =
     (if k = k' then (k, v) # m
      else if k < k' then (k, v) # (k', v') # m
      else (k', v') # map_insert k v m)"

text \<open>Reading \<open>v[key]\<close>: the null value when there is no such entry.\<close>

definition json_index :: "json \<Rightarrow> string \<Rightarrow> json" where
  "json_index j k =
     (case j of JObject m \<Rightarrow> (case map_of m k of Some v \<Rightarrow> v | None \<Rightarrow> JNull) | _ \<Rightarrow> JNull)"

text \<open>
  Assigning \<open>v[k1][k2]... = x\<close>: a null value on the way becomes an object, any other value
  that is not an object panics.
\<close>

fun json_assign :: "json \<Rightarrow> string list \<Rightarrow> json \<Rightarrow> json option" where
  "json_assign j [] x = Some x"
| "json_assign j (k # ks) x =
     (case j of
        JNull \<Rightarrow> map_option (\<lambda>y. JObject [(k, y)]) (json_assign JNull ks x)
      | JObject m \<Rightarrow> map_option (\<lambda>y. JObject (map_insert k y m)) (json_assign (json_index j k) ks x)
      | _ \<Rightarrow> None)"

text \<open>\<open>serde_json::from_slice\<close> and \<open>coder::serialize_into_json_str\<close>.\<close>

record json_ext = msg_ext +
  json_from_slice :: "bytes \<Rightarrow> json option"
  json_to_bytes :: "json \<Rightarrow> bytes"

subsection \<open>The tree of fields\<close>

datatype string_tree = Tree string "string_tree list"

fun push_back :: "string_tree \<Rightarrow> string_tree \<Rightarrow> string_tree" where
  "push_back (Tree x ts) t = Tree x (ts @ [t])"

text \<open>The loop over the entries, with the tree and the fields built so far.\<close>

fun string_tree_loop :: "(string \<times> json) list \<Rightarrow> string_tree \<Rightarrow> string list list \<Rightarrow> string_tree \<times> string list list" where
  "string_tree_loop [] tree field_set = (tree, field_set)"
| "string_tree_loop ((k, JObject sub_map) # rest) tree field_set =
     (let (t, h_set) = string_tree_loop sub_map (Tree k []) []
      in string_tree_loop rest (push_back tree t) (field_set @ map (\<lambda>v. [k] @ v) h_set))"
| "string_tree_loop ((k, v) # rest) tree field_set =
     string_tree_loop rest (push_back tree (Tree k [])) (field_set @ [[k]])"

definition map_into_string_tree :: "string \<Rightarrow> (string \<times> json) list \<Rightarrow> string_tree \<times> string list list" where
  "map_into_string_tree root_value m = string_tree_loop m (Tree root_value []) []"

subsection \<open>What the fields are\<close>

text \<open>Objects have one entry per key, at every depth.\<close>

fun json_ok :: "json \<Rightarrow> bool" where
  "json_ok (JObject m) \<longleftrightarrow> distinct (map fst m) \<and> (\<forall>e \<in> set m. json_ok (snd e))"
| "json_ok (JArray js) \<longleftrightarrow> (\<forall>j \<in> set js. json_ok j)"
| "json_ok j \<longleftrightarrow> True"

text \<open>The value at a path of keys, and whether it is a leaf.\<close>

fun json_at :: "json \<Rightarrow> string list \<Rightarrow> json option" where
  "json_at j [] = Some j"
| "json_at (JObject m) (k # ks) = Option.bind (map_of m k) (\<lambda>v. json_at v ks)"
| "json_at j (k # ks) = None"

definition is_leaf :: "json \<Rightarrow> bool" where
  "is_leaf j \<longleftrightarrow> as_object j = None"

lemma is_leaf_simps [simp]:
  "\<not> is_leaf (JObject m)" "is_leaf JNull" "is_leaf (JBool b)" "is_leaf (JNumber n)" "is_leaf (JString s)"
  "is_leaf (JArray js)"
  by (simp_all add: is_leaf_def)

text \<open>The fields of one object, entry by entry.\<close>

fun entry_fields :: "string \<times> json \<Rightarrow> string list list" where
  "entry_fields (k, JObject m) = map ((#) k) (concat (map entry_fields m))"
| "entry_fields (k, v) = [[k]]"

lemma string_tree_loop_fields:
  "snd (string_tree_loop m tree fs) = fs @ concat (map entry_fields m)"
proof (induction m tree fs rule: string_tree_loop.induct)
  case (2 k sub_map rest tree field_set)
  obtain t h where sub: "string_tree_loop sub_map (Tree k []) [] = (t, h)"
    by (cases "string_tree_loop sub_map (Tree k []) []")
  with 2(1) have "h = concat (map entry_fields sub_map)" by simp
  with sub 2(2) [OF refl sub [symmetric]] show ?case by (simp add: sub)
qed simp_all

lemma entry_fields_leaf: "is_leaf v \<Longrightarrow> entry_fields (k, v) = [[k]]"
  by (cases v) simp_all

lemma entry_fields_head: "p \<in> set (entry_fields e) \<Longrightarrow> p \<noteq> [] \<and> hd p = fst e"
  by (induction e rule: entry_fields.induct) auto

lemma entry_fields_paths:
  "json_ok (snd e) \<Longrightarrow> p \<in> set (entry_fields e) \<longleftrightarrow>
     (\<exists>q v. p = fst e # q \<and> json_at (snd e) q = Some v \<and> is_leaf v)"
proof (induction e arbitrary: p rule: entry_fields.induct)
  case (1 k m)
  have at: "json_at (JObject m) q = Some v \<and> is_leaf v \<longleftrightarrow>
      (\<exists>e \<in> set m. \<exists>q'. q = fst e # q' \<and> json_at (snd e) q' = Some v \<and> is_leaf v)" for q v
  proof (cases q)
    case (Cons k' q')
    have "map_of m k' = Some x \<longleftrightarrow> (k', x) \<in> set m" for x
      using 1(2) by (simp add: map_of_eq_Some_iff)
    then show ?thesis using Cons by (auto simp: bind_eq_Some_conv) force
  qed auto
  have ih: "p' \<in> set (entry_fields e) \<longleftrightarrow>
      (\<exists>q v. p' = fst e # q \<and> json_at (snd e) q = Some v \<and> is_leaf v)" if "e \<in> set m" for e p'
    using 1(1) [OF that] 1(2) that by auto
  have "p \<in> set (entry_fields (k, JObject m)) \<longleftrightarrow> (\<exists>p' e. p = k # p' \<and> e \<in> set m \<and> p' \<in> set (entry_fields e))"
    by auto
  also have "\<dots> \<longleftrightarrow> (\<exists>p' e. p = k # p' \<and> e \<in> set m \<and>
      (\<exists>q v. p' = fst e # q \<and> json_at (snd e) q = Some v \<and> is_leaf v))"
    by (simp only: ih cong: conj_cong)
  also have "\<dots> \<longleftrightarrow> (\<exists>q v. p = k # q \<and> json_at (JObject m) q = Some v \<and> is_leaf v)"
    unfolding at by blast
  finally show ?case by simp
qed (auto elim: json_at.elims)

lemma concat_fields_distinct:
  assumes "distinct (map fst m)" and "\<And>e. e \<in> set m \<Longrightarrow> distinct (entry_fields e)"
  shows "distinct (concat (map entry_fields m))"
  using assms
proof (induction m)
  case (Cons e m)
  have "p \<notin> set (entry_fields e')" if "p \<in> set (entry_fields e)" "e' \<in> set m" for p e'
    using entry_fields_head [OF that(1)] entry_fields_head [of p e'] that(2) Cons.prems(1) by force
  with Cons show ?case by auto
qed simp

lemma entry_fields_distinct: "json_ok (snd e) \<Longrightarrow> distinct (entry_fields e)"
proof (induction e rule: entry_fields.induct)
  case (1 k m)
  then have "distinct (concat (map entry_fields m))" by (intro concat_fields_distinct) auto
  then show ?case by (simp add: distinct_map)
qed simp_all

text \<open>The tree, entry by entry.\<close>

fun entry_tree :: "string \<times> json \<Rightarrow> string_tree" where
  "entry_tree (k, JObject m) = Tree k (map entry_tree m)"
| "entry_tree (k, v) = Tree k []"

lemma string_tree_loop_tree:
  "fst (string_tree_loop m (Tree r ts) fs) = Tree r (ts @ map entry_tree m)"
proof (induction m "Tree r ts" fs arbitrary: r ts rule: string_tree_loop.induct)
  case (2 k sub_map rest field_set)
  obtain t h where sub: "string_tree_loop sub_map (Tree k []) [] = (t, h)"
    by (cases "string_tree_loop sub_map (Tree k []) []")
  with 2(1) have "t = Tree k (map entry_tree sub_map)" by simp
  with sub 2(2) [OF refl sub [symmetric]] show ?case by (simp add: sub)
qed simp_all

text \<open>
  The fields that are extracted from a message are the leaves of its JSON object: each
  path of keys that leads to a value other than an object is listed, once, and nothing else;
  the tree has one node per entry, in order, with the tree of the value below it.
\<close>

theorem message_fields:
  assumes "json_ok (JObject m)"
  shows "map_into_string_tree r m = (Tree r (map entry_tree m), concat (map entry_fields m)) \<and>
    distinct (snd (map_into_string_tree r m)) \<and>
    (\<forall>p. p \<in> set (snd (map_into_string_tree r m)) \<longleftrightarrow> (\<exists>v. json_at (JObject m) p = Some v \<and> is_leaf v))"
proof -
  have eq: "map_into_string_tree r m = (Tree r (map entry_tree m), concat (map entry_fields m))"
    by (simp add: map_into_string_tree_def prod_eq_iff string_tree_loop_tree string_tree_loop_fields)
  have "distinct (concat (map entry_fields m))"
    using assms by (intro concat_fields_distinct entry_fields_distinct) auto
  moreover have "p \<in> set (concat (map entry_fields m)) \<longleftrightarrow> (\<exists>v. json_at (JObject m) p = Some v \<and> is_leaf v)" for p
    using entry_fields_paths [of "(''k'', JObject m)" "''k'' # p"] assms
    by (simp add: image_iff del: json_ok.simps)
  ultimately show ?thesis by (simp add: eq)
qed

theorem message_fields_witness:
  "snd (map_into_string_tree ''1'' [(''a'', JNull), (''b'', JObject [(''c'', JBool True), (''d'', JObject [])])]) =
    [[''a''], [''b'', ''c'']]"
  using message_fields [of "[(''a'', JNull), (''b'', JObject [(''c'', JBool True), (''d'', JObject [])])]" "''1''"]
  by simp

end
