(* ===== verification/Controller.thy ===== *)
theory Controller
  imports Json_Parse
begin

text \<open>
  The controller node (\<open>components/src/controller\<close>): the configuration, the state, the
  sequence of test items, the handlers of the messages of analyzer and consensus nodes, and
  one turn of its event loop. Messages and timers are a trace of effects; a panic is \<open>None\<close>.
\<close>

subsection \<open>Configuration\<close>

record throughput_config =
  throughput_enable :: "bool option"

record latency_config =
  latency_enable :: "bool option"

record scalability_config =
  scalability_enable :: "bool option"
  scalability_max :: "u16 option"
  scalability_internal :: "u16 option"

record crash_config =
  crash_enable :: "bool option"
  crash_max :: "u16 option"

record malicious_config =
  malicious_enable :: "bool option"
  number_of_phase :: "u8 option"
  behaviours :: "string list option"

record bft_diagnosis_config =
  cfg_throughput :: "throughput_config option"
  cfg_latency :: "latency_config option"
  cfg_scalability :: "scalability_config option"
  cfg_crash :: "crash_config option"
  cfg_malicious :: "malicious_config option"

subsection \<open>State\<close>

record controller =
  ct_id :: peer_id
  ct_connected_nodes :: "string \<rightharpoonup> peer_id"
  consensus_nodes :: "peer_id set"
  waiting_consensus_nodes :: "peer_id set"
  not_crash_consensus_nodes :: "peer_id set"
  crash_consensus_nodes :: "peer_id set"
  optional_crash_consensus_nodes :: "peer_id set"
  optional_scalability_consensus_nodes :: "peer_id set"
  optional_dishonest_consensus_nodes :: "peer_id list"
  ct_analyzer_id :: peer_id
  test_items :: "test_item list"
  next_item :: "test_item option"
  next_mid_test_item :: "test_item option"
  consensus_message_trees :: "u8 \<rightharpoonup> string_tree"
  ct_fields :: "u8 \<rightharpoonup> string list list"
  conspire_request :: "request option"
  conspire_request_send_durarion :: u64
  next_test_flag :: bool
  feedback_crash_node :: peer_id
  feedback_scalability_node :: peer_id
  feedback_dishonest_node :: peer_id
  feedback_dishonest_nodes :: "peer_id list"
  consensus_node_configure_count :: u16
  reset_success_count :: u16
  crash_reset_success_count :: u16
  feedback_dishonest_node_count :: u16
  feedback_dishonest_node_success_count :: u16
  feedback_scalability_first_count :: u16
  ct_effects :: "effect list"

text \<open>
  What one turn of the event loop finds outside: the iteration orders of the hash sets, as
  functions of their elements, and the clock at each point of the trace of effects.
\<close>

record ctl_env =
  ord_waiting :: "peer_id set \<Rightarrow> peer_id list"
  ord_consensus :: "peer_id set \<Rightarrow> peer_id list"
  ord_crash :: "peer_id set \<Rightarrow> peer_id list"
  ord_optional_crash :: "peer_id set \<Rightarrow> peer_id list"
  ord_optional_scalability :: "peer_id set \<Rightarrow> peer_id list"
  clock :: "nat \<Rightarrow> u64"

definition set_order :: "(peer_id set \<Rightarrow> peer_id list) \<Rightarrow> bool" where
  "set_order ord \<longleftrightarrow> (\<forall>S. finite S \<longrightarrow> distinct (ord S) \<and> set (ord S) = S)"

definition orders_ok :: "ctl_env \<Rightarrow> bool" where
  "orders_ok R \<longleftrightarrow> set_order (ord_waiting R) \<and> set_order (ord_consensus R) \<and> set_order (ord_crash R) \<and>
     set_order (ord_optional_crash R) \<and> set_order (ord_optional_scalability R)"

definition iter_last :: "'a list \<Rightarrow> 'a option" where
  "iter_last xs = (if xs = [] then None else Some (last xs))"

text \<open>The random peer identifiers stand for nodes that are not known yet.\<close>

definition controller_new :: "peer_id \<Rightarrow> peer_id \<Rightarrow> peer_id \<Rightarrow> peer_id \<Rightarrow> peer_id \<Rightarrow> u64 \<Rightarrow> controller" where
  "controller_new ident rnd1 rnd2 rnd3 rnd4 conspire_duration = \<lparr>
     ct_id = ident, ct_connected_nodes = Map.empty,
     consensus_nodes = {}, waiting_consensus_nodes = {},
     not_crash_consensus_nodes = {}, crash_consensus_nodes = {},
     optional_crash_consensus_nodes = {}, optional_scalability_consensus_nodes = {},
     optional_dishonest_consensus_nodes = [],
     ct_analyzer_id = rnd1, test_items = [], next_item = None, next_mid_test_item = None,
     consensus_message_trees = Map.empty, ct_fields = Map.empty, conspire_request = None,
     conspire_request_send_durarion = conspire_duration, next_test_flag = True,
     feedback_crash_node = rnd2, feedback_scalability_node = rnd3, feedback_dishonest_node = rnd4,
     feedback_dishonest_nodes = [],
     consensus_node_configure_count = 0, reset_success_count = 0, crash_reset_success_count = 0,
     feedback_dishonest_node_count = 0, feedback_dishonest_node_success_count = 0,
     feedback_scalability_first_count = 0, ct_effects = []\<rparr>"

definition add_test_item :: "controller \<Rightarrow> test_item \<Rightarrow> controller" where
  "add_test_item c item = c\<lparr>test_items := test_items c @ [item]\<rparr>"

text \<open>The test item of a configured behaviour; other names are ignored.\<close>

definition behaviour_item :: "u8 \<Rightarrow> string \<Rightarrow> test_item option" where
  "behaviour_item phases b =
     (if b = ''LeaderFeignDeath'' then Some (Malicious (LeaderFeignDeath FirstRound phases))
      else if b = ''LeaderSendAmbiguousMessage'' then
        Some (Malicious (LeaderSendAmbiguousMessage FirstRound phases [] 0))
      else if b = ''LeaderDelaySendMessage'' then Some (Malicious (LeaderDelaySendMessage FirstRound phases))
      else if b = ''LeaderSendDuplicateMessage'' then Some (Malicious (LeaderSendDuplicateMessage FirstRound phases))
      else if b = ''ReplicaNodeConspireForgeMessages'' then
        Some (Malicious (ReplicaNodeConspireForgeMessages FirstRound phases [] 0))
      else None)"

definition configure_performance :: "bft_diagnosis_config \<Rightarrow> controller \<Rightarrow> controller" where
  "configure_performance cfg c =
     (let throughput_flag = (case cfg_throughput cfg of Some t \<Rightarrow> throughput_enable t = Some True | None \<Rightarrow> False);
          latency_flag = (case cfg_latency cfg of Some l \<Rightarrow> latency_enable l = Some True | None \<Rightarrow> False)
      in if throughput_flag \<and> latency_flag then add_test_item c ThroughputAndLatency
         else if throughput_flag \<and> \<not> latency_flag then add_test_item c Throughput
         else if \<not> throughput_flag \<and> latency_flag then add_test_item c Latency
         else c)"

definition configure_scalability :: "bft_diagnosis_config \<Rightarrow> controller \<Rightarrow> controller" where
  "configure_scalability cfg c =
     (case cfg_scalability cfg of
        Some s \<Rightarrow>
          (if scalability_enable s = Some True
           then add_test_item c (Scalability 1
             (case scalability_max s of Some m \<Rightarrow> m | None \<Rightarrow> 0)
             (case scalability_internal s of Some i \<Rightarrow> i | None \<Rightarrow> 0))
           else c)
      | None \<Rightarrow> c)"

definition configure_crash :: "bft_diagnosis_config \<Rightarrow> controller \<Rightarrow> controller" where
  "configure_crash cfg c =
     (case cfg_crash cfg of
        Some s \<Rightarrow>
          (if crash_enable s = Some True
           then add_test_item c (Crash 0 (case crash_max s of Some m \<Rightarrow> m | None \<Rightarrow> 0))
           else c)
      | None \<Rightarrow> c)"

definition configure_malicious :: "bft_diagnosis_config \<Rightarrow> controller \<Rightarrow> controller option" where
  "configure_malicious cfg c =
     (case cfg_malicious cfg of
        Some m \<Rightarrow>
          (if malicious_enable m = Some True
           then (case behaviours m of
               Some bs \<Rightarrow> do {
                 phases \<leftarrow> number_of_phase m;
                 Some (foldl (\<lambda>c b. case behaviour_item phases b of Some i \<Rightarrow> add_test_item c i | None \<Rightarrow> c) c bs)
               }
             | None \<Rightarrow> Some c)
           else Some c)
      | None \<Rightarrow> Some c)"

definition configure :: "controller \<Rightarrow> bft_diagnosis_config \<Rightarrow> controller option" where
  "configure c cfg = do {
     c1 \<leftarrow> configure_malicious cfg (configure_crash cfg (configure_scalability cfg (configure_performance cfg c)));
     Some (c1\<lparr>test_items := rev (test_items c1)\<rparr>)
   }"

subsection \<open>Sending\<close>

definition ctl_id_bytes :: "'a ext_scheme \<Rightarrow> controller \<Rightarrow> bytes" where
  "ctl_id_bytes E c = peer_to_bytes E (ct_id c)"

definition send_to :: "'a msg_ext_scheme \<Rightarrow> peer_id \<Rightarrow> message \<Rightarrow> controller \<Rightarrow> controller" where
  "send_to E peer m c = c\<lparr>ct_effects := ct_effects c @ [SendMessage peer (bincode_message E m)]\<rparr>"

definition send_all :: "'a msg_ext_scheme \<Rightarrow> peer_id list \<Rightarrow> message \<Rightarrow> controller \<Rightarrow> controller" where
  "send_all E peers m c = foldl (\<lambda>c p. send_to E p m c) c peers"

text \<open>\<open>Local::now().timestamp_millis() as u64\<close>.\<close>

definition timestamp :: "ctl_env \<Rightarrow> controller \<Rightarrow> u64" where
  "timestamp R c = clock R (length (ct_effects c))"

definition add_analyzer :: "controller \<Rightarrow> peer_id \<Rightarrow> controller" where
  "add_analyzer c a = c\<lparr>ct_analyzer_id := a\<rparr>"

definition remove_waiting_consensus_node :: "controller \<Rightarrow> peer_id \<Rightarrow> controller" where
  "remove_waiting_consensus_node c p = c\<lparr>waiting_consensus_nodes := waiting_consensus_nodes c - {p}\<rparr>"

definition set_conspire_request :: "controller \<Rightarrow> request \<Rightarrow> controller" where
  "set_conspire_request c r = c\<lparr>conspire_request := Some r\<rparr>"

definition next_test_item :: "controller \<Rightarrow> controller" where
  "next_test_item c =
     (if test_items c = [] then c\<lparr>next_item := None\<rparr>
      else c\<lparr>next_item := Some (last (test_items c)), test_items := butlast (test_items c)\<rparr>)"

definition generate_consensus_requests_command :: "nat \<Rightarrow> message" where
  "generate_consensus_requests_command n =
     \<lparr>interactive = MakeConsensusRequests (map (\<lambda>i. \<lparr>cmd = ''Request_'' @ decimal i\<rparr>) [0..<n]), source = []\<rparr>"

definition make_consensus_requests :: "'a msg_ext_scheme \<Rightarrow> ctl_env \<Rightarrow> controller \<Rightarrow> nat \<Rightarrow> controller" where
  "make_consensus_requests E R c count =
     send_all E (ord_consensus R (consensus_nodes c)) (generate_consensus_requests_command count) c"

definition ctl_init :: "'a msg_ext_scheme \<Rightarrow> controller \<Rightarrow> controller" where
  "ctl_init E c = c\<lparr>ct_effects := ct_effects c @ [Publish ''Initialization'' (bincode_message E
     \<lparr>interactive = ComponentInfo (Controller (ctl_id_bytes E c)), source = []\<rparr>)]\<rparr>"

definition set_consensus_node_mode ::
    "'a msg_ext_scheme \<Rightarrow> controller \<Rightarrow> peer_id \<Rightarrow> consensus_node_mode \<Rightarrow> controller" where
  "set_consensus_node_mode E c peer mode =
     send_to E peer \<lparr>interactive = ConsensusNodeMode mode, source = ctl_id_bytes E c\<rparr> c"

definition protocol_start :: "'a msg_ext_scheme \<Rightarrow> ctl_env \<Rightarrow> controller \<Rightarrow> controller" where
  "protocol_start E R c =
     send_all E (ord_consensus R (consensus_nodes c))
       \<lparr>interactive = ProtocolStart (timestamp R c), source = ctl_id_bytes E c\<rparr> c"

definition start_test :: "'a msg_ext_scheme \<Rightarrow> ctl_env \<Rightarrow> controller \<Rightarrow> controller" where
  "start_test E R c =
     send_to E (ct_analyzer_id c)
       \<lparr>interactive = StartTest (timestamp R c), source = ctl_id_bytes E c\<rparr> c"

definition send_conspire_request :: "'a msg_ext_scheme \<Rightarrow> ctl_env \<Rightarrow> controller \<Rightarrow> controller option" where
  "send_conspire_request E R c = do {
     request \<leftarrow> conspire_request c;
     Some (send_all E (ord_consensus R (consensus_nodes c))
       \<lparr>interactive = MakeAConsensusRequest request, source = []\<rparr> c)
   }"

definition conspire_request_send_timer_start :: "controller \<Rightarrow> controller" where
  "conspire_request_send_timer_start c =
     c\<lparr>ct_effects := ct_effects c @ [ConspireTimer (conspire_request_send_durarion c)]\<rparr>"

subsection \<open>Configuring the next test item\<close>

definition configure_analyzer :: "'a msg_ext_scheme \<Rightarrow> controller \<Rightarrow> controller \<times> bool" where
  "configure_analyzer E c =
     (let c1 = next_test_item c
      in case next_item c1 of
           Some item \<Rightarrow>
             (let c2 = (case item of
                  Crash n m \<Rightarrow> c1\<lparr>optional_crash_consensus_nodes := waiting_consensus_nodes c1\<rparr>
                | Scalability n m i \<Rightarrow> c1\<lparr>optional_scalability_consensus_nodes := waiting_consensus_nodes c1\<rparr>
                | _ \<Rightarrow> c1)
              in (send_to E (ct_analyzer_id c2) \<lparr>interactive = TestItem item, source = []\<rparr> c2, True))
         | None \<Rightarrow> (c1, False))"

lemma configure_analyzer_pops:
  "configure_analyzer E c = (c', True) \<Longrightarrow> length (test_items c') < length (test_items c)"
  by (auto simp: configure_analyzer_def next_test_item_def send_to_def Let_def
      split: if_splits test_item.splits)

text \<open>
  \<open>configure_consensus_node\<close> calls
  \<open>random_select_a_consensus_node_for_scalabiliy_test\<close>, which calls
  \<open>configure_analyzer_and_consensus_node\<close> when no node is left, which calls
  \<open>configure_consensus_node\<close> again for the test item after; the two callees are
  unfolded here and defined by themselves below.
\<close>

function configure_consensus_node ::
    "'a msg_ext_scheme \<Rightarrow> ctl_env \<Rightarrow> controller \<Rightarrow> configure_state \<Rightarrow> controller option" where
  "configure_consensus_node E R c state =
     (let message = \<lparr>interactive = ConfigureConsensusNode state, source = ctl_id_bytes E c\<rparr>
      in case next_item c of
           None \<Rightarrow> None
         | Some (Scalability n m i) \<Rightarrow>
             (let c1 = c\<lparr>feedback_scalability_first_count := n, consensus_nodes := {}\<rparr>
              in Option.bind
                   (if card (optional_scalability_consensus_nodes c1) = 0
                    then (case configure_analyzer E c1 of
                            (c2, completed) \<Rightarrow>
                              (if completed
                               then map_option (\<lambda>c3. (c3, None)) (configure_consensus_node E R c2 Other)
                               else Some (c2, None)))
                    else map_option (\<lambda>p. (c1, Some p))
                           (iter_last (ord_optional_scalability R (optional_scalability_consensus_nodes c1))))
                   (\<lambda>(c2, peer).
                     let c3 = (case peer of
                           Some p \<Rightarrow> (send_to E p message c2)\<lparr>optional_scalability_consensus_nodes :=
                               optional_scalability_consensus_nodes c2 - {p}\<rparr>
                         | None \<Rightarrow> c2)
                     in Some (foldl (\<lambda>c p. set_consensus_node_mode E c p ModeUninitialized) c3
                          (ord_optional_scalability R (optional_scalability_consensus_nodes c3)))))
         | Some item \<Rightarrow>
             (let c1 = c\<lparr>consensus_nodes := {}\<rparr>
              in Some (send_all E (ord_waiting R (waiting_consensus_nodes c1)) message c1)))"
  by pat_completeness auto

termination
proof (relation "measure (\<lambda>(E, R, c, state). length (test_items c))", goal_cases)
  case (2 E R c state message item n m i c1 c2 completed)
  then show ?case using configure_analyzer_pops [of E c1 c2] by auto
qed simp

declare configure_consensus_node.simps [simp del]

definition configure_analyzer_and_consensus_node ::
    "'a msg_ext_scheme \<Rightarrow> ctl_env \<Rightarrow> controller \<Rightarrow> controller option" where
  "configure_analyzer_and_consensus_node E R c =
     (case configure_analyzer E c of
        (c1, completed_flag) \<Rightarrow>
          (if completed_flag then configure_consensus_node E R c1 Other else Some c1))"

definition random_select_a_consensus_node_for_scalabiliy_test ::
    "'a msg_ext_scheme \<Rightarrow> ctl_env \<Rightarrow> controller \<Rightarrow> (controller \<times> peer_id option) option" where
  "random_select_a_consensus_node_for_scalabiliy_test E R c =
     (if card (optional_scalability_consensus_nodes c) = 0
      then map_option (\<lambda>c1. (c1, None)) (configure_analyzer_and_consensus_node E R c)
      else map_option (\<lambda>p. (c, Some p))
             (iter_last (ord_optional_scalability R (optional_scalability_consensus_nodes c))))"

text \<open>The scalability branch, as the code composes it.\<close>

lemma configure_consensus_node_scalability:
  assumes "next_item c = Some (Scalability n m i)"
  shows "configure_consensus_node E R c state = do {
     (c2, peer) \<leftarrow> random_select_a_consensus_node_for_scalabiliy_test E R
       (c\<lparr>feedback_scalability_first_count := n, consensus_nodes := {}\<rparr>);
     let c3 = (case peer of
         Some p \<Rightarrow> (send_to E p \<lparr>interactive = ConfigureConsensusNode state, source = ctl_id_bytes E c\<rparr> c2)
           \<lparr>optional_scalability_consensus_nodes := optional_scalability_consensus_nodes c2 - {p}\<rparr>
       | None \<Rightarrow> c2);
     Some (foldl (\<lambda>c p. set_consensus_node_mode E c p ModeUninitialized) c3
       (ord_optional_scalability R (optional_scalability_consensus_nodes c3)))
   }"
  unfolding configure_consensus_node.simps [of E R c state] assms
  by (simp add: random_select_a_consensus_node_for_scalabiliy_test_def
      configure_analyzer_and_consensus_node_def Let_def split_beta map_option_case split: option.splits)

subsection \<open>Selecting nodes\<close>

definition random_select_a_consensus_node :: "ctl_env \<Rightarrow> controller \<Rightarrow> peer_id option option" where
  "random_select_a_consensus_node R c =
     (if card (waiting_consensus_nodes c) = 0 then Some None
      else map_option Some (iter_last (ord_waiting R (waiting_consensus_nodes c))))"

definition query_consensus_phases :: "'a msg_ext_scheme \<Rightarrow> ctl_env \<Rightarrow> controller \<Rightarrow> controller option" where
  "query_consensus_phases E R c = do {
     peer \<leftarrow> random_select_a_consensus_node R c;
     Some (case peer of
         Some p \<Rightarrow> send_to E p \<lparr>interactive = MaliciousTestPreparation, source = []\<rparr> c
       | None \<Rightarrow> c)
   }"

definition random_crash_a_consensus_node ::
    "'a msg_ext_scheme \<Rightarrow> ctl_env \<Rightarrow> controller \<Rightarrow> (controller \<times> peer_id option) option" where
  "random_crash_a_consensus_node E R c =
     (if card (optional_crash_consensus_nodes c) = 0 then Some (c, None)
      else do {
        p \<leftarrow> iter_last (ord_optional_crash R (optional_crash_consensus_nodes c));
        let c1 = set_consensus_node_mode E c p (ModeCrash 1000);
        Some (c1\<lparr>optional_crash_consensus_nodes := optional_crash_consensus_nodes c1 - {p},
                 feedback_crash_node := p\<rparr>, Some p)
      })"

definition random_select_a_consensus_node_as_dishonest :: "controller \<Rightarrow> peer_id option" where
  "random_select_a_consensus_node_as_dishonest c =
     (if length (optional_dishonest_consensus_nodes c) = 0 then None
      else Some (last (optional_dishonest_consensus_nodes c)))"

definition random_select_consensus_nodes_as_dishonest ::
    "'a msg_ext_scheme \<Rightarrow> ctl_env \<Rightarrow> controller \<Rightarrow> u16 \<Rightarrow> (controller \<times> peer_id list) option" where
  "random_select_consensus_nodes_as_dishonest E R c count =
     (if unat count > length (optional_dishonest_consensus_nodes c)
      then map_option (\<lambda>c1. (c1, [])) (configure_analyzer_and_consensus_node E R c)
      else Some (c, take (unat count) (optional_dishonest_consensus_nodes c)))"

text \<open>The last field that is left of a phase; the empty field when none is left.\<close>

definition malicious_test_next_field :: "controller \<Rightarrow> u8 \<Rightarrow> (controller \<times> string list) option" where
  "malicious_test_next_field c phase = do {
     field_vec \<leftarrow> ct_fields c phase;
     if field_vec = [] then Some (c\<lparr>ct_fields := (ct_fields c)(phase := None)\<rparr>, [])
     else Some (c\<lparr>ct_fields := (ct_fields c)(phase \<mapsto> butlast field_vec)\<rparr>, last field_vec)
   }"

subsection \<open>The next test\<close>

definition next_mid_test ::
    "'a msg_ext_scheme \<Rightarrow> controller \<Rightarrow> test_item \<Rightarrow> interactive_message option \<Rightarrow> controller" where
  "next_mid_test E c item opt =
     (let c1 = send_to E (ct_analyzer_id c) \<lparr>interactive = TestItem item, source = ctl_id_bytes E c\<rparr> c
      in case opt of
           Some imessage \<Rightarrow> send_to E (ct_analyzer_id c1) \<lparr>interactive = imessage, source = []\<rparr> c1
         | None \<Rightarrow> c1)"

fun other_round :: "round \<Rightarrow> u8 option" where
  "other_round (OtherRound phase) = Some phase"
| "other_round FirstRound = None"

text \<open>The common end of the three branches that make one leader dishonest.\<close>

definition dishonest_leader_test ::
    "'a msg_ext_scheme \<Rightarrow> controller \<Rightarrow> test_item \<Rightarrow> peer_id \<Rightarrow> malicious_mode \<Rightarrow> controller" where
  "dishonest_leader_test E c item p mode =
     (let c1 = set_consensus_node_mode E (c\<lparr>feedback_dishonest_node := p\<rparr>) p (ModeDishonest mode)
      in next_mid_test E c1 item (Some (DishonestNode (peer_to_bytes E p))))"

definition next_scalability_test ::
    "'a msg_ext_scheme \<Rightarrow> ctl_env \<Rightarrow> controller \<Rightarrow> test_item \<Rightarrow> controller option" where
  "next_scalability_test E R c item = do {
     (c1, peer) \<leftarrow> random_select_a_consensus_node_for_scalabiliy_test E R c;
     let c2 = (case peer of
         Some p \<Rightarrow>
           (send_to E p \<lparr>interactive = JoinConsensus (timestamp R c1), source = []\<rparr>
              (c1\<lparr>feedback_scalability_node := p\<rparr>))
             \<lparr>optional_scalability_consensus_nodes := optional_scalability_consensus_nodes c1 - {p}\<rparr>
       | None \<Rightarrow> c1);
     Some (next_mid_test E c2 item None)
   }"

definition next_conspire_test ::
    "'a msg_ext_scheme \<Rightarrow> ctl_env \<Rightarrow> controller \<Rightarrow> test_item \<Rightarrow> round \<Rightarrow> string list \<Rightarrow> u16 \<Rightarrow> controller option" where
  "next_conspire_test E R c item rnd field dishonest_count = do {
     (c1, peers) \<leftarrow> random_select_consensus_nodes_as_dishonest E R c dishonest_count;
     phase \<leftarrow> other_round rnd;
     if 0 = dishonest_count then configure_analyzer_and_consensus_node E R c1
     else do {
       let request = \<lparr>cmd = ''Conspire''\<rparr>;
       let c2 = (set_conspire_request c1 request)\<lparr>feedback_dishonest_node_count := of_nat (length peers)\<rparr>;
       let mode = ModeDishonest (ModeReplicaNodeConspireForgeMessages 1000 phase field request);
       let c3 = foldl (\<lambda>c p. set_consensus_node_mode E c p mode) c2 peers;
       Some (next_mid_test E c3 item None)
     }
   }"

definition next_crash_test ::
    "'a msg_ext_scheme \<Rightarrow> ctl_env \<Rightarrow> controller \<Rightarrow> test_item \<Rightarrow> u16 \<Rightarrow> controller option" where
  "next_crash_test E R c item crash_count =
     (if 0 = crash_count then Some (next_mid_test E c item (Some (CrashNode crash_count None)))
      else do {
        (c1, peer) \<leftarrow> random_crash_a_consensus_node E R c;
        case peer of
          Some p \<Rightarrow> Some (next_mid_test E c1 item (Some (CrashNode crash_count (Some (peer_to_bytes E p)))))
        | None \<Rightarrow> configure_analyzer_and_consensus_node E R c1
      })"

definition ctl_next_test :: "'a msg_ext_scheme \<Rightarrow> ctl_env \<Rightarrow> controller \<Rightarrow> controller option" where
  "ctl_next_test E R c =
     (case next_mid_test_item c of
        None \<Rightarrow> configure_analyzer_and_consensus_node E R c
      | Some item \<Rightarrow>
          (case item of
             Scalability n m i \<Rightarrow> next_scalability_test E R c item
           | Malicious (LeaderFeignDeath rnd n) \<Rightarrow> do {
               let peer = random_select_a_consensus_node_as_dishonest c;
               phase \<leftarrow> other_round rnd;
               Some (case peer of
                   Some p \<Rightarrow> dishonest_leader_test E c item p (ModeLeaderFeignDeath 1000 phase)
                 | None \<Rightarrow> c)
             }
           | Malicious (LeaderSendDuplicateMessage rnd n) \<Rightarrow> do {
               let peer = random_select_a_consensus_node_as_dishonest c;
               phase \<leftarrow> other_round rnd;
               Some (case peer of
                   Some p \<Rightarrow> dishonest_leader_test E c item p (ModeLeaderSendDuplicateMessages 1000 phase)
                 | None \<Rightarrow> c)
             }
           | Malicious (LeaderSendAmbiguousMessage rnd n field amsg_count) \<Rightarrow> do {
               let peer = random_select_a_consensus_node_as_dishonest c;
               phase \<leftarrow> other_round rnd;
               case peer of
                 Some p \<Rightarrow> Some (dishonest_leader_test E c item p
                   (ModeLeaderSendAmbiguousMessage 1000 phase field amsg_count))
               | None \<Rightarrow> configure_analyzer_and_consensus_node E R c
             }
           | Malicious (ReplicaNodeConspireForgeMessages rnd n field dishonest_count) \<Rightarrow>
               next_conspire_test E R c item rnd field dishonest_count
           | Crash crash_count m \<Rightarrow> next_crash_test E R c item crash_count
           | _ \<Rightarrow> Some c))"

subsection \<open>Resetting the consensus nodes\<close>

definition need_reset :: "controller \<Rightarrow> bool" where
  "need_reset c \<longleftrightarrow> of_nat (card (consensus_nodes c)) \<noteq> crash_reset_success_count c"

definition reset_consensus_node :: "'a msg_ext_scheme \<Rightarrow> ctl_env \<Rightarrow> controller \<Rightarrow> controller option" where
  "reset_consensus_node E R c =
     (if \<not> need_reset c
      then ctl_next_test E R (c\<lparr>reset_success_count := 0, crash_reset_success_count := 0\<rparr>)
      else Some (send_all E (ord_consensus R (consensus_nodes c))
             \<lparr>interactive = Reset (timestamp R c), source = []\<rparr> c))"

definition check_reset_all_success :: "'a msg_ext_scheme \<Rightarrow> ctl_env \<Rightarrow> controller \<Rightarrow> controller option" where
  "check_reset_all_success E R c = do {
     total \<leftarrow> u16_add (reset_success_count c) (crash_reset_success_count c);
     if of_nat (card (consensus_nodes c)) = total
     then ctl_next_test E R (c\<lparr>reset_success_count := 0, crash_reset_success_count := 0\<rparr>)
     else Some c
   }"

subsection \<open>Messages of the analyzer\<close>

text \<open>
  The intermediate test item after one with a phase only (three of the malicious behaviours),
  and after one with a phase, a field and a number of nodes (the other two).
\<close>

definition next_phase_item :: "(round \<Rightarrow> u8 \<Rightarrow> malicious_behaviour) \<Rightarrow> round \<Rightarrow> u8 \<Rightarrow> test_item option option" where
  "next_phase_item behaviour rnd max_phase =
     (case rnd of
        FirstRound \<Rightarrow>
          Some (if max_phase > 0 then Some (Malicious (behaviour (OtherRound 1) max_phase)) else None)
      | OtherRound phase \<Rightarrow>
          (if phase < max_phase
           then do { next \<leftarrow> u8_add phase 1; Some (Some (Malicious (behaviour (OtherRound next) max_phase))) }
           else Some None))"

definition next_field_item ::
    "(round \<Rightarrow> u8 \<Rightarrow> string list \<Rightarrow> u16 \<Rightarrow> malicious_behaviour) \<Rightarrow> round \<Rightarrow> u8 \<Rightarrow> string list \<Rightarrow> u16 \<Rightarrow>
     controller \<Rightarrow> controller option" where
  "next_field_item behaviour rnd max_phase field count c =
     (case rnd of
        FirstRound \<Rightarrow>
          (if max_phase > 0
           then do {
             (c1, next_field) \<leftarrow> malicious_test_next_field c 1;
             Some (c1\<lparr>next_mid_test_item := Some (Malicious (behaviour (OtherRound 1) max_phase next_field 1))\<rparr>)
           }
           else Some (c\<lparr>next_mid_test_item := None\<rparr>))
      | OtherRound phase \<Rightarrow>
          (if unat count = card (waiting_consensus_nodes c)
           then do {
             (c1, next_field) \<leftarrow> malicious_test_next_field c phase;
             if length next_field = 0
             then if phase = max_phase then Some (c1\<lparr>next_mid_test_item := None\<rparr>)
                  else do {
                    phase1 \<leftarrow> u8_add phase 1;
                    (c2, next_field1) \<leftarrow> malicious_test_next_field c1 phase1;
                    Some (c2\<lparr>next_mid_test_item :=
                      Some (Malicious (behaviour (OtherRound phase1) max_phase next_field1 1))\<rparr>)
                  }
             else Some (c1\<lparr>next_mid_test_item :=
                    Some (Malicious (behaviour (OtherRound phase) max_phase next_field 1))\<rparr>)
           }
           else do {
             count1 \<leftarrow> u16_add count 1;
             Some (c\<lparr>next_mid_test_item :=
               Some (Malicious (behaviour (OtherRound phase) max_phase field count1))\<rparr>)
           }))"

definition completed_test :: "controller \<Rightarrow> test_item \<Rightarrow> controller option" where
  "completed_test c item =
     (case item of
        Scalability count mx internal \<Rightarrow> do {
          next \<leftarrow> u16_add count internal;
          Some (c\<lparr>next_mid_test_item := (if next \<le> mx then Some (Scalability next mx internal) else None)\<rparr>)
        }
      | Crash count mx \<Rightarrow> do {
          next \<leftarrow> u16_add count 1;
          Some (c\<lparr>next_mid_test_item := (if next \<le> mx then Some (Crash next mx) else None)\<rparr>)
        }
      | Malicious (LeaderFeignDeath rnd max_phase) \<Rightarrow>
          map_option (\<lambda>i. c\<lparr>next_mid_test_item := i\<rparr>) (next_phase_item LeaderFeignDeath rnd max_phase)
      | Malicious (LeaderDelaySendMessage rnd max_phase) \<Rightarrow>
          map_option (\<lambda>i. c\<lparr>next_mid_test_item := i\<rparr>) (next_phase_item LeaderDelaySendMessage rnd max_phase)
      | Malicious (LeaderSendDuplicateMessage rnd max_phase) \<Rightarrow>
          map_option (\<lambda>i. c\<lparr>next_mid_test_item := i\<rparr>) (next_phase_item LeaderSendDuplicateMessage rnd max_phase)
      | Malicious (LeaderSendAmbiguousMessage rnd max_phase field amsg_count) \<Rightarrow>
          next_field_item LeaderSendAmbiguousMessage rnd max_phase field amsg_count c
      | Malicious (ReplicaNodeConspireForgeMessages rnd max_phase field dishonest_count) \<Rightarrow>
          next_field_item ReplicaNodeConspireForgeMessages rnd max_phase field dishonest_count c
      | _ \<Rightarrow> Some c)"

fun analyzer_message_handler ::
    "'a msg_ext_scheme \<Rightarrow> ctl_env \<Rightarrow> controller \<Rightarrow> interactive_message \<Rightarrow> controller option" where
  "analyzer_message_handler E R c (ComponentInfo (Controller b)) = do {
     _ \<leftarrow> peer_from_bytes E b;
     Some c
   }"
| "analyzer_message_handler E R c (ComponentInfo (Analyzer b)) = do {
     analyzer \<leftarrow> peer_from_bytes E b;
     let c1 = remove_waiting_consensus_node c analyzer;
     let c2 = c1\<lparr>optional_dishonest_consensus_nodes := ord_waiting R (waiting_consensus_nodes c1)\<rparr>;
     Some (add_analyzer c2 analyzer)
   }"
| "analyzer_message_handler E R c (CompletedTest item) = do {
     c1 \<leftarrow> completed_test c item;
     reset_consensus_node E R c1
   }"
| "analyzer_message_handler E R c m = Some c"

subsection \<open>Messages of the consensus nodes\<close>

definition parse_consensus_phase_message :: "'a json_ext_scheme \<Rightarrow> controller \<Rightarrow> u8 \<Rightarrow> bytes \<Rightarrow> controller option" where
  "parse_consensus_phase_message E c phase msg = do {
     parsed \<leftarrow> json_from_slice E msg;
     msg_map \<leftarrow> as_object parsed;
     let (tree, h_vec) = map_into_string_tree (decimal (unat phase)) msg_map;
     Some (c\<lparr>consensus_message_trees := (consensus_message_trees c)(phase \<mapsto> tree),
             ct_fields := (ct_fields c)(phase \<mapsto> h_vec)\<rparr>)
   }"

text \<open>The nodes that a honest node is added to; inserting an element twice changes nothing.\<close>

definition add_honest_node :: "controller \<Rightarrow> peer_id \<Rightarrow> controller" where
  "add_honest_node c p = c\<lparr>
     consensus_nodes := insert p (consensus_nodes c),
     not_crash_consensus_nodes := insert p (not_crash_consensus_nodes c),
     optional_crash_consensus_nodes := insert p (optional_crash_consensus_nodes c)\<rparr>"

definition start_protocol_and_test :: "'a msg_ext_scheme \<Rightarrow> ctl_env \<Rightarrow> controller \<Rightarrow> controller" where
  "start_protocol_and_test E R c = start_test E R (protocol_start E R c)"

fun reset_success :: "'a msg_ext_scheme \<Rightarrow> ctl_env \<Rightarrow> controller \<Rightarrow> peer_id \<Rightarrow> consensus_node_mode \<Rightarrow> controller option" where
  "reset_success E R c p ModeUninitialized = Some c"
| "reset_success E R c p (ModeCrash t) = do {
     crashed \<leftarrow> u16_add (crash_reset_success_count c) 1;
     let c1 = c\<lparr>crash_reset_success_count := crashed, crash_consensus_nodes := insert p (crash_consensus_nodes c),
                not_crash_consensus_nodes := not_crash_consensus_nodes c - {p}\<rparr>;
     if card (consensus_nodes c1) \<noteq> unat crashed then check_reset_all_success E R c1
     else Some (foldl (\<lambda>c p. set_consensus_node_mode E c p ModeUninitialized) c1
            (ord_crash R (crash_consensus_nodes c1)))
   }"
| "reset_success E R c p mode = do {
     n \<leftarrow> u16_add (reset_success_count c) 1;
     check_reset_all_success E R (c\<lparr>reset_success_count := n\<rparr>)
   }"

fun node_mode_success :: "'a msg_ext_scheme \<Rightarrow> ctl_env \<Rightarrow> controller \<Rightarrow> peer_id \<Rightarrow> consensus_node_mode \<Rightarrow> controller option" where
  "node_mode_success E R c p ModeUninitialized = Some c"
| "node_mode_success E R c p (ModeHonest First) = Some (add_honest_node c p)"
| "node_mode_success E R c p (ModeHonest Other) = do {
     let c1 = add_honest_node c p;
     n \<leftarrow> u16_add (consensus_node_configure_count c1) 1;
     let c2 = c1\<lparr>consensus_node_configure_count := n\<rparr>;
     if of_nat (card (waiting_consensus_nodes c2)) = n \<or> 1 = feedback_scalability_first_count c2
     then Some (start_protocol_and_test E R
            (c2\<lparr>feedback_scalability_first_count := 0, consensus_node_configure_count := 0\<rparr>))
     else Some c2
   }"
| "node_mode_success E R c p (ModeDishonest (ModeReplicaNodeConspireForgeMessages t ph f r)) = do {
     n \<leftarrow> u16_add (feedback_dishonest_node_success_count c) 1;
     let c1 = c\<lparr>feedback_dishonest_node_success_count := n\<rparr>;
     if feedback_dishonest_node_count c1 = n
     then Some (conspire_request_send_timer_start (start_protocol_and_test E R
            (c1\<lparr>feedback_dishonest_node_success_count := 0\<rparr>)))
     else Some c1
   }"
| "node_mode_success E R c p (ModeDishonest m) =
     Some (if peer_to_string E (feedback_dishonest_node c) = peer_to_string E p
           then start_protocol_and_test E R c else c)"
| "node_mode_success E R c p (ModeCrash t) =
     Some (if peer_to_string E (feedback_crash_node c) = peer_to_string E p
           then start_protocol_and_test E R c else c)"

fun ctl_node_message_handler ::
    "'a json_ext_scheme \<Rightarrow> ctl_env \<Rightarrow> controller \<Rightarrow> peer_id \<Rightarrow> interactive_message \<Rightarrow> controller option" where
  "ctl_node_message_handler E R c p (ConsensusPhase phase msg) = parse_consensus_phase_message E c phase msg"
| "ctl_node_message_handler E R c p JoinConsensusSuccess =
     Some (if peer_to_string E (feedback_scalability_node c) = peer_to_string E p
           then start_protocol_and_test E R (c\<lparr>consensus_nodes := insert p (consensus_nodes c)\<rparr>) else c)"
| "ctl_node_message_handler E R c p (ConfigureConsensusNodeSuccess s) = Some (add_honest_node c p)"
| "ctl_node_message_handler E R c p (ResetSuccess mode) = reset_success E R c p mode"
| "ctl_node_message_handler E R c p (ConsensusNodeModeSuccess mode) = node_mode_success E R c p mode"
| "ctl_node_message_handler E R c p m = Some c"

subsection \<open>The event loop\<close>

text \<open>\<open>matches\<close> tells which subcommands clap has matched; the two print commands only print.\<close>

definition ctl_cmd_match ::
    "'a msg_ext_scheme \<Rightarrow> ctl_env \<Rightarrow> (string \<Rightarrow> bool) \<Rightarrow> controller \<Rightarrow> controller option" where
  "ctl_cmd_match E R matches c = do {
     let c1 = (if matches ''init'' then ctl_init E c else c);
     let c2 = (if matches ''startTest'' then start_test E R c1 else c1);
     let c3 = (if matches ''protocolStart'' then protocol_start E R c2 else c2);
     c4 \<leftarrow> (if matches ''configureConsensusNode'' then configure_consensus_node E R c3 First else Some c3);
     let c5 = (if matches ''configureAnalyzer'' then fst (configure_analyzer E c4) else c4);
     c6 \<leftarrow> (if matches ''queryProtocolPhases'' then query_consensus_phases E R c5 else Some c5);
     Some (if matches ''sendConsensusRequests'' then make_consensus_requests E R c6 10 else c6)
   }"

datatype ctl_event =
    CtlCommandArgs "string \<Rightarrow> bool"
  | ConspireNotified
  | CtlUnicastReceived bytes bytes
  | CtlGossipReceived bytes
  | CtlDiscovered "peer_id list"
  | CtlExpired "(peer_id \<times> bool) list"
  | CtlOtherEvent

fun ctl_turn :: "'a json_ext_scheme \<Rightarrow> ctl_env \<Rightarrow> controller \<Rightarrow> ctl_event \<Rightarrow> controller option" where
  "ctl_turn E R c (CtlCommandArgs matches) = ctl_cmd_match E R matches c"
| "ctl_turn E R c ConspireNotified = send_conspire_request E R c"
| "ctl_turn E R c (CtlUnicastReceived src data) = do {
     p \<leftarrow> peer_from_bytes E src;
     (if peer_to_string E (ct_analyzer_id c) = peer_to_string E p
      then do {
        m \<leftarrow> from_bincode_message E data;
        analyzer_message_handler E R c (interactive m)
      }
      else if p \<in> waiting_consensus_nodes c \<or> p \<in> consensus_nodes c
      then do {
        m \<leftarrow> from_bincode_message E data;
        ctl_node_message_handler E R c p (interactive m)
      }
      else Some c)
   }"
| "ctl_turn E R c (CtlGossipReceived data) = do {
     m \<leftarrow> from_bincode_message E data;
     analyzer_message_handler E R c (interactive m)
   }"
| "ctl_turn E R c (CtlDiscovered peers) =
     Some (foldl (\<lambda>c p. c\<lparr>ct_effects := ct_effects c @ [AddPeer p],
       ct_connected_nodes := (ct_connected_nodes c)(peer_to_string E p \<mapsto> p),
       waiting_consensus_nodes := insert p (waiting_consensus_nodes c)\<rparr>) c peers)"
| "ctl_turn E R c (CtlExpired peers) =
     Some (foldl (\<lambda>c (p, has_node). if \<not> has_node then c\<lparr>ct_effects := ct_effects c @ [RemovePeer p]\<rparr> else c) c peers)"
| "ctl_turn E R c CtlOtherEvent = Some c"

end
