(* ===== verification/Controller_Properties.thy ===== *)
theory Controller_Properties
  imports Controller "HOL-Library.Sublist"
begin

text \<open>
  The properties of the controller: the order of the configured tests, the series of
  intermediate test items of every kind of test and their end, the barriers that separate
  tests, and the invariant of its state.
\<close>

subsection \<open>What every operation keeps\<close>

text \<open>
  The sets of nodes stay finite, effects are only added, test items are only taken from the
  end of the list.
\<close>

definition ctl_finite :: "controller \<Rightarrow> bool" where
  "ctl_finite c \<longleftrightarrow> finite (consensus_nodes c) \<and> finite (waiting_consensus_nodes c) \<and>
     finite (not_crash_consensus_nodes c) \<and> finite (crash_consensus_nodes c) \<and>
     finite (optional_crash_consensus_nodes c) \<and> finite (optional_scalability_consensus_nodes c)"

definition evolves :: "controller \<Rightarrow> controller \<Rightarrow> bool" where
  "evolves c c' \<longleftrightarrow> (ctl_finite c \<longrightarrow> ctl_finite c') \<and> prefix (ct_effects c) (ct_effects c') \<and>
     prefix (test_items c') (test_items c) \<and> ct_id c' = ct_id c"

lemma evolves_refl [intro, simp]: "evolves c c"
  by (simp add: evolves_def)

lemma evolves_trans [trans]: "evolves a b \<Longrightarrow> evolves b c \<Longrightarrow> evolves a c"
  by (auto simp: evolves_def intro: prefix_order.trans)

text \<open>An update of other fields does not matter.\<close>

lemma evolves_cong:
  assumes "evolves c d" and "ctl_finite d \<Longrightarrow> ctl_finite d'" and "ct_effects d' = ct_effects d"
    and "test_items d' = test_items d" and "ct_id d' = ct_id d"
  shows "evolves c d'"
  using assms by (simp add: evolves_def)

named_theorems evolve_intros \<open>an operation that follows another keeps the relation\<close>

lemma evolves_send_to [evolve_intros]: "evolves c d \<Longrightarrow> evolves c (send_to E p m d)"
  by (auto simp: evolves_def send_to_def ctl_finite_def intro: prefix_order.trans)

lemma evolves_foldl: "evolves c d \<Longrightarrow> (\<And>d x. evolves d (f d x)) \<Longrightarrow> evolves c (foldl f d xs)"
proof (induction xs arbitrary: d)
  case (Cons x xs)
  then show ?case using evolves_trans [of c d "f d x"] by simp
qed simp

lemma evolves_send_all [evolve_intros]: "evolves c d \<Longrightarrow> evolves c (send_all E ps m d)"
  unfolding send_all_def by (rule evolves_foldl) (auto intro: evolve_intros)

lemma evolves_set_mode [evolve_intros]: "evolves c d \<Longrightarrow> evolves c (set_consensus_node_mode E d p mode)"
  unfolding set_consensus_node_mode_def by (rule evolves_send_to)

lemma evolves_modes [evolve_intros]:
  "evolves c d \<Longrightarrow> evolves c (foldl (\<lambda>c p. set_consensus_node_mode E c p mode) d ps)"
  by (rule evolves_foldl) (auto intro: evolve_intros)

lemma evolves_next_mid_test [evolve_intros]: "evolves c d \<Longrightarrow> evolves c (next_mid_test E d item opt)"
  by (auto simp: next_mid_test_def Let_def split: option.splits intro!: evolve_intros)

lemma evolves_start_test [evolve_intros]: "evolves c d \<Longrightarrow> evolves c (start_test E R d)"
  unfolding start_test_def by (rule evolves_send_to)

lemma evolves_protocol_start [evolve_intros]: "evolves c d \<Longrightarrow> evolves c (protocol_start E R d)"
  unfolding protocol_start_def by (rule evolves_send_all)

lemma evolves_next_test_item: "evolves c (next_test_item c)"
  by (simp add: next_test_item_def evolves_def ctl_finite_def prefixeq_butlast)

lemma evolves_configure_analyzer:
  assumes "evolves c d"
  shows "evolves c (fst (configure_analyzer E d))"
proof -
  have "evolves (next_test_item d) (fst (configure_analyzer E d))"
    unfolding configure_analyzer_def Let_def
    by (auto split: option.splits test_item.splits simp: evolves_def send_to_def ctl_finite_def)
  then show ?thesis using evolves_trans [OF evolves_trans [OF assms evolves_next_test_item]] by blast
qed

text \<open>Updates of the fields the relation does not read, and of the sets.\<close>

lemma evolves_updates [evolve_intros]:
  assumes "evolves c d"
  shows "evolves c (d\<lparr>feedback_scalability_first_count := a\<rparr>)"
    and "evolves c (d\<lparr>consensus_nodes := {}\<rparr>)"
    and "evolves c (d\<lparr>consensus_nodes := insert p (consensus_nodes d)\<rparr>)"
    and "evolves c (d\<lparr>consensus_node_configure_count := b\<rparr>)"
    and "evolves c (d\<lparr>reset_success_count := a\<rparr>)"
    and "evolves c (d\<lparr>crash_reset_success_count := b\<rparr>)"
    and "evolves c (d\<lparr>feedback_dishonest_node := p\<rparr>)"
    and "evolves c (d\<lparr>feedback_scalability_node := p\<rparr>)"
    and "evolves c (d\<lparr>feedback_dishonest_node_count := a\<rparr>)"
    and "evolves c (d\<lparr>feedback_dishonest_node_success_count := a\<rparr>)"
    and "evolves c (d\<lparr>next_mid_test_item := i\<rparr>)"
    and "evolves c (d\<lparr>ct_fields := f\<rparr>)"
    and "evolves c (d\<lparr>consensus_message_trees := t\<rparr>)"
    and "evolves c (d\<lparr>optional_dishonest_consensus_nodes := ps\<rparr>)"
    and "evolves c (set_conspire_request d r)"
    and "evolves c (add_analyzer d p)"
    and "evolves c (remove_waiting_consensus_node d p)"
    and "evolves c (add_honest_node d p)"
    and "evolves c (conspire_request_send_timer_start d)"
    and "evolves c (ctl_init E d)"
  using assms
  by (auto simp: evolves_def ctl_finite_def set_conspire_request_def add_analyzer_def
      remove_waiting_consensus_node_def add_honest_node_def conspire_request_send_timer_start_def ctl_init_def
      intro: prefix_order.trans)

lemma evolves_send_and_remove [evolve_intros]:
  assumes "evolves c d" and "S \<subseteq> optional_scalability_consensus_nodes d"
  shows "evolves c ((send_to E p m d)\<lparr>optional_scalability_consensus_nodes := S\<rparr>)"
  using evolves_send_to [OF assms(1), of E p m] assms
  by (auto simp: evolves_def ctl_finite_def send_to_def intro: finite_subset)

lemma evolves_configure_consensus_node:
  "configure_consensus_node E R c state = Some c' \<Longrightarrow> evolves c c'"
proof (induction E R c state arbitrary: c' rule: configure_consensus_node.induct)
  case (1 E R c state)
  show ?case
  proof (cases "\<exists>n m i. next_item c = Some (Scalability n m i)")
    case True
    then obtain n m i where item: "next_item c = Some (Scalability n m i)" by blast
    let ?c1 = "c\<lparr>feedback_scalability_first_count := n, consensus_nodes := {}\<rparr>"
    have c1: "evolves c ?c1" by (intro evolve_intros evolves_refl)
    obtain c2 peer where sel: "random_select_a_consensus_node_for_scalabiliy_test E R ?c1 = Some (c2, peer)"
      using 1(2) by (auto simp: configure_consensus_node_scalability [OF item] bind_eq_Some_conv)
    have c2: "evolves c c2"
    proof (cases "card (optional_scalability_consensus_nodes ?c1) = 0")
      case True
      obtain d completed where d: "configure_analyzer E ?c1 = (d, completed)" by (cases "configure_analyzer E ?c1")
      then have cd: "evolves c d" using evolves_configure_analyzer [OF c1, of E] by simp
      show ?thesis
      proof (cases completed)
        case True
        with sel d \<open>card _ = 0\<close> have "configure_consensus_node E R d Other = Some c2"
          by (auto simp: random_select_a_consensus_node_for_scalabiliy_test_def configure_analyzer_and_consensus_node_def)
        with 1(1) [OF refl item refl refl \<open>card _ = 0\<close> d [symmetric] True] show ?thesis
          using cd evolves_trans by blast
      qed (use sel d cd \<open>card _ = 0\<close> in \<open>auto simp: random_select_a_consensus_node_for_scalabiliy_test_def
          configure_analyzer_and_consensus_node_def\<close>)
    qed (use sel c1 in \<open>auto simp: random_select_a_consensus_node_for_scalabiliy_test_def\<close>)
    from 1(2) sel show ?thesis
      by (auto simp: configure_consensus_node_scalability [OF item] Let_def
          split: option.splits intro!: evolves_modes c2 evolves_send_and_remove)
  next
    case False
    with 1(2) show ?thesis
      by (subst (asm) configure_consensus_node.simps)
        (auto simp: Let_def split: option.splits test_item.splits intro!: evolve_intros)
  qed
qed

lemma evolves_configure_both:
  assumes "configure_analyzer_and_consensus_node E R d = Some c'" and "evolves c d"
  shows "evolves c c'"
proof -
  obtain d1 flag where d1: "configure_analyzer E d = (d1, flag)" by (cases "configure_analyzer E d")
  with evolves_configure_analyzer [OF assms(2), of E] have "evolves c d1" by simp
  with assms(1) d1 show ?thesis
    by (auto simp: configure_analyzer_and_consensus_node_def split: if_splits
        dest: evolves_configure_consensus_node intro: evolves_trans)
qed

lemma evolves_select_scalability:
  assumes "random_select_a_consensus_node_for_scalabiliy_test E R d = Some (c', p)" and "evolves c d"
  shows "evolves c c'"
  using assms evolves_configure_both
  by (auto simp: random_select_a_consensus_node_for_scalabiliy_test_def split: if_splits)

lemma evolves_select_dishonest:
  assumes "random_select_consensus_nodes_as_dishonest E R d n = Some (c', ps)" and "evolves c d"
  shows "evolves c c'"
  using assms evolves_configure_both
  by (auto simp: random_select_consensus_nodes_as_dishonest_def split: if_splits)

lemma evolves_random_crash:
  assumes "random_crash_a_consensus_node E R d = Some (c', p)" and "evolves c d"
  shows "evolves c c'"
  using assms evolves_set_mode [OF assms(2)]
  by (fastforce simp: random_crash_a_consensus_node_def evolves_def ctl_finite_def bind_eq_Some_conv
      Let_def split: if_splits)

lemma evolves_next_test:
  assumes "ctl_next_test E R c = Some c'"
  shows "evolves c c'"
proof (cases "next_mid_test_item c")
  case None
  with assms show ?thesis by (auto simp: ctl_next_test_def intro: evolves_configure_both)
next
  case (Some item)
  have leader: "evolves c (dishonest_leader_test E c j p m)" for j p m
    by (auto simp: dishonest_leader_test_def Let_def intro!: evolve_intros)
  have crash: "next_crash_test E R c j n = Some c' \<Longrightarrow> evolves c c'" for j n
    by (auto simp: next_crash_test_def bind_eq_Some_conv split: if_splits option.splits
        dest!: evolves_random_crash [OF _ evolves_refl] intro: evolve_intros evolves_configure_both)
  have scal: "next_scalability_test E R c j = Some c' \<Longrightarrow> evolves c c'" for j
    by (auto simp: next_scalability_test_def bind_eq_Some_conv Let_def split: option.splits
        dest!: evolves_select_scalability [OF _ evolves_refl] intro!: evolve_intros)
  have consp: "next_conspire_test E R c j r f n = Some c' \<Longrightarrow> evolves c c'" for j r f n
    by (auto simp: next_conspire_test_def bind_eq_Some_conv Let_def split: if_splits
        dest!: evolves_select_dishonest [OF _ evolves_refl] intro!: evolve_intros intro: evolves_configure_both)
  from assms Some show ?thesis
    by (auto simp: ctl_next_test_def bind_eq_Some_conv Let_def leader
        split: test_item.splits malicious_behaviour.splits option.splits
        dest: crash scal consp intro: evolves_configure_both)
qed

lemma evolves_check_reset:
  assumes "check_reset_all_success E R d = Some c'" and "evolves c d"
  shows "evolves c c'"
proof -
  have "evolves c (d\<lparr>reset_success_count := 0, crash_reset_success_count := 0\<rparr>)"
    using assms(2) by (intro evolve_intros)
  with assms show ?thesis
    by (auto simp: check_reset_all_success_def bind_eq_Some_conv split: if_splits
        dest!: evolves_next_test intro: evolves_trans)
qed

lemma evolves_next_field:
  "malicious_test_next_field d ph = Some (c', f) \<Longrightarrow> evolves c d \<Longrightarrow> evolves c c'"
  by (auto simp: malicious_test_next_field_def bind_eq_Some_conv split: if_splits intro!: evolve_intros)

lemma evolves_next_field_item:
  "next_field_item b r mp f n c = Some c' \<Longrightarrow> evolves c c'"
  by (auto simp: next_field_item_def bind_eq_Some_conv split: if_splits round.splits
      intro!: evolve_intros dest: evolves_next_field)

lemma evolves_completed_test: "completed_test c item = Some c' \<Longrightarrow> evolves c c'"
  by (auto simp: completed_test_def bind_eq_Some_conv split: test_item.splits malicious_behaviour.splits
      intro!: evolve_intros dest: evolves_next_field_item)

lemma evolves_analyzer_message:
  assumes "analyzer_message_handler E R c m = Some c'"
  shows "evolves c c'"
proof (cases "\<exists>item. m = CompletedTest item")
  case True
  with assms obtain item c1 where c1: "completed_test c item = Some c1" and r: "reset_consensus_node E R c1 = Some c'"
    by (auto simp: bind_eq_Some_conv)
  have "evolves c (c1\<lparr>reset_success_count := 0, crash_reset_success_count := 0\<rparr>)"
    using evolves_completed_test [OF c1] by (intro evolve_intros)
  with r evolves_completed_test [OF c1] show ?thesis
    by (auto simp: reset_consensus_node_def split: if_splits dest!: evolves_next_test
        intro: evolves_trans evolve_intros)
qed (use assms in \<open>auto elim!: analyzer_message_handler.elims simp: Some_eq_bind Let_def intro!: evolve_intros\<close>)

lemma evolves_reset_success:
  assumes "reset_success E R c p mode = Some c'"
  shows "evolves c c'"
proof -
  have "evolves c (c\<lparr>crash_reset_success_count := a, crash_consensus_nodes := insert p (crash_consensus_nodes c),
      not_crash_consensus_nodes := not_crash_consensus_nodes c - {p}\<rparr>)" for a
    by (simp add: evolves_def ctl_finite_def)
  moreover have "evolves c (c\<lparr>reset_success_count := a\<rparr>)" for a by (intro evolve_intros evolves_refl)
  ultimately show ?thesis using assms
    by (cases mode) (auto simp: bind_eq_Some_conv Let_def split: if_splits
        intro!: evolve_intros dest: evolves_check_reset)
qed

lemma evolves_node_mode_success: "node_mode_success E R c p mode = Some c' \<Longrightarrow> evolves c c'"
  by (erule node_mode_success.elims)
    (auto simp: Some_eq_bind Let_def start_protocol_and_test_def split: if_splits intro!: evolve_intros)

lemma evolves_node_message: "ctl_node_message_handler E R c p m = Some c' \<Longrightarrow> evolves c c'"
  by (erule ctl_node_message_handler.elims)
    (auto simp: parse_consensus_phase_message_def Some_eq_bind bind_eq_Some_conv start_protocol_and_test_def split_beta
      split: if_splits intro!: evolve_intros dest: evolves_reset_success [OF sym] evolves_node_mode_success [OF sym])

lemma evolves_cmd_match:
  assumes "ctl_cmd_match E R ms c = Some c'"
  shows "evolves c c'"
proof -
  define c1 where "c1 = (if ms ''init'' then ctl_init E c else c)"
  define c2 where "c2 = (if ms ''startTest'' then start_test E R c1 else c1)"
  define c3 where "c3 = (if ms ''protocolStart'' then protocol_start E R c2 else c2)"
  have "evolves c c1" by (auto simp: c1_def intro: evolve_intros)
  then have "evolves c c2" by (auto simp: c2_def intro: evolve_intros)
  then have c3: "evolves c c3" by (auto simp: c3_def intro: evolve_intros)
  from assms obtain c4 c6 where c4: "(if ms ''configureConsensusNode'' then configure_consensus_node E R c3 First else Some c3) = Some c4"
    and c6: "(if ms ''queryProtocolPhases'' then query_consensus_phases E R
        (if ms ''configureAnalyzer'' then fst (configure_analyzer E c4) else c4)
      else Some (if ms ''configureAnalyzer'' then fst (configure_analyzer E c4) else c4)) = Some c6"
    and c': "c' = (if ms ''sendConsensusRequests'' then make_consensus_requests E R c6 10 else c6)"
    unfolding ctl_cmd_match_def Let_def bind_eq_Some_conv c1_def [symmetric] c2_def [symmetric]
      c3_def [symmetric] option.inject by blast
  have "evolves c c4" using c3 c4 by (auto split: if_splits dest: evolves_configure_consensus_node intro: evolves_trans)
  then have "evolves c (if ms ''configureAnalyzer'' then fst (configure_analyzer E c4) else c4)"
    by (auto intro: evolves_configure_analyzer)
  with c6 have "evolves c c6"
    by (auto simp: query_consensus_phases_def bind_eq_Some_conv split: if_splits option.splits intro!: evolve_intros)
  then show ?thesis by (auto simp: c' make_consensus_requests_def intro!: evolve_intros)
qed

text \<open>
  A turn of the controller's event loop, whatever the event, keeps every set of nodes
  finite, only appends to what has been sent, and never adds to the list of unfinished test
  items or reorders it.
\<close>

theorem controller_turn_invariant:
  assumes "ctl_turn E R c event = Some c'" and "ctl_finite c"
  shows "ctl_finite c' \<and> prefix (ct_effects c) (ct_effects c') \<and> prefix (test_items c') (test_items c)"
proof -
  have "evolves c c'"
  proof (cases event)
    case (CtlDiscovered peers)
    then show ?thesis using assms(1)
      by (simp, elim subst, intro evolves_foldl evolves_refl) (simp add: evolves_def ctl_finite_def)
  next
    case (CtlExpired peers)
    then show ?thesis using assms(1)
      by (simp, elim subst, intro evolves_foldl evolves_refl) (auto simp: evolves_def ctl_finite_def)
  qed (use assms(1) in \<open>auto simp: bind_eq_Some_conv send_conspire_request_def split: if_splits
      intro!: evolve_intros dest: evolves_cmd_match evolves_analyzer_message evolves_node_message\<close>)
  then show ?thesis using assms(2) by (simp add: evolves_def)
qed

subsection \<open>The order of the configured tests\<close>

definition configured_items :: "bft_diagnosis_config \<Rightarrow> test_item list" where
  "configured_items cfg =
     (let t = (\<exists>x. cfg_throughput cfg = Some x \<and> throughput_enable x = Some True);
          l = (\<exists>x. cfg_latency cfg = Some x \<and> latency_enable x = Some True)
      in if t \<and> l then [ThroughputAndLatency] else if t then [Throughput] else if l then [Latency] else []) @
     (case cfg_scalability cfg of
        Some s \<Rightarrow> if scalability_enable s = Some True
          then [Scalability 1 (case_option 0 id (scalability_max s)) (case_option 0 id (scalability_internal s))] else []
      | None \<Rightarrow> []) @
     (case cfg_crash cfg of
        Some s \<Rightarrow> if crash_enable s = Some True then [Crash 0 (case_option 0 id (crash_max s))] else []
      | None \<Rightarrow> []) @
     (case cfg_malicious cfg of
        Some m \<Rightarrow> if malicious_enable m = Some True
          then List.map_filter (behaviour_item (the (number_of_phase m))) (case_option [] id (behaviours m)) else []
      | None \<Rightarrow> [])"

lemma add_behaviours:
  "test_items (foldl (\<lambda>c b. case behaviour_item n b of Some i \<Rightarrow> add_test_item c i | None \<Rightarrow> c) c bs) =
   test_items c @ List.map_filter (behaviour_item n) bs"
  by (induction bs arbitrary: c) (simp_all add: map_filter_simps add_test_item_def split: option.splits)

lemma configure_items:
  assumes "configure c cfg = Some c'" and "test_items c = []"
  shows "test_items c' = rev (configured_items cfg)"
proof -
  have p: "test_items (configure_performance cfg c) =
      (let t = (\<exists>x. cfg_throughput cfg = Some x \<and> throughput_enable x = Some True);
          l = (\<exists>x. cfg_latency cfg = Some x \<and> latency_enable x = Some True)
      in if t \<and> l then [ThroughputAndLatency] else if t then [Throughput] else if l then [Latency] else [])"
    using assms(2) by (simp add: configure_performance_def add_test_item_def Let_def split: option.splits)
  have s: "test_items (configure_scalability cfg d) = test_items d @ (case cfg_scalability cfg of
        Some s \<Rightarrow> if scalability_enable s = Some True
          then [Scalability 1 (case_option 0 id (scalability_max s)) (case_option 0 id (scalability_internal s))] else []
      | None \<Rightarrow> [])" for d
    by (simp add: configure_scalability_def add_test_item_def split: option.splits)
  have cr: "test_items (configure_crash cfg d) = test_items d @ (case cfg_crash cfg of
        Some s \<Rightarrow> if crash_enable s = Some True then [Crash 0 (case_option 0 id (crash_max s))] else []
      | None \<Rightarrow> [])" for d
    by (simp add: configure_crash_def add_test_item_def split: option.splits)
  have m: "test_items d' = test_items d @ (case cfg_malicious cfg of
        Some m \<Rightarrow> if malicious_enable m = Some True
          then List.map_filter (behaviour_item (the (number_of_phase m))) (case_option [] id (behaviours m)) else []
      | None \<Rightarrow> [])" if "configure_malicious cfg d = Some d'" for d d'
    using that
    by (auto simp: configure_malicious_def add_behaviours bind_eq_Some_conv map_filter_simps split: option.splits if_splits)
  from assms(1) obtain d where
    "configure_malicious cfg (configure_crash cfg (configure_scalability cfg (configure_performance cfg c))) = Some d"
    and c': "c' = d\<lparr>test_items := rev (test_items d)\<rparr>"
    by (auto simp: configure_def bind_eq_Some_conv)
  from m [OF this(1)] have "test_items d = configured_items cfg"
    by (simp add: s cr p configured_items_def)
  then show ?thesis by (simp add: c')
qed

text \<open>The controller after \<open>k\<close> configurations of the analyzer.\<close>

definition configured_times :: "'a msg_ext_scheme \<Rightarrow> nat \<Rightarrow> controller \<Rightarrow> controller" where
  "configured_times E k c = ((\<lambda>c. fst (configure_analyzer E c)) ^^ k) c"

lemma configure_analyzer_items: "test_items (fst (configure_analyzer E c)) = butlast (test_items c)"
  by (simp add: configure_analyzer_def next_test_item_def send_to_def Let_def split: test_item.split)

lemma popping: "test_items c = rev xs \<Longrightarrow> test_items (configured_times E k c) = rev (drop k xs)"
proof (induction k)
  case (Suc k)
  then show ?case
    by (simp add: configured_times_def configure_analyzer_items butlast_rev drop_Suc drop_tl)
qed (simp add: configured_times_def)

lemma configure_analyzer_last:
  "test_items c = xs @ [item] \<Longrightarrow> snd (configure_analyzer E c) \<and> next_item (fst (configure_analyzer E c)) = Some item \<and>
   ct_effects (fst (configure_analyzer E c)) = ct_effects c @
     [SendMessage (ct_analyzer_id c) (bincode_message E \<lparr>interactive = TestItem item, source = []\<rparr>)]"
  by (simp add: configure_analyzer_def next_test_item_def send_to_def Let_def split: test_item.split)

lemma configure_analyzer_none:
  "test_items c = [] \<Longrightarrow> configure_analyzer E c = (c\<lparr>next_item := None\<rparr>, False)"
  by (simp add: configure_analyzer_def next_test_item_def)

text \<open>
  C37. The tests run in the configured order. After a controller without test items is configured, the first, second
  and each further configuration of the analyzer sends the analyzer exactly one message, the next test item: the
  performance test, the scalability test, the crash test and the malicious behaviours in the order in which the
  configuration lists them, each as it is enabled there. Once all have been sent, a configuration sends
  nothing and reports that there is no test left.
\<close>

theorem tests_run_in_order:
  assumes "configure c cfg = Some c'" and "test_items c = []"
  shows "if k < length (configured_items cfg)
    then snd (configure_analyzer E (configured_times E k c')) \<and>
      next_item (configured_times E (Suc k) c') = Some (configured_items cfg ! k) \<and>
      ct_effects (configured_times E (Suc k) c') = ct_effects (configured_times E k c') @
        [SendMessage (ct_analyzer_id (configured_times E k c'))
          (bincode_message E \<lparr>interactive = TestItem (configured_items cfg ! k), source = []\<rparr>)]
    else \<not> snd (configure_analyzer E (configured_times E k c')) \<and>
      next_item (configured_times E (Suc k) c') = None \<and>
      ct_effects (configured_times E (Suc k) c') = ct_effects (configured_times E k c')"
proof -
  note items = popping [OF configure_items [OF assms], of E k]
  have suc: "configured_times E (Suc k) c' = fst (configure_analyzer E (configured_times E k c'))"
    by (simp add: configured_times_def)
  show ?thesis
  proof (cases "k < length (configured_items cfg)")
    case True
    then have "drop k (configured_items cfg) = configured_items cfg ! k # drop (Suc k) (configured_items cfg)"
      by (simp add: Cons_nth_drop_Suc)
    with items have "test_items (configured_times E k c') =
        rev (drop (Suc k) (configured_items cfg)) @ [configured_items cfg ! k]" by simp
    from configure_analyzer_last [OF this, of E] True show ?thesis by (simp add: suc)
  next
    case False
    with items have "test_items (configured_times E k c') = []" by simp
    from configure_analyzer_none [OF this, of E] False show ?thesis by (simp add: suc)
  qed
qed

definition demo_config :: bft_diagnosis_config where
  "demo_config = \<lparr>cfg_throughput = Some \<lparr>throughput_enable = Some True\<rparr>, cfg_latency = None,
     cfg_scalability = Some \<lparr>scalability_enable = Some True, scalability_max = Some 7, scalability_internal = Some 2\<rparr>,
     cfg_crash = Some \<lparr>crash_enable = None, crash_max = Some 1\<rparr>,
     cfg_malicious = Some \<lparr>malicious_enable = Some True, number_of_phase = Some 2,
       behaviours = Some [''LeaderFeignDeath'', ''Other'', ''LeaderSendAmbiguousMessage'']\<rparr>\<rparr>"

subsection \<open>The series of intermediate tests\<close>

text \<open>
  The intermediate test items that follow a test item: each completed item determines the
  next one, until there is none.
\<close>

inductive test_series :: "controller \<Rightarrow> test_item \<Rightarrow> test_item list \<Rightarrow> controller \<Rightarrow> bool" where
  series_end: "completed_test c item = Some c' \<Longrightarrow> next_mid_test_item c' = None \<Longrightarrow> test_series c item [] c'"
| series_next: "completed_test c item = Some c1 \<Longrightarrow> next_mid_test_item c1 = Some next \<Longrightarrow>
    test_series c1 next items c' \<Longrightarrow> test_series c item (next # items) c'"

inductive_cases test_series_NilE: "test_series c item [] c'"
inductive_cases test_series_ConsE: "test_series c item (i # items) c'"

lemma test_series_unique:
  "test_series c item items c' \<Longrightarrow> test_series c item items2 c2 \<Longrightarrow> items2 = items \<and> c2 = c'"
proof (induction arbitrary: items2 c2 rule: test_series.induct)
  case (series_end c item c')
  from series_end(3) show ?case by cases (use series_end in auto)
next
  case (series_next c item c1 "next" items c')
  from series_next(5) show ?case
  proof cases
    case (series_next d next2 items3)
    with series_next.hyps(1,2) have "test_series c1 next items3 c2" by simp
    with series_next.IH series_next series_next.hyps(1,2) show ?thesis by auto
  qed (use series_next.hyps in auto)
qed

text \<open>The numbers from \<open>n\<close> on in steps of \<open>i\<close>, without \<open>n\<close>, up to \<open>m\<close>.\<close>

function steps :: "nat \<Rightarrow> nat \<Rightarrow> nat \<Rightarrow> nat list" where
  "steps n i m = (if i = 0 \<or> m < n + i then [] else (n + i) # steps (n + i) i m)"
  by pat_completeness auto
termination by (relation "measure (\<lambda>(n, i, m). m - n)") auto

declare steps.simps [simp del]

lemma steps_arith: "0 < i \<Longrightarrow> n \<le> m \<Longrightarrow> steps n i m = map (\<lambda>k. n + k * i) [1..<Suc ((m - n) div i)]"
proof (induction n i m rule: steps.induct)
  case (1 n i m)
  show ?case
  proof (cases "m < n + i")
    case True
    with 1 show ?thesis by (simp add: steps.simps [of n])
  next
    case False
    with 1(2) have "(m - n) div i = Suc ((m - (n + i)) div i)"
      by (simp add: le_div_geq diff_diff_left [symmetric] del: diff_diff_left)
    moreover have "[1..<Suc (Suc j)] = 1 # map Suc [1..<Suc j]" for j
      by (simp add: upt_conv_Cons map_Suc_upt del: upt_Suc)
    ultimately show ?thesis using False 1
      by (simp add: steps.simps [of n] add.assoc del: upt_Suc)
  qed
qed

lemma scalability_steps:
  assumes "0 < internal" and "unat mx + unat internal < 2 ^ 16"
  shows "unat n \<le> unat mx \<Longrightarrow> \<exists>c'. test_series c (Scalability n mx internal)
    (map (\<lambda>j. Scalability (of_nat j) mx internal) (steps (unat n) (unat internal) (unat mx))) c'"
proof (induction "unat n" "unat internal" "unat mx" arbitrary: n c rule: steps.induct)
  case 1
  have pos: "unat internal \<noteq> 0" using assms(1) by (simp add: unat_eq_zero word_neq_0_conv)
  have add: "u16_add n internal = Some (n + internal)" "unat (n + internal) = unat n + unat internal"
    using 1(2) assms(2) by (simp_all add: u16_add_def unat_word_ariths)
  show ?case
  proof (cases "unat mx < unat n + unat internal")
    case True
    then have "\<not> n + internal \<le> mx" by (simp add: word_le_nat_alt add)
    then have "test_series c (Scalability n mx internal) [] (c\<lparr>next_mid_test_item := None\<rparr>)"
      using add by (intro series_end) (simp_all add: completed_test_def)
    then show ?thesis using True by (auto simp: steps.simps [of "unat n"])
  next
    case False
    then have le: "n + internal \<le> mx" by (simp add: word_le_nat_alt add)
    obtain c' where "test_series (c\<lparr>next_mid_test_item := Some (Scalability (n + internal) mx internal)\<rparr>)
        (Scalability (n + internal) mx internal)
        (map (\<lambda>j. Scalability (of_nat j) mx internal) (steps (unat (n + internal)) (unat internal) (unat mx))) c'"
      using 1(1) [OF _ add(2) [symmetric], of "c\<lparr>next_mid_test_item := Some (Scalability (n + internal) mx internal)\<rparr>"]
        False pos le by (auto simp only: word_le_nat_alt)
    then have "test_series c (Scalability n mx internal) (Scalability (n + internal) mx internal #
        map (\<lambda>j. Scalability (of_nat j) mx internal) (steps (unat n + unat internal) (unat internal) (unat mx))) c'"
      using add le by (intro series_next) (auto simp: completed_test_def)
    moreover have "steps (unat n) (unat internal) (unat mx) =
        (unat n + unat internal) # steps (unat n + unat internal) (unat internal) (unat mx)"
      using False pos by (simp add: steps.simps [of "unat n"])
    ultimately show ?thesis by auto
  qed
qed

lemma crash_steps:
  assumes "unat mx + 1 < 2 ^ 16"
  shows "unat n \<le> unat mx \<Longrightarrow> \<exists>c'. test_series c (Crash n mx) (map (\<lambda>j. Crash (of_nat j) mx) (steps (unat n) 1 (unat mx))) c'"
proof (induction "unat n" "1 :: nat" "unat mx" arbitrary: n c rule: steps.induct)
  case 1
  have add: "u16_add n 1 = Some (n + 1)" "unat (n + 1) = unat n + 1"
    using 1(2) assms by (simp_all add: u16_add_def unat_word_ariths)
  show ?case
  proof (cases "unat mx < unat n + 1")
    case True
    then have "\<not> n + 1 \<le> mx" by (simp add: word_le_nat_alt add)
    then have "test_series c (Crash n mx) [] (c\<lparr>next_mid_test_item := None\<rparr>)"
      using add by (intro series_end) (simp_all add: completed_test_def)
    then show ?thesis using True by (auto simp: steps.simps [of "unat n"])
  next
    case False
    then have le: "n + 1 \<le> mx" by (simp add: word_le_nat_alt add)
    obtain c' where "test_series (c\<lparr>next_mid_test_item := Some (Crash (n + 1) mx)\<rparr>) (Crash (n + 1) mx)
        (map (\<lambda>j. Crash (of_nat j) mx) (steps (unat (n + 1)) 1 (unat mx))) c'"
      using 1(1) [OF _ add(2) [symmetric], of "c\<lparr>next_mid_test_item := Some (Crash (n + 1) mx)\<rparr>"]
        False le by (auto simp only: word_le_nat_alt one_neq_zero)
    then have "test_series c (Crash n mx) (Crash (n + 1) mx # map (\<lambda>j. Crash (of_nat j) mx) (steps (unat n + 1) 1 (unat mx))) c'"
      using add le by (intro series_next) (auto simp: completed_test_def)
    moreover have "steps (unat n) 1 (unat mx) = (unat n + 1) # steps (unat n + 1) 1 (unat mx)"
      using False by (simp add: steps.simps [of "unat n"])
    ultimately show ?thesis by (auto simp: add.commute)
  qed
qed

lemma zero_step_forever:
  "test_series c item items c' \<Longrightarrow> item = Scalability n mx 0 \<Longrightarrow> n \<le> mx \<Longrightarrow> False"
  by (induction rule: test_series.induct) (auto simp: completed_test_def u16_add_def bind_eq_Some_conv split: if_splits)

text \<open>
  The items that completed items lead to in the scalability test with a positive step and in the
  crash test, for a count up to the maximum and while the counts do not overflow, are exactly the announced ones: from \<open>n\<close> on in steps of the interval up to the maximum,
  and one crashed node more each time. The configured default interval zero repeats the same
  test for ever: no series ends.
\<close>

theorem counting_series:
  assumes "n \<le> mx" and "unat mx + unat internal + 1 < 2 ^ 16"
  shows "(0 < internal \<longrightarrow> (\<exists>c'. test_series c (Scalability n mx internal)
      (map (\<lambda>k. Scalability (of_nat (unat n + k * unat internal)) mx internal)
        [1..<Suc ((unat mx - unat n) div unat internal)]) c')) \<and>
    (\<exists>c'. test_series c (Crash n mx) (map (\<lambda>k. Crash (of_nat k) mx) [Suc (unat n)..<Suc (unat mx)]) c') \<and>
    (\<forall>items c'. \<not> test_series c (Scalability n mx 0) items c')"
proof (intro conjI impI allI notI)
  have le: "unat n \<le> unat mx" using assms(1) by (simp add: word_le_nat_alt)
  {
    assume pos: "0 < internal"
    then have "0 < unat internal" by (simp add: unat_gt_0 word_neq_0_conv [symmetric])
    from steps_arith [OF this le] scalability_steps [OF pos _ le, of c] assms(2)
    show "\<exists>c'. test_series c (Scalability n mx internal)
      (map (\<lambda>k. Scalability (of_nat (unat n + k * unat internal)) mx internal)
        [1..<Suc ((unat mx - unat n) div unat internal)]) c'" by (simp add: comp_def)
  }
  have "map (\<lambda>k. unat n + k * 1) [1..<Suc ((unat mx - unat n) div 1)] = [Suc (unat n)..<Suc (unat mx)]"
    using le by (intro nth_equalityI) (simp_all del: upt_Suc)
  then show "\<exists>c'. test_series c (Crash n mx) (map (\<lambda>k. Crash (of_nat k) mx) [Suc (unat n)..<Suc (unat mx)]) c'"
    using steps_arith [of 1 "unat n" "unat mx"] crash_steps [OF _ le, of c] assms(2) le by simp
qed (use zero_step_forever assms(1) in blast)

theorem counting_series_witness:
  "\<exists>c'. test_series (controller_new [1] [2] [3] [4] [5] 10) (Scalability 1 7 2) [Scalability 3 7 2, Scalability 5 7 2, Scalability 7 7 2] c'"
  using counting_series [of 1 7 2 "controller_new [1] [2] [3] [4] [5] 10"]
  by (simp add: upt_conv_Cons)

lemma completed_phase:
  "b \<in> {LeaderFeignDeath, LeaderDelaySendMessage, LeaderSendDuplicateMessage} \<Longrightarrow>
   completed_test c (Malicious (b rnd mp)) = map_option (\<lambda>i. c\<lparr>next_mid_test_item := i\<rparr>) (next_phase_item b rnd mp)"
  by (auto simp: completed_test_def)

lemma phases_from:
  assumes b: "b \<in> {LeaderFeignDeath, LeaderDelaySendMessage, LeaderSendDuplicateMessage}"
  shows "p \<le> unat mp \<Longrightarrow> \<exists>c'. test_series c (Malicious (b (OtherRound (of_nat p)) mp))
    (map (\<lambda>q. Malicious (b (OtherRound (of_nat q)) mp)) [Suc p..<Suc (unat mp)]) c'"
proof (induction "unat mp - p" arbitrary: p c)
  case 0
  then have "p = unat mp" by simp
  then have "test_series c (Malicious (b (OtherRound (of_nat p)) mp)) [] (c\<lparr>next_mid_test_item := None\<rparr>)"
    by (intro series_end) (simp_all add: completed_phase [OF b] next_phase_item_def)
  then show ?case using \<open>p = unat mp\<close> by auto
next
  case (Suc k)
  have lt: "p < unat mp" "unat mp < 256" using Suc(2) unsigned_less [of mp] by simp_all
  then have w: "unat (of_nat p :: u8) = p" by (simp add: unat_of_nat take_bit_nat_eq_self)
  let ?next = "Malicious (b (OtherRound (of_nat (Suc p))) mp)"
  have "next_phase_item b (OtherRound (of_nat p)) mp = Some (Some ?next)"
    using lt by (simp add: next_phase_item_def word_less_nat_alt w u8_add_def add.commute)
  then have c1: "completed_test c (Malicious (b (OtherRound (of_nat p)) mp)) = Some (c\<lparr>next_mid_test_item := Some ?next\<rparr>)"
    by (simp add: completed_phase [OF b])
  have "k = unat mp - Suc p" "Suc p \<le> unat mp" using Suc(2) by simp_all
  from Suc.hyps(1) [OF this, of "c\<lparr>next_mid_test_item := Some ?next\<rparr>"] obtain c' where
    "test_series (c\<lparr>next_mid_test_item := Some ?next\<rparr>) ?next
      (map (\<lambda>q. Malicious (b (OtherRound (of_nat q)) mp)) [Suc (Suc p)..<Suc (unat mp)]) c'" by blast
  from series_next [OF c1 _ this] show ?case using lt by (auto simp: upt_conv_Cons simp del: upt_Suc)
qed

text \<open>
  The behaviours of a leader with a phase (feigned death, delayed and duplicate
  messages) are tested in every phase from one to the configured number of phases, once
  each, and the series ends.
\<close>

theorem phase_series:
  assumes "b \<in> {LeaderFeignDeath, LeaderDelaySendMessage, LeaderSendDuplicateMessage}"
  shows "\<exists>c'. test_series c (Malicious (b FirstRound mp))
    (map (\<lambda>q. Malicious (b (OtherRound (of_nat q)) mp)) [1..<Suc (unat mp)]) c'"
proof (cases "mp = 0")
  case True
  then have "test_series c (Malicious (b FirstRound mp)) [] (c\<lparr>next_mid_test_item := None\<rparr>)"
    by (intro series_end) (simp_all add: completed_phase [OF assms] next_phase_item_def)
  then show ?thesis using True by auto
next
  case False
  then have "1 \<le> unat mp" by (simp add: unat_eq_zero Suc_le_eq unat_gt_0 [symmetric] del: unat_gt_0)
  moreover have "completed_test c (Malicious (b FirstRound mp)) =
      Some (c\<lparr>next_mid_test_item := Some (Malicious (b (OtherRound 1) mp))\<rparr>)"
    using False by (simp add: completed_phase [OF assms] next_phase_item_def word_gt_0)
  ultimately show ?thesis
    using series_next [of c "Malicious (b FirstRound mp)"] phases_from [OF assms, of 1 mp]
    by (fastforce simp: upt_conv_Cons simp del: upt_Suc)
qed

theorem phase_series_witness:
  "\<exists>c'. test_series (controller_new [1] [2] [3] [4] [5] 10) (Malicious (LeaderFeignDeath FirstRound 3))
    [Malicious (LeaderFeignDeath (OtherRound 1) 3), Malicious (LeaderFeignDeath (OtherRound 2) 3),
     Malicious (LeaderFeignDeath (OtherRound 3) 3)] c'"
  using phase_series [of LeaderFeignDeath "controller_new [1] [2] [3] [4] [5] 10" 3]
  by (simp add: upt_conv_Cons)

text \<open>
  The tests of the behaviours with a field: one test item, the tests that are left of a phase
  and of the phases after it.
\<close>

type_synonym field_behaviour = "round \<Rightarrow> u8 \<Rightarrow> string list \<Rightarrow> u16 \<Rightarrow> malicious_behaviour"

definition field_item :: "field_behaviour \<Rightarrow> u8 \<Rightarrow> nat \<Rightarrow> string list \<Rightarrow> nat \<Rightarrow> test_item" where
  "field_item b mp p f k = Malicious (b (OtherRound (of_nat p)) mp f (of_nat k))"

definition phase_tests :: "field_behaviour \<Rightarrow> u8 \<Rightarrow> nat \<Rightarrow> nat \<Rightarrow> string list list \<Rightarrow> test_item list" where
  "phase_tests b mp n p fs = concat (map (\<lambda>f. map (field_item b mp p f) [1..<Suc n]) (rev fs))"

definition phases_tests :: "field_behaviour \<Rightarrow> u8 \<Rightarrow> nat \<Rightarrow> (nat \<Rightarrow> string list list) \<Rightarrow> nat \<Rightarrow> test_item list" where
  "phases_tests b mp n fs p = concat (map (\<lambda>q. phase_tests b mp n q (fs q)) [p..<Suc (unat mp)])"

lemma phase_tests_snoc:
  "0 < n \<Longrightarrow> phase_tests b mp n p (fs @ [f]) =
   field_item b mp p f 1 # map (field_item b mp p f) [Suc 1..<Suc n] @ phase_tests b mp n p fs"
  by (simp add: phase_tests_def upt_conv_Cons del: upt_Suc)

lemma phases_tests_Cons:
  "p \<le> unat mp \<Longrightarrow> phases_tests b mp n fs p = phase_tests b mp n p (fs p) @ phases_tests b mp n fs (Suc p)"
  by (simp add: phases_tests_def upt_conv_Cons del: upt_Suc)

lemma completed_field:
  "b \<in> {LeaderSendAmbiguousMessage, ReplicaNodeConspireForgeMessages} \<Longrightarrow>
   completed_test c (Malicious (b rnd mp f n)) = next_field_item b rnd mp f n c"
  by (auto simp: completed_test_def)

text \<open>The phases from \<open>p\<close> on have fields, none of them empty.\<close>

definition has_fields :: "controller \<Rightarrow> (nat \<Rightarrow> string list list) \<Rightarrow> nat \<Rightarrow> nat \<Rightarrow> bool" where
  "has_fields c fs p m \<longleftrightarrow> (\<forall>q. p \<le> q \<and> q \<le> m \<longrightarrow>
     ct_fields c (of_nat q) = Some (fs q) \<and> fs q \<noteq> [] \<and> [] \<notin> set (fs q))"

lemma unat_u8_less: "unat (w :: u8) < 256"
  by (rule order_less_le_trans [OF unsigned_less]) simp

lemma of_nat_u8_eq: "p < 256 \<Longrightarrow> q < 256 \<Longrightarrow> (of_nat p :: u8) = of_nat q \<longleftrightarrow> p = q"
  by (simp add: word_of_nat_eq_iff take_bit_nat_eq_self)

lemma of_nat_u8_neq: "p < q \<Longrightarrow> q \<le> unat (mp :: u8) \<Longrightarrow> (of_nat q :: u8) \<noteq> of_nat p"
  using of_nat_u8_eq [of q p] unat_u8_less [of mp] by simp

lemma has_fields_upd:
  "has_fields c fs (Suc p) (unat (mp :: u8)) \<Longrightarrow> d = (ct_fields c)(of_nat p := x) \<Longrightarrow>
   has_fields (c\<lparr>ct_fields := d, next_mid_test_item := j\<rparr>) fs (Suc p) (unat mp)"
  using of_nat_u8_neq [of p _ mp] by (auto simp: has_fields_def Suc_le_eq simp del: of_nat_Suc)

lemma next_field_some:
  "ct_fields c ph = Some (gs @ [f]) \<Longrightarrow>
   malicious_test_next_field c ph = Some (c\<lparr>ct_fields := (ct_fields c)(ph \<mapsto> gs)\<rparr>, f)"
  by (simp add: malicious_test_next_field_def)

lemma next_field_none:
  "ct_fields c ph = Some [] \<Longrightarrow>
   malicious_test_next_field c ph = Some (c\<lparr>ct_fields := (ct_fields c)(ph := None)\<rparr>, [])"
  by (simp add: malicious_test_next_field_def)

text \<open>One step of the series, on each branch.\<close>

lemma step_count:
  assumes "b \<in> {LeaderSendAmbiguousMessage, ReplicaNodeConspireForgeMessages}"
    and "card (waiting_consensus_nodes c) = n" and "k < n" and "n < 2 ^ 16"
  shows "completed_test c (field_item b mp p f k) = Some (c\<lparr>next_mid_test_item := Some (field_item b mp p f (Suc k))\<rparr>)"
proof -
  have "unat (of_nat k :: u16) = k" using assms by (simp add: unat_of_nat)
  with assms show ?thesis
    by (simp add: field_item_def completed_field [OF assms(1)] next_field_item_def u16_add_def add.commute)
qed

lemma step_field:
  assumes "b \<in> {LeaderSendAmbiguousMessage, ReplicaNodeConspireForgeMessages}"
    and "card (waiting_consensus_nodes c) = n" and "n < 2 ^ 16"
    and "ct_fields c (of_nat p) = Some (gs @ [g])" and "g \<noteq> []"
  shows "completed_test c (field_item b mp p f n) = Some (c\<lparr>ct_fields := (ct_fields c)(of_nat p \<mapsto> gs),
    next_mid_test_item := Some (field_item b mp p g 1)\<rparr>)"
proof -
  have "unat (of_nat n :: u16) = n" using assms by (simp add: unat_of_nat)
  with assms show ?thesis
    by (simp add: field_item_def completed_field [OF assms(1)] next_field_item_def next_field_some)
qed

lemma step_phase:
  assumes "b \<in> {LeaderSendAmbiguousMessage, ReplicaNodeConspireForgeMessages}"
    and "card (waiting_consensus_nodes c) = n" and "n < 2 ^ 16"
    and "ct_fields c (of_nat p) = Some []" and "p < unat mp"
    and "ct_fields c (of_nat (Suc p)) = Some (gs @ [g])"
  shows "completed_test c (field_item b mp p f n) = Some (c\<lparr>ct_fields :=
      ((ct_fields c)(of_nat p := None))(of_nat (Suc p) \<mapsto> gs),
    next_mid_test_item := Some (field_item b mp (Suc p) g 1)\<rparr>)"
proof -
  have n: "unat (of_nat n :: u16) = n" using assms by (simp add: unat_of_nat)
  have lt: "p < 255" using assms(5) unat_u8_less [of mp] by simp
  then have w: "unat (of_nat p :: u8) = p" by (simp add: unat_of_nat)
  have ne: "(of_nat p :: u8) \<noteq> mp" using w assms(5) by auto
  have suc: "u8_add (of_nat p) 1 = Some (of_nat (Suc p))" using lt w by (simp add: u8_add_def add.commute)
  have "(of_nat (Suc p) :: u8) \<noteq> of_nat p" using of_nat_u8_eq [of "Suc p" p] lt by simp
  with assms n ne suc show ?thesis
    by (simp add: field_item_def completed_field [OF assms(1)] next_field_item_def next_field_none
        malicious_test_next_field_def)
qed

lemma step_last:
  assumes "b \<in> {LeaderSendAmbiguousMessage, ReplicaNodeConspireForgeMessages}"
    and "card (waiting_consensus_nodes c) = n" and "n < 2 ^ 16"
    and "ct_fields c (of_nat p) = Some []" and "p = unat mp"
  shows "completed_test c (field_item b mp p f n) = Some (c\<lparr>ct_fields := (ct_fields c)(of_nat p := None),
    next_mid_test_item := None\<rparr>)"
proof -
  have "unat (of_nat n :: u16) = n" using assms by (simp add: unat_of_nat)
  moreover have "(of_nat p :: u8) = mp" using assms(5) by simp
  ultimately show ?thesis using assms
    by (simp add: field_item_def completed_field [OF assms(1)] next_field_item_def next_field_none)
qed

text \<open>Fields that are gone stay gone.\<close>

lemma next_field_gone:
  "malicious_test_next_field c p = Some (c', f) \<Longrightarrow> ct_fields c ph = None \<Longrightarrow> ct_fields c' ph = None"
  by (auto simp: malicious_test_next_field_def bind_eq_Some_conv split: if_splits)

lemma next_field_item_gone:
  "next_field_item b r mp f n c = Some c' \<Longrightarrow> ct_fields c ph = None \<Longrightarrow> ct_fields c' ph = None"
  by (auto simp: next_field_item_def bind_eq_Some_conv split: if_splits round.splits dest: next_field_gone)

lemma completed_test_gone:
  "completed_test c item = Some c' \<Longrightarrow> ct_fields c ph = None \<Longrightarrow> ct_fields c' ph = None"
  by (auto simp: completed_test_def bind_eq_Some_conv split: test_item.splits malicious_behaviour.splits
      dest: next_field_item_gone)

lemma test_series_gone: "test_series c item items c' \<Longrightarrow> ct_fields c ph = None \<Longrightarrow> ct_fields c' ph = None"
  by (induction rule: test_series.induct) (auto dest: completed_test_gone)

definition drains :: "controller \<Rightarrow> test_item \<Rightarrow> test_item list \<Rightarrow> nat \<Rightarrow> nat \<Rightarrow> bool" where
  "drains c item items p m \<longleftrightarrow>
     (\<exists>c'. test_series c item items c' \<and> (\<forall>q. p \<le> q \<and> q \<le> m \<longrightarrow> ct_fields c' (of_nat q) = None))"

lemma drains_next:
  "completed_test c item = Some c1 \<Longrightarrow> next_mid_test_item c1 = Some i \<Longrightarrow> drains c1 i items p m \<Longrightarrow>
   drains c item (i # items) p m"
  by (auto simp: drains_def intro: series_next)

lemma drains_phase:
  "drains c item items (Suc p) m \<Longrightarrow> ct_fields c (of_nat p) = None \<Longrightarrow> drains c item items p m"
  unfolding drains_def by (metis le_SucE le_antisym not_less_eq_eq test_series_gone)

lemma fields_end:
  assumes b: "b \<in> {LeaderSendAmbiguousMessage, ReplicaNodeConspireForgeMessages}" and n: "0 < n" "n < 2 ^ 16"
    and empty: "map (field_item b mp p f) [Suc k..<Suc n] @ phase_tests b mp n p gs @ phases_tests b mp n fs (Suc p) = []"
    and c: "card (waiting_consensus_nodes c) = n" "k \<le> n" "p \<le> unat mp" "ct_fields c (of_nat p) = Some gs"
    "has_fields c fs (Suc p) (unat mp)"
  shows "drains c (field_item b mp p f k) [] p (unat mp)"
proof -
  have k: "k = n" using empty c(2) by (cases "k = n") (simp_all add: upt_conv_Cons del: upt_Suc)
  have gs: "gs = []" using empty n(1) by (cases gs rule: rev_cases) (simp_all add: phase_tests_snoc)
  have p: "p = unat mp"
  proof (rule ccontr)
    assume "p \<noteq> unat mp"
    with c(3) have p: "Suc p \<le> unat mp" by simp
    with c(5) have "fs (Suc p) \<noteq> []" by (simp add: has_fields_def)
    then obtain hs g where "fs (Suc p) = hs @ [g]" by (cases "fs (Suc p)" rule: rev_cases) auto
    with empty show False by (simp add: phases_tests_Cons [OF p] phase_tests_snoc [OF n(1)])
  qed
  let ?c = "c\<lparr>ct_fields := (ct_fields c)(of_nat p := None), next_mid_test_item := None\<rparr>"
  have "completed_test c (field_item b mp p f k) = Some ?c"
    unfolding k by (rule step_last [OF b c(1) n(2) _ p]) (use c(4) gs in simp)
  then have "test_series c (field_item b mp p f k) [] ?c" by (rule series_end) simp
  moreover have "ct_fields ?c (of_nat q) = None" if "p \<le> q \<and> q \<le> unat mp" for q
  proof -
    from that p have "q = p" by simp
    then show ?thesis by simp
  qed
  ultimately show ?thesis unfolding drains_def by blast
qed

lemma fields_from:
  assumes b: "b \<in> {LeaderSendAmbiguousMessage, ReplicaNodeConspireForgeMessages}" and n: "0 < n" "n < 2 ^ 16"
  shows "items = map (field_item b mp p f) [Suc k..<Suc n] @ phase_tests b mp n p gs @ phases_tests b mp n fs (Suc p) \<Longrightarrow>
    card (waiting_consensus_nodes c) = n \<Longrightarrow> k \<le> n \<Longrightarrow> p \<le> unat mp \<Longrightarrow>
    ct_fields c (of_nat p) = Some gs \<Longrightarrow> [] \<notin> set gs \<Longrightarrow> has_fields c fs (Suc p) (unat mp) \<Longrightarrow>
    drains c (field_item b mp p f k) items p (unat mp)"
proof (induction items arbitrary: c p f k gs)
  case Nil
  show ?case by (rule fields_end [OF b n Nil(1) [symmetric] Nil(2-5,7)])
next
  case (Cons i items)
  have mp: "unat mp < 256" by (rule unat_u8_less)
  consider (count) "k < n" | (field) g hs where "k = n" "gs = hs @ [g]" | (phase) "k = n" "gs = []" "p < unat mp"
    | (none) "k = n" "gs = []" "p = unat mp"
    using Cons.prems(3,4) by (cases gs rule: rev_cases) (auto simp: le_less)
  then show ?case
  proof cases
    case count
    then have i: "i = field_item b mp p f (Suc k)"
      and items: "items = map (field_item b mp p f) [Suc (Suc k)..<Suc n] @ phase_tests b mp n p gs @ phases_tests b mp n fs (Suc p)"
      using Cons.prems(1) by (simp_all add: upt_conv_Cons del: upt_Suc)
    show ?thesis unfolding i
      by (rule drains_next [OF step_count [OF b Cons.prems(2) count n(2)]], simp, rule Cons.IH [OF items])
        (use Cons.prems count in \<open>simp_all add: has_fields_def\<close>)
  next
    case field
    then have i: "i = field_item b mp p g 1"
      and items: "items = map (field_item b mp p g) [Suc 1..<Suc n] @ phase_tests b mp n p hs @ phases_tests b mp n fs (Suc p)"
      using Cons.prems(1) n(1) by (simp_all add: phase_tests_snoc del: upt_Suc)
    have "has_fields (c\<lparr>ct_fields := (ct_fields c)(of_nat p \<mapsto> hs), next_mid_test_item := j\<rparr>) fs (Suc p) (unat mp)" for j
      by (rule has_fields_upd [OF Cons.prems(7) refl])
    then show ?thesis unfolding i field(1)
      by (intro drains_next [OF step_field [OF b Cons.prems(2) n(2)]] Cons.IH [OF items])
        (use Cons.prems field n in auto)
  next
    case phase
    from phase(3) Cons.prems(7) obtain hs g where hs: "fs (Suc p) = hs @ [g]"
      "ct_fields c (of_nat (Suc p)) = Some (hs @ [g])" "[] \<notin> set hs"
      by (cases "fs (Suc p)" rule: rev_cases) (auto simp: has_fields_def simp del: of_nat_Suc)
    have i: "i = field_item b mp (Suc p) g 1" and items: "items = map (field_item b mp (Suc p) g) [Suc 1..<Suc n] @
        phase_tests b mp n (Suc p) hs @ phases_tests b mp n fs (Suc (Suc p))"
      using Cons.prems(1) phase n(1) hs(1)
      by (simp_all add: phase_tests_def [of _ _ _ _ "[]"] phases_tests_Cons [OF Suc_leI [OF phase(3)]]
          phase_tests_snoc [OF n(1)] del: upt_Suc)
    have ne: "(of_nat (Suc p) :: u8) \<noteq> of_nat p" using of_nat_u8_eq [of "Suc p" p] phase(3) mp by simp
    let ?c = "c\<lparr>ct_fields := (ct_fields c)(of_nat p := None, of_nat (Suc p) \<mapsto> hs),
      next_mid_test_item := Some (field_item b mp (Suc p) g 1)\<rparr>"
    have fields: "has_fields ?c fs (Suc (Suc p)) (unat mp)"
      using Cons.prems(7) of_nat_u8_neq [of p _ mp] of_nat_u8_neq [of "Suc p" _ mp]
      by (auto simp: has_fields_def Suc_le_eq simp del: of_nat_Suc)
    have "drains ?c (field_item b mp (Suc p) g 1) items (Suc p) (unat mp)"
      by (rule Cons.IH [OF items _ _ _ _ _ fields]) (use Cons.prems(2) phase n hs in \<open>simp_all del: of_nat_Suc\<close>)
    then have "drains ?c (field_item b mp (Suc p) g 1) items p (unat mp)"
      by (rule drains_phase) (use ne in \<open>simp del: of_nat_Suc\<close>)
    moreover have "completed_test c (field_item b mp p f n) = Some ?c"
      by (rule step_phase [OF b Cons.prems(2) n(2) _ phase(3) hs(2)]) (use Cons.prems(5) phase(2) in simp)
    ultimately show ?thesis unfolding i phase(1) by (intro drains_next) simp_all
  next
    case none
    then show ?thesis using Cons.prems(1) by (simp add: phase_tests_def phases_tests_def)
  qed
qed

text \<open>
  The behaviours with a field (ambiguous and forged messages) are tested exhaustively: for
  every phase in order, for every field of the phase's message, last field first, with one,
  two, up to \<open>n\<close> nodes involved, where \<open>n\<close> is the number of consensus nodes; then the series
  ends. It uses the fields up: a second behaviour of this kind panics at its first step.
\<close>

theorem field_series:
  assumes "b \<in> {LeaderSendAmbiguousMessage, ReplicaNodeConspireForgeMessages}"
    and "card (waiting_consensus_nodes c) = n" and "0 < n" and "n < 2 ^ 16" and "0 < mp"
    and "has_fields c fs 1 (unat mp)"
  shows "\<exists>c'. test_series c (Malicious (b FirstRound mp [] 0)) (phases_tests b mp n fs 1) c' \<and>
    (\<forall>b2 \<in> {LeaderSendAmbiguousMessage, ReplicaNodeConspireForgeMessages}. \<forall>mp2 f k. 0 < mp2 \<longrightarrow>
       completed_test c' (Malicious (b2 FirstRound mp2 f k)) = None)"
proof -
  have mp: "1 \<le> unat mp" using assms(5) by (simp add: Suc_le_eq unat_gt_0 word_neq_0_conv [symmetric])
  with assms(6) obtain hs g where hs: "fs 1 = hs @ [g]" "ct_fields c 1 = Some (hs @ [g])" "[] \<notin> set hs"
    by (cases "fs 1" rule: rev_cases) (auto simp: has_fields_def)
  let ?c = "c\<lparr>ct_fields := (ct_fields c)(of_nat 1 \<mapsto> hs), next_mid_test_item := Some (field_item b mp 1 g 1)\<rparr>"
  have first: "completed_test c (Malicious (b FirstRound mp [] 0)) = Some ?c"
    using hs(2) assms(5) by (simp add: completed_field [OF assms(1)] next_field_item_def next_field_some field_item_def)
  have rest: "has_fields c fs (Suc 1) (unat mp)" using assms(6) by (simp add: has_fields_def)
  have "drains ?c (field_item b mp 1 g 1) (map (field_item b mp 1 g) [Suc 1..<Suc n] @ phase_tests b mp n 1 hs @
      phases_tests b mp n fs (Suc 1)) 1 (unat mp)"
    by (rule fields_from [OF assms(1,3,4) refl _ _ mp _ hs(3) has_fields_upd [OF rest refl]])
      (use assms(2,3) in simp_all)
  then obtain c' where c': "test_series ?c (field_item b mp 1 g 1) (map (field_item b mp 1 g) [Suc 1..<Suc n] @
      phase_tests b mp n 1 hs @ phases_tests b mp n fs (Suc 1)) c'" and gone: "ct_fields c' (of_nat 1) = None"
    using mp unfolding drains_def by blast
  have tests: "phases_tests b mp n fs 1 = field_item b mp 1 g 1 # map (field_item b mp 1 g) [Suc 1..<Suc n] @
      phase_tests b mp n 1 hs @ phases_tests b mp n fs (Suc 1)"
    unfolding phases_tests_Cons [OF mp] hs(1) phase_tests_snoc [OF assms(3)] by simp
  have "test_series c (Malicious (b FirstRound mp [] 0)) (phases_tests b mp n fs 1) c'"
    unfolding tests by (rule series_next [OF first _ c']) simp
  moreover have "completed_test c' (Malicious (b2 FirstRound mp2 f k)) = None"
    if "b2 \<in> {LeaderSendAmbiguousMessage, ReplicaNodeConspireForgeMessages}" "0 < mp2" for b2 mp2 f k
    using that gone by (simp add: completed_field [OF that(1)] next_field_item_def malicious_test_next_field_def)
  ultimately show ?thesis by (intro exI [of _ c'] conjI ballI allI impI)
qed

definition ctl_demo :: controller where
  "ctl_demo = (controller_new [1] [2] [3] [4] [5] 10)
     \<lparr>waiting_consensus_nodes := {[6], [7]}, ct_fields := [1 \<mapsto> [[''a''], [''b'']], 2 \<mapsto> [[''c'']]]\<rparr>"

theorem field_series_witness:
  "\<exists>c'. test_series ctl_demo (Malicious (LeaderSendAmbiguousMessage FirstRound 2 [] 0))
    [Malicious (LeaderSendAmbiguousMessage (OtherRound 1) 2 [''b''] 1), Malicious (LeaderSendAmbiguousMessage (OtherRound 1) 2 [''b''] 2),
     Malicious (LeaderSendAmbiguousMessage (OtherRound 1) 2 [''a''] 1), Malicious (LeaderSendAmbiguousMessage (OtherRound 1) 2 [''a''] 2),
     Malicious (LeaderSendAmbiguousMessage (OtherRound 2) 2 [''c''] 1), Malicious (LeaderSendAmbiguousMessage (OtherRound 2) 2 [''c''] 2)] c'"
proof -
  let ?fs = "\<lambda>p :: nat. if p = 1 then [[''a''], [''b'']] else [[''c'']]"
  have "q = 1 \<or> q = 2" if "1 \<le> q" "q \<le> 2" for q :: nat using that by auto
  then have "has_fields ctl_demo ?fs 1 (unat (2 :: u8))"
    unfolding has_fields_def by (fastforce simp: ctl_demo_def)
  from field_series [OF _ _ _ _ _ this, of LeaderSendAmbiguousMessage 2]
  show ?thesis by (auto simp: ctl_demo_def phases_tests_def phase_tests_def field_item_def upt_conv_Cons)
qed

subsection \<open>Barriers\<close>

text \<open>Replies to a reset request, and to a configuration, one after the other.\<close>

primrec reset_replies :: "'a msg_ext_scheme \<Rightarrow> ctl_env \<Rightarrow> (peer_id \<times> consensus_node_mode) list \<Rightarrow> controller \<Rightarrow> controller option" where
  "reset_replies E R [] c = Some c"
| "reset_replies E R (r # rs) c = Option.bind (reset_success E R c (fst r) (snd r)) (reset_replies E R rs)"

lemma reset_replies_Nil: "reset_replies E R [] = Some"
  by (rule ext) simp

primrec mode_replies :: "'a msg_ext_scheme \<Rightarrow> ctl_env \<Rightarrow> peer_id list \<Rightarrow> controller \<Rightarrow> controller option" where
  "mode_replies E R [] c = Some c"
| "mode_replies E R (p # ps) c = Option.bind (node_mode_success E R c p (ModeHonest Other)) (mode_replies E R ps)"

definition running_mode :: "consensus_node_mode \<Rightarrow> bool" where
  "running_mode mode \<longleftrightarrow> (\<exists>s. mode = ModeHonest s) \<or> (\<exists>m. mode = ModeDishonest m)"

lemma reset_success_running:
  assumes "running_mode mode" and "unat (reset_success_count c) + unat (crash_reset_success_count c) + 1 < 2 ^ 16"
    and "card (consensus_nodes c) < 2 ^ 16"
  shows "reset_success E R c p mode =
    (if card (consensus_nodes c) = unat (reset_success_count c) + unat (crash_reset_success_count c) + 1
     then ctl_next_test E R (c\<lparr>reset_success_count := 0, crash_reset_success_count := 0\<rparr>)
     else Some (c\<lparr>reset_success_count := reset_success_count c + 1\<rparr>))"
proof -
  let ?c = "c\<lparr>reset_success_count := reset_success_count c + 1\<rparr>"
  have "reset_success E R c p mode = check_reset_all_success E R ?c"
    using assms by (cases mode) (auto simp: running_mode_def u16_add_def)
  moreover have "unat (reset_success_count c + 1) = unat (reset_success_count c) + 1"
    using assms(2) by (simp add: unat_word_ariths)
  then have "u16_add (reset_success_count c + 1) (crash_reset_success_count c) =
      Some (reset_success_count c + 1 + crash_reset_success_count c)"
    and "unat (reset_success_count c + 1 + crash_reset_success_count c) =
      unat (reset_success_count c) + unat (crash_reset_success_count c) + 1"
    using assms(2) by (simp_all add: u16_add_def unat_word_ariths(1) [of "reset_success_count c + 1"])
  moreover have "unat (of_nat (card (consensus_nodes c)) :: u16) = card (consensus_nodes c)"
    using assms(3) by (simp add: unat_of_nat)
  ultimately show ?thesis by (simp add: check_reset_all_success_def word_unat_eq_iff)
qed

text \<open>
  The next test waits for all nodes: when the nodes that have not crashed reply to a
  reset one after the other, the controller does nothing but count until the last
  reply, and exactly then goes on to the next test, with the counters cleared.
\<close>

theorem reset_barrier:
  assumes "\<forall>r \<in> set rs. running_mode (snd r)" and "reset_success_count c = 0"
    and "card (consensus_nodes c) = length rs + unat (crash_reset_success_count c)"
    and "rs \<noteq> []" and "card (consensus_nodes c) < 2 ^ 16"
  shows "(\<forall>j < length rs. reset_replies E R (take j rs) c = Some (c\<lparr>reset_success_count := of_nat j\<rparr>)) \<and>
    reset_replies E R rs c = ctl_next_test E R (c\<lparr>reset_success_count := 0, crash_reset_success_count := 0\<rparr>)"
proof -
  have app: "reset_replies E R (xs @ ys) d = Option.bind (reset_replies E R xs d) (reset_replies E R ys)" for xs ys d
    by (induction xs arbitrary: d) (auto split: bind_splits)
  have step: "reset_success E R (c\<lparr>reset_success_count := of_nat j\<rparr>) p mode =
      (if Suc j = length rs then ctl_next_test E R (c\<lparr>reset_success_count := 0, crash_reset_success_count := 0\<rparr>)
       else Some (c\<lparr>reset_success_count := of_nat (Suc j)\<rparr>))"
    if "j < length rs" "running_mode mode" for j p mode
  proof -
    have "unat (of_nat j :: u16) = j" using that(1) assms(3,5) by (simp add: unat_of_nat)
    then show ?thesis using reset_success_running [OF that(2), of "c\<lparr>reset_success_count := of_nat j\<rparr>" E R p] that(1) assms(3,5)
      by (simp add: add.commute)
  qed
  have pre: "j < length rs \<Longrightarrow> reset_replies E R (take j rs) c = Some (c\<lparr>reset_success_count := of_nat j\<rparr>)" for j
  proof (induction j)
    case (Suc j)
    then have "take (Suc j) rs = take j rs @ [rs ! j]" by (simp add: take_Suc_conv_app_nth)
    with Suc step [of j "snd (rs ! j)" "fst (rs ! j)"] assms(1) show ?case by (simp add: app)
  qed (use assms(2) in \<open>simp add: controller.splits\<close>)
  from assms(4) have rs: "rs = take (length rs - 1) rs @ [rs ! (length rs - 1)]"
    by (metis append_butlast_last_id butlast_conv_take last_conv_nth)
  have "reset_replies E R rs c = ctl_next_test E R (c\<lparr>reset_success_count := 0, crash_reset_success_count := 0\<rparr>)"
    using pre [of "length rs - 1"] step [of "length rs - 1" "snd (rs ! (length rs - 1))" "fst (rs ! (length rs - 1))"] assms(1,4)
    by (subst rs) (simp add: app reset_replies_Nil)
  with pre show ?thesis by blast
qed

text \<open>A concrete instance of the third-party functions, and of the iteration orders.\<close>

definition ctl_demo_ext :: json_ext where
  "ctl_demo_ext = \<lparr>sha3_256_hex = map (\<lambda>b. char_of (unat b)), bincode_request = (\<lambda>r. as_bytes (cmd r)),
     json_request = (\<lambda>r. as_bytes (cmd r)), from_json_request = (\<lambda>b. None),
     peer_from_bytes = Some, peer_to_bytes = (\<lambda>p. p), peer_to_string = map (\<lambda>b. char_of (unat b)),
     dalek_public = (\<lambda>k. k), dalek_sign = (\<lambda>k m. m), dalek_public_key_ok = (\<lambda>k. True),
     dalek_signature_ok = (\<lambda>s. True), dalek_verify = (\<lambda>k m s. True),
     bincode_message = (\<lambda>m. source m), from_bincode_message = (\<lambda>b. None),
     json_consensus_data = (\<lambda>d. []), from_json_consensus_data = (\<lambda>b. None),
     json_from_slice = (\<lambda>b. None), json_to_bytes = (\<lambda>j. [])\<rparr>"

definition peer_order :: "peer_id set \<Rightarrow> peer_id list" where
  "peer_order S = filter (\<lambda>p. p \<in> S) [[6], [7], [8]]"

definition ctl_demo_env :: ctl_env where
  "ctl_demo_env = \<lparr>ord_waiting = peer_order, ord_consensus = peer_order, ord_crash = peer_order,
     ord_optional_crash = peer_order, ord_optional_scalability = peer_order, clock = of_nat\<rparr>"

theorem reset_barrier_witness:
  "reset_replies ctl_demo_ext ctl_demo_env [([6], ModeHonest Other)]
     (ctl_demo\<lparr>consensus_nodes := {[6], [7], [8]}, crash_reset_success_count := 1\<rparr>) =
     Some (ctl_demo\<lparr>consensus_nodes := {[6], [7], [8]}, crash_reset_success_count := 1, reset_success_count := 1\<rparr>) \<and>
   reset_replies ctl_demo_ext ctl_demo_env [([6], ModeHonest Other), ([7], ModeHonest Other)]
     (ctl_demo\<lparr>consensus_nodes := {[6], [7], [8]}, crash_reset_success_count := 1\<rparr>) =
   ctl_next_test ctl_demo_ext ctl_demo_env
     (ctl_demo\<lparr>consensus_nodes := {[6], [7], [8]}, reset_success_count := 0, crash_reset_success_count := 0\<rparr>)"
proof -
  have *: "\<forall>r \<in> set [([6], ModeHonest Other), ([7], ModeHonest Other)]. running_mode (snd r)"
    by (simp add: running_mode_def)
  let ?c = "ctl_demo\<lparr>consensus_nodes := {[6], [7], [8]}, crash_reset_success_count := 1\<rparr>"
  have "reset_success_count ?c = 0" "card (consensus_nodes ?c) = 2 + unat (crash_reset_success_count ?c)"
    by (simp_all add: ctl_demo_def controller_new_def)
  with reset_barrier [OF *, of ?c ctl_demo_ext ctl_demo_env]
  have "reset_replies ctl_demo_ext ctl_demo_env (take 1 [([6], ModeHonest Other), ([7], ModeHonest Other)]) ?c =
      Some (?c\<lparr>reset_success_count := of_nat 1\<rparr>) \<and>
    reset_replies ctl_demo_ext ctl_demo_env [([6], ModeHonest Other), ([7], ModeHonest Other)] ?c =
      ctl_next_test ctl_demo_ext ctl_demo_env (?c\<lparr>reset_success_count := 0, crash_reset_success_count := 0\<rparr>)"
    by (simp del: reset_replies.simps take_Suc_Cons)
  then show ?thesis by (simp del: reset_replies.simps)
qed

lemma effects_send_all:
  "ct_effects (send_all E ps m c) = ct_effects c @ map (\<lambda>p. SendMessage p (bincode_message E m)) ps"
  by (induction ps arbitrary: c) (simp_all add: send_all_def send_to_def)

lemma send_all_fields [simp]:
  "consensus_nodes (send_all E ps m c) = consensus_nodes c" "ct_analyzer_id (send_all E ps m c) = ct_analyzer_id c"
  "ct_id (send_all E ps m c) = ct_id c" "next_mid_test_item (send_all E ps m c) = next_mid_test_item c"
  "consensus_node_configure_count (send_all E ps m c) = consensus_node_configure_count c"
  by (induction ps arbitrary: c) (simp_all add: send_all_def send_to_def)

text \<open>What starting the protocol and the test sends.\<close>

definition start_effects :: "'a msg_ext_scheme \<Rightarrow> ctl_env \<Rightarrow> controller \<Rightarrow> effect list" where
  "start_effects E R c =
     (let nodes = ord_consensus R (consensus_nodes c); n = length (ct_effects c)
      in map (\<lambda>p. SendMessage p (bincode_message E \<lparr>interactive = ProtocolStart (clock R n), source = peer_to_bytes E (ct_id c)\<rparr>)) nodes @
         [SendMessage (ct_analyzer_id c) (bincode_message E
            \<lparr>interactive = StartTest (clock R (n + length nodes)), source = peer_to_bytes E (ct_id c)\<rparr>)])"

lemma effects_start: "ct_effects (start_protocol_and_test E R c) = ct_effects c @ start_effects E R c"
  by (simp add: start_protocol_and_test_def start_test_def protocol_start_def send_to_def effects_send_all
      start_effects_def timestamp_def ctl_id_bytes_def Let_def)

lemma start_fields [simp]:
  "consensus_nodes (start_protocol_and_test E R c) = consensus_nodes c"
  "consensus_node_configure_count (start_protocol_and_test E R c) = consensus_node_configure_count c"
  by (simp_all add: start_protocol_and_test_def start_test_def protocol_start_def send_to_def)

lemma mode_success_other:
  assumes "unat (consensus_node_configure_count c) + 1 < 2 ^ 16" and "card (waiting_consensus_nodes c) < 2 ^ 16"
    and "feedback_scalability_first_count c \<noteq> 1"
  shows "node_mode_success E R c p (ModeHonest Other) =
    Some (let c1 = (add_honest_node c p)\<lparr>consensus_node_configure_count := consensus_node_configure_count c + 1\<rparr>
      in if card (waiting_consensus_nodes c) = unat (consensus_node_configure_count c) + 1
         then start_protocol_and_test E R (c1\<lparr>feedback_scalability_first_count := 0, consensus_node_configure_count := 0\<rparr>)
         else c1)"
proof -
  have "unat (consensus_node_configure_count c + 1) = unat (consensus_node_configure_count c) + 1"
    using assms(1) by (simp add: unat_word_ariths)
  moreover have "unat (of_nat (card (waiting_consensus_nodes c)) :: u16) = card (waiting_consensus_nodes c)"
    using assms(2) by (simp add: unat_of_nat)
  ultimately show ?thesis using assms
    by (simp add: add_honest_node_def u16_add_def word_unat_eq_iff Let_def)
qed

lemma mode_replies_before:
  assumes "consensus_node_configure_count c = 0" and "feedback_scalability_first_count c \<noteq> 1"
    and "card (waiting_consensus_nodes c) < 2 ^ 16"
  shows "length ps < card (waiting_consensus_nodes c) \<Longrightarrow>
    \<exists>c1. mode_replies E R ps c = Some c1 \<and> ct_effects c1 = ct_effects c \<and>
      consensus_nodes c1 = consensus_nodes c \<union> set ps \<and> unat (consensus_node_configure_count c1) = length ps \<and>
      feedback_scalability_first_count c1 = feedback_scalability_first_count c \<and>
      waiting_consensus_nodes c1 = waiting_consensus_nodes c \<and> ct_id c1 = ct_id c \<and> ct_analyzer_id c1 = ct_analyzer_id c"
proof (induction ps rule: rev_induct)
  case (snoc p ps)
  then obtain c1 where c1: "mode_replies E R ps c = Some c1" "ct_effects c1 = ct_effects c"
      "consensus_nodes c1 = consensus_nodes c \<union> set ps" "unat (consensus_node_configure_count c1) = length ps"
      "feedback_scalability_first_count c1 = feedback_scalability_first_count c"
      "waiting_consensus_nodes c1 = waiting_consensus_nodes c" "ct_id c1 = ct_id c" "ct_analyzer_id c1 = ct_analyzer_id c"
    by auto
  have app: "mode_replies E R (xs @ ys) d = Option.bind (mode_replies E R xs d) (mode_replies E R ys)" for xs ys d
    by (induction xs arbitrary: d) (auto split: bind_splits)
  have lt: "unat (consensus_node_configure_count c1) + 1 < 2 ^ 16" using c1 snoc.prems assms(3) by simp
  then have "unat (consensus_node_configure_count c1 + 1) = length ps + 1" using c1(4) by (simp add: unat_word_ariths)
  with mode_success_other [OF lt, of E R p] c1 snoc.prems assms show ?case
    by (auto simp: app add_honest_node_def Let_def)
qed (use assms in simp)

text \<open>
  The protocol and the test are started together and once: while the waiting nodes report
  that they are configured, nothing is sent; the report of the last of them makes the
  controller start the protocol at every consensus node, including all that reported, and then
  the test at the analyzer, with its counter back at zero.
\<close>

theorem configuration_barrier:
  assumes "consensus_node_configure_count c = 0" and "feedback_scalability_first_count c \<noteq> 1"
    and "card (waiting_consensus_nodes c) = length ps" and "ps \<noteq> []" and "length ps < 2 ^ 16"
  shows "(\<forall>j < length ps. \<exists>c1. mode_replies E R (take j ps) c = Some c1 \<and> ct_effects c1 = ct_effects c) \<and>
    (\<exists>c'. mode_replies E R ps c = Some c' \<and> consensus_nodes c' = consensus_nodes c \<union> set ps \<and>
      ct_effects c' = ct_effects c @ start_effects E R (c\<lparr>consensus_nodes := consensus_nodes c \<union> set ps\<rparr>) \<and>
      consensus_node_configure_count c' = 0)"
proof -
  obtain qs q where ps: "ps = qs @ [q]" using assms(4) by (cases ps rule: rev_cases) auto
  have app: "mode_replies E R (xs @ ys) d = Option.bind (mode_replies E R xs d) (mode_replies E R ys)" for xs ys d
    by (induction xs arbitrary: d) (auto split: bind_splits)
  note before = mode_replies_before [OF assms(1,2), of _ E R]
  obtain c1 where c1: "mode_replies E R qs c = Some c1" "ct_effects c1 = ct_effects c"
      "consensus_nodes c1 = consensus_nodes c \<union> set qs" "unat (consensus_node_configure_count c1) = length qs"
      "feedback_scalability_first_count c1 \<noteq> 1"
      "waiting_consensus_nodes c1 = waiting_consensus_nodes c" "ct_id c1 = ct_id c" "ct_analyzer_id c1 = ct_analyzer_id c"
    using before [of qs] assms(2,3,5) ps by auto
  let ?d = "(add_honest_node c1 q)\<lparr>feedback_scalability_first_count := 0, consensus_node_configure_count := 0\<rparr>"
  have "mode_replies E R ps c = Some (start_protocol_and_test E R ?d)"
    using mode_success_other [of c1 E R q] c1 assms(3,5) ps by (simp add: app Let_def)
  moreover have "start_effects E R ?d = start_effects E R (c\<lparr>consensus_nodes := consensus_nodes c \<union> set ps\<rparr>)"
    using c1 ps by (simp add: start_effects_def add_honest_node_def insert_commute)
  moreover have "consensus_nodes ?d = consensus_nodes c \<union> set ps" using c1 ps by (simp add: add_honest_node_def)
  moreover have "ct_effects ?d = ct_effects c" using c1 by (simp add: add_honest_node_def)
  ultimately have final: "mode_replies E R ps c = Some (start_protocol_and_test E R ?d) \<and>
      consensus_nodes ?d = consensus_nodes c \<union> set ps \<and>
      ct_effects (start_protocol_and_test E R ?d) =
        ct_effects c @ start_effects E R (c\<lparr>consensus_nodes := consensus_nodes c \<union> set ps\<rparr>)"
    by (simp add: effects_start)
  have "\<exists>c1. mode_replies E R (take j ps) c = Some c1 \<and> ct_effects c1 = ct_effects c" if "j < length ps" for j
    using before [of "take j ps"] assms(3,5) that by auto
  with final show ?thesis by simp
qed

theorem configuration_barrier_witness:
  "\<exists>c'. mode_replies ctl_demo_ext ctl_demo_env [[6], [7]] ctl_demo = Some c' \<and> consensus_nodes c' = {[6], [7]} \<and>
     ct_effects c' = [SendMessage [6] [1], SendMessage [7] [1], SendMessage [2] [1]]"
  using configuration_barrier [of ctl_demo "[[6], [7]]" ctl_demo_ext ctl_demo_env]
  by (auto simp: ctl_demo_def controller_new_def start_effects_def ctl_demo_env_def ctl_demo_ext_def peer_order_def Let_def)

subsection \<open>The crash test, round by round\<close>

text \<open>
  The state after all nodes have replied to a reset: the counters are cleared and the nodes that replied
  as crashed are moved.
\<close>

definition crashed_of :: "(peer_id \<times> consensus_node_mode) list \<Rightarrow> peer_id set" where
  "crashed_of rs = fst ` {r \<in> set rs. \<not> running_mode (snd r)}"

definition counted :: "(peer_id \<times> consensus_node_mode) list \<Rightarrow> controller \<Rightarrow> controller" where
  "counted rs c = c\<lparr>reset_success_count := of_nat (length (filter (\<lambda>r. running_mode (snd r)) rs)),
     crash_reset_success_count := of_nat (length (filter (\<lambda>r. \<not> running_mode (snd r)) rs)),
     crash_consensus_nodes := crash_consensus_nodes c \<union> crashed_of rs,
     not_crash_consensus_nodes := not_crash_consensus_nodes c - crashed_of rs\<rparr>"

definition replied :: "(peer_id \<times> consensus_node_mode) list \<Rightarrow> controller \<Rightarrow> controller" where
  "replied rs c = (counted rs c)\<lparr>reset_success_count := 0, crash_reset_success_count := 0\<rparr>"

text \<open>The replies of all consensus nodes, at least one of them not crashed, and iteration orders that enumerate.\<close>

definition all_reply :: "controller \<Rightarrow> ctl_env \<times> (peer_id \<times> consensus_node_mode) list \<Rightarrow> bool" where
  "all_reply c w \<longleftrightarrow> length (snd w) = card (consensus_nodes c) \<and> card (consensus_nodes c) < 2 ^ 16 \<and>
     (\<exists>r \<in> set (snd w). running_mode (snd r)) \<and> (\<forall>r \<in> set (snd w). snd r \<noteq> ModeUninitialized) \<and>
     (\<forall>S \<subseteq> optional_crash_consensus_nodes c. set (ord_optional_crash (fst w) S) = S)"

lemma all_reply_mono:
  assumes "all_reply c w" and "consensus_nodes d = consensus_nodes c"
    and "optional_crash_consensus_nodes d \<subseteq> optional_crash_consensus_nodes c"
  shows "all_reply d w"
proof -
  have "set (ord_optional_crash (fst w) S) = S" if "S \<subseteq> optional_crash_consensus_nodes d" for S
  proof -
    from that assms(3) have "S \<subseteq> optional_crash_consensus_nodes c" by (rule subset_trans)
    with assms(1) show ?thesis unfolding all_reply_def by blast
  qed
  with assms(1,2) show ?thesis unfolding all_reply_def by (simp only: simp_thms) blast
qed

lemma all_reply_order:
  "all_reply c w \<Longrightarrow> set (ord_optional_crash (fst w) (optional_crash_consensus_nodes c)) = optional_crash_consensus_nodes c"
  unfolding all_reply_def by blast

lemma all_reply_counts:
  assumes "all_reply c w"
  shows "length (snd w) = card (consensus_nodes c)" "card (consensus_nodes c) < 2 ^ 16" "0 < card (consensus_nodes c)"
    "\<exists>r \<in> set (snd w). running_mode (snd r)" "\<forall>r \<in> set (snd w). snd r \<noteq> ModeUninitialized"
proof -
  from assms show all: "length (snd w) = card (consensus_nodes c)" "card (consensus_nodes c) < 2 ^ 16"
    "\<exists>r \<in> set (snd w). running_mode (snd r)" "\<forall>r \<in> set (snd w). snd r \<noteq> ModeUninitialized"
    unfolding all_reply_def by blast+
  from all(3) have "0 < length (snd w)" by (cases "snd w") auto
  with all(1) show "0 < card (consensus_nodes c)" by simp
qed

lemma crash_mode: "mode \<noteq> ModeUninitialized \<Longrightarrow> \<not> running_mode mode \<Longrightarrow> \<exists>t. mode = ModeCrash t"
  by (cases mode) (auto simp: running_mode_def)

lemma reply_counts:
  assumes len: "length xs < card (consensus_nodes c)" and card: "card (consensus_nodes c) < 2 ^ 16"
    and mode: "snd r \<noteq> ModeUninitialized"
    and live: "running_mode (snd r) \<or> (\<exists>x \<in> set xs. running_mode (snd x)) \<or> Suc (length xs) < card (consensus_nodes c)"
  shows "reset_success E R (counted xs c) (fst r) (snd r) =
    (if Suc (length xs) = card (consensus_nodes c) then ctl_next_test E R (replied (xs @ [r]) c)
     else Some (counted (xs @ [r]) c))"
proof -
  let ?run = "filter (\<lambda>r. running_mode (snd r)) xs" and ?crash = "filter (\<lambda>r. \<not> running_mode (snd r)) xs"
  have sum: "length ?run + length ?crash = length xs" by (rule sum_length_filter_compl)
  then have small: "length ?run + length ?crash + 1 < 2 ^ 16" using len card by linarith
  have w: "unat (of_nat (length ?run) :: u16) = length ?run" "unat (of_nat (length ?crash) :: u16) = length ?crash"
    using small by (simp_all add: unat_of_nat)
  show ?thesis
  proof (cases "running_mode (snd r)")
    case True
    then have same: "crashed_of (xs @ [r]) = crashed_of xs" by (auto simp: crashed_of_def)
    have "reset_success E R (counted xs c) (fst r) (snd r) =
      (if card (consensus_nodes c) = length ?run + length ?crash + 1
       then ctl_next_test E R ((counted xs c)\<lparr>reset_success_count := 0, crash_reset_success_count := 0\<rparr>)
       else Some ((counted xs c)\<lparr>reset_success_count := of_nat (length ?run) + 1\<rparr>))"
      using reset_success_running [OF True, of "counted xs c" E R "fst r"] small card w by (simp add: counted_def)
    with True sum show ?thesis by (auto simp: counted_def replied_def same add.commute)
  next
    case False
    then obtain t where t: "snd r = ModeCrash t" using crash_mode [OF mode] by blast
    have new: "crashed_of (xs @ [r]) = insert (fst r) (crashed_of xs)" using False by (auto simp: crashed_of_def)
    have add: "u16_add (of_nat (length ?crash)) 1 = Some (of_nat (Suc (length ?crash)))"
      using small w(2) by (simp add: u16_add_def add.commute)
    have w1: "unat (of_nat (Suc (length ?crash)) :: u16) = Suc (length ?crash)"
      using small by (simp add: unat_of_nat del: of_nat_Suc)
    have total: "u16_add (of_nat (length ?run)) (of_nat (Suc (length ?crash))) = Some (of_nat (Suc (length xs)))"
      using small w w1 sum by (simp add: u16_add_def flip: of_nat_add del: of_nat_Suc)
    have w2: "(of_nat (card (consensus_nodes c)) :: u16) = of_nat (Suc (length xs)) \<longleftrightarrow> card (consensus_nodes c) = Suc (length xs)"
      using len card by (simp add: word_of_nat_eq_iff take_bit_nat_eq_self del: of_nat_Suc)
    have "card (consensus_nodes c) \<noteq> Suc (length ?crash)"
    proof
      assume eq: "card (consensus_nodes c) = Suc (length ?crash)"
      with len sum have "length ?run = 0" by linarith
      with live False eq sum show False by (auto simp: filter_empty_conv)
    qed
    moreover have "(counted xs c)\<lparr>crash_reset_success_count := of_nat (Suc (length ?crash)),
        crash_consensus_nodes := insert (fst r) (crash_consensus_nodes (counted xs c)),
        not_crash_consensus_nodes := not_crash_consensus_nodes (counted xs c) - {fst r}\<rparr> = counted (xs @ [r]) c"
    proof -
      have "crash_consensus_nodes c \<union> crashed_of (xs @ [r]) = insert (fst r) (crash_consensus_nodes c \<union> crashed_of xs)"
        "not_crash_consensus_nodes c - crashed_of (xs @ [r]) = not_crash_consensus_nodes c - crashed_of xs - {fst r}"
        unfolding new by blast+
      moreover have "length (filter (\<lambda>r. \<not> running_mode (snd r)) (xs @ [r])) = Suc (length ?crash)"
        "length (filter (\<lambda>r. running_mode (snd r)) (xs @ [r])) = length ?run"
        using False by simp_all
      ultimately show ?thesis unfolding counted_def by simp
    qed
    moreover have "crash_reset_success_count (counted xs c) = of_nat (length ?crash)"
      "consensus_nodes (counted ys c) = consensus_nodes c" for ys
      by (simp_all add: counted_def)
    ultimately have "reset_success E R (counted xs c) (fst r) (snd r) = check_reset_all_success E R (counted (xs @ [r]) c)"
      using t add w1 by (simp del: of_nat_Suc)
    moreover have "reset_success_count (counted (xs @ [r]) c) = of_nat (length ?run)"
      "crash_reset_success_count (counted (xs @ [r]) c) = of_nat (Suc (length ?crash))"
      "consensus_nodes (counted (xs @ [r]) c) = consensus_nodes c"
      using False by (simp_all add: counted_def)
    ultimately show ?thesis
      using total w2 by (auto simp: check_reset_all_success_def replied_def simp del: of_nat_Suc)
  qed
qed

lemma all_replies_barrier:
  assumes "all_reply c (R, rs)" and "reset_success_count c = 0" and "crash_reset_success_count c = 0"
  shows "reset_replies E R rs c = ctl_next_test E R (replied rs c)"
proof -
  have app: "reset_replies E R (xs @ ys) d = Option.bind (reset_replies E R xs d) (reset_replies E R ys)" for xs ys d
    by (induction xs arbitrary: d) (auto split: bind_splits)
  note len = all_reply_counts(1) [OF assms(1), simplified snd_conv] and card = all_reply_counts(2) [OF assms(1)]
    and some = all_reply_counts(4) [OF assms(1), simplified snd_conv]
    and modes = all_reply_counts(5) [OF assms(1), simplified snd_conv]
  have pre: "reset_replies E R xs c = Some (counted xs c)" if "length xs < length rs" "set xs \<subseteq> set rs" for xs
    using that
  proof (induction xs rule: rev_induct)
    case Nil
    show ?case using assms(2,3) by (simp add: counted_def crashed_of_def)
  next
    case (snoc r xs)
    have "length xs < card (consensus_nodes c)" "snd r \<noteq> ModeUninitialized" "Suc (length xs) < card (consensus_nodes c)"
      using snoc.prems len modes by auto
    with reply_counts [OF _ card, of xs r E R] snoc show ?case by (simp add: app)
  qed
  obtain xs r where rs: "rs = xs @ [r]" using some by (cases rs rule: rev_cases) auto
  have "length xs < card (consensus_nodes c)" "snd r \<noteq> ModeUninitialized"
    "running_mode (snd r) \<or> (\<exists>x \<in> set xs. running_mode (snd x)) \<or> Suc (length xs) < card (consensus_nodes c)"
    using rs len modes some by auto
  note last = reply_counts [OF this(1) card this(2,3), of E R]
  have "reset_replies E R xs c = Some (counted xs c)" by (rule pre) (auto simp: rs)
  with last rs len show ?thesis by (simp add: app reset_replies_Nil)
qed

text \<open>
  What the completion of a test makes the controller do until it goes on: it takes the report of the analyzer and the
  replies of the nodes to its reset. A round of the crash test ends with the report of the node that was told to crash.
\<close>

definition test_completed ::
  "'a msg_ext_scheme \<Rightarrow> controller \<Rightarrow> test_item \<Rightarrow> ctl_env \<times> (peer_id \<times> consensus_node_mode) list \<Rightarrow> controller option" where
  "test_completed E c item w =
     Option.bind (analyzer_message_handler E (fst w) c (CompletedTest item)) (reset_replies E (fst w) (snd w))"

definition crash_round ::
  "'a msg_ext_scheme \<Rightarrow> controller \<Rightarrow> test_item \<Rightarrow> ctl_env \<times> (peer_id \<times> consensus_node_mode) list \<Rightarrow> controller option" where
  "crash_round E c item w = do {
     c1 \<leftarrow> test_completed E c item w;
     node_mode_success E (fst w) c1 (feedback_crash_node c1) (ModeCrash 1000)
   }"

text \<open>What the controller sends in a round: resets, the next test with the node it crashes, and the start of the test.\<close>

definition crash_round_effects :: "'a msg_ext_scheme \<Rightarrow> ctl_env \<Rightarrow> controller \<Rightarrow> u16 \<Rightarrow> u16 \<Rightarrow> peer_id \<Rightarrow> effect list" where
  "crash_round_effects E R c k mx p =
     (let resets = map (\<lambda>q. SendMessage q (bincode_message E \<lparr>interactive = Reset (timestamp R c), source = []\<rparr>))
            (ord_consensus R (consensus_nodes c));
          me = peer_to_bytes E (ct_id c);
          next = [SendMessage p (bincode_message E \<lparr>interactive = ConsensusNodeMode (ModeCrash 1000), source = me\<rparr>),
            SendMessage (ct_analyzer_id c) (bincode_message E \<lparr>interactive = TestItem (Crash k mx), source = me\<rparr>),
            SendMessage (ct_analyzer_id c) (bincode_message E \<lparr>interactive = CrashNode k (Some (peer_to_bytes E p)), source = []\<rparr>)]
      in resets @ next @ start_effects E R (c\<lparr>ct_effects := ct_effects c @ resets @ next\<rparr>))"

text \<open>A series of rounds of the crash test, with the nodes that they crash.\<close>

inductive crash_series :: "'a msg_ext_scheme \<Rightarrow> u16 \<Rightarrow> controller \<Rightarrow> nat \<Rightarrow>
    (ctl_env \<times> (peer_id \<times> consensus_node_mode) list) list \<Rightarrow> peer_id list \<Rightarrow> controller \<Rightarrow> bool" for E mx where
  crash_none: "crash_series E mx c n [] [] c"
| crash_one: "crash_round E c (Crash (of_nat n) mx) w = Some c1 \<Longrightarrow>
    ct_effects c1 = ct_effects c @ crash_round_effects E (fst w) c (of_nat (Suc n)) mx p \<Longrightarrow>
    next_mid_test_item c1 = Some (Crash (of_nat (Suc n)) mx) \<Longrightarrow>
    crash_series E mx c1 (Suc n) ws ps c' \<Longrightarrow> crash_series E mx c n (w # ws) (p # ps) c'"

lemma send_all_other [simp]:
  "reset_success_count (send_all E ps m c) = reset_success_count c"
  "crash_reset_success_count (send_all E ps m c) = crash_reset_success_count c"
  "optional_crash_consensus_nodes (send_all E ps m c) = optional_crash_consensus_nodes c"
  "test_items (send_all E ps m c) = test_items c"
  by (induction ps arbitrary: c) (simp_all add: send_all_def send_to_def)

lemma replied_fields [simp]:
  "consensus_nodes (replied rs c) = consensus_nodes c" "ct_analyzer_id (replied rs c) = ct_analyzer_id c"
  "ct_id (replied rs c) = ct_id c" "next_mid_test_item (replied rs c) = next_mid_test_item c"
  "optional_crash_consensus_nodes (replied rs c) = optional_crash_consensus_nodes c"
  "ct_effects (replied rs c) = ct_effects c" "test_items (replied rs c) = test_items c"
  "reset_success_count (replied rs c) = 0" "crash_reset_success_count (replied rs c) = 0"
  by (simp_all add: replied_def counted_def)

text \<open>The reset that follows a completed test leads to the next test.\<close>

lemma test_completed_next:
  fixes E :: "'a msg_ext_scheme"
  assumes "all_reply c w" and "reset_success_count c = 0" and "crash_reset_success_count c = 0"
    and "completed_test c item = Some (c\<lparr>next_mid_test_item := i\<rparr>)"
  defines "d \<equiv> send_all E (ord_consensus (fst w) (consensus_nodes c))
    \<lparr>interactive = Reset (timestamp (fst w) c), source = []\<rparr> (c\<lparr>next_mid_test_item := i\<rparr>)"
  shows "test_completed E c item w = ctl_next_test E (fst w) (replied (snd w) d)"
proof -
  note all_reply_counts(2,3) [OF assms(1)]
  then have "(of_nat (card (consensus_nodes c)) :: u16) \<noteq> 0"
    by (simp add: word_of_nat_eq_0_iff nat_dvd_not_less)
  then have "analyzer_message_handler E (fst w) c (CompletedTest item) = Some d"
    using assms(3,4) by (simp add: reset_consensus_node_def need_reset_def timestamp_def d_def)
  moreover have "all_reply d (fst w, snd w)" using all_reply_mono [OF assms(1), of d] by (simp add: d_def)
  ultimately show ?thesis
    using all_replies_barrier [of d "fst w" "snd w" E] assms(2,3) by (simp add: test_completed_def d_def)
qed

lemma crash_round_step:
  assumes w: "all_reply c w" and zero: "reset_success_count c = 0" "crash_reset_success_count c = 0"
    and n: "n < unat mx" and opt: "finite (optional_crash_consensus_nodes c)" "optional_crash_consensus_nodes c \<noteq> {}"
  obtains p c1 where "p \<in> optional_crash_consensus_nodes c" "crash_round E c (Crash (of_nat n) mx) w = Some c1"
    "ct_effects c1 = ct_effects c @ crash_round_effects E (fst w) c (of_nat (Suc n)) mx p"
    "next_mid_test_item c1 = Some (Crash (of_nat (Suc n)) mx)"
    "optional_crash_consensus_nodes c1 = optional_crash_consensus_nodes c - {p}"
    "consensus_nodes c1 = consensus_nodes c" "reset_success_count c1 = 0" "crash_reset_success_count c1 = 0"
    "test_items c1 = test_items c"
proof -
  let ?R = "fst w" and ?item = "Crash (of_nat (Suc n)) mx :: test_item"
  have lt: "unat mx < 2 ^ 16" by (rule order_less_le_trans [OF unsigned_less]) simp
  with n have un: "unat (of_nat n :: u16) = n" "unat (of_nat (Suc n) :: u16) = Suc n"
    by (simp_all add: unat_of_nat del: of_nat_Suc)
  have cmpl: "completed_test c (Crash (of_nat n) mx) = Some (c\<lparr>next_mid_test_item := Some ?item\<rparr>)"
    using n lt un by (simp add: completed_test_def u16_add_def add.commute word_le_nat_alt del: of_nat_Suc)
      (simp add: add.commute)
  define d where "d = replied (snd w) (send_all E (ord_consensus ?R (consensus_nodes c))
    \<lparr>interactive = Reset (timestamp ?R c), source = []\<rparr> (c\<lparr>next_mid_test_item := Some ?item\<rparr>))"
  have goes: "test_completed E c (Crash (of_nat n) mx) w = ctl_next_test E ?R d"
    unfolding d_def by (rule test_completed_next [OF w zero cmpl])
  have enum: "set (ord_optional_crash ?R (optional_crash_consensus_nodes c)) = optional_crash_consensus_nodes c"
    by (rule all_reply_order [OF w])
  define p where "p = last (ord_optional_crash ?R (optional_crash_consensus_nodes c))"
  have ne: "ord_optional_crash ?R (optional_crash_consensus_nodes c) \<noteq> []" using enum opt(2) by auto
  then have p: "p \<in> optional_crash_consensus_nodes c" using enum last_in_set unfolding p_def by blast
  define c1 where "c1 = next_mid_test E ((set_consensus_node_mode E d p (ModeCrash 1000))\<lparr>
    optional_crash_consensus_nodes := optional_crash_consensus_nodes c - {p}, feedback_crash_node := p\<rparr>)
    ?item (Some (CrashNode (of_nat (Suc n)) (Some (peer_to_bytes E p))))"
  have "(0 :: u16) \<noteq> of_nat (Suc n)" using un(2) by (metis nat.distinct(1) unat_0)
  then have go: "ctl_next_test E ?R d = Some c1"
    using ne opt by (simp add: ctl_next_test_def next_crash_test_def random_crash_a_consensus_node_def d_def
        iter_last_def Let_def p_def c1_def set_consensus_node_mode_def send_to_def del: of_nat_Suc)
  have c1: "feedback_crash_node c1 = p" "consensus_nodes c1 = consensus_nodes c"
    "next_mid_test_item c1 = Some ?item" "optional_crash_consensus_nodes c1 = optional_crash_consensus_nodes c - {p}"
    "reset_success_count c1 = 0" "crash_reset_success_count c1 = 0" "test_items c1 = test_items c"
    by (simp_all add: c1_def next_mid_test_def set_consensus_node_mode_def send_to_def d_def)
  have round: "crash_round E c (Crash (of_nat n) mx) w = Some (start_protocol_and_test E ?R c1)"
    by (simp add: crash_round_def goes go c1)
  have "ct_effects c1 @ start_effects E ?R c1 = ct_effects c @ crash_round_effects E ?R c (of_nat (Suc n)) mx p"
    by (simp add: c1_def next_mid_test_def set_consensus_node_mode_def send_to_def d_def effects_send_all
        crash_round_effects_def start_effects_def ctl_id_bytes_def Let_def del: of_nat_Suc)
  then have "ct_effects (start_protocol_and_test E ?R c1) = ct_effects c @ crash_round_effects E ?R c (of_nat (Suc n)) mx p"
    by (simp only: effects_start)
  moreover have "next_mid_test_item (start_protocol_and_test E R c1) = next_mid_test_item c1"
    "optional_crash_consensus_nodes (start_protocol_and_test E R c1) = optional_crash_consensus_nodes c1"
    "reset_success_count (start_protocol_and_test E R c1) = reset_success_count c1"
    "crash_reset_success_count (start_protocol_and_test E R c1) = crash_reset_success_count c1"
    "test_items (start_protocol_and_test E R c1) = test_items c1" for R
    by (simp_all add: start_protocol_and_test_def start_test_def protocol_start_def send_to_def)
  ultimately show ?thesis using p round c1 by (intro that [of p "start_protocol_and_test E ?R c1"]) simp_all
qed

lemma crash_rounds:
  "\<forall>w \<in> set ws. all_reply c w \<Longrightarrow> reset_success_count c = 0 \<Longrightarrow> crash_reset_success_count c = 0 \<Longrightarrow>
   n + length ws \<le> unat mx \<Longrightarrow> finite (optional_crash_consensus_nodes c) \<Longrightarrow>
   length ws \<le> card (optional_crash_consensus_nodes c) \<Longrightarrow>
   \<exists>ps c'. crash_series E mx c n ws ps c' \<and> distinct ps \<and> length ps = length ws \<and>
     set ps \<subseteq> optional_crash_consensus_nodes c \<and>
     optional_crash_consensus_nodes c' = optional_crash_consensus_nodes c - set ps \<and>
     consensus_nodes c' = consensus_nodes c \<and> reset_success_count c' = 0 \<and> crash_reset_success_count c' = 0 \<and>
     test_items c' = test_items c"
proof (induction ws arbitrary: c n)
  case Nil
  then show ?case by (intro exI [of _ "[]"] exI [of _ c]) (simp add: crash_none)
next
  case (Cons w ws)
  have "all_reply c w" "n < unat mx" "optional_crash_consensus_nodes c \<noteq> {}" using Cons.prems by auto
  from crash_round_step [OF this(1) Cons.prems(2,3) this(2) Cons.prems(5) this(3), of E] obtain p c1 where
    p: "p \<in> optional_crash_consensus_nodes c" and r: "crash_round E c (Crash (of_nat n) mx) w = Some c1"
      "ct_effects c1 = ct_effects c @ crash_round_effects E (fst w) c (of_nat (Suc n)) mx p"
      "next_mid_test_item c1 = Some (Crash (of_nat (Suc n)) mx)"
    and c1: "optional_crash_consensus_nodes c1 = optional_crash_consensus_nodes c - {p}"
      "consensus_nodes c1 = consensus_nodes c" "reset_success_count c1 = 0" "crash_reset_success_count c1 = 0"
      "test_items c1 = test_items c" .
  have "\<forall>w \<in> set ws. all_reply c1 w" using Cons.prems(1) c1(1,2) all_reply_mono [of c _ c1] by simp
  moreover have "length ws \<le> card (optional_crash_consensus_nodes c1)" using Cons.prems(5,6) c1(1) p by simp
  ultimately obtain ps c' where "crash_series E mx c1 (Suc n) ws ps c'" "distinct ps" "length ps = length ws"
      "set ps \<subseteq> optional_crash_consensus_nodes c1"
      "optional_crash_consensus_nodes c' = optional_crash_consensus_nodes c1 - set ps"
      "consensus_nodes c' = consensus_nodes c1" "reset_success_count c' = 0" "crash_reset_success_count c' = 0"
      "test_items c' = test_items c1"
    using Cons.IH [of c1 "Suc n"] c1 Cons.prems(4,5) by auto
  with crash_one [OF r this(1)] p c1 show ?case by (intro exI [of _ "p # ps"] exI [of _ c']) auto
qed

text \<open>
  C38. The crash test crashes one node more in every round and then ends. Let the controller have counted no reply to
  a reset, and let the crash test item with count \<open>n\<close> be complete at the analyzer. In each further round the analyzer
  reports completion, all consensus nodes (at least one of them not crashed) reply to the reset, and the node
  that is told to crash reports. For as many rounds as the maximum allows and as there are nodes left to crash, each
  round sends exactly: the resets, the crash of a node that was not crashed before, the test item with the count one
  higher and the crashed node to the analyzer, and the start of the protocol and of the test. When the count has
  reached the maximum (below \<open>2 ^ 16 - 1\<close>, where the next count would overflow), or when no node is left to
  crash, the next completion makes the controller go on to the next configured test item.
\<close>

theorem crash_test_rounds:
  assumes "\<forall>w \<in> set ws. all_reply c w" and "reset_success_count c = 0" and "crash_reset_success_count c = 0"
    and "n + length ws \<le> unat mx" and "finite (optional_crash_consensus_nodes c)"
    and "length ws \<le> card (optional_crash_consensus_nodes c)"
  shows "\<exists>ps c'. crash_series E mx c n ws ps c' \<and> distinct ps \<and> length ps = length ws \<and>
    set ps \<subseteq> optional_crash_consensus_nodes c \<and>
    (\<forall>w. all_reply c w \<and> unat mx < 2 ^ 16 - 1 \<and>
        (n + length ws = unat mx \<or> length ws = card (optional_crash_consensus_nodes c)) \<longrightarrow>
      (\<exists>d. test_completed E c' (Crash (of_nat (n + length ws)) mx) w = configure_analyzer_and_consensus_node E (fst w) d \<and>
        test_items d = test_items c))"
proof -
  from crash_rounds [OF assms, of E] obtain ps c' where s: "crash_series E mx c n ws ps c'" "distinct ps"
      "length ps = length ws" "set ps \<subseteq> optional_crash_consensus_nodes c"
    and c': "optional_crash_consensus_nodes c' = optional_crash_consensus_nodes c - set ps"
      "consensus_nodes c' = consensus_nodes c" "reset_success_count c' = 0" "crash_reset_success_count c' = 0"
      "test_items c' = test_items c" by blast
  have "\<exists>d. test_completed E c' (Crash (of_nat (n + length ws)) mx) w = configure_analyzer_and_consensus_node E (fst w) d \<and>
      test_items d = test_items c"
    if w: "all_reply c w" and mx: "unat mx < 2 ^ 16 - 1"
      and stop: "n + length ws = unat mx \<or> length ws = card (optional_crash_consensus_nodes c)" for w
  proof -
    let ?k = "n + length ws"
    have un: "unat (of_nat ?k :: u16) = ?k" "unat (of_nat (Suc ?k) :: u16) = Suc ?k"
      using assms(4) mx by (simp_all add: unat_of_nat del: of_nat_Suc of_nat_add)
    define i where "i = (if ?k < unat mx then Some (Crash (of_nat (Suc ?k)) mx) else None)"
    have cmpl: "completed_test c' (Crash (of_nat ?k) mx) = Some (c'\<lparr>next_mid_test_item := i\<rparr>)"
    proof -
      have "u16_add (of_nat ?k) 1 = Some (of_nat (Suc ?k))"
        using un mx assms(4) by (simp add: u16_add_def add.commute del: of_nat_add)
      moreover have "(of_nat (Suc ?k) :: u16) \<le> mx \<longleftrightarrow> ?k < unat mx"
        by (simp add: word_le_nat_alt un(2) Suc_le_eq del: of_nat_Suc of_nat_add)
      ultimately show ?thesis by (simp add: completed_test_def i_def del: of_nat_Suc of_nat_add)
    qed
    have "all_reply c' w" using all_reply_mono [OF w c'(2)] c'(1) by simp
    note goes = test_completed_next [OF this c'(3,4) cmpl, of E]
    let ?d = "replied (snd w) (send_all E (ord_consensus (fst w) (consensus_nodes c'))
      \<lparr>interactive = Reset (timestamp (fst w) c'), source = []\<rparr> (c'\<lparr>next_mid_test_item := i\<rparr>))"
    have "ctl_next_test E (fst w) ?d = configure_analyzer_and_consensus_node E (fst w) ?d"
    proof (cases "?k < unat mx")
      case True
      with stop have "length ws = card (optional_crash_consensus_nodes c)" by simp
      with s(2-4) assms(5) have "set ps = optional_crash_consensus_nodes c"
        by (metis card_subset_eq distinct_card)
      then have "optional_crash_consensus_nodes ?d = {}" using c'(1) by simp
      moreover have "(0 :: u16) \<noteq> of_nat (Suc ?k)" using un(2) by (metis nat.distinct(1) unat_0)
      moreover have "next_mid_test_item ?d = Some (Crash (of_nat (Suc ?k)) mx)" using True by (simp add: i_def)
      ultimately show ?thesis
        by (simp add: ctl_next_test_def next_crash_test_def random_crash_a_consensus_node_def del: of_nat_Suc of_nat_add)
    next
      case False
      then have "next_mid_test_item ?d = None" by (simp add: i_def)
      then show ?thesis by (simp add: ctl_next_test_def)
    qed
    with goes c'(5) show ?thesis by (intro exI [of _ ?d]) simp
  qed
  with s show ?thesis by blast
qed

text \<open>
  The test of delayed messages never starts: after its first round the controller has an
  intermediate item for it, but going on to the next test does nothing at all, no message is
  sent and no later item is reached.
\<close>

theorem delay_test_stalls:
  assumes "completed_test c (Malicious (LeaderDelaySendMessage FirstRound mp)) = Some c1" and "0 < mp"
  shows "next_mid_test_item c1 = Some (Malicious (LeaderDelaySendMessage (OtherRound 1) mp)) \<and>
    ctl_next_test E R c1 = Some c1"
  using assms by (auto simp: completed_test_def next_phase_item_def ctl_next_test_def)

theorem delay_test_stalls_witness:
  "\<exists>c1. completed_test ctl_demo (Malicious (LeaderDelaySendMessage FirstRound 3)) = Some c1 \<and>
     ctl_next_test ctl_demo_ext ctl_demo_env c1 = Some c1"
proof -
  obtain c1 where "completed_test ctl_demo (Malicious (LeaderDelaySendMessage FirstRound 3)) = Some c1"
    by (simp add: completed_test_def next_phase_item_def)
  with delay_test_stalls [OF this, of ctl_demo_ext ctl_demo_env] show ?thesis by simp
qed

theorem tests_run_in_order_witness:
  "\<exists>c'. configure (controller_new [1] [2] [3] [4] [5] 10) demo_config = Some c' \<and>
     next_item (configured_times ctl_demo_ext 1 c') = Some Throughput \<and>
     next_item (configured_times ctl_demo_ext 3 c') = Some (Malicious (LeaderFeignDeath FirstRound 2)) \<and>
     \<not> snd (configure_analyzer ctl_demo_ext (configured_times ctl_demo_ext 4 c'))"
proof -
  have items: "configured_items demo_config = [Throughput, Scalability 1 7 2,
      Malicious (LeaderFeignDeath FirstRound 2), Malicious (LeaderSendAmbiguousMessage FirstRound 2 [] 0)]"
    by (simp add: configured_items_def demo_config_def map_filter_simps behaviour_item_def)
  obtain c' where c': "configure (controller_new [1] [2] [3] [4] [5] 10) demo_config = Some c'"
    by (simp add: configure_def configure_malicious_def demo_config_def)
  have "test_items (controller_new [1] [2] [3] [4] [5] 10) = []" by (simp add: controller_new_def)
  note t = tests_run_in_order [OF c' this, unfolded items, of _ ctl_demo_ext]
  from t [of 0] t [of 2] t [of 4] c' show ?thesis by (simp add: eval_nat_numeral)
qed

text \<open>A controller with three consensus nodes, two of which can still be crashed, and two rounds of replies.\<close>

definition crash_demo :: controller where
  "crash_demo = ctl_demo\<lparr>consensus_nodes := {[6], [7], [8]}, optional_crash_consensus_nodes := {[6], [7]}\<rparr>"

theorem crash_test_rounds_witness:
  "\<exists>ps c' d. crash_series ctl_demo_ext 5 crash_demo 0
      (replicate 2 (ctl_demo_env, [([6], ModeCrash 1000), ([7], ModeHonest Other), ([8], ModeHonest Other)])) ps c' \<and>
     distinct ps \<and> set ps \<subseteq> {[6], [7]} \<and> length ps = 2 \<and>
     test_completed ctl_demo_ext c' (Crash 2 5)
       (ctl_demo_env, [([6], ModeCrash 1000), ([7], ModeHonest Other), ([8], ModeHonest Other)]) =
     configure_analyzer_and_consensus_node ctl_demo_ext ctl_demo_env d"
proof -
  let ?rs = "[([6], ModeCrash 1000), ([7], ModeHonest Other), ([8], ModeHonest Other)] :: (peer_id \<times> consensus_node_mode) list"
  have order: "set (ord_optional_crash ctl_demo_env S) = S" if "S \<subseteq> {[6], [7]}" for S
    using that by (auto simp: ctl_demo_env_def peer_order_def)
  have reply: "all_reply crash_demo (ctl_demo_env, ?rs)"
    unfolding all_reply_def using order by (simp add: crash_demo_def running_mode_def)
  have "reset_success_count crash_demo = 0" "crash_reset_success_count crash_demo = 0"
    "optional_crash_consensus_nodes crash_demo = {[6], [7]}"
    by (simp_all add: crash_demo_def ctl_demo_def controller_new_def)
  with crash_test_rounds [of "replicate 2 (ctl_demo_env, ?rs)" crash_demo 0 5 ctl_demo_ext] reply
  obtain ps c' where s: "crash_series ctl_demo_ext 5 crash_demo 0 (replicate 2 (ctl_demo_env, ?rs)) ps c'"
      "distinct ps" "length ps = 2" "set ps \<subseteq> {[6], [7]}"
    and stop: "\<forall>a b. all_reply crash_demo (a, b) \<longrightarrow> (\<exists>d. test_completed ctl_demo_ext c' (Crash 2 5) (a, b) =
      configure_analyzer_and_consensus_node ctl_demo_ext a d \<and> test_items d = test_items crash_demo)"
    by auto
  from stop reply obtain d where "test_completed ctl_demo_ext c' (Crash 2 5) (ctl_demo_env, ?rs) =
      configure_analyzer_and_consensus_node ctl_demo_ext ctl_demo_env d" by blast
  with s show ?thesis by blast
qed

theorem controller_turn_invariant_witness:
  "\<exists>c'. ctl_turn ctl_demo_ext ctl_demo_env ctl_demo (CtlDiscovered [[8]]) = Some c' \<and>
     waiting_consensus_nodes c' = {[6], [7], [8]} \<and> ctl_finite c' \<and> prefix (ct_effects ctl_demo) (ct_effects c')"
proof -
  obtain c' where c': "ctl_turn ctl_demo_ext ctl_demo_env ctl_demo (CtlDiscovered [[8]]) = Some c'"
    and w: "waiting_consensus_nodes c' = {[6], [7], [8]}"
    by (auto simp: ctl_demo_def)
  have "ctl_finite ctl_demo" by (simp add: ctl_finite_def ctl_demo_def controller_new_def)
  from controller_turn_invariant [OF c' this] c' w show ?thesis by simp
qed

end
