(* ===== verification/Chain_HotStuff.thy ===== *)
theory Chain_HotStuff
  imports HotStuff_Protocol
begin

text \<open>
  Chained HotStuff (\<open>protocols/src/chain_hotstuff\<close>): messages (\<open>message.rs\<close>), hashes and key
  generation (\<open>common.rs\<close>), state and log (\<open>state.rs\<close>, \<open>log.rs\<close>) and the protocol
  (\<open>protocol.rs\<close>). The threshold signatures and the helper types of key distribution are those
  of basic HotStuff; messages are coded with bincode.
\<close>

subsection \<open>Messages\<close>

text \<open>A certificate over blocks, and blocks that carry the certificate of their parent.\<close>

datatype 'b chain_qc =
  ChainQC (cqc_view_num: u64) (cqc_block: 'b) (cqc_signature: "bytes option")

datatype chain_block =
  ChainBlock (cb_cmd: string) (cb_parent_hash: string) (cb_justify: "chain_block chain_qc option")

type_synonym ch_qc = "chain_block chain_qc"

record generic =
  g_view_num :: u64
  g_block :: "chain_block option"
  g_justify :: "ch_qc option"
  g_from_peer_id :: bytes

record ch_vote =
  cv_view_num :: u64
  cv_block :: chain_block
  cv_partial_signature :: bytes
  cv_from_peer_id :: bytes

datatype ch_message_type =
    ChInit
  | ChRequest request
  | ChGeneric generic
  | ChVote ch_vote
  | ChEnd string
  | ChTBLSKey tbls_key
  | ChConsensusNodePKsInfo "bytes \<rightharpoonup> consensus_node_pk_info"

record ch_consensus_message =
  ch_msg_type :: ch_message_type

definition ch_qc_new :: "u64 \<Rightarrow> chain_block \<Rightarrow> ch_qc" where
  "ch_qc_new view_num b = ChainQC view_num b None"

definition ch_set_signature :: "ch_qc \<Rightarrow> bytes \<Rightarrow> ch_qc" where
  "ch_set_signature q sig = ChainQC (cqc_view_num q) (cqc_block q) (Some sig)"

text \<open>\<open>coder::serialize_into_bytes\<close> on messages and blocks.\<close>

record ch_ext = hs_ext +
  bincode_ch_message :: "ch_consensus_message \<Rightarrow> bytes"
  from_bincode_ch_message :: "bytes \<Rightarrow> ch_consensus_message option"
  bincode_ch_block :: "chain_block \<Rightarrow> bytes"

abbreviation ch_bytes :: "'a ch_ext_scheme \<Rightarrow> ch_message_type \<Rightarrow> bytes" where
  "ch_bytes E m \<equiv> bincode_ch_message E \<lparr>ch_msg_type = m\<rparr>"

subsection \<open>Hashes and keys\<close>

definition GENERIC :: u8 where "GENERIC = 1"

definition ch_get_block_hash :: "'a ch_ext_scheme \<Rightarrow> chain_block \<Rightarrow> string" where
  "ch_get_block_hash E b = get_hash_str E (bincode_ch_block E b)"

definition ch_get_request_hash :: "'a ext_scheme \<Rightarrow> request \<Rightarrow> string" where
  "ch_get_request_hash E request = get_hash_str E (bincode_request E request)"

definition get_generic_hash :: "'a ch_ext_scheme \<Rightarrow> u8 \<Rightarrow> u64 \<Rightarrow> chain_block \<Rightarrow> string" where
  "get_generic_hash E ty view_num b =
     (if ty \<noteq> GENERIC then ''''
      else get_hash_str E ([ty] @ to_be_bytes view_num @ bincode_ch_block E b))"

definition ch_generate_bls_keys ::
    "'a hs_ext_scheme \<Rightarrow> (nat \<Rightarrow> bytes) \<Rightarrow> string list \<Rightarrow> (string \<rightharpoonup> peer_id) \<Rightarrow> u64 \<Rightarrow>
     distribute_tbls_key list" where
  "ch_generate_bls_keys E random order nodes fault_count =
     (let key_set = generate_keypair_set E random (unat fault_count) (length order)
      in map (\<lambda>((i, sk, pk), peer_id).
           \<lparr>dk_number = i, dk_peer_id = peer_id,
            dk_tbls_key = \<lparr>secret_key = sk, tk_public_key = pk,
              common_public_key = common_pk key_set, pk_set = tsk_pk_set key_set\<rparr>\<rparr>)
         (zip (keypair_shares key_set) (List.map_filter nodes order)))"

subsection \<open>State and log\<close>

record ch_state =
  ch_view :: u64
  ch_high_qc :: "ch_qc option"
  generic_qc :: "ch_qc option"
  ch_locked_qc :: "ch_qc option"
  current_leader :: bytes
  next_leader :: bytes
  ch_node_count :: u64
  ch_fault_tolerance_count :: u64
  ch_tf :: u64
  ch_current_view_timeout :: u64
  ch_current_request_state :: request

definition ch_state_new :: ch_state where
  "ch_state_new = \<lparr>ch_view = 0, ch_high_qc = None, generic_qc = None, ch_locked_qc = None,
     current_leader = [], next_leader = [], ch_node_count = 4, ch_fault_tolerance_count = 1,
     ch_tf = 10, ch_current_view_timeout = 10, ch_current_request_state = \<lparr>cmd = ''None''\<rparr>\<rparr>"

record ch_log =
  ch_message_signatures :: "string \<rightharpoonup> (u64 \<times> bytes) list"
  generics :: "u64 \<rightharpoonup> generic list"

definition ch_log_new :: ch_log where
  "ch_log_new = \<lparr>ch_message_signatures = Map.empty, generics = Map.empty\<rparr>"

definition record_generic :: "ch_log \<Rightarrow> u64 \<Rightarrow> generic \<Rightarrow> ch_log" where
  "record_generic log view_num g = log\<lparr>generics := push_bucket (generics log) view_num g\<rparr>"

definition get_generics_count_by_view :: "ch_log \<Rightarrow> u64 \<Rightarrow> nat" where
  "get_generics_count_by_view log view_num = bucket_len (generics log) view_num"

fun ch_high_qc_loop :: "ch_qc option \<Rightarrow> generic list \<Rightarrow> ch_qc option" where
  "ch_high_qc_loop h [] = h"
| "ch_high_qc_loop h (g # rest) =
     (case g_justify g of
        None \<Rightarrow> ch_high_qc_loop h rest
      | Some j \<Rightarrow>
          (case h of
             None \<Rightarrow> ch_high_qc_loop (g_justify g) rest
           | Some q \<Rightarrow>
               if cqc_view_num q < cqc_view_num j then ch_high_qc_loop (g_justify g) rest
               else ch_high_qc_loop h rest))"

definition ch_get_high_qc_by_view :: "ch_log \<Rightarrow> u64 \<Rightarrow> ch_qc option \<Rightarrow> ch_qc option option" where
  "ch_get_high_qc_by_view log view_num g_qc = do {
     generic_vec \<leftarrow> generics log view_num;
     Some (ch_high_qc_loop g_qc generic_vec)
   }"

definition ch_record_messgae_partial_signature :: "ch_log \<Rightarrow> string \<Rightarrow> u64 \<Rightarrow> bytes \<Rightarrow> ch_log" where
  "ch_record_messgae_partial_signature log msg_hash keypair_num partial_sig =
     (case ch_message_signatures log msg_hash of
        Some signatures \<Rightarrow> log\<lparr>ch_message_signatures :=
          (ch_message_signatures log)(msg_hash \<mapsto> AList.update keypair_num partial_sig signatures)\<rparr>
      | None \<Rightarrow> log\<lparr>ch_message_signatures :=
          (ch_message_signatures log)(msg_hash \<mapsto> [(keypair_num, partial_sig)])\<rparr>)"

definition ch_get_partial_signatures_by_message_hash :: "ch_log \<Rightarrow> string \<Rightarrow> (u64 \<times> bytes) list option" where
  "ch_get_partial_signatures_by_message_hash log msg_hash = ch_message_signatures log msg_hash"

definition ch_get_partial_signatures_count_by_message_hash :: "ch_log \<Rightarrow> string \<Rightarrow> nat" where
  "ch_get_partial_signatures_count_by_message_hash log msg_hash =
     (case ch_message_signatures log msg_hash of Some signatures \<Rightarrow> length signatures | None \<Rightarrow> 0)"

subsection \<open>The protocol object\<close>

text \<open>
  The fields \<open>analyzer_id\<close>, \<open>phase_map\<close>, \<open>request_buffer_map\<close> and \<open>consensus_notify\<close> of the code
  are never read; handles and timer events as in basic HotStuff.
\<close>

record ch_protocol =
  ch_st :: ch_state
  ch_lg :: ch_log
  ch_consensus_nodes :: "string \<rightharpoonup> peer_id"
  ch_pk_consensus_nodes :: "(u64 \<times> bytes) list"
  ch_consensus_node_pks :: "bytes \<rightharpoonup> consensus_node_pk_info"
  ch_keypair :: "tbls_key option"
  ch_peer_id :: string
  ch_taken_requests :: "bytes set"
  ch_request_buffer :: "string list"
  ch_timeout_handle :: nat
  ch_stop_handle :: nat
  ch_timer_events :: "timer_event list"

definition ch_default :: "nat \<Rightarrow> nat \<Rightarrow> ch_protocol" where
  "ch_default t s = \<lparr>ch_st = ch_state_new, ch_lg = ch_log_new, ch_consensus_nodes = Map.empty,
     ch_pk_consensus_nodes = [], ch_consensus_node_pks = Map.empty, ch_keypair = None, ch_peer_id = '''',
     ch_taken_requests = {}, ch_request_buffer = [], ch_timeout_handle = t, ch_stop_handle = s,
     ch_timer_events = []\<rparr>"

definition ch_view_timeout_start :: "ch_protocol \<Rightarrow> u64 \<Rightarrow> ch_protocol" where
  "ch_view_timeout_start p view_num =
     p\<lparr>ch_timer_events := ch_timer_events p @
        [TimerSpawn (ch_timeout_handle p) (ch_stop_handle p) (ch_current_view_timeout (ch_st p)) view_num]\<rparr>"

definition ch_view_timeout_stop :: "ch_protocol \<Rightarrow> ch_protocol" where
  "ch_view_timeout_stop p =
     p\<lparr>ch_st := (ch_st p)\<lparr>ch_current_view_timeout := ch_tf (ch_st p)\<rparr>,
       ch_timer_events := ch_timer_events p @ [NotifyOne (ch_stop_handle p)]\<rparr>"

subsection \<open>Views and leaders\<close>

definition ch_change_leader :: "ch_protocol \<Rightarrow> u64 \<Rightarrow> ch_protocol option" where
  "ch_change_leader p view_num = do {
     let node_count = of_nat (length (ch_pk_consensus_nodes p));
     leader_num \<leftarrow> u64_rem view_num node_count;
     following \<leftarrow> u64_add view_num 1;
     next_leader_num \<leftarrow> u64_rem following node_count;
     leader \<leftarrow> map_of (ch_pk_consensus_nodes p) leader_num;
     next \<leftarrow> map_of (ch_pk_consensus_nodes p) next_leader_num;
     Some (p\<lparr>ch_st := (ch_st p)\<lparr>current_leader := leader, next_leader := next\<rparr>\<rparr>)
   }"

definition ch_next_view :: "'a ch_ext_scheme \<Rightarrow> ch_protocol \<Rightarrow> peer_id \<Rightarrow> (ch_protocol \<times> phase_state) option" where
  "ch_next_view E p current_peer_id = do {
     next \<leftarrow> u64_add (ch_view (ch_st p)) 1;
     p1 \<leftarrow> ch_change_leader p next;
     (if current_leader (ch_st p1) = peer_to_bytes E current_peer_id
      then Some (p1\<lparr>ch_st := (ch_st p1)\<lparr>ch_view := next\<rparr>\<rparr>, ContinueExecute [])
      else do {
        let generic = \<lparr>g_view_num = ch_view (ch_st p1), g_block = None, g_justify = generic_qc (ch_st p1),
                       g_from_peer_id = peer_to_bytes E current_peer_id\<rparr>;
        leader_id \<leftarrow> peer_from_bytes E (current_leader (ch_st p1));
        Some (ch_view_timeout_start (p1\<lparr>ch_st := (ch_st p1)\<lparr>ch_view := next\<rparr>\<rparr>) next,
              ContinueExecute [Unicast leader_id (ch_bytes E (ChGeneric generic))])
      })
   }"

subsection \<open>Keys\<close>

definition ch_storage_tbls_key :: "ch_protocol \<Rightarrow> tbls_key \<Rightarrow> ch_protocol" where
  "ch_storage_tbls_key p k = p\<lparr>ch_keypair := Some k\<rparr>"

text \<open>The loop is that of basic HotStuff; the messages of \<open>next_view\<close> are dropped.\<close>

definition ch_storage_consensus_node_pk ::
    "'a ch_ext_scheme \<Rightarrow> bytes list \<Rightarrow> ch_protocol \<Rightarrow> (bytes \<rightharpoonup> consensus_node_pk_info) \<Rightarrow> peer_id \<Rightarrow>
     (ch_protocol \<times> phase_state) option" where
  "ch_storage_consensus_node_pk E order p pks_info current_peer_id = do {
     nodes \<leftarrow> storage_pk_loop E pks_info order (ch_pk_consensus_nodes p);
     (p1, _) \<leftarrow> ch_next_view E (p\<lparr>ch_pk_consensus_nodes := nodes\<rparr>) current_peer_id;
     Some (p1, OverMessage None [])
   }"

fun ch_distribute_keys_loop :: "'a ch_ext_scheme \<Rightarrow> distribute_tbls_key list \<Rightarrow> ch_protocol \<Rightarrow> send_type list \<Rightarrow>
    (bytes \<rightharpoonup> consensus_node_pk_info) \<Rightarrow>
    (ch_protocol \<times> send_type list \<times> (bytes \<rightharpoonup> consensus_node_pk_info)) option" where
  "ch_distribute_keys_loop E [] p queue pks = Some (p, queue, pks)"
| "ch_distribute_keys_loop E (key_info # rest) p queue pks = do {
     p1 \<leftarrow> (if peer_to_string E (dk_peer_id key_info) = ch_peer_id p
             then do {
               _ \<leftarrow> peer_from_str E (ch_peer_id p);
               Some (ch_storage_tbls_key p (dk_tbls_key key_info))
             }
             else Some p);
     ch_distribute_keys_loop E rest p1
       (queue @ [Unicast (dk_peer_id key_info) (ch_bytes E (ChTBLSKey (dk_tbls_key key_info)))])
       (pks(peer_to_bytes E (dk_peer_id key_info) \<mapsto>
          \<lparr>pki_number = dk_number key_info, pki_public_key = tk_public_key (dk_tbls_key key_info)\<rparr>))
   }"

definition ch_distribute_keys ::
    "'a ch_ext_scheme \<Rightarrow> (nat \<Rightarrow> bytes) \<Rightarrow> string list \<Rightarrow> bytes list \<Rightarrow> ch_protocol \<Rightarrow> peer_id \<Rightarrow>
     (ch_protocol \<times> phase_state) option" where
  "ch_distribute_keys E random order pks_order p current_peer_id = do {
     let keys = ch_generate_bls_keys E random order (ch_consensus_nodes p) (ch_fault_tolerance_count (ch_st p));
     first \<leftarrow> (case keys of [] \<Rightarrow> None | k # _ \<Rightarrow> Some (dk_tbls_key k));
     _ \<leftarrow> from_bincode_ch_message E (ch_bytes E (ChTBLSKey first));
     (p1, queue, pks) \<leftarrow> ch_distribute_keys_loop E keys p [] Map.empty;
     let queue1 = queue @ [Broadcast (ch_bytes E (ChConsensusNodePKsInfo pks))];
     (p2, data) \<leftarrow> ch_storage_consensus_node_pk E pks_order (p1\<lparr>ch_consensus_node_pks := pks\<rparr>) pks current_peer_id;
     Some (p2, OverMessage None (append_continue queue1 data))
   }"

subsection \<open>Proposals and votes\<close>

definition ch_safe_node :: "'a ch_ext_scheme \<Rightarrow> ch_protocol \<Rightarrow> chain_block \<Rightarrow> ch_qc option \<Rightarrow> bool" where
  "ch_safe_node E p b justify =
     (case justify of
        None \<Rightarrow> True
      | Some q \<Rightarrow>
          (case ch_locked_qc (ch_st p) of
             Some locked \<Rightarrow> cqc_view_num q > cqc_view_num locked \<or>
                            cb_parent_hash b = ch_get_block_hash E (cqc_block locked)
           | None \<Rightarrow> cqc_view_num q > 0 \<or> cb_parent_hash b = ''''))"

text \<open>Signing a vote: the next leader files it, every other node sends it and enters the next view.\<close>

definition ch_file_own_vote ::
    "'a ch_ext_scheme \<Rightarrow> ch_protocol \<Rightarrow> string \<Rightarrow> consensus_node_pk_info \<Rightarrow> bytes \<Rightarrow> peer_id \<Rightarrow> ch_protocol" where
  "ch_file_own_vote E p sign_msg_hash pk_info partial_signature current_peer_id =
     (if next_leader (ch_st p) = peer_to_bytes E current_peer_id
      then p\<lparr>ch_lg := ch_record_messgae_partial_signature (ch_lg p) sign_msg_hash (pki_number pk_info) partial_signature\<rparr>
      else p)"

definition ch_cast_vote ::
    "'a ch_ext_scheme \<Rightarrow> ch_protocol \<Rightarrow> chain_block \<Rightarrow> peer_id \<Rightarrow> (ch_protocol \<times> send_type list) option" where
  "ch_cast_vote E p b_1 current_peer_id =
     (case ch_keypair p of
        None \<Rightarrow> Some (p, [])
      | Some keypair \<Rightarrow> do {
          let sign_msg_hash = get_generic_hash E GENERIC (ch_view (ch_st p)) b_1;
          let vote = \<lparr>cv_view_num = ch_view (ch_st p), cv_block = b_1,
                      cv_partial_signature = tbls_sign E keypair (as_bytes sign_msg_hash),
                      cv_from_peer_id = peer_to_bytes E current_peer_id\<rparr>;
          pk_info \<leftarrow> ch_consensus_node_pks p (cv_from_peer_id vote);
          let p1 = ch_file_own_vote E p sign_msg_hash pk_info (cv_partial_signature vote) current_peer_id;
          leader_id \<leftarrow> peer_from_bytes E (next_leader (ch_st p1));
          _ \<leftarrow> peer_from_bytes E (current_leader (ch_st p1));
          (if peer_to_bytes E current_peer_id = peer_to_bytes E leader_id then Some (p1, [])
           else do {
             (p2, m2) \<leftarrow> ch_next_view E p1 current_peer_id;
             Some (p2, append_continue [Unicast leader_id (ch_bytes E (ChVote vote))] m2)
           })
        })"

text \<open>The pre-commit, commit and decide phases of the ancestors of a proposal.\<close>

definition ch_phases ::
    "'a ch_ext_scheme \<Rightarrow> ch_protocol \<Rightarrow> chain_block \<Rightarrow> send_type list \<Rightarrow> ch_protocol \<times> phase_state" where
  "ch_phases E p b_1 queue =
     (case cb_justify b_1 of
        None \<Rightarrow> (p, ContinueExecute queue)
      | Some q_1 \<Rightarrow>
          let b_2 = cqc_block q_1 in
          if cb_parent_hash b_1 \<noteq> ch_get_block_hash E b_2 then (p, ContinueExecute queue)
          else
            let p1 = p\<lparr>ch_st := (ch_st p)\<lparr>generic_qc := cb_justify b_1\<rparr>\<rparr> in
            (case cb_justify b_2 of
               None \<Rightarrow> (p1, ContinueExecute queue)
             | Some q_2 \<Rightarrow>
                 let b_3 = cqc_block q_2 in
                 if cb_parent_hash b_2 \<noteq> ch_get_block_hash E b_3 then (p1, ContinueExecute queue)
                 else
                   let p2 = p1\<lparr>ch_st := (ch_st p1)\<lparr>ch_locked_qc := cb_justify b_2\<rparr>\<rparr> in
                   (case cb_justify b_3 of
                      None \<Rightarrow> (p2, ContinueExecute queue)
                    | Some q_3 \<Rightarrow>
                        let b_4 = cqc_block q_3 in
                        if cb_parent_hash b_3 = ch_get_block_hash E b_4
                        then (p2, Complete \<lparr>cmd = cb_cmd b_4\<rparr> queue)
                        else (p2, ContinueExecute queue))))"

definition replica_handle_generic ::
    "'a ch_ext_scheme \<Rightarrow> ch_protocol \<Rightarrow> generic \<Rightarrow> peer_id \<Rightarrow> (ch_protocol \<times> phase_state) option" where
  "replica_handle_generic E p generic current_peer_id =
     (case g_block generic of
        None \<Rightarrow> Some (p, ContinueExecute [])
      | Some b_1 \<Rightarrow>
          if \<not> ch_safe_node E p b_1 (cb_justify b_1) then Some (p, ContinueExecute [])
          else do {
            (p1, queue) \<leftarrow> ch_cast_vote E p b_1 current_peer_id;
            Some (ch_phases E (ch_view_timeout_stop p1) b_1 queue)
          })"

definition handle_newview_generic ::
    "'a ch_ext_scheme \<Rightarrow> ch_protocol \<Rightarrow> generic \<Rightarrow> peer_id \<Rightarrow> (ch_protocol \<times> phase_state) option" where
  "handle_newview_generic E p generic current_peer_id = do {
     let p1 = p\<lparr>ch_lg := record_generic (ch_lg p) (g_view_num generic) generic\<rparr>;
     doubled \<leftarrow> u64_mul 2 (ch_fault_tolerance_count (ch_st p1));
     threshold \<leftarrow> u64_add doubled 1;
     if get_generics_count_by_view (ch_lg p1) (g_view_num generic) = unat threshold
     then do {
       high \<leftarrow> ch_get_high_qc_by_view (ch_lg p1) (g_view_num generic) (generic_qc (ch_st p1));
       (p2, _) \<leftarrow> ch_next_view E (p1\<lparr>ch_st := (ch_st p1)\<lparr>ch_high_qc := high, generic_qc := high\<rparr>\<rparr>) current_peer_id;
       Some (p2, Over None)
     }
     else Some (p1, ContinueExecute [])
   }"

definition handle_generic ::
    "'a ch_ext_scheme \<Rightarrow> ch_protocol \<Rightarrow> generic \<Rightarrow> peer_id \<Rightarrow> (ch_protocol \<times> phase_state) option" where
  "handle_generic E p generic current_peer_id =
     (case g_block generic of
        None \<Rightarrow> handle_newview_generic E p generic current_peer_id
      | Some b \<Rightarrow>
          let p1 = p\<lparr>ch_taken_requests := insert (bincode_request E \<lparr>cmd = cb_cmd b\<rparr>) (ch_taken_requests p)\<rparr>
          in if ch_view (ch_st p1) \<noteq> g_view_num generic then Some (p1, ContinueExecute [])
             else replica_handle_generic E p1 generic current_peer_id)"

definition ch_handle_request ::
    "'a ch_ext_scheme \<Rightarrow> ch_protocol \<Rightarrow> request \<Rightarrow> peer_id \<Rightarrow> (ch_protocol \<times> phase_state) option" where
  "ch_handle_request E p request current_peer_id = do {
     let p1 = p\<lparr>ch_taken_requests := insert (bincode_request E request) (ch_taken_requests p),
                ch_request_buffer := ch_request_buffer p @ [ch_get_request_hash E request]\<rparr>;
     let parent_hash = (case ch_high_qc (ch_st p1) of Some q \<Rightarrow> ch_get_block_hash E (cqc_block q) | None \<Rightarrow> '''');
     let block = ChainBlock (cmd request) parent_hash (ch_high_qc (ch_st p1));
     let generic = \<lparr>g_view_num = ch_view (ch_st p1), g_block = Some block, g_justify = None,
                    g_from_peer_id = peer_to_bytes E current_peer_id\<rparr>;
     let send_query = [Broadcast (ch_bytes E (ChGeneric generic))];
     (p2, data) \<leftarrow> handle_generic E p1 generic current_peer_id;
     Some (p2, case data of
         ContinueExecute msgs \<Rightarrow> ContinueExecute (send_query @ msgs)
       | Complete r msgs \<Rightarrow> Complete r (send_query @ msgs)
       | _ \<Rightarrow> ContinueExecute [])
   }"

definition handle_vote ::
    "'a ch_ext_scheme \<Rightarrow> ch_protocol \<Rightarrow> ch_vote \<Rightarrow> (ch_protocol \<times> phase_state) option" where
  "handle_vote E p vote = do {
     let generic_msg_hash = get_generic_hash E GENERIC (cv_view_num vote) (cv_block vote);
     pk_info \<leftarrow> ch_consensus_node_pks p (cv_from_peer_id vote);
     if \<not> bls_verify_share E (pki_public_key pk_info) (cv_partial_signature vote) (as_bytes generic_msg_hash)
     then Some (p, ContinueExecute [])
     else do {
       let p1 = p\<lparr>ch_lg := ch_record_messgae_partial_signature (ch_lg p) generic_msg_hash
                    (pki_number pk_info) (cv_partial_signature vote)\<rparr>;
       doubled \<leftarrow> u64_mul 2 (ch_fault_tolerance_count (ch_st p1));
       threshold \<leftarrow> u64_add doubled 1;
       if ch_get_partial_signatures_count_by_message_hash (ch_lg p1) generic_msg_hash \<noteq> unat threshold
       then Some (p1, ContinueExecute [])
       else do {
         partial_sigs \<leftarrow> ch_get_partial_signatures_by_message_hash (ch_lg p1) generic_msg_hash;
         keypair \<leftarrow> ch_keypair p1;
         signature \<leftarrow> combine_partial_signatures E keypair (map_of partial_sigs);
         let q = ch_set_signature (ch_qc_new (cv_view_num vote) (cv_block vote)) signature;
         Some (p1\<lparr>ch_st := (ch_st p1)\<lparr>generic_qc := Some q\<rparr>\<rparr>, ContinueExecute [])
       }
     }
   }"

subsection \<open>The protocol interface\<close>

definition ch_init_timeout_notify :: "ch_protocol \<Rightarrow> nat \<Rightarrow> ch_protocol" where
  "ch_init_timeout_notify p h = p\<lparr>ch_timeout_handle := h\<rparr>"

definition ch_extra_initial_start ::
    "'a ch_ext_scheme \<Rightarrow> (nat \<Rightarrow> bytes) \<Rightarrow> string list \<Rightarrow> bytes list \<Rightarrow> ch_protocol \<Rightarrow> peer_id list \<Rightarrow> bytes \<Rightarrow>
     (ch_protocol \<times> phase_state) option" where
  "ch_extra_initial_start E random order pks_order p nodes current_peer_id = do {
     let p1 = p\<lparr>ch_consensus_nodes := foldl (\<lambda>m i. m(peer_to_string E i \<mapsto> i)) Map.empty nodes\<rparr>;
     peer \<leftarrow> peer_from_bytes E current_peer_id;
     ch_distribute_keys E random order pks_order (p1\<lparr>ch_peer_id := peer_to_string E peer\<rparr>) peer
   }"

definition ch_is_leader :: "ch_protocol \<Rightarrow> bytes \<Rightarrow> bool" where
  "ch_is_leader p peer_id = (current_leader (ch_st p) = peer_id)"

definition ch_generate_serialized_request_message :: "'a ch_ext_scheme \<Rightarrow> request \<Rightarrow> bytes" where
  "ch_generate_serialized_request_message E request = ch_bytes E (ChRequest request)"

text \<open>\<open>order\<close> is the iteration order of the map a key message decodes to.\<close>

fun ch_handle_message_type :: "'a ch_ext_scheme \<Rightarrow> bytes \<Rightarrow> bytes list \<Rightarrow> ch_protocol \<Rightarrow> ch_message_type \<Rightarrow>
    (ch_protocol \<times> phase_state) option" where
  "ch_handle_message_type E me order p (ChRequest request) = do {
     peer \<leftarrow> peer_from_bytes E me;
     ch_handle_request E p request peer
   }"
| "ch_handle_message_type E me order p (ChGeneric generic) = do {
     peer \<leftarrow> peer_from_bytes E me;
     handle_generic E p generic peer
   }"
| "ch_handle_message_type E me order p (ChVote vote) = do {
     _ \<leftarrow> peer_from_bytes E me;
     handle_vote E p vote
   }"
| "ch_handle_message_type E me order p (ChTBLSKey k) = do {
     _ \<leftarrow> peer_from_bytes E me;
     Some (ch_storage_tbls_key p k, ContinueExecute [Broadcast []])
   }"
| "ch_handle_message_type E me order p (ChConsensusNodePKsInfo msg) = do {
     peer \<leftarrow> peer_from_bytes E me;
     ch_storage_consensus_node_pk E order (p\<lparr>ch_consensus_node_pks := msg\<rparr>) msg peer
   }"
| "ch_handle_message_type E me order p m = Some (p, ContinueExecute [Broadcast []])"

definition ch_message_handler ::
    "'a ch_ext_scheme \<Rightarrow> bytes \<Rightarrow> ch_protocol \<Rightarrow> bytes \<times> bytes list \<Rightarrow> (ch_protocol \<times> phase_state) option" where
  "ch_message_handler E current_peer_id p i = do {
     message \<leftarrow> from_bincode_ch_message E (fst i);
     ch_handle_message_type E current_peer_id (snd i) p (ch_msg_type message)
   }"

definition ch_receive_consensus_requests :: "ch_protocol \<Rightarrow> request list \<Rightarrow> ch_protocol option" where
  "ch_receive_consensus_requests p requests = None"

definition ch_get_current_phase :: "bytes \<Rightarrow> u8" where
  "ch_get_current_phase msg = 1"

definition ch_phase_map :: "ch_protocol \<Rightarrow> u8 \<rightharpoonup> string" where
  "ch_phase_map p = Map.empty"

definition ch_protocol_reset :: "string \<Rightarrow> nat \<Rightarrow> nat \<Rightarrow> ch_protocol \<Rightarrow> ch_protocol" where
  "ch_protocol_reset rnd t s p =
     (let p1 = ch_view_timeout_stop p
      in p1\<lparr>ch_st := (ch_st p1)\<lparr>ch_view := 0, ch_high_qc := None, generic_qc := None, ch_locked_qc := None,
              current_leader := [], next_leader := [], ch_node_count := 4, ch_fault_tolerance_count := 1,
              ch_tf := 10, ch_current_view_timeout := 10\<rparr>,
            ch_keypair := None, ch_consensus_nodes := Map.empty, ch_pk_consensus_nodes := [],
            ch_consensus_node_pks := Map.empty,
            ch_lg := (ch_lg p1)\<lparr>ch_message_signatures := Map.empty, generics := Map.empty\<rparr>,
            ch_peer_id := rnd, ch_taken_requests := {}, ch_request_buffer := [],
            ch_timeout_handle := t, ch_stop_handle := s\<rparr>)"

definition ch_view_timeout_handler ::
    "'a ch_ext_scheme \<Rightarrow> ch_protocol \<Rightarrow> peer_id \<Rightarrow> (ch_protocol \<times> phase_state) option" where
  "ch_view_timeout_handler E p current_peer_id = do {
     doubled \<leftarrow> u64_mul (ch_current_view_timeout (ch_st p)) 2;
     ch_next_view E (p\<lparr>ch_st := (ch_st p)\<lparr>ch_current_view_timeout := doubled\<rparr>\<rparr>) current_peer_id
   }"

definition ch_check_taken_request :: "ch_protocol \<Rightarrow> bytes \<Rightarrow> bool" where
  "ch_check_taken_request p request = (request \<in> ch_taken_requests p)"

definition ch_current_request :: "ch_protocol \<Rightarrow> request" where
  "ch_current_request p = ch_current_request_state (ch_st p)"

definition ch_set_current_request :: "ch_protocol \<Rightarrow> request \<Rightarrow> ch_protocol" where
  "ch_set_current_request p request = p\<lparr>ch_st := (ch_st p)\<lparr>ch_current_request_state := request\<rparr>\<rparr>"

end
