(* ===== verification/Chain_Properties.thy ===== *)
theory Chain_Properties
  imports Chain_HotStuff HotStuff_Properties
begin

text \<open>
  Properties of chained HotStuff: the rule by which blocks are locked and executed, voting once
  per view, the formation of a certificate before the next proposal in every order of
  delivery, and what an unverified certificate can do.
\<close>

subsection \<open>Views\<close>

lemma u64_add_less: "u64_add a 1 = Some b \<Longrightarrow> a < b"
  by (auto simp: word_less_nat_alt dest: u64_add_unat)

lemma ch_change_leader_frame:
  "ch_change_leader p v = Some p' \<Longrightarrow>
   \<exists>l n. p' = p\<lparr>ch_st := (ch_st p)\<lparr>current_leader := l, next_leader := n\<rparr>\<rparr>"
  by (auto simp: ch_change_leader_def bind_eq_Some_conv Let_def)

text \<open>Entering the next view: the view grows by one, and at most a new view message is sent.\<close>

lemma ch_next_view_cases:
  assumes "ch_next_view E p me = Some (p', ps)"
  shows "ch_view (ch_st p) < ch_view (ch_st p') \<and>
    ch_locked_qc (ch_st p') = ch_locked_qc (ch_st p) \<and> generic_qc (ch_st p') = generic_qc (ch_st p) \<and>
    (\<exists>q. ps = ContinueExecute q \<and> (\<forall>st \<in> set q. \<exists>l g. st = Unicast l (ch_bytes E (ChGeneric g))))"
  using assms
  by (auto simp: ch_next_view_def bind_eq_Some_conv Let_def ch_view_timeout_start_def
      dest!: ch_change_leader_frame u64_add_less split: if_splits)

lemma ch_view_timeout_stop_fields [simp]:
  "ch_view (ch_st (ch_view_timeout_stop p)) = ch_view (ch_st p)"
  "ch_locked_qc (ch_st (ch_view_timeout_stop p)) = ch_locked_qc (ch_st p)"
  "generic_qc (ch_st (ch_view_timeout_stop p)) = generic_qc (ch_st p)"
  by (simp_all add: ch_view_timeout_stop_def)

lemma ch_phases_view [simp]: "ch_view (ch_st (fst (ch_phases E p b q))) = ch_view (ch_st p)"
  by (auto simp: ch_phases_def Let_def split: option.splits)

lemma ch_phases_sends [simp]: "sends (snd (ch_phases E p b q)) = q"
  by (auto simp: ch_phases_def Let_def split: option.splits)

subsection \<open>The commit rule\<close>

text \<open>A block extends the block of its justification when it names the hash of it as its parent.\<close>

definition extends :: "'a ch_ext_scheme \<Rightarrow> chain_block \<Rightarrow> chain_block \<Rightarrow> bool" where
  "extends E b b' \<longleftrightarrow> (\<exists>q. cb_justify b = Some q \<and> cqc_block q = b' \<and> cb_parent_hash b = ch_get_block_hash E b')"

lemma extends_unique: "extends E b b' \<Longrightarrow> extends E b b'' \<Longrightarrow> b'' = b'"
  by (auto simp: extends_def)

lemma ch_file_own_vote_st [simp]: "ch_st (ch_file_own_vote E p h i s me) = ch_st p"
  by (simp add: ch_file_own_vote_def)

text \<open>Casting a vote: filed by the next leader, sent by every other node that has a key.\<close>

lemma ch_cast_vote_cases:
  assumes "ch_cast_vote E p b me = Some (p', q)"
  shows "ch_locked_qc (ch_st p') = ch_locked_qc (ch_st p) \<and> generic_qc (ch_st p') = generic_qc (ch_st p) \<and>
    ((q = [] \<and> ch_view (ch_st p') = ch_view (ch_st p)) \<or>
     (\<exists>l sig gs. q = Unicast l (ch_bytes E (ChVote \<lparr>cv_view_num = ch_view (ch_st p), cv_block = b,
         cv_partial_signature = sig, cv_from_peer_id = peer_to_bytes E me\<rparr>)) # gs \<and>
       (\<forall>st \<in> set gs. \<exists>l g. st = Unicast l (ch_bytes E (ChGeneric g))) \<and>
       ch_view (ch_st p) < ch_view (ch_st p')))"
proof (cases "ch_keypair p")
  case None
  with assms show ?thesis by (simp add: ch_cast_vote_def)
next
  case (Some k)
  define vote where "vote = \<lparr>cv_view_num = ch_view (ch_st p), cv_block = b, cv_partial_signature =
      tbls_sign E k (as_bytes (get_generic_hash E GENERIC (ch_view (ch_st p)) b)), cv_from_peer_id = peer_to_bytes E me\<rparr>"
  from assms Some consider "ch_st p' = ch_st p" "q = []"
    | h info s l m2 where "ch_next_view E (ch_file_own_vote E p h info s me) me = Some (p', m2)"
        "q = append_continue [Unicast l (ch_bytes E (ChVote vote))] m2"
    by (auto simp: ch_cast_vote_def bind_eq_Some_conv Let_def vote_def split: if_splits)
  then show ?thesis
  proof cases
    case 2
    from ch_next_view_cases [OF 2(1)] 2(2) show ?thesis by (auto simp: append_continue_def vote_def)
  qed auto
qed

lemma ch_phases_rule:
  assumes "ch_phases E p b1 q = (p', ps)"
  shows "(\<exists>b2 b3 b4. extends E b1 b2 \<and> extends E b2 b3 \<and> extends E b3 b4 \<and> ps = Complete \<lparr>cmd = cb_cmd b4\<rparr> q) \<or>
      (\<nexists>b2 b3 b4. extends E b1 b2 \<and> extends E b2 b3 \<and> extends E b3 b4) \<and> ps = ContinueExecute q"
    and "generic_qc (ch_st p') = (if \<exists>b2. extends E b1 b2 then cb_justify b1 else generic_qc (ch_st p))"
    and "extends E b1 b2 \<Longrightarrow> extends E b2 b3 \<Longrightarrow> ch_locked_qc (ch_st p') = cb_justify b2"
    and "(\<nexists>b2 b3. extends E b1 b2 \<and> extends E b2 b3) \<Longrightarrow> ch_locked_qc (ch_st p') = ch_locked_qc (ch_st p)"
  using assms by (auto simp: ch_phases_def extends_def Let_def split: option.splits if_splits)

text \<open>
  C10. What a replica does with the block of a proposal of its view is decided by the block's ancestors alone.
  If the node finds the block safe: exactly if the block extends its direct parent, the block's certificate
  becomes the node's generic certificate, which otherwise stays; exactly if the parent extends its direct parent
  too, the parent's certificate becomes the lock, which otherwise stays; and exactly if there are three such
  links, the replica executes a command, that of the great-grandparent. If the node does not find the block safe,
  it does nothing.
\<close>
theorem chain_commit_rule:
  assumes "replica_handle_generic E p g me = Some (p', ps)" "g_block g = Some b1"
  shows "if ch_safe_node E p b1 (cb_justify b1)
     then (\<forall>r q. ps = Complete r q \<longrightarrow>
         (\<exists>b2 b3 b4. extends E b1 b2 \<and> extends E b2 b3 \<and> extends E b3 b4 \<and> r = \<lparr>cmd = cb_cmd b4\<rparr>)) \<and>
       (\<forall>b2 b3 b4. extends E b1 b2 \<and> extends E b2 b3 \<and> extends E b3 b4 \<longrightarrow> (\<exists>q. ps = Complete \<lparr>cmd = cb_cmd b4\<rparr> q)) \<and>
       (\<forall>b2. extends E b1 b2 \<longrightarrow> generic_qc (ch_st p') = cb_justify b1) \<and>
       ((\<nexists>b2. extends E b1 b2) \<longrightarrow> generic_qc (ch_st p') = generic_qc (ch_st p)) \<and>
       (\<forall>b2 b3. extends E b1 b2 \<and> extends E b2 b3 \<longrightarrow> ch_locked_qc (ch_st p') = cb_justify b2) \<and>
       ((\<nexists>b2 b3. extends E b1 b2 \<and> extends E b2 b3) \<longrightarrow> ch_locked_qc (ch_st p') = ch_locked_qc (ch_st p))
     else p' = p \<and> ps = ContinueExecute []"
proof (cases "ch_safe_node E p b1 (cb_justify b1)")
  case True
  with assms obtain p1 q where p1: "ch_cast_vote E p b1 me = Some (p1, q)"
    and ph: "ch_phases E (ch_view_timeout_stop p1) b1 q = (p', ps)"
    by (auto simp: replica_handle_generic_def bind_eq_Some_conv)
  have same: "ch_locked_qc (ch_st p1) = ch_locked_qc (ch_st p)" "generic_qc (ch_st p1) = generic_qc (ch_st p)"
    using ch_cast_vote_cases [OF p1] by blast+
  note rule = ch_phases_rule [OF ph]
  show ?thesis
  proof (simp only: True if_True, intro conjI allI impI)
    fix r qu assume "ps = Complete r qu"
    with rule(1) show "\<exists>b2 b3 b4. extends E b1 b2 \<and> extends E b2 b3 \<and> extends E b3 b4 \<and> r = \<lparr>cmd = cb_cmd b4\<rparr>" by auto
  next
    fix b2 b3 b4 assume "extends E b1 b2 \<and> extends E b2 b3 \<and> extends E b3 b4"
    with rule(1) show "\<exists>q. ps = Complete \<lparr>cmd = cb_cmd b4\<rparr> q" by (metis extends_unique)
  next
    fix b2 assume "extends E b1 b2"
    with rule(2) show "generic_qc (ch_st p') = cb_justify b1" by auto
  next
    assume "\<nexists>b2. extends E b1 b2"
    with rule(2) same(2) show "generic_qc (ch_st p') = generic_qc (ch_st p)" by simp
  next
    fix b2 b3 assume "extends E b1 b2 \<and> extends E b2 b3"
    with rule(3) show "ch_locked_qc (ch_st p') = cb_justify b2" by blast
  next
    assume "\<nexists>b2 b3. extends E b1 b2 \<and> extends E b2 b3"
    with rule(4) same(1) show "ch_locked_qc (ch_st p') = ch_locked_qc (ch_st p)" by simp
  qed
qed (use assms in \<open>simp add: replica_handle_generic_def\<close>)

subsection \<open>Voting once per view\<close>

text \<open>What a node reacts to while a test runs, and the votes in what it sends.\<close>

datatype ch_input = ChDeliver bytes "bytes list" | ChTimedOut

fun ch_react :: "'a ch_ext_scheme \<Rightarrow> peer_id \<Rightarrow> ch_protocol \<Rightarrow> ch_input \<Rightarrow> (ch_protocol \<times> phase_state) option" where
  "ch_react E ident p (ChDeliver msg order) = ch_message_handler E (peer_to_bytes E ident) p (msg, order)"
| "ch_react E ident p ChTimedOut = ch_view_timeout_handler E p ident"

definition sends_vote :: "'a ch_ext_scheme \<Rightarrow> phase_state \<Rightarrow> ch_vote \<Rightarrow> bool" where
  "sends_vote E ps v \<longleftrightarrow> (\<exists>l. Unicast l (ch_bytes E (ChVote v)) \<in> set (sends ps))"

text \<open>Documented behaviour of bincode: votes are told apart, also from proposals.\<close>

definition votes_coded :: "'a ch_ext_scheme \<Rightarrow> bool" where
  "votes_coded E \<longleftrightarrow> (\<forall>v w. ch_bytes E (ChVote v) = ch_bytes E (ChVote w) \<longrightarrow> v = w) \<and>
     (\<forall>v g. ch_bytes E (ChVote v) \<noteq> ch_bytes E (ChGeneric g))"

text \<open>One reaction: the view does not shrink, and a vote sent is of the view that is left.\<close>

definition votes_leave_view :: "'a ch_ext_scheme \<Rightarrow> ch_protocol \<Rightarrow> ch_protocol \<Rightarrow> phase_state \<Rightarrow> bool" where
  "votes_leave_view E p p' ps \<longleftrightarrow> ch_view (ch_st p) \<le> ch_view (ch_st p') \<and>
     (\<forall>v. sends_vote E ps v \<longrightarrow> cv_view_num v = ch_view (ch_st p) \<and> ch_view (ch_st p) < ch_view (ch_st p') \<and>
        (\<forall>w. sends_vote E ps w \<longrightarrow> w = v))"

lemma no_vote_leaves:
  assumes "ch_view (ch_st p) \<le> ch_view (ch_st p')"
    and "\<And>st. st \<in> set (sends ps) \<Longrightarrow> (\<exists>m. st = Broadcast m) \<or> (\<exists>l g. st = Unicast l (ch_bytes E (ChGeneric g)))"
    and "votes_coded E"
  shows "votes_leave_view E p p' ps"
  using assms by (fastforce simp: votes_leave_view_def sends_vote_def votes_coded_def)

lemma replica_votes:
  assumes "replica_handle_generic E p g me = Some (p', ps)" "votes_coded E"
    "set (sends ps') \<subseteq> insert (Broadcast m) (set (sends ps))"
  shows "votes_leave_view E p p' ps'"
proof -
  have quiet: "votes_leave_view E p p' ps'" if "ch_st p' = ch_st p" "sends ps = []"
    using assms(2,3) that by (intro no_vote_leaves) auto
  show ?thesis
  proof (cases "\<exists>b. g_block g = Some b \<and> ch_safe_node E p b (cb_justify b)")
    case True
    then obtain b p1 q where c: "ch_cast_vote E p b me = Some (p1, q)"
      and ph: "ch_phases E (ch_view_timeout_stop p1) b q = (p', ps)"
      using assms(1) by (auto simp: replica_handle_generic_def bind_eq_Some_conv)
    have p': "ch_view (ch_st p') = ch_view (ch_st p1)" "sends ps = q"
      using ch_phases_view [of E "ch_view_timeout_stop p1" b q] ch_phases_sends [of E "ch_view_timeout_stop p1" b q] ph
      by simp_all
    from ch_cast_vote_cases [OF c] consider "q = []" "ch_view (ch_st p1) = ch_view (ch_st p)"
      | l v gs where "q = Unicast l (ch_bytes E (ChVote v)) # gs" "cv_view_num v = ch_view (ch_st p)"
          "\<forall>st \<in> set gs. \<exists>l g. st = Unicast l (ch_bytes E (ChGeneric g))" "ch_view (ch_st p) < ch_view (ch_st p1)"
      by fastforce
    then show ?thesis
    proof cases
      case 1
      then show ?thesis using p' assms(2,3) by (intro no_vote_leaves) auto
    next
      case 2
      have "w = v" if "sends_vote E ps' w" for w
        using that assms(2,3) 2(1,3) p'(2) by (fastforce simp: sends_vote_def votes_coded_def)
      then show ?thesis using 2(2,4) p'(1) by (auto simp: votes_leave_view_def)
    qed
  next
    case False
    with assms(1) show ?thesis by (intro quiet) (auto simp: replica_handle_generic_def split: option.splits if_splits)
  qed
qed

lemma newview_generic_votes:
  assumes "handle_newview_generic E p g me = Some (p', ps)" "votes_coded E"
  shows "votes_leave_view E p p' ps"
  using assms
  by (intro no_vote_leaves) (auto simp: handle_newview_generic_def bind_eq_Some_conv Let_def split: if_splits
      dest!: ch_next_view_cases)

lemma votes_leave_view_upd:
  "votes_leave_view E (p\<lparr>ch_taken_requests := a\<rparr>) p' ps = votes_leave_view E p p' ps"
  "votes_leave_view E (p\<lparr>ch_taken_requests := a, ch_request_buffer := b\<rparr>) p' ps = votes_leave_view E p p' ps"
  "votes_leave_view E (p\<lparr>ch_consensus_node_pks := k\<rparr>) p' ps = votes_leave_view E p p' ps"
  by (simp_all add: votes_leave_view_def)

lemma handle_generic_votes:
  assumes "handle_generic E p g me = Some (p', ps)" "votes_coded E"
    "set (sends ps') \<subseteq> insert (Broadcast m) (set (sends ps))"
  shows "votes_leave_view E p p' ps'"
proof (cases "g_block g")
  case None
  with assms(1) have h: "handle_newview_generic E p g me = Some (p', ps)" by (simp add: handle_generic_def)
  then have "sends ps = []" by (auto simp: handle_newview_generic_def bind_eq_Some_conv Let_def split: if_splits)
  then show ?thesis
    using newview_generic_votes [OF h assms(2)] assms(2,3)
    by (intro no_vote_leaves) (auto simp: votes_leave_view_def)
next
  case (Some b)
  let ?p = "p\<lparr>ch_taken_requests := insert (bincode_request E \<lparr>cmd = cb_cmd b\<rparr>) (ch_taken_requests p)\<rparr>"
  show ?thesis
  proof (cases "ch_view (ch_st p) = g_view_num g")
    case True
    with assms(1) Some have "replica_handle_generic E ?p g me = Some (p', ps)" by (simp add: handle_generic_def)
    from replica_votes [OF this assms(2,3)] show ?thesis by (simp add: votes_leave_view_upd)
  next
    case False
    with assms Some show ?thesis by (intro no_vote_leaves) (auto simp: handle_generic_def)
  qed
qed

lemma ch_handle_request_cases:
  assumes "ch_handle_request E p r peer = Some (p', ps)"
  shows "\<exists>g data b. handle_generic E (p\<lparr>ch_taken_requests := insert (bincode_request E r) (ch_taken_requests p),
      ch_request_buffer := ch_request_buffer p @ [ch_get_request_hash E r]\<rparr>) g peer = Some (p', data) \<and>
    set (sends ps) \<subseteq> insert (Broadcast b) (set (sends data))"
proof -
  from assms obtain g data q where h: "handle_generic E (p\<lparr>ch_taken_requests := insert (bincode_request E r) (ch_taken_requests p),
      ch_request_buffer := ch_request_buffer p @ [ch_get_request_hash E r]\<rparr>) g peer = Some (p', data)"
    and ps: "ps = (case data of ContinueExecute msgs \<Rightarrow> ContinueExecute ([Broadcast q] @ msgs)
      | Complete r msgs \<Rightarrow> Complete r ([Broadcast q] @ msgs) | _ \<Rightarrow> ContinueExecute [])"
    by (fastforce simp: ch_handle_request_def bind_eq_Some_conv Let_def)
  have "set (sends ps) \<subseteq> insert (Broadcast q) (set (sends data))" by (cases data) (auto simp: ps)
  with h show ?thesis by blast
qed

lemma ch_react_votes:
  assumes "ch_react E ident p i = Some (p', ps)" "votes_coded E"
  shows "votes_leave_view E p p' ps"
proof (cases i)
  case ChTimedOut
  with assms show ?thesis
    by (intro no_vote_leaves) (auto simp: ch_view_timeout_handler_def bind_eq_Some_conv dest!: ch_next_view_cases)
next
  case (ChDeliver msg order)
  with assms(1) obtain m where m: "ch_handle_message_type E (peer_to_bytes E ident) order p m = Some (p', ps)"
    by (auto simp: ch_message_handler_def bind_eq_Some_conv)
  show ?thesis
  proof (cases m)
    case (ChGeneric g)
    with m obtain peer where "handle_generic E p g peer = Some (p', ps)" by (auto simp: bind_eq_Some_conv)
    from handle_generic_votes [OF this assms(2), of ps] show ?thesis by auto
  next
    case (ChRequest r)
    with m obtain peer where "ch_handle_request E p r peer = Some (p', ps)" by (auto simp: bind_eq_Some_conv)
    from ch_handle_request_cases [OF this] obtain g data b where
      h: "handle_generic E (p\<lparr>ch_taken_requests := insert (bincode_request E r) (ch_taken_requests p),
          ch_request_buffer := ch_request_buffer p @ [ch_get_request_hash E r]\<rparr>) g peer = Some (p', data)"
      and ps: "set (sends ps) \<subseteq> insert (Broadcast b) (set (sends data))"
      by blast
    from handle_generic_votes [OF h assms(2) ps] show ?thesis by (simp add: votes_leave_view_upd)
  next
    case (ChVote v)
    with m assms(2) show ?thesis
      by (intro no_vote_leaves) (auto simp: handle_vote_def bind_eq_Some_conv Let_def split: if_splits)
  next
    case (ChConsensusNodePKsInfo k)
    with m assms(2) show ?thesis
      by (intro no_vote_leaves) (auto simp: ch_storage_consensus_node_pk_def bind_eq_Some_conv dest!: ch_next_view_cases)
  qed (use m assms(2) in \<open>auto simp: bind_eq_Some_conv ch_storage_tbls_key_def intro!: no_vote_leaves\<close>)
qed

lemma run_votes_later:
  "run_handler (ch_react E ident) p is = Some (p', outs) \<Longrightarrow> votes_coded E \<Longrightarrow> ps \<in> set outs \<Longrightarrow> sends_vote E ps v \<Longrightarrow>
   ch_view (ch_st p) \<le> cv_view_num v"
proof (induction "is" arbitrary: p outs)
  case (Cons i "is")
  from Cons.prems(1) obtain p1 out outs' where s: "ch_react E ident p i = Some (p1, out)"
    and r: "run_handler (ch_react E ident) p1 is = Some (p', outs')" and outs: "outs = out # outs'"
    by (auto simp: bind_eq_Some_conv)
  note ok = ch_react_votes [OF s Cons.prems(2)]
  show ?case
  proof (cases "ps \<in> set outs'")
    case True
    from Cons.IH [OF r Cons.prems(2) True Cons.prems(4)] ok show ?thesis by (auto simp: votes_leave_view_def)
  next
    case False
    with Cons.prems(3,4) ok show ?thesis by (auto simp: outs votes_leave_view_def)
  qed
qed simp

text \<open>
  C11. A node sends at most one vote per view: whatever messages and timeouts it reacts to, two votes
  of the same view that it sends are the same vote.
\<close>
theorem votes_once_per_view:
  assumes "votes_coded E" "run_handler (ch_react E ident) p is = Some (p', outs)"
    and "ps \<in> set outs" "sends_vote E ps v" "ps' \<in> set outs" "sends_vote E ps' w" "cv_view_num v = cv_view_num w"
  shows "v = w"
  using assms(2-7)
proof (induction "is" arbitrary: p outs)
  case (Cons i "is")
  from Cons.prems(1) obtain p1 out outs' where s: "ch_react E ident p i = Some (p1, out)"
    and r: "run_handler (ch_react E ident) p1 is = Some (p', outs')" and outs: "outs = out # outs'"
    by (auto simp: bind_eq_Some_conv)
  note ok = ch_react_votes [OF s assms(1)]
  have less: "cv_view_num v1 < cv_view_num v2" if "sends_vote E out v1" "ps2 \<in> set outs'" "sends_vote E ps2 v2" for v1 v2 ps2
  proof -
    from ok that(1) have "cv_view_num v1 = ch_view (ch_st p)" "ch_view (ch_st p) < ch_view (ch_st p1)"
      unfolding votes_leave_view_def by blast+
    with run_votes_later [OF r assms(1) that(2,3)] show ?thesis by (metis order.strict_trans2)
  qed
  consider "ps \<in> set outs'" "ps' \<in> set outs'" | "ps = out" "ps' \<in> set outs'" | "ps \<in> set outs'" "ps' = out"
    | "ps = out" "ps' = out"
    using Cons.prems(2,4) outs by auto
  then show ?case
  proof cases
    case 1
    with Cons.IH [OF r] Cons.prems(3,5,6) show ?thesis by blast
  next
    case 2
    with less [of v ps' w] Cons.prems(3,5,6) show ?thesis by simp
  next
    case 3
    with less [of w ps v] Cons.prems(3,5,6) show ?thesis by simp
  next
    case 4
    with ok Cons.prems(3,5) show ?thesis unfolding votes_leave_view_def by blast
  qed
qed simp

subsection \<open>Unverified certificates\<close>

text \<open>A chain of certificates without any signature on top of a command.\<close>

definition forged_block :: "'a ch_ext_scheme \<Rightarrow> u64 \<Rightarrow> string \<Rightarrow> chain_block \<Rightarrow> chain_block" where
  "forged_block E v c b = ChainBlock c (ch_get_block_hash E b) (Some (ChainQC v b None))"

lemma forged_extends: "extends E (forged_block E v c b) b"
  by (simp add: extends_def forged_block_def)

text \<open>
  Certificates are never verified by a replica: a single proposal of its view, by any sender, with
  three made-up ancestors and no signature at all makes it execute any command, provided
  the made-up view exceeds its lock. It loses its lock to the made-up one.
\<close>
theorem forged_chain_is_executed:
  assumes lock: "\<And>l. ch_locked_qc (ch_st p) = Some l \<Longrightarrow> cqc_view_num l < v" and v: "0 < v"
    and key: "ch_keypair p = None \<or> ch_consensus_node_pks p (peer_to_bytes E me) \<noteq> None"
    and leaders: "peer_from_bytes E (next_leader (ch_st p)) = Some me" "peer_from_bytes E (current_leader (ch_st p)) \<noteq> None"
    and b4: "b4 = ChainBlock evil '''' None"
    and b1: "b1 = forged_block E v '''' (forged_block E v '''' (forged_block E v '''' b4))"
  shows "\<exists>p' q. handle_generic E p \<lparr>g_view_num = ch_view (ch_st p), g_block = Some b1, g_justify = None, g_from_peer_id = src\<rparr> me =
      Some (p', Complete \<lparr>cmd = evil\<rparr> q) \<and> ch_locked_qc (ch_st p') = Some (ChainQC v (forged_block E v '''' b4) None)"
proof -
  let ?p = "p\<lparr>ch_taken_requests := insert (bincode_request E \<lparr>cmd = ''''\<rparr>) (ch_taken_requests p)\<rparr>"
  let ?g = "\<lparr>g_view_num = ch_view (ch_st p), g_block = Some b1, g_justify = None, g_from_peer_id = src\<rparr>"
  have safe: "ch_safe_node E ?p b1 (cb_justify b1)"
    using lock v by (auto simp: ch_safe_node_def b1 forged_block_def split: option.splits)
  from key leaders obtain p1 q where c: "ch_cast_vote E ?p b1 me = Some (p1, q)"
    by (cases "ch_keypair p") (auto simp: ch_cast_vote_def Let_def)
  obtain p' ps where ph: "ch_phases E (ch_view_timeout_stop p1) b1 q = (p', ps)" by fastforce
  have ext: "extends E b1 (forged_block E v '''' (forged_block E v '''' b4))"
    "extends E (forged_block E v '''' (forged_block E v '''' b4)) (forged_block E v '''' b4)"
    "extends E (forged_block E v '''' b4) b4"
    by (simp_all add: b1 forged_extends)
  then have "ps = Complete \<lparr>cmd = evil\<rparr> q"
    using ch_phases_rule(1) [OF ph] extends_unique [of E] by (metis b4 chain_block.sel(1))
  moreover have "ch_locked_qc (ch_st p') = Some (ChainQC v (forged_block E v '''' b4) None)"
    using ch_phases_rule(3) [OF ph ext(1,2)] by (simp add: forged_block_def)
  moreover have "handle_generic E p ?g me = Some (p', ps)"
    using safe c ph by (simp add: handle_generic_def replica_handle_generic_def b1 forged_block_def Let_def)
  ultimately show ?thesis by blast
qed

text \<open>
  The lock can go back: a replica locked on a certificate accepts a proposal with a newer
  certificate whose block carries an older one, and is locked on the older one afterwards.
\<close>
theorem lock_regresses:
  assumes "ch_locked_qc (ch_st p) = Some l" "cqc_view_num old < cqc_view_num l" "cqc_view_num l < v"
    and b2: "b2 = ChainBlock c2 (ch_get_block_hash E (cqc_block old)) (Some old)"
    and b1: "b1 = ChainBlock c1 (ch_get_block_hash E b2) (Some (ChainQC v b2 sig))"
    and "replica_handle_generic E p g me = Some (p', ps)" "g_block g = Some b1"
  shows "ch_locked_qc (ch_st p') = Some old"
proof -
  have ext: "extends E b1 b2" "extends E b2 (cqc_block old)" by (simp_all add: extends_def b1 b2)
  have "ch_safe_node E p b1 (cb_justify b1)" using assms(1,3) by (simp add: ch_safe_node_def b1)
  with assms(6,7) obtain p1 q where "ch_phases E (ch_view_timeout_stop p1) b1 q = (p', ps)"
    by (auto simp: replica_handle_generic_def bind_eq_Some_conv)
  from ch_phases_rule(3) [OF this ext] show ?thesis by (simp add: b2)
qed

subsection \<open>The next leader collects votes and new views\<close>

text \<open>
  One round at the next leader: the votes of the nodes for a block and their new view messages,
  in any interleaving.
\<close>

record ch_round =
  rd_view :: u64
  rd_block :: chain_block
  rd_share :: "bytes \<Rightarrow> bytes"
  rd_justify :: "bytes \<Rightarrow> ch_qc option"

datatype ch_event = VoteOf bytes | NewViewOf bytes

definition vote_of :: "ch_round \<Rightarrow> bytes \<Rightarrow> ch_vote" where
  "vote_of c x = \<lparr>cv_view_num = rd_view c, cv_block = rd_block c, cv_partial_signature = rd_share c x, cv_from_peer_id = x\<rparr>"

definition newview_of :: "ch_round \<Rightarrow> bytes \<Rightarrow> generic" where
  "newview_of c x = \<lparr>g_view_num = rd_view c, g_block = None, g_justify = rd_justify c x, g_from_peer_id = x\<rparr>"

fun ch_event_step :: "'a ch_ext_scheme \<Rightarrow> peer_id \<Rightarrow> ch_round \<Rightarrow> ch_protocol \<Rightarrow> ch_event \<Rightarrow> (ch_protocol \<times> phase_state) option" where
  "ch_event_step E me c p (VoteOf x) = handle_vote E p (vote_of c x)"
| "ch_event_step E me c p (NewViewOf x) = handle_generic E p (newview_of c x) me"

definition vote_senders :: "ch_event list \<Rightarrow> bytes list" where
  "vote_senders es = List.map_filter (\<lambda>e. case e of VoteOf x \<Rightarrow> Some x | _ \<Rightarrow> None) es"

definition view_senders :: "ch_event list \<Rightarrow> bytes list" where
  "view_senders es = List.map_filter (\<lambda>e. case e of NewViewOf x \<Rightarrow> Some x | _ \<Rightarrow> None) es"

lemma senders_simps [simp]:
  "vote_senders [] = []" "vote_senders (es @ [VoteOf x]) = vote_senders es @ [x]" "vote_senders (es @ [NewViewOf x]) = vote_senders es"
  "view_senders [] = []" "view_senders (es @ [NewViewOf x]) = view_senders es @ [x]" "view_senders (es @ [VoteOf x]) = view_senders es"
  by (simp_all add: vote_senders_def view_senders_def map_filter_def)

lemma set_senders: "set (vote_senders es) = {x. VoteOf x \<in> set es}" "set (view_senders es) = {x. NewViewOf x \<in> set es}"
  by (force simp: vote_senders_def view_senders_def map_filter_def split: ch_event.splits)+

lemma distinct_senders: "distinct es \<Longrightarrow> distinct (vote_senders es)" "distinct es \<Longrightarrow> distinct (view_senders es)"
  by (induction es) (auto simp: vote_senders_def view_senders_def map_filter_def split: ch_event.splits)

definition filed_shares :: "ch_protocol \<Rightarrow> string \<Rightarrow> (u64 \<times> bytes) list" where
  "filed_shares p h = (case ch_message_signatures (ch_lg p) h of Some l \<Rightarrow> l | None \<Rightarrow> [])"

text \<open>
  What is needed of the nodes and of the leader: registered keys with distinct numbers, valid shares, a key of
  its own, and that enough shares combine (the documented behaviour of the threshold scheme).
\<close>

definition round_ok :: "'a ch_ext_scheme \<Rightarrow> ch_round \<Rightarrow> ch_protocol \<Rightarrow> bytes set \<Rightarrow> nat \<Rightarrow> bool" where
  "round_ok E c p X t \<longleftrightarrow>
     (let h = get_generic_hash E GENERIC (rd_view c) (rd_block c); num = (\<lambda>x. pki_number (the (ch_consensus_node_pks p x)))
      in t = 2 * unat (ch_fault_tolerance_count (ch_st p)) + 1 \<and> t < 2 ^ 64 \<and>
        (\<forall>x \<in> X. \<exists>i. ch_consensus_node_pks p x = Some i \<and>
           bls_verify_share E (pki_public_key i) (rd_share c x) (as_bytes h)) \<and>
        inj_on num X \<and> fst ` set (filed_shares p h) \<inter> num ` X = {} \<and> distinct (map fst (filed_shares p h)) \<and>
        (\<exists>k. ch_keypair p = Some k \<and> (\<forall>l. distinct (map fst l) \<and> t \<le> length l \<longrightarrow> bls_combine E (pk_set k) (map_of l) \<noteq> None)))"

text \<open>The leader after the events seen so far, short of a quorum of new views.\<close>

definition collecting :: "'a ch_ext_scheme \<Rightarrow> ch_round \<Rightarrow> nat \<Rightarrow> ch_protocol \<Rightarrow> ch_event list \<Rightarrow> ch_protocol \<Rightarrow> bool" where
  "collecting E c t p0 seen p \<longleftrightarrow>
     (let h = get_generic_hash E GENERIC (rd_view c) (rd_block c); num = (\<lambda>x. pki_number (the (ch_consensus_node_pks p0 x)))
      in (\<exists>g lg. p = p0\<lparr>ch_st := (ch_st p0)\<lparr>generic_qc := g\<rparr>, ch_lg := lg\<rparr> \<and>
           (if t \<le> length (filed_shares p h) then \<exists>sig. g = Some (ChainQC (rd_view c) (rd_block c) (Some sig))
            else g = generic_qc (ch_st p0))) \<and>
         filed_shares p h = filed_shares p0 h @ map (\<lambda>x. (num x, rd_share c x)) (vote_senders seen) \<and>
         bucket (generics (ch_lg p)) (rd_view c) = map (newview_of c) (view_senders seen))"

lemma AList_update_new: "k \<notin> fst ` set l \<Longrightarrow> AList.update k v l = l @ [(k, v)]"
  by (induction l) auto

lemma filed_record:
  "filed_shares (p\<lparr>ch_lg := ch_record_messgae_partial_signature (ch_lg p) h n s\<rparr>) h = AList.update n s (filed_shares p h)"
  by (simp add: filed_shares_def ch_record_messgae_partial_signature_def split: option.splits)

lemma record_signature_generics [simp]:
  "generics (ch_record_messgae_partial_signature l h n s) = generics l"
  by (simp add: ch_record_messgae_partial_signature_def split: option.splits)

lemma record_generic_filed [simp]:
  "filed_shares (p\<lparr>ch_lg := record_generic (ch_lg p) v g\<rparr>) h = filed_shares p h"
  by (simp add: filed_shares_def record_generic_def)

lemma threshold_sums:
  assumes "t = 2 * unat f + 1" "t < 2 ^ 64"
  shows "u64_mul 2 f = Some (2 * f)" "u64_add (2 * f) 1 = Some (2 * f + 1)" "unat (2 * f + 1) = t"
proof -
  have m: "u64_mul 2 f = Some (2 * f)" using assms by (simp add: u64_mul_def)
  then have u: "unat (2 * f) = 2 * unat f" using u64_mul_unat [OF m] by simp
  then show a: "u64_add (2 * f) 1 = Some (2 * f + 1)" using assms by (simp add: u64_add_def)
  show "u64_mul 2 f = Some (2 * f)" by (rule m)
  show "unat (2 * f + 1) = t" using u64_add_unat [OF a] u assms by simp
qed


lemma collectingI:
  assumes "p = p0\<lparr>ch_st := (ch_st p0)\<lparr>generic_qc := g\<rparr>, ch_lg := lg\<rparr>"
    and "if t \<le> length (filed_shares p (get_generic_hash E GENERIC (rd_view c) (rd_block c)))
         then \<exists>sig. g = Some (ChainQC (rd_view c) (rd_block c) (Some sig)) else g = generic_qc (ch_st p0)"
    and "filed_shares p (get_generic_hash E GENERIC (rd_view c) (rd_block c)) =
         filed_shares p0 (get_generic_hash E GENERIC (rd_view c) (rd_block c)) @
         map (\<lambda>x. (pki_number (the (ch_consensus_node_pks p0 x)), rd_share c x)) (vote_senders seen)"
    and "bucket (generics lg) (rd_view c) = map (newview_of c) (view_senders seen)"
  shows "collecting E c t p0 seen p"
proof -
  have "\<exists>g lg. p = p0\<lparr>ch_st := (ch_st p0)\<lparr>generic_qc := g\<rparr>, ch_lg := lg\<rparr> \<and>
      (if t \<le> length (filed_shares p (get_generic_hash E GENERIC (rd_view c) (rd_block c)))
       then \<exists>sig. g = Some (ChainQC (rd_view c) (rd_block c) (Some sig)) else g = generic_qc (ch_st p0))"
    using assms(1,2) by blast
  moreover have "ch_lg p = lg" using assms(1) by simp
  ultimately show ?thesis using assms(3,4) by (simp add: collecting_def Let_def)
qed

lemma vote_event:
  assumes ok: "round_ok E c p0 X t" and coll: "collecting E c t p0 seen p"
    and x: "x \<in> X" "x \<notin> set (vote_senders seen)" "set (vote_senders seen) \<subseteq> X" "distinct (vote_senders seen)"
  shows "\<exists>p'. handle_vote E p (vote_of c x) = Some (p', ContinueExecute []) \<and> collecting E c t p0 (seen @ [VoteOf x]) p'"
proof -
  define h where "h = get_generic_hash E GENERIC (rd_view c) (rd_block c)"
  define num where "num = (\<lambda>x. pki_number (the (ch_consensus_node_pks p0 x)))"
  from ok have t: "t = 2 * unat (ch_fault_tolerance_count (ch_st p0)) + 1" "t < 2 ^ 64"
    and inj: "inj_on num X" "fst ` set (filed_shares p0 h) \<inter> num ` X = {}" "distinct (map fst (filed_shares p0 h))"
    by (simp_all add: round_ok_def Let_def h_def num_def)
  from ok x(1) obtain i where i: "ch_consensus_node_pks p0 x = Some i"
    "bls_verify_share E (pki_public_key i) (rd_share c x) (as_bytes h)"
    by (auto simp: round_ok_def Let_def h_def)
  from ok obtain k where k: "ch_keypair p0 = Some k"
    "\<And>l. distinct (map fst l) \<Longrightarrow> t \<le> length l \<Longrightarrow> bls_combine E (pk_set k) (map_of l) \<noteq> None"
    by (auto simp: round_ok_def Let_def)
  from coll obtain g lg where p: "p = p0\<lparr>ch_st := (ch_st p0)\<lparr>generic_qc := g\<rparr>, ch_lg := lg\<rparr>"
    and g: "if t \<le> length (filed_shares p h) then \<exists>sig. g = Some (ChainQC (rd_view c) (rd_block c) (Some sig)) else g = generic_qc (ch_st p0)"
    and sh: "filed_shares p h = filed_shares p0 h @ map (\<lambda>x. (num x, rd_share c x)) (vote_senders seen)"
    and gen: "bucket (generics (ch_lg p)) (rd_view c) = map (newview_of c) (view_senders seen)"
    by (auto simp: collecting_def Let_def h_def num_def)
  define p1 where "p1 = p\<lparr>ch_lg := ch_record_messgae_partial_signature (ch_lg p) h (num x) (rd_share c x)\<rparr>"
  have "num x \<notin> fst ` set (filed_shares p h)"
    using inj x by (fastforce simp: sh dest: inj_onD)
  then have sh1: "filed_shares p1 h = filed_shares p h @ [(num x, rd_share c x)]"
    by (simp add: p1_def filed_record AList_update_new)
  have len: "ch_get_partial_signatures_count_by_message_hash (ch_lg p1) h = length (filed_shares p1 h)"
    by (simp add: ch_get_partial_signatures_count_by_message_hash_def filed_shares_def split: option.splits)
  have get: "ch_get_partial_signatures_by_message_hash (ch_lg p1) h = Some (filed_shares p1 h)"
    by (auto simp: ch_get_partial_signatures_by_message_hash_def filed_shares_def p1_def
        ch_record_messgae_partial_signature_def split: option.splits)
  have vote: "handle_vote E p (vote_of c x) =
      (if length (filed_shares p1 h) \<noteq> t then Some (p1, ContinueExecute [])
       else do {
         sig \<leftarrow> bls_combine E (pk_set k) (map_of (filed_shares p1 h));
         Some (p1\<lparr>ch_st := (ch_st p1)\<lparr>generic_qc := Some (ChainQC (rd_view c) (rd_block c) (Some sig))\<rparr>\<rparr>, ContinueExecute [])
       })"
    using i k(1) threshold_sums [OF t] get len
    by (simp add: handle_vote_def vote_of_def h_def [symmetric] p1_def num_def p Let_def
        combine_partial_signatures_def ch_set_signature_def ch_qc_new_def)
  have p1: "p1 = p0\<lparr>ch_st := (ch_st p0)\<lparr>generic_qc := g\<rparr>, ch_lg := ch_lg p1\<rparr>" by (simp add: p1_def p)
  have gen1: "bucket (generics (ch_lg p1)) (rd_view c) = map (newview_of c) (view_senders (seen @ [VoteOf x]))"
    using gen by (simp add: p1_def)
  have sh2: "filed_shares p1 h = filed_shares p0 h @ map (\<lambda>x. (num x, rd_share c x)) (vote_senders (seen @ [VoteOf x]))"
    by (simp add: sh1 sh)
  show ?thesis
  proof (cases "length (filed_shares p1 h) = t")
    case False
    with g have "if t \<le> length (filed_shares p1 h) then \<exists>sig. g = Some (ChainQC (rd_view c) (rd_block c) (Some sig))
        else g = generic_qc (ch_st p0)"
      by (auto simp: sh1 not_less_eq_eq split: if_splits)
    from collectingI [OF p1 this [unfolded h_def] sh2 [unfolded h_def num_def] gen1] vote False show ?thesis by auto
  next
    case True
    have "distinct (map fst (filed_shares p1 h))"
    proof -
      have "inj_on num (set (vote_senders seen @ [x]))" by (rule inj_on_subset [OF inj(1)]) (use x(1,3) in auto)
      moreover have "distinct (vote_senders seen @ [x])" using x(2,4) by simp
      ultimately have "distinct (map num (vote_senders seen @ [x]))" using distinct_map by blast
      moreover have "num ` set (vote_senders seen @ [x]) \<subseteq> num ` X" using x(1,3) by auto
      then have "fst ` set (filed_shares p0 h) \<inter> num ` set (vote_senders seen @ [x]) = {}" using inj(2) by blast
      moreover have "map fst (filed_shares p1 h) = map fst (filed_shares p0 h) @ map num (vote_senders seen @ [x])"
        by (simp add: sh2 comp_def)
      ultimately show ?thesis using inj(3) by (simp only: distinct_append set_map simp_thms)
    qed
    from k(2) [OF this] True obtain sig where sig: "bls_combine E (pk_set k) (map_of (filed_shares p1 h)) = Some sig" by auto
    let ?q = "Some (ChainQC (rd_view c) (rd_block c) (Some sig))"
    let ?p = "p1\<lparr>ch_st := (ch_st p1)\<lparr>generic_qc := ?q\<rparr>\<rparr>"
    have "?p = p0\<lparr>ch_st := (ch_st p0)\<lparr>generic_qc := ?q\<rparr>, ch_lg := ch_lg p1\<rparr>" by (simp add: p1_def p)
    moreover have "filed_shares ?p h = filed_shares p1 h" by (simp add: filed_shares_def)
    ultimately have "collecting E c t p0 (seen @ [VoteOf x]) ?p"
      using True sh2 gen1 by (intro collectingI) (auto simp: h_def num_def)
    with vote True sig show ?thesis by auto
  qed
qed

lemma newview_event:
  assumes ok: "round_ok E c p0 X t" and coll: "collecting E c t p0 seen p" and n: "Suc (length (view_senders seen)) \<noteq> t"
  shows "\<exists>p'. handle_generic E p (newview_of c x) me = Some (p', ContinueExecute []) \<and>
    collecting E c t p0 (seen @ [NewViewOf x]) p'"
proof -
  from ok have t: "t = 2 * unat (ch_fault_tolerance_count (ch_st p0)) + 1" "t < 2 ^ 64"
    by (simp_all add: round_ok_def Let_def)
  let ?p = "p\<lparr>ch_lg := record_generic (ch_lg p) (rd_view c) (newview_of c x)\<rparr>"
  have "handle_generic E p (newview_of c x) me = Some (?p, ContinueExecute [])"
    using coll n threshold_sums [OF t]
    by (auto simp: collecting_def Let_def handle_generic_def newview_of_def handle_newview_generic_def
        get_generics_count_by_view_def record_generic_def)
  moreover
  from coll obtain g lg where p: "p = p0\<lparr>ch_st := (ch_st p0)\<lparr>generic_qc := g\<rparr>, ch_lg := lg\<rparr>"
    and rest: "if t \<le> length (filed_shares p (get_generic_hash E GENERIC (rd_view c) (rd_block c)))
         then \<exists>sig. g = Some (ChainQC (rd_view c) (rd_block c) (Some sig)) else g = generic_qc (ch_st p0)"
    "filed_shares p (get_generic_hash E GENERIC (rd_view c) (rd_block c)) =
         filed_shares p0 (get_generic_hash E GENERIC (rd_view c) (rd_block c)) @
         map (\<lambda>x. (pki_number (the (ch_consensus_node_pks p0 x)), rd_share c x)) (vote_senders seen)"
    "bucket (generics lg) (rd_view c) = map (newview_of c) (view_senders seen)"
    by (auto simp: collecting_def Let_def)
  have "collecting E c t p0 (seen @ [NewViewOf x]) ?p"
  proof (rule collectingI [where g = g and lg = "record_generic lg (rd_view c) (newview_of c x)"])
    show "?p = p0\<lparr>ch_st := (ch_st p0)\<lparr>generic_qc := g\<rparr>, ch_lg := record_generic lg (rd_view c) (newview_of c x)\<rparr>"
      by (simp add: p)
  qed (use rest in \<open>simp_all only: record_generic_filed senders_simps\<close>, simp add: record_generic_def)
  ultimately show ?thesis by blast
qed

text \<open>
  A round without timeouts: every node whose new view message arrives has voted for the block of the round, and
  as the messages of one node arrive in the order sent, its vote has arrived before.
\<close>

definition in_step :: "ch_event list \<Rightarrow> bool" where
  "in_step es \<longleftrightarrow> distinct es \<and>
     (\<forall>i < length es. case es ! i of NewViewOf x \<Rightarrow> VoteOf x \<in> set (take i es) | VoteOf x \<Rightarrow> True)"

lemma in_step_split: "in_step (xs @ NewViewOf x # ys) \<Longrightarrow> VoteOf x \<in> set xs"
  unfolding in_step_def by (auto dest: spec [of _ "length xs"])

lemma in_step_prefix: "in_step (xs @ ys) \<Longrightarrow> in_step xs"
proof (unfold in_step_def, intro conjI allI impI)
  fix i assume *: "distinct (xs @ ys) \<and> (\<forall>i < length (xs @ ys).
      case (xs @ ys) ! i of NewViewOf x \<Rightarrow> VoteOf x \<in> set (take i (xs @ ys)) | VoteOf x \<Rightarrow> True)" and "i < length xs"
  then have "case (xs @ ys) ! i of NewViewOf x \<Rightarrow> VoteOf x \<in> set (take i (xs @ ys)) | VoteOf x \<Rightarrow> True" by simp
  with \<open>i < length xs\<close> show "case xs ! i of NewViewOf x \<Rightarrow> VoteOf x \<in> set (take i xs) | VoteOf x \<Rightarrow> True"
    by (cases "xs ! i") (simp_all add: nth_append)
qed simp

lemma in_step_senders:
  assumes "in_step es"
  shows "set (view_senders es) \<subseteq> set (vote_senders es)"
proof
  fix x assume "x \<in> set (view_senders es)"
  then obtain xs ys where "es = xs @ NewViewOf x # ys" by (auto simp: set_senders in_set_conv_decomp)
  with assms show "x \<in> set (vote_senders es)" by (auto simp: set_senders dest: in_step_split)
qed

lemma events_collect:
  assumes ok: "round_ok E c p0 X t"
  shows "collecting E c t p0 seen p \<Longrightarrow> distinct (seen @ es) \<Longrightarrow> set (vote_senders (seen @ es)) \<subseteq> X \<Longrightarrow>
    length (view_senders (seen @ es)) < t \<Longrightarrow>
    \<exists>p' outs. run_handler (ch_event_step E me c) p es = Some (p', outs) \<and> collecting E c t p0 (seen @ es) p'"
proof (induction es arbitrary: seen p)
  case Nil
  then show ?case by simp
next
  case (Cons e es)
  have split: "seen @ e # es = (seen @ [e]) @ es" by simp
  have dist: "distinct (vote_senders seen)" using Cons.prems(2) distinct_senders(1) [of seen] by simp
  have "\<exists>p1. ch_event_step E me c p e = Some (p1, ContinueExecute []) \<and> collecting E c t p0 (seen @ [e]) p1"
  proof (cases e)
    case (VoteOf x)
    have "x \<in> X" "x \<notin> set (vote_senders seen)" "set (vote_senders seen) \<subseteq> X"
      using Cons.prems(2,3) by (auto simp: VoteOf set_senders)
    from vote_event [OF ok Cons.prems(1) this dist] show ?thesis by (simp add: VoteOf)
  next
    case (NewViewOf x)
    have "length (view_senders (seen @ [e])) \<le> length (view_senders (seen @ e # es))"
      unfolding split by (simp add: view_senders_def map_filter_def)
    with Cons.prems(4) have "Suc (length (view_senders seen)) \<noteq> t" by (simp add: NewViewOf)
    from newview_event [OF ok Cons.prems(1) this] show ?thesis by (simp add: NewViewOf)
  qed
  then obtain p1 where p1: "ch_event_step E me c p e = Some (p1, ContinueExecute [])" "collecting E c t p0 (seen @ [e]) p1"
    by blast
  from Cons.IH [OF p1(2)] Cons.prems(2-4) obtain p' outs where
    "run_handler (ch_event_step E me c) p1 es = Some (p', outs)" "collecting E c t p0 (seen @ e # es) p'"
    unfolding split by blast
  with p1(1) show ?case by auto
qed

lemma ch_high_qc_loop_keeps:
  "(\<And>g j. g \<in> set gs \<Longrightarrow> g_justify g = Some j \<Longrightarrow> cqc_view_num j \<le> cqc_view_num q) \<Longrightarrow>
   ch_high_qc_loop (Some q) gs = Some q"
proof (induction gs)
  case (Cons g gs)
  have "ch_high_qc_loop (Some q) gs = Some q" by (rule Cons.IH) (auto intro: Cons.prems)
  then show ?case using Cons.prems [of g] by (fastforce split: option.splits)
qed simp

lemma ch_change_leader_same:
  "ch_pk_consensus_nodes p' = ch_pk_consensus_nodes p \<Longrightarrow> ch_change_leader p v = Some pl \<Longrightarrow>
   ch_change_leader p' v = Some (p'\<lparr>ch_st := (ch_st p')\<lparr>current_leader := current_leader (ch_st pl),
     next_leader := next_leader (ch_st pl)\<rparr>\<rparr>)"
  by (auto simp: ch_change_leader_def bind_eq_Some_conv Let_def)

text \<open>The last new view of a quorum takes the certificate of the round and starts the next view.\<close>

lemma last_newview:
  assumes ok: "round_ok E c p0 X t" and coll: "collecting E c t p0 seen p" and view: "ch_view (ch_st p0) = rd_view c"
    and n: "Suc (length (view_senders seen)) = t" and full: "t \<le> length (filed_shares p (get_generic_hash E GENERIC (rd_view c) (rd_block c)))"
    and old: "\<forall>z \<in> set (view_senders seen @ [x]). \<forall>j. rd_justify c z = Some j \<longrightarrow> cqc_view_num j \<le> rd_view c"
    and leader: "u64_add (rd_view c) 1 = Some v'" "ch_change_leader p0 v' = Some pl" "current_leader (ch_st pl) = peer_to_bytes E me"
  shows "\<exists>p' sig. handle_generic E p (newview_of c x) me = Some (p', Over None) \<and> ch_view (ch_st p') = v' \<and>
    current_leader (ch_st p') = peer_to_bytes E me \<and>
    ch_high_qc (ch_st p') = Some (ChainQC (rd_view c) (rd_block c) (Some sig)) \<and> generic_qc (ch_st p') = ch_high_qc (ch_st p')"
proof -
  from ok have t: "t = 2 * unat (ch_fault_tolerance_count (ch_st p0)) + 1" "t < 2 ^ 64"
    by (simp_all add: round_ok_def Let_def)
  from coll full obtain lg sig where
    p: "p = p0\<lparr>ch_st := (ch_st p0)\<lparr>generic_qc := Some (ChainQC (rd_view c) (rd_block c) (Some sig))\<rparr>, ch_lg := lg\<rparr>"
    and gen: "bucket (generics lg) (rd_view c) = map (newview_of c) (view_senders seen)"
    by (auto simp: collecting_def Let_def)
  let ?q = "ChainQC (rd_view c) (rd_block c) (Some sig)"
  let ?gs = "map (newview_of c) (view_senders seen @ [x])"
  have bucket: "generics (record_generic lg (rd_view c) (newview_of c x)) (rd_view c) = Some ?gs"
    using gen by (auto simp: record_generic_def push_bucket_def bucket_def split: option.splits)
  have high: "ch_high_qc_loop (Some ?q) ?gs = Some ?q"
    by (rule ch_high_qc_loop_keeps) (use old in \<open>auto simp: newview_of_def\<close>)
  note change = ch_change_leader_same [OF _ leader(2)]
  have len: "get_generics_count_by_view (record_generic lg (rd_view c) (newview_of c x)) (rd_view c) = t"
    using bucket n by (simp add: get_generics_count_by_view_def bucket_def)
  show ?thesis
    using threshold_sums [OF t] len bucket high change leader view
    by (simp add: handle_generic_def newview_of_def [of c x] handle_newview_generic_def Let_def p
        ch_get_high_qc_by_view_def ch_next_view_def)
qed

text \<open>
  C12. In a round without timeouts the pipeline does not propose without the certificate of the block before.
  Let the next leader be in the view of a block, with no new view message of the view filed and fewer than
  \<open>t = 2f + 1\<close> shares filed for the block, none of them of the nodes of the round. The nodes of the round are
  registered under distinct key numbers; each sends a valid vote for the block and then its new view message,
  whose justification is not newer than the block, and its vote arrives before its new view message (an order
  a node that timed out before voting does not keep). Then, in whatever interleaving between nodes, and provided
  that \<open>t\<close> shares with different numbers combine, the new view message that completes the quorum finds the
  certificate formed: it becomes the high and the generic certificate, and the node enters the next view as its
  leader, told to propose.
\<close>
theorem certificate_precedes_proposal:
  assumes ok: "round_ok E c p X t" and view: "ch_view (ch_st p) = rd_view c"
    and empty: "bucket (generics (ch_lg p)) (rd_view c) = []"
    and few: "length (filed_shares p (get_generic_hash E GENERIC (rd_view c) (rd_block c))) < t"
    and order: "in_step (es @ [NewViewOf y])" and nodes: "set (vote_senders es) \<subseteq> X"
    and quorum: "Suc (length (view_senders es)) = t"
    and old: "\<forall>x \<in> X. \<forall>j. rd_justify c x = Some j \<longrightarrow> cqc_view_num j \<le> rd_view c"
    and leader: "u64_add (rd_view c) 1 = Some v'" "ch_change_leader p v' = Some pl" "current_leader (ch_st pl) = peer_to_bytes E me"
  shows "\<exists>p' outs sig. run_handler (ch_event_step E me c) p (es @ [NewViewOf y]) = Some (p', outs @ [Over None]) \<and>
    ch_view (ch_st p') = v' \<and> ch_is_leader p' (peer_to_bytes E me) \<and>
    ch_high_qc (ch_st p') = Some (ChainQC (rd_view c) (rd_block c) (Some sig)) \<and> generic_qc (ch_st p') = ch_high_qc (ch_st p')"
proof -
  let ?h = "get_generic_hash E GENERIC (rd_view c) (rd_block c)"
  have dist: "distinct es" using order by (simp add: in_step_def)
  have "VoteOf y \<in> set es" using order by (rule in_step_split)
  then have views: "set (view_senders es @ [y]) \<subseteq> set (vote_senders es)"
    using in_step_senders [OF in_step_prefix [OF order]] by (auto simp: set_senders(1))
  have dist_views: "distinct (view_senders es @ [y])"
    using distinct_senders(2) [of "es @ [NewViewOf y]"] order by (simp add: in_step_def)
  have "collecting E c t p [] p"
    by (rule collectingI [where g = "generic_qc (ch_st p)" and lg = "ch_lg p"]) (use few empty in simp_all)
  from events_collect [OF ok this, of es me] dist nodes quorum obtain p1 outs where
    run: "run_handler (ch_event_step E me c) p es = Some (p1, outs)" and coll: "collecting E c t p es p1"
    by auto
  have "t = card (set (view_senders es @ [y]))" using quorum distinct_card [OF dist_views] by simp
  also have "\<dots> \<le> card (set (vote_senders es))" by (rule card_mono [OF _ views]) simp
  also have "\<dots> \<le> length (filed_shares p1 ?h)"
    using coll card_length [of "vote_senders es"] by (auto simp: collecting_def Let_def)
  finally have full: "t \<le> length (filed_shares p1 ?h)" .
  have "\<forall>z \<in> set (view_senders es @ [y]). \<forall>j. rd_justify c z = Some j \<longrightarrow> cqc_view_num j \<le> rd_view c"
    using views nodes old by blast
  from last_newview [OF ok coll view quorum full this leader] obtain p' sig where
    "handle_generic E p1 (newview_of c y) me = Some (p', Over None)" "ch_view (ch_st p') = v'"
    "current_leader (ch_st p') = peer_to_bytes E me"
    "ch_high_qc (ch_st p') = Some (ChainQC (rd_view c) (rd_block c) (Some sig))" "generic_qc (ch_st p') = ch_high_qc (ch_st p')"
    by blast
  moreover from this(1) have "run_handler (ch_event_step E me c) p (es @ [NewViewOf y]) = Some (p', outs @ [Over None])"
    by (intro run_handler_snoc [OF run]) simp
  ultimately show ?thesis by (auto simp: ch_is_leader_def)
qed

subsection \<open>A concrete instance\<close>

text \<open>A prefix-free code of votes, as an instance of the serializer.\<close>

definition prefix_free :: "('a \<Rightarrow> bytes) \<Rightarrow> bool" where
  "prefix_free f \<longleftrightarrow> (\<forall>x y r s. f x @ r = f y @ s \<longrightarrow> x = y \<and> r = s)"

definition enc_nat :: "nat \<Rightarrow> bytes" where
  "enc_nat n = replicate n 1 @ [0]"

fun enc_list :: "('a \<Rightarrow> bytes) \<Rightarrow> 'a list \<Rightarrow> bytes" where
  "enc_list f [] = [0]"
| "enc_list f (x # xs) = 1 # f x @ enc_list f xs"

abbreviation enc_word :: "'n::len word \<Rightarrow> bytes" where "enc_word w \<equiv> enc_nat (unat w)"

abbreviation enc_string :: "string \<Rightarrow> bytes" where "enc_string \<equiv> enc_list (\<lambda>c. enc_nat (of_char c))"

fun enc_block :: "chain_block \<Rightarrow> bytes" where
  "enc_block (ChainBlock c h None) = enc_string c @ enc_string h @ [0]"
| "enc_block (ChainBlock c h (Some (ChainQC v b None))) = enc_string c @ enc_string h @ [1] @ enc_word v @ enc_block b"
| "enc_block (ChainBlock c h (Some (ChainQC v b (Some s)))) =
     enc_string c @ enc_string h @ [2] @ enc_word v @ enc_block b @ enc_list enc_word s"

definition enc_vote :: "ch_vote \<Rightarrow> bytes" where
  "enc_vote v = enc_word (cv_view_num v) @ enc_block (cv_block v) @ enc_list enc_word (cv_partial_signature v) @
     enc_list enc_word (cv_from_peer_id v)"

lemma prefix_freeD: "prefix_free f \<Longrightarrow> f x @ r = f y @ s \<longleftrightarrow> x = y \<and> r = s"
  by (auto simp: prefix_free_def)

lemma enc_nat_append [simp]: "enc_nat m @ r = enc_nat n @ s \<longleftrightarrow> m = n \<and> r = s"
proof (induction m arbitrary: n)
  case 0
  then show ?case by (cases n) (auto simp: enc_nat_def)
next
  case (Suc m)
  then show ?case by (cases n) (auto simp: enc_nat_def)
qed

lemma unat_inject [simp]: "unat v = unat w \<longleftrightarrow> v = w"
  by (simp add: word_unat_eq_iff)

lemma prefix_free_char: "prefix_free (\<lambda>c. enc_nat (of_char (c :: char)))"
  by (simp add: prefix_free_def)

lemma prefix_free_word: "prefix_free (\<lambda>w. enc_word (w :: 'n::len word))"
  by (simp add: prefix_free_def)

lemma enc_list_append:
  assumes "prefix_free f"
  shows "enc_list f xs @ r = enc_list f ys @ s \<longleftrightarrow> xs = ys \<and> r = s"
proof (induction xs arbitrary: ys)
  case Nil
  then show ?case by (cases ys) auto
next
  case (Cons x xs)
  then show ?case by (cases ys) (auto simp: prefix_freeD [OF assms])
qed

lemmas enc_appends = enc_list_append [OF prefix_free_char] enc_list_append [OF prefix_free_word]

lemma enc_block_append [simp]: "enc_block b @ r = enc_block b' @ s \<longleftrightarrow> b = b' \<and> r = s"
proof (induction b arbitrary: b' r s rule: enc_block.induct)
  case (1 c h)
  then show ?case by (cases b' rule: enc_block.cases) (auto simp: enc_appends)
next
  case (2 c h v b)
  then show ?case by (cases b' rule: enc_block.cases) (auto simp: enc_appends)
next
  case (3 c h v b sig)
  then show ?case by (cases b' rule: enc_block.cases) (auto simp: enc_appends)
qed

lemma enc_vote_inject [simp]: "enc_vote v = enc_vote w \<longleftrightarrow> v = w"
  using enc_appends(2) [of "cv_from_peer_id v" "[]" "cv_from_peer_id w" "[]"]
  by (cases v; cases w) (auto simp: enc_vote_def enc_appends)

definition ch_demo_block :: chain_block where
  "ch_demo_block = ChainBlock ''x'' '''' None"

lemma ch_demo_block_fields [simp]:
  "cb_cmd ch_demo_block = ''x''" "cb_parent_hash ch_demo_block = ''''" "cb_justify ch_demo_block = None"
  by (simp_all add: ch_demo_block_def)

definition ch_demo_generic :: generic where
  "ch_demo_generic = \<lparr>g_view_num = 1, g_block = Some ch_demo_block, g_justify = None, g_from_peer_id = [1]\<rparr>"

text \<open>The hash of the block in view 1, and the vote of node \<open>n\<close> for it.\<close>

definition ch_demo_hash :: string where
  "ch_demo_hash = hs_chars ([GENERIC] @ to_be_bytes 1 @ enc_block ch_demo_block)"

definition ch_demo_vote :: "u8 \<Rightarrow> ch_vote" where
  "ch_demo_vote n = \<lparr>cv_view_num = 1, cv_block = ch_demo_block, cv_partial_signature = n # as_bytes ch_demo_hash,
     cv_from_peer_id = [n]\<rparr>"

fun ch_demo_decode :: "bytes \<Rightarrow> ch_consensus_message option" where
  "ch_demo_decode b = (if b = [1] then Some \<lparr>ch_msg_type = ChGeneric ch_demo_generic\<rparr>
     else if b = [2] then Some \<lparr>ch_msg_type = ChTBLSKey (hs_demo_key 2)\<rparr>
     else if b = [3] then Some \<lparr>ch_msg_type = ChConsensusNodePKsInfo hs_demo_pks\<rparr>
     else if b = [4] then Some \<lparr>ch_msg_type = ChVote (ch_demo_vote 1)\<rparr>
     else if b = [5] then Some \<lparr>ch_msg_type = ChVote (ch_demo_vote 3)\<rparr> else None)"

definition ch_demo :: ch_ext where
  "ch_demo = hs_ext.extend hs_demo (ch_ext.fields
     (\<lambda>m. case ch_msg_type m of ChVote v \<Rightarrow> 0 # enc_vote v | _ \<Rightarrow> [1]) ch_demo_decode enc_block)"

lemma ch_demo_fields [simp]:
  "peer_from_bytes ch_demo = Some" "peer_to_bytes ch_demo = (\<lambda>p. p)"
  "bls_verify_share ch_demo = (\<lambda>k s m. s = k @ m)" "bls_sign ch_demo = (\<lambda>k m. k @ m)"
  "bls_combine ch_demo = (\<lambda>pks sh. Some pks)"
  "bincode_ch_message ch_demo = (\<lambda>m. case ch_msg_type m of ChVote v \<Rightarrow> 0 # enc_vote v | _ \<Rightarrow> [1])"
  "from_bincode_ch_message ch_demo = ch_demo_decode" "sha3_256_hex ch_demo = hs_chars"
  "bincode_ch_block ch_demo = enc_block"
  by (simp_all add: ch_demo_def hs_demo_def hs_ext.defs ch_ext.defs)

lemma ch_demo_hash [simp]: "get_generic_hash ch_demo GENERIC 1 ch_demo_block = ch_demo_hash"
  by (simp add: get_generic_hash_def get_hash_str_def ch_demo_hash_def)

lemma ch_demo_coded: "votes_coded ch_demo"
  by (simp add: votes_coded_def)

text \<open>Node \<open>n\<close> of four in view 1, which node 1 leads, with node 2 to follow.\<close>

definition ch_demo_node :: "u8 \<Rightarrow> ch_protocol" where
  "ch_demo_node n = (ch_default 0 1)\<lparr>ch_keypair := Some (hs_demo_key n), ch_consensus_node_pks := hs_demo_pks,
     ch_pk_consensus_nodes := [(0, [0]), (1, [1]), (2, [2]), (3, [3])],
     ch_st := ch_state_new\<lparr>ch_view := 1, current_leader := [1], next_leader := [2]\<rparr>\<rparr>"

lemma ch_demo_node_fields [simp]:
  "ch_st (ch_demo_node n) = ch_state_new\<lparr>ch_view := 1, current_leader := [1], next_leader := [2]\<rparr>"
  "ch_lg (ch_demo_node n) = ch_log_new" "ch_keypair (ch_demo_node n) = Some (hs_demo_key n)"
  "ch_consensus_node_pks (ch_demo_node n) = hs_demo_pks"
  "ch_pk_consensus_nodes (ch_demo_node n) = [(0, [0]), (1, [1]), (2, [2]), (3, [3])]"
  by (simp_all add: ch_demo_node_def ch_default_def)

lemma ch_state_new_fields [simp]:
  "ch_view ch_state_new = 0" "ch_high_qc ch_state_new = None" "generic_qc ch_state_new = None"
  "ch_locked_qc ch_state_new = None" "ch_fault_tolerance_count ch_state_new = 1" "ch_current_view_timeout ch_state_new = 10"
  by (simp_all add: ch_state_new_def)

lemma hs_demo_pks_simps [simp]:
  "hs_demo_pks [0] = Some \<lparr>pki_number = 0, pki_public_key = [0]\<rparr>" "hs_demo_pks [1] = Some \<lparr>pki_number = 1, pki_public_key = [1]\<rparr>"
  "hs_demo_pks [2] = Some \<lparr>pki_number = 2, pki_public_key = [2]\<rparr>" "hs_demo_pks [3] = Some \<lparr>pki_number = 3, pki_public_key = [3]\<rparr>"
  by (simp_all add: hs_demo_pks_def)

text \<open>A proposal with three ancestors.\<close>

definition ch_demo_chain :: "nat \<Rightarrow> chain_block" where
  "ch_demo_chain n = (forged_block ch_demo 1 '''' ^^ n) (ChainBlock ''e'' '''' None)"

lemma ch_demo_chain_extends: "extends ch_demo (ch_demo_chain (Suc n)) (ch_demo_chain n)"
  by (simp add: ch_demo_chain_def forged_extends)

lemma ch_demo_chain_fields:
  "cb_cmd (ch_demo_chain 0) = ''e''" "cb_justify (ch_demo_chain (Suc n)) = Some (ChainQC 1 (ch_demo_chain n) None)"
  by (simp_all add: ch_demo_chain_def forged_block_def)

lemma next_leader_replies:
  assumes "g_block g = Some b" "ch_safe_node E p b (cb_justify b)" "ch_consensus_node_pks p (peer_to_bytes E me) \<noteq> None"
    and "peer_from_bytes E (next_leader (ch_st p)) = Some me" "peer_from_bytes E (current_leader (ch_st p)) \<noteq> None"
  obtains p' ps where "replica_handle_generic E p g me = Some (p', ps)"
proof -
  from assms obtain p1 q where "ch_cast_vote E p b me = Some (p1, q)"
    by (cases "ch_keypair p") (auto simp: ch_cast_vote_def Let_def)
  with assms(1,2) have "replica_handle_generic E p g me = Some (ch_phases E (ch_view_timeout_stop p1) b q)"
    by (simp add: replica_handle_generic_def)
  with that show thesis by (cases "ch_phases E (ch_view_timeout_stop p1) b q") simp
qed

theorem chain_commit_rule_witness:
  "\<exists>p' ps. replica_handle_generic ch_demo (ch_demo_node 2) (ch_demo_generic\<lparr>g_block := Some (ch_demo_chain 3)\<rparr>) [2] = Some (p', ps) \<and>
     (\<exists>q. ps = Complete \<lparr>cmd = ''e''\<rparr> q) \<and> ch_locked_qc (ch_st p') = Some (ChainQC 1 (ch_demo_chain 1) None)"
proof -
  let ?g = "ch_demo_generic\<lparr>g_block := Some (ch_demo_chain 3)\<rparr>"
  have safe: "ch_safe_node ch_demo (ch_demo_node 2) (ch_demo_chain 3) (cb_justify (ch_demo_chain 3))"
    by (simp add: ch_safe_node_def ch_demo_chain_fields numeral_3_eq_3)
  obtain p' ps where r: "replica_handle_generic ch_demo (ch_demo_node 2) ?g [2] = Some (p', ps)"
    by (rule next_leader_replies [of ?g "ch_demo_chain 3" ch_demo "ch_demo_node 2" "[2]"]) (use safe in simp_all)
  have "extends ch_demo (ch_demo_chain 3) (ch_demo_chain 2)" "extends ch_demo (ch_demo_chain 2) (ch_demo_chain 1)"
    "extends ch_demo (ch_demo_chain 1) (ch_demo_chain 0)"
    using ch_demo_chain_extends by (simp_all add: eval_nat_numeral)
  moreover have "g_block ?g = Some (ch_demo_chain 3)" by simp
  note rule = chain_commit_rule [OF r this, unfolded if_P [OF safe]]
  ultimately have "(\<exists>q. ps = Complete \<lparr>cmd = cb_cmd (ch_demo_chain 0)\<rparr> q) \<and> ch_locked_qc (ch_st p') = cb_justify (ch_demo_chain 2)"
    using rule by blast
  then show ?thesis using r by (auto simp: ch_demo_chain_fields numeral_2_eq_2)
qed

lemma ch_demo_change_leader:
  "ch_pk_consensus_nodes p = [(0, [0]), (1, [1]), (2, [2]), (3, [3])] \<Longrightarrow>
   ch_change_leader p 2 = Some (p\<lparr>ch_st := (ch_st p)\<lparr>current_leader := [2], next_leader := [3]\<rparr>\<rparr>)"
  by (simp add: ch_change_leader_def u64_rem_def u64_add_def)

lemma u64_one_more: "u64_add 1 1 = Some 2"
  by (simp add: u64_add_def)

lemma ch_demo_votes:
  "\<exists>p' q. handle_generic ch_demo (ch_demo_node 3) ch_demo_generic [3] = Some (p', ContinueExecute (Unicast [2] (ch_bytes ch_demo (ChVote
     (ch_demo_vote 3))) # q)) \<and> ch_view (ch_st p') = 2"
  by (simp add: handle_generic_def replica_handle_generic_def ch_demo_generic_def ch_demo_vote_def ch_safe_node_def
      ch_cast_vote_def tbls_sign_def ch_file_own_vote_def ch_next_view_def ch_demo_change_leader u64_one_more
      ch_view_timeout_start_def ch_view_timeout_stop_def ch_phases_def append_continue_def Let_def)

theorem votes_once_per_view_witness:
  "\<exists>p' ps ps' v. run_handler (ch_react ch_demo [3]) (ch_demo_node 3) [ChDeliver [1] [], ChDeliver [1] []] = Some (p', [ps, ps']) \<and>
     sends_vote ch_demo ps v \<and> cv_view_num v = 1 \<and>
     (\<forall>w. (sends_vote ch_demo ps w \<or> sends_vote ch_demo ps' w) \<and> cv_view_num w = 1 \<longrightarrow> w = v)"
proof -
  let ?v = "ch_demo_vote 3"
  obtain p1 q where "handle_generic ch_demo (ch_demo_node 3) ch_demo_generic [3] =
      Some (p1, ContinueExecute (Unicast [2] (ch_bytes ch_demo (ChVote ?v)) # q))" "ch_view (ch_st p1) = 2"
    using ch_demo_votes by blast
  moreover from this(2) obtain p2 where "handle_generic ch_demo p1 ch_demo_generic [3] = Some (p2, ContinueExecute [])"
    by (simp add: handle_generic_def ch_demo_generic_def Let_def)
  ultimately obtain p' ps ps' where run: "run_handler (ch_react ch_demo [3]) (ch_demo_node 3) [ChDeliver [1] [], ChDeliver [1] []] = Some (p', [ps, ps'])"
    and ps: "ps = ContinueExecute (Unicast [2] (ch_bytes ch_demo (ChVote ?v)) # q)"
    by (simp add: ch_message_handler_def)
  have sent: "sends_vote ch_demo ps ?v" by (auto simp: sends_vote_def ps)
  have "w = ?v" if "out \<in> {ps, ps'}" "sends_vote ch_demo out w" "cv_view_num w = 1" for out w
    using votes_once_per_view [OF ch_demo_coded run _ that(2) _ sent] that(1,3) by (simp add: ch_demo_vote_def)
  then have "\<forall>w. (sends_vote ch_demo ps w \<or> sends_vote ch_demo ps' w) \<and> cv_view_num w = 1 \<longrightarrow> w = ?v" by blast
  with run sent show ?thesis by (intro exI [of _ p'] exI [of _ ps] exI [of _ ps'] exI [of _ ?v]) (simp add: ch_demo_vote_def)
qed

theorem forged_chain_is_executed_witness:
  "\<exists>p' q. handle_generic ch_demo (ch_demo_node 2) \<lparr>g_view_num = 1, g_block = Some (ch_demo_chain 3), g_justify = None,
      g_from_peer_id = [9]\<rparr> [2] = Some (p', Complete \<lparr>cmd = ''e''\<rparr> q)"
  using forged_chain_is_executed [of "ch_demo_node 2" 1 ch_demo "[2]" "ChainBlock ''e'' '''' None" "''e''" "ch_demo_chain 3" "[9]"]
  by (auto simp: ch_demo_chain_def numeral_3_eq_3)

theorem lock_regresses_witness:
  "let old = ChainQC 1 (ch_demo_chain 0) None; b2 = forged_block ch_demo 1 '''' (ch_demo_chain 0);
       b1 = forged_block ch_demo 3 '''' b2; p = (ch_demo_node 2)\<lparr>ch_st := (ch_st (ch_demo_node 2))\<lparr>ch_locked_qc := Some (ChainQC 2 b2 None)\<rparr>\<rparr>
   in \<exists>p' ps. replica_handle_generic ch_demo p (ch_demo_generic\<lparr>g_block := Some b1\<rparr>) [2] = Some (p', ps) \<and> ch_locked_qc (ch_st p') = Some old"
proof -
  let ?old = "ChainQC 1 (ch_demo_chain 0) None"
  let ?b2 = "forged_block ch_demo 1 '''' (ch_demo_chain 0)"
  let ?b1 = "forged_block ch_demo 3 '''' ?b2"
  let ?p = "(ch_demo_node 2)\<lparr>ch_st := (ch_st (ch_demo_node 2))\<lparr>ch_locked_qc := Some (ChainQC 2 ?b2 None)\<rparr>\<rparr>"
  obtain p' ps where r: "replica_handle_generic ch_demo ?p (ch_demo_generic\<lparr>g_block := Some ?b1\<rparr>) [2] = Some (p', ps)"
    by (rule next_leader_replies [of "ch_demo_generic\<lparr>g_block := Some ?b1\<rparr>" ?b1 ch_demo ?p "[2]"])
      (simp_all add: ch_safe_node_def forged_block_def)
  moreover have "ch_locked_qc (ch_st p') = Some ?old"
    by (rule lock_regresses [of ?p "ChainQC 2 ?b2 None" ?old 3, OF _ _ _ _ _ r]) (simp_all add: forged_block_def)
  ultimately show ?thesis unfolding Let_def by blast
qed

text \<open>The round of the demo block at node 2, which has filed its own vote; node 1 is overtaken by nodes 3 and 0.\<close>

definition ch_demo_round :: ch_round where
  "ch_demo_round = \<lparr>rd_view = 1, rd_block = ch_demo_block, rd_share = (\<lambda>x. x @ as_bytes ch_demo_hash), rd_justify = (\<lambda>x. None)\<rparr>"

definition ch_demo_next :: ch_protocol where
  "ch_demo_next = (ch_demo_node 2)\<lparr>ch_lg := ch_record_messgae_partial_signature ch_log_new ch_demo_hash 2 (2 # as_bytes ch_demo_hash)\<rparr>"

definition ch_demo_order :: "ch_event list" where
  "ch_demo_order = [VoteOf [1], VoteOf [3], NewViewOf [3], VoteOf [0], NewViewOf [0], NewViewOf [1]]"

lemma ch_demo_next_fields [simp]:
  "ch_st ch_demo_next = ch_state_new\<lparr>ch_view := 1, current_leader := [1], next_leader := [2]\<rparr>"
  "ch_keypair ch_demo_next = Some (hs_demo_key 2)" "ch_consensus_node_pks ch_demo_next = hs_demo_pks"
  "ch_pk_consensus_nodes ch_demo_next = [(0, [0]), (1, [1]), (2, [2]), (3, [3])]"
  "bucket (generics (ch_lg ch_demo_next)) v = []" "filed_shares ch_demo_next ch_demo_hash = [(2, 2 # as_bytes ch_demo_hash)]"
  by (simp_all add: ch_demo_next_def ch_log_new_def filed_shares_def ch_record_messgae_partial_signature_def)

lemma ch_demo_round_fields [simp]:
  "rd_view ch_demo_round = 1" "rd_block ch_demo_round = ch_demo_block" "rd_share ch_demo_round x = x @ as_bytes ch_demo_hash"
  "rd_justify ch_demo_round x = None"
  by (simp_all add: ch_demo_round_def)

lemma ch_demo_round_ok: "round_ok ch_demo ch_demo_round ch_demo_next {[0], [1], [3]} 3"
  by (simp add: round_ok_def ch_demo_round_def Let_def)

theorem certificate_precedes_proposal_witness:
  "\<exists>p' outs sig. run_handler (ch_event_step ch_demo [2] ch_demo_round) ch_demo_next ch_demo_order = Some (p', outs @ [Over None]) \<and>
    ch_view (ch_st p') = 2 \<and> ch_is_leader p' [2] \<and> ch_high_qc (ch_st p') = Some (ChainQC 1 ch_demo_block (Some sig))"
proof -
  let ?es = "[VoteOf [1], VoteOf [3], NewViewOf [3], VoteOf [0], NewViewOf [0]]"
  have order: "in_step (?es @ [NewViewOf [1]])" by (simp add: in_step_def less_Suc_eq)
  have "set (vote_senders ?es) \<subseteq> {[0], [1], [3]}" "Suc (length (view_senders ?es)) = 3"
    by (simp_all add: vote_senders_def view_senders_def map_filter_def)
  then have "\<exists>p' outs sig. run_handler (ch_event_step ch_demo [2] ch_demo_round) ch_demo_next (?es @ [NewViewOf [1]]) = Some (p', outs @ [Over None]) \<and>
    ch_view (ch_st p') = 2 \<and> ch_is_leader p' (peer_to_bytes ch_demo [2]) \<and>
    ch_high_qc (ch_st p') = Some (ChainQC (rd_view ch_demo_round) (rd_block ch_demo_round) (Some sig)) \<and> generic_qc (ch_st p') = ch_high_qc (ch_st p')"
    by (intro certificate_precedes_proposal [OF ch_demo_round_ok _ _ _ order _ _ _ _ ch_demo_change_leader])
      (simp_all add: u64_one_more)
  then show ?thesis by (auto simp: ch_demo_order_def simp del: run_handler.simps)
qed

end
