(* ===== verification/Actuator.thy ===== *)
theory Actuator
  imports Json_Parse
begin

text \<open>
  The protocol actuator of a consensus node (\<open>components/src/protocol_actuator.rs\<close>): it runs
  any protocol behind the trait \<open>ProtocolBehaviour\<close> (\<open>components/src/behaviour.rs\<close>), which is
  a record of operations here, and makes the node misbehave on the orders of the controller.
  Network calls and timers are a trace of effects; a panic is \<open>None\<close>.
\<close>

subsection \<open>The protocol interface\<close>

text \<open>
  One field per method of the trait that the actuator calls. A value of type \<open>'i\<close> stands for
  what a call finds outside the protocol (iteration orders, random numbers, fresh handles).
\<close>

record ('p, 'i) protocol_behaviour =
  pb_init_timeout_notify :: "'p \<Rightarrow> nat \<Rightarrow> 'p"
  pb_extra_initial_start :: "'i \<Rightarrow> 'p \<Rightarrow> peer_id list \<Rightarrow> bytes \<Rightarrow> ('p \<times> phase_state) option"
  pb_message_handler :: "'i \<Rightarrow> 'p \<Rightarrow> bytes \<Rightarrow> bytes \<Rightarrow> peer_id option \<Rightarrow> ('p \<times> phase_state) option"
  pb_get_current_phase :: "'p \<Rightarrow> bytes \<Rightarrow> ('p \<times> u8) option"
  pb_protocol_reset :: "'i \<Rightarrow> 'p \<Rightarrow> 'p"
  pb_view_timeout_handler :: "'i \<Rightarrow> 'p \<Rightarrow> peer_id \<Rightarrow> ('p \<times> phase_state) option"
  pb_protocol_phases :: "'p \<Rightarrow> 'p \<times> (u8 \<rightharpoonup> bytes)"
  pb_phase_map :: "'p \<Rightarrow> u8 \<rightharpoonup> string"
  pb_current_request :: "'p \<Rightarrow> request option"
  pb_is_leader :: "'p \<Rightarrow> bytes \<Rightarrow> bool"
  pb_set_leader :: "'p \<Rightarrow> bool \<Rightarrow> 'p"
  pb_generate_serialized_request_message :: "'p \<Rightarrow> request \<Rightarrow> bytes"
  pb_check_taken_request :: "'p \<Rightarrow> bytes \<Rightarrow> bool"
  pb_set_current_request :: "'p \<Rightarrow> request \<Rightarrow> 'p"

text \<open>The default methods of the trait that the protocols inherit.\<close>

definition default_view_timeout_handler :: "'p \<Rightarrow> peer_id \<Rightarrow> ('p \<times> phase_state) option" where
  "default_view_timeout_handler p peer = Some (p, ContinueExecute [Broadcast []])"

definition default_protocol_reset :: "'p \<Rightarrow> 'p" where
  "default_protocol_reset p = p"

definition default_check_taken_request :: "'p \<Rightarrow> bytes \<Rightarrow> bool" where
  "default_check_taken_request p r = False"

definition default_set_leader :: "'p \<Rightarrow> bool \<Rightarrow> 'p" where
  "default_set_leader p b = p"

definition default_set_current_request :: "'p \<Rightarrow> request \<Rightarrow> 'p" where
  "default_set_current_request p r = p"

definition default_protocol_phases :: "'p \<Rightarrow> 'p \<times> (u8 \<rightharpoonup> bytes)" where
  "default_protocol_phases p = (p, Map.empty)"

subsection \<open>State\<close>

text \<open>
  The notification objects of tokio hold at most one permit each: \<open>permits\<close> is the set of
  those that hold one. \<open>in_loop\<close> tells which of the two event loops the node is in.
\<close>

datatype notifier =
    KeyDistributeNotify
  | ConsensusNotify
  | ViewTimeoutNotify
  | ProtocolStopNotify
  | CrashNotify
  | MaliciousTriggerNotify

record 'p actuator =
  ac_id :: peer_id
  ac_round :: u64
  ac_controller_id :: "peer_id option"
  ac_analyzer_id :: "peer_id option"
  ac_taken_requests :: "bytes set"
  request_buffer :: "string \<rightharpoonup> request"
  protocol :: 'p
  permits :: "notifier set"
  malicious_flag :: bool
  ac_is_leader :: bool
  other_consensus_node :: "peer_id set"
  ac_consensus_nodes :: "peer_id set"
  ac_mode :: consensus_node_mode
  consensus_state :: bool
  protocol_running :: bool
  in_loop :: bool
  ac_effects :: "effect list"

definition actuator_new :: "peer_id \<Rightarrow> 'p \<Rightarrow> 'p actuator" where
  "actuator_new ident p =
     \<lparr>ac_id = ident, ac_round = 1, ac_controller_id = None, ac_analyzer_id = None,
      ac_taken_requests = {}, request_buffer = Map.empty, protocol = p, permits = {},
      malicious_flag = False, ac_is_leader = False, other_consensus_node = {},
      ac_consensus_nodes = {}, ac_mode = ModeUninitialized, consensus_state = False,
      protocol_running = False, in_loop = False, ac_effects = []\<rparr>"

text \<open>
  What one turn of an event loop finds outside: iteration orders of the hash containers as
  functions of their elements, the clock at each point of the trace, and the protocol's own.
\<close>

record 'i act_env =
  ord_nodes :: "peer_id set \<Rightarrow> peer_id list"
  ord_buffer :: "string set \<Rightarrow> string list"
  ord_phases :: "u8 set \<Rightarrow> u8 list"
  act_clock :: "nat \<Rightarrow> u64"
  choice :: 'i

abbreviation act_perform :: "effect \<Rightarrow> 'p actuator \<Rightarrow> 'p actuator" where
  "act_perform e a \<equiv> a\<lparr>ac_effects := ac_effects a @ [e]\<rparr>"

abbreviation set_protocol :: "'p \<Rightarrow> 'p actuator \<Rightarrow> 'p actuator" where
  "set_protocol p a \<equiv> a\<lparr>protocol := p\<rparr>"

definition act_notify :: "notifier \<Rightarrow> 'p actuator \<Rightarrow> 'p actuator" where
  "act_notify n a = a\<lparr>permits := insert n (permits a)\<rparr>"

definition act_timestamp :: "'i act_env \<Rightarrow> 'p actuator \<Rightarrow> u64" where
  "act_timestamp R a = act_clock R (length (ac_effects a))"

definition act_id_bytes :: "'a ext_scheme \<Rightarrow> 'p actuator \<Rightarrow> bytes" where
  "act_id_bytes E a = peer_to_bytes E (ac_id a)"

text \<open>Sending a message to the controller, which must be known.\<close>

definition tell_controller :: "'a msg_ext_scheme \<Rightarrow> interactive_message \<Rightarrow> 'p actuator \<Rightarrow> 'p actuator option" where
  "tell_controller E m a = do {
     c \<leftarrow> ac_controller_id a;
     Some (act_perform (SendMessage c (bincode_message E \<lparr>interactive = m, source = []\<rparr>)) a)
   }"

text \<open>Start-up: handle \<open>0\<close> names the view timeout notification of the actuator.\<close>

definition network_start :: "('p, 'i) protocol_behaviour \<Rightarrow> bool \<Rightarrow> 'p actuator \<Rightarrow> 'p actuator" where
  "network_start B leader a =
     (let a1 = a\<lparr>ac_is_leader := leader,
                 protocol := pb_set_leader B (pb_init_timeout_notify B (protocol a) 0) leader\<rparr>
      in act_perform (Subscribe ''Reset'') (act_perform (Subscribe ''Initialization'') a1))"

subsection \<open>Requests\<close>

fun next_request_loop ::
    "'a ext_scheme \<Rightarrow> ('p, 'i) protocol_behaviour \<Rightarrow> 'p actuator \<Rightarrow> string list \<Rightarrow> request option" where
  "next_request_loop E B a [] = None"
| "next_request_loop E B a (k # ks) =
     (case request_buffer a k of
        None \<Rightarrow> next_request_loop E B a ks
      | Some r \<Rightarrow>
          if pb_check_taken_request B (protocol a) (bincode_request E r) then next_request_loop E B a ks
          else Some r)"

definition next_request ::
    "'a ext_scheme \<Rightarrow> ('p, 'i) protocol_behaviour \<Rightarrow> 'i act_env \<Rightarrow> 'p actuator \<Rightarrow> request option" where
  "next_request E B R a = next_request_loop E B a (ord_buffer R (dom (request_buffer a)))"

definition write_requests_into_buffer :: "'a ext_scheme \<Rightarrow> request list \<Rightarrow> 'p actuator \<Rightarrow> 'p actuator" where
  "write_requests_into_buffer E requests a =
     foldl (\<lambda>a r. a\<lparr>request_buffer := (request_buffer a)(get_request_hash E r \<mapsto> r)\<rparr>) a requests"

definition check_request_taken :: "'p actuator \<Rightarrow> bytes \<Rightarrow> bool" where
  "check_request_taken a r = (r \<in> ac_taken_requests a)"

subsection \<open>Sending\<close>

definition divide_consensus_nodes :: "'i act_env \<Rightarrow> 'p actuator \<Rightarrow> u16 \<Rightarrow> peer_id list \<times> peer_id list" where
  "divide_consensus_nodes R a ambiguous_count =
     (let nodes = ord_nodes R (other_consensus_node a)
      in if unat ambiguous_count \<le> card (other_consensus_node a)
         then (drop (unat ambiguous_count) nodes, take (unat ambiguous_count) nodes)
         else ([], nodes))"

fun send_message :: "'i act_env \<Rightarrow> send_type \<Rightarrow> 'p actuator \<Rightarrow> 'p actuator" where
  "send_message R (Broadcast msg) a =
     (if msg \<noteq> [] then act_perform (Publish ''Consensus'' msg) a else a)"
| "send_message R (Unicast receiver msg) a =
     (if msg \<noteq> [] then act_perform (SendMessage receiver msg) a else a)"
| "send_message R (AmbiguousBroadcast msg amsg amsg_count) a =
     (let (nodes, ambiguous_nodes) = divide_consensus_nodes R a amsg_count
      in a\<lparr>ac_effects := ac_effects a @ map (\<lambda>p. SendMessage p msg) nodes @
             map (\<lambda>p. SendMessage p amsg) ambiguous_nodes\<rparr>)"

text \<open>The corrupted value of a field.\<close>

fun error_value :: "json \<Rightarrow> json option" where
  "error_value JNull = Some JNull"
| "error_value (JBool b) = Some (JBool (\<not> b))"
| "error_value (JNumber n) = do {
     k \<leftarrow> as_u64 n;
     k' \<leftarrow> u64_add k 99;
     Some (JNumber (PosInt k'))
   }"
| "error_value (JString s) = Some (JString ''ErrorString'')"
| "error_value (JArray js) = Some (JArray [JString ''E'', JString ''R'', JString ''R'', JString ''O'', JString ''R''])"
| "error_value (JObject m) = Some (JObject m)"

text \<open>The message with the field of its phase corrupted, before it is serialized.\<close>

definition error_json :: "string \<Rightarrow> string \<Rightarrow> json \<Rightarrow> json option" where
  "error_json data_type f parsed = do {
     new_value \<leftarrow> error_value (json_index (json_index (json_index parsed ''msg_type'') data_type) f);
     json_assign parsed [''msg_type'', data_type, f] new_value
   }"

definition generate_a_error_message ::
    "'a json_ext_scheme \<Rightarrow> ('p, 'i) protocol_behaviour \<Rightarrow> 'p \<Rightarrow> bytes \<Rightarrow> string list \<Rightarrow> u8 \<Rightarrow> bytes option" where
  "generate_a_error_message E B p msg field ph = do {
     parsed \<leftarrow> json_from_slice E msg;
     data_type \<leftarrow> pb_phase_map B p ph;
     f \<leftarrow> (case field of [] \<Rightarrow> None | f # _ \<Rightarrow> Some f);
     parsed' \<leftarrow> error_json data_type f parsed;
     m \<leftarrow> as_object parsed';
     Some (json_to_bytes E (JObject m))
   }"

fun message_of :: "send_type \<Rightarrow> bytes" where
  "message_of (Broadcast msg) = msg"
| "message_of (Unicast r msg) = msg"
| "message_of (AmbiguousBroadcast msg amsg n) = msg"

text \<open>A forged copy of a broadcast or unicast.\<close>

fun forge :: "(bytes \<Rightarrow> bytes option) \<Rightarrow> send_type \<Rightarrow> send_type option" where
  "forge err (Broadcast msg) = map_option Broadcast (err msg)"
| "forge err (Unicast r msg) = map_option (Unicast r) (err msg)"
| "forge err (AmbiguousBroadcast msg amsg n) = Some (AmbiguousBroadcast msg amsg n)"

definition malicious_trigger ::
    "'a json_ext_scheme \<Rightarrow> ('p, 'i) protocol_behaviour \<Rightarrow> 'i act_env \<Rightarrow> u8 \<Rightarrow> send_type \<Rightarrow> 'p actuator \<Rightarrow>
     'p actuator option" where
  "malicious_trigger E B R phase send_type a = do {
     current_request \<leftarrow> pb_current_request B (protocol a);
     let leader = pb_is_leader B (protocol a) (act_id_bytes E a);
     (case ac_mode a of
        ModeDishonest (ModeLeaderFeignDeath d p) \<Rightarrow>
          if p = phase then Some a else Some (send_message R send_type a)
      | ModeDishonest (ModeLeaderSendDuplicateMessages d p) \<Rightarrow>
          if p = phase \<and> leader then Some (send_message R send_type (send_message R send_type a))
          else Some (send_message R send_type a)
      | ModeDishonest (ModeLeaderSendAmbiguousMessage d p field amsg_count) \<Rightarrow>
          if p = phase \<and> leader then do {
            amsg \<leftarrow> generate_a_error_message E B (protocol a) (message_of send_type) field p;
            Some (send_message R (AmbiguousBroadcast (message_of send_type) amsg amsg_count) a)
          }
          else Some (send_message R send_type a)
      | ModeDishonest (ModeReplicaNodeConspireForgeMessages d p field request) \<Rightarrow>
          if p = phase \<and> request = current_request then do {
            st \<leftarrow> forge (\<lambda>msg. generate_a_error_message E B (protocol a) msg field p) send_type;
            Some (send_message R st a)
          }
          else Some (send_message R send_type a)
      | _ \<Rightarrow> Some (send_message R send_type a))
   }"

subsection \<open>The result of a protocol call\<close>

text \<open>The loop over the send queue, which the code has once per kind of result.\<close>

fun send_loop ::
    "'a json_ext_scheme \<Rightarrow> ('p, 'i) protocol_behaviour \<Rightarrow> 'i act_env \<Rightarrow> send_type list \<Rightarrow> 'p actuator \<Rightarrow>
     'p actuator option" where
  "send_loop E B R [] a = Some a"
| "send_loop E B R (Broadcast msg # queue) a = do {
     (p, phase) \<leftarrow> pb_get_current_phase B (protocol a) msg;
     let a1 = set_protocol p a;
     a2 \<leftarrow> (if malicious_flag a1 then malicious_trigger E B R phase (Broadcast msg) a1
            else Some (send_message R (Broadcast msg) a1));
     send_loop E B R queue a2
   }"
| "send_loop E B R (Unicast r msg # queue) a = do {
     (p, phase) \<leftarrow> pb_get_current_phase B (protocol a) msg;
     let a1 = set_protocol p a;
     a2 \<leftarrow> (if malicious_flag a1 \<and> ac_is_leader a1 then malicious_trigger E B R phase (Unicast r msg) a1
            else Some (send_message R (Unicast r msg) a1));
     send_loop E B R queue a2
   }"
| "send_loop E B R (AmbiguousBroadcast msg amsg n # queue) a = send_loop E B R queue a"

definition report_data ::
    "'a msg_ext_scheme \<Rightarrow> consensus_data \<Rightarrow> 'p actuator \<Rightarrow> 'p actuator option" where
  "report_data E data a = do {
     analysis_node_id \<leftarrow> ac_analyzer_id a;
     Some (act_perform (SendMessage analysis_node_id (json_consensus_data E data)) a)
   }"

text \<open>A request is done: its end data go to the analyzer and it leaves the buffer.\<close>

definition finish_request ::
    "'a msg_ext_scheme \<Rightarrow> 'i act_env \<Rightarrow> request \<Rightarrow> 'p actuator \<Rightarrow> 'p actuator option" where
  "finish_request E R r a = do {
     a1 \<leftarrow> report_data E (ConsensusEndData \<lparr>end_request = r, completed_time = act_timestamp R a\<rparr>) a;
     Some (a1\<lparr>request_buffer := (request_buffer a1)(get_request_hash E r := None)\<rparr>)
   }"

definition leader_continues :: "'a ext_scheme \<Rightarrow> ('p, 'i) protocol_behaviour \<Rightarrow> 'p actuator \<Rightarrow> 'p actuator" where
  "leader_continues E B a =
     (if pb_is_leader B (protocol a) (act_id_bytes E a) then a\<lparr>consensus_state := True\<rparr> else a)"

fun check_protocol_phase_state ::
    "'a json_ext_scheme \<Rightarrow> ('p, 'i) protocol_behaviour \<Rightarrow> 'i act_env \<Rightarrow> phase_state \<Rightarrow> 'p actuator \<Rightarrow>
     'p actuator option" where
  "check_protocol_phase_state E B R (Over msg) a = do {
     a1 \<leftarrow> (case msg of Some request \<Rightarrow> finish_request E R request a | None \<Rightarrow> Some a);
     Some (leader_continues E B a1)
   }"
| "check_protocol_phase_state E B R (ContinueExecute send_queue) a = send_loop E B R send_queue a"
| "check_protocol_phase_state E B R (Complete request send_queue) a = do {
     a1 \<leftarrow> send_loop E B R send_queue a;
     finish_request E R request a1
   }"
| "check_protocol_phase_state E B R (OverMessage request send_query) a = do {
     a1 \<leftarrow> send_loop E B R send_query a;
     Some (leader_continues E B a1)
   }"

text \<open>A protocol call followed by the treatment of its result.\<close>

definition run_protocol ::
    "'a json_ext_scheme \<Rightarrow> ('p, 'i) protocol_behaviour \<Rightarrow> 'i act_env \<Rightarrow> ('p \<Rightarrow> ('p \<times> phase_state) option) \<Rightarrow>
     'p actuator \<Rightarrow> 'p actuator option" where
  "run_protocol E B R call a = do {
     (p, phase_state) \<leftarrow> call (protocol a);
     check_protocol_phase_state E B R phase_state (set_protocol p a)
   }"

subsection \<open>Modes, start and reset\<close>

definition verify_initialization :: "'p actuator \<Rightarrow> bool" where
  "verify_initialization a = (ac_controller_id a \<noteq> None \<and> ac_analyzer_id a \<noteq> None)"

definition crash_timer_start :: "u64 \<Rightarrow> 'p actuator \<Rightarrow> 'p actuator" where
  "crash_timer_start internal a = act_perform (CrashTimer internal) a"

definition malicious_timer_start :: "u64 \<Rightarrow> 'p actuator \<Rightarrow> 'p actuator" where
  "malicious_timer_start duration a = act_perform (MaliciousTimer duration) a"

fun malicious_delay :: "malicious_mode \<Rightarrow> u64" where
  "malicious_delay (ModeLeaderFeignDeath d p) = d"
| "malicious_delay (ModeLeaderSendAmbiguousMessage d p f n) = d"
| "malicious_delay (ModeLeaderDelaySendMessage d p) = d"
| "malicious_delay (ModeLeaderSendDuplicateMessages d p) = d"
| "malicious_delay (ModeReplicaNodeConspireForgeMessages d p f r) = d"

definition protocol_start_preprocess :: "'p actuator \<Rightarrow> 'p actuator" where
  "protocol_start_preprocess a =
     (case ac_mode a of
        ModeUninitialized \<Rightarrow> a
      | ModeHonest s \<Rightarrow> a
      | ModeDishonest m \<Rightarrow> malicious_timer_start (malicious_delay m) a
      | ModeCrash internal \<Rightarrow> crash_timer_start internal a)"

definition act_reset :: "'a msg_ext_scheme \<Rightarrow> consensus_node_mode \<Rightarrow> 'p actuator \<Rightarrow> 'p actuator option" where
  "act_reset E md a =
     tell_controller E (ResetSuccess md)
       (a\<lparr>request_buffer := Map.empty, malicious_flag := False, ac_taken_requests := {},
          protocol_running := False\<rparr>)"

text \<open>\<open>key_distribute\<close> spawns a task that notifies; the loop is entered afterwards.\<close>

definition key_distribute :: "'p actuator \<Rightarrow> 'p actuator" where
  "key_distribute a = act_notify KeyDistributeNotify a"

definition message_handler_enter :: "'p actuator \<Rightarrow> 'p actuator" where
  "message_handler_enter a =
     (let a1 = (if ac_is_leader a then key_distribute a else a)
      in (protocol_start_preprocess a1)\<lparr>in_loop := True\<rparr>)"

subsection \<open>Messages of the controller\<close>

definition buffer_requests :: "'a ext_scheme \<Rightarrow> request list \<Rightarrow> 'p actuator \<Rightarrow> 'p actuator" where
  "buffer_requests E requests a =
     (let a1 = write_requests_into_buffer E requests a
      in if request_buffer a1 \<noteq> Map.empty \<and> ac_is_leader a1 then a1\<lparr>consensus_state := True\<rparr> else a1)"

fun running_controller_message_handler ::
    "'a ext_scheme \<Rightarrow> interactive_message \<Rightarrow> 'p actuator \<Rightarrow> 'p actuator" where
  "running_controller_message_handler E (Reset n) a =
     (if verify_initialization a then act_notify ProtocolStopNotify a else a)"
| "running_controller_message_handler E (MakeAConsensusRequest request) a = buffer_requests E [request] a"
| "running_controller_message_handler E (MakeConsensusRequests requests) a = buffer_requests E requests a"
| "running_controller_message_handler E m a = a"

text \<open>The phases of the protocol, one message each.\<close>

fun phases_loop ::
    "'a msg_ext_scheme \<Rightarrow> 'i act_env \<Rightarrow> (u8 \<rightharpoonup> bytes) \<Rightarrow> u8 list \<Rightarrow> 'p actuator \<Rightarrow> 'p actuator option" where
  "phases_loop E R phases_map [] a = Some a"
| "phases_loop E R phases_map (k # ks) a =
     (case phases_map k of
        None \<Rightarrow> phases_loop E R phases_map ks a
      | Some v \<Rightarrow> do {
          c \<leftarrow> ac_controller_id a;
          phases_loop E R phases_map ks (send_message R
            (Unicast c (bincode_message E \<lparr>interactive = ConsensusPhase k v, source = []\<rparr>)) a)
        })"

fun no_running_controller_message_handler ::
    "'a json_ext_scheme \<Rightarrow> ('p, 'i) protocol_behaviour \<Rightarrow> 'i act_env \<Rightarrow> interactive_message \<Rightarrow> 'p actuator \<Rightarrow>
     'p actuator option" where
  "no_running_controller_message_handler E B R (ConfigureConsensusNode state) a =
     (let a1 = (act_perform (Subscribe ''Consensus'') a)\<lparr>ac_mode := ModeHonest state\<rparr>
      in tell_controller E (ConsensusNodeModeSuccess (ac_mode a1)) a1)"
| "no_running_controller_message_handler E B R MaliciousTestPreparation a =
     (let (p, phases_map) = pb_protocol_phases B (protocol a)
      in phases_loop E R phases_map (ord_phases R (dom phases_map)) (set_protocol p a))"
| "no_running_controller_message_handler E B R (ProtocolStart n) a =
     Some (message_handler_enter (set_protocol (pb_protocol_reset B (choice R) (protocol a)) a))"
| "no_running_controller_message_handler E B R (JoinConsensus n) a =
     tell_controller E JoinConsensusSuccess
       ((act_perform (Subscribe ''Consensus'') a)\<lparr>ac_mode := ModeHonest Other\<rparr>)"
| "no_running_controller_message_handler E B R (ConsensusNodeMode md) a =
     (if ac_mode a \<noteq> md then
        tell_controller E (ConsensusNodeModeSuccess md)
          (act_perform (Subscribe ''Consensus'') (a\<lparr>ac_mode := md\<rparr>))
      else Some a)"
| "no_running_controller_message_handler E B R m a = Some a"

subsection \<open>The two event loops\<close>

text \<open>
  Events of the swarm: a unicast with the bytes of its source, a gossip message with the peer
  it came from, and the discoveries of mdns (an expired peer with mdns's answer whether it
  still has the node).
\<close>

datatype act_event =
    ActUnicast bytes bytes
  | ActGossip peer_id bytes
  | ActDiscovered "peer_id list"
  | ActExpired "(peer_id \<times> bool) list"
  | ActOther
  | ActNotified notifier

definition forget_node :: "peer_id \<Rightarrow> 'p actuator \<Rightarrow> 'p actuator" where
  "forget_node peer a =
     a\<lparr>ac_consensus_nodes := ac_consensus_nodes a - {peer}, other_consensus_node := other_consensus_node a - {peer}\<rparr>"

definition learn_component :: "'a ext_scheme \<Rightarrow> interactive_message \<Rightarrow> 'p actuator \<Rightarrow> 'p actuator option" where
  "learn_component E m a =
     (case m of
        ComponentInfo (Controller id_bytes) \<Rightarrow> do {
          peer \<leftarrow> peer_from_bytes E id_bytes;
          Some (forget_node peer (a\<lparr>ac_controller_id := Some peer\<rparr>))
        }
      | ComponentInfo (Analyzer id_bytes) \<Rightarrow> do {
          peer \<leftarrow> peer_from_bytes E id_bytes;
          Some (forget_node peer (a\<lparr>ac_analyzer_id := Some peer\<rparr>))
        }
      | _ \<Rightarrow> Some a)"

definition discover :: "peer_id list \<Rightarrow> 'p actuator \<Rightarrow> 'p actuator" where
  "discover peers a =
     foldl (\<lambda>a peer. act_perform (AddPeer peer) (a\<lparr>other_consensus_node := insert peer (other_consensus_node a),
       ac_consensus_nodes := insert peer (ac_consensus_nodes a)\<rparr>)) a peers"

text \<open>One turn of \<open>protocol_start_listening\<close>.\<close>

fun listening_turn ::
    "'a json_ext_scheme \<Rightarrow> ('p, 'i) protocol_behaviour \<Rightarrow> 'i act_env \<Rightarrow> act_event \<Rightarrow> 'p actuator \<Rightarrow>
     'p actuator option" where
  "listening_turn E B R (ActUnicast src data) a = do {
     peer_id \<leftarrow> peer_from_bytes E src;
     c \<leftarrow> ac_controller_id a;
     (if peer_to_string E c = peer_to_string E peer_id then do {
        m \<leftarrow> from_bincode_message E data;
        no_running_controller_message_handler E B R (interactive m) a
      }
      else Some a)
   }"
| "listening_turn E B R (ActGossip src data) a =
     (if \<not> verify_initialization a then do {
        m \<leftarrow> from_bincode_message E data;
        learn_component E (interactive m) a
      }
      else Some a)"
| "listening_turn E B R (ActDiscovered peers) a = Some (discover peers a)"
| "listening_turn E B R (ActExpired peers) a =
     Some (foldl (\<lambda>a (peer, has_node). if \<not> has_node then act_perform (RemovePeer peer) a else a) a peers)"
| "listening_turn E B R _ a = Some a"

text \<open>Putting a request into the protocol: its start data go to the analyzer first.\<close>

definition propose ::
    "'a json_ext_scheme \<Rightarrow> ('p, 'i) protocol_behaviour \<Rightarrow> 'i act_env \<Rightarrow> request \<Rightarrow> 'p actuator \<Rightarrow>
     'p actuator option" where
  "propose E B R request a = do {
     let message = pb_generate_serialized_request_message B (protocol a) request;
     a1 \<leftarrow> report_data E (ConsensusStartData \<lparr>start_request = request, start_time = act_timestamp R a\<rparr>) a;
     let a2 = set_protocol (pb_set_current_request B (protocol a1) request) a1;
     run_protocol E B R
       (\<lambda>p. pb_message_handler B (choice R) p message (act_id_bytes E a2) (ac_analyzer_id a2)) a2
   }"

text \<open>With no request left the leader makes up the next fifty.\<close>

definition refill_buffer :: "'a ext_scheme \<Rightarrow> 'p actuator \<Rightarrow> 'p actuator option" where
  "refill_buffer E a = do {
     start \<leftarrow> u64_mul (ac_round a) 50;
     next_round \<leftarrow> u64_add (ac_round a) 1;
     stop \<leftarrow> u64_mul next_round 50;
     Some (write_requests_into_buffer E (map (\<lambda>i. \<lparr>cmd = ''Request_'' @ decimal i\<rparr>) [unat start..<unat stop])
       (a\<lparr>ac_round := next_round\<rparr>))
   }"

definition start_consensus ::
    "'a json_ext_scheme \<Rightarrow> ('p, 'i) protocol_behaviour \<Rightarrow> 'i act_env \<Rightarrow> 'p actuator \<Rightarrow> 'p actuator option" where
  "start_consensus E B R a =
     (case next_request E B R a of
        Some request \<Rightarrow> propose E B R request a
      | None \<Rightarrow> do {
          a1 \<leftarrow> refill_buffer E a;
          request \<leftarrow> next_request E B R a1;
          propose E B R request a1
        })"

text \<open>One turn of \<open>message_handler_start\<close>; leaving the loop clears \<open>in_loop\<close>.\<close>

fun running_turn ::
    "'a json_ext_scheme \<Rightarrow> ('p, 'i) protocol_behaviour \<Rightarrow> 'i act_env \<Rightarrow> act_event \<Rightarrow> 'p actuator \<Rightarrow>
     'p actuator option" where
  "running_turn E B R (ActNotified KeyDistributeNotify) a =
     run_protocol E B R
       (\<lambda>p. pb_extra_initial_start B (choice R) p (ord_nodes R (insert (ac_id a) (ac_consensus_nodes a)))
              (act_id_bytes E a)) a"
| "running_turn E B R (ActNotified ProtocolStopNotify) a = do {
     a1 \<leftarrow> act_reset E (ac_mode a) a;
     Some (a1\<lparr>in_loop := False\<rparr>)
   }"
| "running_turn E B R (ActNotified CrashNotify) a = do {
     let a1 = act_perform (Unsubscribe ''Consensus'') a;
     a2 \<leftarrow> act_reset E (ac_mode a1) a1;
     Some (a2\<lparr>in_loop := False\<rparr>)
   }"
| "running_turn E B R (ActNotified MaliciousTriggerNotify) a = Some (a\<lparr>malicious_flag := True\<rparr>)"
| "running_turn E B R (ActNotified ConsensusNotify) a = start_consensus E B R a"
| "running_turn E B R (ActNotified ViewTimeoutNotify) a =
     run_protocol E B R (\<lambda>p. pb_view_timeout_handler B (choice R) p (ac_id a)) a"
| "running_turn E B R (ActUnicast src data) a = do {
     peer_id \<leftarrow> peer_from_bytes E src;
     c \<leftarrow> ac_controller_id a;
     (if peer_to_string E peer_id = peer_to_string E c then do {
        m \<leftarrow> from_bincode_message E data;
        Some (running_controller_message_handler E (interactive m) a)
      }
      else run_protocol E B R
        (\<lambda>p. pb_message_handler B (choice R) p data (act_id_bytes E a) (ac_analyzer_id a)) a)
   }"
| "running_turn E B R (ActGossip src data) a =
     run_protocol E B R (\<lambda>p. pb_message_handler B (choice R) p data (act_id_bytes E a) (Some src)) a"
| "running_turn E B R _ a = Some a"

text \<open>The task spawned by \<open>state_check_start\<close>, when it finds the flag set.\<close>

definition state_check :: "'p actuator \<Rightarrow> 'p actuator" where
  "state_check a = (if consensus_state a then (act_notify ConsensusNotify a)\<lparr>consensus_state := False\<rparr> else a)"

text \<open>
  The node as a transition system: an event of the swarm in the loop the node is in, a
  notification whose permit is taken, a step of the state check task, or a timer that fires
  (the tasks of the timers run independently of the loops).
\<close>

inductive act_step ::
    "'a json_ext_scheme \<Rightarrow> ('p, 'i) protocol_behaviour \<Rightarrow> 'p actuator \<Rightarrow> 'p actuator \<Rightarrow> bool"
  for E B where
  listening: "\<not> in_loop a \<Longrightarrow> listening_turn E B R e a = Some a' \<Longrightarrow> act_step E B a a'"
| running: "in_loop a \<Longrightarrow> (\<forall>n. e \<noteq> ActNotified n) \<Longrightarrow> running_turn E B R e a = Some a' \<Longrightarrow> act_step E B a a'"
| notified: "in_loop a \<Longrightarrow> n \<in> permits a \<Longrightarrow>
     running_turn E B R (ActNotified n) (a\<lparr>permits := permits a - {n}\<rparr>) = Some a' \<Longrightarrow> act_step E B a a'"
| checked: "act_step E B a (state_check a)"
| timer: "n \<in> {ViewTimeoutNotify, CrashNotify, MaliciousTriggerNotify} \<Longrightarrow> act_step E B a (act_notify n a)"

inductive act_reachable ::
    "'a json_ext_scheme \<Rightarrow> ('p, 'i) protocol_behaviour \<Rightarrow> 'p actuator \<Rightarrow> 'p actuator \<Rightarrow> bool"
  for E B a0 where
  act_init: "act_reachable E B a0 a0"
| act_next: "act_reachable E B a0 a \<Longrightarrow> act_step E B a a' \<Longrightarrow> act_reachable E B a0 a'"

inductive_cases act_stepE: "act_step E B a a'"

end
