(* ===== verification/Actuator_Interface.thy ===== *)
theory Actuator_Interface
  imports Actuator PBFT_Invariants HotStuff_Invariants
begin

text \<open>
  What the actuator relies on of the protocol it runs, as a locale: every method keeps an
  invariant of the protocol object. The actuator keeps it then in all its executions. The
  locale is interpreted for PBFT and for basic HotStuff.
\<close>

subsection \<open>What the actuator leaves alone\<close>

text \<open>Sending changes the trace only.\<close>

definition only_sends :: "'p actuator \<Rightarrow> 'p actuator \<Rightarrow> bool" where
  "only_sends a a' \<longleftrightarrow> (\<exists>es. a' = a\<lparr>ac_effects := ac_effects a @ es\<rparr>)"

lemma only_sends_refl [intro!]: "only_sends a a"
  by (auto simp: only_sends_def intro: exI [of _ "[]"])

lemma only_sends_perform [intro!]: "only_sends a (a\<lparr>ac_effects := ac_effects a @ es\<rparr>)"
  by (auto simp: only_sends_def)

lemma only_sends_trans: "only_sends a b \<Longrightarrow> only_sends b c \<Longrightarrow> only_sends a c"
  by (auto simp: only_sends_def)

lemma only_sends_protocol: "only_sends a a' \<Longrightarrow> protocol a' = protocol a \<and> ac_id a' = ac_id a"
  by (auto simp: only_sends_def)

lemma send_message_only_sends: "only_sends a (send_message R st a)"
  by (cases st) (auto simp: Let_def split: prod.splits)

lemma malicious_trigger_only_sends:
  assumes "malicious_trigger E B R ph st a = Some a'"
  shows "only_sends a a'"
proof (cases "ac_mode a")
  case (ModeDishonest m)
  with assms show ?thesis
    by (cases m) (auto simp: malicious_trigger_def bind_eq_Some_conv Let_def simp del: send_message.simps
        intro: send_message_only_sends only_sends_trans split: if_splits)
qed (use assms in \<open>auto simp: malicious_trigger_def bind_eq_Some_conv simp del: send_message.simps
      intro: send_message_only_sends\<close>)

lemma report_data_only_sends: "report_data E d a = Some a' \<Longrightarrow> only_sends a a'"
  by (auto simp: report_data_def bind_eq_Some_conv)

lemma tell_controller_only_sends: "tell_controller E m a = Some a' \<Longrightarrow> only_sends a a'"
  by (auto simp: tell_controller_def bind_eq_Some_conv)

lemma phases_loop_only_sends: "phases_loop E R m ks a = Some a' \<Longrightarrow> only_sends a a'"
proof (induction ks arbitrary: a)
  case Nil
  then show ?case by auto
next
  case (Cons k ks)
  then show ?case
    by (auto simp: bind_eq_Some_conv simp del: send_message.simps split: option.splits
        intro: only_sends_trans [OF send_message_only_sends])
qed

lemma write_requests_protocol [simp]:
  "protocol (write_requests_into_buffer E rs a) = protocol a"
  "ac_id (write_requests_into_buffer E rs a) = ac_id a"
  by (induction rs arbitrary: a) (simp_all add: write_requests_into_buffer_def)

lemma buffer_requests_protocol [simp]:
  "protocol (buffer_requests E rs a) = protocol a" "ac_id (buffer_requests E rs a) = ac_id a"
  by (simp_all add: buffer_requests_def Let_def)

lemma leader_continues_protocol [simp]:
  "protocol (leader_continues E B a) = protocol a" "ac_id (leader_continues E B a) = ac_id a"
  by (simp_all add: leader_continues_def)

lemma finish_request_protocol:
  "finish_request E R r a = Some a' \<Longrightarrow> protocol a' = protocol a \<and> ac_id a' = ac_id a"
  by (auto simp: finish_request_def bind_eq_Some_conv dest!: report_data_only_sends only_sends_protocol)

lemma act_notify_protocol [simp]: "protocol (act_notify n a) = protocol a" "ac_id (act_notify n a) = ac_id a"
  by (simp_all add: act_notify_def)

lemma preprocess_protocol [simp]:
  "protocol (protocol_start_preprocess a) = protocol a" "ac_id (protocol_start_preprocess a) = ac_id a"
  by (simp_all add: protocol_start_preprocess_def malicious_timer_start_def crash_timer_start_def
      split: consensus_node_mode.splits)

lemma message_handler_enter_protocol [simp]:
  "protocol (message_handler_enter a) = protocol a" "ac_id (message_handler_enter a) = ac_id a"
  by (simp_all add: message_handler_enter_def key_distribute_def Let_def)

lemma running_controller_protocol [simp]:
  "protocol (running_controller_message_handler E m a) = protocol a"
  "ac_id (running_controller_message_handler E m a) = ac_id a"
  by (cases m; simp add: act_notify_def)+

lemma act_reset_protocol:
  "act_reset E md a = Some a' \<Longrightarrow> protocol a' = protocol a \<and> ac_id a' = ac_id a"
  by (auto simp: act_reset_def dest!: tell_controller_only_sends only_sends_protocol)

lemma learn_component_protocol:
  "learn_component E m a = Some a' \<Longrightarrow> protocol a' = protocol a \<and> ac_id a' = ac_id a"
  by (auto simp: learn_component_def forget_node_def bind_eq_Some_conv
      split: interactive_message.splits component.splits)

lemma discover_protocol [simp]:
  "protocol (discover peers a) = protocol a" "ac_id (discover peers a) = ac_id a"
  by (induction peers arbitrary: a) (simp_all add: discover_def)

lemma expired_protocol [simp]:
  "protocol (foldl (\<lambda>a (peer, has_node). if \<not> has_node then act_perform (RemovePeer peer) a else a) a peers) = protocol a"
  "ac_id (foldl (\<lambda>a (peer, has_node). if \<not> has_node then act_perform (RemovePeer peer) a else a) a peers) = ac_id a"
  by (induction peers arbitrary: a) (auto split: prod.splits)

lemma refill_buffer_protocol:
  "refill_buffer E a = Some a' \<Longrightarrow> protocol a' = protocol a \<and> ac_id a' = ac_id a"
  by (auto simp: refill_buffer_def bind_eq_Some_conv)

lemma state_check_protocol [simp]: "protocol (state_check a) = protocol a" "ac_id (state_check a) = ac_id a"
  by (simp_all add: state_check_def)

subsection \<open>The contract of a protocol\<close>

text \<open>
  \<open>inv\<close> is an invariant of the protocol object of the node \<open>me\<close>, whose peer identifier is
  \<open>ident\<close>. The methods get the identifier of the node they run on.
\<close>

locale protocol_contract =
  fixes B :: "('p, 'i) protocol_behaviour"
    and ident :: peer_id
    and me :: bytes
    and inv :: "'p \<Rightarrow> bool"
  assumes init_timeout_notify_inv: "inv p \<Longrightarrow> inv (pb_init_timeout_notify B p h)"
    and start_inv: "inv p \<Longrightarrow> pb_extra_initial_start B i p nodes me = Some (p', ps) \<Longrightarrow> inv p'"
    and handler_inv: "inv p \<Longrightarrow> pb_message_handler B i p m me from = Some (p', ps) \<Longrightarrow> inv p'"
    and phase_inv: "inv p \<Longrightarrow> pb_get_current_phase B p m = Some (p', ph) \<Longrightarrow> inv p'"
    and reset_inv: "inv p \<Longrightarrow> inv (pb_protocol_reset B i p)"
    and timeout_inv: "inv p \<Longrightarrow> pb_view_timeout_handler B i p ident = Some (p', ps) \<Longrightarrow> inv p'"
    and phases_inv: "inv p \<Longrightarrow> inv (fst (pb_protocol_phases B p))"
    and set_leader_inv: "inv p \<Longrightarrow> inv (pb_set_leader B p b)"
    and set_request_inv: "inv p \<Longrightarrow> inv (pb_set_current_request B p r)"
begin

text \<open>The node keeps its identity and the invariant of its protocol.\<close>

definition node_ok :: "'p actuator \<Rightarrow> bool" where
  "node_ok a \<longleftrightarrow> inv (protocol a) \<and> ac_id a = ident"

lemma node_ok_only_sends: "node_ok a \<Longrightarrow> only_sends a a' \<Longrightarrow> node_ok a'"
  by (auto simp: node_ok_def dest: only_sends_protocol)

lemma send_step_ok:
  assumes "node_ok a" "pb_get_current_phase B (protocol a) msg = Some (p, ph)"
    and a2: "(if c then malicious_trigger E B R ph st (set_protocol p a)
              else Some (send_message R st (set_protocol p a))) = Some a2"
  shows "node_ok a2"
proof -
  have "node_ok (set_protocol p a)"
    using assms by (auto simp: node_ok_def intro: phase_inv)
  moreover have "only_sends (set_protocol p a) a2"
    using a2 by (auto split: if_splits dest: malicious_trigger_only_sends
        intro: send_message_only_sends simp del: send_message.simps)
  ultimately show ?thesis by (rule node_ok_only_sends)
qed

lemma send_loop_ok: "node_ok a \<Longrightarrow> send_loop E B R q a = Some a' \<Longrightarrow> node_ok a'"
proof (induction q arbitrary: a)
  case Nil
  then show ?case by simp
next
  case (Cons st q)
  show ?case
  proof (cases st)
    case (Broadcast msg)
    with Cons.prems(2) show ?thesis
      by (auto simp: bind_eq_Some_conv Let_def simp del: send_message.simps
          intro: Cons.IH send_step_ok [OF Cons.prems(1)])
  next
    case (Unicast r msg)
    with Cons.prems(2) show ?thesis
      by (auto simp: bind_eq_Some_conv Let_def simp del: send_message.simps
          intro: Cons.IH send_step_ok [OF Cons.prems(1)])
  next
    case (AmbiguousBroadcast msg amsg n)
    with Cons show ?thesis by simp
  qed
qed

lemma finish_request_ok: "node_ok a \<Longrightarrow> finish_request E R r a = Some a' \<Longrightarrow> node_ok a'"
  by (auto simp: node_ok_def dest: finish_request_protocol)

lemma leader_continues_ok: "node_ok a \<Longrightarrow> node_ok (leader_continues E B a)"
  by (simp add: node_ok_def)

lemma check_protocol_phase_state_ok:
  "node_ok a \<Longrightarrow> check_protocol_phase_state E B R ps a = Some a' \<Longrightarrow> node_ok a'"
  by (cases ps) (auto simp: bind_eq_Some_conv split: option.splits
      intro: leader_continues_ok finish_request_ok send_loop_ok)

lemma run_protocol_ok:
  assumes "node_ok a" "run_protocol E B R call a = Some a'"
    and "\<And>p ps. call (protocol a) = Some (p, ps) \<Longrightarrow> inv p"
  shows "node_ok a'"
proof -
  from assms(2) obtain p ps where "call (protocol a) = Some (p, ps)"
    and c: "check_protocol_phase_state E B R ps (set_protocol p a) = Some a'"
    by (auto simp: run_protocol_def bind_eq_Some_conv)
  with assms(1,3) have "node_ok (set_protocol p a)" by (simp add: node_ok_def)
  then show ?thesis using c by (rule check_protocol_phase_state_ok)
qed

lemma propose_ok:
  assumes "node_ok a" "propose E B R r a = Some a'" "peer_to_bytes E ident = me"
  shows "node_ok a'"
proof -
  from assms(2) obtain a1 where a1: "report_data E
      (ConsensusStartData \<lparr>start_request = r, start_time = act_timestamp R a\<rparr>) a = Some a1"
    and run: "run_protocol E B R (\<lambda>p. pb_message_handler B (choice R) p
        (pb_generate_serialized_request_message B (protocol a) r) (act_id_bytes E a1) (ac_analyzer_id a1))
      (set_protocol (pb_set_current_request B (protocol a1) r) a1) = Some a'"
    by (auto simp: propose_def bind_eq_Some_conv Let_def act_id_bytes_def)
  have "node_ok a1" using assms(1) a1 by (blast intro: node_ok_only_sends report_data_only_sends)
  then have ok: "node_ok (set_protocol (pb_set_current_request B (protocol a1) r) a1)"
    and id: "act_id_bytes E a1 = me"
    using assms(3) by (auto simp: node_ok_def act_id_bytes_def intro: set_request_inv)
  show ?thesis
    using run by (rule run_protocol_ok [OF ok]) (use ok id in \<open>auto simp: node_ok_def intro: handler_inv\<close>)
qed

lemma start_consensus_ok:
  assumes "node_ok a" "start_consensus E B R a = Some a'" "peer_to_bytes E ident = me"
  shows "node_ok a'"
proof (cases "next_request E B R a")
  case None
  with assms(2) obtain a1 r where "refill_buffer E a = Some a1" "propose E B R r a1 = Some a'"
    by (auto simp: start_consensus_def bind_eq_Some_conv)
  moreover from this(1) assms(1) have "node_ok a1" by (auto simp: node_ok_def dest: refill_buffer_protocol)
  ultimately show ?thesis using propose_ok [OF _ _ assms(3)] by simp
next
  case (Some r)
  with assms show ?thesis by (auto simp: start_consensus_def intro: propose_ok)
qed

lemma handler_ok:
  assumes "node_ok a" "peer_to_bytes E ident = me"
    and "run_protocol E B R (\<lambda>p. pb_message_handler B i p m (act_id_bytes E a) from) a = Some a'"
  shows "node_ok a'"
  using assms(3)
  by (rule run_protocol_ok [OF assms(1)])
    (use assms(1,2) in \<open>auto simp: node_ok_def act_id_bytes_def intro: handler_inv\<close>)

lemma notified_ok:
  assumes ok: "node_ok a" and id: "peer_to_bytes E ident = me"
    and turn: "running_turn E B R (ActNotified n) a = Some a'"
  shows "node_ok a'"
proof (cases n)
  case KeyDistributeNotify
  then have "run_protocol E B R (\<lambda>p. pb_extra_initial_start B (choice R) p
      (ord_nodes R (insert (ac_id a) (ac_consensus_nodes a))) (act_id_bytes E a)) a = Some a'"
    using turn by simp
  then show ?thesis
    by (rule run_protocol_ok [OF ok]) (use ok id in \<open>auto simp: node_ok_def act_id_bytes_def intro: start_inv\<close>)
next
  case ViewTimeoutNotify
  then have "run_protocol E B R (\<lambda>p. pb_view_timeout_handler B (choice R) p (ac_id a)) a = Some a'"
    using turn by simp
  then show ?thesis
    by (rule run_protocol_ok [OF ok]) (use ok in \<open>auto simp: node_ok_def intro: timeout_inv\<close>)
next
  case ConsensusNotify
  then show ?thesis using turn ok id by (auto intro: start_consensus_ok)
qed (use turn ok in \<open>auto simp: node_ok_def bind_eq_Some_conv dest: act_reset_protocol\<close>)

lemma running_turn_ok:
  assumes ok: "node_ok a" and id: "peer_to_bytes E ident = me"
    and turn: "running_turn E B R e a = Some a'"
  shows "node_ok a'"
proof (cases e)
  case (ActUnicast src data)
  with turn obtain peer c where "peer_from_bytes E src = Some peer" "ac_controller_id a = Some c"
    and turn': "(if peer_to_string E peer = peer_to_string E c then do {
        m \<leftarrow> from_bincode_message E data;
        Some (running_controller_message_handler E (interactive m) a)
      } else run_protocol E B R
        (\<lambda>p. pb_message_handler B (choice R) p data (act_id_bytes E a) (ac_analyzer_id a)) a) = Some a'"
    by (auto simp: bind_eq_Some_conv)
  show ?thesis
    using turn' ok id
    by (auto simp: bind_eq_Some_conv node_ok_def split: if_splits
        dest: handler_ok [OF ok id, unfolded node_ok_def])
next
  case (ActGossip src data)
  then show ?thesis using turn by (auto intro: handler_ok [OF ok id])
next
  case (ActNotified n)
  then show ?thesis using turn by (auto intro: notified_ok [OF ok id])
qed (use turn ok in auto)

lemma no_running_ok:
  assumes "node_ok a" "no_running_controller_message_handler E B R m a = Some a'"
  shows "node_ok a'"
  using assms
  by (cases m) (auto simp: node_ok_def Let_def split: prod.splits if_splits
      dest!: tell_controller_only_sends phases_loop_only_sends only_sends_protocol
      intro: reset_inv dest: phases_inv)

lemma listening_turn_ok:
  assumes "node_ok a" "listening_turn E B R e a = Some a'"
  shows "node_ok a'"
proof (cases e)
  case (ActUnicast src data)
  with assms show ?thesis
    by (auto simp: bind_eq_Some_conv split: if_splits intro: no_running_ok)
qed (use assms in \<open>auto simp: bind_eq_Some_conv node_ok_def split: if_splits dest: learn_component_protocol\<close>)

lemma act_step_ok:
  assumes "node_ok a" "peer_to_bytes E ident = me" "act_step E B a a'"
  shows "node_ok a'"
  using assms(3)
proof (cases rule: act_step.cases)
  case (notified n R)
  from assms(1) have "node_ok (a\<lparr>permits := permits a - {n}\<rparr>)" by (simp add: node_ok_def)
  then show ?thesis using assms(2) notified(3) by (rule notified_ok)
next
  case (listening R e)
  then show ?thesis using assms(1) by (auto intro: listening_turn_ok)
next
  case (running e R)
  then show ?thesis using assms(1,2) by (auto intro: running_turn_ok)
qed (use assms(1) in \<open>auto simp: node_ok_def\<close>)

lemma network_start_ok:
  assumes "inv p"
  shows "node_ok (network_start B leader (actuator_new ident p))"
  using assms
  by (auto simp: network_start_def actuator_new_def node_ok_def Let_def intro: set_leader_inv init_timeout_notify_inv)

theorem executions_ok:
  assumes "act_reachable E B (network_start B leader (actuator_new ident p)) a"
    and "inv p" and "peer_to_bytes E ident = me"
  shows "node_ok a"
  using assms(1)
  by (induction rule: act_reachable.induct)
    (auto intro: network_start_ok [OF assms(2)] act_step_ok [OF _ assms(3)])

end

subsection \<open>The two protocols behind the interface\<close>

text \<open>
  \<open>impl ProtocolBehaviour for PBFTProtocol\<close>: a call is given the iteration orders that a
  checkpoint would see.
\<close>

definition pbft_behaviour ::
    "'a pbft_ext_scheme \<Rightarrow> (pbft_protocol, string list \<times> (u64 \<times> string) list) protocol_behaviour" where
  "pbft_behaviour P = \<lparr>
     pb_init_timeout_notify = (\<lambda>p h. p),
     pb_extra_initial_start = (\<lambda>i p nodes me. Some (extra_initial_start P p nodes me)),
     pb_message_handler = (\<lambda>i p msg me from. consensus_protocol_message_handler P me p
       \<lparr>in_bytes = msg, in_request_map_order = fst i, in_checkpoints_order = snd i\<rparr>),
     pb_get_current_phase = (\<lambda>p msg. map_option (Pair p) (get_current_phase P msg)),
     pb_protocol_reset = (\<lambda>i. default_protocol_reset),
     pb_view_timeout_handler = (\<lambda>i. default_view_timeout_handler),
     pb_protocol_phases = protocol_phases P,
     pb_phase_map = phase_map,
     pb_current_request = current_request,
     pb_is_leader = is_leader,
     pb_set_leader = default_set_leader,
     pb_generate_serialized_request_message = (\<lambda>p. generate_serialized_request_message P),
     pb_check_taken_request = check_taken_request,
     pb_set_current_request = default_set_current_request\<rparr>"

text \<open>
  \<open>impl ProtocolBehaviour for BasicHotstuffProtocol\<close>: a call is given the randomness of key
  generation, the iteration orders, and the fresh values of a reset.
\<close>

record hs_choice =
  ch_random :: "nat \<Rightarrow> bytes"
  ch_order :: "string list"
  ch_pks_order :: "bytes list"
  ch_peer :: string
  ch_timeout_notify :: nat
  ch_stop_notify :: nat

definition hs_behaviour :: "'a hs_ext_scheme \<Rightarrow> (hs_protocol, hs_choice) protocol_behaviour" where
  "hs_behaviour P = \<lparr>
     pb_init_timeout_notify = init_timeout_notify,
     pb_extra_initial_start = (\<lambda>i. hs_extra_initial_start P (ch_random i) (ch_order i) (ch_pks_order i)),
     pb_message_handler = (\<lambda>i p msg me from.
       hs_message_handler P me p \<lparr>hs_in_bytes = msg, hs_in_pks_order = ch_pks_order i\<rparr>),
     pb_get_current_phase = (\<lambda>p msg. map_option (Pair p) (hs_get_current_phase P msg)),
     pb_protocol_reset = (\<lambda>i. protocol_reset (ch_peer i) (ch_timeout_notify i) (ch_stop_notify i)),
     pb_view_timeout_handler = (\<lambda>i. view_timeout_handler P),
     pb_protocol_phases = hs_protocol_phases P,
     pb_phase_map = hs_phase_map,
     pb_current_request = (\<lambda>p. Some (hs_current_request p)),
     pb_is_leader = hs_is_leader,
     pb_set_leader = default_set_leader,
     pb_generate_serialized_request_message = (\<lambda>p. hs_generate_serialized_request_message P),
     pb_check_taken_request = default_check_taken_request,
     pb_set_current_request = default_set_current_request\<rparr>"

lemmas behaviour_defs =
  default_protocol_phases_def default_protocol_reset_def default_view_timeout_handler_def default_set_leader_def
  default_set_current_request_def default_check_taken_request_def

lemma pbft_behaviour_simps [simp]:
  "pb_init_timeout_notify (pbft_behaviour P) p h = p"
  "pb_extra_initial_start (pbft_behaviour P) i p nodes me = Some (extra_initial_start P p nodes me)"
  "pb_message_handler (pbft_behaviour P) i p msg me from = consensus_protocol_message_handler P me p
     \<lparr>in_bytes = msg, in_request_map_order = fst i, in_checkpoints_order = snd i\<rparr>"
  "pb_get_current_phase (pbft_behaviour P) p msg = map_option (Pair p) (get_current_phase P msg)"
  "pb_protocol_reset (pbft_behaviour P) i p = p"
  "pb_view_timeout_handler (pbft_behaviour P) i p peer = Some (p, ContinueExecute [Broadcast []])"
  "pb_protocol_phases (pbft_behaviour P) = protocol_phases P"
  "pb_phase_map (pbft_behaviour P) = phase_map"
  "pb_current_request (pbft_behaviour P) p = None"
  "pb_is_leader (pbft_behaviour P) = is_leader"
  "pb_set_leader (pbft_behaviour P) p b = p"
  "pb_generate_serialized_request_message (pbft_behaviour P) p r = generate_serialized_request_message P r"
  "pb_check_taken_request (pbft_behaviour P) = check_taken_request"
  "pb_set_current_request (pbft_behaviour P) p r = p"
  by (simp_all add: pbft_behaviour_def behaviour_defs current_request_def)

lemma hs_behaviour_simps [simp]:
  "pb_init_timeout_notify (hs_behaviour P) = init_timeout_notify"
  "pb_extra_initial_start (hs_behaviour P) i =
     hs_extra_initial_start P (ch_random i) (ch_order i) (ch_pks_order i)"
  "pb_message_handler (hs_behaviour P) i p msg me from =
     hs_message_handler P me p \<lparr>hs_in_bytes = msg, hs_in_pks_order = ch_pks_order i\<rparr>"
  "pb_get_current_phase (hs_behaviour P) p msg = map_option (Pair p) (hs_get_current_phase P msg)"
  "pb_protocol_reset (hs_behaviour P) i = protocol_reset (ch_peer i) (ch_timeout_notify i) (ch_stop_notify i)"
  "pb_view_timeout_handler (hs_behaviour P) i = view_timeout_handler P"
  "pb_protocol_phases (hs_behaviour P) = hs_protocol_phases P"
  "pb_phase_map (hs_behaviour P) = hs_phase_map"
  "pb_current_request (hs_behaviour P) p = Some (hs_current_request p)"
  "pb_is_leader (hs_behaviour P) = hs_is_leader"
  "pb_set_leader (hs_behaviour P) p l = p"
  "pb_generate_serialized_request_message (hs_behaviour P) p r = hs_generate_serialized_request_message P r"
  "pb_check_taken_request (hs_behaviour P) p b = False"
  "pb_set_current_request (hs_behaviour P) p r = p"
  by (simp_all add: hs_behaviour_def behaviour_defs)

interpretation pbft_node: protocol_contract "pbft_behaviour P" ident me "pbft_reachable P me" for P ident me
proof (unfold_locales, goal_cases)
  case (2 p i nodes p' ps)
  then show ?case by (auto intro: pbft_reachable.step pbft_step.start)
next
  case (3 p i m src p' ps)
  then show ?case by (auto intro: pbft_reachable.step pbft_step.deliver)
next
  case (7 p)
  obtain p' m where "protocol_phases P p = (p', m)" by fastforce
  with 7 show ?case by (auto intro: pbft_reachable.step pbft_step.phases)
qed auto

interpretation hs_node: protocol_contract "hs_behaviour P" ident me "hs_reachable P me" for P ident me
proof (unfold_locales, goal_cases)
  case (1 p h)
  then show ?case by (auto intro: hs_reachable.hs_next hs_step.hs_notify)
next
  case (2 p i nodes p' ps)
  then show ?case by (auto intro: hs_reachable.hs_next hs_step.hs_start)
next
  case (3 p i m src p' ps)
  then show ?case by (auto intro: hs_reachable.hs_next hs_step.hs_deliver)
next
  case (5 p i)
  then show ?case by (auto intro: hs_reachable.hs_reset)
next
  case (6 p i p' ps)
  then show ?case by (auto intro: hs_reachable.hs_next hs_step.hs_timeout)
next
  case (7 p)
  then show ?case by (auto intro: hs_reachable.hs_next hs_step.hs_phases)
qed auto

end
