(* ===== verification/Actuator_Properties.thy ===== *)
theory Actuator_Properties
  imports Actuator_Interface PBFT_Properties HotStuff_Properties "HOL-Library.Sublist"
begin

text \<open>
  Properties of the protocol actuator: that it drives the protocols only through steps of
  their own transition systems, what an honest node sends, what each dishonest mode changes,
  and where the implementation of these modes fails.
\<close>

subsection \<open>Schedules\<close>

text \<open>One event of a given schedule, and a schedule of events.\<close>

definition act_turn ::
    "'a json_ext_scheme \<Rightarrow> ('p, 'i) protocol_behaviour \<Rightarrow> 'i act_env \<Rightarrow> act_event \<Rightarrow> 'p actuator \<Rightarrow> 'p actuator option" where
  "act_turn E B R e a =
     (if \<not> in_loop a then listening_turn E B R e a
      else case e of
          ActNotified n \<Rightarrow>
            if n \<in> permits a then running_turn E B R e (a\<lparr>permits := permits a - {n}\<rparr>) else None
        | _ \<Rightarrow> running_turn E B R e a)"

primrec act_run ::
    "'a json_ext_scheme \<Rightarrow> ('p, 'i) protocol_behaviour \<Rightarrow> 'i act_env \<Rightarrow> act_event list \<Rightarrow> 'p actuator \<Rightarrow> 'p actuator option" where
  "act_run E B R [] a = Some a"
| "act_run E B R (e # es) a = Option.bind (act_turn E B R e a) (act_run E B R es)"

lemma act_turn_step: "act_turn E B R e a = Some a' \<Longrightarrow> act_step E B a a'"
  by (auto simp: act_turn_def split: if_splits act_event.splits
      intro: act_step.listening act_step.running act_step.notified simp del: running_turn.simps listening_turn.simps)

lemma act_run_reachable:
  "act_reachable E B a0 a \<Longrightarrow> act_run E B R es a = Some a' \<Longrightarrow> act_reachable E B a0 a'"
proof (induction es arbitrary: a)
  case Nil
  then show ?case by simp
next
  case (Cons e es)
  from Cons.prems(2) obtain a1 where "act_turn E B R e a = Some a1" and run: "act_run E B R es a1 = Some a'"
    by (auto simp: bind_eq_Some_conv)
  with Cons.prems(1) have "act_reachable E B a0 a1" by (blast intro: act_reachable.act_next act_turn_step)
  then show ?case using run by (rule Cons.IH)
qed

subsection \<open>The protocols inside the actuator\<close>

text \<open>
  C36. Whatever the network, the controller and the timers do, a node that runs PBFT has a
  protocol object that the transition system of PBFT reaches: the properties of reachable
  PBFT nodes hold for the node the actuator drives, dishonest modes included.
\<close>
theorem actuator_runs_pbft:
  assumes "act_reachable E (pbft_behaviour P)
     (network_start (pbft_behaviour P) leader (actuator_new ident (pbft_default kp))) a"
  shows "pbft_reachable P (peer_to_bytes E ident) (protocol a)"
  using pbft_node.executions_ok [OF assms pbft_reachable.init refl]
  by (simp add: pbft_node.node_ok_def)

text \<open>
  The same holds for basic HotStuff, resets at the start of every test and view
  timeouts included.
\<close>
theorem actuator_runs_hotstuff:
  assumes "act_reachable E (hs_behaviour P)
     (network_start (hs_behaviour P) leader (actuator_new ident (hs_default rnd t s))) a"
  shows "hs_reachable P (peer_to_bytes E ident) (protocol a)"
  using hs_node.executions_ok [OF assms hs_reachable.hs_init refl]
  by (simp add: hs_node.node_ok_def)

subsection \<open>Honest nodes\<close>

text \<open>What a queue entry is on the wire, and the request that a result completes.\<close>

fun wire :: "send_type \<Rightarrow> effect list" where
  "wire (Broadcast msg) = (if msg = [] then [] else [Publish ''Consensus'' msg])"
| "wire (Unicast r msg) = (if msg = [] then [] else [SendMessage r msg])"
| "wire (AmbiguousBroadcast msg amsg n) = []"

fun completed :: "phase_state \<Rightarrow> request option" where
  "completed (Over r) = r"
| "completed (Complete r q) = Some r"
| "completed ps = None"

definition phases_known :: "('p, 'i) protocol_behaviour \<Rightarrow> 'p \<Rightarrow> send_type list \<Rightarrow> bool" where
  "phases_known B p q \<longleftrightarrow> (\<forall>st \<in> set q. \<exists>ph. pb_get_current_phase B p (message_of st) = Some (p, ph))"

lemma send_message_wire:
  "(\<forall>m am n. st \<noteq> AmbiguousBroadcast m am n) \<Longrightarrow>
   send_message R st a = a\<lparr>ac_effects := ac_effects a @ wire st\<rparr>"
  by (cases st) auto

lemma send_loop_honest:
  assumes "\<not> malicious_flag a" "phases_known B (protocol a) q"
  shows "send_loop E B R q a = Some (a\<lparr>ac_effects := ac_effects a @ concat (map wire q)\<rparr>)"
  using assms
proof (induction q arbitrary: a)
  case Nil
  then show ?case by simp
next
  case (Cons st q)
  from Cons.prems(2) obtain ph where ph: "pb_get_current_phase B (protocol a) (message_of st) = Some (protocol a, ph)"
    and q: "phases_known B (protocol a) q"
    by (auto simp: phases_known_def)
  show ?case
    using Cons.prems(1) ph q
    by (cases st) (simp_all add: Cons.IH send_message_wire)
qed

lemma finish_request_eq:
  "ac_analyzer_id a = Some an \<Longrightarrow> finish_request E R r a =
     Some (a\<lparr>ac_effects := ac_effects a @ [SendMessage an (json_consensus_data E
              (ConsensusEndData \<lparr>end_request = r, completed_time = act_timestamp R a\<rparr>))],
            request_buffer := (request_buffer a)(get_request_hash E r := None)\<rparr>)"
  by (simp add: finish_request_def report_data_def)

text \<open>
  An honest node puts exactly the queue of the protocol on the network, in its order and
  without the empty messages. When the result completes a request, the analyzer is told once,
  after the queue, and the request leaves the buffer; no other request does. The leader
  asks for the next request when the result is the end of a round.
\<close>
theorem honest_node_delivers:
  assumes "\<not> malicious_flag a" "phases_known B (protocol a) (sends ps)" "ac_analyzer_id a = Some an"
  shows "check_protocol_phase_state E B R ps a = Some (a\<lparr>
     ac_effects := ac_effects a @ concat (map wire (sends ps)) @
       (case completed ps of
          None \<Rightarrow> []
        | Some r \<Rightarrow> [SendMessage an (json_consensus_data E (ConsensusEndData \<lparr>end_request = r,
            completed_time = act_clock R (length (ac_effects a @ concat (map wire (sends ps))))\<rparr>))]),
     request_buffer := (case completed ps of
          None \<Rightarrow> request_buffer a
        | Some r \<Rightarrow> (request_buffer a)(get_request_hash E r := None)),
     consensus_state := (consensus_state a \<or>
       (case ps of Over r \<Rightarrow> True | OverMessage r q \<Rightarrow> True | _ \<Rightarrow> False) \<and>
       pb_is_leader B (protocol a) (act_id_bytes E a))\<rparr>)"
proof (cases ps)
  case (Over r)
  with assms show ?thesis
    by (cases r) (simp_all add: finish_request_eq leader_continues_def act_id_bytes_def act_timestamp_def)
qed (use assms in \<open>simp_all add: send_loop_honest finish_request_eq leader_continues_def act_id_bytes_def
      act_timestamp_def\<close>)

subsection \<open>Dishonest nodes\<close>

text \<open>
  A leader ordered to send ambiguous messages in a phase splits the other nodes: every one of
  them gets exactly one copy, as many as ordered (all, if there are fewer) get the corrupted one, the
  others the genuine one, and nothing else is sent.
\<close>
theorem ambiguous_broadcast_splits:
  assumes "ac_mode a = ModeDishonest (ModeLeaderSendAmbiguousMessage d ph field n)"
    and "pb_current_request B (protocol a) = Some req" "pb_is_leader B (protocol a) (act_id_bytes E a)"
    and "generate_a_error_message E B (protocol a) msg field ph = Some amsg" "message_of st = msg"
    and order: "distinct (ord_nodes R (other_consensus_node a))"
      "set (ord_nodes R (other_consensus_node a)) = other_consensus_node a"
  shows "\<exists>good bad. malicious_trigger E B R ph st a = Some (a\<lparr>ac_effects := ac_effects a @
       map (\<lambda>p. SendMessage p msg) good @ map (\<lambda>p. SendMessage p amsg) bad\<rparr>) \<and>
     distinct (good @ bad) \<and> set (good @ bad) = other_consensus_node a \<and>
     length bad = min (unat n) (card (other_consensus_node a))"
proof -
  let ?ns = "ord_nodes R (other_consensus_node a)"
  have len: "length ?ns = card (other_consensus_node a)"
    using order distinct_card [of ?ns] by simp
  obtain good bad where div: "divide_consensus_nodes R a n = (good, bad)" by fastforce
  then have "malicious_trigger E B R ph st a = Some (a\<lparr>ac_effects := ac_effects a @
       map (\<lambda>p. SendMessage p msg) good @ map (\<lambda>p. SendMessage p amsg) bad\<rparr>)"
    using assms(1-5) by (simp add: malicious_trigger_def Let_def)
  moreover have "good = drop (unat n) ?ns" "bad = take (unat n) ?ns"
    using div len by (auto simp: divide_consensus_nodes_def Let_def split: if_splits)
  moreover have "distinct (drop k ?ns @ take k ?ns) \<and> set (drop k ?ns @ take k ?ns) = other_consensus_node a" for k
    using order set_take_disj_set_drop_if_distinct [of ?ns k k] append_take_drop_id [of k ?ns, symmetric]
    by (metis Un_commute distinct_append inf_commute order.refl set_append)
  ultimately show ?thesis using len by (intro exI [of _ good] exI [of _ bad]) simp
qed

text \<open>Which entries of a queue the dishonest code sees, and their phase.\<close>

fun triggers :: "'p actuator \<Rightarrow> send_type \<Rightarrow> bool" where
  "triggers a (Broadcast msg) = malicious_flag a"
| "triggers a (Unicast r msg) = (malicious_flag a \<and> ac_is_leader a)"
| "triggers a (AmbiguousBroadcast msg amsg n) = False"

definition phase_of :: "('p, 'i) protocol_behaviour \<Rightarrow> 'p \<Rightarrow> send_type \<Rightarrow> u8" where
  "phase_of B p st = snd (the (pb_get_current_phase B p (message_of st)))"

text \<open>A queue goes out entry by entry when the dishonest code of a mode does.\<close>

lemma send_loop_dishonest:
  assumes "phases_known B (protocol a) q"
    and "\<And>es st. st \<in> set q \<Longrightarrow> triggers a st \<Longrightarrow>
      malicious_trigger E B R (phase_of B (protocol a) st) st (a\<lparr>ac_effects := es\<rparr>) = Some (a\<lparr>ac_effects := es @ f st\<rparr>)"
  shows "send_loop E B R q a =
     Some (a\<lparr>ac_effects := ac_effects a @ concat (map (\<lambda>st. if triggers a st then f st else wire st) q)\<rparr>)"
proof -
  have "send_loop E B R q (a\<lparr>ac_effects := es\<rparr>) =
      Some (a\<lparr>ac_effects := es @ concat (map (\<lambda>st. if triggers a st then f st else wire st) q)\<rparr>)" for es
    using assms
  proof (induction q arbitrary: es)
    case Nil
    then show ?case by simp
  next
    case (Cons st q)
    from Cons.prems(1) obtain ph where ph: "pb_get_current_phase B (protocol a) (message_of st) = Some (protocol a, ph)"
      and q: "phases_known B (protocol a) q"
      by (auto simp: phases_known_def)
    have tr: "malicious_trigger E B R ph st (a\<lparr>ac_effects := es\<rparr>) = Some (a\<lparr>ac_effects := es @ f st\<rparr>)"
      if "triggers a st"
      using Cons.prems(2) [of st es] that ph by (simp add: phase_of_def)
    have IH: "send_loop E B R q (a\<lparr>ac_effects := es\<rparr>) =
      Some (a\<lparr>ac_effects := es @ concat (map (\<lambda>st. if triggers a st then f st else wire st) q)\<rparr>)" for es
      using Cons.IH [OF q] Cons.prems(2) by simp
    show ?case
      using ph tr by (cases st) (auto simp: IH send_message_wire Let_def)
  qed
  from this [of "ac_effects a"] show ?thesis by simp
qed

text \<open>
  A node ordered to feign death in a phase keeps silent in exactly that phase: from the
  queue of the protocol the messages of the phase are missing (unicasts only if the
  node was started as the leader), all others are sent in order.
\<close>
theorem feigned_death_silences_phase:
  assumes "ac_mode a = ModeDishonest (ModeLeaderFeignDeath d ph)"
    and "pb_current_request B (protocol a) = Some req" "phases_known B (protocol a) q"
  shows "send_loop E B R q a = Some (a\<lparr>ac_effects := ac_effects a @
     concat (map wire (filter (\<lambda>st. \<not> (triggers a st \<and> phase_of B (protocol a) st = ph)) q))\<rparr>)"
proof -
  let ?f = "\<lambda>st. if phase_of B (protocol a) st = ph then [] else wire st"
  have "malicious_trigger E B R (phase_of B (protocol a) st) st (a\<lparr>ac_effects := es\<rparr>) =
      Some (a\<lparr>ac_effects := es @ ?f st\<rparr>)" if "triggers a st" for es st
    using assms(1,2) that by (cases st) (simp_all add: malicious_trigger_def)
  note send_loop_dishonest [OF assms(3) this]
  moreover have "concat (map (\<lambda>st. if triggers a st then ?f st else wire st) q) =
      concat (map wire (filter (\<lambda>st. \<not> (triggers a st \<and> phase_of B (protocol a) st = ph)) q))"
    by (induction q) auto
  ultimately show ?thesis by simp
qed

text \<open>
  A node ordered to delay its messages does not delay any: it sends the same
  messages in the same order as an honest node.
\<close>
theorem delay_mode_never_delays:
  assumes "ac_mode a = ModeDishonest (ModeLeaderDelaySendMessage d ph)"
    and "pb_current_request B (protocol a) = Some req" "phases_known B (protocol a) q"
  shows "map_option ac_effects (send_loop E B R q a) =
     map_option ac_effects (send_loop E B R q (a\<lparr>malicious_flag := False\<rparr>))"
proof -
  have "malicious_trigger E B R (phase_of B (protocol a) st) st (a\<lparr>ac_effects := es\<rparr>) =
      Some (a\<lparr>ac_effects := es @ wire st\<rparr>)" if "triggers a st" for es st
    using assms(1,2) that by (cases st) (simp_all add: malicious_trigger_def)
  from send_loop_dishonest [OF assms(3) this] show ?thesis
    using send_loop_honest [of "a\<lparr>malicious_flag := False\<rparr>" B q E R] assms(3)
    by (simp cong: if_cong)
qed

subsection \<open>Corrupted messages\<close>

lemma map_of_map_insert: "map_of (map_insert k v m) k' = (if k' = k then Some v else map_of m k')"
  by (induction m) auto

lemma json_at_Cons: "json_at j (k # ks) = (case j of JObject m \<Rightarrow> Option.bind (map_of m k) (\<lambda>v. json_at v ks) | _ \<Rightarrow> None)"
  by (cases j) simp_all

lemma json_at_index: "ks \<noteq> [] \<Longrightarrow> json_at j (k # ks) = json_at (json_index j k) ks"
  by (cases j; cases ks) (auto simp: json_index_def json_at_Cons split: option.splits)

lemma json_at_leaf: "json_at j [k] = Some v \<Longrightarrow> json_index j k = v"
  by (cases j) (auto simp: json_index_def bind_eq_Some_conv)

text \<open>An assignment sets the value at its path and nothing beside it.\<close>

lemma json_assign_object:
  assumes "json_assign j (k # ks) x = Some j'"
  shows "\<exists>y m'. json_assign (json_index j k) ks x = Some y \<and> j' = JObject m' \<and> map_of m' k = Some y \<and>
     (\<forall>k' q. k' \<noteq> k \<longrightarrow> json_at j' (k' # q) = json_at j (k' # q))"
  using assms by (cases j) (auto simp: json_index_def map_of_map_insert)

lemma json_assign_at: "json_assign j ks x = Some j' \<Longrightarrow> json_at j' ks = Some x"
proof (induction ks arbitrary: j j')
  case Nil
  then show ?case by simp
next
  case (Cons k ks)
  from json_assign_object [OF Cons.prems] show ?case by (auto dest: Cons.IH)
qed

lemma json_assign_other:
  "json_assign j ks x = Some j' \<Longrightarrow> \<not> prefix ks q \<Longrightarrow> \<not> prefix q ks \<Longrightarrow> json_at j' q = json_at j q"
proof (induction ks arbitrary: j j' q)
  case Nil
  then show ?case by simp
next
  case (Cons k ks)
  from Cons.prems(3) obtain k' q' where q: "q = k' # q'" by (cases q) auto
  from json_assign_object [OF Cons.prems(1)] obtain y m' where y: "json_assign (json_index j k) ks x = Some y"
    and j': "j' = JObject m'" "map_of m' k = Some y"
    and other: "\<And>k' q. k' \<noteq> k \<Longrightarrow> json_at j' (k' # q) = json_at j (k' # q)"
    by auto
  show ?case
  proof (cases "k' = k")
    case True
    with q Cons.prems(2,3) have "\<not> prefix ks q'" "\<not> prefix q' ks" "q' \<noteq> []" by auto
    with Cons.IH [OF y] j' True q show ?thesis by (simp add: json_at_index)
  qed (use other q in simp)
qed

lemma json_assign_returns:
  "json_at j ks = Some v \<Longrightarrow> \<exists>j'. json_assign j ks x = Some j'"
proof (induction ks arbitrary: j)
  case Nil
  then show ?case by simp
next
  case (Cons k ks)
  from Cons.prems obtain m w where "j = JObject m" "map_of m k = Some w" "json_at w ks = Some v"
    by (cases j) (auto simp: bind_eq_Some_conv)
  with Cons.IH [of w] show ?case by (auto simp: json_index_def)
qed

lemma error_json_eq:
  assumes "json_at j [''msg_type'', T, f] = Some v"
  shows "error_json T f j = Option.bind (error_value v) (json_assign j [''msg_type'', T, f])"
proof -
  from assms have "json_index (json_index (json_index j ''msg_type'') T) f = v"
    by (simp add: json_at_index json_at_leaf)
  then show ?thesis by (simp add: error_json_def del: json_assign.simps)
qed

lemma generate_a_error_message_eq:
  assumes "json_from_slice E msg = Some j" "pb_phase_map B p ph = Some T" "error_json T f j = Some j'"
  shows "generate_a_error_message E B p msg (f # rest) ph = Some (json_to_bytes E j')"
proof -
  from assms(3) have "\<exists>m. j' = JObject m"
    by (auto simp: error_json_def bind_eq_Some_conv simp del: json_assign.simps dest!: json_assign_object)
  with assms show ?thesis by (auto simp: generate_a_error_message_def)
qed

text \<open>
  A corrupted message differs from the genuine one in the ordered field of its phase
  only: that field has the corrupted value, and every path beside it leads to what it led to before.
\<close>
theorem error_message_changes_one_field:
  assumes "json_from_slice E msg = Some j" "pb_phase_map B p ph = Some T"
    and at: "json_at j [''msg_type'', T, f] = Some v" and v': "error_value v = Some v'"
  shows "\<exists>j'. generate_a_error_message E B p msg (f # rest) ph = Some (json_to_bytes E j') \<and>
     json_at j' [''msg_type'', T, f] = Some v' \<and>
     (\<forall>q. \<not> prefix [''msg_type'', T, f] q \<and> \<not> prefix q [''msg_type'', T, f] \<longrightarrow> json_at j' q = json_at j q)"
proof -
  from json_assign_returns [OF at] obtain j' where j': "json_assign j [''msg_type'', T, f] v' = Some j'" by blast
  then have "error_json T f j = Some j'" using v' by (simp add: error_json_eq [OF at])
  from generate_a_error_message_eq [OF assms(1,2) this] json_assign_at [OF j'] json_assign_other [OF j']
  show ?thesis by blast
qed

text \<open>Objects in the order of their keys, as serde_json keeps them.\<close>

fun json_sorted :: "json \<Rightarrow> bool" where
  "json_sorted (JObject m) \<longleftrightarrow> sorted_wrt (<) (map fst m) \<and> (\<forall>e \<in> set m. json_sorted (snd e))"
| "json_sorted (JArray js) \<longleftrightarrow> (\<forall>j \<in> set js. json_sorted j)"
| "json_sorted j \<longleftrightarrow> True"

lemma map_insert_same: "sorted_wrt (<) (map fst m) \<Longrightarrow> map_of m k = Some v \<Longrightarrow> map_insert k v m = m"
proof (induction m)
  case Nil
  then show ?case by simp
next
  case (Cons e m)
  then have "\<not> k < fst e" if "fst e \<noteq> k"
    using that by (auto dest!: map_of_SomeD)
  with Cons show ?case by (cases e) auto
qed

lemma json_assign_same: "json_sorted j \<Longrightarrow> json_at j ks = Some v \<Longrightarrow> json_assign j ks v = Some j"
proof (induction ks arbitrary: j)
  case Nil
  then show ?case by simp
next
  case (Cons k ks)
  from Cons.prems(2) obtain m w where j: "j = JObject m" "map_of m k = Some w" "json_at w ks = Some v"
    by (cases j) (auto simp: bind_eq_Some_conv)
  with Cons.prems(1) have "json_sorted w" by (force dest: map_of_SomeD)
  with Cons.IH j Cons.prems(1) show ?case by (simp add: json_index_def map_insert_same)
qed

text \<open>
  A field inside another field is never corrupted: the code reads only the first key of
  the ordered field, finds an object there and writes the same object back, so the corrupted message is the
  genuine one. The same happens to an absent optional field.
\<close>
theorem nested_field_is_kept:
  assumes "json_from_slice E msg = Some j" "pb_phase_map B p ph = Some T" "json_sorted j"
    and at: "json_at j [''msg_type'', T, f] = Some v" and v: "v = JNull \<or> (\<exists>m. v = JObject m)"
  shows "generate_a_error_message E B p msg (f # rest) ph = Some (json_to_bytes E j)"
proof (rule generate_a_error_message_eq [OF assms(1,2)])
  from v have "error_value v = Some v" by auto
  with json_assign_same [OF assms(3) at] show "error_json T f j = Some j"
    by (simp add: error_json_eq [OF at])
qed
text \<open>
  In basic HotStuff the corrupted messages of the later phases are malformed: the phase of a
  message and the name under which the node looks for its fields come from two different
  numberings, so the field is looked up under a name the message does not
  have and a second variant, with a null field, is added to the untouched one.
\<close>
theorem hotstuff_corrupts_wrong_variant:
  assumes "(ph, M, T) \<in> {(1, ''PrepareVote'', ''Prepare''), (2, ''PreCommit'', ''Vote''), (2, ''PreCommitVote'', ''Vote''),
      (3, ''Commit'', ''PreCommit''), (3, ''CommitVote'', ''PreCommit'')}"
    and "json_from_slice E msg = Some (JObject [(''msg_type'', JObject [(M, body)])])"
  shows "\<exists>m. generate_a_error_message E (hs_behaviour P) (fst (hs_protocol_phases P p)) msg (f # rest) ph =
       Some (json_to_bytes E (JObject [(''msg_type'', JObject m)])) \<and>
     set m = {(M, body), (T, JObject [(f, JNull)])} \<and> length m = 2"
proof -
  have T: "pb_phase_map (hs_behaviour P) (fst (hs_protocol_phases P p)) ph = Some T" and "T \<noteq> M"
    using assms(1) by (auto simp: hs_protocol_phases_def Let_def)
  then have "error_json T f (JObject [(''msg_type'', JObject [(M, body)])]) =
      Some (JObject [(''msg_type'', JObject (map_insert T (JObject [(f, JNull)]) [(M, body)]))])"
    by (simp add: error_json_def json_index_def)
  from generate_a_error_message_eq [OF assms(2) T this] \<open>T \<noteq> M\<close> show ?thesis
    by (intro exI [of _ "map_insert T (JObject [(f, JNull)]) [(M, body)]"]) auto
qed

text \<open>
  Every dishonest mode brings a PBFT node down: before it looks at the mode, the code asks the protocol for
  its current request, which PBFT does not implement. Once the trigger has fired, the first broadcast panics.
\<close>
theorem pbft_dishonest_panics:
  assumes "malicious_flag a" "Broadcast msg \<in> set (sends ps)"
  shows "check_protocol_phase_state E (pbft_behaviour P) R ps a = None"
proof -
  have "send_loop E (pbft_behaviour P) R q a = None" if "Broadcast msg \<in> set q" "malicious_flag a" for q a
    using that
  proof (induction q arbitrary: a)
    case (Cons st q)
    have "send_loop E (pbft_behaviour P) R q (send_message R st a) = None" if "Broadcast msg \<in> set q" for st
      using Cons.IH [OF that, of "send_message R st a"] Cons.prems(2) send_message_only_sends [of a R st]
      by (auto simp: only_sends_def)
    with Cons.prems show ?case
      by (cases st; cases "get_current_phase P (message_of st)")
        (auto simp: malicious_trigger_def Let_def Cons.IH simp del: send_message.simps)
  qed simp
  with assms show ?thesis by (cases ps) simp_all
qed

subsection \<open>Requests\<close>

definition buffer_order_ok :: "'i act_env \<Rightarrow> bool" where
  "buffer_order_ok R \<longleftrightarrow> (\<forall>S. finite S \<longrightarrow> set (ord_buffer R S) = S)"

definition untaken :: "'a ext_scheme \<Rightarrow> ('p, 'i) protocol_behaviour \<Rightarrow> 'p \<Rightarrow> request \<Rightarrow> bool" where
  "untaken E B p r \<longleftrightarrow> \<not> pb_check_taken_request B p (bincode_request E r)"

lemma next_request_loop_cases:
  "case next_request_loop E B a ks of
     Some r \<Rightarrow> (\<exists>k \<in> set ks. request_buffer a k = Some r) \<and> untaken E B (protocol a) r
   | None \<Rightarrow> \<forall>k \<in> set ks. \<forall>r. request_buffer a k = Some r \<longrightarrow> \<not> untaken E B (protocol a) r"
  by (induction ks) (auto simp: untaken_def split: option.splits)

lemma next_request_cases:
  assumes "buffer_order_ok R" "finite (dom (request_buffer a))"
  shows "case next_request E B R a of
      Some r \<Rightarrow> r \<in> ran (request_buffer a) \<and> untaken E B (protocol a) r
    | None \<Rightarrow> \<forall>r \<in> ran (request_buffer a). \<not> untaken E B (protocol a) r"
  using next_request_loop_cases [where E = E and B = B and a = a and ks = "ord_buffer R (dom (request_buffer a))"] assms
  by (auto simp: next_request_def buffer_order_ok_def ran_def split: option.splits)

lemma write_requests_eq:
  "write_requests_into_buffer E rs a =
     a\<lparr>request_buffer := request_buffer a ++ map_of (rev (map (\<lambda>r. (get_request_hash E r, r)) rs))\<rparr>"
proof (induction rs arbitrary: a)
  case Nil
  then show ?case by (simp add: write_requests_into_buffer_def)
next
  case (Cons r rs)
  have "write_requests_into_buffer E (r # rs) a = write_requests_into_buffer E rs
      (a\<lparr>request_buffer := (request_buffer a)(get_request_hash E r \<mapsto> r)\<rparr>)"
    by (simp add: write_requests_into_buffer_def)
  with Cons.IH show ?case by (simp add: map_add_upd_left map_add_def fun_eq_iff split: option.splits)
qed

definition generated :: "u64 \<Rightarrow> request list" where
  "generated n = map (\<lambda>i. \<lparr>cmd = ''Request_'' @ decimal i\<rparr>) [unat n * 50..<unat n * 50 + 50]"

lemma refill_buffer_eq:
  assumes "unat (ac_round a) * 50 + 50 < 2 ^ 64"
  shows "refill_buffer E a =
     Some (write_requests_into_buffer E (generated (ac_round a)) (a\<lparr>ac_round := ac_round a + 1\<rparr>))"
proof -
  have s: "u64_mul (ac_round a) 50 = Some (ac_round a * 50)" "unat (ac_round a * 50) = unat (ac_round a) * 50"
    using assms u64_mul_unat [of "ac_round a" 50 "ac_round a * 50"] by (simp_all add: u64_mul_def)
  have r: "u64_add (ac_round a) 1 = Some (ac_round a + 1)" "unat (ac_round a + 1) = unat (ac_round a) + 1"
    using assms u64_add_unat [of "ac_round a" 1 "ac_round a + 1"] by (simp_all add: u64_add_def)
  have e: "u64_mul (ac_round a + 1) 50 = Some ((ac_round a + 1) * 50)"
    "unat ((ac_round a + 1) * 50) = unat (ac_round a) * 50 + 50"
    using assms r u64_mul_unat [of "ac_round a + 1" 50 "(ac_round a + 1) * 50"] by (simp_all add: u64_mul_def)
  show ?thesis using s r e by (simp add: refill_buffer_def generated_def)
qed

text \<open>
  When every buffered request is taken, the leader makes up the fifty requests of its round
  and proposes one of them or one that was buffered; whatever it proposes, the protocol has not taken it. 
\<close>
theorem exhausted_buffer_is_refilled:
  assumes "buffer_order_ok R" "finite (dom (request_buffer a))"
    and "\<forall>r \<in> ran (request_buffer a). \<not> untaken E B (protocol a) r"
    and "unat (ac_round a) * 50 + 50 < 2 ^ 64"
    and "r0 \<in> set (generated (ac_round a))" "untaken E B (protocol a) r0" "inj (get_request_hash E)"
  defines "a1 \<equiv> write_requests_into_buffer E (generated (ac_round a)) (a\<lparr>ac_round := ac_round a + 1\<rparr>)"
  shows "\<exists>r \<in> set (generated (ac_round a)). untaken E B (protocol a) r \<and>
      start_consensus E B R a = propose E B R r a1"
proof -
  let ?m = "map_of (rev (map (\<lambda>r. (get_request_hash E r, r)) (generated (ac_round a))))"
  have a1: "request_buffer a1 = request_buffer a ++ ?m" "protocol a1 = protocol a"
    by (simp_all add: a1_def write_requests_eq)
  have gen: "r \<in> set (generated (ac_round a))" if "?m k = Some r" for k r
    using that by (auto dest!: map_of_SomeD)
  have "?m (get_request_hash E r0) \<noteq> None" using assms(5)
    by (simp add: map_of_eq_None_iff image_image)
  then obtain r' where "?m (get_request_hash E r0) = Some r'" by blast
  then have "?m (get_request_hash E r0) = Some r0"
    using assms(7) by (auto dest!: map_of_SomeD simp: inj_eq)
  then have "request_buffer a1 (get_request_hash E r0) = Some r0" by (simp add: a1)
  then have r0: "r0 \<in> ran (request_buffer a1)" by (rule ranI)
  have "finite (dom (request_buffer a1))" using assms(2) by (simp add: a1 finite_dom_map_of)
  note cases1 = next_request_cases [OF assms(1) this, of E B]
  have "next_request E B R a = None"
    using next_request_cases [OF assms(1,2), of E B] assms(3) by (auto split: option.splits)
  moreover obtain r where r: "next_request E B R a1 = Some r" "r \<in> ran (request_buffer a1)" "untaken E B (protocol a) r"
    using cases1 r0 assms(6) by (auto simp: a1 split: option.splits)
  moreover have "r \<in> set (generated (ac_round a))"
    using r(2,3) gen assms(3) by (auto simp: a1 ran_def map_add_Some_iff)
  ultimately show ?thesis
    using refill_buffer_eq [OF assms(4), of E] r by (auto simp: start_consensus_def a1_def)
qed

subsection \<open>Stopping\<close>

text \<open>
  Stopping a node does not disarm its timers: a crash timer that fires after the node has been
  stopped leaves a permit behind, and the node, configured as honest for the next test, drops out of
  it as soon as it has started, reporting to the controller that it was reset.
\<close>
theorem stale_crash_timer_stops_honest_node:
  assumes "\<not> in_loop a" "CrashNotify \<in> permits a" "ac_controller_id a = Some c"
  shows "\<exists>a1 a2 a3. no_running_controller_message_handler E B R (ConfigureConsensusNode s) a = Some a1 \<and>
     no_running_controller_message_handler E B R (ProtocolStart n) a1 = Some a2 \<and>
     in_loop a2 \<and> act_step E B a2 a3 \<and> \<not> in_loop a3 \<and> ac_mode a3 = ModeHonest s \<and>
     ac_effects a3 = ac_effects a2 @ [Unsubscribe ''Consensus'',
       SendMessage c (bincode_message E \<lparr>interactive = ResetSuccess (ModeHonest s), source = []\<rparr>)]"
proof -
  obtain a1 where a1: "no_running_controller_message_handler E B R (ConfigureConsensusNode s) a = Some a1"
    and m: "ac_mode a1 = ModeHonest s" "permits a1 = permits a" "ac_controller_id a1 = Some c"
    using assms(3) by (simp add: tell_controller_def)
  define a2 where "a2 = message_handler_enter (set_protocol (pb_protocol_reset B (choice R) (protocol a1)) a1)"
  have a2: "in_loop a2" "CrashNotify \<in> permits a2" "ac_mode a2 = ModeHonest s" "ac_controller_id a2 = Some c"
    using m assms(2) by (simp_all add: a2_def message_handler_enter_def key_distribute_def act_notify_def
        protocol_start_preprocess_def)
  obtain a3 where a3: "running_turn E B R (ActNotified CrashNotify) (a2\<lparr>permits := permits a2 - {CrashNotify}\<rparr>) = Some a3"
    and "\<not> in_loop a3" "ac_mode a3 = ModeHonest s"
    "ac_effects a3 = ac_effects a2 @ [Unsubscribe ''Consensus'',
       SendMessage c (bincode_message E \<lparr>interactive = ResetSuccess (ModeHonest s), source = []\<rparr>)]"
    using a2 by (simp add: act_reset_def tell_controller_def)
  moreover have "act_step E B a2 a3" using act_step.notified [OF a2(1,2) a3] .
  ultimately show ?thesis using a1 a2(1) by (auto simp: a2_def)
qed

subsection \<open>A concrete node\<close>

text \<open>
  A coding in which single bytes stand for the messages of a run: the controller is node
  \<open>[5]\<close>, the analyzer node \<open>[6]\<close>.
\<close>

definition act_demo_ext :: json_ext where
  "act_demo_ext = \<lparr>sha3_256_hex = chars, bincode_request = (\<lambda>r. as_bytes (cmd r)),
     json_request = (\<lambda>r. as_bytes (cmd r)), from_json_request = (\<lambda>b. None),
     peer_from_bytes = Some, peer_to_bytes = (\<lambda>p. p), peer_to_string = chars,
     dalek_public = (\<lambda>k. k), dalek_sign = (\<lambda>k m. m), dalek_public_key_ok = (\<lambda>k. True),
     dalek_signature_ok = (\<lambda>s. True), dalek_verify = (\<lambda>k m s. True),
     bincode_message = (\<lambda>m. [4]), from_bincode_message = (\<lambda>b.
       if b = [1] then Some \<lparr>interactive = ComponentInfo (Controller [5]), source = []\<rparr>
       else if b = [2] then Some \<lparr>interactive = ComponentInfo (Analyzer [6]), source = []\<rparr>
       else if b = [3] then Some \<lparr>interactive = ProtocolStart 0, source = []\<rparr>
       else None),
     json_consensus_data = (\<lambda>d. [8]), from_json_consensus_data = (\<lambda>b. None),
     json_from_slice = (\<lambda>b. Some (JObject [(''msg_type'', if b = [9]
       then JObject [(''Prepare'', JObject [(''block'', JObject []), (''view_num'', JNumber (PosInt 1))])]
       else JObject [(''PreCommit'', JNull)])])),
     json_to_bytes = (\<lambda>j. [7])\<rparr>"

definition act_demo_env :: "'i \<Rightarrow> 'i act_env" where
  "act_demo_env i = \<lparr>ord_nodes = (\<lambda>S. filter (\<lambda>p. p \<in> S) [[2], [3], [4]]), ord_buffer = (\<lambda>S. sorted_list_of_set S),
     ord_phases = (\<lambda>S. sorted_list_of_set S), act_clock = of_nat, choice = i\<rparr>"

definition act_demo_choice :: hs_choice where
  "act_demo_choice = \<lparr>ch_random = \<lambda>n. [], ch_order = [], ch_pks_order = [],
     ch_peer = '''', ch_timeout_notify = 2, ch_stop_notify = 3\<rparr>"

lemma act_demo_fields [simp]:
  "peer_from_bytes act_demo_ext = Some" "peer_to_bytes act_demo_ext = (\<lambda>p. p)"
  "bincode_message act_demo_ext = (\<lambda>m. [4])" "json_consensus_data act_demo_ext = (\<lambda>d. [8])"
  "json_to_bytes act_demo_ext = (\<lambda>j. [7])"
  "from_bincode_message act_demo_ext [1] = Some \<lparr>interactive = ComponentInfo (Controller [5]), source = []\<rparr>"
  "from_bincode_message act_demo_ext [2] = Some \<lparr>interactive = ComponentInfo (Analyzer [6]), source = []\<rparr>"
  "from_bincode_message act_demo_ext [3] = Some \<lparr>interactive = ProtocolStart 0, source = []\<rparr>"
  "act_id_bytes act_demo_ext a = ac_id a"
  by (simp_all add: act_demo_ext_def act_id_bytes_def)

definition act_demo_events :: "bytes \<Rightarrow> act_event list" where
  "act_demo_events b = [ActDiscovered [[2], [3]], ActGossip [5] [1], ActGossip [6] [2], ActUnicast [5] [3],
     ActGossip [2] b]"

lemmas act_run_simps =
  act_demo_events_def act_turn_def verify_initialization_def learn_component_def forget_node_def discover_def
  message_handler_enter_def protocol_start_preprocess_def key_distribute_def act_notify_def
  network_start_def actuator_new_def run_protocol_def

theorem actuator_runs_pbft_witness:
  "\<exists>a. act_run act_demo_ext (pbft_behaviour demo) (act_demo_env ([], [])) (act_demo_events [3, 2])
      (network_start (pbft_behaviour demo) False (actuator_new [1] (pbft_default [9]))) = Some a \<and>
    consensus_node_pk (protocol a) [2] = Some [2] \<and> pbft_reachable demo [1] (protocol a)"
proof -
  let ?a0 = "network_start (pbft_behaviour demo) False (actuator_new [1] (pbft_default [9]))"
  obtain a where a: "act_run act_demo_ext (pbft_behaviour demo) (act_demo_env ([], [])) (act_demo_events [3, 2]) ?a0 = Some a"
    and "consensus_node_pk (protocol a) [2] = Some [2]"
    by (simp add: act_run_simps consensus_protocol_message_handler_def storage_public_key_by_peer_id_def
        demo_key_def pbft_default_def)
  moreover have "act_reachable act_demo_ext (pbft_behaviour demo) ?a0 a"
    by (rule act_run_reachable [OF act_reachable.act_init a])
  ultimately show ?thesis using actuator_runs_pbft by fastforce
qed

theorem actuator_runs_hotstuff_witness:
  "\<exists>a. act_run act_demo_ext (hs_behaviour hs_demo) (act_demo_env act_demo_choice) (act_demo_events [1])
      (network_start (hs_behaviour hs_demo) False (actuator_new [1] (hs_default '''' 0 1))) = Some a \<and>
    view_timeout_notify (protocol a) = 2 \<and> hs_reachable hs_demo [1] (protocol a)"
proof -
  let ?R = "act_demo_env act_demo_choice"
  let ?a0 = "network_start (hs_behaviour hs_demo) False (actuator_new [1] (hs_default '''' 0 1))"
  obtain a where a: "act_run act_demo_ext (hs_behaviour hs_demo) ?R (act_demo_events [1]) ?a0 = Some a"
    and "view_timeout_notify (protocol a) = 2"
    by (simp add: act_run_simps hs_message_handler_def init_timeout_notify_def act_demo_env_def
        protocol_reset_def hs_default_def hs_get_current_phase_def act_demo_choice_def Let_def)
  moreover have "act_reachable act_demo_ext (hs_behaviour hs_demo) ?a0 a"
    by (rule act_run_reachable [OF act_reachable.act_init a])
  ultimately show ?thesis using actuator_runs_hotstuff by fastforce
qed

text \<open>A running HotStuff node that leads view 1 and has been told its phases, in a given mode.\<close>

definition act_demo_node :: "consensus_node_mode \<Rightarrow> hs_protocol actuator" where
  "act_demo_node md = (actuator_new [1] (fst (hs_protocol_phases hs_demo (hs_demo_node 1))))\<lparr>
     ac_controller_id := Some [5], ac_analyzer_id := Some [6], ac_mode := md, malicious_flag := True,
     other_consensus_node := {[2], [3]}\<rparr>"

lemma act_demo_node_fields [simp]:
  "ac_id (act_demo_node md) = [1]" "ac_mode (act_demo_node md) = md" "malicious_flag (act_demo_node md)"
  "ac_analyzer_id (act_demo_node md) = Some [6]" "ac_controller_id (act_demo_node md) = Some [5]"
  "other_consensus_node (act_demo_node md) = {[2], [3]}" "ac_effects (act_demo_node md) = []"
  "protocol (act_demo_node md) = fst (hs_protocol_phases hs_demo (hs_demo_node 1))"
  "\<not> in_loop (act_demo_node md)" "ac_round (act_demo_node md) = 1" "request_buffer (act_demo_node md) = Map.empty"
  by (simp_all add: act_demo_node_def actuator_new_def)

lemma hs_demo_phases [simp]:
  "hs_get_current_phase hs_demo [] = Some 0" "hs_get_current_phase hs_demo [1] = Some 0"
  "hs_is_leader (fst (hs_protocol_phases hs_demo (hs_demo_node 1))) [1]"
  "hs_phase_map (fst (hs_protocol_phases hs_demo (hs_demo_node 1))) 1 = Some ''Prepare''"
  by (simp_all add: hs_get_current_phase_def hs_is_leader_def hs_protocol_phases_def Let_def)

theorem honest_node_delivers_witness:
  "\<exists>a'. check_protocol_phase_state act_demo_ext (hs_behaviour hs_demo) (act_demo_env act_demo_choice)
      (Complete \<lparr>cmd = ''x''\<rparr> [Broadcast [1], Broadcast []]) ((act_demo_node (ModeHonest First))\<lparr>malicious_flag := False\<rparr>) = Some a' \<and>
    ac_effects a' = [Publish ''Consensus'' [1], SendMessage [6] [8]]"
  using honest_node_delivers [of "(act_demo_node (ModeHonest First))\<lparr>malicious_flag := False\<rparr>" "hs_behaviour hs_demo"
      "Complete \<lparr>cmd = ''x''\<rparr> [Broadcast [1], Broadcast []]" "[6]" act_demo_ext "act_demo_env act_demo_choice"]
  by (simp add: phases_known_def)

theorem ambiguous_broadcast_splits_witness:
  "\<exists>good bad. malicious_trigger act_demo_ext (hs_behaviour hs_demo) (act_demo_env act_demo_choice) 1 (Broadcast [9])
      (act_demo_node (ModeDishonest (ModeLeaderSendAmbiguousMessage 0 1 [''view_num''] 1))) =
      Some ((act_demo_node (ModeDishonest (ModeLeaderSendAmbiguousMessage 0 1 [''view_num''] 1)))\<lparr>ac_effects :=
        map (\<lambda>p. SendMessage p [9]) good @ map (\<lambda>p. SendMessage p [7]) bad\<rparr>) \<and>
    set (good @ bad) = {[2], [3]} \<and> length bad = 1"
proof -
  let ?a = "act_demo_node (ModeDishonest (ModeLeaderSendAmbiguousMessage 0 1 [''view_num''] 1))"
  have "generate_a_error_message act_demo_ext (hs_behaviour hs_demo) (protocol ?a) [9] [''view_num''] 1 = Some [7]"
    by (simp add: generate_a_error_message_def error_json_def json_index_def act_demo_ext_def u64_add_def)
  moreover have "ord_nodes (act_demo_env act_demo_choice) {[2], [3]} = [[2], [3]]" by (simp add: act_demo_env_def)
  ultimately show ?thesis
    using ambiguous_broadcast_splits [of ?a 0 1 "[''view_num'']" 1 "hs_behaviour hs_demo" _ act_demo_ext "[9]" "[7]"
        "Broadcast [9]" "act_demo_env act_demo_choice"]
    by auto
qed

theorem feigned_death_silences_phase_witness:
  "send_loop act_demo_ext (hs_behaviour hs_demo) (act_demo_env act_demo_choice) [Broadcast [1], Unicast [2] [1]]
     (act_demo_node (ModeDishonest (ModeLeaderFeignDeath 0 0))) =
   Some ((act_demo_node (ModeDishonest (ModeLeaderFeignDeath 0 0)))\<lparr>ac_effects := [SendMessage [2] [1]]\<rparr>)"
  using feigned_death_silences_phase [of "act_demo_node (ModeDishonest (ModeLeaderFeignDeath 0 0))" 0 0 "hs_behaviour hs_demo"
      _ "[Broadcast [1], Unicast [2] [1]]" act_demo_ext "act_demo_env act_demo_choice"]
  by (auto simp: phases_known_def phase_of_def act_demo_node_def actuator_new_def)

theorem delay_mode_never_delays_witness:
  "map_option ac_effects (send_loop act_demo_ext (hs_behaviour hs_demo) (act_demo_env act_demo_choice) [Broadcast [1]]
     (act_demo_node (ModeDishonest (ModeLeaderDelaySendMessage 0 0)))) = Some [Publish ''Consensus'' [1]]"
  using delay_mode_never_delays [of "act_demo_node (ModeDishonest (ModeLeaderDelaySendMessage 0 0))" 0 0 "hs_behaviour hs_demo"
      _ "[Broadcast [1]]" act_demo_ext "act_demo_env act_demo_choice"]
  by (simp add: phases_known_def)

theorem error_message_changes_one_field_witness:
  "\<exists>j'. generate_a_error_message act_demo_ext (hs_behaviour hs_demo) (fst (hs_protocol_phases hs_demo (hs_demo_node 1)))
      [9] [''view_num''] 1 = Some (json_to_bytes act_demo_ext j') \<and>
    json_at j' [''msg_type'', ''Prepare'', ''view_num''] = Some (JNumber (PosInt 100)) \<and>
    json_at j' [''msg_type'', ''Prepare'', ''block''] = Some (JObject [])"
proof -
  let ?j = "JObject [(''msg_type'', JObject [(''Prepare'', JObject [(''block'', JObject []), (''view_num'', JNumber (PosInt 1))])])]"
  have j: "json_from_slice act_demo_ext [9] = Some ?j" by (simp add: act_demo_ext_def)
  have at: "json_at ?j [''msg_type'', ''Prepare'', ''view_num''] = Some (JNumber (PosInt 1))"
    "error_value (JNumber (PosInt 1)) = Some (JNumber (PosInt 100))"
    "json_at ?j [''msg_type'', ''Prepare'', ''block''] = Some (JObject [])"
    by (simp_all add: u64_add_def)
  from error_message_changes_one_field [OF j _ at(1,2), of "hs_behaviour hs_demo" "fst (hs_protocol_phases hs_demo (hs_demo_node 1))" 1 "[]"]
  obtain j' where "generate_a_error_message act_demo_ext (hs_behaviour hs_demo) (fst (hs_protocol_phases hs_demo (hs_demo_node 1)))
      [9] [''view_num''] 1 = Some (json_to_bytes act_demo_ext j')"
    "json_at j' [''msg_type'', ''Prepare'', ''view_num''] = Some (JNumber (PosInt 100))"
    and other: "\<And>q. \<not> prefix [''msg_type'', ''Prepare'', ''view_num''] q \<and> \<not> prefix q [''msg_type'', ''Prepare'', ''view_num''] \<Longrightarrow>
      json_at j' q = json_at ?j q"
    by (auto simp del: json_at.simps)
  moreover have "json_at j' [''msg_type'', ''Prepare'', ''block''] = Some (JObject [])"
    using other [of "[''msg_type'', ''Prepare'', ''block'']"] at(3) by (simp del: json_at.simps)
  ultimately show ?thesis by blast
qed

theorem nested_field_is_kept_witness:
  "generate_a_error_message act_demo_ext (hs_behaviour hs_demo) (fst (hs_protocol_phases hs_demo (hs_demo_node 1)))
     [9] [''block'', ''cmd''] 1 = Some (json_to_bytes act_demo_ext
     (JObject [(''msg_type'', JObject [(''Prepare'', JObject [(''block'', JObject []), (''view_num'', JNumber (PosInt 1))])])]))"
  by (rule nested_field_is_kept [where v = "JObject []"]) (simp_all add: act_demo_ext_def)

theorem hotstuff_corrupts_wrong_variant_witness:
  "\<exists>m. generate_a_error_message act_demo_ext (hs_behaviour hs_demo) (fst (hs_protocol_phases hs_demo (hs_demo_node 1)))
      [1] [''justify''] 2 = Some (json_to_bytes act_demo_ext (JObject [(''msg_type'', JObject m)])) \<and>
    set m = {(''PreCommit'', JNull), (''Vote'', JObject [(''justify'', JNull)])} \<and> length m = 2"
  by (rule hotstuff_corrupts_wrong_variant) (simp_all add: act_demo_ext_def)

theorem pbft_dishonest_panics_witness:
  "check_protocol_phase_state act_demo_ext (pbft_behaviour demo) (act_demo_env ([], [])) (ContinueExecute [Broadcast [0, 1]])
     ((actuator_new [1] (pbft_default [9]))\<lparr>malicious_flag := True\<rparr>) = None"
  by (rule pbft_dishonest_panics [of _ "[0, 1]"]) simp_all

theorem exhausted_buffer_is_refilled_witness:
  "\<exists>r \<in> set (generated 1). start_consensus act_demo_ext (hs_behaviour hs_demo) (act_demo_env act_demo_choice) (act_demo_node (ModeHonest First)) =
     propose act_demo_ext (hs_behaviour hs_demo) (act_demo_env act_demo_choice) r
       (write_requests_into_buffer act_demo_ext (generated 1) ((act_demo_node (ModeHonest First))\<lparr>ac_round := 2\<rparr>))"
proof -
  have "inj (get_request_hash act_demo_ext)"
    by (rule injI) (simp add: get_request_hash_def get_hash_str_def act_demo_ext_def chars_inject)
  moreover have "\<lparr>cmd = ''Request_'' @ decimal 50\<rparr> \<in> set (generated 1)" by (auto simp: generated_def)
  ultimately show ?thesis
    using exhausted_buffer_is_refilled [of "act_demo_env act_demo_choice" "act_demo_node (ModeHonest First)" act_demo_ext "hs_behaviour hs_demo"]
    by (auto simp: buffer_order_ok_def act_demo_env_def untaken_def)
qed

theorem stale_crash_timer_stops_honest_node_witness:
  "\<exists>a2 a3. act_step act_demo_ext (hs_behaviour hs_demo) a2 a3 \<and> in_loop a2 \<and> \<not> in_loop a3 \<and> ac_mode a3 = ModeHonest Other"
  using stale_crash_timer_stops_honest_node [of "act_notify CrashNotify (act_demo_node (ModeCrash 1000))" "[5]"
      act_demo_ext "hs_behaviour hs_demo" "act_demo_env act_demo_choice" Other 0]
  by (auto simp: act_notify_def)
end
