(* ===== verification/Chain_Interface.thy ===== *)
theory Chain_Interface
  imports Chain_Properties Actuator_Properties
begin

text \<open>
  Chained HotStuff behind the interface of the actuator: the dictionary of its methods, the
  invariant of its object that all of them keep, and what follows for every execution of a node.
\<close>

subsection \<open>The protocol behind the actuator\<close>

text \<open>\<open>impl ProtocolBehaviour for ChainHotstuffProtocol\<close>; the choices of a call are those of basic HotStuff.\<close>

definition chain_behaviour :: "'a ch_ext_scheme \<Rightarrow> (ch_protocol, hs_choice) protocol_behaviour" where
  "chain_behaviour P = \<lparr>
     pb_init_timeout_notify = ch_init_timeout_notify,
     pb_extra_initial_start = (\<lambda>i. ch_extra_initial_start P (ch_random i) (ch_order i) (ch_pks_order i)),
     pb_message_handler = (\<lambda>i p msg me from. ch_message_handler P me p (msg, ch_pks_order i)),
     pb_get_current_phase = (\<lambda>p msg. Some (p, ch_get_current_phase msg)),
     pb_protocol_reset = (\<lambda>i. ch_protocol_reset (ch_peer i) (ch_timeout_notify i) (ch_stop_notify i)),
     pb_view_timeout_handler = (\<lambda>i. ch_view_timeout_handler P),
     pb_protocol_phases = default_protocol_phases,
     pb_phase_map = ch_phase_map,
     pb_current_request = (\<lambda>p. Some (ch_current_request p)),
     pb_is_leader = ch_is_leader,
     pb_set_leader = default_set_leader,
     pb_generate_serialized_request_message = (\<lambda>p. ch_generate_serialized_request_message P),
     pb_check_taken_request = ch_check_taken_request,
     pb_set_current_request = ch_set_current_request\<rparr>"

text \<open>
  The invariant of the protocol object: the tolerance it was created with, at most one share per key number and
  message, and new view messages filed under their own view.
\<close>

definition ch_inv :: "ch_protocol \<Rightarrow> bool" where
  "ch_inv p \<longleftrightarrow> ch_fault_tolerance_count (ch_st p) = 1 \<and> ch_tf (ch_st p) = 10 \<and>
     (\<forall>h. distinct (map fst (filed_shares p h))) \<and>
     (\<forall>v. \<forall>g \<in> set (bucket (generics (ch_lg p)) v). g_view_num g = v \<and> g_block g = None)"

text \<open>Operations that leave the log and the parameters alone.\<close>

definition ch_frame :: "ch_protocol \<Rightarrow> ch_protocol \<Rightarrow> bool" where
  "ch_frame p p' \<longleftrightarrow> ch_lg p' = ch_lg p \<and> ch_tf (ch_st p') = ch_tf (ch_st p) \<and>
     ch_fault_tolerance_count (ch_st p') = ch_fault_tolerance_count (ch_st p)"

lemma ch_frame_inv: "ch_inv p \<Longrightarrow> ch_frame p p' \<Longrightarrow> ch_inv p'"
  by (simp add: ch_inv_def ch_frame_def filed_shares_def)

lemma ch_frame_trans: "ch_frame p q \<Longrightarrow> ch_frame q r \<Longrightarrow> ch_frame p r"
  by (simp add: ch_frame_def)

lemma ch_next_view_frame: "ch_next_view E p me = Some (p', ps) \<Longrightarrow> ch_frame p p'"
  by (auto simp: ch_next_view_def bind_eq_Some_conv Let_def ch_view_timeout_start_def ch_frame_def
      dest!: ch_change_leader_frame split: if_splits)

lemma ch_phases_frame: "ch_phases E p b q = (p', ps) \<Longrightarrow> ch_frame p p'"
  by (auto simp: ch_phases_def Let_def ch_frame_def split: option.splits if_splits)

lemma ch_stop_frame: "ch_frame p (ch_view_timeout_stop p)"
  by (simp add: ch_frame_def ch_view_timeout_stop_def)

lemma filed_record_other:
  "h' \<noteq> h \<Longrightarrow> filed_shares (p\<lparr>ch_lg := ch_record_messgae_partial_signature (ch_lg p) h n s\<rparr>) h' = filed_shares p h'"
  by (simp add: filed_shares_def ch_record_messgae_partial_signature_def split: option.splits)

lemma ch_inv_record_share:
  assumes "ch_inv p"
  shows "ch_inv (p\<lparr>ch_lg := ch_record_messgae_partial_signature (ch_lg p) h n s\<rparr>)"
proof -
  have "distinct (map fst (filed_shares (p\<lparr>ch_lg := ch_record_messgae_partial_signature (ch_lg p) h n s\<rparr>) h'))" for h'
    using assms by (cases "h' = h") (simp_all add: ch_inv_def filed_record filed_record_other distinct_update)
  with assms show ?thesis by (simp add: ch_inv_def)
qed

lemma ch_inv_record_generic:
  "ch_inv p \<Longrightarrow> g_view_num g = v \<Longrightarrow> g_block g = None \<Longrightarrow> ch_inv (p\<lparr>ch_lg := record_generic (ch_lg p) v g\<rparr>)"
  by (auto simp: ch_inv_def record_generic_def filed_shares_def)

lemma ch_cast_vote_inv:
  assumes "ch_inv p" "ch_cast_vote E p b me = Some (p', q)"
  shows "ch_inv p'"
proof (cases "ch_keypair p")
  case None
  with assms show ?thesis by (simp add: ch_cast_vote_def)
next
  case (Some k)
  have own: "ch_inv (ch_file_own_vote E p h info s me)" for h info s
    using assms(1) by (simp add: ch_file_own_vote_def ch_inv_record_share)
  from assms(2) Some consider h info s where "p' = ch_file_own_vote E p h info s me"
    | h info s m2 where "ch_next_view E (ch_file_own_vote E p h info s me) me = Some (p', m2)"
    by (auto simp: ch_cast_vote_def bind_eq_Some_conv Let_def split: if_splits)
  then show ?thesis using own by cases (auto intro: ch_frame_inv ch_next_view_frame)
qed

lemma replica_handle_generic_inv:
  assumes "ch_inv p" "replica_handle_generic E p g me = Some (p', ps)"
  shows "ch_inv p'"
proof -
  from assms(2) consider "p' = p"
    | b p1 q where "ch_cast_vote E p b me = Some (p1, q)" "ch_phases E (ch_view_timeout_stop p1) b q = (p', ps)"
    by (auto simp: replica_handle_generic_def bind_eq_Some_conv split: option.splits if_splits)
  then show ?thesis
  proof cases
    case (2 b p1 q)
    show ?thesis
      by (rule ch_frame_inv [OF ch_cast_vote_inv [OF assms(1) 2(1)]])
        (rule ch_frame_trans [OF ch_stop_frame ch_phases_frame [OF 2(2)]])
  qed (use assms(1) in simp)
qed

lemma handle_newview_generic_inv:
  assumes "ch_inv p" "handle_newview_generic E p g me = Some (p', ps)" "g_block g = None"
  shows "ch_inv p'"
proof -
  let ?p = "p\<lparr>ch_lg := record_generic (ch_lg p) (g_view_num g) g\<rparr>"
  have ok: "ch_inv ?p" using assms(1,3) by (simp add: ch_inv_record_generic)
  then have "ch_inv (?p\<lparr>ch_st := (ch_st ?p)\<lparr>ch_high_qc := a, generic_qc := b\<rparr>\<rparr>)" for a b
    by (rule ch_frame_inv) (simp add: ch_frame_def)
  with ok assms(2) show ?thesis
    by (auto simp: handle_newview_generic_def bind_eq_Some_conv Let_def split: if_splits
        intro: ch_frame_inv ch_next_view_frame)
qed

lemma handle_generic_inv:
  assumes "ch_inv p" "handle_generic E p g me = Some (p', ps)"
  shows "ch_inv p'"
proof (cases "g_block g")
  case None
  with assms show ?thesis by (auto simp: handle_generic_def intro: handle_newview_generic_inv)
next
  case (Some b)
  have "ch_inv (p\<lparr>ch_taken_requests := a\<rparr>)" for a
    using assms(1) by (rule ch_frame_inv) (simp add: ch_frame_def)
  with Some assms(2) show ?thesis
    by (auto simp: handle_generic_def Let_def split: if_splits intro: replica_handle_generic_inv)
qed

lemma handle_vote_inv:
  assumes "ch_inv p" "handle_vote E p v = Some (p', ps)"
  shows "ch_inv p'"
proof -
  have ok: "ch_inv (p\<lparr>ch_lg := ch_record_messgae_partial_signature (ch_lg p) h n s\<rparr>)" for h n s
    using assms(1) by (rule ch_inv_record_share)
  have "ch_inv (p\<lparr>ch_lg := ch_record_messgae_partial_signature (ch_lg p) h n s, ch_st := (ch_st p)\<lparr>generic_qc := q\<rparr>\<rparr>)" for h n s q
    using ok [of h n s] by (rule ch_frame_inv) (simp add: ch_frame_def)
  with ok assms show ?thesis
    by (auto simp: handle_vote_def bind_eq_Some_conv Let_def split: if_splits)
qed

lemma ch_handle_message_type_inv:
  assumes "ch_inv p" "ch_handle_message_type E me order p m = Some (p', ps)"
  shows "ch_inv p'"
proof (cases m)
  case (ChGeneric g)
  with assms show ?thesis by (auto simp: bind_eq_Some_conv intro: handle_generic_inv)
next
  case (ChRequest r)
  with assms(2) obtain peer where "ch_handle_request E p r peer = Some (p', ps)" by (auto simp: bind_eq_Some_conv)
  from ch_handle_request_cases [OF this] obtain g data where
    h: "handle_generic E (p\<lparr>ch_taken_requests := insert (bincode_request E r) (ch_taken_requests p),
        ch_request_buffer := ch_request_buffer p @ [ch_get_request_hash E r]\<rparr>) g peer = Some (p', data)"
    by blast
  show ?thesis by (rule handle_generic_inv [OF ch_frame_inv [OF assms(1)] h]) (simp add: ch_frame_def)
next
  case (ChVote v)
  with assms show ?thesis by (auto simp: bind_eq_Some_conv intro: handle_vote_inv)
next
  case (ChConsensusNodePKsInfo k)
  with assms(2) obtain p1 peer m2 where "ch_next_view E p1 peer = Some (p', m2)" "ch_frame p p1"
    by (fastforce simp: bind_eq_Some_conv ch_storage_consensus_node_pk_def ch_frame_def)
  with assms(1) show ?thesis by (blast intro: ch_frame_inv ch_frame_trans ch_next_view_frame)
qed (use assms in \<open>auto simp: bind_eq_Some_conv ch_storage_tbls_key_def ch_frame_def intro: ch_frame_inv\<close>)

lemma ch_distribute_keys_loop_frame:
  "ch_distribute_keys_loop E ks p q pks = Some (p', q', pks') \<Longrightarrow> ch_frame p p'"
proof (induction ks arbitrary: p q pks)
  case (Cons k ks)
  then show ?case
    by (auto simp: bind_eq_Some_conv ch_storage_tbls_key_def ch_frame_def split: if_splits)
qed (simp add: ch_frame_def)

lemma ch_extra_initial_start_frame:
  assumes "ch_extra_initial_start E random order pks_order p nodes me = Some (p', ps)"
  shows "ch_frame p p'"
proof -
  from assms obtain ks pks q q' c s p1 n m peer where
    d: "ch_distribute_keys_loop E ks (p\<lparr>ch_consensus_nodes := c, ch_peer_id := s\<rparr>) q Map.empty = Some (p1, q', pks)"
    and n: "ch_next_view E (p1\<lparr>ch_consensus_node_pks := pks, ch_pk_consensus_nodes := n\<rparr>) peer = Some (p', m)"
    by (fastforce simp: ch_extra_initial_start_def ch_distribute_keys_def ch_storage_consensus_node_pk_def bind_eq_Some_conv Let_def)
  show ?thesis
    using ch_distribute_keys_loop_frame [OF d] ch_next_view_frame [OF n] by (simp add: ch_frame_def)
qed

lemma ch_default_inv: "ch_inv (ch_default t s)"
  by (simp add: ch_inv_def ch_default_def ch_state_new_def ch_log_new_def filed_shares_def)

lemma chain_behaviour_simps [simp]:
  "pb_init_timeout_notify (chain_behaviour P) = ch_init_timeout_notify"
  "pb_extra_initial_start (chain_behaviour P) i = ch_extra_initial_start P (ch_random i) (ch_order i) (ch_pks_order i)"
  "pb_message_handler (chain_behaviour P) i p msg me from = ch_message_handler P me p (msg, ch_pks_order i)"
  "pb_get_current_phase (chain_behaviour P) p msg = Some (p, ch_get_current_phase msg)"
  "pb_protocol_reset (chain_behaviour P) i = ch_protocol_reset (ch_peer i) (ch_timeout_notify i) (ch_stop_notify i)"
  "pb_view_timeout_handler (chain_behaviour P) i = ch_view_timeout_handler P"
  "pb_protocol_phases (chain_behaviour P) p = (p, Map.empty)"
  "pb_phase_map (chain_behaviour P) = ch_phase_map"
  "pb_current_request (chain_behaviour P) p = Some (ch_current_request p)"
  "pb_is_leader (chain_behaviour P) = ch_is_leader"
  "pb_set_leader (chain_behaviour P) p l = p"
  "pb_generate_serialized_request_message (chain_behaviour P) p r = ch_generate_serialized_request_message P r"
  "pb_check_taken_request (chain_behaviour P) = ch_check_taken_request"
  "pb_set_current_request (chain_behaviour P) = ch_set_current_request"
  by (simp_all add: chain_behaviour_def behaviour_defs)

lemma ch_reset_inv: "ch_inv p \<Longrightarrow> ch_inv (ch_protocol_reset rnd t s p)"
  by (simp add: ch_inv_def ch_protocol_reset_def Let_def filed_shares_def)

lemma ch_timeout_inv: "ch_inv p \<Longrightarrow> ch_view_timeout_handler E p peer = Some (p', ps) \<Longrightarrow> ch_inv p'"
  by (auto simp: ch_view_timeout_handler_def bind_eq_Some_conv ch_frame_def dest!: ch_next_view_frame
      intro: ch_frame_inv)

interpretation chain_node: protocol_contract "chain_behaviour P" ident me ch_inv for P ident me
proof (unfold_locales, goal_cases)
  case (1 p h)
  then show ?case by (auto simp: ch_init_timeout_notify_def ch_frame_def intro: ch_frame_inv)
next
  case (2 p i nodes p' ps)
  then show ?case by (auto intro: ch_frame_inv ch_extra_initial_start_frame)
next
  case (3 p i m src p' ps)
  then show ?case by (auto simp: ch_message_handler_def bind_eq_Some_conv intro: ch_handle_message_type_inv)
next
  case (5 p i)
  then show ?case by (simp add: ch_reset_inv)
next
  case (6 p i p' ps)
  then show ?case by (auto intro: ch_timeout_inv)
next
  case (9 p r)
  then show ?case by (auto simp: ch_set_current_request_def ch_frame_def intro: ch_frame_inv)
qed auto

text \<open>
  In every execution of a node that runs chained HotStuff, a vote that changes the certificate of the node
  is the third of three verified shares of different key numbers for the same view and block, and the certificate is
  their combination.
\<close>
theorem chain_certificate_of_three:
  assumes run: "act_reachable E (chain_behaviour P) (network_start (chain_behaviour P) leader (actuator_new ident (ch_default t s))) a"
    and vote: "handle_vote P (protocol a) v = Some (p', ps)" "generic_qc (ch_st p') \<noteq> generic_qc (ch_st (protocol a))"
  shows "\<exists>l k info sig. length l = 3 \<and> distinct (map fst l) \<and>
    ch_consensus_node_pks (protocol a) (cv_from_peer_id v) = Some info \<and> (pki_number info, cv_partial_signature v) \<in> set l \<and>
    set l - {(pki_number info, cv_partial_signature v)} \<subseteq> set (filed_shares (protocol a) (get_generic_hash P GENERIC (cv_view_num v) (cv_block v))) \<and>
    ch_keypair (protocol a) = Some k \<and> bls_combine P (pk_set k) (map_of l) = Some sig \<and>
    generic_qc (ch_st p') = Some (ChainQC (cv_view_num v) (cv_block v) (Some sig))"
proof -
  let ?p = "protocol a" and ?h = "get_generic_hash P GENERIC (cv_view_num v) (cv_block v)"
  have inv: "ch_inv ?p"
    using chain_node.executions_ok [OF run ch_default_inv refl] by (simp add: chain_node.node_ok_def)
  from vote obtain info where info: "ch_consensus_node_pks ?p (cv_from_peer_id v) = Some info"
    by (auto simp: handle_vote_def bind_eq_Some_conv Let_def)
  let ?lg = "ch_record_messgae_partial_signature (ch_lg ?p) ?h (pki_number info) (cv_partial_signature v)"
  let ?p1 = "?p\<lparr>ch_lg := ?lg\<rparr>"
  let ?l = "filed_shares ?p1 ?h"
  have len: "ch_get_partial_signatures_count_by_message_hash ?lg ?h = length ?l"
    by (simp add: ch_get_partial_signatures_count_by_message_hash_def filed_shares_def split: option.splits)
  have get: "ch_get_partial_signatures_by_message_hash ?lg ?h = Some ?l"
    by (auto simp: ch_get_partial_signatures_by_message_hash_def filed_shares_def
        ch_record_messgae_partial_signature_def split: option.splits)
  have three: "u64_mul 2 1 = Some 2" "u64_add 2 1 = Some (3 :: u64)" by (simp_all add: u64_mul_def u64_add_def)
  from vote info inv obtain k sig where "length ?l = 3" "ch_keypair ?p = Some k" "bls_combine P (pk_set k) (map_of ?l) = Some sig"
    "generic_qc (ch_st p') = Some (ChainQC (cv_view_num v) (cv_block v) (Some sig))"
    by (auto simp: handle_vote_def bind_eq_Some_conv Let_def ch_inv_def three len get combine_partial_signatures_def
        ch_set_signature_def ch_qc_new_def split: if_splits)
  moreover have "distinct (map fst ?l)" using ch_inv_record_share [OF inv] by (simp add: ch_inv_def)
  moreover have "?l = AList.update (pki_number info) (cv_partial_signature v) (filed_shares ?p ?h)" by (rule filed_record)
  moreover have "(n, x) \<in> set (AList.update n x ys)" "set (AList.update n x ys) - {(n, x)} \<subseteq> set ys" for n :: u64 and x :: bytes and ys
    by (induction ys) auto
  ultimately show ?thesis using info by metis
qed

text \<open>Node 2 after its start: it has got its key, the public keys of all and the votes of nodes 1 and 3.\<close>

definition ch_demo_choice :: hs_choice where
  "ch_demo_choice = act_demo_choice\<lparr>ch_pks_order := [[0], [1], [2], [3]]\<rparr>"

definition ch_demo_inputs :: "act_event list" where
  "ch_demo_inputs = act_demo_events [2] @ [ActGossip [1] [3], ActGossip [1] [4], ActGossip [3] [5]]"

lemma ch_demo_run:
  "\<exists>a. act_run act_demo_ext (chain_behaviour ch_demo) (act_demo_env ch_demo_choice) ch_demo_inputs
      (network_start (chain_behaviour ch_demo) False (actuator_new [2] (ch_default 0 1))) = Some a \<and>
    filed_shares (protocol a) ch_demo_hash = [(1, 1 # as_bytes ch_demo_hash), (3, 3 # as_bytes ch_demo_hash)] \<and>
    ch_keypair (protocol a) = Some (hs_demo_key 2) \<and> ch_consensus_node_pks (protocol a) = hs_demo_pks \<and>
    ch_fault_tolerance_count (ch_st (protocol a)) = 1 \<and> generic_qc (ch_st (protocol a)) = None"
  by (simp add: ch_demo_inputs_def act_run_simps ch_message_handler_def ch_demo_choice_def act_demo_choice_def act_demo_env_def
      ch_storage_tbls_key_def ch_protocol_reset_def ch_view_timeout_stop_def ch_init_timeout_notify_def ch_default_def
      ch_storage_consensus_node_pk_def ch_next_view_def ch_change_leader_def u64_rem_def u64_add_def u64_mul_def
      ch_view_timeout_start_def ch_log_new_def leader_continues_def ch_is_leader_def Let_def handle_vote_def ch_demo_vote_def filed_shares_def
      ch_record_messgae_partial_signature_def ch_get_partial_signatures_count_by_message_hash_def)

theorem chain_certificate_of_three_witness:
  "\<exists>a p' ps l sig. act_run act_demo_ext (chain_behaviour ch_demo) (act_demo_env ch_demo_choice) ch_demo_inputs
      (network_start (chain_behaviour ch_demo) False (actuator_new [2] (ch_default 0 1))) = Some a \<and>
    handle_vote ch_demo (protocol a) (ch_demo_vote 0) = Some (p', ps) \<and>
    length (l :: (u64 \<times> bytes) list) = 3 \<and> distinct (map fst l) \<and>
    generic_qc (ch_st p') = Some (ChainQC 1 ch_demo_block (Some sig))"
proof -
  let ?a0 = "network_start (chain_behaviour ch_demo) False (actuator_new [2] (ch_default 0 1))"
  obtain a where a: "act_run act_demo_ext (chain_behaviour ch_demo) (act_demo_env ch_demo_choice) ch_demo_inputs ?a0 = Some a"
    and s: "filed_shares (protocol a) ch_demo_hash = [(1, 1 # as_bytes ch_demo_hash), (3, 3 # as_bytes ch_demo_hash)]"
      "ch_keypair (protocol a) = Some (hs_demo_key 2)" "ch_consensus_node_pks (protocol a) = hs_demo_pks"
      "ch_fault_tolerance_count (ch_st (protocol a)) = 1" "generic_qc (ch_st (protocol a)) = None"
    using ch_demo_run by blast
  have run: "act_reachable act_demo_ext (chain_behaviour ch_demo) ?a0 a"
    by (rule act_run_reachable [OF act_reachable.act_init a])
  from s(1) have "ch_message_signatures (ch_lg (protocol a)) ch_demo_hash =
      Some [(1, 1 # as_bytes ch_demo_hash), (3, 3 # as_bytes ch_demo_hash)]"
    by (simp add: filed_shares_def split: option.splits)
  with s obtain p' ps where v: "handle_vote ch_demo (protocol a) (ch_demo_vote 0) = Some (p', ps)" "generic_qc (ch_st p') \<noteq> None"
    by (simp add: handle_vote_def ch_demo_vote_def u64_mul_def u64_add_def ch_record_messgae_partial_signature_def
        ch_get_partial_signatures_count_by_message_hash_def ch_get_partial_signatures_by_message_hash_def
        combine_partial_signatures_def)
  from chain_certificate_of_three [OF run v(1)] v(2) s(5) have "\<exists>l sig. length (l :: (u64 \<times> bytes) list) = 3 \<and> distinct (map fst l) \<and>
      generic_qc (ch_st p') = Some (ChainQC 1 ch_demo_block (Some sig))"
    by (simp add: ch_demo_vote_def) blast
  with a v(1) show ?thesis by blast
qed
end
