(* ===== verification/NonAuth_PBFT.thy ===== *)
theory NonAuth_PBFT
  imports PBFT_Protocol
begin

text \<open>
  PBFT without authentication (\<open>protocols/src/non_authenticated_pbft\<close>): messages (\<open>message.rs\<close>) and
  their keys (\<open>common.rs\<close>), the log (\<open>log.rs\<close>) and the protocol (\<open>protocol.rs\<close>). The state and
  the timers (\<open>state.rs\<close>, \<open>timer.rs\<close>) and the keys by request hash are those of PBFT, word for word,
  apart from the initial number of nodes.
\<close>

subsection \<open>Messages and keys\<close>

record na_pre_prepare =
  na_pp_view :: u64
  na_pp_number :: u64
  na_pp_m_hash :: string
  na_pp_m :: bytes
  na_pp_from_peer_id :: bytes

record na_prepare =
  na_p_view :: u64
  na_p_number :: u64
  na_p_m_hash :: string
  na_p_from_peer_id :: bytes

record na_commit =
  na_c_view :: u64
  na_c_number :: u64
  na_c_m_hash :: string
  na_c_from_peer_id :: bytes

record na_reply =
  na_r_cmd :: string
  na_r_view :: u64
  na_r_number :: u64
  na_r_from_peer_id :: bytes
  na_r_result :: bytes

datatype na_message_type =
    NaRequest request
  | NaPrePrepare na_pre_prepare
  | NaPrepare na_prepare
  | NaCommit na_commit
  | NaReply na_reply

record na_consensus_message =
  na_msg_type :: na_message_type

record na_proof_messages =
  na_preprepares :: "na_message_type list"
  na_prepares :: "na_message_type list"

record na_ext = ext +
  json_na_message :: "na_consensus_message \<Rightarrow> bytes"
  from_json_na_message :: "bytes \<Rightarrow> na_consensus_message option"
  json_na_prepare_str :: "na_prepare \<Rightarrow> string"
  json_na_commit_str :: "na_commit \<Rightarrow> string"

fun na_get_message_key :: "'a ext_scheme \<Rightarrow> na_message_type \<Rightarrow> string" where
  "na_get_message_key E (NaRequest request) = get_hash_str E (bincode_request E request)"
| "na_get_message_key E (NaPrePrepare preprepare) =
     get_hash_str E ([PRE_PREPARE_PREFIX] @ to_be_bytes (na_pp_view preprepare) @
       to_be_bytes (na_pp_number preprepare) @ as_bytes (na_pp_m_hash preprepare))"
| "na_get_message_key E (NaPrepare prepare) =
     get_hash_str E ([PREPARE_PREFIX] @ to_be_bytes (na_p_view prepare) @
       to_be_bytes (na_p_number prepare) @ as_bytes (na_p_m_hash prepare))"
| "na_get_message_key E (NaCommit commit) =
     get_hash_str E ([COMMIT_PREFIX] @ to_be_bytes (na_c_view commit) @
       to_be_bytes (na_c_number commit) @ as_bytes (na_c_m_hash commit))"
| "na_get_message_key E (NaReply reply) =
     get_hash_str E ([REPLY_PREFIX] @ as_bytes (na_r_cmd reply) @ to_be_bytes (na_r_view reply) @
       to_be_bytes (na_r_number reply) @ na_r_result reply)"

declare na_get_message_key.simps [simp del]

subsection \<open>The log\<close>

record na_log =
  na_requests :: "u64 \<rightharpoonup> request"
  na_messages :: "string \<rightharpoonup> na_message_type list"
  na_reply_messages :: "string \<rightharpoonup> na_message_type list"
  na_request_map :: "string \<rightharpoonup> u64 \<times> u64"
  na_request_phase_state :: "string \<rightharpoonup> log_phase_state"
  na_current_requests :: "(string \<times> instant) list"

definition na_log_new :: na_log where
  "na_log_new = \<lparr>na_requests = Map.empty, na_messages = Map.empty, na_reply_messages = Map.empty,
     na_request_map = Map.empty, na_request_phase_state = Map.empty, na_current_requests = []\<rparr>"

definition na_reset :: "na_log \<Rightarrow> na_log" where
  "na_reset log = log\<lparr>na_requests := Map.empty, na_current_requests := [], na_messages := Map.empty,
     na_request_map := Map.empty, na_request_phase_state := Map.empty\<rparr>"

definition na_record_preprepare :: "'a ext_scheme \<Rightarrow> na_log \<Rightarrow> na_pre_prepare \<Rightarrow> na_log" where
  "na_record_preprepare E log msg =
     (let msg_type = NaPrePrepare msg; key_hash = na_get_message_key E msg_type
      in log\<lparr>na_messages := push_bucket (na_messages log) key_hash msg_type\<rparr>)"

definition na_record_prepare :: "'a ext_scheme \<Rightarrow> na_log \<Rightarrow> na_prepare \<Rightarrow> na_log" where
  "na_record_prepare E log msg =
     (let msg_type = NaPrepare msg; key_hash = na_get_message_key E msg_type
      in log\<lparr>na_messages := push_bucket (na_messages log) key_hash msg_type\<rparr>)"

definition na_record_commit :: "'a ext_scheme \<Rightarrow> na_log \<Rightarrow> na_commit \<Rightarrow> na_log" where
  "na_record_commit E log msg =
     (let msg_type = NaCommit msg; key_hash = na_get_message_key E msg_type
      in log\<lparr>na_messages := push_bucket (na_messages log) key_hash msg_type\<rparr>)"

definition na_record_reply :: "'a ext_scheme \<Rightarrow> na_log \<Rightarrow> na_reply \<Rightarrow> na_log" where
  "na_record_reply E log msg =
     (let msg_type = NaReply msg; key_hash = na_get_message_key E msg_type
      in log\<lparr>na_reply_messages := push_bucket (na_reply_messages log) key_hash msg_type\<rparr>)"

fun na_record_message_handler :: "'a ext_scheme \<Rightarrow> na_log \<Rightarrow> na_message_type \<Rightarrow> na_log" where
  "na_record_message_handler E log (NaPrePrepare preprepare) = na_record_preprepare E log preprepare"
| "na_record_message_handler E log (NaPrepare prepare) = na_record_prepare E log prepare"
| "na_record_message_handler E log (NaCommit commit) = na_record_commit E log commit"
| "na_record_message_handler E log (NaReply reply) = na_record_reply E log reply"
| "na_record_message_handler E log (NaRequest request) = log"

definition na_record_request :: "u64 \<Rightarrow> request \<Rightarrow> na_log \<Rightarrow> na_log" where
  "na_record_request sequence_number request log =
     (if na_requests log sequence_number = None
      then log\<lparr>na_requests := (na_requests log)(sequence_number \<mapsto> request)\<rparr> else log)"

text \<open>An \<open>async fn\<close>: its effect when the future is driven to completion.\<close>

definition na_record_current_request :: "instant \<Rightarrow> string \<Rightarrow> na_log \<Rightarrow> na_log" where
  "na_record_current_request now request_key log =
     log\<lparr>na_current_requests := na_current_requests log @ [(request_key, now)]\<rparr>"

definition na_remove_commited_request :: "na_log \<Rightarrow> na_log" where
  "na_remove_commited_request log = log\<lparr>na_current_requests := tl (na_current_requests log)\<rparr>"

definition na_clear_current_request :: "na_log \<Rightarrow> na_log" where
  "na_clear_current_request log = log\<lparr>na_current_requests := []\<rparr>"

definition na_update_request_phase_state :: "string \<Rightarrow> log_phase_state \<Rightarrow> na_log \<Rightarrow> na_log" where
  "na_update_request_phase_state request_key state log =
     log\<lparr>na_request_phase_state := (na_request_phase_state log)(request_key \<mapsto> state)\<rparr>"

definition na_get_request_phase_state :: "na_log \<Rightarrow> string \<Rightarrow> log_phase_state option" where
  "na_get_request_phase_state log request_key = na_request_phase_state log request_key"

definition na_get_local_request_by_sequence_number :: "na_log \<Rightarrow> u64 \<Rightarrow> request option" where
  "na_get_local_request_by_sequence_number log sequence_number = na_requests log sequence_number"

definition na_get_local_messages_by_hash :: "na_log \<Rightarrow> string \<Rightarrow> na_message_type list" where
  "na_get_local_messages_by_hash log hash = bucket (na_messages log) hash"

definition na_get_local_messages_count_by_hash :: "na_log \<Rightarrow> string \<Rightarrow> nat" where
  "na_get_local_messages_count_by_hash log hash = bucket_len (na_messages log) hash"

definition na_get_local_reply_messages_count_by_hash :: "na_log \<Rightarrow> string \<Rightarrow> nat" where
  "na_get_local_reply_messages_count_by_hash log hash = bucket_len (na_reply_messages log) hash"

definition na_get_preprepare_messages_by_request_hash ::
    "'a ext_scheme \<Rightarrow> na_log \<Rightarrow> string \<Rightarrow> na_message_type list option" where
  "na_get_preprepare_messages_by_request_hash E log request_hash = do {
     (v, sequence_number) \<leftarrow> na_request_map log request_hash;
     Some (bucket (na_messages log)
       (get_preprepare_key_by_request_hash E (as_bytes request_hash) v sequence_number))
   }"

definition na_get_prepare_messages_by_request_hash ::
    "'a ext_scheme \<Rightarrow> na_log \<Rightarrow> string \<Rightarrow> na_message_type list option" where
  "na_get_prepare_messages_by_request_hash E log request_hash = do {
     (v, sequence_number) \<leftarrow> na_request_map log request_hash;
     Some (bucket (na_messages log)
       (get_prepare_key_by_request_hash E (as_bytes request_hash) v sequence_number))
   }"

definition na_get_preprepare_and_prepare_by_request_hash ::
    "'a ext_scheme \<Rightarrow> na_log \<Rightarrow> string \<Rightarrow> na_message_type list option" where
  "na_get_preprepare_and_prepare_by_request_hash E log request_hash = do {
     (v, sequence_number) \<leftarrow> na_request_map log request_hash;
     let preprepare_key = get_preprepare_key_by_request_hash E (as_bytes request_hash) v sequence_number;
     let prepare_key = get_prepare_key_by_request_hash E (as_bytes request_hash) v sequence_number;
     Some (bucket (na_messages log) preprepare_key @ bucket (na_messages log) prepare_key)
   }"

fun na_proof_messages_loop :: "'a ext_scheme \<Rightarrow> na_log \<Rightarrow> (string \<times> instant) list \<Rightarrow>
    na_message_type list \<Rightarrow> na_message_type list \<Rightarrow> na_proof_messages option" where
  "na_proof_messages_loop E log [] preprepares prepares =
     Some \<lparr>na_preprepares = preprepares, na_prepares = prepares\<rparr>"
| "na_proof_messages_loop E log (v # current) preprepares prepares = do {
     preprepare_msg \<leftarrow> na_get_preprepare_messages_by_request_hash E log (fst v);
     prepare_msg \<leftarrow> na_get_prepare_messages_by_request_hash E log (fst v);
     na_proof_messages_loop E log current (preprepares @ preprepare_msg) (prepares @ prepare_msg)
   }"

definition na_get_proof_messages :: "'a ext_scheme \<Rightarrow> na_log \<Rightarrow> na_proof_messages option" where
  "na_get_proof_messages E log = na_proof_messages_loop E log (na_current_requests log) [] []"

text \<open>\<open>rks\<close> is the iteration order of the request map.\<close>

definition na_discard_messages_before_stable_checkpoint ::
    "'a ext_scheme \<Rightarrow> string list \<Rightarrow> u64 \<Rightarrow> na_log \<Rightarrow> na_log" where
  "na_discard_messages_before_stable_checkpoint E rks n log =
     (let message_keys = List.map_filter
            (\<lambda>request_hash. case na_request_map log request_hash of
               Some (v, sequence_number) \<Rightarrow>
                 if sequence_number \<le> n
                 then Some (get_preprepare_key_by_request_hash E (as_bytes request_hash) v sequence_number,
                            get_prepare_key_by_request_hash E (as_bytes request_hash) v sequence_number,
                            get_commit_key_by_request_hash E (as_bytes request_hash) v sequence_number)
                 else None
             | None \<Rightarrow> None) rks
      in log\<lparr>na_messages :=
           foldl (\<lambda>m (k1, k2, k3). m(k1 := None, k2 := None, k3 := None)) (na_messages log) message_keys\<rparr>)"

subsection \<open>The controller's log\<close>

record na_controller_log =
  na_ctl_messages :: "string \<rightharpoonup> na_message_type list"
  na_requests_instant :: "(string \<times> instant) list"

definition na_controller_log_new :: na_controller_log where
  "na_controller_log_new = \<lparr>na_ctl_messages = Map.empty, na_requests_instant = []\<rparr>"

definition na_ctl_record_request :: "'a ext_scheme \<Rightarrow> na_controller_log \<Rightarrow> request \<Rightarrow> na_controller_log" where
  "na_ctl_record_request E log msg =
     (let msg_type = NaRequest msg; key_hash = na_get_message_key E msg_type
      in log\<lparr>na_ctl_messages := push_bucket (na_ctl_messages log) key_hash msg_type\<rparr>)"

definition na_ctl_record_reply :: "'a ext_scheme \<Rightarrow> na_controller_log \<Rightarrow> na_reply \<Rightarrow> na_controller_log" where
  "na_ctl_record_reply E log msg =
     (let msg_type = NaReply msg; key_hash = na_get_message_key E msg_type
      in log\<lparr>na_ctl_messages := push_bucket (na_ctl_messages log) key_hash msg_type\<rparr>)"

fun na_ctl_record_message_handler ::
    "'a ext_scheme \<Rightarrow> na_controller_log \<Rightarrow> na_message_type \<Rightarrow> na_controller_log" where
  "na_ctl_record_message_handler E log (NaRequest request) = na_ctl_record_request E log request"
| "na_ctl_record_message_handler E log (NaReply reply) = na_ctl_record_reply E log reply"
| "na_ctl_record_message_handler E log _ = log"

definition na_ctl_get_local_messages_by_hash :: "na_controller_log \<Rightarrow> string \<Rightarrow> na_message_type list" where
  "na_ctl_get_local_messages_by_hash log hash = bucket (na_ctl_messages log) hash"

definition na_ctl_get_local_messages_count_by_hash :: "na_controller_log \<Rightarrow> string \<Rightarrow> nat" where
  "na_ctl_get_local_messages_count_by_hash log hash = bucket_len (na_ctl_messages log) hash"

lemmas na_record_defs = na_record_preprepare_def na_record_prepare_def na_record_commit_def na_record_reply_def
lemmas na_read_defs = na_get_local_messages_by_hash_def na_get_local_messages_count_by_hash_def
  na_get_local_reply_messages_count_by_hash_def na_get_local_request_by_sequence_number_def
  na_get_request_phase_state_def

text \<open>The stores of this log are bucket stores too.\<close>

interpretation na_preprepare_store: bucket_store
  "na_record_preprepare E" na_get_local_messages_by_hash na_get_local_messages_count_by_hash
  "\<lambda>m. na_get_message_key E (NaPrePrepare m)" NaPrePrepare for E :: "'a ext_scheme"
  by unfold_locales (auto simp: na_record_defs na_read_defs Let_def)

interpretation na_prepare_store: bucket_store
  "na_record_prepare E" na_get_local_messages_by_hash na_get_local_messages_count_by_hash
  "\<lambda>m. na_get_message_key E (NaPrepare m)" NaPrepare for E :: "'a ext_scheme"
  by unfold_locales (auto simp: na_record_defs na_read_defs Let_def)

interpretation na_commit_store: bucket_store
  "na_record_commit E" na_get_local_messages_by_hash na_get_local_messages_count_by_hash
  "\<lambda>m. na_get_message_key E (NaCommit m)" NaCommit for E :: "'a ext_scheme"
  by unfold_locales (auto simp: na_record_defs na_read_defs Let_def)

interpretation na_reply_store: bucket_store
  "na_record_reply E" "\<lambda>log. bucket (na_reply_messages log)" na_get_local_reply_messages_count_by_hash
  "\<lambda>m. na_get_message_key E (NaReply m)" NaReply for E :: "'a ext_scheme"
  by unfold_locales (auto simp: na_record_defs na_read_defs Let_def)

subsection \<open>The protocol object\<close>

text \<open>The key pair, the public keys and the notification handles are never used after construction.\<close>

record na_protocol =
  na_st :: state
  na_lg :: na_log
  na_phase_map_field :: "u8 \<rightharpoonup> string"
  na_taken_requests :: "bytes set"

definition na_state_new :: "nat \<Rightarrow> state" where
  "na_state_new timeout_duration = (state_new timeout_duration)\<lparr>node_count := 10\<rparr>"

definition na_default :: na_protocol where
  "na_default = \<lparr>na_st = na_state_new 5, na_lg = na_log_new, na_phase_map_field = Map.empty, na_taken_requests = {}\<rparr>"

definition na_broadcast_of :: "'a na_ext_scheme \<Rightarrow> na_message_type \<Rightarrow> send_type" where
  "na_broadcast_of E m = Broadcast (json_na_message E \<lparr>na_msg_type = m\<rparr>)"

subsection \<open>Handlers\<close>

definition na_handle_request ::
    "'a na_ext_scheme \<Rightarrow> na_protocol \<Rightarrow> bytes \<Rightarrow> request \<Rightarrow> (na_protocol \<times> phase_state) option" where
  "na_handle_request E p current_peer_id request = do {
     let p1 = p\<lparr>na_taken_requests := insert (bincode_request E request) (na_taken_requests p),
                na_st := (na_st p)\<lparr>primary := current_peer_id\<rparr>\<rparr>;
     seq_number \<leftarrow> u64_add (current_sequence_number (na_st p1)) 1;
     let serialized_request = json_request E request;
     let p2 = p1\<lparr>na_lg := na_record_request seq_number request (na_lg p1)\<rparr>;
     let preprepare = \<lparr>na_pp_view = view (na_st p2), na_pp_number = seq_number,
                       na_pp_m_hash = get_hash_str E serialized_request, na_pp_m = serialized_request,
                       na_pp_from_peer_id = current_peer_id\<rparr>;
     Some (p2, ContinueExecute [na_broadcast_of E (NaPrePrepare preprepare)])
   }"

text \<open>As in PBFT, the future of \<open>record_current_request\<close> is dropped without being awaited.\<close>

definition na_handle_preprepare ::
    "'a na_ext_scheme \<Rightarrow> na_protocol \<Rightarrow> bytes \<Rightarrow> na_pre_prepare \<Rightarrow> (na_protocol \<times> phase_state) option" where
  "na_handle_preprepare E p current_peer_id msg = do {
     request \<leftarrow> from_json_request E (na_pp_m msg);
     let p1 = p\<lparr>na_taken_requests := insert (json_request E request) (na_taken_requests p),
                na_st := (na_st p)\<lparr>primary := na_pp_from_peer_id msg\<rparr>\<rparr>;
     _ \<leftarrow> peer_from_bytes E (na_pp_from_peer_id msg);
     let low = fst (stable_checkpoint (na_st p1));
     high \<leftarrow> u64_add low 100;
     if na_pp_number msg \<le> low \<or> na_pp_number msg > high then Some (p1, ContinueExecute [])
     else if view (na_st p1) \<noteq> na_pp_view msg then Some (p1, ContinueExecute [])
     else do {
       m \<leftarrow> from_json_request E (na_pp_m msg);
       let log1 = na_record_request (na_pp_number msg) m (na_lg p1);
       let log2 = na_record_message_handler E log1 (NaPrePrepare msg);
       let prepare = \<lparr>na_p_view = view (na_st p1), na_p_number = na_pp_number msg,
                      na_p_m_hash = na_pp_m_hash msg, na_p_from_peer_id = current_peer_id\<rparr>;
       Some (p1\<lparr>na_lg := log2\<rparr>, ContinueExecute [na_broadcast_of E (NaPrepare prepare)])
     }
   }"

definition na_handle_prepare ::
    "'a na_ext_scheme \<Rightarrow> na_protocol \<Rightarrow> bytes \<Rightarrow> na_prepare \<Rightarrow> (na_protocol \<times> phase_state) option" where
  "na_handle_prepare E p current_peer_id msg = do {
     let key_str = na_get_message_key E (NaPrepare msg);
     _ \<leftarrow> peer_from_bytes E (na_p_from_peer_id msg);
     if na_get_request_phase_state (na_lg p) (na_p_m_hash msg) = Some LogPrepared
     then Some (p, ContinueExecute [])
     else do {
       let low = fst (stable_checkpoint (na_st p));
       high \<leftarrow> u64_add low 100;
       if na_p_number msg \<le> low \<or> na_p_number msg > high then Some (p, ContinueExecute [])
       else if view (na_st p) \<noteq> na_p_view msg then Some (p, ContinueExecute [])
       else case na_get_local_request_by_sequence_number (na_lg p) (na_p_number msg) of
         None \<Rightarrow> Some (p, ContinueExecute [])
       | Some m \<Rightarrow> do {
           let log1 = na_record_message_handler E (na_lg p) (NaPrepare msg);
           let current_count = na_get_local_messages_count_by_hash log1 key_str;
           threshold \<leftarrow> u64_mul 2 (fault_tolerance_count (na_st p));
           if current_count = unat threshold
           then do {
             let log2 = na_update_request_phase_state (na_p_m_hash msg) LogPrepared log1;
             let commit = \<lparr>na_c_view = view (na_st p), na_c_number = na_p_number msg,
                           na_c_m_hash = na_p_m_hash msg, na_c_from_peer_id = current_peer_id\<rparr>;
             Some (p\<lparr>na_lg := log2\<rparr>, ContinueExecute [na_broadcast_of E (NaCommit commit)])
           }
           else Some (p\<lparr>na_lg := log1\<rparr>, ContinueExecute [])
         }
     }
   }"

definition na_handle_commit ::
    "'a na_ext_scheme \<Rightarrow> na_protocol \<Rightarrow> bytes \<Rightarrow> na_commit \<Rightarrow> (na_protocol \<times> phase_state) option" where
  "na_handle_commit E p current_peer_id msg = do {
     let key_str = na_get_message_key E (NaCommit msg);
     let count = na_get_local_messages_count_by_hash (na_lg p) key_str;
     threshold \<leftarrow> u64_mul 2 (fault_tolerance_count (na_st p));
     if count \<ge> unat threshold then Some (p, ContinueExecute [])
     else do {
       _ \<leftarrow> peer_from_bytes E (na_c_from_peer_id msg);
       if na_get_request_phase_state (na_lg p) (na_c_m_hash msg) = Some LogCommited
       then Some (p, ContinueExecute [])
       else do {
         let low = fst (stable_checkpoint (na_st p));
         high \<leftarrow> u64_add low 100;
         if na_c_number msg \<le> low \<or> na_c_number msg > high then Some (p, ContinueExecute [])
         else if view (na_st p) \<noteq> na_c_view msg then Some (p, ContinueExecute [])
         else case na_get_local_request_by_sequence_number (na_lg p) (na_c_number msg) of
           None \<Rightarrow> Some (p, ContinueExecute [])
         | Some m \<Rightarrow> do {
             let log1 = na_record_message_handler E (na_lg p) (NaCommit msg);
             let current_count = na_get_local_messages_count_by_hash log1 key_str;
             if current_count > unat threshold then Some (p\<lparr>na_lg := log1\<rparr>, ContinueExecute [])
             else if current_count = unat threshold
             then do {
               let st1 = update_checkpoint_state E (na_c_m_hash msg) (na_st p);
               let log2 = na_remove_commited_request log1;
               commited \<leftarrow> u64_add (current_commited_request_count st1) 1;
               let st2 = st1\<lparr>current_commited_request_count := commited\<rparr>;
               let log3 = na_update_request_phase_state (na_c_m_hash msg) LogCommited log2;
               let reply = \<lparr>na_r_cmd = cmd m, na_r_view = view st2, na_r_number = na_c_number msg,
                            na_r_from_peer_id = current_peer_id, na_r_result = as_bytes ''ok!''\<rparr>;
               primary_id \<leftarrow> peer_from_bytes E (primary st2);
               Some (p\<lparr>na_st := st2, na_lg := na_reset log3\<rparr>,
                     Complete \<lparr>cmd = cmd m\<rparr>
                       [Unicast primary_id (json_na_message E \<lparr>na_msg_type = NaReply reply\<rparr>)])
             }
             else Some (p\<lparr>na_lg := log1\<rparr>, ContinueExecute [])
           }
       }
     }
   }"

definition na_handle_reply ::
    "'a na_ext_scheme \<Rightarrow> na_protocol \<Rightarrow> bytes \<Rightarrow> na_reply \<Rightarrow> (na_protocol \<times> phase_state) option" where
  "na_handle_reply E p current_peer_id msg = do {
     let key_str = na_get_message_key E (NaReply msg);
     threshold \<leftarrow> u64_sub (node_count (na_st p)) (fault_tolerance_count (na_st p));
     _ \<leftarrow> peer_from_bytes E (na_r_from_peer_id msg);
     let log1 = na_record_message_handler E (na_lg p) (NaReply msg);
     let current_count = na_get_local_reply_messages_count_by_hash log1 key_str;
     d \<leftarrow> u64_sub (node_count (na_st p)) (fault_tolerance_count (na_st p));
     reply_threshold \<leftarrow> u64_sub d 1;
     if current_count = unat reply_threshold
     then if utf8_valid (na_r_result msg)
          then Some (p\<lparr>na_lg := (na_reset log1)\<lparr>na_reply_messages := Map.empty\<rparr>\<rparr>, Over None)
          else None
     else Some (p\<lparr>na_lg := log1\<rparr>, ContinueExecute [])
   }"

subsection \<open>The protocol interface\<close>

definition na_extra_initial_start :: "na_protocol \<Rightarrow> peer_id list \<Rightarrow> bytes \<Rightarrow> na_protocol \<times> phase_state" where
  "na_extra_initial_start p consensus_nodes current_peer_id =
     (p\<lparr>na_st := (na_st p)\<lparr>primary := current_peer_id,
          node_count := of_nat (length (remdups consensus_nodes))\<rparr>\<rparr>, OverMessage None [])"

fun na_handle_message_type ::
    "'a na_ext_scheme \<Rightarrow> bytes \<Rightarrow> na_protocol \<Rightarrow> na_message_type \<Rightarrow> (na_protocol \<times> phase_state) option" where
  "na_handle_message_type E current_peer_id p (NaRequest msg) = na_handle_request E p current_peer_id msg"
| "na_handle_message_type E current_peer_id p (NaPrePrepare msg) = na_handle_preprepare E p current_peer_id msg"
| "na_handle_message_type E current_peer_id p (NaPrepare msg) = na_handle_prepare E p current_peer_id msg"
| "na_handle_message_type E current_peer_id p (NaCommit msg) = na_handle_commit E p current_peer_id msg"
| "na_handle_message_type E current_peer_id p (NaReply msg) = na_handle_reply E p current_peer_id msg"

definition na_message_handler ::
    "'a na_ext_scheme \<Rightarrow> bytes \<Rightarrow> na_protocol \<Rightarrow> bytes \<Rightarrow> (na_protocol \<times> phase_state) option" where
  "na_message_handler E current_peer_id p msg = do {
     message \<leftarrow> from_json_na_message E msg;
     na_handle_message_type E current_peer_id p (na_msg_type message)
   }"

definition na_receive_consensus_requests :: "na_protocol \<Rightarrow> request list \<Rightarrow> na_protocol option" where
  "na_receive_consensus_requests p rs = None"

definition na_init_timeout_notify :: "na_protocol \<Rightarrow> nat \<Rightarrow> na_protocol" where
  "na_init_timeout_notify p h = p"

definition na_generate_serialized_request_message :: "'a na_ext_scheme \<Rightarrow> request \<Rightarrow> bytes" where
  "na_generate_serialized_request_message E request = json_na_message E \<lparr>na_msg_type = NaRequest request\<rparr>"

definition na_phase_map :: "na_protocol \<Rightarrow> u8 \<rightharpoonup> string" where
  "na_phase_map p = na_phase_map_field p"

definition na_protocol_phases :: "'a na_ext_scheme \<Rightarrow> na_protocol \<Rightarrow> na_protocol \<times> (u8 \<rightharpoonup> bytes)" where
  "na_protocol_phases E p =
     (let prepare = \<lparr>na_p_view = 1, na_p_number = 1, na_p_m_hash = '''', na_p_from_peer_id = []\<rparr>;
          commit = \<lparr>na_c_view = 1, na_c_number = 2, na_c_m_hash = '''', na_c_from_peer_id = []\<rparr>
      in (p\<lparr>na_phase_map_field := (na_phase_map_field p)(1 \<mapsto> ''Prepare'', 2 \<mapsto> ''Commit'')\<rparr>,
          [1 \<mapsto> as_bytes (json_na_prepare_str E prepare), 2 \<mapsto> as_bytes (json_na_commit_str E commit)]))"

definition na_get_current_phase :: "'a na_ext_scheme \<Rightarrow> bytes \<Rightarrow> u8 option" where
  "na_get_current_phase E msg =
     (if msg = [] then Some 0
      else do {
        data \<leftarrow> from_json_na_message E msg;
        Some (case na_msg_type data of NaPrepare _ \<Rightarrow> 1 | NaCommit _ \<Rightarrow> 2 | _ \<Rightarrow> 0)
      })"

definition na_current_request :: "na_protocol \<Rightarrow> request option" where
  "na_current_request p = None"

definition na_check_taken_request :: "na_protocol \<Rightarrow> bytes \<Rightarrow> bool" where
  "na_check_taken_request p request = (request \<in> na_taken_requests p)"

definition na_is_leader :: "na_protocol \<Rightarrow> bytes \<Rightarrow> bool" where
  "na_is_leader p peer_id = (primary (na_st p) = peer_id)"

end
