(* ===== verification/NonAuth_Properties.thy ===== *)
theory NonAuth_Properties
  imports NonAuth_PBFT Actuator_Properties
begin

text \<open>
  Properties of PBFT without authentication: on authenticated traffic it behaves as PBFT does, without
  authentication one sender makes up a quorum, and what stays constant in every execution of a node.
\<close>

subsection \<open>Simulation of PBFT\<close>

text \<open>Forgetting the signatures. Only the first five kinds of message exist without authentication.\<close>

fun erase_msg :: "message_type \<Rightarrow> na_message_type" where
  "erase_msg (PrePrepare m) = NaPrePrepare \<lparr>na_pp_view = pp_view m, na_pp_number = pp_number m,
     na_pp_m_hash = pp_m_hash m, na_pp_m = pp_m m, na_pp_from_peer_id = pp_from_peer_id m\<rparr>"
| "erase_msg (Prepare m) = NaPrepare \<lparr>na_p_view = p_view m, na_p_number = p_number m, na_p_m_hash = p_m_hash m,
     na_p_from_peer_id = p_from_peer_id m\<rparr>"
| "erase_msg (Commit m) = NaCommit \<lparr>na_c_view = c_view m, na_c_number = c_number m, na_c_m_hash = c_m_hash m,
     na_c_from_peer_id = c_from_peer_id m\<rparr>"
| "erase_msg (Reply m) = NaReply \<lparr>na_r_cmd = r_cmd m, na_r_view = r_view m, na_r_number = r_number m,
     na_r_from_peer_id = r_from_peer_id m, na_r_result = r_result m\<rparr>"
| "erase_msg (Request r) = NaRequest r"
| "erase_msg _ = NaRequest \<lparr>cmd = ''''\<rparr>"

definition erase_log :: "consensus_log \<Rightarrow> na_log" where
  "erase_log l = \<lparr>na_requests = requests l, na_messages = map_option (map erase_msg) \<circ> messages l,
     na_reply_messages = map_option (map erase_msg) \<circ> reply_messages l, na_request_map = request_map l,
     na_request_phase_state = request_phase_state l, na_current_requests = current_requests l\<rparr>"

definition same_node :: "pbft_protocol \<Rightarrow> na_protocol \<Rightarrow> bool" where
  "same_node p q \<longleftrightarrow> na_st q = pstate p \<and> na_lg q = erase_log (plog p)"

text \<open>The two protocols are linked against the same libraries.\<close>

definition same_library :: "'a pbft_ext_scheme \<Rightarrow> 'b na_ext_scheme \<Rightarrow> bool" where
  "same_library E N \<longleftrightarrow> sha3_256_hex N = sha3_256_hex E \<and> json_request N = json_request E \<and>
     from_json_request N = from_json_request E \<and> peer_from_bytes N = peer_from_bytes E"

text \<open>The same messages leave, up to the signatures in them.\<close>

definition same_send :: "'a pbft_ext_scheme \<Rightarrow> 'b na_ext_scheme \<Rightarrow> send_type \<Rightarrow> send_type \<Rightarrow> bool" where
  "same_send E N s s' \<longleftrightarrow> (\<exists>m. s = broadcast_of E m \<and> s' = na_broadcast_of N (erase_msg m)) \<or>
     (\<exists>x m. s = Unicast x (json_consensus_message E \<lparr>msg_type = m\<rparr>) \<and>
        s' = Unicast x (json_na_message N \<lparr>na_msg_type = erase_msg m\<rparr>))"

fun same_out :: "'a pbft_ext_scheme \<Rightarrow> 'b na_ext_scheme \<Rightarrow> phase_state \<Rightarrow> phase_state \<Rightarrow> bool" where
  "same_out E N (ContinueExecute s) ps \<longleftrightarrow> (\<exists>s'. ps = ContinueExecute s' \<and> list_all2 (same_send E N) s s')"
| "same_out E N (Complete r s) ps \<longleftrightarrow> (\<exists>s'. ps = Complete r s' \<and> list_all2 (same_send E N) s s')"
| "same_out E N (Over r) ps \<longleftrightarrow> ps = Over r"
| "same_out E N (OverMessage r s) ps \<longleftrightarrow> (\<exists>s'. ps = OverMessage r s' \<and> list_all2 (same_send E N) s s')"

text \<open>What PBFT checks of a message and the reduced protocol does not.\<close>

fun authentic :: "'a pbft_ext_scheme \<Rightarrow> pbft_protocol \<Rightarrow> message_type \<Rightarrow> bool" where
  "authentic E p (Request r) = True"
| "authentic E p (PrePrepare m) = signature_ok E p (pp_from_peer_id m) (pp_signature m) (get_message_key E (PrePrepare m))"
| "authentic E p (Prepare m) = (signature_ok E p (p_from_peer_id m) (p_signature m) (get_message_key E (Prepare m)) \<and>
     (case requests (plog p) (p_number m) of Some r \<Rightarrow> get_message_key E (Request r) = p_m_hash m | None \<Rightarrow> True))"
| "authentic E p (Commit m) = (signature_ok E p (c_from_peer_id m) (c_signature m) (get_message_key E (Commit m)) \<and>
     (case requests (plog p) (c_number m) of Some r \<Rightarrow> get_message_key E (Request r) = c_m_hash m | None \<Rightarrow> True))"
| "authentic E p (Reply m) = signature_ok E p (r_from_peer_id m) (r_signature m) (get_message_key E (Reply m))"
| "authentic E p _ = False"

fun authentic_run :: "'a pbft_ext_scheme \<Rightarrow> bytes \<Rightarrow> pbft_input \<Rightarrow> pbft_protocol \<Rightarrow> message_type list \<Rightarrow> bool" where
  "authentic_run E me i p [] = True"
| "authentic_run E me i p (m # ms) = (authentic E p m \<and>
     (case handle_message_type E me i p m of Some (p', _) \<Rightarrow> authentic_run E me i p' ms | None \<Rightarrow> True))"

lemma erase_keys:
  assumes "same_library E N" "authentic E p m" "\<forall>r. m \<noteq> Request r"
  shows "na_get_message_key N (erase_msg m) = get_message_key E m"
  using assms
  by (cases m) (auto simp: na_get_message_key.simps get_message_key.simps same_library_def get_hash_str_def)

lemma erase_log_reads:
  "na_get_request_phase_state (erase_log l) h = get_request_phase_state l h"
  "na_get_local_request_by_sequence_number (erase_log l) n = get_local_request_by_sequence_number l n"
  "na_get_local_messages_count_by_hash (erase_log l) k = get_local_messages_count_by_hash l k"
  "na_get_local_reply_messages_count_by_hash (erase_log l) k = get_local_reply_messages_count_by_hash l k"
  by (simp_all add: na_read_defs read_defs erase_log_def bucket_def split: option.splits)

lemma erase_log_updates:
  "na_record_request n r (erase_log l) = erase_log (record_request n r l)"
  "na_reset (erase_log l) = erase_log (reset l)"
  "na_remove_commited_request (erase_log l) = erase_log (remove_commited_request l)"
  "na_update_request_phase_state h s (erase_log l) = erase_log (update_request_phase_state h s l)"
  "(erase_log l)\<lparr>na_reply_messages := Map.empty\<rparr> = erase_log (l\<lparr>reply_messages := Map.empty\<rparr>)"
  by (simp_all add: erase_log_def na_record_request_def record_request_def na_reset_def reset_def
      na_remove_commited_request_def remove_commited_request_def na_update_request_phase_state_def
      update_request_phase_state_def fun_eq_iff)

lemma erase_push: "push_bucket (map_option (map f) \<circ> m) k (f x) = map_option (map f) \<circ> push_bucket m k x"
  by (auto simp: push_bucket_def fun_eq_iff split: option.splits)

lemma erase_record:
  assumes "same_library E N" "authentic E p m" "\<forall>r. m \<noteq> Request r"
  shows "na_record_message_handler N (erase_log l) (erase_msg m) = erase_log (record_message_handler E l m)"
  using erase_keys [OF assms] assms
  by (cases m) (simp_all add: na_record_defs record_defs Let_def erase_log_def erase_push [of erase_msg, symmetric])

lemma same_library_fields:
  assumes "same_library E N"
  shows "get_hash_str N b = get_hash_str E b" "json_request N = json_request E" "from_json_request N = from_json_request E"
    "peer_from_bytes N = peer_from_bytes E" "update_checkpoint_state N h s = update_checkpoint_state E h s"
  using assms by (simp_all add: same_library_def get_hash_str_def update_checkpoint_state_def)

lemma same_send_broadcast:
  "erase_msg m = m' \<Longrightarrow> same_send E N (broadcast_of E m) (na_broadcast_of N m')"
  by (auto simp: same_send_def)

lemma same_send_unicast:
  "erase_msg m = m' \<Longrightarrow> same_send E N (Unicast x (json_consensus_message E \<lparr>msg_type = m\<rparr>))
     (Unicast x (json_na_message N \<lparr>na_msg_type = m'\<rparr>))"
  by (auto simp: same_send_def)

lemmas simulation_simps = erase_log_reads erase_log_updates same_node_def Let_def same_send_broadcast same_send_unicast

abbreviation simulates where
  "simulates E N \<equiv> rel_option (rel_prod same_node (same_out E N))"

lemma simulate_request:
  assumes "same_library E N" "same_node p q"
  shows "simulates E N (handle_request E p me r) (na_handle_request N q me r)"
  using assms(2)
  by (cases "u64_add (current_sequence_number (pstate p)) 1")
    (simp_all add: handle_request_def na_handle_request_def same_library_fields [OF assms(1)] simulation_simps)

lemma simulate_preprepare:
  assumes lib: "same_library E N" and node: "same_node p q" and auth: "authentic E p (PrePrepare m)"
    and n: "erase_msg (PrePrepare m) = NaPrePrepare n"
  shows "simulates E N (handle_preprepare E p me m) (na_handle_preprepare N q me n)"
proof -
  have "signature_ok E (p\<lparr>taken_requests := a, pstate := s\<rparr>) x y z = signature_ok E p x y z" for a s x y z
    by (simp add: signature_ok_def get_public_key_by_peer_id_def)
  with auth n erase_record [OF lib auth] node show ?thesis
    by (cases "from_json_request E (pp_m m)"; cases "peer_from_bytes E (pp_from_peer_id m)"; cases "u64_add (fst (stable_checkpoint (pstate p))) 100")
      (auto simp: handle_preprepare_def na_handle_preprepare_def same_library_fields [OF lib] simulation_simps)
qed

lemma simulate_prepare:
  assumes lib: "same_library E N" and node: "same_node p q" and auth: "authentic E p (Prepare m)"
    and n: "erase_msg (Prepare m) = NaPrepare n"
  shows "simulates E N (handle_prepare E p me m) (na_handle_prepare N q me n)"
  using auth n erase_record [OF lib auth] erase_keys [OF lib auth] node
  by (cases "peer_from_bytes E (p_from_peer_id m)"; cases "u64_add (fst (stable_checkpoint (pstate p))) 100";
      cases "requests (plog p) (p_number m)"; cases "u64_mul 2 (fault_tolerance_count (pstate p))")
    (auto simp: handle_prepare_def na_handle_prepare_def same_library_fields [OF lib] simulation_simps
      get_local_request_by_sequence_number_def)

lemma simulate_bind:
  "(\<And>x. m = Some x \<Longrightarrow> rel_option R (f x) (g x)) \<Longrightarrow> rel_option R (Option.bind m f) (Option.bind m g)"
  by (cases m) simp_all

lemma simulate_reply:
  assumes lib: "same_library E N" and node: "same_node p q" and auth: "authentic E p (Reply m)"
    and n: "erase_msg (Reply m) = NaReply n"
  shows "simulates E N (handle_reply E p me m) (na_handle_reply N q me n)"
  using auth n erase_record [OF lib auth] erase_keys [OF lib auth] node
  by (auto simp: handle_reply_def na_handle_reply_def same_library_fields [OF lib] simulation_simps intro!: simulate_bind)

lemma simulate_commit:
  assumes lib: "same_library E N" and node: "same_node p q" and auth: "authentic E p (Commit m)"
    and n: "erase_msg (Commit m) = NaCommit n"
  shows "simulates E N (handle_commit E p me m) (na_handle_commit N q me n)"
  using auth n erase_record [OF lib auth] erase_keys [OF lib auth] node
  by (cases "requests (plog p) (c_number m)")
    (auto simp: handle_commit_def na_handle_commit_def same_library_fields [OF lib] simulation_simps
      get_local_request_by_sequence_number_def intro!: simulate_bind)

lemma simulate_step:
  assumes "same_library E N" "same_node p q" "authentic E p m"
  shows "simulates E N (handle_message_type E me i p m) (na_handle_message_type N me q (erase_msg m))"
  using assms
  by (cases m) (auto intro!: simulate_request simulate_preprepare simulate_prepare simulate_commit simulate_reply)

text \<open>
  C13. On authenticated traffic the protocol without authentication is PBFT: on messages that PBFT accepts
  as signed by their senders, with digests that match the request, both nodes panic or neither, they
  complete the same requests and send the same messages up to the signatures, and their logs stay the same up to the
  signatures, for any sequence of messages.
\<close>
theorem nonauth_refines_pbft:
  assumes "same_library E N" "same_node p q" "authentic_run E me i p ms"
  shows "rel_option (rel_prod same_node (list_all2 (same_out E N)))
    (run_handler (handle_message_type E me i) p ms) (run_handler (na_handle_message_type N me) q (map erase_msg ms))"
  using assms(2,3)
proof (induction ms arbitrary: p q)
  case (Cons m ms)
  from Cons.prems(2) have "simulates E N (handle_message_type E me i p m) (na_handle_message_type N me q (erase_msg m))"
    by (intro simulate_step [OF assms(1) Cons.prems(1)]) simp
  then show ?case
  proof (cases rule: option.rel_cases)
    case None
    then show ?thesis by simp
  next
    case (Some x y)
    obtain p1 out q1 out' where xy: "x = (p1, out)" "y = (q1, out')" by fastforce
    with Some have "same_node p1 q1" "same_out E N out out'" by simp_all
    moreover from this(1) have "rel_option (rel_prod same_node (list_all2 (same_out E N)))
        (run_handler (handle_message_type E me i) p1 ms) (run_handler (na_handle_message_type N me) q1 (map erase_msg ms))"
      by (rule Cons.IH) (use Cons.prems(2) Some xy in simp)
    ultimately show ?thesis
      using Some(1,2) xy by (auto simp: rel_option_iff split: option.splits)
  qed
qed simp

subsection \<open>Quorums of one sender\<close>

text \<open>A replica that has taken a request into a slot of its window.\<close>

definition slot_open :: "'a na_ext_scheme \<Rightarrow> na_protocol \<Rightarrow> na_commit \<Rightarrow> bool" where
  "slot_open N p c \<longleftrightarrow> view (na_st p) = na_c_view c \<and> peer_from_bytes N (na_c_from_peer_id c) \<noteq> None \<and>
     na_request_phase_state (na_lg p) (na_c_m_hash c) \<noteq> Some LogCommited \<and>
     (\<exists>high. u64_add (fst (stable_checkpoint (na_st p))) 100 = Some high \<and>
        fst (stable_checkpoint (na_st p)) < na_c_number c \<and> na_c_number c \<le> high)"

abbreviation commits_filed :: "'a na_ext_scheme \<Rightarrow> na_protocol \<Rightarrow> na_commit \<Rightarrow> nat" where
  "commits_filed N p c \<equiv> na_get_local_messages_count_by_hash (na_lg p) (na_get_message_key N (NaCommit c))"

lemma commit_filed:
  assumes "slot_open N p c" "na_requests (na_lg p) (na_c_number c) = Some r"
    and t: "u64_mul 2 (fault_tolerance_count (na_st p)) = Some t" and n: "Suc (commits_filed N p c) < unat t"
  shows "\<exists>p'. na_handle_commit N p me c = Some (p', ContinueExecute []) \<and> slot_open N p' c \<and>
    na_requests (na_lg p') = na_requests (na_lg p) \<and> na_st p' = na_st p \<and> commits_filed N p' c = Suc (commits_filed N p c)"
proof -
  let ?p = "p\<lparr>na_lg := na_record_commit N (na_lg p) c\<rparr>"
  have "commits_filed N ?p c = Suc (commits_filed N p c)" by (simp add: na_commit_store.count_push)
  moreover from this assms have "na_handle_commit N p me c = Some (?p, ContinueExecute [])"
    by (auto simp: na_handle_commit_def slot_open_def na_get_request_phase_state_def
        na_get_local_request_by_sequence_number_def Let_def not_less)
  moreover have "slot_open N ?p c" using assms(1) by (simp add: slot_open_def na_record_commit_def Let_def)
  ultimately show ?thesis by (auto simp: na_record_commit_def Let_def)
qed

lemma commits_pile_up:
  assumes "slot_open N p c" "na_requests (na_lg p) (na_c_number c) = Some r"
    and "u64_mul 2 (fault_tolerance_count (na_st p)) = Some t" "commits_filed N p c + k < unat t"
  shows "\<exists>p'. run_handler (na_handle_message_type N me) p (replicate k (NaCommit c)) = Some (p', replicate k (ContinueExecute [])) \<and>
    slot_open N p' c \<and> na_requests (na_lg p') = na_requests (na_lg p) \<and> na_st p' = na_st p \<and>
    commits_filed N p' c = commits_filed N p c + k"
  using assms
proof (induction k arbitrary: p)
  case (Suc k)
  from commit_filed [OF Suc.prems(1-3)] Suc.prems(4) obtain p1 where
    p1: "na_handle_commit N p me c = Some (p1, ContinueExecute [])" "slot_open N p1 c" "na_st p1 = na_st p"
      "na_requests (na_lg p1) = na_requests (na_lg p)" "commits_filed N p1 c = Suc (commits_filed N p c)"
    by fastforce
  from Suc.IH [OF p1(2)] Suc.prems p1(3-5) obtain p' where
    "run_handler (na_handle_message_type N me) p1 (replicate k (NaCommit c)) = Some (p', replicate k (ContinueExecute []))"
    "slot_open N p' c" "na_requests (na_lg p') = na_requests (na_lg p)" "na_st p' = na_st p"
    "commits_filed N p' c = commits_filed N p c + Suc k"
    by auto
  with p1(1) show ?case by auto
qed simp

text \<open>
  One sender makes up a commit quorum: with a request taken into a slot, twice the tolerated number of copies of a single
  commit message, with any sender and a digest that need not be that of the request,
  make the replica execute the request, without any prepare message.
\<close>
theorem one_sender_commits:
  assumes "slot_open N p c" "na_requests (na_lg p) (na_c_number c) = Some r" "commits_filed N p c = 0"
    and t: "u64_mul 2 (fault_tolerance_count (na_st p)) = Some t" "0 < t"
    and "u64_add (current_commited_request_count (na_st p)) 1 \<noteq> None" "peer_from_bytes N (primary (na_st p)) \<noteq> None"
  shows "\<exists>p' reply. run_handler (na_handle_message_type N me) p (replicate (unat t) (NaCommit c)) =
    Some (p', replicate (unat t - 1) (ContinueExecute []) @ [Complete \<lparr>cmd = cmd r\<rparr> [reply]])"
proof -
  obtain k where k: "unat t = Suc k" using t(2) by (cases "unat t") (simp_all add: word_less_nat_alt)
  from commits_pile_up [OF assms(1,2) t(1), of k me] assms(3) k obtain p1 where
    run: "run_handler (na_handle_message_type N me) p (replicate k (NaCommit c)) = Some (p1, replicate k (ContinueExecute []))"
    and p1: "slot_open N p1 c" "na_requests (na_lg p1) = na_requests (na_lg p)" "na_st p1 = na_st p" "commits_filed N p1 c = k"
    by auto
  have "na_get_local_messages_count_by_hash (na_record_commit N (na_lg p1) c) (na_get_message_key N (NaCommit c)) = Suc k"
    using p1(4) by (simp add: na_commit_store.count_push)
  moreover obtain cc x where "u64_add (current_commited_request_count (na_st p)) 1 = Some cc"
    "peer_from_bytes N (primary (na_st p)) = Some x"
    using assms(6,7) by auto
  moreover from p1(1) obtain high y where "u64_add (fst (stable_checkpoint (na_st p1))) 100 = Some high"
    "fst (stable_checkpoint (na_st p1)) < na_c_number c" "na_c_number c \<le> high" "peer_from_bytes N (na_c_from_peer_id c) = Some y"
    "view (na_st p1) = na_c_view c" "na_request_phase_state (na_lg p1) (na_c_m_hash c) \<noteq> Some LogCommited"
    by (auto simp: slot_open_def)
  ultimately obtain p' reply where "na_handle_commit N p1 me c = Some (p', Complete \<lparr>cmd = cmd r\<rparr> [reply])"
    using p1(2-4) assms(2) t(1) k
    by (simp add: na_handle_commit_def na_get_request_phase_state_def
        na_get_local_request_by_sequence_number_def Let_def log_simps not_le not_less)
  then have "na_handle_message_type N me p1 (NaCommit c) = Some (p', Complete \<lparr>cmd = cmd r\<rparr> [reply])" by simp
  from run_handler_snoc [OF run this] show ?thesis
    by (auto simp: k replicate_append_same simp del: run_handler.simps)
qed

subsection \<open>The protocol behind the actuator\<close>

text \<open>\<open>impl ProtocolBehaviour for NonAuthPBFTProtocol\<close>; no method iterates over a hash map.\<close>

definition nonauth_behaviour :: "'a na_ext_scheme \<Rightarrow> (na_protocol, unit) protocol_behaviour" where
  "nonauth_behaviour P = \<lparr>
     pb_init_timeout_notify = na_init_timeout_notify,
     pb_extra_initial_start = (\<lambda>i p nodes me. Some (na_extra_initial_start p nodes me)),
     pb_message_handler = (\<lambda>i p msg me from. na_message_handler P me p msg),
     pb_get_current_phase = (\<lambda>p msg. map_option (Pair p) (na_get_current_phase P msg)),
     pb_protocol_reset = (\<lambda>i. default_protocol_reset),
     pb_view_timeout_handler = (\<lambda>i. default_view_timeout_handler),
     pb_protocol_phases = na_protocol_phases P,
     pb_phase_map = na_phase_map,
     pb_current_request = na_current_request,
     pb_is_leader = na_is_leader,
     pb_set_leader = default_set_leader,
     pb_generate_serialized_request_message = (\<lambda>p. na_generate_serialized_request_message P),
     pb_check_taken_request = na_check_taken_request,
     pb_set_current_request = default_set_current_request\<rparr>"

lemma nonauth_behaviour_simps [simp]:
  "pb_init_timeout_notify (nonauth_behaviour P) p h = p"
  "pb_extra_initial_start (nonauth_behaviour P) i p nodes me = Some (na_extra_initial_start p nodes me)"
  "pb_message_handler (nonauth_behaviour P) i p msg me from = na_message_handler P me p msg"
  "pb_get_current_phase (nonauth_behaviour P) p msg = map_option (Pair p) (na_get_current_phase P msg)"
  "pb_protocol_reset (nonauth_behaviour P) i p = p"
  "pb_view_timeout_handler (nonauth_behaviour P) i p peer = Some (p, ContinueExecute [Broadcast []])"
  "pb_protocol_phases (nonauth_behaviour P) = na_protocol_phases P"
  "pb_phase_map (nonauth_behaviour P) = na_phase_map"
  "pb_current_request (nonauth_behaviour P) p = None"
  "pb_is_leader (nonauth_behaviour P) = na_is_leader"
  "pb_set_leader (nonauth_behaviour P) p b = p"
  "pb_generate_serialized_request_message (nonauth_behaviour P) p r = na_generate_serialized_request_message P r"
  "pb_check_taken_request (nonauth_behaviour P) = na_check_taken_request"
  "pb_set_current_request (nonauth_behaviour P) p r = p"
  by (simp_all add: nonauth_behaviour_def behaviour_defs na_init_timeout_notify_def na_current_request_def)

text \<open>What never changes: the view, the sequence number, the stable checkpoint and the tolerance.\<close>

definition na_frozen :: "na_protocol \<Rightarrow> bool" where
  "na_frozen p \<longleftrightarrow> view (na_st p) = 0 \<and> current_sequence_number (na_st p) = 0 \<and> stable_checkpoint (na_st p) = (0, '''') \<and>
     fault_tolerance_count (na_st p) = 1"

lemma na_handle_message_type_frozen:
  "na_frozen p \<Longrightarrow> na_handle_message_type P me p m = Some (p', ps) \<Longrightarrow> na_frozen p'"
  by (cases m) (auto simp: na_frozen_def na_handle_request_def na_handle_preprepare_def na_handle_prepare_def
      na_handle_commit_def na_handle_reply_def bind_eq_Some_conv Let_def log_simps split: if_splits option.splits)

interpretation nonauth_node: protocol_contract "nonauth_behaviour P" ident me na_frozen for P ident me
proof (unfold_locales, goal_cases)
  case (3 p i m src p' ps)
  then show ?case by (auto simp: na_message_handler_def bind_eq_Some_conv intro: na_handle_message_type_frozen)
qed (auto simp: na_frozen_def na_extra_initial_start_def na_protocol_phases_def Let_def)

text \<open>
  Every proposal of a node without authentication is for view 0 and sequence number 1, in all executions: the sequence
  number is never advanced, so only the digest tells requests apart.
\<close>
theorem nonauth_proposes_slot_one:
  assumes "act_reachable E (nonauth_behaviour P) (network_start (nonauth_behaviour P) leader (actuator_new ident na_default)) a"
    and "na_handle_request P (protocol a) me r = Some (p', ps)"
  shows "ps = ContinueExecute [na_broadcast_of P (NaPrePrepare \<lparr>na_pp_view = 0, na_pp_number = 1,
    na_pp_m_hash = get_hash_str P (json_request P r), na_pp_m = json_request P r, na_pp_from_peer_id = me\<rparr>)]"
proof -
  have "na_frozen na_default" by (simp add: na_frozen_def na_default_def na_state_new_def state_new_def)
  from nonauth_node.executions_ok [OF assms(1) this refl] have "na_frozen (protocol a)" by (simp add: nonauth_node.node_ok_def)
  with assms(2) show ?thesis
    by (auto simp: na_handle_request_def na_frozen_def Let_def bind_eq_Some_conv u64_add_def)
qed

subsection \<open>A concrete instance\<close>

definition na_demo :: na_ext where
  "na_demo = ext.extend demo_base_ext (na_ext.fields
     (\<lambda>c. case na_msg_type c of NaPrePrepare m \<Rightarrow> [1] | NaPrepare m \<Rightarrow> [2] | NaCommit m \<Rightarrow> [3] | _ \<Rightarrow> [5])
     (\<lambda>b. Some \<lparr>na_msg_type = NaRequest demo_req\<rparr>)
     (\<lambda>_. ''prepare'') (\<lambda>_. ''commit''))"

lemma na_demo_fields [simp]:
  "sha3_256_hex na_demo = chars" "json_request na_demo = (\<lambda>r. as_bytes (cmd r))"
  "bincode_request na_demo = (\<lambda>r. as_bytes (cmd r))" "from_json_request na_demo = (\<lambda>b. Some demo_req)"
  "peer_from_bytes na_demo = Some"
  "from_json_na_message na_demo b = Some \<lparr>na_msg_type = NaRequest demo_req\<rparr>"
  by (simp_all add: na_demo_def demo_base_ext_def ext.defs na_ext.defs)

lemma na_demo_library: "same_library demo na_demo"
  by (simp add: same_library_def)

definition na_demo_node :: na_protocol where
  "na_demo_node = na_default\<lparr>na_st := state_new 5\<rparr>"

lemma na_demo_same: "same_node demo_node na_demo_node"
  by (simp add: same_node_def na_demo_node_def na_default_def na_log_new_def erase_log_def consensus_log_new_def fun_eq_iff)

definition demo_traffic :: "message_type list" where
  "demo_traffic = [PrePrepare demo_pp, Prepare (demo_prepare 2), Prepare (demo_prepare 3),
     Commit (demo_commit 2), Commit (demo_commit 3)]"

lemmas demo_steps = demo_proposed_step demo_first_prepare demo_second_prepare demo_first_commit demo_second_commit

lemma demo_traffic_authentic: "authentic_run demo [1] i demo_node demo_traffic"
  by (simp add: demo_traffic_def demo_steps demo_signature_ok demo_hash_def)

theorem nonauth_refines_pbft_witness:
  "\<exists>q outs reply. run_handler (na_handle_message_type na_demo [1]) na_demo_node (map erase_msg demo_traffic) =
     Some (q, outs @ [Complete demo_req [reply]])"
proof -
  have "\<exists>outs reply. run_handler (handle_message_type demo [1] (demo_input [])) demo_node demo_traffic =
      Some (demo_done, outs @ [Complete demo_req [reply]])"
    by (simp add: demo_traffic_def demo_steps)
  with nonauth_refines_pbft [OF na_demo_library na_demo_same demo_traffic_authentic [of "demo_input []"]]
  show ?thesis by (fastforce simp: option_rel_Some1 list_all2_append1 list_all2_Cons1)
qed

definition na_demo_taken :: na_protocol where
  "na_demo_taken = na_demo_node\<lparr>na_lg := na_log_new\<lparr>na_requests := [1 \<mapsto> demo_req]\<rparr>\<rparr>"

theorem one_sender_commits_witness:
  "\<exists>p' outs reply. run_handler (na_handle_message_type na_demo [1]) na_demo_taken
      (replicate 2 (NaCommit \<lparr>na_c_view = 0, na_c_number = 1, na_c_m_hash = ''other'', na_c_from_peer_id = [7]\<rparr>)) =
    Some (p', outs @ [Complete demo_req [reply]])"
proof -
  let ?c = "\<lparr>na_c_view = 0, na_c_number = 1, na_c_m_hash = ''other'', na_c_from_peer_id = [7]\<rparr>"
  have "slot_open na_demo na_demo_taken ?c" "na_requests (na_lg na_demo_taken) (na_c_number ?c) = Some demo_req"
    "commits_filed na_demo na_demo_taken ?c = 0" "u64_mul 2 (fault_tolerance_count (na_st na_demo_taken)) = Some 2"
    "(0 :: u64) < 2" "u64_add (current_commited_request_count (na_st na_demo_taken)) 1 \<noteq> None"
    "peer_from_bytes na_demo (primary (na_st na_demo_taken)) \<noteq> None"
    by (simp_all add: slot_open_def na_demo_taken_def na_demo_node_def na_default_def na_log_new_def u64_add_def u64_mul_def
        na_read_defs bucket_def)
  from one_sender_commits [OF this, of "[1]"] show ?thesis by (auto simp: demo_req_def)
qed

theorem nonauth_proposes_slot_one_witness:
  "\<exists>a p' ps. act_run act_demo_ext (nonauth_behaviour na_demo) (act_demo_env ()) (act_demo_events [0, 0])
      (network_start (nonauth_behaviour na_demo) False (actuator_new [1] na_default)) = Some a \<and>
    na_handle_request na_demo (protocol a) [1] demo_req = Some (p', ContinueExecute [na_broadcast_of na_demo (NaPrePrepare
      \<lparr>na_pp_view = 0, na_pp_number = 1, na_pp_m_hash = get_hash_str na_demo (as_bytes ''x''), na_pp_m = as_bytes ''x'',
       na_pp_from_peer_id = [1]\<rparr>)])"
proof -
  let ?a0 = "network_start (nonauth_behaviour na_demo) False (actuator_new [1] na_default)"
  obtain a p' ps where a: "act_run act_demo_ext (nonauth_behaviour na_demo) (act_demo_env ()) (act_demo_events [0, 0]) ?a0 = Some a"
    and r: "na_handle_request na_demo (protocol a) [1] demo_req = Some (p', ps)"
    by (simp add: act_run_simps na_message_handler_def na_handle_request_def na_default_def na_state_new_def u64_add_def
        na_broadcast_of_def na_get_current_phase_def Let_def na_demo_def ext.defs na_ext.defs)
  from nonauth_proposes_slot_one [OF act_run_reachable [OF act_reachable.act_init a] r] a r show ?thesis
    by (auto simp: demo_req_def)
qed
end
