(* ===== verification/NonTimeout_PBFT.thy ===== *)
theory NonTimeout_PBFT
  imports PBFT_Properties Actuator_Properties
begin

text \<open>
  PBFT without view changes (\<open>protocols/src/non_viewchange_pbft\<close>): its protocol object, its handlers and its
  \<open>ProtocolBehaviour\<close> methods, translated from this module's own \<open>protocol.rs\<close>, and a simulation with the PBFT node.
  The message types, keys, log and common helpers of the module are textual copies of those of PBFT and are
  shared (\<open>ViewChange\<close> has two more fields, which nothing reads). The protocol object has no view timeout
  handles, the initial number of nodes differs, and view change messages are ignored.
\<close>

subsection \<open>The protocol\<close>

text \<open>\<open>viewchange_notify\<close> and \<open>timeout_notify\<close> are never used after construction.\<close>

record nt_protocol =
  nt_pstate :: state
  nt_plog :: consensus_log
  nt_taken_requests :: "bytes set"
  nt_keypair :: bytes
  nt_phase_map :: "u8 \<rightharpoonup> string"
  nt_consensus_node_pk :: "bytes \<rightharpoonup> bytes"

definition nt_state_new :: "nat \<Rightarrow> state" where
  "nt_state_new timeout_duration = (state_new timeout_duration)\<lparr>node_count := 8\<rparr>"

definition nt_default :: "bytes \<Rightarrow> nt_protocol" where
  "nt_default kp =
     \<lparr>nt_pstate = nt_state_new 5, nt_plog = consensus_log_new, nt_taken_requests = {}, nt_keypair = kp,
      nt_phase_map = Map.empty, nt_consensus_node_pk = Map.empty\<rparr>"

subsection \<open>Handlers\<close>

definition nt_get_public_key_by_peer_id :: "nt_protocol \<Rightarrow> bytes \<Rightarrow> bytes option" where
  "nt_get_public_key_by_peer_id p peer_id = nt_consensus_node_pk p peer_id"

definition nt_signature_ok ::
    "'a ext_scheme \<Rightarrow> nt_protocol \<Rightarrow> bytes \<Rightarrow> bytes \<Rightarrow> string \<Rightarrow> bool" where
  "nt_signature_ok E p from_peer_id signature key_str =
     (case nt_get_public_key_by_peer_id p from_peer_id of
        Some key \<Rightarrow> eddsa_verify E key signature (as_bytes key_str)
      | None \<Rightarrow> False)"

definition nt_distribute_public_key :: "'a pbft_ext_scheme \<Rightarrow> nt_protocol \<Rightarrow> bytes \<Rightarrow> phase_state" where
  "nt_distribute_public_key E p current_peer_id =
     ContinueExecute [broadcast_of E (PublicKey
       \<lparr>pk = eddsa_get_public_key E (nt_keypair p), pk_from_peer_id = current_peer_id\<rparr>)]"

definition nt_storage_public_key_by_peer_id ::
    "'a ext_scheme \<Rightarrow> nt_protocol \<Rightarrow> public_key \<Rightarrow> (nt_protocol \<times> phase_state) option" where
  "nt_storage_public_key_by_peer_id E p public_key = do {
     let p1 = (case nt_consensus_node_pk p (pk_from_peer_id public_key) of
                 Some _ \<Rightarrow> p
               | None \<Rightarrow> p\<lparr>nt_consensus_node_pk :=
                   (nt_consensus_node_pk p)(pk_from_peer_id public_key \<mapsto> pk public_key)\<rparr>);
     _ \<leftarrow> peer_from_bytes E (pk_from_peer_id public_key);
     Some (p1, ContinueExecute [])
   }"

definition nt_handle_request ::
    "'a pbft_ext_scheme \<Rightarrow> nt_protocol \<Rightarrow> bytes \<Rightarrow> request \<Rightarrow> (nt_protocol \<times> phase_state) option" where
  "nt_handle_request E p current_peer_id request = do {
     let p1 = p\<lparr>nt_taken_requests := insert (bincode_request E request) (nt_taken_requests p),
                nt_pstate := (nt_pstate p)\<lparr>primary := current_peer_id\<rparr>\<rparr>;
     seq_number \<leftarrow> u64_add (current_sequence_number (nt_pstate p1)) 1;
     let serialized_request = json_request E request;
     let p2 = p1\<lparr>nt_plog := record_request seq_number request (nt_plog p1)\<rparr>;
     let preprepare = \<lparr>pp_view = view (nt_pstate p2), pp_number = seq_number,
                       pp_m_hash = get_hash_str E serialized_request, pp_m = serialized_request,
                       pp_signature = [], pp_from_peer_id = current_peer_id\<rparr>;
     let signature = eddsa_sign E (nt_keypair p2) (as_bytes (get_message_key E (PrePrepare preprepare)));
     Some (p2, ContinueExecute [broadcast_of E (PrePrepare (preprepare\<lparr>pp_signature := signature\<rparr>))])
   }"

text \<open>As in PBFT, the future of \<open>record_current_request\<close> at the end is dropped without being awaited.\<close>

definition nt_handle_preprepare ::
    "'a pbft_ext_scheme \<Rightarrow> nt_protocol \<Rightarrow> bytes \<Rightarrow> pre_prepare \<Rightarrow> (nt_protocol \<times> phase_state) option" where
  "nt_handle_preprepare E p current_peer_id msg = do {
     request \<leftarrow> from_json_request E (pp_m msg);
     let p1 = p\<lparr>nt_taken_requests := insert (bincode_request E request) (nt_taken_requests p),
                nt_pstate := (nt_pstate p)\<lparr>primary := pp_from_peer_id msg\<rparr>\<rparr>;
     let key_str = get_message_key E (PrePrepare msg);
     _ \<leftarrow> peer_from_bytes E (pp_from_peer_id msg);
     if \<not> nt_signature_ok E p1 (pp_from_peer_id msg) (pp_signature msg) key_str
     then Some (p1, ContinueExecute [])
     else do {
       let low = fst (stable_checkpoint (nt_pstate p1));
       high \<leftarrow> u64_add low 100;
       if pp_number msg \<le> low \<or> pp_number msg > high then Some (p1, ContinueExecute [])
       else if view (nt_pstate p1) \<noteq> pp_view msg then Some (p1, ContinueExecute [])
       else do {
         m \<leftarrow> from_json_request E (pp_m msg);
         let log1 = record_request (pp_number msg) m (nt_plog p1);
         let log2 = record_message_handler E log1 (PrePrepare msg);
         let prepare = \<lparr>p_view = view (nt_pstate p1), p_number = pp_number msg, p_m_hash = pp_m_hash msg,
                        p_from_peer_id = current_peer_id, p_signature = []\<rparr>;
         let signature = eddsa_sign E (nt_keypair p1) (as_bytes (get_message_key E (Prepare prepare)));
         Some (p1\<lparr>nt_plog := log2\<rparr>,
               ContinueExecute [broadcast_of E (Prepare (prepare\<lparr>p_signature := signature\<rparr>))])
       }
     }
   }"

definition nt_handle_prepare ::
    "'a pbft_ext_scheme \<Rightarrow> nt_protocol \<Rightarrow> bytes \<Rightarrow> prepare \<Rightarrow> (nt_protocol \<times> phase_state) option" where
  "nt_handle_prepare E p current_peer_id msg = do {
     let key_str = get_message_key E (Prepare msg);
     _ \<leftarrow> peer_from_bytes E (p_from_peer_id msg);
     if \<not> nt_signature_ok E p (p_from_peer_id msg) (p_signature msg) key_str
     then Some (p, ContinueExecute [])
     else if get_request_phase_state (nt_plog p) (p_m_hash msg) = Some LogPrepared
     then Some (p, ContinueExecute [])
     else do {
       let low = fst (stable_checkpoint (nt_pstate p));
       high \<leftarrow> u64_add low 100;
       if p_number msg \<le> low \<or> p_number msg > high then Some (p, ContinueExecute [])
       else if view (nt_pstate p) \<noteq> p_view msg then Some (p, ContinueExecute [])
       else case get_local_request_by_sequence_number (nt_plog p) (p_number msg) of
         None \<Rightarrow> Some (p, ContinueExecute [])
       | Some m \<Rightarrow>
           if get_message_key E (Request m) \<noteq> p_m_hash msg then Some (p, ContinueExecute [])
           else do {
             let log1 = record_message_handler E (nt_plog p) (Prepare msg);
             let current_count = get_local_messages_count_by_hash log1 key_str;
             threshold \<leftarrow> u64_mul 2 (fault_tolerance_count (nt_pstate p));
             if current_count = unat threshold
             then do {
               let log2 = update_request_phase_state (p_m_hash msg) LogPrepared log1;
               let commit = \<lparr>c_view = view (nt_pstate p), c_number = p_number msg, c_m_hash = p_m_hash msg,
                             c_from_peer_id = current_peer_id, c_signature = []\<rparr>;
               let signature = eddsa_sign E (nt_keypair p) (as_bytes (get_message_key E (Commit commit)));
               Some (p\<lparr>nt_plog := log2\<rparr>,
                     ContinueExecute [broadcast_of E (Commit (commit\<lparr>c_signature := signature\<rparr>))])
             }
             else Some (p\<lparr>nt_plog := log1\<rparr>, ContinueExecute [])
           }
     }
   }"

definition nt_handle_commit ::
    "'a pbft_ext_scheme \<Rightarrow> nt_protocol \<Rightarrow> bytes \<Rightarrow> commit \<Rightarrow> (nt_protocol \<times> phase_state) option" where
  "nt_handle_commit E p current_peer_id msg = do {
     let key_str = get_message_key E (Commit msg);
     let count = get_local_messages_count_by_hash (nt_plog p) key_str;
     threshold \<leftarrow> u64_mul 2 (fault_tolerance_count (nt_pstate p));
     if count \<ge> unat threshold then Some (p, ContinueExecute [])
     else do {
       _ \<leftarrow> peer_from_bytes E (c_from_peer_id msg);
       if \<not> nt_signature_ok E p (c_from_peer_id msg) (c_signature msg) key_str
       then Some (p, ContinueExecute [])
       else if get_request_phase_state (nt_plog p) (c_m_hash msg) = Some LogCommited
       then Some (p, ContinueExecute [])
       else do {
         let low = fst (stable_checkpoint (nt_pstate p));
         high \<leftarrow> u64_add low 100;
         if c_number msg \<le> low \<or> c_number msg > high then Some (p, ContinueExecute [])
         else if view (nt_pstate p) \<noteq> c_view msg then Some (p, ContinueExecute [])
         else case get_local_request_by_sequence_number (nt_plog p) (c_number msg) of
           None \<Rightarrow> Some (p, ContinueExecute [])
         | Some m \<Rightarrow>
             if get_message_key E (Request m) \<noteq> c_m_hash msg then Some (p, ContinueExecute [])
             else do {
               let log1 = record_message_handler E (nt_plog p) (Commit msg);
               let current_count = get_local_messages_count_by_hash log1 key_str;
               if current_count > unat threshold then Some (p\<lparr>nt_plog := log1\<rparr>, ContinueExecute [])
               else if current_count = unat threshold
               then do {
                 let st1 = update_checkpoint_state E (c_m_hash msg) (nt_pstate p);
                 let log2 = remove_commited_request log1;
                 commited \<leftarrow> u64_add (current_commited_request_count st1) 1;
                 let st2 = st1\<lparr>current_commited_request_count := commited\<rparr>;
                 let log3 = update_request_phase_state (c_m_hash msg) LogCommited log2;
                 let reply = \<lparr>r_cmd = cmd m, r_view = view st2, r_number = c_number msg,
                              r_from_peer_id = current_peer_id, r_signature = [],
                              r_result = as_bytes ''ok!''\<rparr>;
                 let signature = eddsa_sign E (nt_keypair p) (as_bytes (get_message_key E (Reply reply)));
                 let serialized_msg = json_consensus_message E
                       \<lparr>msg_type = Reply (reply\<lparr>r_signature := signature\<rparr>)\<rparr>;
                 primary_id \<leftarrow> peer_from_bytes E (primary st2);
                 Some (p\<lparr>nt_pstate := st2, nt_plog := reset log3\<rparr>,
                       Complete \<lparr>cmd = cmd m\<rparr> [Unicast primary_id serialized_msg])
               }
               else Some (p\<lparr>nt_plog := log1\<rparr>, ContinueExecute [])
             }
       }
     }
   }"

definition nt_handle_reply ::
    "'a pbft_ext_scheme \<Rightarrow> nt_protocol \<Rightarrow> bytes \<Rightarrow> reply \<Rightarrow> (nt_protocol \<times> phase_state) option" where
  "nt_handle_reply E p current_peer_id msg = do {
     let key_str = get_message_key E (Reply msg);
     threshold \<leftarrow> u64_sub (node_count (nt_pstate p)) (fault_tolerance_count (nt_pstate p));
     _ \<leftarrow> peer_from_bytes E (r_from_peer_id msg);
     if \<not> nt_signature_ok E p (r_from_peer_id msg) (r_signature msg) key_str
     then Some (p, ContinueExecute [])
     else do {
       let log1 = record_message_handler E (nt_plog p) (Reply msg);
       let current_count = get_local_reply_messages_count_by_hash log1 key_str;
       d \<leftarrow> u64_sub (node_count (nt_pstate p)) (fault_tolerance_count (nt_pstate p));
       reply_threshold \<leftarrow> u64_sub d 1;
       if current_count = unat reply_threshold
       then if utf8_valid (r_result msg)
            then Some (p\<lparr>nt_plog := (reset log1)\<lparr>reply_messages := Map.empty\<rparr>\<rparr>, Over None)
            else None
       else Some (p\<lparr>nt_plog := log1\<rparr>, ContinueExecute [])
     }
   }"

text \<open>\<open>rks\<close>, \<open>cks\<close>: the iteration orders of \<open>request_map\<close> and \<open>checkpoints\<close> at this call.\<close>

definition nt_handle_checkpoint ::
    "'a pbft_ext_scheme \<Rightarrow> string list \<Rightarrow> (u64 \<times> string) list \<Rightarrow> nt_protocol \<Rightarrow> bytes \<Rightarrow> check_point \<Rightarrow>
     (nt_protocol \<times> phase_state) option" where
  "nt_handle_checkpoint E rks cks p current_peer_id msg = do {
     let log1 = record_message_handler E (nt_plog p) (CheckPoint msg);
     let current_checkpoint_count =
           get_checkpoint_count log1 (current_max_number msg, checkpoint_state_digest msg);
     threshold \<leftarrow> u64_mul 2 (fault_tolerance_count (nt_pstate p));
     if current_checkpoint_count = unat threshold
     then Some (p\<lparr>nt_pstate := (nt_pstate p)\<lparr>stable_checkpoint :=
                    (current_max_number msg, checkpoint_state_digest msg)\<rparr>,
                  nt_plog := discard_messages_before_stable_checkpoint E rks cks (current_max_number msg) log1\<rparr>,
                ContinueExecute [])
     else Some (p\<lparr>nt_plog := log1\<rparr>, ContinueExecute [])
   }"

definition nt_handle_viewchange :: "nt_protocol \<Rightarrow> (nt_protocol \<times> phase_state) option" where
  "nt_handle_viewchange p = Some (p, ContinueExecute [])"

definition nt_handle_newview :: "nt_protocol \<Rightarrow> (nt_protocol \<times> phase_state) option" where
  "nt_handle_newview p = Some (p, ContinueExecute [])"

fun nt_handle_message_type ::
    "'a pbft_ext_scheme \<Rightarrow> bytes \<Rightarrow> pbft_input \<Rightarrow> nt_protocol \<Rightarrow> message_type \<Rightarrow>
     (nt_protocol \<times> phase_state) option" where
  "nt_handle_message_type E current_peer_id i p (Request msg) = nt_handle_request E p current_peer_id msg"
| "nt_handle_message_type E current_peer_id i p (PrePrepare msg) = nt_handle_preprepare E p current_peer_id msg"
| "nt_handle_message_type E current_peer_id i p (Prepare msg) = nt_handle_prepare E p current_peer_id msg"
| "nt_handle_message_type E current_peer_id i p (Commit msg) = nt_handle_commit E p current_peer_id msg"
| "nt_handle_message_type E current_peer_id i p (Reply msg) = nt_handle_reply E p current_peer_id msg"
| "nt_handle_message_type E current_peer_id i p (CheckPoint msg) =
     nt_handle_checkpoint E (in_request_map_order i) (in_checkpoints_order i) p current_peer_id msg"
| "nt_handle_message_type E current_peer_id i p (ViewChange msg) = nt_handle_viewchange p"
| "nt_handle_message_type E current_peer_id i p (NewView msg) = nt_handle_newview p"
| "nt_handle_message_type E current_peer_id i p (PublicKey msg) = nt_storage_public_key_by_peer_id E p msg"
| "nt_handle_message_type E current_peer_id i p DistributePK = Some (p, nt_distribute_public_key E p current_peer_id)"

subsection \<open>The protocol interface\<close>

definition nt_extra_initial_start ::
    "'a pbft_ext_scheme \<Rightarrow> nt_protocol \<Rightarrow> peer_id list \<Rightarrow> bytes \<Rightarrow> nt_protocol \<times> phase_state" where
  "nt_extra_initial_start E p nodes current_peer_id =
     (let p1 = p\<lparr>nt_pstate := (nt_pstate p)\<lparr>primary := current_peer_id,
                   node_count := of_nat (length (remdups nodes))\<rparr>\<rparr>
      in (p1, OverMessage None
            (broadcast_of E DistributePK # sends (nt_distribute_public_key E p1 current_peer_id))))"

definition nt_message_handler ::
    "'a pbft_ext_scheme \<Rightarrow> bytes \<Rightarrow> nt_protocol \<Rightarrow> pbft_input \<Rightarrow> (nt_protocol \<times> phase_state) option" where
  "nt_message_handler E current_peer_id p i = do {
     message \<leftarrow> from_json_consensus_message E (in_bytes i);
     nt_handle_message_type E current_peer_id i p (msg_type message)
   }"

definition nt_check_taken_request :: "nt_protocol \<Rightarrow> bytes \<Rightarrow> bool" where
  "nt_check_taken_request p request = (request \<in> nt_taken_requests p)"

definition nt_receive_consensus_requests :: "nt_protocol \<Rightarrow> request list \<Rightarrow> nt_protocol option" where
  "nt_receive_consensus_requests p rs = None"

definition nt_init_timeout_notify :: "nt_protocol \<Rightarrow> nat \<Rightarrow> nt_protocol" where
  "nt_init_timeout_notify p timeout_notify = p"

definition nt_generate_serialized_request_message :: "'a pbft_ext_scheme \<Rightarrow> request \<Rightarrow> bytes" where
  "nt_generate_serialized_request_message E request =
     json_consensus_message E \<lparr>msg_type = Request request\<rparr>"

definition nt_protocol_phases ::
    "'a pbft_ext_scheme \<Rightarrow> nt_protocol \<Rightarrow> nt_protocol \<times> (u8 \<rightharpoonup> bytes)" where
  "nt_protocol_phases E p =
     (let prepare = \<lparr>p_view = 1, p_number = 1, p_m_hash = '''', p_from_peer_id = [], p_signature = []\<rparr>;
          commit = \<lparr>c_view = 1, c_number = 2, c_m_hash = '''', c_from_peer_id = [], c_signature = []\<rparr>
      in (p\<lparr>nt_phase_map := (nt_phase_map p)(1 \<mapsto> ''Prepare'', 2 \<mapsto> ''Commit'')\<rparr>,
          [1 \<mapsto> as_bytes (json_prepare_str E prepare), 2 \<mapsto> as_bytes (json_commit_str E commit)]))"

definition nt_get_current_phase :: "'a pbft_ext_scheme \<Rightarrow> bytes \<Rightarrow> u8 option" where
  "nt_get_current_phase E msg =
     (if msg = [] then Some 0
      else do {
        data \<leftarrow> from_json_consensus_message E msg;
        Some (case msg_type data of Prepare _ \<Rightarrow> 1 | Commit _ \<Rightarrow> 2 | _ \<Rightarrow> 0)
      })"

definition nt_current_request :: "nt_protocol \<Rightarrow> request option" where
  "nt_current_request p = None"

definition nt_is_leader :: "nt_protocol \<Rightarrow> bytes \<Rightarrow> bool" where
  "nt_is_leader p peer_id = (primary (nt_pstate p) = peer_id)"

text \<open>\<open>impl ProtocolBehaviour for NonTimeoutPBFTProtocol\<close>; the other methods are the trait's defaults.\<close>

definition nontimeout_behaviour ::
    "'a pbft_ext_scheme \<Rightarrow> (nt_protocol, string list \<times> (u64 \<times> string) list) protocol_behaviour" where
  "nontimeout_behaviour P = \<lparr>
     pb_init_timeout_notify = nt_init_timeout_notify,
     pb_extra_initial_start = (\<lambda>i p nodes me. Some (nt_extra_initial_start P p nodes me)),
     pb_message_handler = (\<lambda>i p msg me from. nt_message_handler P me p
       \<lparr>in_bytes = msg, in_request_map_order = fst i, in_checkpoints_order = snd i\<rparr>),
     pb_get_current_phase = (\<lambda>p msg. map_option (Pair p) (nt_get_current_phase P msg)),
     pb_protocol_reset = (\<lambda>i. default_protocol_reset),
     pb_view_timeout_handler = (\<lambda>i. default_view_timeout_handler),
     pb_protocol_phases = nt_protocol_phases P,
     pb_phase_map = nt_phase_map,
     pb_current_request = nt_current_request,
     pb_is_leader = nt_is_leader,
     pb_set_leader = default_set_leader,
     pb_generate_serialized_request_message = (\<lambda>p. nt_generate_serialized_request_message P),
     pb_check_taken_request = nt_check_taken_request,
     pb_set_current_request = default_set_current_request\<rparr>"

subsection \<open>Simulation of the PBFT node\<close>

text \<open>The part of the PBFT protocol object that this node has too: all but the stop notification.\<close>

definition nt_of :: "pbft_protocol \<Rightarrow> nt_protocol" where
  "nt_of p = \<lparr>nt_pstate = pstate p, nt_plog = plog p, nt_taken_requests = taken_requests p,
     nt_keypair = keypair p, nt_phase_map = phase_map p, nt_consensus_node_pk = consensus_node_pk p\<rparr>"

lemma nt_of_fields [simp]:
  "nt_pstate (nt_of p) = pstate p" "nt_plog (nt_of p) = plog p" "nt_taken_requests (nt_of p) = taken_requests p"
  "nt_keypair (nt_of p) = keypair p" "nt_phase_map (nt_of p) = phase_map p"
  "nt_consensus_node_pk (nt_of p) = consensus_node_pk p"
  by (simp_all add: nt_of_def)

lemma nt_of_updates [simp]:
  "nt_of (p\<lparr>pstate := s\<rparr>) = (nt_of p)\<lparr>nt_pstate := s\<rparr>" "nt_of (p\<lparr>plog := l\<rparr>) = (nt_of p)\<lparr>nt_plog := l\<rparr>"
  "nt_of (p\<lparr>taken_requests := t\<rparr>) = (nt_of p)\<lparr>nt_taken_requests := t\<rparr>"
  "nt_of (p\<lparr>consensus_node_pk := k\<rparr>) = (nt_of p)\<lparr>nt_consensus_node_pk := k\<rparr>"
  by (simp_all add: nt_of_def)

text \<open>A step of the reduced node that mirrors a step of the PBFT node.\<close>

abbreviation nt_result :: "(pbft_protocol \<times> 'b) option \<Rightarrow> (nt_protocol \<times> 'b) option" where
  "nt_result \<equiv> map_option (map_prod nt_of id)"

lemma nt_result_bind: "nt_result (Option.bind x f) = Option.bind x (\<lambda>y. nt_result (f y))"
  by (cases x) simp_all

lemma nt_result_if: "nt_result (if b then x else y) = (if b then nt_result x else nt_result y)"
  by simp

lemma nt_result_case:
  "nt_result (case x of None \<Rightarrow> y | Some z \<Rightarrow> f z) = (case x of None \<Rightarrow> nt_result y | Some z \<Rightarrow> nt_result (f z))"
  by (cases x) simp_all

lemmas nt_result_simps = nt_result_bind nt_result_if nt_result_case Let_def

lemma nt_signature_ok: "nt_signature_ok E (nt_of p) = signature_ok E p"
  by (rule ext)+ (simp add: nt_signature_ok_def signature_ok_def nt_get_public_key_by_peer_id_def get_public_key_by_peer_id_def)

lemma signature_ok_frame [simp]:
  "signature_ok E (p\<lparr>pstate := s\<rparr>) = signature_ok E p" "signature_ok E (p\<lparr>taken_requests := t\<rparr>) = signature_ok E p"
  "nt_signature_ok E (n\<lparr>nt_pstate := s\<rparr>) = nt_signature_ok E n"
  "nt_signature_ok E (n\<lparr>nt_taken_requests := t\<rparr>) = nt_signature_ok E n"
  by (simp_all add: fun_eq_iff signature_ok_def nt_signature_ok_def get_public_key_by_peer_id_def
      nt_get_public_key_by_peer_id_def)

lemma nt_request: "nt_handle_request E (nt_of p) me m = nt_result (handle_request E p me m)"
  by (simp add: nt_handle_request_def handle_request_def nt_result_simps)

lemma nt_preprepare: "nt_handle_preprepare E (nt_of p) me m = nt_result (handle_preprepare E p me m)"
  by (simp add: nt_handle_preprepare_def handle_preprepare_def nt_result_simps nt_signature_ok cong: if_cong)

lemma nt_prepare: "nt_handle_prepare E (nt_of p) me m = nt_result (handle_prepare E p me m)"
  by (simp add: nt_handle_prepare_def handle_prepare_def nt_result_simps nt_signature_ok cong: option.case_cong if_cong)

lemma nt_commit: "nt_handle_commit E (nt_of p) me m = nt_result (handle_commit E p me m)"
  by (simp add: nt_handle_commit_def handle_commit_def nt_result_simps nt_signature_ok cong: option.case_cong if_cong)

lemma nt_reply: "nt_handle_reply E (nt_of p) me m = nt_result (handle_reply E p me m)"
  by (simp add: nt_handle_reply_def handle_reply_def nt_result_simps nt_signature_ok cong: option.case_cong if_cong)

lemma nt_checkpoint: "nt_handle_checkpoint E rks cks (nt_of p) me m = nt_result (handle_checkpoint E rks cks p me m)"
  by (simp add: nt_handle_checkpoint_def handle_checkpoint_def nt_result_simps cong: if_cong)

lemma nt_storage: "nt_storage_public_key_by_peer_id E (nt_of p) m = nt_result (storage_public_key_by_peer_id E p m)"
  by (cases "peer_from_bytes E (pk_from_peer_id m)")
    (simp_all add: nt_storage_public_key_by_peer_id_def storage_public_key_by_peer_id_def Let_def split: option.split)

lemma nt_distribute: "nt_distribute_public_key E (nt_of p) me = distribute_public_key E p me"
  by (simp add: nt_distribute_public_key_def distribute_public_key_def)

lemmas nt_handlers = nt_request nt_preprepare nt_prepare nt_commit nt_reply nt_checkpoint nt_storage nt_distribute

fun changes_view :: "message_type \<Rightarrow> bool" where
  "changes_view (ViewChange m) = True"
| "changes_view (NewView m) = True"
| "changes_view _ = False"

lemma nt_same:
  "\<not> changes_view m \<Longrightarrow> nt_handle_message_type E me i (nt_of p) m = nt_result (handle_message_type E me i p m)"
  by (cases m) (simp_all add: nt_handlers)

lemma nt_ignores: "changes_view m \<Longrightarrow> nt_handle_message_type E me i p m = Some (p, ContinueExecute [])"
  by (cases m) (simp_all add: nt_handle_viewchange_def nt_handle_newview_def)

text \<open>The results of a run that make the actuator do something.\<close>

definition visible :: "('p \<times> phase_state list) option \<Rightarrow> ('p \<times> phase_state list) option" where
  "visible = map_option (map_prod id (filter (\<lambda>ps. ps \<noteq> ContinueExecute [])))"

lemma visible_step:
  "visible (do { (s2, outs) \<leftarrow> m; Some (s2, out # outs) }) =
   map_option (map_prod id (\<lambda>outs. (if out \<noteq> ContinueExecute [] then [out] else []) @ outs)) (visible m)"
  by (cases m) (auto simp: visible_def)

lemma visible_silent:
  "visible (do { (s2, outs) \<leftarrow> m; Some (s2, ContinueExecute [] # outs) }) = visible m"
  by (cases m) (auto simp: visible_def)

lemma nt_result_map: "nt_result (map_option (map_prod id f) x) = map_option (map_prod id f) (nt_result x)"
  by (cases x) auto

lemma nt_result_step:
  assumes "visible n = nt_result (visible m)"
  shows "visible (do { (s2, outs) \<leftarrow> n; Some (s2, out # outs) }) =
    nt_result (visible (do { (s2, outs) \<leftarrow> m; Some (s2, out # outs) }))"
  unfolding visible_step nt_result_map assms by (rule refl)

text \<open>
  C14. The node without view changes, translated from its own module, simulates a PBFT node that never gets a view
  change or new view message: on any sequence of messages it ends in the state of the PBFT node on the sequence
  without those messages (up to the timer handle it does not have), with the same messages sent and requests
  completed, in the same order, and it panics exactly when the PBFT node does.
\<close>
theorem nontimeout_is_pbft_without_viewchanges:
  "visible (run_handler (nt_handle_message_type E me i) (nt_of p) ms) =
   nt_result (visible (run_handler (handle_message_type E me i) p (filter (\<lambda>m. \<not> changes_view m) ms)))"
proof (induction ms arbitrary: p)
  case Nil
  show ?case by (simp add: visible_def)
next
  case (Cons m ms)
  show ?case
  proof (cases "changes_view m")
    case True
    with Cons.IH [of p] show ?thesis by (simp add: nt_ignores visible_silent)
  next
    case False
    show ?thesis
    proof (cases "handle_message_type E me i p m")
      case None
      then show ?thesis by (simp add: nt_same [OF False] False visible_def)
    next
      case (Some r)
      obtain p1 out where r: "r = (p1, out)" by (cases r)
      from nt_result_step [OF Cons.IH [of p1], of out] Some show ?thesis
        by (simp add: nt_same [OF False] False r id_def)
    qed
  qed
qed

subsection \<open>One view for ever\<close>

definition nt_frozen :: "nt_protocol \<Rightarrow> bool" where
  "nt_frozen p \<longleftrightarrow> view (nt_pstate p) = 0 \<and> current_sequence_number (nt_pstate p) = 0 \<and>
     fault_tolerance_count (nt_pstate p) = 1"

lemma nt_handle_message_type_frozen:
  "nt_frozen p \<Longrightarrow> nt_handle_message_type P me i p m = Some (p', ps) \<Longrightarrow> nt_frozen p'"
  by (cases m) (auto simp: nt_frozen_def nt_handle_request_def nt_handle_preprepare_def nt_handle_prepare_def
      nt_handle_commit_def nt_handle_reply_def nt_handle_checkpoint_def nt_handle_viewchange_def nt_handle_newview_def
      nt_storage_public_key_by_peer_id_def bind_eq_Some_conv Let_def log_simps split: if_splits option.splits)

lemma nontimeout_behaviour_simps [simp]:
  "pb_message_handler (nontimeout_behaviour P) i p msg me from = nt_message_handler P me p
     \<lparr>in_bytes = msg, in_request_map_order = fst i, in_checkpoints_order = snd i\<rparr>"
  "pb_init_timeout_notify (nontimeout_behaviour P) p h = p"
  "pb_extra_initial_start (nontimeout_behaviour P) i p nodes me = Some (nt_extra_initial_start P p nodes me)"
  "pb_get_current_phase (nontimeout_behaviour P) p msg = map_option (Pair p) (nt_get_current_phase P msg)"
  "pb_protocol_reset (nontimeout_behaviour P) i p = p"
  "pb_view_timeout_handler (nontimeout_behaviour P) i p peer = Some (p, ContinueExecute [Broadcast []])"
  "pb_protocol_phases (nontimeout_behaviour P) = nt_protocol_phases P"
  "pb_set_leader (nontimeout_behaviour P) p b = p"
  "pb_set_current_request (nontimeout_behaviour P) p r = p"
  by (simp_all add: nontimeout_behaviour_def nt_init_timeout_notify_def default_protocol_reset_def
      default_view_timeout_handler_def default_set_leader_def default_set_current_request_def)

interpretation nontimeout_node: protocol_contract "nontimeout_behaviour P" ident me nt_frozen for P ident me
proof (unfold_locales, goal_cases)
  case (3 p i m src p' ps)
  then show ?case by (auto simp: nt_message_handler_def bind_eq_Some_conv intro: nt_handle_message_type_frozen)
qed (auto simp: nt_frozen_def nt_extra_initial_start_def nt_protocol_phases_def Let_def)

text \<open>
  A node without view changes stays in view 0 in every execution, whatever it receives, and accepts proposals of
  view 0 only: it never records a proposal of another view.
\<close>
theorem nontimeout_stays_in_view:
  assumes "act_reachable E (nontimeout_behaviour P) (network_start (nontimeout_behaviour P) leader (actuator_new ident (nt_default kp))) a"
  shows "view (nt_pstate (protocol a)) = 0 \<and>
    (nt_handle_message_type P me i (protocol a) (PrePrepare m) = Some (p', ps) \<and> pp_view m \<noteq> 0 \<longrightarrow>
       nt_plog p' = nt_plog (protocol a) \<and> ps = ContinueExecute [])"
proof -
  have "nt_frozen (nt_default kp)" by (simp add: nt_frozen_def nt_default_def nt_state_new_def)
  from nontimeout_node.executions_ok [OF assms this refl] have "view (nt_pstate (protocol a)) = 0"
    by (simp add: nontimeout_node.node_ok_def nt_frozen_def)
  then show ?thesis by (auto simp: nt_handle_preprepare_def bind_eq_Some_conv Let_def split: if_splits)
qed

theorem nontimeout_stays_in_view_witness:
  "\<exists>a. act_run act_demo_ext (nontimeout_behaviour demo) (act_demo_env ([], [])) (act_demo_events [3, 2])
      (network_start (nontimeout_behaviour demo) False (actuator_new [1] (nt_default [9]))) = Some a \<and>
    nt_consensus_node_pk (protocol a) [2] = Some [2] \<and> view (nt_pstate (protocol a)) = 0"
proof -
  let ?a0 = "network_start (nontimeout_behaviour demo) False (actuator_new [1] (nt_default [9]))"
  obtain a where a: "act_run act_demo_ext (nontimeout_behaviour demo) (act_demo_env ([], [])) (act_demo_events [3, 2]) ?a0 = Some a"
    and "nt_consensus_node_pk (protocol a) [2] = Some [2]"
    by (simp add: act_run_simps nt_message_handler_def nt_storage_public_key_by_peer_id_def demo_key_def nt_default_def)
  with nontimeout_stays_in_view [OF act_run_reachable [OF act_reachable.act_init a]] show ?thesis by blast
qed

end
