(* ===== verification/HB_Merkle.thy ===== *)
theory HB_Merkle
  imports Prelude
begin

text \<open>
  The Merkle trees of HoneyBadger's reliable broadcast
  (\<open>consensus/src/honeybadger/reliable_broadcast/merkle.rs\<close>). SHA3-256 (tiny-keccak) is the
  argument \<open>sha\<close> of the definitions; a digest is the list of its 32 bytes, which is what the
  hypothesis \<open>digest_hash\<close> states. Sizes and indices are of type \<open>nat\<close>: a size is the length of
  a vector, so that \<open>lvl_n + 1\<close> stays below \<open>usize::MAX\<close>.

  The theorems: the proof that the tree gives for an index validates against the tree's size
  (round trip); a validating proof for an index of the tree carries the tree's value, unless it
  exhibits two different byte strings with the same hash (soundness); and an index beyond the
  tree's size is not rejected, so that the root's own preimage passes as a value.
\<close>

subsection \<open>The tree\<close>

type_synonym digest = bytes

record merkle_tree =
  mt_levels :: "digest list list"
  mt_values :: "bytes list"
  mt_root_hash :: digest

record merkle_proof =
  pf_value :: bytes
  pf_index :: nat
  pf_digests :: "digest list"
  pf_root_hash :: digest

definition hash_pair :: "(bytes \<Rightarrow> digest) \<Rightarrow> bytes \<Rightarrow> bytes \<Rightarrow> digest" where
  "hash_pair sha v0 v1 = sha (v0 @ v1)"

definition hash_chunk :: "(bytes \<Rightarrow> digest) \<Rightarrow> digest list \<Rightarrow> digest" where
  "hash_chunk sha chunk = (if length chunk = 1 then chunk ! 0 else hash_pair sha (chunk ! 0) (chunk ! 1))"

text \<open>\<open>slice::chunks(2)\<close>: pairs, the last of them shorter when the length is odd.\<close>

fun chunks2 :: "'a list \<Rightarrow> 'a list list" where
  "chunks2 [] = []"
| "chunks2 [x] = [[x]]"
| "chunks2 (x # y # zs) = [x, y] # chunks2 zs"

lemma length_chunks2 [simp]: "length (chunks2 xs) = (length xs + 1) div 2"
  by (induction xs rule: chunks2.induct) auto

text \<open>The loop of \<open>from_vec\<close>: the levels below the last one, and the last one.\<close>

function build_levels :: "(bytes \<Rightarrow> digest) \<Rightarrow> digest list \<Rightarrow> digest list list \<times> digest list" where
  "build_levels sha cur_lvl =
     (if 1 < length cur_lvl then
        let next_lvl = map (hash_chunk sha) (chunks2 cur_lvl); (levels, last) = build_levels sha next_lvl
        in (cur_lvl # levels, last)
      else ([], cur_lvl))"
  by pat_completeness auto
termination by (relation "measure (\<lambda>(h, xs). length xs)") auto

declare build_levels.simps [simp del]

definition from_vec :: "(bytes \<Rightarrow> digest) \<Rightarrow> bytes list \<Rightarrow> merkle_tree option" where
  "from_vec sha values =
     (let (levels, cur_lvl) = build_levels sha (map sha values) in
      case cur_lvl of
        [] \<Rightarrow> None
      | root_hash # _ \<Rightarrow> Some \<lparr>mt_levels = levels, mt_values = values, mt_root_hash = root_hash\<rparr>)"

fun proof_digests :: "digest list list \<Rightarrow> nat \<Rightarrow> digest list" where
  "proof_digests [] lvl_i = []"
| "proof_digests (level # levels) lvl_i =
     (if lvl_i XOR 1 < length level then [level ! (lvl_i XOR 1)] else []) @ proof_digests levels (lvl_i div 2)"

definition merkle_proof_of :: "merkle_tree \<Rightarrow> nat \<Rightarrow> merkle_proof option" where
  "merkle_proof_of t index =
     (if index < length (mt_values t)
      then Some \<lparr>pf_value = mt_values t ! index, pf_index = index,
                 pf_digests = proof_digests (mt_levels t) index, pf_root_hash = mt_root_hash t\<rparr>
      else None)"

definition get_value_num :: "merkle_tree \<Rightarrow> nat" where
  "get_value_num t = length (mt_values t)"

subsection \<open>Validating a proof\<close>

text \<open>The loop of \<open>validate\<close>; \<open>None\<close> is \<open>return false\<close> when the digests run out.\<close>

function climb :: "(bytes \<Rightarrow> digest) \<Rightarrow> digest \<Rightarrow> nat \<Rightarrow> nat \<Rightarrow> digest list \<Rightarrow> (digest \<times> digest list) option" where
  "climb sha digest lvl_i lvl_n itr =
     (if 1 < lvl_n then
        if lvl_i XOR 1 < lvl_n then
          (case itr of
             [] \<Rightarrow> None
           | sibling # rest \<Rightarrow>
               climb sha (if lvl_i AND 1 = 1 then hash_pair sha sibling digest else hash_pair sha digest sibling)
                 (lvl_i div 2) ((lvl_n + 1) div 2) rest)
        else climb sha digest (lvl_i div 2) ((lvl_n + 1) div 2) itr
      else Some (digest, itr))"
  by pat_completeness auto
termination by (relation "measure (\<lambda>(h, d, i, n, itr). n)") auto

declare climb.simps [simp del]

definition validate :: "(bytes \<Rightarrow> digest) \<Rightarrow> merkle_proof \<Rightarrow> nat \<Rightarrow> bool" where
  "validate sha p n =
     (case climb sha (sha (pf_value p)) (pf_index p) n (pf_digests p) of
        None \<Rightarrow> False
      | Some (digest, itr) \<Rightarrow> itr = [] \<and> digest = pf_root_hash p)"

subsection \<open>Lemmas on levels\<close>

lemma xor_one: "(i::nat) XOR 1 = (if even i then i + 1 else i - 1)"
  by (simp add: xor_Suc_0_eq)

lemma and_one_odd: "(i::nat) AND 1 = 1 \<longleftrightarrow> odd i"
  by (simp add: and_Suc_0_eq odd_iff_mod_2_eq_one)

lemma chunks2_nth:
  "j < (length xs + 1) div 2 \<Longrightarrow>
   chunks2 xs ! j = (if 2 * j + 1 < length xs then [xs ! (2 * j), xs ! (2 * j + 1)] else [xs ! (2 * j)])"
proof (induction xs arbitrary: j rule: chunks2.induct)
  case (3 x y zs)
  then show ?case by (cases j) auto
qed auto

definition parent :: "(bytes \<Rightarrow> digest) \<Rightarrow> digest list \<Rightarrow> digest list" where
  "parent sha xs = map (hash_chunk sha) (chunks2 xs)"

lemma length_parent [simp]: "length (parent sha xs) = (length xs + 1) div 2"
  by (simp add: parent_def)

text \<open>The digest above index \<open>i\<close>, in the terms of \<open>validate\<close>.\<close>

lemma parent_nth:
  assumes "i < length xs"
  shows "parent sha xs ! (i div 2) =
    (if i XOR 1 < length xs
     then if odd i then hash_pair sha (xs ! (i XOR 1)) (xs ! i) else hash_pair sha (xs ! i) (xs ! (i XOR 1))
     else xs ! i)"
proof -
  have j: "i div 2 < (length xs + 1) div 2" using assms by simp
  show ?thesis
  proof (cases "even i")
    case True
    with assms j show ?thesis
      by (auto simp: parent_def chunks2_nth hash_chunk_def xor_one [simplified] elim!: evenE)
  next
    case False
    with assms j show ?thesis
      by (auto simp: parent_def chunks2_nth hash_chunk_def xor_one [simplified] elim!: oddE)
  qed
qed

lemma build_levels_step:
  "build_levels sha xs =
     (if 1 < length xs then (xs # fst (build_levels sha (parent sha xs)), snd (build_levels sha (parent sha xs)))
      else ([], xs))"
  by (subst build_levels.simps) (simp add: parent_def Let_def split_beta)

lemma level_induct [consumes 0, case_names top level]:
  assumes "\<And>xs. length xs \<le> 1 \<Longrightarrow> P xs"
    and "\<And>xs. 1 < length xs \<Longrightarrow> P (parent sha xs) \<Longrightarrow> P xs"
  shows "P xs"
proof (induction "length xs" arbitrary: xs rule: less_induct)
  case less
  show ?case
  proof (cases "1 < length xs")
    case True
    then have "length (parent sha xs) < length xs" by simp
    with less have "P (parent sha xs)" by blast
    with True assms(2) show ?thesis by blast
  qed (use assms(1) in auto)
qed


subsection \<open>Round trip\<close>

lemma climb_of_level:
  "i < length xs \<Longrightarrow>
   climb sha (xs ! i) i (length xs) (proof_digests (fst (build_levels sha xs)) i) =
     Some (snd (build_levels sha xs) ! 0, [])"
proof (induction xs arbitrary: i rule: level_induct [where sha = sha])
  case (top xs)
  then have "i = 0" by simp
  with top show ?case by (subst climb.simps) (simp add: build_levels_step)
next
  case (level xs)
  have next_i: "i div 2 < length (parent sha xs)" using level.prems by simp
  note step = build_levels_step [of sha xs] climb.simps [of sha "xs ! i" i]
  show ?case
    using level.hyps level.IH [OF next_i] parent_nth [OF level.prems, of sha]
    by (cases "i XOR 1 < length xs"; cases "odd i") (simp_all add: step and_one_odd [simplified])
qed

lemma top_level: "xs \<noteq> [] \<Longrightarrow> length (snd (build_levels sha xs)) = 1"
proof (induction xs rule: level_induct [where sha = sha])
  case (top xs)
  then show ?case by (subst build_levels_step) (simp add: le_Suc_eq)
next
  case (level xs)
  then have "parent sha xs \<noteq> []" by (auto simp flip: length_greater_0_conv)
  with level show ?case by (simp add: build_levels_step [of _ xs])
qed

lemma from_vec_Some:
  "from_vec sha values = Some t \<longleftrightarrow>
   values \<noteq> [] \<and> t = \<lparr>mt_levels = fst (build_levels sha (map sha values)), mt_values = values,
                       mt_root_hash = snd (build_levels sha (map sha values)) ! 0\<rparr>"
proof (cases "values = []")
  case True
  then show ?thesis by (simp add: from_vec_def build_levels_step)
next
  case False
  then have "length (snd (build_levels sha (map sha values))) = 1" by (simp add: top_level)
  with False show ?thesis
    by (cases "snd (build_levels sha (map sha values))") (auto simp: from_vec_def split_beta)
qed

lemma from_vec_nonempty: "values \<noteq> [] \<Longrightarrow> from_vec sha values = Some (the (from_vec sha values))"
  by (cases "from_vec sha values") (use from_vec_Some [of sha "values"] in auto)

text \<open>
  C18. The proof that a tree gives for one of its indices carries the value and the root of the tree and
  validates against the number of its values, for every hash function and every number of values.
\<close>
theorem merkle_roundtrip:
  assumes "from_vec sha values = Some t" and "i < length values"
  shows "\<exists>p. merkle_proof_of t i = Some p \<and> validate sha p (length values) \<and>
    pf_value p = values ! i \<and> pf_index p = i \<and> pf_root_hash p = mt_root_hash t"
  using climb_of_level [of i "map sha values" sha] assms
  by (auto simp: from_vec_Some merkle_proof_of_def validate_def)

subsection \<open>Soundness\<close>

text \<open>
  The byte strings that are hashed when the tree is built, and those that are hashed when a
  proof is validated.
\<close>

definition level_inputs :: "digest list \<Rightarrow> bytes list" where
  "level_inputs level = map (\<lambda>c. c ! 0 @ c ! 1) (filter (\<lambda>c. length c \<noteq> 1) (chunks2 level))"

definition tree_inputs :: "(bytes \<Rightarrow> digest) \<Rightarrow> bytes list \<Rightarrow> bytes list" where
  "tree_inputs sha values = values @ concat (map level_inputs (fst (build_levels sha (map sha values))))"

function climb_inputs :: "(bytes \<Rightarrow> digest) \<Rightarrow> digest \<Rightarrow> nat \<Rightarrow> nat \<Rightarrow> digest list \<Rightarrow> bytes list" where
  "climb_inputs sha digest lvl_i lvl_n itr =
     (if 1 < lvl_n then
        if lvl_i XOR 1 < lvl_n then
          (case itr of
             [] \<Rightarrow> []
           | sibling # rest \<Rightarrow>
               let x = (if lvl_i AND 1 = 1 then sibling @ digest else digest @ sibling)
               in x # climb_inputs sha (sha x) (lvl_i div 2) ((lvl_n + 1) div 2) rest)
        else climb_inputs sha digest (lvl_i div 2) ((lvl_n + 1) div 2) itr
      else [])"
  by pat_completeness auto
termination by (relation "measure (\<lambda>(h, d, i, n, itr). n)") auto

declare climb_inputs.simps [simp del]

definition proof_inputs :: "(bytes \<Rightarrow> digest) \<Rightarrow> merkle_proof \<Rightarrow> nat \<Rightarrow> bytes list" where
  "proof_inputs sha p n = pf_value p # climb_inputs sha (sha (pf_value p)) (pf_index p) n (pf_digests p)"

definition digest_hash :: "(bytes \<Rightarrow> digest) \<Rightarrow> bool" where
  "digest_hash sha \<longleftrightarrow> (\<forall>x. length (sha x) = 32)"

lemma level_input:
  assumes "i < length xs" and "i XOR 1 < length xs"
  shows "(if odd i then xs ! (i XOR 1) @ xs ! i else xs ! i @ xs ! (i XOR 1)) \<in> set (level_inputs xs)"
proof -
  have j: "i div 2 < length (chunks2 xs)" "i div 2 < (length xs + 1) div 2" using assms by auto
  have c: "chunks2 xs ! (i div 2) = (if odd i then [xs ! (i XOR 1), xs ! i] else [xs ! i, xs ! (i XOR 1)])"
    using assms j(2) by (cases "even i") (auto simp: chunks2_nth xor_one [simplified] elim!: evenE oddE)
  have "chunks2 xs ! (i div 2) \<in> set (chunks2 xs)" using j(1) by (rule nth_mem)
  then show ?thesis unfolding c level_inputs_def by (auto split: if_splits intro!: image_eqI)
qed

lemma parent_digests:
  "digest_hash sha \<Longrightarrow> \<forall>x \<in> set xs. length x = 32 \<Longrightarrow> \<forall>x \<in> set (parent sha xs). length x = 32"
proof
  fix x
  assume *: "digest_hash sha" "\<forall>x \<in> set xs. length x = 32" "x \<in> set (parent sha xs)"
  then obtain j where j: "j < (length xs + 1) div 2" "x = parent sha xs ! j" by (auto simp: in_set_conv_nth)
  then have "2 * j < length xs" "2 * j div 2 = j" by auto
  with parent_nth [of "2 * j" xs sha] j * show "length x = 32"
    by (auto simp: digest_hash_def hash_pair_def)
qed

lemma climb_sound:
  assumes "digest_hash sha"
  shows "climb sha d i (length xs) ds = Some (snd (build_levels sha xs) ! 0, []) \<Longrightarrow>
    i < length xs \<Longrightarrow> length d = 32 \<Longrightarrow> \<forall>x \<in> set xs. length x = 32 \<Longrightarrow> \<forall>x \<in> set ds. length x = 32 \<Longrightarrow>
    inj_on sha ((\<Union>level \<in> set (fst (build_levels sha xs)). set (level_inputs level)) \<union>
                 set (climb_inputs sha d i (length xs) ds)) \<Longrightarrow> d = xs ! i"
proof (induction xs arbitrary: i d ds rule: level_induct [where sha = sha])
  case (top xs)
  then have "i = 0" by simp
  with top show ?case by (auto simp: build_levels_step [of _ xs] climb.simps [of _ d 0])
next
  case (level xs)
  note step = build_levels_step [of sha xs] climb.simps [of sha d i] climb_inputs.simps [of sha d i]
  have next_i: "i div 2 < length (parent sha xs)" using level.prems by simp
  note digests = parent_digests [OF assms level.prems(4)]
  show ?case
  proof (cases "i XOR 1 < length xs")
    case False
    with level.hyps level.prems have "d = parent sha xs ! (i div 2)"
      by (intro level.IH [OF _ next_i, of d ds] digests)
        (auto simp: step elim!: inj_on_subset)
    with False parent_nth [OF level.prems(2), of sha] show ?thesis by simp
  next
    case True
    with level.hyps level.prems(1) obtain s rest where ds: "ds = s # rest"
      by (cases ds) (auto simp: step)
    define x where "x = (if i AND 1 = 1 then s @ d else d @ s)"
    define y where "y = (if odd i then xs ! (i XOR 1) @ xs ! i else xs ! i @ xs ! (i XOR 1))"
    have x: "sha x = parent sha xs ! (i div 2)"
    proof (intro level.IH [OF _ next_i, of "sha x" rest] digests)
      show "climb sha (sha x) (i div 2) (length (parent sha xs)) rest =
          Some (snd (build_levels sha (parent sha xs)) ! 0, [])"
        using level.hyps level.prems(1) True by (auto simp: step ds x_def hash_pair_def split: if_splits)
      show "inj_on sha ((\<Union>level\<in>set (fst (build_levels sha (parent sha xs))). set (level_inputs level)) \<union>
          set (climb_inputs sha (sha x) (i div 2) (length (parent sha xs)) rest))"
        using level.prems(6) level.hyps True by (rule_tac inj_on_subset) (auto simp: step ds x_def Let_def)
    qed (use level.prems assms ds in \<open>auto simp: digest_hash_def\<close>)
    have y: "sha y = parent sha xs ! (i div 2)"
      using parent_nth [OF level.prems(2), of sha] True by (simp add: y_def hash_pair_def)
    have "y \<in> set (level_inputs xs)" using level_input [OF level.prems(2) True] by (simp add: y_def)
    moreover have "x \<in> set (climb_inputs sha d i (length xs) ds)"
      using level.hyps True by (simp add: step ds x_def Let_def)
    ultimately have "x = y"
      using level.prems(6) level.hyps x y by (auto simp: step dest!: inj_onD [where x = x and y = y])
    moreover have "length s = 32" "length (xs ! i) = 32" "length (xs ! (i XOR 1)) = 32"
      using level.prems True by (auto simp: ds)
    ultimately show ?thesis
      using level.prems(3) by (auto simp: x_def y_def and_one_odd [simplified] split: if_splits)
  qed
qed


text \<open>
  C19. A proof that validates against the size and the root of a tree, for an index of the tree, carries
  the value of the tree at this index, provided that no two of the byte strings hashed in building
  the tree and in validating the proof have the same hash.
\<close>
theorem merkle_sound:
  assumes "digest_hash sha" and "from_vec sha values = Some t"
    and "validate sha p (length values)" and "pf_root_hash p = mt_root_hash t"
    and "pf_index p < length values" and "\<forall>d \<in> set (pf_digests p). length d = 32"
    and "inj_on sha (set (tree_inputs sha values @ proof_inputs sha p (length values)))"
  shows "pf_value p = values ! pf_index p"
proof -
  have "sha (pf_value p) = map sha values ! pf_index p"
  proof (rule climb_sound [where ds = "pf_digests p"])
    show "inj_on sha ((\<Union>level\<in>set (fst (build_levels sha (map sha values))). set (level_inputs level)) \<union>
        set (climb_inputs sha (sha (pf_value p)) (pf_index p) (length (map sha values)) (pf_digests p)))"
      using assms(7) by (rule inj_on_subset) (auto simp: tree_inputs_def proof_inputs_def)
  qed (use assms in \<open>auto simp: validate_def from_vec_Some digest_hash_def split: option.splits\<close>)
  with assms show ?thesis by (auto simp: tree_inputs_def proof_inputs_def inj_on_def)
qed

text \<open>
  Nothing in \<open>validate\<close> compares the index with the size. With an index just beyond a tree of four
  values no sibling is read, and the string that was hashed to the root passes as a value.
\<close>

theorem out_of_range_validates:
  assumes "from_vec sha [a, b, c, d] = Some t"
  shows "validate sha \<lparr>pf_value = hash_pair sha (sha a) (sha b) @ hash_pair sha (sha c) (sha d),
    pf_index = 4, pf_digests = [], pf_root_hash = mt_root_hash t\<rparr> 4"
  using assms
  by (simp add: validate_def from_vec_Some build_levels_step parent_def hash_chunk_def climb.simps xor_one [simplified]
      hash_pair_def)


subsection \<open>A concrete hash\<close>

text \<open>
  A function with outputs of 32 bytes that stands for SHA3-256 in the witnesses: the length and
  the first bytes of its argument.
\<close>

definition demo_sha :: "bytes \<Rightarrow> digest" where
  "demo_sha x = take 32 (of_nat (length x) # x @ replicate 32 0)"

definition demo_tree :: merkle_tree where
  "demo_tree = the (from_vec demo_sha [[1], [2], [3]])"

definition demo_proof :: merkle_proof where
  "demo_proof = the (merkle_proof_of demo_tree 2)"

lemma demo_sha_digest: "digest_hash demo_sha"
  by (auto simp: digest_hash_def demo_sha_def min_def)

lemma demo_tree_from_vec: "from_vec demo_sha [[1], [2], [3]] = Some demo_tree"
  by (simp add: demo_tree_def from_vec_Some)

lemma demo_inputs_distinct:
  "distinct (map demo_sha (remdups (tree_inputs demo_sha [[1], [2], [3]] @ proof_inputs demo_sha demo_proof 3)))"
  by code_simp

lemma demo_proof_facts:
  "validate demo_sha demo_proof 3" "pf_root_hash demo_proof = mt_root_hash demo_tree" "pf_index demo_proof = 2"
  "\<forall>d \<in> set (pf_digests demo_proof). length d = 32" "length (pf_digests demo_proof) = 1"
  by code_simp+

theorem merkle_roundtrip_witness:
  "\<exists>p. merkle_proof_of demo_tree 2 = Some p \<and> validate demo_sha p 3 \<and> pf_value p = [3] \<and> pf_index p = 2 \<and>
     pf_root_hash p = mt_root_hash demo_tree"
  using merkle_roundtrip [OF demo_tree_from_vec, of 2] by (simp add: numeral_3_eq_3 numeral_2_eq_2)

theorem merkle_sound_witness: "pf_value demo_proof = [3]"
proof -
  have "inj_on demo_sha (set (tree_inputs demo_sha [[1], [2], [3]] @ proof_inputs demo_sha demo_proof (length [[1], [2], [3::u8]])))"
    using demo_inputs_distinct by (simp add: distinct_map numeral_3_eq_3 del: set_append)
  then show ?thesis
    using merkle_sound [OF demo_sha_digest demo_tree_from_vec _ demo_proof_facts(2)] demo_proof_facts by (simp add: numeral_3_eq_3 numeral_2_eq_2 del: set_append)
qed

theorem out_of_range_validates_witness:
  "validate demo_sha \<lparr>pf_value = hash_pair demo_sha (demo_sha [1]) (demo_sha [2]) @
       hash_pair demo_sha (demo_sha [3]) (demo_sha [4]), pf_index = 4, pf_digests = [],
     pf_root_hash = mt_root_hash (the (from_vec demo_sha [[1], [2], [3], [4]]))\<rparr> 4"
  by (rule out_of_range_validates [OF from_vec_nonempty]) simp

end
