(* ===== verification/HB_Network.thy ===== *)
theory HB_Network
  imports Prelude "HOL-Library.AList"
begin

text \<open>
  HoneyBadger's node information (\<open>consensus/src/honeybadger/network.rs\<close>) and the threshold
  signature behind its common coin (\<open>threshold_sign.rs\<close>). The \<open>threshold_crypto\<close> library is the
  record \<open>hb_ext\<close>; keys, shares and signatures are byte strings. A panic is \<open>None\<close>.

  \<open>nw_connected_nodes\<close> is the list of the hash map's entries in its iteration order; the order is the
  argument \<open>order\<close> of \<open>network_new\<close>. A hash map whose length is read is an association list with
  distinct keys, to which \<open>AList.update\<close> inserts.
\<close>

record hb_ext =
  tc_public_key_share :: "bytes \<Rightarrow> nat \<Rightarrow> bytes"
  tc_public_key :: "bytes \<Rightarrow> bytes"
  tc_sign :: "bytes \<Rightarrow> bytes \<Rightarrow> bytes"
  tc_verify_share :: "bytes \<Rightarrow> bytes \<Rightarrow> bytes \<Rightarrow> bool"
  tc_verify :: "bytes \<Rightarrow> bytes \<Rightarrow> bytes \<Rightarrow> bool"
  tc_combine_signatures :: "bytes \<Rightarrow> (nat \<times> bytes) set \<Rightarrow> bytes option"
  tc_parity :: "bytes \<Rightarrow> bool"

subsection \<open>Node information\<close>

record network =
  nw_id :: string
  nw_connected_nodes :: "(nat \<times> string) list"
  peer_num :: nat
  fault_num :: nat
  nw_is_consensus_node :: bool
  secret_key_share :: "bytes option"
  public_key_share :: "bytes option"
  public_key_shares :: "string \<rightharpoonup> bytes"
  public_key_set :: "bytes option"

fun collect_key_shares ::
  "hb_ext \<Rightarrow> bytes option \<Rightarrow> (nat \<times> string) list \<Rightarrow> (string \<rightharpoonup> bytes) \<Rightarrow> (string \<rightharpoonup> bytes) option" where
  "collect_key_shares E pks [] m = Some m"
| "collect_key_shares E pks ((i, name) # rest) m = do {
     ks \<leftarrow> pks;
     collect_key_shares E pks rest
       (case m name of Some _ \<Rightarrow> m | None \<Rightarrow> m(name \<mapsto> tc_public_key_share E ks i))
   }"

definition network_new ::
  "hb_ext \<Rightarrow> nat list \<Rightarrow> string \<Rightarrow> bool \<Rightarrow> bytes option \<Rightarrow> bytes option \<Rightarrow> bytes option \<Rightarrow> string list \<Rightarrow> network option" where
  "network_new E order my_id is_consensus_node sks pk pks connected_peers = do {
     shares \<leftarrow> collect_key_shares E pks (enumerate 0 connected_peers) Map.empty;
     Some \<lparr>nw_id = my_id, nw_connected_nodes = map (\<lambda>i. (i, connected_peers ! i)) order, peer_num = 4, fault_num = 1,
           nw_is_consensus_node = is_consensus_node, secret_key_share = sks, public_key_share = pk,
           public_key_shares = shares, public_key_set = pks\<rparr>
   }"

definition num_honest :: "network \<Rightarrow> nat" where
  "num_honest n = peer_num n - fault_num n"

definition get_secret_key_share :: "network \<Rightarrow> bytes option option" where
  "get_secret_key_share n = map_option Some (secret_key_share n)"

definition get_public_key_share :: "network \<Rightarrow> string \<Rightarrow> bytes option" where
  "get_public_key_share n name = public_key_shares n name"

definition get_public_key_set :: "network \<Rightarrow> bytes option" where
  "get_public_key_set n = public_key_set n"

subsection \<open>The threshold signature of the coin\<close>

record threshold_sign =
  ts_netinfo :: network
  sigshare_received :: "(string \<times> nat \<times> bytes) list"
  had_input :: bool
  ts_terminated :: bool

definition threshold_sign_new :: "network \<Rightarrow> threshold_sign" where
  "threshold_sign_new n = \<lparr>ts_netinfo = n, sigshare_received = [], had_input = False, ts_terminated = False\<rparr>"

definition check_share :: "hb_ext \<Rightarrow> threshold_sign \<Rightarrow> string \<Rightarrow> bytes \<Rightarrow> bool" where
  "check_share E ts name share =
     (case get_public_key_share (ts_netinfo ts) name of
        Some pk_i \<Rightarrow> tc_verify_share E pk_i share (as_bytes ''coin'')
      | None \<Rightarrow> False)"

definition combine_and_verify_sig :: "hb_ext \<Rightarrow> threshold_sign \<Rightarrow> bytes option option" where
  "combine_and_verify_sig E ts = do {
     pks \<leftarrow> get_public_key_set (ts_netinfo ts);
     sig \<leftarrow> tc_combine_signatures E pks (set (map snd (sigshare_received ts)));
     Some (if \<not> tc_verify E (tc_public_key E pks) sig (as_bytes ''coin'') then None else Some sig)
   }"

text \<open>The index of a node: the last entry of the iteration that carries its name, or 9999.\<close>

definition node_index :: "network \<Rightarrow> string \<Rightarrow> nat" where
  "node_index n source = foldl (\<lambda>i p. if snd p = source then fst p else i) 9999 (nw_connected_nodes n)"

function ts_sign :: "hb_ext \<Rightarrow> threshold_sign \<Rightarrow> (threshold_sign \<times> bytes option) option"
  and ts_handle_message :: "hb_ext \<Rightarrow> threshold_sign \<Rightarrow> string \<Rightarrow> bytes \<Rightarrow> (threshold_sign \<times> bytes option) option"
  and ts_try_output :: "hb_ext \<Rightarrow> threshold_sign \<Rightarrow> (threshold_sign \<times> bytes option) option" where
  "ts_sign E ts =
     (if had_input ts then Some (ts, None)
      else do {
        sks \<leftarrow> get_secret_key_share (ts_netinfo ts);
        sk \<leftarrow> sks;
        let msg = tc_sign E sk (as_bytes ''coin'');
        (ts2, _) \<leftarrow> ts_handle_message E (ts\<lparr>had_input := True\<rparr>) (nw_id (ts_netinfo ts)) msg;
        Some (ts2, Some msg)
      })"
| "ts_handle_message E ts source share =
     (if ts_terminated ts then Some (ts, None)
      else if \<not> check_share E ts source share then Some (ts, None)
      else let i = node_index (ts_netinfo ts) source in
        ts_try_output E
          (if i \<noteq> 9999 then ts\<lparr>sigshare_received := AList.update source (i, share) (sigshare_received ts)\<rparr> else ts))"
| "ts_try_output E ts =
     (if \<not> ts_terminated ts \<and> fault_num (ts_netinfo ts) < length (sigshare_received ts) then do {
        sig \<leftarrow> combine_and_verify_sig E ts;
        (ts2, _) \<leftarrow> ts_sign E (ts\<lparr>ts_terminated := True\<rparr>);
        Some (ts2, sig)
      }
      else Some (ts, None))"
  by pat_completeness auto
termination
  by (relation "measure (\<lambda>x. case x of
        Inl (E, ts) \<Rightarrow> 3 * (of_bool (\<not> had_input ts) + of_bool (\<not> ts_terminated ts))
      | Inr (Inl (E, ts, s, m)) \<Rightarrow> 3 * (of_bool (\<not> had_input ts) + of_bool (\<not> ts_terminated ts)) + 2
      | Inr (Inr (E, ts)) \<Rightarrow> 3 * (of_bool (\<not> had_input ts) + of_bool (\<not> ts_terminated ts)) + 1)") auto

declare ts_sign.simps [simp del] ts_handle_message.simps [simp del] ts_try_output.simps [simp del]


text \<open>
  A signature comes out only of more than \<open>fault_num\<close> shares of different nodes, each of which
  passed the check of its sender, and it passes the check of the common key.
\<close>

definition ts_ok :: "hb_ext \<Rightarrow> threshold_sign \<Rightarrow> bool" where
  "ts_ok E ts \<longleftrightarrow> distinct (map fst (sigshare_received ts)) \<and>
     (\<forall>(source, i, share) \<in> set (sigshare_received ts). check_share E ts source share)"

lemma check_share_cong [simp]:
  "check_share E (ts\<lparr>sigshare_received := x\<rparr>) name share = check_share E ts name share"
  "check_share E (ts\<lparr>had_input := h\<rparr>) name share = check_share E ts name share"
  "check_share E (ts\<lparr>ts_terminated := h\<rparr>) name share = check_share E ts name share"
  by (simp_all add: check_share_def)

lemma set_update_subset: "set (AList.update k v al) \<subseteq> insert (k, v) (set al)"
  by (induction al) auto

lemma ts_ok_update:
  "ts_ok E ts \<Longrightarrow> check_share E ts source share \<Longrightarrow>
   ts_ok E (ts\<lparr>sigshare_received := AList.update source (i, share) (sigshare_received ts)\<rparr>)"
  using set_update_subset [of source "(i, share)" "sigshare_received ts"]
  by (auto simp: ts_ok_def distinct_update)

theorem coin_needs_quorum:
  assumes "ts_ok E ts" and "ts_handle_message E ts source share = Some (ts', Some sig)"
  shows "\<exists>pks shares. public_key_set (ts_netinfo ts) = Some pks \<and> distinct (map fst shares) \<and>
    fault_num (ts_netinfo ts) < length shares \<and> (\<forall>(name, i, sh) \<in> set shares. check_share E ts name sh) \<and>
    tc_combine_signatures E pks (set (map snd shares)) = Some sig \<and>
    tc_verify E (tc_public_key E pks) sig (as_bytes ''coin'')"
proof -
  let ?i = "node_index (ts_netinfo ts) source"
  define ts1 where "ts1 = (if ?i \<noteq> 9999
    then ts\<lparr>sigshare_received := AList.update source (?i, share) (sigshare_received ts)\<rparr> else ts)"
  from assms(2) have run: "ts_try_output E ts1 = Some (ts', Some sig)" and ok: "check_share E ts source share"
    by (auto simp: ts_handle_message.simps [of E ts] ts1_def Let_def split: if_splits)
  have ts1: "ts_ok E ts1" "ts_netinfo ts1 = ts_netinfo ts" using ts_ok_update [OF assms(1) ok] assms(1) by (auto simp: ts1_def)
  then have cong: "check_share E ts1 = check_share E ts" by (simp add: check_share_def fun_eq_iff)
  from run obtain pks where "public_key_set (ts_netinfo ts) = Some pks"
    "tc_combine_signatures E pks (set (map snd (sigshare_received ts1))) = Some sig"
    "tc_verify E (tc_public_key E pks) sig (as_bytes ''coin'')"
    "fault_num (ts_netinfo ts) < length (sigshare_received ts1)"
    using ts1(2) by (auto simp: ts_try_output.simps [of E ts1] combine_and_verify_sig_def get_public_key_set_def bind_eq_Some_conv
        split: if_splits)
  then show ?thesis using ts1(1) cong unfolding ts_ok_def
    by (intro exI [of _ pks] exI [of _ "sigshare_received ts1"]) simp
qed

end
