(* ===== verification/HB_Broadcast.thy ===== *)
theory HB_Broadcast
  imports HB_Merkle HB_Network
begin

text \<open>
  HoneyBadger's reliable broadcast (\<open>reliable_broadcast/broadcast.rs\<close>, \<open>message.rs\<close> of
  \<open>consensus/src/honeybadger\<close>). The Reed-Solomon code, the clock, the random numbers and the
  iteration order of a hash set are the record \<open>rb_ext\<close>; \<open>rb_sent\<close> is the list of what was sent
  on the channel. A panic is \<open>None\<close>.
\<close>

subsection \<open>External functions\<close>

text \<open>
  \<open>rs_new_ok\<close> tells whether \<open>ReedSolomon::new\<close> returns a code; \<open>rs_encode\<close> and \<open>rs_reconstruct\<close>
  are the \<open>encode\<close> and \<open>reconstruct\<close> of the code with the given numbers of data and parity shards;
  \<open>None\<close> is \<open>Err\<close>. \<open>hm_iter\<close> and \<open>hs_iter\<close> are the orders in which a hash map of marks and a
  hash set of proofs with the given members are iterated. \<open>now\<close> and \<open>rand_u8\<close> are the clock's and the
  generator's values during one call of a handler.
\<close>

record rb_ext =
  sha3_256 :: "bytes \<Rightarrow> digest"
  rs_new_ok :: "nat \<Rightarrow> nat \<Rightarrow> bool"
  rs_encode :: "nat \<Rightarrow> nat \<Rightarrow> bytes list \<Rightarrow> bytes list option"
  rs_reconstruct :: "nat \<Rightarrow> nat \<Rightarrow> bytes option list \<Rightarrow> bytes option list option"
  hm_iter :: "(string \<times> nat) list \<Rightarrow> (string \<times> nat) list"
  hs_iter :: "merkle_proof list \<Rightarrow> merkle_proof list"
  now :: int
  rand_u8 :: u8

subsection \<open>Messages\<close>

record echo =
  ec_proof :: merkle_proof
  ec_timestamp :: int
  ec_nonce :: u8

record ready =
  rd_hash :: digest
  rd_timestamp :: int
  rd_nonce :: u8

datatype rb_message =
    Value string merkle_proof
  | Echo string echo
  | Ready string ready
  | CanDecode string digest
  | RbComplete bool
  | RbReply bytes bytes

text \<open>A message of the subset layer: its proposer, the name in the content and the broadcast message.\<close>

datatype rb_packet = RbPacket string string rb_message

subsection \<open>Peer sets\<close>

text \<open>A peer set is the association list of its marks, in the order of their insertion.\<close>

type_synonym peer_set = "(string \<times> nat) list"

definition ps_new :: peer_set where "ps_new = []"

definition ps_insert :: "peer_set \<Rightarrow> string \<Rightarrow> peer_set" where
  "ps_insert ps name = (case map_of ps name of Some _ \<Rightarrow> ps | None \<Rightarrow> ps @ [(name, length ps)])"

definition ps_contains :: "peer_set \<Rightarrow> string \<Rightarrow> bool" where
  "ps_contains ps name = (map_of ps name \<noteq> None)"

definition ps_index :: "peer_set \<Rightarrow> string \<Rightarrow> nat option" where
  "ps_index ps name = map_of ps name"

definition ps_num :: "peer_set \<Rightarrow> nat" where
  "ps_num ps = length ps"

subsection \<open>The code\<close>

datatype coding = ReedSolomon nat nat | Trivial nat

definition coding_new :: "rb_ext \<Rightarrow> nat \<Rightarrow> nat \<Rightarrow> coding option" where
  "coding_new E data_shard_num parity_shard_num =
     (if parity_shard_num > 0 then
        if rs_new_ok E data_shard_num parity_shard_num
        then Some (ReedSolomon data_shard_num parity_shard_num) else None
      else Some (Trivial data_shard_num))"

fun data_shard_count :: "coding \<Rightarrow> nat" where
  "data_shard_count (ReedSolomon d p) = d"
| "data_shard_count (Trivial d) = d"

fun parity_shard_count :: "coding \<Rightarrow> nat" where
  "parity_shard_count (ReedSolomon d p) = p"
| "parity_shard_count (Trivial d) = 0"

fun coding_encode :: "rb_ext \<Rightarrow> coding \<Rightarrow> bytes list \<Rightarrow> bytes list option" where
  "coding_encode E (ReedSolomon d p) slices = rs_encode E d p slices"
| "coding_encode E (Trivial d) slices = Some slices"

fun reconstruct_shards :: "rb_ext \<Rightarrow> coding \<Rightarrow> bytes option list \<Rightarrow> bytes option list option" where
  "reconstruct_shards E (ReedSolomon d p) shards = rs_reconstruct E d p shards"
| "reconstruct_shards E (Trivial d) shards = (if list_all (\<lambda>s. s \<noteq> None) shards then Some shards else None)"

subsection \<open>The state\<close>

record broadcast =
  rb_my_id :: string
  rb_netinfo :: network
  rb_peer_set :: peer_set
  rb_coding :: coding
  ready_sent :: "string \<rightharpoonup> bool"
  can_decode :: "digest list"
  rb_decided :: bool
  rb_output :: bytes
  fault_estimate :: nat
  echo_set :: "string \<rightharpoonup> merkle_proof list"
  readys :: "(string \<times> digest) list"
  rb_sent :: "rb_packet list"

text \<open>\<open>entry(k).or_insert(v)\<close>.\<close>

definition or_insert :: "('k \<rightharpoonup> 'v) \<Rightarrow> 'k \<Rightarrow> 'v \<Rightarrow> ('k \<rightharpoonup> 'v)" where
  "or_insert m k v = (case m k of Some _ \<Rightarrow> m | None \<Rightarrow> m(k \<mapsto> v))"

definition broadcast_init :: "string \<Rightarrow> network \<Rightarrow> coding \<Rightarrow> broadcast" where
  "broadcast_init myid n coding =
     \<lparr>rb_my_id = myid, rb_netinfo = n, rb_peer_set = ps_new, rb_coding = coding,
      ready_sent = foldl (\<lambda>m p. or_insert m (snd p) False) [myid \<mapsto> False] (nw_connected_nodes n),
      can_decode = [], rb_decided = False, rb_output = [], fault_estimate = fault_num n,
      echo_set = foldl (\<lambda>m p. or_insert m (snd p) []) [myid \<mapsto> []] (nw_connected_nodes n),
      readys = [], rb_sent = []\<rparr>"

definition broadcast_new :: "rb_ext \<Rightarrow> string \<Rightarrow> network \<Rightarrow> broadcast option" where
  "broadcast_new E myid n = do {
     coding \<leftarrow> coding_new E 2 2;
     Some (broadcast_init myid n coding)
   }"

definition rb_send :: "broadcast \<Rightarrow> rb_packet \<Rightarrow> broadcast" where
  "rb_send s m = s\<lparr>rb_sent := rb_sent s @ [m]\<rparr>"

definition rb_get_output :: "broadcast \<Rightarrow> bytes option" where
  "rb_get_output s = (if rb_decided s then Some (rb_output s) else None)"

subsection \<open>The input\<close>

text \<open>\<open>BigEndian::write_u32\<close> and \<open>read_u32\<close>.\<close>

definition write_u32 :: "32 word \<Rightarrow> bytes" where
  "write_u32 w = map (\<lambda>i. ucast (drop_bit (8 * (3 - i)) w)) [0..<4]"

definition read_u32 :: "u8 \<Rightarrow> u8 \<Rightarrow> u8 \<Rightarrow> u8 \<Rightarrow> 32 word" where
  "read_u32 b0 b1 b2 b3 = push_bit 24 (ucast b0) OR push_bit 16 (ucast b1) OR push_bit 8 (ucast b2) OR ucast b3"

text \<open>\<open>slice::chunks(n)\<close>; a chunk size of 0 is a panic.\<close>

function chunks :: "nat \<Rightarrow> 'a list \<Rightarrow> 'a list list" where
  "chunks n xs = (if xs = [] \<or> n = 0 then [] else take n xs # chunks n (drop n xs))"
  by pat_completeness auto
termination by (relation "measure (\<lambda>(n, xs). length xs)") auto

declare chunks.simps [simp del]

definition resize :: "nat \<Rightarrow> 'a \<Rightarrow> 'a list \<Rightarrow> 'a list" where
  "resize n x xs = take n xs @ replicate (n - length xs) x"

text \<open>The value that \<open>handle_input\<close> broadcasts; its argument is not used.\<close>

definition simulated_input :: bytes where
  "simulated_input = [12, 32, 0, 23, 32, 8, 12, 55]"

definition framed_shards :: "coding \<Rightarrow> bytes \<Rightarrow> bytes list" where
  "framed_shards c value =
     (let framed = write_u32 (of_nat (length value)) @ value;
          shard_len = (length framed + data_shard_count c - 1) div data_shard_count c
      in chunks shard_len (resize (shard_len * (data_shard_count c + parity_shard_count c)) 0 framed))"

fun send_values :: "merkle_tree \<Rightarrow> peer_set \<Rightarrow> broadcast \<Rightarrow> broadcast option" where
  "send_values t [] s = Some s"
| "send_values t ((name, index) # rest) s = do {
     p \<leftarrow> merkle_proof_of t index;
     send_values t rest (rb_send s (RbPacket (rb_my_id s) (rb_my_id s) (Value (rb_my_id s) p)))
   }"

definition rb_handle_input :: "rb_ext \<Rightarrow> broadcast \<Rightarrow> bytes \<Rightarrow> broadcast option" where
  "rb_handle_input E s input = do {
     shards \<leftarrow> coding_encode E (rb_coding s) (framed_shards (rb_coding s) simulated_input);
     mtree \<leftarrow> from_vec (sha3_256 E) shards;
     send_values mtree (hm_iter E (rb_peer_set s)) s
   }"

subsection \<open>The handlers\<close>

definition handle_value :: "rb_ext \<Rightarrow> broadcast \<Rightarrow> string \<Rightarrow> merkle_proof \<Rightarrow> broadcast" where
  "handle_value E s source p =
     rb_send s (RbPacket source source (Echo source \<lparr>ec_proof = p, ec_timestamp = now E, ec_nonce = rand_u8 E\<rparr>))"

definition count_echos :: "broadcast \<Rightarrow> string \<Rightarrow> digest \<Rightarrow> nat option" where
  "count_echos s source h = map_option (\<lambda>ps. length (filter (\<lambda>p. pf_root_hash p = h) ps)) (echo_set s source)"

definition count_readys :: "broadcast \<Rightarrow> digest \<Rightarrow> nat" where
  "count_readys s h = length (filter (\<lambda>r. snd r = h) (readys s))"

text \<open>
  \<open>handle_echo\<close>: the lookup for a repeated echo and the validation of the proof have empty
  consequences in the code; only the panic of the lookup remains of them.
\<close>

definition rb_handle_echo :: "rb_ext \<Rightarrow> broadcast \<Rightarrow> string \<Rightarrow> echo \<Rightarrow> broadcast option" where
  "rb_handle_echo E s source e = do {
     proofs \<leftarrow> echo_set s source;
     let h = pf_root_hash (ec_proof e);
     let s1 = s\<lparr>echo_set := (echo_set s)(source \<mapsto> (if ec_proof e \<in> set proofs then proofs else proofs @ [ec_proof e]))\<rparr>;
     count \<leftarrow> count_echos s1 source h;
     let s2 = (if count = fault_estimate s + 1 then s1\<lparr>can_decode := List.insert h (can_decode s1)\<rparr> else s1);
     sent \<leftarrow> ready_sent s2 source;
     if \<not> sent \<and> count = 2 * fault_estimate s + 1 then
       Some (rb_send (s2\<lparr>ready_sent := (ready_sent s2)(source \<mapsto> True)\<rparr>)
         (RbPacket source source (Ready source \<lparr>rd_hash = h, rd_timestamp = now E, rd_nonce = rand_u8 E\<rparr>)))
     else Some s2
   }"

definition decode_from_shards :: "rb_ext \<Rightarrow> broadcast \<Rightarrow> bytes option list \<Rightarrow> bytes option option" where
  "decode_from_shards E s leaf_values = do {
     leaves \<leftarrow> reconstruct_shards E (rb_coding s) leaf_values;
     let shards = map the (filter (\<lambda>l. l \<noteq> None) leaves);
     mtree \<leftarrow> from_vec (sha3_256 E) shards;
     case concat (take (data_shard_count (rb_coding s)) (mt_values mtree)) of
       b0 # b1 # b2 # b3 # bs \<Rightarrow> Some (Some (take (unat (read_u32 b0 b1 b2 b3)) bs))
     | _ \<Rightarrow> Some None
   }"

text \<open>
  \<open>BTreeMap::insert\<close> keeps the keys in order and replaces the value of a key that is there.
\<close>

fun btree_insert :: "nat \<Rightarrow> 'v \<Rightarrow> (nat \<times> 'v) list \<Rightarrow> (nat \<times> 'v) list" where
  "btree_insert k v [] = [(k, v)]"
| "btree_insert k v ((k', v') # rest) =
     (if k < k' then (k, v) # (k', v') # rest else if k = k' then (k, v) # rest else (k', v') # btree_insert k v rest)"

definition leaves_of :: "rb_ext \<Rightarrow> merkle_proof list \<Rightarrow> digest \<Rightarrow> bytes option list" where
  "leaves_of E proofs h =
     (let final_set = foldl (\<lambda>m p. if pf_root_hash p = h then btree_insert (pf_index p) p m else m) [] (hs_iter E proofs)
      in map (\<lambda>(i, p). if pf_root_hash p = h then Some (pf_value p) else None) final_set)"

definition do_output :: "rb_ext \<Rightarrow> broadcast \<Rightarrow> string \<Rightarrow> digest \<Rightarrow> broadcast option" where
  "do_output E s source h = do {
     proofs \<leftarrow> echo_set s source;
     decoded \<leftarrow> decode_from_shards E s (leaves_of E proofs h);
     Some (case decoded of Some value \<Rightarrow> s\<lparr>rb_decided := True, rb_output := value\<rparr> | None \<Rightarrow> s)
   }"

definition handle_ready :: "rb_ext \<Rightarrow> broadcast \<Rightarrow> string \<Rightarrow> string \<Rightarrow> ready \<Rightarrow> broadcast option" where
  "handle_ready E s source sender r = do {
     let s1 = s\<lparr>readys := AList.update sender (rd_hash r) (readys s)\<rparr>;
     sent \<leftarrow> ready_sent s1 source;
     let s2 = (if \<not> sent \<and> count_readys s1 (rd_hash r) = fault_estimate s + 1
               then (rb_send s1 (RbPacket source source (Ready source
                       \<lparr>rd_hash = rd_hash r, rd_timestamp = now E, rd_nonce = rand_u8 E\<rparr>)))
                    \<lparr>ready_sent := (ready_sent s1)(source \<mapsto> True)\<rparr>
               else s1);
     if count_readys s2 (rd_hash r) = 2 * fault_estimate s + 1 \<and> rd_hash r \<in> set (can_decode s2)
     then do_output E s2 source (rd_hash r)
     else Some s2
   }"

definition rb_handle_message :: "rb_ext \<Rightarrow> broadcast \<Rightarrow> string \<Rightarrow> rb_message \<Rightarrow> (broadcast \<times> bytes option) option" where
  "rb_handle_message E s source m = do {
     s' \<leftarrow> (case m of
        Value name p \<Rightarrow> Some (handle_value E s name p)
      | Echo name e \<Rightarrow> rb_handle_echo E s name e
      | Ready name r \<Rightarrow> handle_ready E s name source r
      | _ \<Rightarrow> Some s);
     Some (s', rb_get_output s')
   }"

end
