(* ===== verification/HB_Bool_Set.thy ===== *)
theory HB_Bool_Set
  imports Prelude
begin

text \<open>
  The byte that represents a set of truth values
  (\<open>consensus/src/honeybadger/binary_agreement/bool_set.rs\<close>), kept as a byte. The operations
  implement those of the abstract set \<open>bools s\<close>, on every byte for insertion, removal and
  membership, and on the four values that the code itself makes (\<open>bs_wf\<close>) for the
  comparison and \<open>definite\<close>. The contract that the agreement relies on is the locale \<open>bool_set\<close>.
\<close>

subsection \<open>The operations\<close>

type_synonym boolset = u8

definition bs_NONE :: boolset where "bs_NONE = 0b00"
definition bs_FALSE :: boolset where "bs_FALSE = 0b01"
definition bs_TRUE :: boolset where "bs_TRUE = 0b10"
definition bs_BOTH :: boolset where "bs_BOTH = 0b11"

lemmas bs_consts = bs_NONE_def bs_FALSE_def bs_TRUE_def bs_BOTH_def

definition bs_from :: "bool \<Rightarrow> boolset" where
  "bs_from b = (if b then bs_TRUE else bs_FALSE)"

definition bs_insert :: "boolset \<Rightarrow> bool \<Rightarrow> boolset \<times> bool" where
  "bs_insert s b = (let s' = s OR bs_from b in (s', s \<noteq> s'))"

definition bs_remove :: "boolset \<Rightarrow> bool \<Rightarrow> boolset" where
  "bs_remove s b = s AND bs_from (\<not> b)"

definition bs_contains :: "boolset \<Rightarrow> bool \<Rightarrow> bool" where
  "bs_contains s b \<longleftrightarrow> s AND bs_from b \<noteq> 0"

definition bs_is_subset :: "boolset \<Rightarrow> boolset \<Rightarrow> bool" where
  "bs_is_subset s other \<longleftrightarrow> s AND other = s"

definition bs_definite :: "boolset \<Rightarrow> bool option" where
  "bs_definite s = (if s = bs_FALSE then Some False else if s = bs_TRUE then Some True else None)"

definition bs_next :: "boolset \<Rightarrow> bool option \<times> boolset" where
  "bs_next s =
     (if bs_contains s True then (Some True, bs_remove s True)
      else if bs_contains s False then (Some False, bs_remove s False)
      else (None, s))"

subsection \<open>The bits of the byte\<close>

lemma bit_from: "bit (bs_from b) n \<longleftrightarrow> n = (if b then 1 else 0)"
proof -
  have "(0b10 :: u8) = push_bit 1 1" by simp
  then show ?thesis by (auto simp: bs_from_def bs_TRUE_def bs_FALSE_def bit_simps)
qed

lemma contains_bit: "bs_contains s b \<longleftrightarrow> bit s (if b then 1 else 0)"
proof -
  have "bs_from b = 2 ^ (if b then 1 else 0)" by (simp add: bs_from_def bs_consts)
  then show ?thesis by (simp only: bs_contains_def and_exp_eq_0_iff_not_bit not_not)
qed

lemma remove_bit: "bit (bs_remove s b) n \<longleftrightarrow> bit s n \<and> n = (if b then 0 else 1)"
  by (simp add: bs_remove_def bit_simps bit_from)

lemma insert_bit: "bit (fst (bs_insert s b)) n \<longleftrightarrow> bit s n \<or> n = (if b then 1 else 0)"
  by (auto simp: bs_insert_def Let_def bit_simps bit_from)

lemma remove_smaller: "bs_contains s b \<Longrightarrow> bs_remove s b < s"
proof -
  assume "bs_contains s b"
  then have "bit s (if b then 1 else 0)" "\<not> bit (bs_remove s b) (if b then 1 else 0)"
    by (auto simp: contains_bit remove_bit)
  then have "bs_remove s b \<noteq> s" by metis
  moreover have "bs_remove s b \<le> s" by (simp add: bs_remove_def word_and_le2)
  ultimately show ?thesis by simp
qed

text \<open>\<open>for b in set\<close>: the iterator until it returns \<open>None\<close>.\<close>

function bs_iter :: "boolset \<Rightarrow> bool list" where
  "bs_iter s = (case bs_next s of (Some b, s') \<Rightarrow> b # bs_iter s' | (None, _) \<Rightarrow> [])"
  by pat_completeness auto
termination
  by (relation "measure unat") (auto simp: bs_next_def unat_mono remove_smaller split: if_splits)

declare bs_iter.simps [simp del]

subsection \<open>The abstract set\<close>

definition bools :: "boolset \<Rightarrow> bool set" where
  "bools s = {b. bs_contains s b}"

definition bs_wf :: "boolset \<Rightarrow> bool" where
  "bs_wf s \<longleftrightarrow> s \<le> bs_BOTH"

lemma bs_wf_cases: "bs_wf s \<longleftrightarrow> s \<in> {bs_NONE, bs_FALSE, bs_TRUE, bs_BOTH}"
proof -
  have "s \<le> 3 \<longleftrightarrow> unat s \<in> {0, 1, 2, 3}" by (auto simp: word_le_nat_alt)
  also have "\<dots> \<longleftrightarrow> s \<in> {0, 1, 2, 3}" by (auto simp: word_unat_eq_iff)
  finally show ?thesis by (simp add: bs_wf_def bs_consts)
qed

lemma bools_consts [simp]:
  "bools bs_NONE = {}" "bools bs_FALSE = {False}" "bools bs_TRUE = {True}" "bools bs_BOTH = {False, True}"
  by (auto simp: bools_def bs_contains_def bs_from_def bs_consts split: if_splits)

lemma bools_eq: "bs_wf s \<Longrightarrow> bs_wf t \<Longrightarrow> bools s = bools t \<Longrightarrow> s = t"
  by (auto simp: bs_wf_cases)

lemma bools_insert [simp]: "bools (fst (bs_insert s b)) = insert b (bools s)"
  by (auto simp: bools_def contains_bit insert_bit split: if_splits)

lemma bools_insert_flag: "snd (bs_insert s b) \<longleftrightarrow> b \<notin> bools s"
proof
  assume "snd (bs_insert s b)"
  then show "b \<notin> bools s"
    by (auto simp: bs_insert_def Let_def bools_def contains_bit bit_from bit_simps intro!: notI bit_word_eqI split: if_splits)
next
  assume "b \<notin> bools s"
  then have "bools (fst (bs_insert s b)) \<noteq> bools s" by auto
  then show "snd (bs_insert s b)" by (auto simp: bs_insert_def Let_def)
qed

lemma bools_remove [simp]: "bools (bs_remove s b) = bools s - {b}"
  by (auto simp: bools_def contains_bit remove_bit split: if_splits)

lemma bs_wf_insert: "bs_wf s \<Longrightarrow> bs_wf (fst (bs_insert s b))"
  by (cases b) (auto simp: bs_wf_cases bs_insert_def Let_def bs_from_def bs_consts)

lemma bools_subset: "bs_wf s \<Longrightarrow> bs_wf t \<Longrightarrow> bs_is_subset s t \<longleftrightarrow> bools s \<subseteq> bools t"
  by (auto simp: bs_wf_cases bs_is_subset_def simp flip: bs_consts) (auto simp: bs_consts)

lemma definite_consts:
  "bs_definite bs_NONE = None" "bs_definite bs_FALSE = Some False" "bs_definite bs_TRUE = Some True"
  "bs_definite bs_BOTH = None"
  by (simp_all add: bs_definite_def bs_consts)

lemma bools_definite: "bs_wf s \<Longrightarrow> bs_definite s = Some b \<longleftrightarrow> bools s = {b}"
  unfolding bs_wf_cases by (elim insertE emptyE) (simp_all add: definite_consts eq_commute [of b])

lemma definite_iff: "bs_wf s \<Longrightarrow> bs_definite s = Some b \<longleftrightarrow> b \<in> bools s \<and> (\<not> b) \<notin> bools s"
  unfolding bs_wf_cases by (cases b; elim insertE emptyE) (simp_all add: definite_consts)

lemma bs_iter_set: "bs_iter s = (if True \<in> bools s then [True] else []) @ (if False \<in> bools s then [False] else [])"
proof -
  have step: "bs_iter s = (if True \<in> bools s then True # bs_iter (bs_remove s True)
      else if False \<in> bools s then False # bs_iter (bs_remove s False) else [])" for s
    by (subst bs_iter.simps) (simp add: bs_next_def bools_def)
  have empty: "bs_iter s = []" if "bools s = {}" for s
    using that by (subst step) simp
  have no_true: "bs_iter s = [False]" if "bools s = {False}" for s
    using that empty [of "bs_remove s False"] by (subst step) simp
  have "bools (bs_remove s True) = {} \<or> bools (bs_remove s True) = {False}"
    by (cases "False \<in> bools s") (auto, metis)
  then show ?thesis
    using empty [of "bs_remove s True"] no_true [of "bs_remove s True"] empty [of "bs_remove s False"]
    by (subst step) auto
qed

subsection \<open>The contract\<close>

text \<open>
  What the agreement relies on: a set that starts empty, grows by insertion, and whose iterator
  gives each member once.
\<close>

locale bool_set =
  fixes empty :: 's and ins :: "'s \<Rightarrow> bool \<Rightarrow> 's" and mem :: "'s \<Rightarrow> bool \<Rightarrow> bool" and elems :: "'s \<Rightarrow> bool list"
  assumes mem_empty: "\<not> mem empty b"
    and mem_ins: "mem (ins s b) c \<longleftrightarrow> c = b \<or> mem s c"
    and set_elems: "set (elems s) = {b. mem s b}"
    and distinct_elems: "distinct (elems s)"
begin

lemma mem_collect: "mem (foldl ins s bs) b \<longleftrightarrow> mem s b \<or> b \<in> set bs"
  by (induction bs arbitrary: s) (auto simp: mem_ins)

lemma elems_collect: "set (elems (foldl ins empty bs)) = set bs"
  by (auto simp: set_elems mem_collect mem_empty)

lemma elems_empty: "elems empty = []"
  using set_elems [of empty] by (simp add: mem_empty)

end

interpretation bset: bool_set bs_NONE "\<lambda>s b. fst (bs_insert s b)" bs_contains bs_iter
proof
  show "\<not> bs_contains bs_NONE b" for b by (simp add: bs_contains_def bs_NONE_def)
  show "bs_contains (fst (bs_insert s b)) c \<longleftrightarrow> c = b \<or> bs_contains s c" for s b c
  proof -
    have "bs_contains s c \<longleftrightarrow> c \<in> bools s" for s c by (simp add: bools_def)
    then show ?thesis by simp
  qed
  show "set (bs_iter s) = {b. bs_contains s b}" for s
  proof (rule set_eqI)
    show "b \<in> set (bs_iter s) \<longleftrightarrow> b \<in> {b. bs_contains s b}" for b
      by (cases b) (simp_all add: bs_iter_set bools_def)
  qed
  show "distinct (bs_iter s)" for s by (simp add: bs_iter_set) blast
qed

text \<open>
  C24. The byte implements the abstract set.\<close>

theorem bool_set_refines:
  "bools (fst (bs_insert s b)) = insert b (bools s) \<and> snd (bs_insert s b) = (b \<notin> bools s) \<and>
   bools (bs_remove s b) = bools s - {b} \<and> (bs_contains s b \<longleftrightarrow> b \<in> bools s) \<and>
   set (bs_iter s) = bools s \<and> distinct (bs_iter s) \<and>
   (bs_wf s \<longrightarrow> bs_wf (fst (bs_insert s b)) \<and> (bs_definite s = Some b \<longleftrightarrow> bools s = {b}) \<and>
      (bs_wf t \<longrightarrow> (bs_is_subset s t \<longleftrightarrow> bools s \<subseteq> bools t) \<and> (s = t \<longleftrightarrow> bools s = bools t)))"
proof (intro conjI impI)
  show "set (bs_iter s) = bools s" by (simp add: bset.set_elems bools_def)
  show "s = t \<longleftrightarrow> bools s = bools t" if "bs_wf s" "bs_wf t" using that bools_eq by blast
qed (simp_all add: bools_insert_flag bset.distinct_elems bs_wf_insert bools_definite bools_subset, simp add: bools_def)

theorem bool_set_refines_witness:
  "bs_definite bs_TRUE = Some True \<and> bs_is_subset bs_TRUE bs_BOTH \<and> set (bs_iter bs_TRUE) = {True}"
  using bool_set_refines [of bs_TRUE True bs_BOTH] by (simp add: bs_wf_cases)

end
