(* ===== verification/HB_Agreement.thy ===== *)
theory HB_Agreement
  imports HB_Bool_Set HB_Network
begin

text \<open>
  HoneyBadger's binary agreement: the messages (\<open>binary_agreement/mod.rs\<close>), the value broadcast
  (\<open>ba_broadcast.rs\<close>) and the agreement itself (\<open>binary_agreement.rs\<close>) of
  \<open>consensus/src/honeybadger\<close>. Everything a component sends goes through one channel; \<open>bv_sent\<close>
  is the list of what was sent on it. A panic is \<open>None\<close>. Hash sets are sets; the iteration order
  of \<open>term_received\<close> is that of its list.
\<close>

subsection \<open>Messages\<close>

datatype bv_message = BVAL string bool | AUX string bool

datatype aba_content =
    BaBroadcast string bv_message
  | Conf string boolset
  | Term string bool
  | Coin string bytes
  | Signature string bytes

record aba_message =
  am_epoch :: nat
  am_content :: aba_content

definition with_epoch :: "aba_content \<Rightarrow> nat \<Rightarrow> aba_message" where
  "with_epoch c epoch = \<lparr>am_epoch = epoch, am_content = c\<rparr>"

text \<open>
  What is put on the channel: a message of the subset layer (its proposer, the sender's name and
  the agreement message), or the bare agreement message.
\<close>

datatype aba_packet = Wrapped string string aba_message | Bare aba_message

subsection \<open>The value broadcast\<close>

record bv_broadcast =
  bv_network :: network
  bv_proposer_id :: string
  bv_epoch :: nat
  bin_values :: boolset
  bval_from :: "bool \<rightharpoonup> string set"
  bval_sent :: boolset
  aux_from :: "bool \<rightharpoonup> string set"
  bv_terminated :: bool
  bv_output :: boolset
  bv_sent :: "aba_packet list"

definition bv_new :: "network \<Rightarrow> nat \<Rightarrow> string \<Rightarrow> bv_broadcast" where
  "bv_new n epoch proposer_id =
     \<lparr>bv_network = n, bv_proposer_id = proposer_id, bv_epoch = epoch, bin_values = bs_NONE,
      bval_from = [True \<mapsto> {}, False \<mapsto> {}], bval_sent = bs_NONE, aux_from = [True \<mapsto> {}, False \<mapsto> {}],
      bv_terminated = False, bv_output = bs_NONE, bv_sent = []\<rparr>"

definition bv_clear :: "bv_broadcast \<Rightarrow> (bool \<rightharpoonup> string set) \<Rightarrow> bv_broadcast" where
  "bv_clear s init = s\<lparr>bin_values := bs_NONE, bval_from := init, bval_sent := bs_NONE, aux_from := init, bv_terminated := False\<rparr>"

definition bv_send :: "bv_broadcast \<Rightarrow> aba_packet \<Rightarrow> bv_broadcast" where
  "bv_send s msg = s\<lparr>bv_sent := bv_sent s @ [msg]\<rparr>"

definition send_aux :: "bv_broadcast \<Rightarrow> bool \<Rightarrow> bv_broadcast" where
  "send_aux s value =
     (let my = nw_id (bv_network s) in
      bv_send s (Wrapped (bv_proposer_id s) my (with_epoch (BaBroadcast my (AUX my value)) (bv_epoch s))))"

definition send_bval :: "bv_broadcast \<Rightarrow> bool \<Rightarrow> bv_broadcast" where
  "send_bval s value =
     (let my = nw_id (bv_network s) in
      bv_send s (Wrapped (bv_proposer_id s) my (with_epoch (BaBroadcast my (BVAL my value)) (bv_epoch s))))"

fun count_aux_loop :: "(bool \<rightharpoonup> string set) \<Rightarrow> bool list \<Rightarrow> nat \<Rightarrow> boolset \<Rightarrow> (nat \<times> boolset) option" where
  "count_aux_loop from [] count vals = Some (count, vals)"
| "count_aux_loop from (b # bs) count vals = do {
     senders \<leftarrow> from b;
     if senders \<noteq> {} then count_aux_loop from bs (count + card senders) (fst (bs_insert vals b))
     else count_aux_loop from bs count vals
   }"

definition count_aux :: "bv_broadcast \<Rightarrow> (nat \<times> boolset) option" where
  "count_aux s = count_aux_loop (aux_from s) (bs_iter (bin_values s)) 0 bs_NONE"

definition bv_try_output :: "bv_broadcast \<Rightarrow> bv_broadcast option" where
  "bv_try_output s =
     (if bv_terminated s \<or> bin_values s = bs_NONE then Some s
      else do {
        (count, vals) \<leftarrow> count_aux s;
        if count < num_honest (bv_network s) then Some s
        else Some (s\<lparr>bv_terminated := True, bv_output := vals\<rparr>)
      })"

definition bv_get_output :: "bv_broadcast \<Rightarrow> boolset" where
  "bv_get_output s = (if bv_output s \<noteq> bs_NONE then bv_output s else bs_NONE)"

definition handle_bval :: "bv_broadcast \<Rightarrow> string \<Rightarrow> bool \<Rightarrow> bv_broadcast option" where
  "handle_bval s source b = do {
     senders \<leftarrow> bval_from s b;
     if source \<in> senders then Some s
     else do {
       let s1 = s\<lparr>bval_from := (bval_from s)(b \<mapsto> insert source senders)\<rparr>;
       let count_bval = card (insert source senders);
       let f = fault_num (bv_network s);
       s2 \<leftarrow> (if count_bval = 2 * f + 1 then
                let s1' = s1\<lparr>bin_values := fst (bs_insert (bin_values s1) b)\<rparr> in
                if bin_values s1' \<noteq> bs_BOTH then Some (send_aux s1' b) else bv_try_output s1'
              else Some s1);
       Some (if count_bval = f + 1 then send_bval s2 b else s2)
     }
   }"

definition handle_aux :: "bv_broadcast \<Rightarrow> string \<Rightarrow> bool \<Rightarrow> bv_broadcast option" where
  "handle_aux s source b = do {
     senders \<leftarrow> aux_from s b;
     if source \<in> senders then Some s
     else bv_try_output (s\<lparr>aux_from := (aux_from s)(b \<mapsto> insert source senders)\<rparr>)
   }"

definition bv_handle_message :: "bv_broadcast \<Rightarrow> string \<Rightarrow> bv_message \<Rightarrow> bv_broadcast option" where
  "bv_handle_message s source m = (case m of BVAL _ b \<Rightarrow> handle_bval s source b | AUX _ b \<Rightarrow> handle_aux s source b)"

subsection \<open>Messages of later epochs\<close>

record received_messages =
  rm_bval :: boolset
  rm_aux :: boolset
  rm_conf :: "boolset option"
  rm_term :: "bool option"
  rm_coin :: "bytes option"

definition received_new :: received_messages where
  "received_new = \<lparr>rm_bval = bs_NONE, rm_aux = bs_NONE, rm_conf = None, rm_term = None, rm_coin = None\<rparr>"

definition received_insert :: "received_messages \<Rightarrow> aba_content \<Rightarrow> received_messages option" where
  "received_insert r m = (case m of
     BaBroadcast _ (BVAL _ v) \<Rightarrow> Some (r\<lparr>rm_bval := fst (bs_insert (rm_bval r) v)\<rparr>)
   | BaBroadcast _ (AUX _ v) \<Rightarrow> Some (r\<lparr>rm_aux := fst (bs_insert (rm_aux r) v)\<rparr>)
   | Conf _ v \<Rightarrow> Some (if rm_conf r = None then r\<lparr>rm_conf := Some v\<rparr> else r)
   | Term _ v \<Rightarrow> Some (if rm_term r = None then r\<lparr>rm_term := Some v\<rparr> else r)
   | Coin _ v \<Rightarrow> Some (if rm_coin r = None then r\<lparr>rm_coin := Some v\<rparr> else r)
   | Signature _ _ \<Rightarrow> None)"

definition received_list :: "received_messages \<Rightarrow> aba_content list" where
  "received_list r =
     map (\<lambda>b. BaBroadcast [] (BVAL [] b)) (bs_iter (rm_bval r)) @
     map (\<lambda>b. BaBroadcast [] (AUX [] b)) (bs_iter (rm_aux r)) @
     (case rm_conf r of Some bs \<Rightarrow> [Conf [] bs] | None \<Rightarrow> []) @
     (case rm_term r of Some b \<Rightarrow> [Term [] b] | None \<Rightarrow> []) @
     (case rm_coin r of Some ss \<Rightarrow> [Coin [] ss] | None \<Rightarrow> [])"

subsection \<open>The agreement\<close>

datatype coin_state = Decided bool | InProgress threshold_sign

fun coin_value :: "coin_state \<Rightarrow> bool option" where
  "coin_value (Decided value) = Some value"
| "coin_value (InProgress ts) = None"

record binary_agreement =
  ba_netinfo :: network
  ba_proposer_id :: string
  ba_nonce :: nat
  ba_epoch :: nat
  max_epoch :: nat
  ba_broadcast :: bv_broadcast
  ba_bv_output :: boolset
  conf_received :: "(string \<times> boolset) list"
  term_received :: "(bool \<times> string list) list"
  estimated :: "bool option"
  decision :: "bool option"
  incoming_queue :: "nat \<rightharpoonup> (string \<rightharpoonup> received_messages)"
  conf_values :: "boolset option"
  ba_coin :: coin_state
  ba_signature :: "bytes option"

definition ba_new :: "network \<Rightarrow> nat \<Rightarrow> string \<Rightarrow> binary_agreement" where
  "ba_new n nonce proposer_id =
     \<lparr>ba_netinfo = n, ba_proposer_id = proposer_id, ba_nonce = nonce, ba_epoch = 0, max_epoch = 1000,
      ba_broadcast = bv_new n 0 proposer_id, ba_bv_output = bs_NONE, conf_received = [],
      term_received = [], estimated = None, decision = None, incoming_queue = Map.empty,
      conf_values = None, ba_coin = Decided True, ba_signature = None\<rparr>"

definition can_propose :: "binary_agreement \<Rightarrow> bool" where
  "can_propose s \<longleftrightarrow> ba_epoch s = 0 \<and> estimated s = None"

definition decide_value :: "binary_agreement \<Rightarrow> bool \<Rightarrow> binary_agreement" where
  "decide_value s b = (if decision s \<noteq> None then s else s\<lparr>decision := Some b\<rparr>)"

definition epoch_coin :: "binary_agreement \<Rightarrow> coin_state" where
  "epoch_coin s =
     (if ba_epoch s mod 3 = 0 then Decided True
      else if ba_epoch s mod 3 = 1 then Decided False
      else InProgress (threshold_sign_new (ba_netinfo s)))"

fun seed_conf :: "(string \<times> boolset) list \<Rightarrow> bool \<Rightarrow> string list \<Rightarrow> (string \<times> boolset) list" where
  "seed_conf conf b [] = conf"
| "seed_conf conf b (p # ps) =
     (let bset = (case map_of conf p of Some value \<Rightarrow> value | None \<Rightarrow> bs_NONE); bset' = fst (bs_insert bset b) in
      seed_conf (case map_of conf p of Some _ \<Rightarrow> conf | None \<Rightarrow> AList.update p bset' conf) b ps)"

text \<open>
  \<open>update_epoch\<close>. The cached messages of the new epoch are removed from the queue and
  \<open>handle_message_content\<close> is called for each of them, but the future that the call returns is not
  awaited and does not run: the calls have no effect and the two conditions tested after each of
  them do not change.
\<close>

definition update_epoch :: "binary_agreement \<Rightarrow> bool \<Rightarrow> binary_agreement" where
  "update_epoch s b =
     (let s1 = s\<lparr>ba_broadcast := bv_clear (ba_broadcast s) (\<lambda>v. map_option set (map_of (term_received s) v)),
                 conf_received := foldl (\<lambda>conf (v, ps). seed_conf conf v ps) [] (term_received s),
                 conf_values := None, ba_epoch := ba_epoch s + 1\<rparr>;
          s2 = s1\<lparr>ba_coin := epoch_coin s1, estimated := Some b\<rparr>;
          s3 = s2\<lparr>ba_broadcast := send_bval (ba_broadcast s2) b\<rparr>
      in s3\<lparr>incoming_queue := (incoming_queue s3)(ba_epoch s3 := None)\<rparr>)"

definition try_update_epoch :: "binary_agreement \<Rightarrow> binary_agreement" where
  "try_update_epoch s =
     (if decision s \<noteq> None then s
      else case coin_value (ba_coin s) of
        None \<Rightarrow> s
      | Some coin \<Rightarrow>
          (case conf_values s of
             None \<Rightarrow> s
           | Some vals \<Rightarrow>
               if Some coin = bs_definite vals then decide_value s coin
               else update_epoch s (case bs_definite vals of Some v \<Rightarrow> v | None \<Rightarrow> coin)))"

definition ba_send :: "binary_agreement \<Rightarrow> aba_content \<Rightarrow> binary_agreement" where
  "ba_send s c = s\<lparr>ba_broadcast := bv_send (ba_broadcast s) (Bare (with_epoch c (ba_epoch s)))\<rparr>"

definition send_conf :: "binary_agreement \<Rightarrow> boolset \<Rightarrow> binary_agreement" where
  "send_conf s vals =
     (if conf_values s \<noteq> None then s
      else ba_send (s\<lparr>conf_values := Some vals\<rparr>) (Conf (nw_id (ba_netinfo s)) vals))"

definition handle_babroadcast_sync :: "binary_agreement \<Rightarrow> binary_agreement" where
  "handle_babroadcast_sync s =
     (let vals = bv_get_output (ba_broadcast s) in
      if \<not> bs_contains vals False \<and> \<not> bs_contains vals True then s
      else let s1 = (if vals \<noteq> bs_NONE then s\<lparr>ba_bv_output := vals\<rparr> else s) in
      if conf_values s1 \<noteq> None then s1
      else case ba_coin s1 of
        Decided _ \<Rightarrow> try_update_epoch (s1\<lparr>conf_values := Some vals\<rparr>)
      | InProgress _ \<Rightarrow> send_conf s1 vals)"

definition handle_babroadcast :: "binary_agreement \<Rightarrow> string \<Rightarrow> bv_message \<Rightarrow> binary_agreement option" where
  "handle_babroadcast s source m = do {
     bv \<leftarrow> bv_handle_message (ba_broadcast s) source m;
     Some (handle_babroadcast_sync (s\<lparr>ba_broadcast := bv\<rparr>))
   }"

definition coin_sync :: "hb_ext \<Rightarrow> binary_agreement \<Rightarrow> binary_agreement" where
  "coin_sync E s = (case ba_signature s of
     Some sig \<Rightarrow> try_update_epoch (s\<lparr>ba_coin := Decided (tc_parity E sig)\<rparr>)
   | None \<Rightarrow> s)"

definition try_finish_conf_round :: "hb_ext \<Rightarrow> binary_agreement \<Rightarrow> binary_agreement option" where
  "try_finish_conf_round E s =
     (let received = length (conf_received s) in
      if received = 0 \<or> received < num_honest (ba_netinfo s) then Some s
      else case ba_coin s of
        Decided _ \<Rightarrow> Some s
      | InProgress ts \<Rightarrow> do {
          (ts2, msg) \<leftarrow> ts_sign E ts;
          share \<leftarrow> msg;
          Some (coin_sync E (ba_send (s\<lparr>ba_coin := InProgress ts2\<rparr>) (Coin (nw_id (ba_netinfo s)) share)))
        })"

definition handle_conf :: "hb_ext \<Rightarrow> binary_agreement \<Rightarrow> string \<Rightarrow> boolset \<Rightarrow> binary_agreement option" where
  "handle_conf E s source vals = try_finish_conf_round E (s\<lparr>conf_received := AList.update source vals (conf_received s)\<rparr>)"

definition handle_coin :: "hb_ext \<Rightarrow> binary_agreement \<Rightarrow> string \<Rightarrow> bytes \<Rightarrow> binary_agreement option" where
  "handle_coin E s source share = do {
     (s1, sig) \<leftarrow> (case ba_coin s of
        Decided _ \<Rightarrow> Some (s, None)
      | InProgress ts \<Rightarrow> do {
          (ts2, out) \<leftarrow> ts_handle_message E ts source share;
          Some (s\<lparr>ba_coin := InProgress ts2\<rparr>, out)
        });
     Some (coin_sync E (case sig of Some v \<Rightarrow> ba_send s1 (Signature (nw_id (ba_netinfo s1)) v) | None \<Rightarrow> s1))
   }"

definition handle_signature :: "binary_agreement \<Rightarrow> bytes \<Rightarrow> binary_agreement" where
  "handle_signature s sig = (if ba_signature s \<noteq> None then s else s\<lparr>ba_signature := Some sig\<rparr>)"

definition handle_message_content ::
  "hb_ext \<Rightarrow> binary_agreement \<Rightarrow> string \<Rightarrow> aba_content \<Rightarrow> (binary_agreement \<times> bool option) option" where
  "handle_message_content E s source c = do {
     s2 \<leftarrow> (case c of
        BaBroadcast _ m \<Rightarrow> handle_babroadcast s source m
      | Conf name v \<Rightarrow> handle_conf E s name v
      | Term _ _ \<Rightarrow> Some s
      | Coin name v \<Rightarrow> handle_coin E s name v
      | Signature _ v \<Rightarrow> Some (handle_signature s v));
     Some (s2, decision s2)
   }"

definition ba_handle_message ::
  "hb_ext \<Rightarrow> binary_agreement \<Rightarrow> string \<Rightarrow> aba_message \<Rightarrow> (binary_agreement \<times> bool option) option" where
  "ba_handle_message E s source m =
     (if decision s \<noteq> None \<or> am_epoch m < ba_epoch s then Some (s, None)
      else if ba_epoch s + max_epoch s < am_epoch m then Some (s, None)
      else if ba_epoch s < am_epoch m then do {
        let state = (case incoming_queue s (am_epoch m) of Some st \<Rightarrow> st | None \<Rightarrow> Map.empty);
        let entry = (case state source of Some r \<Rightarrow> r | None \<Rightarrow> received_new);
        r \<leftarrow> received_insert entry (am_content m);
        Some (s\<lparr>incoming_queue := (incoming_queue s)(am_epoch m \<mapsto> state(source \<mapsto> r))\<rparr>, None)
      }
      else handle_message_content E s source (am_content m))"

definition ba_propose :: "binary_agreement \<Rightarrow> bool \<Rightarrow> binary_agreement" where
  "ba_propose s input =
     (if \<not> can_propose s then s
      else handle_babroadcast_sync
        (s\<lparr>estimated := Some input, ba_broadcast := send_bval (ba_broadcast s) input\<rparr>))"

subsection \<open>The agreement as a step function\<close>

datatype aba_event = Propose bool | Receive string aba_message

definition aba_step :: "hb_ext \<Rightarrow> binary_agreement \<Rightarrow> aba_event \<Rightarrow> (binary_agreement \<times> bool option) option" where
  "aba_step E s e = (case e of
     Propose b \<Rightarrow> (let s2 = ba_propose s b in Some (s2, decision s2))
   | Receive source m \<Rightarrow> ba_handle_message E s source m)"

end
