(* ===== verification/HB_Subset.thy ===== *)
theory HB_Subset
  imports HB_Broadcast HB_Agreement
begin

text \<open>
  HoneyBadger's common subset: the messages (\<open>subset/message.rs\<close>), the state of one proposal
  (\<open>subset/state.rs\<close>), the subset of all proposals (\<open>subset/subset.rs\<close>) and the handlers of the
  node (\<open>node.rs\<close>) of \<open>consensus/src/honeybadger\<close>. The two channels are the lists \<open>rbc_msgs\<close> and
  \<open>aba_msgs\<close> of the subset; between two calls the components of a state hold empty lists of sent
  messages. A panic is \<open>None\<close>.
\<close>

subsection \<open>Messages\<close>

datatype subset_content =
    SRequest bytes bytes
  | SBroadcast string rb_message
  | SAgreement string aba_message
  | SReply string bool

record subset_message =
  sm_proposer_id :: string
  sm_content :: subset_content

definition with_proposer :: "subset_content \<Rightarrow> string \<Rightarrow> subset_message" where
  "with_proposer c proposer_id = \<lparr>sm_proposer_id = proposer_id, sm_content = c\<rparr>"

subsection \<open>The state of a proposal\<close>

datatype acs_state =
    Ongoing broadcast binary_agreement
  | GetValue bytes binary_agreement
  | Accepted broadcast
  | Completed bool

text \<open>What a call put on the two channels.\<close>

type_synonym acs_out = "rb_packet list \<times> aba_packet list"

definition rb_flush :: "broadcast \<Rightarrow> broadcast" where
  "rb_flush s = s\<lparr>rb_sent := []\<rparr>"

definition ba_flush :: "binary_agreement \<Rightarrow> binary_agreement" where
  "ba_flush s = s\<lparr>ba_broadcast := (ba_broadcast s)\<lparr>bv_sent := []\<rparr>\<rparr>"

definition ba_sent :: "binary_agreement \<Rightarrow> aba_packet list" where
  "ba_sent s = bv_sent (ba_broadcast s)"

definition acs_state_new :: "rb_ext \<Rightarrow> network \<Rightarrow> nat \<Rightarrow> string \<Rightarrow> acs_state option" where
  "acs_state_new R n nonce proposer_id = do {
     rbc \<leftarrow> broadcast_new R (nw_id n) n;
     Some (Ongoing rbc (ba_new n nonce proposer_id))
   }"

fun state_received :: "acs_state \<Rightarrow> bool" where
  "state_received (Ongoing _ _) = False"
| "state_received (Accepted _) = False"
| "state_received (GetValue _ _) = True"
| "state_received (Completed accepted) = accepted"

fun state_accepted :: "acs_state \<Rightarrow> bool" where
  "state_accepted (Ongoing _ _) = False"
| "state_accepted (GetValue _ _) = False"
| "state_accepted (Accepted _) = True"
| "state_accepted (Completed accepted) = accepted"

fun state_complete :: "acs_state \<Rightarrow> bool" where
  "state_complete (Completed _) = True"
| "state_complete _ = False"

definition register_peers :: "network \<Rightarrow> string \<Rightarrow> broadcast \<Rightarrow> broadcast" where
  "register_peers n source rbc =
     foldl (\<lambda>s p. if snd p \<noteq> source
                  then s\<lparr>rb_peer_set := ps_insert (rb_peer_set s) (snd p),
                         ready_sent := or_insert (ready_sent s) (snd p) False,
                         echo_set := or_insert (echo_set s) (snd p) []\<rparr>
                  else s) rbc (nw_connected_nodes n)"

fun state_propose :: "rb_ext \<Rightarrow> acs_state \<Rightarrow> bytes \<Rightarrow> network \<Rightarrow> string \<Rightarrow> (acs_state \<times> acs_out) option" where
  "state_propose R (Ongoing rbc aba) val n source = do {
     rbc' \<leftarrow> rb_handle_input R (register_peers n source rbc) val;
     Some (Ongoing (rb_flush rbc') aba, (rb_sent rbc', []))
   }"
| "state_propose R st val n source = Some (st, ([], []))"

fun handle_broadcast :: "rb_ext \<Rightarrow> acs_state \<Rightarrow> string \<Rightarrow> rb_message \<Rightarrow> (acs_state \<times> acs_out) option" where
  "handle_broadcast R (Ongoing rbc aba) sender_id msg = do {
     (rbc', output) \<leftarrow> rb_handle_message R rbc sender_id msg;
     case output of
       Some v \<Rightarrow>
         (let aba' = ba_propose aba True in
          Some (GetValue v (ba_flush aba'), (rb_sent rbc', ba_sent aba')))
     | None \<Rightarrow> Some (Ongoing (rb_flush rbc') aba, (rb_sent rbc', []))
   }"
| "handle_broadcast R (Accepted rbc) sender_id msg =
     (case rb_get_output rbc of
        Some v \<Rightarrow> Some (Completed True, ([], []))
      | None \<Rightarrow> Some (Accepted rbc, ([], [])))"
| "handle_broadcast R st sender_id msg = Some (st, ([], []))"

fun handle_agreement :: "hb_ext \<Rightarrow> acs_state \<Rightarrow> string \<Rightarrow> aba_message \<Rightarrow> (acs_state \<times> acs_out) option" where
  "handle_agreement E (Ongoing rbc aba) sender_id msg = do {
     (aba', decided) \<leftarrow> ba_handle_message E aba sender_id msg;
     Some (case decided of
         Some True \<Rightarrow> Accepted rbc
       | Some False \<Rightarrow> Completed False
       | None \<Rightarrow> Ongoing rbc (ba_flush aba'), ([], ba_sent aba'))
   }"
| "handle_agreement E (GetValue v aba) sender_id msg = do {
     (aba', decided) \<leftarrow> ba_handle_message E aba sender_id msg;
     Some (case decided of
         Some True \<Rightarrow> Completed True
       | Some False \<Rightarrow> Completed False
       | None \<Rightarrow> GetValue v (ba_flush aba'), ([], ba_sent aba'))
   }"
| "handle_agreement E st sender_id msg = Some (st, ([], []))"

definition state_handle_message ::
  "hb_ext \<Rightarrow> rb_ext \<Rightarrow> acs_state \<Rightarrow> string \<Rightarrow> subset_content \<Rightarrow> (acs_state \<times> acs_out) option" where
  "state_handle_message E R st sender_id msg = (case msg of
     SBroadcast _ rbc_msg \<Rightarrow> handle_broadcast R st sender_id rbc_msg
   | SAgreement _ aba_msg \<Rightarrow> handle_agreement E st sender_id aba_msg
   | _ \<Rightarrow> None)"

subsection \<open>The subset\<close>

record subset_state =
  su_netinfo :: network
  su_nonce :: nat
  su_result :: "string \<rightharpoonup> bool"
  tx_result :: "string \<rightharpoonup> string"
  states :: "(string \<times> acs_state) list"
  su_decided :: bool
  rbc_msgs :: "rb_packet list"
  aba_msgs :: "aba_packet list"

fun new_states :: "rb_ext \<Rightarrow> network \<Rightarrow> nat \<Rightarrow> string list \<Rightarrow> (string \<times> acs_state) list \<Rightarrow> (string \<times> acs_state) list option" where
  "new_states R n nonce [] sts = Some sts"
| "new_states R n nonce (i # is) sts = do {
     st \<leftarrow> acs_state_new R n nonce i;
     new_states R n nonce is (AList.update i st sts)
   }"

definition subset_new :: "rb_ext \<Rightarrow> network \<Rightarrow> nat \<Rightarrow> subset_state option" where
  "subset_new R n nonce = do {
     let names = map snd (nw_connected_nodes n);
     sts \<leftarrow> new_states R n nonce names [];
     Some \<lparr>su_netinfo = n, su_nonce = nonce, su_result = foldl (\<lambda>m i. m(i \<mapsto> False)) Map.empty names,
           tx_result = foldl (\<lambda>m i. m(i \<mapsto> [])) Map.empty names, states = sts, su_decided = False,
           rbc_msgs = [], aba_msgs = []\<rparr>
   }"

definition put_state :: "subset_state \<Rightarrow> string \<Rightarrow> acs_state \<times> acs_out \<Rightarrow> subset_state" where
  "put_state s proposer r =
     s\<lparr>states := AList.update proposer (fst r) (states s), rbc_msgs := rbc_msgs s @ fst (snd r), aba_msgs := aba_msgs s @ snd (snd r)\<rparr>"

definition subset_propose :: "rb_ext \<Rightarrow> subset_state \<Rightarrow> bytes \<Rightarrow> string \<Rightarrow> subset_state option" where
  "subset_propose R s val source = do {
     let my = nw_id (su_netinfo s);
     st \<leftarrow> map_of (states s) my;
     r \<leftarrow> state_propose R st val (su_netinfo s) source;
     Some (put_state s my r)
   }"

definition subset_handle_message :: "hb_ext \<Rightarrow> rb_ext \<Rightarrow> subset_state \<Rightarrow> string \<Rightarrow> subset_message \<Rightarrow> subset_state option" where
  "subset_handle_message E R s source msg = (case sm_content msg of
     SRequest data client_id \<Rightarrow> subset_propose R s data source
   | SReply _ _ \<Rightarrow> Some s
   | _ \<Rightarrow> do {
       st \<leftarrow> map_of (states s) (sm_proposer_id msg);
       r \<leftarrow> state_handle_message E R st source (sm_content msg);
       Some (put_state s (sm_proposer_id msg) r)
     })"

definition received_proposals :: "subset_state \<Rightarrow> nat" where
  "received_proposals s = length (filter (\<lambda>p. state_received (snd p)) (states s))"

definition count_accepted :: "subset_state \<Rightarrow> nat" where
  "count_accepted s = length (filter (\<lambda>p. state_accepted (snd p)) (states s))"

definition subset_try_output :: "subset_state \<Rightarrow> subset_state" where
  "subset_try_output s = (if list_all (\<lambda>p. state_complete (snd p)) (states s) then s\<lparr>su_decided := True\<rparr> else s)"

subsection \<open>The node\<close>

text \<open>
  The events of the node's loop: a key from the controller (its source as bytes, the shares and the
  key set, the keys of \<open>connected_nodes\<close> in their iteration order and the iteration order of the
  new map), a request, a gossiped message, and a peer that appears or expires.
\<close>

record hb_node =
  hn_id :: string
  hn_connected :: "string list"
  hn_netinfo :: network
  hn_acs :: subset_state

datatype hb_event =
    HbTBLSKey bytes bytes bytes bytes "string list" "nat list"
  | HbRequest string
  | HbGossip string subset_message
  | HbDiscovered string
  | HbExpired string bool

definition hb_node_new :: "hb_ext \<Rightarrow> rb_ext \<Rightarrow> string \<Rightarrow> hb_node option" where
  "hb_node_new E R my_id = do {
     n \<leftarrow> network_new E [] my_id True None None None [];
     acs \<leftarrow> subset_new R n 1;
     Some \<lparr>hn_id = my_id, hn_connected = [], hn_netinfo = n, hn_acs = acs\<rparr>
   }"

definition hb_node_step :: "hb_ext \<Rightarrow> rb_ext \<Rightarrow> hb_node \<Rightarrow> hb_event \<Rightarrow> hb_node option" where
  "hb_node_step E R s e = (case e of
     HbTBLSKey source sk pk pks keys order \<Rightarrow> do {
       let peer_vec = filter (\<lambda>k. as_bytes k \<noteq> source) keys @ [hn_id s];
       n \<leftarrow> network_new E order (hn_id s) True (Some sk) (Some pk) (Some pks) peer_vec;
       acs \<leftarrow> subset_new R n 1;
       Some (s\<lparr>hn_netinfo := n, hn_acs := acs\<rparr>)
     }
   | HbRequest control_id \<Rightarrow> do {
       acs \<leftarrow> subset_propose R (hn_acs s) (as_bytes (hn_id s)) control_id;
       Some (s\<lparr>hn_acs := acs\<rparr>)
     }
   | HbGossip peer_id msg \<Rightarrow> do {
       acs \<leftarrow> subset_handle_message E R (hn_acs s) peer_id msg;
       Some (s\<lparr>hn_acs := acs\<rparr>)
     }
   | HbDiscovered peer \<Rightarrow> Some (s\<lparr>hn_connected := List.insert peer (hn_connected s)\<rparr>)
   | HbExpired peer has_node \<Rightarrow>
       Some (if \<not> has_node then s\<lparr>hn_connected := remove1 peer (hn_connected s)\<rparr> else s))"

end
