(* ===== verification/HB_Agreement_Properties.thy ===== *)
theory HB_Agreement_Properties
  imports HB_Agreement
begin

text \<open>
  Properties of HoneyBadger's binary agreement: the invariant of a node, the agreement of any two
  correct nodes of a network of four in which one may be faulty, the evidence behind a decision,
  what a second epoch does, and the step in which a quorum decides.
\<close>

subsection \<open>What a node has heard and sent\<close>

definition heard_bval :: "aba_event set \<Rightarrow> bool \<Rightarrow> string set" where
  "heard_bval es b = {src. \<exists>i j. Receive src \<lparr>am_epoch = 0, am_content = BaBroadcast i (BVAL j b)\<rparr> \<in> es}"

definition heard_aux :: "aba_event set \<Rightarrow> bool \<Rightarrow> string set" where
  "heard_aux es b = {src. \<exists>i j. Receive src \<lparr>am_epoch = 0, am_content = BaBroadcast i (AUX j b)\<rparr> \<in> es}"

fun packet_aux :: "aba_packet \<Rightarrow> bool list" where
  "packet_aux (Wrapped p i m) = (case am_content m of BaBroadcast _ (AUX _ b) \<Rightarrow> [b] | _ \<Rightarrow> [])"
| "packet_aux (Bare m) = []"

definition sent_aux :: "bv_broadcast \<Rightarrow> bool list" where
  "sent_aux s = concat (map packet_aux (bv_sent s))"

lemma heard_mono: "es \<subseteq> fs \<Longrightarrow> heard_bval es b \<subseteq> heard_bval fs b" "es \<subseteq> fs \<Longrightarrow> heard_aux es b \<subseteq> heard_aux fs b"
  by (auto simp: heard_bval_def heard_aux_def)

subsection \<open>Frames\<close>

lemma send_frames [simp]:
  "bv_network (bv_send s m) = bv_network s" "bin_values (bv_send s m) = bin_values s"
  "bval_from (bv_send s m) = bval_from s" "aux_from (bv_send s m) = aux_from s"
  "bv_output (bv_send s m) = bv_output s" "bv_terminated (bv_send s m) = bv_terminated s"
  "bv_network (send_aux s b) = bv_network s" "bin_values (send_aux s b) = bin_values s"
  "bval_from (send_aux s b) = bval_from s" "aux_from (send_aux s b) = aux_from s"
  "bv_output (send_aux s b) = bv_output s" "bv_terminated (send_aux s b) = bv_terminated s" "bv_terminated (send_bval s b) = bv_terminated s"
  "bv_network (send_bval s b) = bv_network s" "bin_values (send_bval s b) = bin_values s"
  "bval_from (send_bval s b) = bval_from s" "aux_from (send_bval s b) = aux_from s"
  "bv_output (send_bval s b) = bv_output s"
  by (simp_all add: bv_send_def send_aux_def send_bval_def Let_def)

lemma sent_aux_simps [simp]:
  "sent_aux (send_aux s b) = sent_aux s @ [b]" "sent_aux (send_bval s b) = sent_aux s"
  "sent_aux (bv_send s (Bare m)) = sent_aux s"
  "sent_aux (s\<lparr>bval_from := x\<rparr>) = sent_aux s" "sent_aux (s\<lparr>aux_from := x\<rparr>) = sent_aux s"
  "sent_aux (s\<lparr>bin_values := v\<rparr>) = sent_aux s" "sent_aux (s\<lparr>bv_terminated := t, bv_output := v\<rparr>) = sent_aux s"
  "sent_aux (bv_clear s f) = sent_aux s" "sent_aux (bv_new n e p) = []"
  by (simp_all add: sent_aux_def send_aux_def send_bval_def bv_send_def with_epoch_def bv_clear_def bv_new_def Let_def)

subsection \<open>The invariant of the value broadcast\<close>

definition bv_inv :: "aba_event set \<Rightarrow> bv_broadcast \<Rightarrow> bool" where
  "bv_inv es s \<longleftrightarrow>
     fault_num (bv_network s) = 1 \<and> num_honest (bv_network s) = 3 \<and> bs_wf (bin_values s) \<and> bs_wf (bv_output s) \<and>
     (\<forall>b. \<exists>S. bval_from s b = Some S \<and> finite S \<and> S \<subseteq> heard_bval es b \<and> (b \<in> bools (bin_values s) \<longleftrightarrow> 3 \<le> card S)) \<and>
     (\<forall>b. \<exists>A. aux_from s b = Some A \<and> finite A \<and> A \<subseteq> heard_aux es b \<and>
        (bs_definite (bv_output s) = Some b \<longrightarrow> b \<in> bools (bin_values s) \<and> 3 \<le> card A)) \<and>
     length (sent_aux s) \<le> 1 \<and> (bin_values s = bs_NONE \<longrightarrow> sent_aux s = [])"

lemma count_aux_value:
  assumes "bs_wf (bin_values s)" and "aux_from s True = Some A" and "aux_from s False = Some B"
  shows "\<exists>v. count_aux s = Some ((if True \<in> bools (bin_values s) then card A else 0) +
      (if False \<in> bools (bin_values s) then card B else 0), v) \<and> bs_wf v \<and>
    (True \<in> bools v \<longleftrightarrow> True \<in> bools (bin_values s) \<and> A \<noteq> {}) \<and>
    (False \<in> bools v \<longleftrightarrow> False \<in> bools (bin_values s) \<and> B \<noteq> {})"
  using assms
  by (cases "True \<in> bools (bin_values s)"; cases "False \<in> bools (bin_values s)"; cases "A = {}"; cases "B = {}")
    (simp_all add: count_aux_def bs_iter_set bs_wf_insert bs_wf_cases [of bs_NONE])

lemma try_output_inv:
  assumes "bv_inv es s"
  shows "\<exists>s'. bv_try_output s = Some s' \<and> bv_inv es s' \<and> bv_sent s' = bv_sent s \<and> bin_values s' = bin_values s"
proof -
  from assms obtain A B where A: "aux_from s True = Some A" and B: "aux_from s False = Some B"
    unfolding bv_inv_def by meson
  from assms have wf: "bs_wf (bin_values s)" by (simp add: bv_inv_def)
  from count_aux_value [OF wf A B] obtain c v where cv: "count_aux s = Some (c, v)" "bs_wf v"
    and c: "c = (if True \<in> bools (bin_values s) then card A else 0) + (if False \<in> bools (bin_values s) then card B else 0)"
    and v: "True \<in> bools v \<longleftrightarrow> True \<in> bools (bin_values s) \<and> A \<noteq> {}"
      "False \<in> bools v \<longleftrightarrow> False \<in> bools (bin_values s) \<and> B \<noteq> {}"
    by blast
  have quorum: "b \<in> bools (bin_values s) \<and> 3 \<le> card S" if "bs_definite v = Some b" "3 \<le> c" "aux_from s b = Some S" for b S
    using that A B v c by (cases b) (auto simp: definite_iff cv split: if_splits)
  show ?thesis
  proof (cases "bv_terminated s \<or> bin_values s = bs_NONE \<or> c < 3")
    case True
    with assms cv show ?thesis by (auto simp: bv_try_output_def bv_inv_def)
  next
    case False
    then have "bv_try_output s = Some (s\<lparr>bv_terminated := True, bv_output := v\<rparr>)"
      using assms cv by (simp add: bv_try_output_def bv_inv_def)
    moreover have "bv_inv es (s\<lparr>bv_terminated := True, bv_output := v\<rparr>)"
      using assms cv(2) quorum False unfolding bv_inv_def by (simp add: not_less) metis
    ultimately show ?thesis by simp
  qed
qed


lemma bv_inv_senders:
  assumes "bv_inv es s"
  obtains S where "bval_from s b = Some S" "finite S" "S \<subseteq> heard_bval es b" "b \<in> bools (bin_values s) \<longleftrightarrow> 3 \<le> card S"
  using assms unfolding bv_inv_def by meson

lemma handle_aux_inv:
  assumes "bv_inv es s" and "source \<in> heard_aux es b"
  shows "\<exists>s'. handle_aux s source b = Some s' \<and> bv_inv es s'"
proof -
  from assms(1) obtain A where A: "aux_from s b = Some A" "finite A" "A \<subseteq> heard_aux es b"
    and out: "bs_definite (bv_output s) = Some b \<longrightarrow> b \<in> bools (bin_values s) \<and> 3 \<le> card A"
    unfolding bv_inv_def by meson
  show ?thesis
  proof (cases "source \<in> A")
    case True
    with A assms(1) show ?thesis by (simp add: handle_aux_def)
  next
    case False
    have "bv_inv es (s\<lparr>aux_from := (aux_from s)(b \<mapsto> insert source A)\<rparr>)"
      using assms A out False unfolding bv_inv_def by (simp, auto)
    from try_output_inv [OF this] A False show ?thesis by (auto simp: handle_aux_def)
  qed
qed

text \<open>A third sender of \<open>BVAL(b)\<close> makes \<open>b\<close> a bin value; no \<open>AUX\<close> follows once there are two.\<close>

lemma both_values: "bs_wf v \<Longrightarrow> v \<noteq> bs_NONE \<Longrightarrow> b \<notin> bools v \<Longrightarrow> fst (bs_insert v b) = bs_BOTH"
proof -
  have "fst (bs_insert bs_TRUE False) = bs_BOTH" "fst (bs_insert bs_FALSE True) = bs_BOTH"
    by (simp_all add: bs_insert_def bs_from_def bs_consts)
  then show "bs_wf v \<Longrightarrow> v \<noteq> bs_NONE \<Longrightarrow> b \<notin> bools v \<Longrightarrow> fst (bs_insert v b) = bs_BOTH"
    unfolding bs_wf_cases by (cases b; elim insertE emptyE) simp_all
qed

lemma handle_bval_inv:
  assumes inv: "bv_inv es s" and heard: "source \<in> heard_bval es b"
  shows "\<exists>s'. handle_bval s source b = Some s' \<and> bv_inv es s'"
proof -
  from inv obtain S where S: "bval_from s b = Some S" "finite S" "S \<subseteq> heard_bval es b"
    and bin: "b \<in> bools (bin_values s) \<longleftrightarrow> 3 \<le> card S" by (rule bv_inv_senders)
  define s1 where "s1 = s\<lparr>bval_from := (bval_from s)(b \<mapsto> insert source S)\<rparr>"
  define s2 where "s2 = s1\<lparr>bin_values := fst (bs_insert (bin_values s1) b)\<rparr>"
  have f: "fault_num (bv_network s) = 1" using inv by (simp add: bv_inv_def)
  show ?thesis
  proof (cases "source \<in> S")
    case True
    with S inv show ?thesis by (simp add: handle_bval_def)
  next
    case False
    with S have card: "card (insert source S) = Suc (card S)" by simp
    show ?thesis
    proof (cases "card S = 2")
      case two: False
      have inv1: "bv_inv es s1"
        using inv heard S bin two False unfolding bv_inv_def s1_def by simp linarith
      then have inv2: "bv_inv es (send_bval s1 b)" by (simp add: bv_inv_def)
      have "handle_bval s source b = Some (if card S = 1 then send_bval s1 b else s1)"
        using S(1) False two card f by (simp add: handle_bval_def s1_def Let_def)
      with inv1 inv2 show ?thesis by auto
    next
      case two: True
      have b: "b \<notin> bools (bin_values s)" using bin two by simp
      have common: "bs_wf (bin_values s2)" "b' \<in> bools (bin_values s2) \<longleftrightarrow> b' = b \<or> b' \<in> bools (bin_values s)" for b'
        using inv by (auto simp: s2_def s1_def bv_inv_def bs_wf_insert)
      have inv2: "bv_inv es (if bin_values s2 \<noteq> bs_BOTH then send_aux s2 b else s2)"
      proof (cases "bin_values s = bs_NONE")
        case True
        then have "bin_values s2 \<noteq> bs_BOTH" "bin_values s2 \<noteq> bs_NONE" "sent_aux s2 = []"
          using inv by (auto simp: s2_def s1_def bv_inv_def bs_insert_def bs_from_def bs_consts)
        with inv heard S two common False show ?thesis
          unfolding bv_inv_def by (simp add: s2_def s1_def) metis
      next
        case nonempty: False
        have "bs_wf (bin_values s)" using inv by (simp add: bv_inv_def)
        from both_values [OF this nonempty b] have "bin_values s2 = bs_BOTH" by (simp add: s2_def s1_def)
        moreover have "bs_BOTH \<noteq> bs_NONE" by (simp add: bs_consts)
        ultimately show ?thesis using inv heard S two common False
          unfolding bv_inv_def by (simp add: s2_def s1_def) metis
      qed
      have "handle_bval s source b = (if bin_values s2 \<noteq> bs_BOTH then Some (send_aux s2 b) else bv_try_output s2)"
        using S(1) False two card f by (simp add: handle_bval_def s2_def s1_def Let_def bind_eq_Some_conv split: bind_split)
      with inv2 try_output_inv [of es s2] show ?thesis by (auto split: if_splits)
    qed
  qed
qed


subsection \<open>The invariant of the agreement\<close>

definition ba_inv :: "aba_event set \<Rightarrow> binary_agreement \<Rightarrow> bool" where
  "ba_inv es s \<longleftrightarrow>
     term_received s = [] \<and> coin_value (ba_coin s) \<noteq> None \<and>
     (if ba_epoch s = 0 then
        bv_inv es (ba_broadcast s) \<and>
        (decision s = None \<longrightarrow> conf_values s = None) \<and>
        (\<forall>b. decision s = Some b \<longrightarrow> bs_definite (bv_output (ba_broadcast s)) = Some b)
      else
        ba_epoch s = 1 \<and> decision s = None \<and> conf_values s = None \<and> length (sent_aux (ba_broadcast s)) \<le> 1 \<and>
        bval_from (ba_broadcast s) = Map.empty \<and> aux_from (ba_broadcast s) = Map.empty)"

lemma ba_inv_coin: assumes "ba_inv es s" obtains c where "ba_coin s = Decided c"
  using assms by (cases "ba_coin s") (auto simp: ba_inv_def)

lemma bv_inv_mono: "bv_inv es s \<Longrightarrow> es \<subseteq> fs \<Longrightarrow> bv_inv fs s"
  unfolding bv_inv_def using heard_mono [of es fs] by (meson order_trans)

lemma ba_inv_mono: "ba_inv es s \<Longrightarrow> es \<subseteq> fs \<Longrightarrow> ba_inv fs s"
  by (auto simp: ba_inv_def intro: bv_inv_mono)

lemma bv_inv_send_bval: "bv_inv es s \<Longrightarrow> bv_inv es (send_bval s b)"
  by (simp add: bv_inv_def)

lemma update_epoch_inv:
  "term_received s = [] \<Longrightarrow> ba_epoch s = 0 \<Longrightarrow> decision s = None \<Longrightarrow> length (sent_aux (ba_broadcast s)) \<le> 1 \<Longrightarrow>
   ba_inv es (update_epoch s b)"
  by (simp add: ba_inv_def update_epoch_def Let_def epoch_coin_def) (simp add: bv_clear_def)

lemma sync_inv:
  assumes inv: "ba_inv es s" and epoch: "ba_epoch s = 0"
  shows "ba_inv es (handle_babroadcast_sync s)"
proof -
  define vals where "vals = bv_get_output (ba_broadcast s)"
  have vals: "vals = bv_output (ba_broadcast s)" by (simp add: vals_def bv_get_output_def)
  define s1 where "s1 = (if vals \<noteq> bs_NONE then s\<lparr>ba_bv_output := vals\<rparr> else s)"
  have s1: "ba_inv es s1" "ba_epoch s1 = 0" "decision s1 = decision s" "conf_values s1 = conf_values s"
    "ba_broadcast s1 = ba_broadcast s" "ba_coin s1 = ba_coin s" "term_received s1 = []"
    using inv epoch by (auto simp: s1_def ba_inv_def)
  obtain c where c: "ba_coin s = Decided c" using ba_inv_coin [OF inv] .
  have aux: "length (sent_aux (ba_broadcast s)) \<le> 1" using inv epoch by (simp add: ba_inv_def bv_inv_def)
  have "ba_inv es (try_update_epoch (s1\<lparr>conf_values := Some vals\<rparr>))"
  proof (cases "decision s")
    case (Some d)
    then show ?thesis using s1 by (auto simp: try_update_epoch_def ba_inv_def)
  next
    case None
    show ?thesis
    proof (cases "bs_definite vals = Some c")
      case True
      then show ?thesis using s1 c None vals by (auto simp: try_update_epoch_def decide_value_def ba_inv_def)
    next
      case False
      then show ?thesis using s1 c None aux
        by (auto simp: try_update_epoch_def intro!: update_epoch_inv)
    qed
  qed
  then show ?thesis
    using s1 c inv unfolding handle_babroadcast_sync_def
    by (simp add: Let_def flip: vals_def s1_def)
qed

lemma ba_new_inv: "fault_num n = 1 \<Longrightarrow> num_honest n = 3 \<Longrightarrow> ba_inv {} (ba_new n nonce p)"
  by (simp add: ba_inv_def ba_new_def bv_inv_def bv_new_def bs_wf_cases definite_consts sent_aux_def)

lemma propose_inv: "ba_inv es s \<Longrightarrow> ba_inv es (ba_propose s b)"
proof (cases "can_propose s")
  case True
  assume "ba_inv es s"
  with True have "ba_inv es (s\<lparr>estimated := Some b, ba_broadcast := send_bval (ba_broadcast s) b\<rparr>)"
    by (auto simp: ba_inv_def can_propose_def bv_inv_send_bval)
  from sync_inv [OF this] True show ?thesis by (simp add: ba_propose_def can_propose_def)
qed (simp add: ba_propose_def)

text \<open>As long as the node has not decided, the coin is decided but no value waits for it.\<close>

lemma coin_sync_inv: "ba_inv es s \<Longrightarrow> decision s = None \<Longrightarrow> ba_inv es (coin_sync E s)"
  by (auto simp: coin_sync_def try_update_epoch_def ba_inv_def split: option.splits if_splits)

lemma content_inv:
  assumes inv: "ba_inv es s" and undecided: "decision s = None"
    and heard: "Receive source \<lparr>am_epoch = ba_epoch s, am_content = c\<rparr> \<in> es"
    and run: "handle_message_content E s source c = Some (s', d)"
  shows "ba_inv es s' \<and> d = decision s'"
proof -
  obtain k where k: "ba_coin s = Decided k" using ba_inv_coin [OF inv] .
  show ?thesis
  proof (cases c)
    case (BaBroadcast i m)
    with run obtain bv where bv: "bv_handle_message (ba_broadcast s) source m = Some bv"
      and s': "s' = handle_babroadcast_sync (s\<lparr>ba_broadcast := bv\<rparr>)" "d = decision s'"
      by (auto simp: handle_message_content_def handle_babroadcast_def bind_eq_Some_conv)
    have epoch: "ba_epoch s = 0"
      using inv bv by (auto simp: ba_inv_def bv_handle_message_def handle_bval_def handle_aux_def bind_eq_Some_conv
          split: if_splits bv_message.splits)
    with inv have bvi: "bv_inv es (ba_broadcast s)" by (simp add: ba_inv_def)
    have "bv_inv es bv"
    proof (cases m)
      case (BVAL j b)
      then have "source \<in> heard_bval es b" using heard epoch BaBroadcast by (auto simp: heard_bval_def)
      from handle_bval_inv [OF bvi this] BVAL bv show ?thesis by (auto simp: bv_handle_message_def)
    next
      case (AUX j b)
      then have "source \<in> heard_aux es b" using heard epoch BaBroadcast by (auto simp: heard_aux_def)
      from handle_aux_inv [OF bvi this] AUX bv show ?thesis by (auto simp: bv_handle_message_def)
    qed
    with inv epoch undecided have "ba_inv es (s\<lparr>ba_broadcast := bv\<rparr>)" by (simp add: ba_inv_def)
    from sync_inv [OF this] epoch s' show ?thesis by simp
  next
    case (Conf name v)
    with run k have "s' = s\<lparr>conf_received := AList.update name v (conf_received s)\<rparr>" "d = decision s'"
      by (auto simp: handle_message_content_def handle_conf_def try_finish_conf_round_def Let_def split: if_splits)
    with inv show ?thesis by (auto simp: ba_inv_def split: if_splits)
  next
    case (Coin name v)
    with run k have "s' = coin_sync E s" "d = decision s'"
      by (auto simp: handle_message_content_def handle_coin_def)
    with inv undecided show ?thesis by (simp add: coin_sync_inv)
  qed (use run inv in \<open>auto simp: handle_message_content_def handle_signature_def ba_inv_def\<close>)
qed

lemma aba_step_inv:
  assumes inv: "ba_inv es s" and step: "aba_step E s e = Some (s', d)"
  shows "ba_inv (insert e es) s'"
proof (cases e)
  case (Propose b)
  with step inv show ?thesis by (auto simp: aba_step_def Let_def intro: propose_inv ba_inv_mono)
next
  case (Receive source m)
  let ?es = "insert e es"
  from inv have inv': "ba_inv ?es s" by (auto intro: ba_inv_mono)
  show ?thesis
  proof (cases "decision s = None \<and> am_epoch m = ba_epoch s")
    case True
    then have "Receive source \<lparr>am_epoch = ba_epoch s, am_content = am_content m\<rparr> \<in> ?es"
      using Receive by (cases m) simp
    from content_inv [OF inv' _ this] True step Receive show ?thesis
      by (auto simp: aba_step_def ba_handle_message_def)
  next
    case False
    with step Receive inv' show ?thesis
      by (auto simp: aba_step_def ba_handle_message_def bind_eq_Some_conv Let_def split: if_splits)
        (auto simp: ba_inv_def)
  qed
qed

interpretation aba_node: evidence_handler "aba_step E" ba_inv for E
  by unfold_locales (rule aba_step_inv)

lemma aba_run_inv:
  assumes "fault_num n = 1" and "num_honest n = 3"
    and "run_handler (aba_step E) (ba_new n nonce p) evs = Some (s, outs)"
  shows "ba_inv (set evs) s"
  using aba_node.run_evidence [OF ba_new_inv [OF assms(1,2)] assms(3)] by simp


subsection \<open>Decisions\<close>

lemma ba_inv_decision:
  assumes "ba_inv es s" and "decision s = Some b"
  shows "ba_epoch s = 0 \<and> (\<exists>S A. bval_from (ba_broadcast s) b = Some S \<and> aux_from (ba_broadcast s) b = Some A \<and>
    S \<subseteq> heard_bval es b \<and> A \<subseteq> heard_aux es b \<and> 3 \<le> card S \<and> 3 \<le> card A)"
proof -
  from assms have inv: "bv_inv es (ba_broadcast s)" "bs_definite (bv_output (ba_broadcast s)) = Some b" "ba_epoch s = 0"
    by (auto simp: ba_inv_def split: if_splits)
  from inv(1) obtain S where S: "bval_from (ba_broadcast s) b = Some S" "S \<subseteq> heard_bval es b"
    "b \<in> bools (bin_values (ba_broadcast s)) \<longleftrightarrow> 3 \<le> card S" by (rule bv_inv_senders)
  moreover from inv(1,2) obtain A where "aux_from (ba_broadcast s) b = Some A" "A \<subseteq> heard_aux es b"
    "b \<in> bools (bin_values (ba_broadcast s))" "3 \<le> card A"
    unfolding bv_inv_def by meson
  ultimately show ?thesis using inv(3) by blast
qed

text \<open>
  A decision for a value is taken in the first epoch and rests on \<open>BVAL\<close> messages and on \<open>AUX\<close>
  messages for this value, of three different nodes each.
\<close>
theorem aba_decision_evidence:
  assumes "fault_num n = 1" and "num_honest n = 3"
    and "run_handler (aba_step E) (ba_new n nonce p) evs = Some (s, outs)"
    and "decision s = Some b"
  shows "ba_epoch s = 0 \<and> (\<exists>S A. S \<subseteq> heard_bval (set evs) b \<and> A \<subseteq> heard_aux (set evs) b \<and> 3 \<le> card S \<and> 3 \<le> card A)"
  using ba_inv_decision [OF aba_run_inv [OF assms(1-3)] assms(4)] by blast

lemma quorums_meet:
  assumes "finite N" "card N = 4" "A \<subseteq> N" "B \<subseteq> N" "3 \<le> card A" "3 \<le> card B" "H \<subseteq> N" "card (N - H) \<le> 1"
  shows "\<exists>k \<in> H. k \<in> A \<and> k \<in> B"
proof (rule ccontr)
  assume "\<not> ?thesis"
  then have "A \<inter> B \<subseteq> N - H" using assms by auto
  then have "card (A \<inter> B) \<le> 1" using assms by (meson card_mono finite_Diff order_trans)
  moreover have "card (A \<union> B) + card (A \<inter> B) = card A + card B"
    using assms by (intro card_Un_Int [symmetric]) (auto intro: finite_subset)
  moreover have "card (A \<union> B) \<le> 4" using assms by (metis Un_least card_mono)
  ultimately show False using assms by linarith
qed

text \<open>
  The runs of the correct nodes \<open>honest\<close> of the network \<open>nodes\<close>: each starts anew and handles its
  events without a panic; what a node receives comes from one of the nodes; and an \<open>AUX\<close> that
  comes from a correct node is one that this node sent.
\<close>

definition aba_network ::
  "hb_ext \<Rightarrow> string set \<Rightarrow> string set \<Rightarrow> (string \<Rightarrow> network) \<Rightarrow> string \<Rightarrow> (string \<Rightarrow> aba_event list) \<Rightarrow>
   (string \<Rightarrow> binary_agreement) \<Rightarrow> bool" where
  "aba_network E nodes honest net p evs st \<longleftrightarrow>
     finite nodes \<and> card nodes = 4 \<and> honest \<subseteq> nodes \<and> card (nodes - honest) \<le> 1 \<and>
     (\<forall>i \<in> honest. fault_num (net i) = 1 \<and> num_honest (net i) = 3 \<and>
        (\<exists>outs nonce. run_handler (aba_step E) (ba_new (net i) nonce p) (evs i) = Some (st i, outs)) \<and>
        (\<forall>b. heard_aux (set (evs i)) b \<subseteq> nodes \<and>
             (\<forall>j \<in> honest \<inter> heard_aux (set (evs i)) b. b \<in> set (sent_aux (ba_broadcast (st j))))))"

lemma aba_network_inv: "aba_network E nodes honest net p evs st \<Longrightarrow> i \<in> honest \<Longrightarrow> ba_inv (set (evs i)) (st i)"
  unfolding aba_network_def by (blast intro: aba_run_inv)

lemma one_aux: "ba_inv es s \<Longrightarrow> a \<in> set (sent_aux (ba_broadcast s)) \<Longrightarrow> b \<in> set (sent_aux (ba_broadcast s)) \<Longrightarrow> a = b"
  by (cases "sent_aux (ba_broadcast s)") (auto simp: ba_inv_def bv_inv_def split: if_splits)

text \<open>
  C15. Agreement: in a network of four nodes with at most one faulty node, two correct nodes that decide
  decide the same value, whatever order their messages arrive in and whatever the coin messages say,
  as long as an \<open>AUX\<close> attributed to a correct node was sent by it.
\<close>
theorem aba_agreement:
  assumes net: "aba_network E nodes honest net p evs st"
    and "i \<in> honest" and "j \<in> honest"
    and "decision (st i) = Some a" and "decision (st j) = Some b"
  shows "a = b"
proof -
  note inv = aba_network_inv [OF net]
  from ba_inv_decision [OF inv assms(4)] assms(2) obtain A where A: "A \<subseteq> heard_aux (set (evs i)) a" "3 \<le> card A" by blast
  from ba_inv_decision [OF inv assms(5)] assms(3) obtain B where B: "B \<subseteq> heard_aux (set (evs j)) b" "3 \<le> card B" by blast
  have N: "finite nodes" "card nodes = 4" "honest \<subseteq> nodes" "card (nodes - honest) \<le> 1" "A \<subseteq> nodes" "B \<subseteq> nodes"
    using net A B assms(2,3) unfolding aba_network_def by blast+
  from quorums_meet [OF N(1,2,5,6) A(2) B(2) N(3,4)] obtain k where k: "k \<in> honest" "k \<in> A" "k \<in> B" by blast
  then have "a \<in> set (sent_aux (ba_broadcast (st k)))" "b \<in> set (sent_aux (ba_broadcast (st k)))"
    using net A B assms(2,3) unfolding aba_network_def by blast+
  with one_aux [OF inv [OF k(1)]] show ?thesis by blast
qed

subsection \<open>The second epoch\<close>

text \<open>Epochs only grow, and an undecided node in epoch 1 stays so.\<close>

lemma try_update_epoch_mono: "ba_epoch s \<le> ba_epoch (try_update_epoch s)"
  by (auto simp: try_update_epoch_def update_epoch_def decide_value_def Let_def split: option.splits)

lemma sync_epoch_mono: "ba_epoch s \<le> ba_epoch (handle_babroadcast_sync s)" "ba_epoch s \<le> ba_epoch (coin_sync E s)"
  using try_update_epoch_mono [of "s\<lparr>ba_bv_output := v, conf_values := c\<rparr>" for v c]
    try_update_epoch_mono [of "s\<lparr>conf_values := c\<rparr>" for c] try_update_epoch_mono [of "s\<lparr>ba_coin := k\<rparr>" for k]
  by (auto simp: handle_babroadcast_sync_def coin_sync_def send_conf_def ba_send_def Let_def split: coin_state.splits option.splits)

lemma aba_step_epoch:
  assumes inv: "ba_inv es s" and step: "aba_step E s e = Some (s', d)"
  shows "ba_epoch s \<le> ba_epoch s'"
proof -
  obtain k where k: "ba_coin s = Decided k" using ba_inv_coin [OF inv] .
  note mono = sync_epoch_mono(1) [of "s\<lparr>ba_broadcast := x\<rparr>" for x]
    sync_epoch_mono(1) [of "s\<lparr>estimated := y, ba_broadcast := x\<rparr>" for x y] sync_epoch_mono(2) [of s E]
  show ?thesis
  proof (cases e)
    case (Propose b)
    with step mono show ?thesis by (auto simp: aba_step_def ba_propose_def Let_def split: if_splits)
  next
    case (Receive source m)
    with step k mono show ?thesis
      by (cases "am_content m")
        (auto simp: aba_step_def ba_handle_message_def handle_message_content_def handle_babroadcast_def handle_conf_def
          try_finish_conf_round_def handle_coin_def handle_signature_def bind_eq_Some_conv Let_def split: if_splits)
  qed
qed

definition in_second_epoch :: "binary_agreement \<Rightarrow> bool" where
  "in_second_epoch s \<longleftrightarrow> ba_epoch s = 1 \<and> (\<exists>es. ba_inv es s)"

lemma in_second_epochD:
  assumes "in_second_epoch s"
  shows "decision s = None" "bval_from (ba_broadcast s) = Map.empty" "aux_from (ba_broadcast s) = Map.empty"
    "aba_step E s (Receive source \<lparr>am_epoch = 1, am_content = BaBroadcast i m\<rparr>) = None"
  using assms
  by (auto simp: in_second_epoch_def ba_inv_def aba_step_def ba_handle_message_def handle_message_content_def
      handle_babroadcast_def bv_handle_message_def handle_bval_def handle_aux_def split: bv_message.splits)

interpretation second_epoch: invariant_handler "aba_step E" in_second_epoch for E
proof unfold_locales
  fix s e s' d assume s: "in_second_epoch s" and step: "aba_step E s e = Some (s', d)"
  then obtain es where inv: "ba_inv es s" "ba_epoch s = 1" by (auto simp: in_second_epoch_def)
  note inv' = aba_step_inv [OF inv(1) step]
  from aba_step_epoch [OF inv(1) step] inv(2) have "1 \<le> ba_epoch s'" by simp
  with inv' have "ba_epoch s' = 1" by (auto simp: ba_inv_def split: if_splits)
  with inv' show "in_second_epoch s'" by (auto simp: in_second_epoch_def)
qed

text \<open>The step in which the value broadcast of the first epoch has an output.\<close>

lemma output_step:
  assumes inv: "ba_inv es s" and s: "decision s = None" "ba_epoch s = 0"
    and bv: "bv_handle_message (ba_broadcast s) source m = Some bv" and out: "bv_output bv \<noteq> bs_NONE" "bs_wf (bv_output bv)"
  shows "\<exists>s'. aba_step E s (Receive source \<lparr>am_epoch = 0, am_content = BaBroadcast i m\<rparr>) = Some (s', decision s') \<and>
    (if bs_definite (bv_output bv) = coin_value (ba_coin s)
     then decision s' = coin_value (ba_coin s) else ba_epoch s' = 1 \<and> decision s' = None)"
proof -
  obtain k where k: "ba_coin s = Decided k" using ba_inv_coin [OF inv] .
  have conf: "conf_values s = None" using inv s by (simp add: ba_inv_def)
  have some: "bs_contains (bv_output bv) False \<or> bs_contains (bv_output bv) True"
    using out by (auto simp: bs_wf_cases bs_contains_def bs_from_def bs_consts)
  define s1 where "s1 = s\<lparr>ba_broadcast := bv, ba_bv_output := bv_output bv, conf_values := Some (bv_output bv)\<rparr>"
  have "handle_babroadcast_sync (s\<lparr>ba_broadcast := bv\<rparr>) = try_update_epoch s1"
    using some out k conf by (auto simp: handle_babroadcast_sync_def bv_get_output_def Let_def s1_def)
  then have "aba_step E s (Receive source \<lparr>am_epoch = 0, am_content = BaBroadcast i m\<rparr>) =
      Some (try_update_epoch s1, decision (try_update_epoch s1))"
    using s bv by (simp add: aba_step_def ba_handle_message_def handle_message_content_def handle_babroadcast_def)
  moreover have "if bs_definite (bv_output bv) = Some k then decision (try_update_epoch s1) = Some k
      else ba_epoch (try_update_epoch s1) = 1 \<and> decision (try_update_epoch s1) = None"
    using s k by (auto simp: try_update_epoch_def s1_def decide_value_def update_epoch_def Let_def)
  ultimately show ?thesis by (simp add: k)
qed

text \<open>
  C17. One epoch decides or none does. Let a node of a network of four, in any run from its start, be undecided in
  epoch 0, and let a \<open>BVAL\<close> or \<open>AUX\<close> message give its value broadcast an output. If the output is the coin's value
  alone, the node decides it. Otherwise it enters epoch 1 with empty tables of senders; from then on, whatever it
  handles, it stays in epoch 1 and undecided, and the first \<open>BVAL\<close> or \<open>AUX\<close> of that epoch is a panic.
\<close>

theorem second_epoch_is_dead:
  assumes "fault_num n = 1" and "num_honest n = 3"
    and "run_handler (aba_step E) (ba_new n nonce p) evs = Some (s, outs)"
    and "decision s = None" and "ba_epoch s = 0"
    and "bv_handle_message (ba_broadcast s) source m = Some bv" and "bv_output bv \<noteq> bs_NONE"
  shows "\<exists>s'. aba_step E s (Receive source \<lparr>am_epoch = 0, am_content = BaBroadcast i m\<rparr>) = Some (s', decision s') \<and>
    (if bs_definite (bv_output bv) = coin_value (ba_coin s) then decision s' = coin_value (ba_coin s)
     else ba_epoch s' = 1 \<and> bval_from (ba_broadcast s') = Map.empty \<and> aux_from (ba_broadcast s') = Map.empty \<and>
       (\<forall>evs2 t outs2. run_handler (aba_step E) s' evs2 = Some (t, outs2) \<longrightarrow>
          ba_epoch t = 1 \<and> decision t = None \<and>
          (\<forall>source i m. aba_step E t (Receive source \<lparr>am_epoch = 1, am_content = BaBroadcast i m\<rparr>) = None)))"
proof -
  let ?e = "Receive source \<lparr>am_epoch = 0, am_content = BaBroadcast i m\<rparr>"
  note inv = aba_run_inv [OF assms(1-3)]
  then have "bv_inv (set evs) (ba_broadcast s)" using assms(5) by (simp add: ba_inv_def)
  then have "bv_inv (insert ?e (set evs)) (ba_broadcast s)" by (rule bv_inv_mono) auto
  then have "bv_inv (insert ?e (set evs)) bv"
    using assms(6) handle_bval_inv handle_aux_inv
    by (cases m) (fastforce simp: bv_handle_message_def heard_bval_def heard_aux_def)+
  then have wf: "bs_wf (bv_output bv)" by (simp add: bv_inv_def)
  from output_step [OF inv assms(4-7) wf, of E i] obtain s' where
    step: "aba_step E s ?e = Some (s', decision s')" and res: "if bs_definite (bv_output bv) = coin_value (ba_coin s)
     then decision s' = coin_value (ba_coin s) else ba_epoch s' = 1 \<and> decision s' = None"
    by blast
  have dead: "in_second_epoch s'" if "ba_epoch s' = 1"
    using that aba_step_inv [OF inv step] by (auto simp: in_second_epoch_def)
  have "ba_epoch t = 1 \<and> decision t = None \<and>
      (\<forall>source i m. aba_step E t (Receive source \<lparr>am_epoch = 1, am_content = BaBroadcast i m\<rparr>) = None)"
    if "in_second_epoch s'" "run_handler (aba_step E) s' evs2 = Some (t, outs2)" for evs2 t outs2
    using in_second_epochD [OF second_epoch.run_inv [OF that]] second_epoch.run_inv [OF that]
    by (auto simp: in_second_epoch_def)
  with step res dead in_second_epochD(2,3) show ?thesis by (intro exI [of _ s']) auto
qed

subsection \<open>The deciding step\<close>

text \<open>
  A node in the first epoch whose bin value is \<open>b\<close> alone decides \<open>b\<close> on the third \<open>AUX(b)\<close>, when
  \<open>b\<close> is the coin of the epoch.
\<close>

lemma aux_quorum_decides:
  assumes "decision s = None" and "conf_values s = None" and "ba_coin s = Decided b"
    and "num_honest (bv_network (ba_broadcast s)) = 3" and "\<not> bv_terminated (ba_broadcast s)"
    and "bin_values (ba_broadcast s) = bs_from b"
    and "aux_from (ba_broadcast s) b = Some A" and "finite A" and "2 \<le> card A" and "source \<notin> A"
  shows "\<exists>s'. aba_step E s (Receive source \<lparr>am_epoch = ba_epoch s, am_content = BaBroadcast i (AUX j b)\<rparr>) = Some (s', Some b) \<and>
    decision s' = Some b \<and> ba_epoch s' = ba_epoch s"
proof -
  have iter: "bs_iter (bs_from b) = [b]" by (cases b) (simp_all add: bs_iter_set bs_from_def)
  have single: "fst (bs_insert bs_NONE b) = bs_from b" "bs_from b \<noteq> bs_NONE" "bs_definite (bs_from b) = Some b"
    "bs_contains (bs_from b) True \<or> bs_contains (bs_from b) False"
    by (cases b; simp add: bs_insert_def bs_from_def bs_consts bs_definite_def bs_contains_def)+
  have card: "\<not> card (insert source A) < 3" using assms by simp
  show ?thesis
    using assms(1-7,10) iter single card
    by (auto simp: aba_step_def ba_handle_message_def handle_message_content_def handle_babroadcast_def bv_handle_message_def
        handle_aux_def bv_try_output_def count_aux_def handle_babroadcast_sync_def bv_get_output_def Let_def
        try_update_epoch_def decide_value_def simp del: card_insert_disjoint)
qed

subsection \<open>Runs in which every value is true\<close>

definition true_event :: "aba_event \<Rightarrow> bool" where
  "true_event e \<longleftrightarrow> e = Propose True \<or>
     (\<exists>src i j. e = Receive src \<lparr>am_epoch = 0, am_content = BaBroadcast i (BVAL j True)\<rparr> \<or>
                e = Receive src \<lparr>am_epoch = 0, am_content = BaBroadcast i (AUX j True)\<rparr>)"

definition unanimous_inv :: "aba_event set \<Rightarrow> binary_agreement \<Rightarrow> bool" where
  "unanimous_inv es s \<longleftrightarrow> ba_epoch s = 0 \<and> (decision s = None \<or> decision s = Some True) \<and>
     (decision s = None \<longrightarrow>
        ba_coin s = Decided True \<and> conf_values s = None \<and>
        fault_num (bv_network (ba_broadcast s)) = 1 \<and> num_honest (bv_network (ba_broadcast s)) = 3 \<and>
        \<not> bv_terminated (ba_broadcast s) \<and> bv_output (ba_broadcast s) = bs_NONE \<and>
        bval_from (ba_broadcast s) True = Some (heard_bval es True) \<and> finite (heard_bval es True) \<and>
        aux_from (ba_broadcast s) True = Some (heard_aux es True) \<and> finite (heard_aux es True) \<and>
        bin_values (ba_broadcast s) = (if 3 \<le> card (heard_bval es True) then bs_TRUE else bs_NONE))"

lemma heard_insert:
  "heard_bval (insert (Receive src \<lparr>am_epoch = 0, am_content = BaBroadcast i (BVAL j b)\<rparr>) es) b = insert src (heard_bval es b)"
  "heard_aux (insert (Receive src \<lparr>am_epoch = 0, am_content = BaBroadcast i (BVAL j b)\<rparr>) es) c = heard_aux es c"
  "heard_aux (insert (Receive src \<lparr>am_epoch = 0, am_content = BaBroadcast i (AUX j b)\<rparr>) es) b = insert src (heard_aux es b)"
  "heard_bval (insert (Receive src \<lparr>am_epoch = 0, am_content = BaBroadcast i (AUX j b)\<rparr>) es) c = heard_bval es c"
  "heard_bval (insert (Propose d) es) c = heard_bval es c" "heard_aux (insert (Propose d) es) c = heard_aux es c"
  by (auto simp: heard_bval_def heard_aux_def)

lemma sync_none: "bv_output (ba_broadcast s) = bs_NONE \<Longrightarrow> handle_babroadcast_sync s = s"
  by (simp add: handle_babroadcast_sync_def bv_get_output_def bset.mem_empty)


lemma sync_decided:
  "decision s = Some b \<Longrightarrow> decision (handle_babroadcast_sync s) = Some b \<and> ba_epoch (handle_babroadcast_sync s) = ba_epoch s"
  by (simp add: handle_babroadcast_sync_def try_update_epoch_def send_conf_def ba_send_def Let_def split: coin_state.splits)

lemma aba_step_decided:
  "decision s = Some b \<Longrightarrow> \<exists>s' d. aba_step E s e = Some (s', d) \<and> decision s' = Some b \<and> ba_epoch s' = ba_epoch s"
  using sync_decided [of _ b]
  by (cases e) (auto simp: aba_step_def ba_handle_message_def ba_propose_def Let_def)

lemma unanimous_step:
  assumes inv: "unanimous_inv es s" and e: "true_event e"
  shows "\<exists>s' d. aba_step E s e = Some (s', d) \<and> unanimous_inv (insert e es) s'"
proof (cases "decision s = None")
  case False
  with inv have "decision s = Some True" "ba_epoch s = 0" by (auto simp: unanimous_inv_def)
  with aba_step_decided [of s True E e] show ?thesis by (auto simp: unanimous_inv_def)
next
  case True
  let ?bv = "ba_broadcast s"
  have none: "decision s = None" "ba_epoch s = 0" using True inv by (auto simp: unanimous_inv_def)
  have out: "bv_output ?bv = bs_NONE" "bval_from ?bv True = Some (heard_bval es True)" "finite (heard_bval es True)"
    "aux_from ?bv True = Some (heard_aux es True)" "finite (heard_aux es True)"
    "fault_num (bv_network ?bv) = 1" "num_honest (bv_network ?bv) = 3" "\<not> bv_terminated ?bv"
    "bin_values ?bv = (if 3 \<le> card (heard_bval es True) then bs_TRUE else bs_NONE)"
    "ba_coin s = Decided True" "conf_values s = None"
    using True inv by (auto simp: unanimous_inv_def)
  consider (propose) "e = Propose True"
    | (bval) src i j where "e = Receive src \<lparr>am_epoch = 0, am_content = BaBroadcast i (BVAL j True)\<rparr>"
    | (aux) src i j where "e = Receive src \<lparr>am_epoch = 0, am_content = BaBroadcast i (AUX j True)\<rparr>"
    using e unfolding true_event_def by blast
  then show ?thesis
  proof cases
    case propose
    with inv none out show ?thesis
      by (auto simp: aba_step_def ba_propose_def sync_none Let_def unanimous_inv_def heard_insert)
  next
    case bval
    have "\<exists>bv'. handle_bval ?bv src True = Some bv' \<and> unanimous_inv (insert e es) (s\<lparr>ba_broadcast := bv'\<rparr>) \<and> bv_output bv' = bs_NONE"
    proof (cases "src \<in> heard_bval es True")
      case True
      with inv bval out show ?thesis by (auto simp: handle_bval_def unanimous_inv_def heard_insert insert_absorb)
    next
      case False
      let ?S = "insert src (heard_bval es True)"
      let ?bv1 = "?bv\<lparr>bval_from := (bval_from ?bv)(True \<mapsto> ?S)\<rparr>"
      have ins: "fst (bs_insert bs_NONE True) = bs_TRUE" "bs_TRUE \<noteq> bs_BOTH"
        by (simp_all add: bs_insert_def bs_from_def bs_consts)
      consider (two) "card (heard_bval es True) = 2" | (one) "card (heard_bval es True) = 1"
        | (other) "card (heard_bval es True) \<noteq> 2" "card (heard_bval es True) \<noteq> 1" by blast
      then show ?thesis
      proof cases
        case two
        then have "handle_bval ?bv src True = Some (send_aux (?bv1\<lparr>bin_values := bs_TRUE\<rparr>) True)"
          using out False ins by (simp add: handle_bval_def)
        with two False bval none out show ?thesis by (simp add: unanimous_inv_def heard_insert)
      next
        case one
        then have "handle_bval ?bv src True = Some (send_bval ?bv1 True)"
          using out False by (simp add: handle_bval_def)
        with one False bval none out show ?thesis by (simp add: unanimous_inv_def heard_insert)
      next
        case other
        then have "handle_bval ?bv src True = Some ?bv1"
          using out False by (simp add: handle_bval_def)
        with other False bval none out show ?thesis by (auto simp: unanimous_inv_def heard_insert)
      qed
    qed
    with bval none show ?thesis
      by (auto simp: aba_step_def ba_handle_message_def handle_message_content_def handle_babroadcast_def
          bv_handle_message_def sync_none)
  next
    case aux
    show ?thesis
    proof (cases "src \<notin> heard_aux es True \<and> 2 \<le> card (heard_aux es True) \<and> 3 \<le> card (heard_bval es True)")
      case True
      with out have "bin_values ?bv = bs_from True" by (simp add: bs_from_def)
      from aux_quorum_decides [OF none(1) out(11,10,7,8) this out(4,5)] True obtain s' where
        "aba_step E s e = Some (s', Some True)" "decision s' = Some True" "ba_epoch s' = 0"
        unfolding aux none(2) by metis
      then show ?thesis by (auto simp: unanimous_inv_def)
    next
      case False
      let ?A = "insert src (heard_aux es True)"
      have iter: "bs_iter bs_TRUE = [True]" by (simp add: bs_iter_set)
      have "\<exists>bv'. handle_aux ?bv src True = Some bv' \<and> unanimous_inv (insert e es) (s\<lparr>ba_broadcast := bv'\<rparr>) \<and> bv_output bv' = bs_NONE"
      proof (cases "src \<in> heard_aux es True")
        case True
        with inv aux out show ?thesis by (auto simp: handle_aux_def unanimous_inv_def heard_insert insert_absorb)
      next
        case new: False
        with False out iter have "handle_aux ?bv src True = Some (?bv\<lparr>aux_from := (aux_from ?bv)(True \<mapsto> ?A)\<rparr>)"
          by (cases "3 \<le> card (heard_bval es True)") (simp_all add: handle_aux_def bv_try_output_def count_aux_def)
        with aux none out show ?thesis by (simp add: unanimous_inv_def heard_insert)
      qed
      with aux none show ?thesis
        by (auto simp: aba_step_def ba_handle_message_def handle_message_content_def handle_babroadcast_def
          bv_handle_message_def sync_none)
    qed
  qed
qed


lemma unanimous_run:
  "unanimous_inv es s \<Longrightarrow> \<forall>e \<in> set evs. true_event e \<Longrightarrow>
   \<exists>s' outs. run_handler (aba_step E) s evs = Some (s', outs) \<and> unanimous_inv (es \<union> set evs) s'"
proof (induction evs arbitrary: es s)
  case (Cons e evs)
  from unanimous_step [OF Cons.prems(1), of e E] Cons.prems(2) obtain s1 d where
    s1: "aba_step E s e = Some (s1, d)" "unanimous_inv (insert e es) s1" by auto
  with Cons.IH [OF s1(2)] Cons.prems(2) show ?case by auto
qed simp

text \<open>
  C16. Progress: a node that hears only \<open>true\<close>, with \<open>BVAL\<close> of three nodes and \<open>AUX\<close> of two in any
  order, and after these \<open>AUX\<close> of a third node, handles all of it without a panic and decides
  \<open>true\<close>.
\<close>
theorem unanimous_decides:
  assumes "fault_num n = 1" and "num_honest n = 3"
    and "\<forall>e \<in> set evs. true_event e"
    and "3 \<le> card (heard_bval (set evs) True)" and "2 \<le> card (heard_aux (set evs) True)"
    and "source \<notin> heard_aux (set evs) True"
  shows "\<exists>s outs. run_handler (aba_step E) (ba_new n nonce p)
      (evs @ [Receive source \<lparr>am_epoch = 0, am_content = BaBroadcast i (AUX j True)\<rparr>]) = Some (s, outs) \<and>
    decision s = Some True"
proof -
  let ?e = "Receive source \<lparr>am_epoch = 0, am_content = BaBroadcast i (AUX j True)\<rparr>"
  have "unanimous_inv {} (ba_new n nonce p)"
    using assms(1,2) by (simp add: unanimous_inv_def ba_new_def bv_new_def heard_bval_def heard_aux_def)
  from unanimous_run [OF this assms(3), of E] obtain s outs where
    run: "run_handler (aba_step E) (ba_new n nonce p) evs = Some (s, outs)" and inv: "unanimous_inv (set evs) s" by auto
  have "\<exists>s' d. aba_step E s ?e = Some (s', d) \<and> decision s' = Some True"
  proof (cases "decision s = None")
    case True
    with inv assms(4) have "bin_values (ba_broadcast s) = bs_from True" "ba_epoch s = 0"
      by (simp_all add: unanimous_inv_def bs_from_def)
    then show ?thesis
      using aux_quorum_decides [of s True "heard_aux (set evs) True" source E i j] True inv assms(5,6)
      unfolding unanimous_inv_def by auto
  next
    case False
    with inv have "decision s = Some True" by (auto simp: unanimous_inv_def)
    from aba_step_decided [OF this] show ?thesis by blast
  qed
  with run_handler_snoc [OF run] show ?thesis by blast
qed


subsection \<open>The order of the quorums\<close>

text \<open>
  The third \<open>BVAL(b)\<close> does not look at the \<open>AUX\<close> messages that are already there: when it comes
  after the three \<open>AUX(b)\<close> of the other nodes, the node has every message of the epoch and does
  not decide.
\<close>

definition aba_msg :: "string \<Rightarrow> bv_message \<Rightarrow> aba_event" where
  "aba_msg source m = Receive source \<lparr>am_epoch = 0, am_content = BaBroadcast source m\<rparr>"

theorem late_bval_never_decides:
  assumes "fault_num n = 1" and "num_honest n = 3" and "distinct [x, y, z]"
  shows "\<exists>s outs. run_handler (aba_step E) (ba_new n nonce p)
      (map (\<lambda>v. aba_msg v (AUX v True)) [x, y, z] @ map (\<lambda>v. aba_msg v (BVAL v True)) [x, y, z]) = Some (s, outs) \<and>
    bin_values (ba_broadcast s) = bs_TRUE \<and> aux_from (ba_broadcast s) True = Some {x, y, z} \<and> decision s = None"
proof -
  have ins: "fst (bs_insert bs_NONE True) = bs_TRUE" "bs_TRUE \<noteq> bs_BOTH"
    by (simp_all add: bs_insert_def bs_from_def bs_consts)
  show ?thesis
    using assms ins
    by (auto simp: aba_msg_def aba_step_def ba_handle_message_def handle_message_content_def handle_babroadcast_def
        bv_handle_message_def handle_aux_def handle_bval_def bv_try_output_def ba_new_def bv_new_def sync_none)
qed

subsection \<open>A concrete network\<close>

definition demo_net :: network where
  "demo_net = \<lparr>nw_id = ''a'', nw_connected_nodes = [], peer_num = 4, fault_num = 1, nw_is_consensus_node = True,
     secret_key_share = None, public_key_share = None, public_key_shares = Map.empty, public_key_set = None\<rparr>"

definition demo_ext :: hb_ext where
  "demo_ext = \<lparr>tc_public_key_share = (\<lambda>k i. k), tc_public_key = (\<lambda>k. k), tc_sign = (\<lambda>k m. m),
     tc_verify_share = (\<lambda>k s m. s = m), tc_verify = (\<lambda>k s m. s = m),
     tc_combine_signatures = (\<lambda>k sh. Some (as_bytes ''coin'')), tc_parity = (\<lambda>s. False)\<rparr>"

definition demo_events :: "aba_event list" where
  "demo_events = Propose True # map (\<lambda>v. aba_msg v (BVAL v True)) [''a'', ''b'', ''c''] @
     map (\<lambda>v. aba_msg v (AUX v True)) [''a'', ''b'']"

definition demo_run :: "(binary_agreement \<times> bool option list) option" where
  "demo_run = run_handler (aba_step demo_ext) (ba_new demo_net 1 ''a'') (demo_events @ [aba_msg ''c'' (AUX ''c'' True)])"

definition demo_state :: binary_agreement where
  "demo_state = fst (the demo_run)"

lemma demo_net_size: "fault_num demo_net = 1" "num_honest demo_net = 3"
  by (simp_all add: demo_net_def num_honest_def)

lemma demo_state_facts:
  "demo_run \<noteq> None" "decision demo_state = Some True" "sent_aux (ba_broadcast demo_state) = [True]"
  by code_simp+

lemma demo_state_run: "\<exists>outs. run_handler (aba_step demo_ext) (ba_new demo_net 1 ''a'') (demo_events @ [aba_msg ''c'' (AUX ''c'' True)]) = Some (demo_state, outs)"
  using demo_state_facts(1) by (auto simp: demo_state_def demo_run_def)

lemma demo_heard:
  "heard_bval (set demo_events) True = {''a'', ''b'', ''c''}" "heard_aux (set demo_events) True = {''a'', ''b''}"
  by (auto simp: demo_events_def aba_msg_def heard_insert heard_bval_def [of "{}"] heard_aux_def [of "{}"])

lemma demo_heard_all:
  "x \<in> heard_aux (set (demo_events @ [aba_msg ''c'' (AUX ''c'' True)])) b \<Longrightarrow> b \<and> x \<in> {''a'', ''b'', ''c''}"
  by (auto simp: demo_events_def heard_aux_def aba_msg_def)

theorem aba_decision_evidence_witness:
  "\<exists>S. S \<subseteq> heard_bval (set (demo_events @ [aba_msg ''c'' (AUX ''c'' True)])) True \<and> 3 \<le> card S"
proof -
  obtain outs where "run_handler (aba_step demo_ext) (ba_new demo_net 1 ''a'') (demo_events @ [aba_msg ''c'' (AUX ''c'' True)]) = Some (demo_state, outs)"
    using demo_state_run by blast
  from aba_decision_evidence [OF demo_net_size this demo_state_facts(2)] show ?thesis by blast
qed

theorem aba_agreement_witness:
  "aba_network demo_ext {''a'', ''b'', ''c'', ''d''} {''a'', ''b'', ''c'', ''d''} (\<lambda>_. demo_net) ''a''
     (\<lambda>_. demo_events @ [aba_msg ''c'' (AUX ''c'' True)]) (\<lambda>_. demo_state) \<and> the (decision demo_state) = True"
proof -
  have net: "aba_network demo_ext {''a'', ''b'', ''c'', ''d''} {''a'', ''b'', ''c'', ''d''} (\<lambda>_. demo_net) ''a''
      (\<lambda>_. demo_events @ [aba_msg ''c'' (AUX ''c'' True)]) (\<lambda>_. demo_state)"
  proof -
    have "finite {''a'', ''b'', ''c'', ''d''}" "card {''a'', ''b'', ''c'', ''d''} = 4" by simp_all
    moreover have "heard_aux (set (demo_events @ [aba_msg ''c'' (AUX ''c'' True)])) b \<subseteq> {''a'', ''b'', ''c'', ''d''}" for b
      using demo_heard_all by blast
    moreover have "b \<in> set (sent_aux (ba_broadcast demo_state))"
      if "x \<in> heard_aux (set (demo_events @ [aba_msg ''c'' (AUX ''c'' True)])) b" for x b
      using demo_heard_all [OF that] by (simp add: demo_state_facts(3))
    ultimately show ?thesis
      unfolding aba_network_def using demo_state_run demo_net_size by (metis IntD2 Diff_cancel card.empty order_refl zero_le)
  qed
  with aba_agreement [OF net, of "''a''" "''b''"] demo_state_facts(2) show ?thesis by simp
qed

theorem unanimous_decides_witness:
  "\<exists>s outs. run_handler (aba_step demo_ext) (ba_new demo_net 1 ''a'')
     (demo_events @ [Receive ''c'' \<lparr>am_epoch = 0, am_content = BaBroadcast ''c'' (AUX ''c'' True)\<rparr>]) = Some (s, outs) \<and>
   decision s = Some True"
  by (rule unanimous_decides [OF demo_net_size])
    (auto simp: demo_heard, auto simp: demo_events_def true_event_def aba_msg_def)

theorem late_bval_never_decides_witness:
  "\<exists>s outs. run_handler (aba_step demo_ext) (ba_new demo_net 1 ''a'')
      (map (\<lambda>v. aba_msg v (AUX v True)) [''b'', ''c'', ''d''] @ map (\<lambda>v. aba_msg v (BVAL v True)) [''b'', ''c'', ''d'']) = Some (s, outs) \<and>
    decision s = None"
  using late_bval_never_decides [OF demo_net_size, of "''b''" "''c''" "''d''" demo_ext 1 "''a''"] by auto

text \<open>A node with three \<open>BVAL\<close> and two \<open>AUX\<close> that are \<open>false\<close>: the third \<open>AUX\<close> takes it to epoch 1.\<close>

definition false_run :: "(binary_agreement \<times> bool option list) option" where
  "false_run = run_handler (aba_step demo_ext) (ba_new demo_net 1 ''a'')
     (map (\<lambda>v. aba_msg v (BVAL v False)) [''a'', ''b'', ''c''] @ map (\<lambda>v. aba_msg v (AUX v False)) [''a'', ''b''])"

definition false_output :: "bv_broadcast option" where
  "false_output = bv_handle_message (ba_broadcast (fst (the false_run))) ''c'' (AUX ''c'' False)"

lemma false_run_facts:
  "false_run \<noteq> None" "decision (fst (the false_run)) = None" "ba_epoch (fst (the false_run)) = 0"
  "false_output \<noteq> None" "bv_output (the false_output) \<noteq> bs_NONE"
  "bs_definite (bv_output (the false_output)) \<noteq> coin_value (ba_coin (fst (the false_run)))"
  by code_simp+

theorem second_epoch_is_dead_witness:
  "\<exists>s'. aba_step demo_ext (fst (the false_run)) (aba_msg ''c'' (AUX ''c'' False)) = Some (s', decision s') \<and>
    ba_epoch s' = 1 \<and> bval_from (ba_broadcast s') = Map.empty \<and>
    aba_step demo_ext s' (Receive ''b'' \<lparr>am_epoch = 1, am_content = BaBroadcast ''b'' (BVAL ''b'' False)\<rparr>) = None"
proof -
  obtain s outs where r: "false_run = Some (s, outs)" using false_run_facts(1) by auto
  obtain bv where o: "false_output = Some bv" using false_run_facts(4) by auto
  note facts = false_run_facts(2,3,5,6) [unfolded r o option.sel fst_conv]
  from second_epoch_is_dead [OF demo_net_size r [unfolded false_run_def] facts(1,2)
      o [unfolded false_output_def r option.sel fst_conv] facts(3), of "''c''"] facts(4)
  obtain s' where "aba_step demo_ext s (aba_msg ''c'' (AUX ''c'' False)) = Some (s', decision s')" "ba_epoch s' = 1"
    "bval_from (ba_broadcast s') = Map.empty"
    and dead: "\<forall>evs2 t outs2. run_handler (aba_step demo_ext) s' evs2 = Some (t, outs2) \<longrightarrow>
      (\<forall>source i m. aba_step demo_ext t (Receive source \<lparr>am_epoch = 1, am_content = BaBroadcast i m\<rparr>) = None)"
    by (auto simp: aba_msg_def)
  moreover from dead [rule_format, of "[]" s' "[]"] have
    "aba_step demo_ext s' (Receive ''b'' \<lparr>am_epoch = 1, am_content = BaBroadcast ''b'' (BVAL ''b'' False)\<rparr>) = None" by simp
  ultimately show ?thesis by (auto simp: r)
qed

end
