(* ===== verification/HB_Broadcast_Properties.thy ===== *)
theory HB_Broadcast_Properties
  imports HB_Broadcast
begin

text \<open>
  Properties of HoneyBadger's reliable broadcast: what was split into shards is decoded again
  (round trip), the payload length survives the frame, a node sends one \<open>Ready\<close> for a proposer,
  it delivers only after a quorum of \<open>Ready\<close>, and a single peer can produce the quorum of echoes.
\<close>

subsection \<open>Framing\<close>

lemma write_u32_list:
  "write_u32 w = [ucast (drop_bit 24 w), ucast (drop_bit 16 w), ucast (drop_bit 8 w), ucast w]"
  by (simp add: write_u32_def upt_rec numeral_eq_Suc)

lemma read_write_u32:
  "read_u32 (ucast (drop_bit 24 w)) (ucast (drop_bit 16 w)) (ucast (drop_bit 8 w)) (ucast w) = w"
  unfolding read_u32_def
proof (rule bit_word_eqI)
  fix n assume "n < LENGTH(32)"
  then consider "24 \<le> n" "n < 32" | "16 \<le> n" "n < 24" | "8 \<le> n" "n < 16" | "n < 8" by fastforce
  then show "bit ((push_bit 24 (ucast (ucast (drop_bit 24 w) :: u8)) :: 32 word) OR push_bit 16 (ucast (ucast (drop_bit 16 w) :: u8)) OR
      push_bit 8 (ucast (ucast (drop_bit 8 w) :: u8)) OR ucast (ucast w :: u8)) n = bit w n"
    by cases (auto simp: bit_simps)
qed

lemma chunks_take: "n \<noteq> 0 \<Longrightarrow> concat (take k (chunks n xs)) = take (k * n) xs"
proof (induction k arbitrary: xs)
  case (Suc k)
  show ?case
    by (subst chunks.simps) (auto simp: Suc take_add)
qed simp

lemma length_chunks:
  "n \<noteq> 0 \<Longrightarrow> length xs = k * n \<Longrightarrow> length (chunks n xs) = k \<and> (\<forall>c \<in> set (chunks n xs). length c = n)"
proof (induction k arbitrary: xs)
  case 0
  then show ?case by (simp add: chunks.simps)
next
  case (Suc k)
  then have "xs \<noteq> []" by auto
  moreover from Suc.prems have "length (drop n xs) = k * n" by simp
  note rest = Suc.IH [OF Suc.prems(1) this]
  ultimately show ?case using Suc.prems by (subst (1 2) chunks.simps) (simp add: rest)
qed


subsection \<open>Round trip\<close>

text \<open>
  The shards that a code for \<open>d\<close> data and \<open>p\<close> parity shards accepts, as documented: \<open>d\<close> and \<open>p\<close>
  positive with at most 256 shards in all (\<open>TooFewDataShards\<close>, \<open>TooFewParityShards\<close>,
  \<open>TooManyShards\<close>), as many shards as that (\<open>TooFewShards\<close>, \<open>TooManyShards\<close>), none empty
  (\<open>EmptyShard\<close>), all of the same length (\<open>IncorrectShardSize\<close>).
\<close>

definition shards_accepted :: "nat \<Rightarrow> nat \<Rightarrow> bytes list \<Rightarrow> bool" where
  "shards_accepted d p xs \<longleftrightarrow> 0 < d \<and> 0 < p \<and> d + p \<le> 256 \<and> length xs = d + p \<and>
     hd xs \<noteq> [] \<and> (\<forall>x \<in> set xs. length x = length (hd xs))"

text \<open>
  The documented behaviour of the code that the broadcast relies on: encoding accepted shards gives
  accepted shards of the same length with the data shards as they were, and reconstruction changes
  nothing when no shard is missing; both return an error for other shards.
\<close>

definition systematic_code :: "rb_ext \<Rightarrow> bool" where
  "systematic_code E \<longleftrightarrow> (\<forall>d p xs.
     if shards_accepted d p xs
     then (\<exists>ys. rs_encode E d p xs = Some ys \<and> shards_accepted d p ys \<and> take d ys = take d xs) \<and>
       rs_reconstruct E d p (map Some xs) = Some (map Some xs)
     else rs_encode E d p xs = None \<and> rs_reconstruct E d p (map Some xs) = None)"

lemma systematic_codeD:
  assumes "systematic_code E" and "shards_accepted d p xs"
  shows "\<exists>ys. rs_encode E d p xs = Some ys \<and> shards_accepted d p ys \<and> take d ys = take d xs"
    and "rs_reconstruct E d p (map Some xs) = Some (map Some xs)"
  using assms unfolding systematic_code_def by metis+

lemma ceil_div_le: "0 < n \<Longrightarrow> a \<le> n * ((a + n - 1) div n)" for n :: nat
proof -
  assume n: "0 < n"
  define m where "m = a + n - 1"
  have "n * (m div n) + m mod n = m" by simp
  moreover have "m mod n < n" using n by simp
  ultimately have "a \<le> n * (m div n)" using n unfolding m_def by linarith
  then show ?thesis by (simp add: m_def)
qed

lemma take_resize: "length f \<le> m \<Longrightarrow> m \<le> n \<Longrightarrow> take m (resize n x f) = f @ replicate (m - length f) x"
  by (simp add: resize_def min_def)

lemma framed_shards_data:
  assumes "data_shard_count c = Suc d"
  shows "\<exists>pad. concat (take (data_shard_count c) (framed_shards c value)) = write_u32 (of_nat (length value)) @ value @ pad"
    and "0 < parity_shard_count c \<Longrightarrow> data_shard_count c + parity_shard_count c \<le> 256 \<Longrightarrow>
      shards_accepted (data_shard_count c) (parity_shard_count c) (framed_shards c value)"
proof -
  let ?f = "write_u32 (of_nat (length value)) @ value"
  let ?n = "data_shard_count c" and ?k = "data_shard_count c + parity_shard_count c"
  define l where "l = (length ?f + ?n - 1) div ?n"
  let ?xs = "resize (l * ?k) 0 ?f"
  have frame: "framed_shards c value = chunks l ?xs" by (simp add: framed_shards_def l_def Let_def)
  have "4 \<le> length ?f" by (simp add: write_u32_list)
  then have l: "l \<noteq> 0" using assms by (auto simp: l_def div_eq_0_iff)
  have fits: "length ?f \<le> ?n * l"
    unfolding l_def by (rule ceil_div_le) (simp add: assms)
  moreover have "?n * l \<le> l * ?k" by (simp add: algebra_simps)
  ultimately have "take (?n * l) ?xs = ?f @ replicate (?n * l - length ?f) 0"
    by (rule take_resize)
  with chunks_take [OF l, of ?n ?xs] show "\<exists>pad. concat (take ?n (framed_shards c value)) = write_u32 (of_nat (length value)) @ value @ pad"
    unfolding frame by auto
  have "length ?xs = ?k * l" using fits by (simp add: resize_def algebra_simps)
  from length_chunks [OF l this] have len: "length (framed_shards c value) = ?k"
      "\<forall>x \<in> set (framed_shards c value). length x = l" unfolding frame by auto
  then have "framed_shards c value \<noteq> []" using assms by auto
  then have "length (hd (framed_shards c value)) = l" using len(2) by simp
  with len l show "shards_accepted ?n (parity_shard_count c) (framed_shards c value)"
    if "0 < parity_shard_count c" "?k \<le> 256"
    using that assms unfolding shards_accepted_def by auto
qed

text \<open>
  C20. What a proposer frames with its length, splits into shards and encodes, a node that has all shards
  decodes to the same bytes, for every payload shorter than \<open>2 ^ 32\<close> and every code with positive numbers of data
  and parity shards and at most 256 shards in all. In particular the shards that the proposer makes are never
  refused by the encoder: there are as many as the code has, none is empty and all have the same length.
\<close>
theorem broadcast_roundtrip:
  assumes code: "systematic_code E" and c: "rb_coding s = ReedSolomon d p" and d: "0 < d" "0 < p" "d + p \<le> 256"
    and len: "length value < 2 ^ 32"
  shows "\<exists>shards. coding_encode E (rb_coding s) (framed_shards (rb_coding s) value) = Some shards \<and>
    decode_from_shards E s (map Some shards) = Some (Some value)"
proof -
  obtain k where k: "data_shard_count (rb_coding s) = Suc k" using c d by (cases d) auto
  note frame = framed_shards_data [OF k, of "value"]
  have "shards_accepted d p (framed_shards (rb_coding s) value)" using frame(2) c d by simp
  from systematic_codeD(1) [OF code this] obtain shards where
    enc: "rs_encode E d p (framed_shards (rb_coding s) value) = Some shards"
    and shards: "shards_accepted d p shards" "take d shards = take d (framed_shards (rb_coding s) value)" by blast
  from systematic_codeD(2) [OF code shards(1)] have rec: "rs_reconstruct E d p (map Some shards) = Some (map Some shards)" .
  have "shards \<noteq> []" using shards(1) d by (auto simp: shards_accepted_def)
  then obtain t where t: "from_vec (sha3_256 E) shards = Some t" "mt_values t = shards"
    using from_vec_nonempty [of shards "sha3_256 E"] by (auto simp: from_vec_Some)
  from frame(1) c shards(2) obtain pad where "concat (take d shards) = write_u32 (of_nat (length value)) @ value @ pad" by auto
  moreover have "unat (of_nat (length value) :: 32 word) = length value"
    using len by (simp add: unsigned_of_nat take_bit_nat_eq_self)
  moreover have "map the (filter (\<lambda>l. l \<noteq> None) (map Some shards)) = shards" by (simp add: filter_map o_def)
  ultimately have "decode_from_shards E s (map Some shards) = Some (Some value)"
    using c t rec by (simp add: decode_from_shards_def write_u32_list read_write_u32)
  with enc c show ?thesis by simp
qed


subsection \<open>Runs\<close>

text \<open>An event of a run: the external functions during the call, the sender and the message.\<close>

type_synonym rb_event = "rb_ext \<times> string \<times> rb_message"

definition rb_step :: "broadcast \<Rightarrow> rb_event \<Rightarrow> (broadcast \<times> bytes option) option" where
  "rb_step s ev = (case ev of (E, source, m) \<Rightarrow> rb_handle_message E s source m)"

lemma rb_step_cases:
  assumes "rb_step s (E, source, m) = Some (s', out)"
  obtains (echo) name e where "m = Echo name e" "rb_handle_echo E s name e = Some s'"
  | (ready) name r where "m = Ready name r" "handle_ready E s name source r = Some s'"
  | (val) name p where "m = Value name p" "s' = handle_value E s name p"
  | (other) "s' = s" "\<And>name r. m \<noteq> Ready name r"
  using assms by (cases m) (auto simp: rb_step_def rb_handle_message_def bind_eq_Some_conv)

lemma do_output_frame:
  assumes "do_output E s source h = Some s'"
  shows "rb_sent s' = rb_sent s" "ready_sent s' = ready_sent s" "readys s' = readys s" "echo_set s' = echo_set s"
    "can_decode s' = can_decode s" "fault_estimate s' = fault_estimate s"
  using assms by (auto simp: do_output_def bind_eq_Some_conv split: option.splits)

text \<open>A handled \<open>Ready\<close>: the state after the message is filed and answered, and the output.\<close>

lemma handle_echo_cases:
  assumes "rb_handle_echo E s source e = Some s'"
  obtains proofs where "echo_set s source = Some proofs"
    "echo_set s' = (echo_set s)(source \<mapsto> (if ec_proof e \<in> set proofs then proofs else proofs @ [ec_proof e]))"
    "readys s' = readys s" "fault_estimate s' = fault_estimate s" "rb_decided s' = rb_decided s"
    "can_decode s' = can_decode s \<or> can_decode s' = List.insert (pf_root_hash (ec_proof e)) (can_decode s) \<and>
       count_echos s' source (pf_root_hash (ec_proof e)) = Some (fault_estimate s + 1)"
    "rb_sent s' = rb_sent s \<and> ready_sent s' = ready_sent s \<or>
     ready_sent s source = Some False \<and> ready_sent s' = (ready_sent s)(source \<mapsto> True) \<and>
     (\<exists>x. rb_sent s' = rb_sent s @ [RbPacket source source (Ready source x)])"
proof -
  let ?h = "pf_root_hash (ec_proof e)"
  from assms obtain proofs where proofs: "echo_set s source = Some proofs"
    by (auto simp: rb_handle_echo_def bind_eq_Some_conv)
  define s1 where "s1 = s\<lparr>echo_set := (echo_set s)(source \<mapsto> (if ec_proof e \<in> set proofs then proofs else proofs @ [ec_proof e]))\<rparr>"
  obtain count where count: "count_echos s1 source ?h = Some count" by (simp add: count_echos_def s1_def)
  define s2 where "s2 = (if count = fault_estimate s + 1 then s1\<lparr>can_decode := List.insert ?h (can_decode s1)\<rparr> else s1)"
  have "rb_handle_echo E s source e = do {
     count \<leftarrow> count_echos s1 source ?h;
     let s2 = (if count = fault_estimate s + 1 then s1\<lparr>can_decode := List.insert ?h (can_decode s1)\<rparr> else s1);
     sent \<leftarrow> ready_sent s2 source;
     if \<not> sent \<and> count = 2 * fault_estimate s + 1 then
       Some (rb_send (s2\<lparr>ready_sent := (ready_sent s2)(source \<mapsto> True)\<rparr>)
         (RbPacket source source (Ready source \<lparr>rd_hash = ?h, rd_timestamp = now E, rd_nonce = rand_u8 E\<rparr>)))
     else Some s2
   }"
    unfolding rb_handle_echo_def s1_def Let_def using proofs by simp
  then have "rb_handle_echo E s source e = do {
     sent \<leftarrow> ready_sent s2 source;
     if \<not> sent \<and> count = 2 * fault_estimate s + 1 then
       Some (rb_send (s2\<lparr>ready_sent := (ready_sent s2)(source \<mapsto> True)\<rparr>)
         (RbPacket source source (Ready source \<lparr>rd_hash = ?h, rd_timestamp = now E, rd_nonce = rand_u8 E\<rparr>)))
     else Some s2
   }"
    unfolding count s2_def Let_def by simp
  moreover have "ready_sent s2 = ready_sent s" by (simp add: s2_def s1_def)
  ultimately obtain sent where sent: "ready_sent s source = Some sent" and
    s': "s' = (if \<not> sent \<and> count = 2 * fault_estimate s + 1
      then rb_send (s2\<lparr>ready_sent := (ready_sent s2)(source \<mapsto> True)\<rparr>)
        (RbPacket source source (Ready source \<lparr>rd_hash = ?h, rd_timestamp = now E, rd_nonce = rand_u8 E\<rparr>))
      else s2)"
    using assms by (cases "ready_sent s source") (auto split: if_splits)
  have s2: "echo_set s2 = echo_set s1" "readys s2 = readys s" "fault_estimate s2 = fault_estimate s"
    "rb_decided s2 = rb_decided s" "rb_sent s2 = rb_sent s" "ready_sent s2 = ready_sent s"
    "can_decode s2 = can_decode s \<or> can_decode s2 = List.insert ?h (can_decode s) \<and> count = fault_estimate s + 1"
    by (auto simp: s2_def s1_def)
  have "count_echos s' source ?h = Some count"
    using count s2(1) by (auto simp: s' count_echos_def rb_send_def)
  with s2 sent show ?thesis
    by (intro that [of proofs] proofs) (auto simp: s' rb_send_def s1_def)
qed

lemma handle_ready_cases:
  assumes "handle_ready E s source sender r = Some s'"
  obtains s2 where "readys s2 = AList.update sender (rd_hash r) (readys s)" "echo_set s2 = echo_set s"
    "can_decode s2 = can_decode s" "fault_estimate s2 = fault_estimate s" "rb_decided s2 = rb_decided s"
    "rb_sent s2 = rb_sent s \<and> ready_sent s2 = ready_sent s \<or>
     ready_sent s source = Some False \<and> ready_sent s2 = (ready_sent s)(source \<mapsto> True) \<and>
     (\<exists>x. rb_sent s2 = rb_sent s @ [RbPacket source source (Ready source x)])"
    "s' = s2 \<or> do_output E s2 source (rd_hash r) = Some s' \<and>
       count_readys s2 (rd_hash r) = 2 * fault_estimate s + 1 \<and> rd_hash r \<in> set (can_decode s)"
proof -
  let ?s1 = "s\<lparr>readys := AList.update sender (rd_hash r) (readys s)\<rparr>"
  from assms obtain sent where sent: "ready_sent s source = Some sent"
    by (auto simp: handle_ready_def bind_eq_Some_conv Let_def)
  define s2 where "s2 = (if \<not> sent \<and> count_readys ?s1 (rd_hash r) = fault_estimate s + 1
    then (rb_send ?s1 (RbPacket source source (Ready source
            \<lparr>rd_hash = rd_hash r, rd_timestamp = now E, rd_nonce = rand_u8 E\<rparr>)))
         \<lparr>ready_sent := (ready_sent ?s1)(source \<mapsto> True)\<rparr>
    else ?s1)"
  have "handle_ready E s source sender r =
      (if count_readys s2 (rd_hash r) = 2 * fault_estimate s + 1 \<and> rd_hash r \<in> set (can_decode s2)
       then do_output E s2 source (rd_hash r) else Some s2)"
    unfolding handle_ready_def s2_def Let_def using sent by simp
  with assms have "(if count_readys s2 (rd_hash r) = 2 * fault_estimate s + 1 \<and> rd_hash r \<in> set (can_decode s2)
       then do_output E s2 source (rd_hash r) else Some s2) = Some s'" by simp
  then show ?thesis
    using sent by (intro that [of s2]) (auto simp: s2_def rb_send_def split: if_splits)
qed

subsection \<open>One ready message\<close>

fun packet_ready :: "string \<Rightarrow> rb_packet \<Rightarrow> bool" where
  "packet_ready name (RbPacket p i m) = (case m of Ready n r \<Rightarrow> n = name | _ \<Rightarrow> False)"

definition readys_for :: "broadcast \<Rightarrow> string \<Rightarrow> nat" where
  "readys_for s name = length (filter (packet_ready name) (rb_sent s))"

definition ready_inv :: "broadcast \<Rightarrow> bool" where
  "ready_inv s \<longleftrightarrow> (\<forall>name. readys_for s name \<le> of_bool (ready_sent s name = Some True))"

lemma ready_inv_frame: "ready_inv s \<Longrightarrow> rb_sent s' = rb_sent s \<Longrightarrow> ready_sent s' = ready_sent s \<Longrightarrow> ready_inv s'"
  by (simp add: ready_inv_def readys_for_def)

lemma ready_inv_send:
  assumes "ready_inv s" and "ready_sent s source = Some False"
    and "rb_sent s' = rb_sent s @ [RbPacket p i (Ready source r)]" and "ready_sent s' = (ready_sent s)(source \<mapsto> True)"
  shows "ready_inv s'"
  unfolding ready_inv_def
proof
  fix name
  show "readys_for s' name \<le> of_bool (ready_sent s' name = Some True)"
  proof (cases "name = source")
    case True
    with assms(1,2) have "readys_for s name = 0" by (auto simp: ready_inv_def dest!: spec [of _ source])
    with True assms(3,4) show ?thesis by (simp add: readys_for_def)
  next
    case False
    with assms(1,3,4) show ?thesis by (auto simp: ready_inv_def readys_for_def dest!: spec [of _ name])
  qed
qed

lemma rb_step_ready_inv:
  assumes inv: "ready_inv s" and step: "rb_step s ev = Some (s', out)"
  shows "ready_inv s'"
proof -
  obtain E source m where ev: "ev = (E, source, m)" by (cases ev)
  from step ev have "rb_step s (E, source, m) = Some (s', out)" by simp
  then show ?thesis
  proof (cases rule: rb_step_cases)
    case (echo name e)
    from echo(2) show ?thesis
    proof (cases rule: handle_echo_cases)
      case (1 proofs)
      from 1(7) show ?thesis
        using inv ready_inv_frame [of s s'] ready_inv_send [of s name s'] by blast
    qed
  next
    case (ready name r)
    from ready(2) show ?thesis
    proof (cases rule: handle_ready_cases)
      case (1 s2)
      from 1(6) have "ready_inv s2"
        using inv ready_inv_frame [of s s2] ready_inv_send [of s name s2] by blast
      with 1(7) show ?thesis using do_output_frame ready_inv_frame by metis
    qed
  next
    case (val name p)
    with inv show ?thesis by (auto simp: handle_value_def rb_send_def ready_inv_def readys_for_def)
  qed (use inv in simp)
qed


lemma broadcast_new_Some: "broadcast_new E myid n = Some s \<Longrightarrow> s = broadcast_init myid n (ReedSolomon 2 2)"
  by (auto simp: broadcast_new_def coding_new_def split: if_splits)

lemma or_insert_empty:
  "\<forall>name ps. M name = Some ps \<longrightarrow> ps = [] \<Longrightarrow>
   \<forall>name ps. foldl (\<lambda>m p. or_insert m (snd p) []) M l name = Some ps \<longrightarrow> ps = []"
proof (induction l arbitrary: M)
  case (Cons a l)
  then have "\<forall>name ps. or_insert M (snd a) [] name = Some ps \<longrightarrow> ps = []" by (auto simp: or_insert_def split: option.splits)
  from Cons.IH [OF this] show ?case by simp
qed simp

lemma init_echo_set: "echo_set (broadcast_init myid n c) name = Some ps \<Longrightarrow> ps = []"
proof -
  let ?M = "[myid \<mapsto> []] :: string \<rightharpoonup> merkle_proof list"
  have "\<forall>name ps. ?M name = Some ps \<longrightarrow> ps = []" by (auto split: if_splits)
  then have "\<forall>name ps. foldl (\<lambda>m p. or_insert m (snd p) []) ?M (nw_connected_nodes n) name = Some ps \<longrightarrow> ps = []"
    by (rule or_insert_empty)
  then show "echo_set (broadcast_init myid n c) name = Some ps \<Longrightarrow> ps = []" unfolding broadcast_init_def by simp
qed

interpretation ready_once: invariant_handler rb_step ready_inv
  by unfold_locales (rule rb_step_ready_inv)

text \<open>
  A node sends at most one \<open>Ready\<close> per proposer, whether echoes or the \<open>Ready\<close> of others
  cause it.
\<close>
theorem ready_sent_once:
  assumes "broadcast_new E myid n = Some s0" and "run_handler rb_step s0 evs = Some (s, outs)"
  shows "readys_for s name \<le> 1"
proof -
  have "ready_inv s0" using broadcast_new_Some [OF assms(1)] by (simp add: ready_inv_def readys_for_def broadcast_init_def)
  from ready_once.run_inv [OF this assms(2)] have "ready_inv s" .
  then show ?thesis by (auto simp: ready_inv_def of_bool_def dest!: spec [of _ name] split: if_splits)
qed

subsection \<open>Delivery\<close>

definition readied :: "rb_event set \<Rightarrow> string \<Rightarrow> digest \<Rightarrow> bool" where
  "readied es sender h \<longleftrightarrow> (\<exists>E name r. (E, sender, Ready name r) \<in> es \<and> rd_hash r = h)"

definition echoed :: "rb_event set \<Rightarrow> string \<Rightarrow> merkle_proof \<Rightarrow> bool" where
  "echoed es name p \<longleftrightarrow> (\<exists>E sender e. (E, sender, Echo name e) \<in> es \<and> ec_proof e = p)"

definition echo_quorum :: "rb_event set \<Rightarrow> digest \<Rightarrow> bool" where
  "echo_quorum es h \<longleftrightarrow> (\<exists>name P. card P = 2 \<and> (\<forall>p \<in> P. echoed es name p \<and> pf_root_hash p = h))"

definition ready_quorum :: "rb_event set \<Rightarrow> digest \<Rightarrow> bool" where
  "ready_quorum es h \<longleftrightarrow> (\<exists>S. card S = 3 \<and> (\<forall>sender \<in> S. readied es sender h))"

definition delivery_inv :: "rb_event set \<Rightarrow> broadcast \<Rightarrow> bool" where
  "delivery_inv es s \<longleftrightarrow>
     fault_estimate s = 1 \<and> distinct (map fst (readys s)) \<and> (\<forall>(sender, h) \<in> set (readys s). readied es sender h) \<and>
     (\<forall>name ps. echo_set s name = Some ps \<longrightarrow> distinct ps \<and> (\<forall>p \<in> set ps. echoed es name p)) \<and>
     (\<forall>h \<in> set (can_decode s). echo_quorum es h) \<and>
     (rb_decided s \<longrightarrow> (\<exists>h. ready_quorum es h \<and> echo_quorum es h))"

lemma evidence_mono:
  "es \<subseteq> fs \<Longrightarrow> readied es x h \<Longrightarrow> readied fs x h" "es \<subseteq> fs \<Longrightarrow> echoed es x p \<Longrightarrow> echoed fs x p"
  "es \<subseteq> fs \<Longrightarrow> echo_quorum es h \<Longrightarrow> echo_quorum fs h" "es \<subseteq> fs \<Longrightarrow> ready_quorum es h \<Longrightarrow> ready_quorum fs h"
  unfolding readied_def echoed_def echo_quorum_def ready_quorum_def by blast+

lemma delivery_inv_mono: "delivery_inv es s \<Longrightarrow> es \<subseteq> fs \<Longrightarrow> delivery_inv fs s"
  unfolding delivery_inv_def using evidence_mono [of es fs] by (metis (mono_tags, lifting) case_prodD case_prodI2)

lemma counted_quorum:
  assumes "distinct (map fst (readys s))" and "\<forall>(sender, h) \<in> set (readys s). readied es sender h"
    and "count_readys s h = 3"
  shows "ready_quorum es h"
proof -
  let ?l = "filter (\<lambda>r. snd r = h) (readys s)"
  have "distinct (map fst ?l)" using assms(1) by (simp add: distinct_map_filter)
  then have "card (fst ` set ?l) = 3" using assms(3) distinct_card [of "map fst ?l"] by (simp add: count_readys_def)
  then show ?thesis using assms(2) unfolding ready_quorum_def
    by (intro exI [of _ "fst ` set ?l"]) auto
qed

lemma counted_echos:
  assumes "distinct ps" and "\<forall>p \<in> set ps. echoed es name p" and "length (filter (\<lambda>p. pf_root_hash p = h) ps) = 2"
  shows "echo_quorum es h"
  using assms distinct_card [of "filter (\<lambda>p. pf_root_hash p = h) ps"] unfolding echo_quorum_def
  by (intro exI [of _ name] exI [of _ "set (filter (\<lambda>p. pf_root_hash p = h) ps)"]) auto

lemma delivery_echo:
  assumes inv: "delivery_inv es s" and step: "rb_handle_echo E s name e = Some s'" and heard: "echoed es name (ec_proof e)"
  shows "delivery_inv es s'"
  using step
proof (cases rule: handle_echo_cases)
  case (1 proofs)
  have ps: "distinct ps \<and> (\<forall>p \<in> set ps. echoed es nm p)" if "echo_set s' nm = Some ps" for nm ps
    using that inv 1(1) heard unfolding 1(2) delivery_inv_def by (auto split: if_splits)
  have "echo_quorum es h" if h: "h \<in> set (can_decode s')" for h
  proof (cases "h \<in> set (can_decode s)")
    case True
    with inv show ?thesis by (simp add: delivery_inv_def)
  next
    case False
    with 1(6) h have *: "h = pf_root_hash (ec_proof e)" "count_echos s' name h = Some (fault_estimate s + 1)" by auto
    with inv obtain ps where "echo_set s' name = Some ps" "length (filter (\<lambda>p. pf_root_hash p = h) ps) = 2"
      by (auto simp: count_echos_def delivery_inv_def)
    with ps counted_echos show ?thesis by blast
  qed
  with inv ps 1(3-5) show ?thesis unfolding delivery_inv_def by simp
qed

lemma delivery_ready:
  assumes inv: "delivery_inv es s" and step: "handle_ready E s name sender r = Some s'" and heard: "readied es sender (rd_hash r)"
  shows "delivery_inv es s'"
  using step
proof (cases rule: handle_ready_cases)
  case (1 s2)
  have inv2: "delivery_inv es s2"
    using inv heard set_update_subset [of sender "rd_hash r" "readys s"]
    unfolding delivery_inv_def 1(1-5) by (auto simp: distinct_update)
  from 1(7) show ?thesis
  proof
    assume *: "do_output E s2 name (rd_hash r) = Some s' \<and>
       count_readys s2 (rd_hash r) = 2 * fault_estimate s + 1 \<and> rd_hash r \<in> set (can_decode s)"
    note frame = do_output_frame [OF conjunct1 [OF *]]
    have "ready_quorum es (rd_hash r)" "echo_quorum es (rd_hash r)"
      using inv inv2 * counted_quorum [of s2 es "rd_hash r"] by (auto simp: delivery_inv_def)
    with inv2 show ?thesis unfolding delivery_inv_def frame(3-6) by blast
  qed (use inv2 in simp)
qed

lemma rb_step_delivery:
  assumes inv: "delivery_inv es s" and step: "rb_step s ev = Some (s', out)"
  shows "delivery_inv (insert ev es) s'"
proof -
  obtain E source m where ev: "ev = (E, source, m)" by (cases ev)
  have inv': "delivery_inv (insert ev es) s" using inv by (rule delivery_inv_mono) auto
  from step ev have "rb_step s (E, source, m) = Some (s', out)" by simp
  then show ?thesis
  proof (cases rule: rb_step_cases)
    case (echo name e)
    then have "echoed (insert ev es) name (ec_proof e)" using ev by (auto simp: echoed_def)
    with echo inv' show ?thesis by (blast intro: delivery_echo)
  next
    case (ready name r)
    then have "readied (insert ev es) source (rd_hash r)" using ev by (auto simp: readied_def)
    with ready inv' show ?thesis by (blast intro: delivery_ready)
  next
    case (val name p)
    with inv' show ?thesis by (simp add: handle_value_def rb_send_def delivery_inv_def)
  qed (use inv' in simp)
qed

interpretation rbc_node: evidence_handler rb_step delivery_inv
  by unfold_locales (rule rb_step_delivery)

text \<open>
  C21. A node delivers a value only when three different nodes sent it \<open>Ready\<close> for one root hash, and
  two different proofs for that root were echoed, in every run of the broadcast.
\<close>
theorem delivery_needs_quorums:
  assumes "broadcast_new E myid n = Some s0" and "fault_num n = 1"
    and "run_handler rb_step s0 evs = Some (s, outs)" and "rb_get_output s = Some v"
  shows "\<exists>h. ready_quorum (set evs) h \<and> echo_quorum (set evs) h"
proof -
  have "delivery_inv {} s0"
    using assms(2) init_echo_set unfolding broadcast_new_Some [OF assms(1)] delivery_inv_def
    by (fastforce simp: broadcast_init_def)
  from rbc_node.run_evidence [OF this assms(3)] have "delivery_inv (set evs) s" by simp
  with assms(4) show ?thesis by (auto simp: delivery_inv_def rb_get_output_def split: if_splits)
qed


subsection \<open>Echoes of one peer\<close>

text \<open>
  Echoes are counted as different proofs, not as different senders, and the result of their
  validation is not used: three echoes of one peer, with any three proofs that name the same root,
  make the node declare the root decodable and send its \<open>Ready\<close>.
\<close>

lemma or_insert_keeps: "M k = Some v \<Longrightarrow> foldl (\<lambda>m p. or_insert m (snd p) w) M l k = Some v"
proof (induction l arbitrary: M)
  case (Cons a l)
  then have "or_insert M (snd a) w k = Some v" by (auto simp: or_insert_def split: option.splits)
  from Cons.IH [of "or_insert M (snd a) w", OF this] show ?case by simp
qed simp

theorem one_peer_fakes_echoes:
  assumes "broadcast_new E myid n = Some s0" and "fault_num n = 1"
    and "distinct [p1, p2, p3]" and "\<forall>p \<in> {p1, p2, p3}. pf_root_hash p = h"
  shows "\<exists>s outs. run_handler rb_step s0
      (map (\<lambda>p. (E, x, Echo myid \<lparr>ec_proof = p, ec_timestamp = t, ec_nonce = r\<rparr>)) [p1, p2, p3]) = Some (s, outs) \<and>
    readys_for s myid = 1 \<and> h \<in> set (can_decode s)"
proof -
  have s0: "echo_set s0 myid = Some []" "ready_sent s0 myid = Some False" "fault_estimate s0 = 1" "can_decode s0 = []" "rb_sent s0 = []"
    using assms(2) broadcast_new_Some [OF assms(1)] or_insert_keeps [of "[myid \<mapsto> []]" myid "[]" "[]" "nw_connected_nodes n"]
      or_insert_keeps [of "[myid \<mapsto> False]" myid False False "nw_connected_nodes n"]
    by (simp_all add: broadcast_init_def)
  show ?thesis
    using s0 assms(3,4) by (auto simp: rb_step_def rb_handle_message_def rb_handle_echo_def count_echos_def rb_send_def readys_for_def Let_def)
qed


subsection \<open>A concrete code\<close>

text \<open>
  A code that leaves the shards as they are, and reconstructs when none is missing, stands for
  the Reed-Solomon code in the witnesses.
\<close>

definition demo_rb :: rb_ext where
  "demo_rb = \<lparr>sha3_256 = demo_sha, rs_new_ok = (\<lambda>d p. True), rs_encode = (\<lambda>d p xs. if shards_accepted d p xs then Some xs else None),
     rs_reconstruct = (\<lambda>d p ys. if None \<notin> set ys \<and> shards_accepted d p (map the ys) then Some ys else None),
     hm_iter = (\<lambda>l. l), hs_iter = (\<lambda>l. l), now = 0, rand_u8 = 0\<rparr>"

definition demo_rb_net :: network where
  "demo_rb_net = \<lparr>nw_id = ''a'', nw_connected_nodes = [(0, ''a''), (1, ''b''), (2, ''c''), (3, ''d'')], peer_num = 4, fault_num = 1,
     nw_is_consensus_node = True, secret_key_share = None, public_key_share = None, public_key_shares = Map.empty,
     public_key_set = None\<rparr>"

definition demo_bc :: broadcast where
  "demo_bc = broadcast_init ''a'' demo_rb_net (ReedSolomon 2 2)"

lemma demo_bc_new: "broadcast_new demo_rb ''a'' demo_rb_net = Some demo_bc" "fault_num demo_rb_net = 1"
  by (simp_all add: broadcast_new_def coding_new_def demo_rb_def demo_bc_def demo_rb_net_def)

lemma demo_code: "systematic_code demo_rb"
  by (auto simp: systematic_code_def demo_rb_def o_def)

theorem broadcast_roundtrip_witness:
  "\<exists>shards. coding_encode demo_rb (rb_coding demo_bc) (framed_shards (rb_coding demo_bc) simulated_input) = Some shards \<and>
     decode_from_shards demo_rb demo_bc (map Some shards) = Some (Some simulated_input)"
  by (rule broadcast_roundtrip [OF demo_code, of _ 2 2])
    (simp_all add: demo_bc_def broadcast_init_def simulated_input_def)

text \<open>The node receives the four echoes of its own value and three \<open>Ready\<close>, and delivers.\<close>

definition demo_shards :: "bytes list" where
  "demo_shards = framed_shards (ReedSolomon 2 2) simulated_input"

definition demo_root :: digest where
  "demo_root = mt_root_hash (the (from_vec demo_sha demo_shards))"

definition demo_rb_events :: "rb_event list" where
  "demo_rb_events =
     map (\<lambda>i. (demo_rb, ''b'', Echo ''a'' \<lparr>ec_proof = the (merkle_proof_of (the (from_vec demo_sha demo_shards)) i),
                ec_timestamp = 0, ec_nonce = 0\<rparr>)) [0, 1, 2, 3] @
     map (\<lambda>x. (demo_rb, x, Ready ''a'' \<lparr>rd_hash = demo_root, rd_timestamp = 0, rd_nonce = 0\<rparr>)) [''b'', ''c'', ''d'']"

definition demo_rb_run :: "(broadcast \<times> bytes option list) option" where
  "demo_rb_run = run_handler rb_step demo_bc demo_rb_events"

lemma demo_rb_run_output:
  "demo_rb_run \<noteq> None" "rb_get_output (fst (the demo_rb_run)) = Some simulated_input"
  by code_simp+

lemma demo_rb_run_Some: "run_handler rb_step demo_bc demo_rb_events = Some (fst (the demo_rb_run), snd (the demo_rb_run))"
  using demo_rb_run_output(1) by (auto simp: demo_rb_run_def)

theorem ready_sent_once_witness: "readys_for (fst (the demo_rb_run)) ''a'' \<le> 1"
  by (rule ready_sent_once [OF demo_bc_new(1) demo_rb_run_Some])

theorem delivery_needs_quorums_witness: "\<exists>h. ready_quorum (set demo_rb_events) h \<and> echo_quorum (set demo_rb_events) h"
  by (rule delivery_needs_quorums [OF demo_bc_new demo_rb_run_Some demo_rb_run_output(2)])

definition demo_forged :: "nat \<Rightarrow> merkle_proof" where
  "demo_forged i = \<lparr>pf_value = [], pf_index = i, pf_digests = [], pf_root_hash = replicate 32 0\<rparr>"

theorem one_peer_fakes_echoes_witness:
  "\<exists>s outs. run_handler rb_step demo_bc
      (map (\<lambda>p. (demo_rb, ''b'', Echo ''a'' \<lparr>ec_proof = p, ec_timestamp = 0, ec_nonce = 0\<rparr>)) [demo_forged 0, demo_forged 1, demo_forged 2])
      = Some (s, outs) \<and> readys_for s ''a'' = 1 \<and> replicate 32 0 \<in> set (can_decode s)"
  by (rule one_peer_fakes_echoes [OF demo_bc_new]) (simp_all add: demo_forged_def)

end
