(* ===== verification/HB_Subset_Properties.thy ===== *)
theory HB_Subset_Properties
  imports HB_Subset HB_Agreement_Properties HB_Broadcast_Properties
begin

text \<open>
  Properties of HoneyBadger's common subset, across the broadcast and the agreement: a proposal
  completes when its broadcast delivers and the agreement is unanimous; a proposal whose agreement
  decides before the broadcast delivers never completes; a finished proposal keeps its result; and
  a message touches the proposal it names only.
\<close>

subsection \<open>A proposal as a step function\<close>

type_synonym acs_event = "rb_ext \<times> string \<times> subset_content"

definition acs_step :: "hb_ext \<Rightarrow> acs_state \<Rightarrow> acs_event \<Rightarrow> (acs_state \<times> acs_out) option" where
  "acs_step E st ev = (case ev of (R, sender, c) \<Rightarrow> state_handle_message E R st sender c)"

text \<open>As long as a proposal waits for its broadcast, the broadcast has not delivered.\<close>

definition acs_inv :: "acs_state \<Rightarrow> bool" where
  "acs_inv st \<longleftrightarrow> (case st of
     Ongoing rbc _ \<Rightarrow> rb_get_output rbc = None
   | Accepted rbc \<Rightarrow> rb_get_output rbc = None
   | _ \<Rightarrow> True)"

lemma flush_output [simp]: "rb_get_output (rb_flush s) = rb_get_output s"
  by (simp add: rb_flush_def rb_get_output_def)

lemma rb_output_is_state: "rb_handle_message R s sender m = Some (s', out) \<Longrightarrow> out = rb_get_output s'"
  by (auto simp: rb_handle_message_def bind_eq_Some_conv)

lemma bool_option_cases: "(d = None \<Longrightarrow> P) \<Longrightarrow> (d = Some True \<Longrightarrow> P) \<Longrightarrow> (d = Some False \<Longrightarrow> P) \<Longrightarrow> P"
  by (cases d) auto

lemma agreement_inv:
  assumes step: "handle_agreement E st sender m = Some (st', out)" and inv: "acs_inv st"
  shows "acs_inv st'"
proof (cases st)
  case (Ongoing rbc aba)
  with step obtain d aba' where "st' = (case d of Some True \<Rightarrow> Accepted rbc | Some False \<Rightarrow> Completed False
      | None \<Rightarrow> Ongoing rbc (ba_flush aba'))" by (auto simp: bind_eq_Some_conv)
  with inv Ongoing show ?thesis by (cases d rule: bool_option_cases) (simp_all add: acs_inv_def)
next
  case (GetValue v aba)
  with step obtain d aba' where "st' = (case d of Some True \<Rightarrow> Completed True | Some False \<Rightarrow> Completed False
      | None \<Rightarrow> GetValue v (ba_flush aba'))" by (auto simp: bind_eq_Some_conv)
  then show ?thesis by (cases d rule: bool_option_cases) (simp_all add: acs_inv_def)
qed (use step inv in simp_all)

lemma acs_step_inv:
  assumes "acs_inv st" and "acs_step E st ev = Some (st', out)"
  shows "acs_inv st'"
proof (cases ev)
  case (fields R sender c)
  show ?thesis
  proof (cases c)
    case (SBroadcast p m)
    with assms fields have "handle_broadcast R st sender m = Some (st', out)"
      by (simp add: acs_step_def state_handle_message_def)
    then show ?thesis using assms(1)
      by (cases st) (auto simp: acs_inv_def bind_eq_Some_conv Let_def dest!: rb_output_is_state split: option.splits)
  next
    case (SAgreement p m)
    with assms fields have "handle_agreement E st sender m = Some (st', out)"
      by (simp add: acs_step_def state_handle_message_def)
    then show ?thesis using assms(1) by (rule agreement_inv)
  qed (use assms fields in \<open>auto simp: acs_step_def state_handle_message_def\<close>)
qed

interpretation acs_waits: invariant_handler "acs_step E" acs_inv for E
  by unfold_locales (rule acs_step_inv)

lemma acs_state_new_inv: "acs_state_new R n nonce p = Some st \<Longrightarrow> acs_inv st"
  by (auto simp: acs_state_new_def bind_eq_Some_conv acs_inv_def rb_get_output_def broadcast_init_def dest!: broadcast_new_Some)

subsection \<open>Acceptance before delivery\<close>

definition is_component :: "acs_event \<Rightarrow> bool" where
  "is_component ev \<longleftrightarrow> (\<exists>R sender p m a. ev = (R, sender, SBroadcast p m) \<or> ev = (R, sender, SAgreement p a))"

lemma accepted_step:
  "rb_get_output rbc = None \<Longrightarrow> is_component ev \<Longrightarrow> acs_step E (Accepted rbc) ev = Some (Accepted rbc, ([], []))"
  by (auto simp: is_component_def acs_step_def state_handle_message_def)

text \<open>
  C23. In \<open>Accepted\<close> the state looks at the broadcast's output but does not pass the message on to the
  broadcast: no message whatever completes the proposal.
\<close>

theorem accepted_never_completes:
  assumes new: "acs_state_new R n nonce p = Some st" and run: "run_handler (acs_step E) st evs = Some (Accepted rbc, outs)"
    and later: "\<forall>ev \<in> set evs'. is_component ev"
  shows "\<exists>outs'. run_handler (acs_step E) st (evs @ evs') = Some (Accepted rbc, outs')"
  using later
proof (induction evs' rule: rev_induct)
  case Nil
  with run show ?case by simp
next
  case (snoc ev evs')
  then obtain outs' where *: "run_handler (acs_step E) st (evs @ evs') = Some (Accepted rbc, outs')" by auto
  have "rb_get_output rbc = None"
    using acs_waits.run_inv [OF acs_state_new_inv [OF new] run] by (simp add: acs_inv_def)
  from accepted_step [OF this, of ev E] snoc have "acs_step E (Accepted rbc) ev = Some (Accepted rbc, ([], []))" by simp
  from run_handler_snoc [OF * this] show ?case by auto
qed

subsection \<open>Completion\<close>

lemma flush_unanimous: "unanimous_inv es s \<Longrightarrow> unanimous_inv es (ba_flush s)"
  by (simp add: unanimous_inv_def ba_flush_def)

lemma undecided_output:
  "decision s = None \<Longrightarrow> am_epoch m = ba_epoch s \<Longrightarrow> aba_step E s (Receive src m) = Some (s', d) \<Longrightarrow> d = decision s'"
  by (auto simp: aba_step_def ba_handle_message_def handle_message_content_def bind_eq_Some_conv)

text \<open>The agreement messages of a run, as events of the proposal.\<close>

definition true_message :: "aba_message \<Rightarrow> bool" where
  "true_message m \<longleftrightarrow> am_epoch m = 0 \<and> (\<exists>i j. am_content m = BaBroadcast i (BVAL j True) \<or> am_content m = BaBroadcast i (AUX j True))"

lemma true_message_event: "true_message m \<Longrightarrow> true_event (Receive src m)"
  by (cases m) (auto simp: true_message_def true_event_def)

definition agreements :: "rb_ext \<Rightarrow> string \<Rightarrow> (string \<times> aba_message) list \<Rightarrow> acs_event list" where
  "agreements R p ms = map (\<lambda>(src, m). (R, src, SAgreement p m)) ms"

definition receives :: "(string \<times> aba_message) list \<Rightarrow> aba_event set" where
  "receives ms = (\<lambda>(src, m). Receive src m) ` set ms"

lemma complete_run: "run_handler (acs_step E) (Completed b) (agreements R p ms) = Some (Completed b, map (\<lambda>_. ([], [])) ms)"
  by (induction ms) (auto simp: agreements_def acs_step_def state_handle_message_def)

lemma getvalue_step:
  assumes inv: "unanimous_inv es aba" "decision aba = None" and m: "true_message m"
  shows "\<exists>st' out. acs_step E (GetValue v aba) (R, src, SAgreement p m) = Some (st', out) \<and>
    (st' = Completed True \<or> (\<exists>aba'. st' = GetValue v aba' \<and> unanimous_inv (insert (Receive src m) es) aba' \<and> decision aba' = None))"
proof -
  from unanimous_step [OF inv(1) true_message_event [OF m]] obtain s' d where
    step: "aba_step E aba (Receive src m) = Some (s', d)" and inv': "unanimous_inv (insert (Receive src m) es) s'" by blast
  have "am_epoch m = ba_epoch aba" using m inv(1) by (simp add: true_message_def unanimous_inv_def)
  from undecided_output [OF inv(2) this step] have d: "d = decision s'" .
  have run: "ba_handle_message E aba src m = Some (s', decision s')" using step d by (simp add: aba_step_def)
  have cases: "decision s' = None \<or> decision s' = Some True" using inv' by (auto simp: unanimous_inv_def)
  have "decision (ba_flush s') = decision s'" by (simp add: ba_flush_def)
  with cases run flush_unanimous [OF inv'] show ?thesis
    by (auto simp: acs_step_def state_handle_message_def)
qed

lemma getvalue_run:
  "unanimous_inv es aba \<Longrightarrow> decision aba = None \<Longrightarrow> \<forall>(src, m) \<in> set ms. true_message m \<Longrightarrow>
   \<exists>st' outs. run_handler (acs_step E) (GetValue v aba) (agreements R p ms) = Some (st', outs) \<and>
    (st' = Completed True \<or> (\<exists>aba'. st' = GetValue v aba' \<and> unanimous_inv (es \<union> receives ms) aba' \<and> decision aba' = None))"
proof (induction ms arbitrary: es aba)
  case Nil
  then show ?case by (simp add: agreements_def receives_def)
next
  case (Cons sm ms)
  obtain src m where sm: "sm = (src, m)" by (cases sm)
  with Cons.prems have "true_message m" by simp
  from getvalue_step [OF Cons.prems(1,2) this] obtain st1 out where step: "acs_step E (GetValue v aba) (R, src, SAgreement p m) = Some (st1, out)"
    and st1: "st1 = Completed True \<or> (\<exists>aba'. st1 = GetValue v aba' \<and> unanimous_inv (insert (Receive src m) es) aba' \<and> decision aba' = None)"
    by blast
  have agr: "agreements R p (sm # ms) = (R, src, SAgreement p m) # agreements R p ms"
    and rec: "insert (Receive src m) es \<union> receives ms = es \<union> receives (sm # ms)"
    by (auto simp: agreements_def receives_def sm)
  from st1 show ?case
  proof
    assume "st1 = Completed True"
    with step agr complete_run [of E True R p ms] show ?thesis by simp
  next
    assume "\<exists>aba'. st1 = GetValue v aba' \<and> unanimous_inv (insert (Receive src m) es) aba' \<and> decision aba' = None"
    then obtain aba' where aba': "st1 = GetValue v aba'" "unanimous_inv (insert (Receive src m) es) aba'" "decision aba' = None" by blast
    have "\<forall>(src, m) \<in> set ms. true_message m" using Cons.prems(3) by simp
    from Cons.IH [OF aba'(2,3) this] obtain st' outs where "run_handler (acs_step E) st1 (agreements R p ms) = Some (st', outs)"
      "st' = Completed True \<or> (\<exists>aba'. st' = GetValue v aba' \<and> unanimous_inv (es \<union> receives (sm # ms)) aba' \<and> decision aba' = None)"
      unfolding rec aba'(1) by blast
    with step agr show ?thesis by (auto simp: bind_eq_Some_conv)
  qed
qed


lemma proposed_inv:
  assumes "fault_num n = 1" and "num_honest n = 3"
  shows "unanimous_inv {} (ba_flush (ba_propose (ba_new n nonce p) True)) \<and> decision (ba_flush (ba_propose (ba_new n nonce p) True)) = None"
  using assms
  by (simp add: ba_propose_def can_propose_def ba_new_def bv_new_def sync_none unanimous_inv_def ba_flush_def heard_bval_def heard_aux_def)

text \<open>
  C22. A proposal whose broadcast delivers, and whose agreement then hears \<open>BVAL(true)\<close> of three nodes,
  \<open>AUX(true)\<close> of two and after these \<open>AUX(true)\<close> of a third, completes with its value accepted.
\<close>

theorem acs_completes:
  assumes n: "fault_num n = 1" "num_honest n = 3"
    and deliver: "rb_handle_message R rbc sender m = Some (rbc', Some v)"
    and ms: "\<forall>(src, m) \<in> set ms. true_message m"
    and quorum: "3 \<le> card (heard_bval (receives ms) True)" "2 \<le> card (heard_aux (receives ms) True)"
    and third: "src \<notin> heard_aux (receives ms) True"
  shows "\<exists>outs. run_handler (acs_step E) (Ongoing rbc (ba_new n nonce p))
    ((R, sender, SBroadcast p m) # agreements R p (ms @ [(src, \<lparr>am_epoch = 0, am_content = BaBroadcast i (AUX j True)\<rparr>)])) =
      Some (Completed True, outs)"
proof -
  let ?aba = "ba_flush (ba_propose (ba_new n nonce p) True)"
  let ?last = "(R, src, SAgreement p \<lparr>am_epoch = 0, am_content = BaBroadcast i (AUX j True)\<rparr>)"
  obtain out where first: "acs_step E (Ongoing rbc (ba_new n nonce p)) (R, sender, SBroadcast p m) = Some (GetValue v ?aba, out)"
    using deliver by (simp add: acs_step_def state_handle_message_def Let_def)
  obtain st outs where run: "run_handler (acs_step E) (GetValue v ?aba) (agreements R p ms) = Some (st, outs)"
    and st: "st = Completed True \<or> (\<exists>aba'. st = GetValue v aba' \<and> unanimous_inv (receives ms) aba' \<and> decision aba' = None)"
    using getvalue_run [of "{}" ?aba ms E v R p] proposed_inv [OF n, of nonce p] ms by auto
  have "\<exists>out. acs_step E st ?last = Some (Completed True, out)"
    using st
  proof
    assume "\<exists>aba'. st = GetValue v aba' \<and> unanimous_inv (receives ms) aba' \<and> decision aba' = None"
    then obtain aba' where aba': "st = GetValue v aba'" "unanimous_inv (receives ms) aba'" "decision aba' = None" by blast
    then have "bin_values (ba_broadcast aba') = bs_from True" "ba_epoch aba' = 0"
      using quorum(1) by (simp_all add: unanimous_inv_def bs_from_def)
    then have "\<exists>s'. aba_step E aba' (Receive src \<lparr>am_epoch = 0, am_content = BaBroadcast i (AUX j True)\<rparr>) = Some (s', Some True)"
      using aux_quorum_decides [of aba' True "heard_aux (receives ms) True" src E i j] aba' quorum(2) third
      unfolding unanimous_inv_def by auto
    with aba'(1) show ?thesis by (auto simp: aba_step_def acs_step_def state_handle_message_def)
  qed (simp add: acs_step_def state_handle_message_def)
  with run_handler_snoc [OF run] obtain outs' where
    "run_handler (acs_step E) (GetValue v ?aba) (agreements R p ms @ [?last]) = Some (Completed True, outs')" by blast
  with first show ?thesis by (auto simp: agreements_def)
qed

subsection \<open>Results are final\<close>

theorem complete_is_final:
  assumes "\<forall>ev \<in> set evs. is_component ev"
  shows "\<exists>outs. run_handler (acs_step E) (Completed b) evs = Some (Completed b, outs)"
  using assms
  by (induction evs) (auto simp: is_component_def acs_step_def state_handle_message_def)

subsection \<open>Proposals do not interfere\<close>

text \<open>
  A broadcast or agreement message changes the state of the proposal that it names, as that state
  alone would handle it, and no other; without a state for the name it is a panic.
\<close>

theorem proposals_are_separate:
  assumes "sm_content msg = SBroadcast q m \<or> sm_content msg = SAgreement q a"
  shows "subset_handle_message E R s source msg =
      (case map_of (states s) (sm_proposer_id msg) of
         None \<Rightarrow> None
       | Some st \<Rightarrow> map_option (put_state s (sm_proposer_id msg)) (acs_step E st (R, source, sm_content msg))) \<and>
    (\<forall>s' p. subset_handle_message E R s source msg = Some s' \<longrightarrow> p \<noteq> sm_proposer_id msg \<longrightarrow>
      map_of (states s') p = map_of (states s) p)"
proof -
  have "subset_handle_message E R s source msg =
      (case map_of (states s) (sm_proposer_id msg) of
         None \<Rightarrow> None
       | Some st \<Rightarrow> map_option (put_state s (sm_proposer_id msg)) (acs_step E st (R, source, sm_content msg)))"
    using assms by (auto simp: subset_handle_message_def acs_step_def map_option_case split: option.splits Option.bind_split)
  then show ?thesis by (auto simp: put_state_def update_conv' split: option.splits)
qed

subsection \<open>Starting the proposals of a node\<close>

lemma collect_key_shares_Some: "\<exists>m'. collect_key_shares E (Some ks) l m = Some m'"
  by (induction l arbitrary: m) auto

lemma new_states_map:
  assumes "rs_new_ok R 2 2"
  shows "\<exists>sts'. new_states R n nonce names sts = Some sts' \<and>
    map_of sts' = (\<lambda>p. if p \<in> set names then acs_state_new R n nonce p else map_of sts p)"
proof (induction names arbitrary: sts)
  case (Cons i names)
  obtain st where st: "acs_state_new R n nonce i = Some st"
    using assms by (simp add: acs_state_new_def broadcast_new_def coding_new_def)
  from Cons.IH [of "AList.update i st sts"] obtain sts' where
    "new_states R n nonce names (AList.update i st sts) = Some sts'"
    "map_of sts' = (\<lambda>p. if p \<in> set names then acs_state_new R n nonce p else map_of (AList.update i st sts) p)" by blast
  with st show ?case by (auto simp: update_conv' fun_eq_iff)
qed simp

text \<open>
  The key message of the controller gives the node a fresh proposal for each connected node and
  for itself, and for no other name, whatever the iteration orders are.
\<close>

lemma key_starts_proposals:
  assumes "rs_new_ok R 2 2" and "set keys = set (hn_connected s)" and "\<forall>k \<in> set keys. as_bytes k \<noteq> source"
    and "set order = {..<Suc (length keys)}"
  shows "\<exists>s'. hb_node_step E R s (HbTBLSKey source sk pk pks keys order) = Some s' \<and>
    map_of (states (hn_acs s')) = (\<lambda>p. if p \<in> insert (hn_id s) (set (hn_connected s)) then acs_state_new R (hn_netinfo s') 1 p else None)"
proof -
  let ?peers = "filter (\<lambda>k. as_bytes k \<noteq> source) keys @ [hn_id s]"
  have peers: "?peers = keys @ [hn_id s]" using assms(3) by simp
  obtain n where n: "network_new E order (hn_id s) True (Some sk) (Some pk) (Some pks) (keys @ [hn_id s]) = Some n"
    "nw_connected_nodes n = map (\<lambda>i. (i, (keys @ [hn_id s]) ! i)) order"
    using collect_key_shares_Some [of E pks "enumerate 0 (keys @ [hn_id s])" Map.empty] by (auto simp: network_new_def)
  have "set (map snd (nw_connected_nodes n)) = (!) (keys @ [hn_id s]) ` {..<length (keys @ [hn_id s])}"
    using assms(4) by (simp add: n(2) image_image)
  also have "\<dots> = set (keys @ [hn_id s])" using nth_image [of _ "keys @ [hn_id s]", OF order_refl] by (simp only: lessThan_atLeast0 take_all_iff order_refl take_all)
  finally have names: "set (map snd (nw_connected_nodes n)) = insert (hn_id s) (set (hn_connected s))" using assms(2) by simp
  from new_states_map [OF assms(1), of n 1 "map snd (nw_connected_nodes n)" "[]"] obtain sts where
    "new_states R n 1 (map snd (nw_connected_nodes n)) [] = Some sts"
    "map_of sts = (\<lambda>p. if p \<in> insert (hn_id s) (set (hn_connected s)) then acs_state_new R n 1 p else None)"
    unfolding names by (auto cong: if_cong)
  then show ?thesis using n(1) peers by (simp add: hb_node_step_def subset_new_def Let_def cong: if_cong)
qed

subsection \<open>Witnesses\<close>

text \<open>The proposal of the concrete broadcast: its last \<open>Ready\<close> delivers, and three nodes vote.\<close>

definition demo_votes :: "(string \<times> aba_message) list" where
  "demo_votes = map (\<lambda>x. (x, with_epoch (BaBroadcast x (BVAL x True)) 0)) [''b'', ''c'', ''d''] @
     map (\<lambda>x. (x, with_epoch (BaBroadcast x (AUX x True)) 0)) [''b'', ''c'']"

definition demo_before :: broadcast where
  "demo_before = fst (the (run_handler rb_step demo_bc (butlast demo_rb_events)))"

definition demo_last_ready :: rb_message where
  "demo_last_ready = Ready ''a'' \<lparr>rd_hash = demo_root, rd_timestamp = 0, rd_nonce = 0\<rparr>"

lemma demo_delivers: "map_option snd (rb_handle_message demo_rb demo_before ''d'' demo_last_ready) = Some (Some simulated_input)"
  by code_simp

lemma demo_votes_heard:
  "heard_bval (receives demo_votes) True = {''b'', ''c'', ''d''}" "heard_aux (receives demo_votes) True = {''b'', ''c''}"
  by (auto simp: demo_votes_def receives_def with_epoch_def heard_insert heard_bval_def [of "{}"] heard_aux_def [of "{}"])

theorem acs_completes_witness:
  "\<exists>outs. run_handler (acs_step demo_ext) (Ongoing demo_before (ba_new demo_net 1 ''a''))
    ((demo_rb, ''d'', SBroadcast ''a'' demo_last_ready) # agreements demo_rb ''a''
       (demo_votes @ [(''d'', \<lparr>am_epoch = 0, am_content = BaBroadcast ''d'' (AUX ''d'' True)\<rparr>)])) = Some (Completed True, outs)"
proof -
  obtain rbc' where "rb_handle_message demo_rb demo_before ''d'' demo_last_ready = Some (rbc', Some simulated_input)"
    using demo_delivers by auto
  then show ?thesis
    by (rule acs_completes [OF demo_net_size])
      (simp_all add: demo_votes_heard, auto simp: demo_votes_def true_message_def with_epoch_def)
qed

text \<open>The agreement decides first: \<open>Accepted\<close>, and the echoes and \<open>Ready\<close> that follow change nothing.\<close>

definition demo_fast_votes :: "acs_event list" where
  "demo_fast_votes = agreements demo_rb ''a''
     (demo_votes @ [(''d'', \<lparr>am_epoch = 0, am_content = BaBroadcast ''d'' (AUX ''d'' True)\<rparr>)])"

definition demo_proposal :: acs_state where
  "demo_proposal = Ongoing demo_bc (ba_new demo_rb_net 1 ''a'')"

lemma demo_proposal_new: "acs_state_new demo_rb demo_rb_net 1 ''a'' = Some demo_proposal"
  using demo_bc_new(1) by (simp add: acs_state_new_def demo_proposal_def) (simp add: demo_rb_net_def)

definition accepted_state :: "acs_state \<Rightarrow> bool" where
  "accepted_state st = (case st of Accepted _ \<Rightarrow> True | _ \<Rightarrow> False)"

lemma demo_fast_accepted: "map_option (\<lambda>r. accepted_state (fst r)) (run_handler (acs_step demo_ext) demo_proposal demo_fast_votes) = Some True"
  by code_simp

theorem accepted_never_completes_witness:
  "\<exists>rbc outs. run_handler (acs_step demo_ext) demo_proposal
     (demo_fast_votes @ map (\<lambda>(R, x, m). (R, x, SBroadcast ''a'' m)) demo_rb_events) = Some (Accepted rbc, outs)"
proof -
  obtain st outs where run: "run_handler (acs_step demo_ext) demo_proposal demo_fast_votes = Some (st, outs)" "accepted_state st"
    using demo_fast_accepted by auto
  then obtain rbc where "st = Accepted rbc" by (cases st) (auto simp: accepted_state_def)
  moreover have "\<forall>ev \<in> set (map (\<lambda>(R, x, m). (R, x, SBroadcast ''a'' m)) demo_rb_events). is_component ev"
    by (auto simp: is_component_def)
  ultimately show ?thesis using accepted_never_completes [OF demo_proposal_new] run(1) by blast
qed

theorem complete_is_final_witness:
  "\<exists>outs. run_handler (acs_step demo_ext) (Completed True) [(demo_rb, ''b'', SBroadcast ''a'' demo_last_ready)] = Some (Completed True, outs)"
  by (rule complete_is_final) (simp add: is_component_def)

definition demo_subset :: subset_state where
  "demo_subset = the (subset_new demo_rb demo_rb_net 1)"

theorem proposals_are_separate_witness:
  "\<forall>s'. subset_handle_message demo_ext demo_rb demo_subset ''b'' \<lparr>sm_proposer_id = ''a'', sm_content = SBroadcast ''a'' demo_last_ready\<rparr> = Some s' \<longrightarrow>
     map_of (states s') ''c'' = map_of (states demo_subset) ''c''"
  using proposals_are_separate [of "\<lparr>sm_proposer_id = ''a'', sm_content = SBroadcast ''a'' demo_last_ready\<rparr>"] by simp

end
