(* ===== verification/Level_DB.thy ===== *)
theory Level_DB
  imports Prelude
begin

text \<open>
  The wrapper around the LevelDB database in which the stand-alone nodes keep public keys
  (\<open>storage/src/database.rs\<close>). The keys of the database are 512-bit numbers and its content is a
  finite map. \<open>u512\<close> is \<open>U512::from(&[u8])\<close> of the bigint crate, \<open>None\<close> where it panics (more than 64
  bytes). Two byte strings with the same number share an entry. Errors of the database are not
  modelled.
\<close>

type_synonym level_db = "nat \<rightharpoonup> bytes"

definition db_read :: "(bytes \<Rightarrow> nat option) \<Rightarrow> level_db \<Rightarrow> bytes \<Rightarrow> bytes option option" where
  "db_read u512 db key = do { db_key \<leftarrow> u512 key; Some (db db_key) }"

definition db_write :: "(bytes \<Rightarrow> nat option) \<Rightarrow> level_db \<Rightarrow> bytes \<Rightarrow> bytes \<Rightarrow> level_db option" where
  "db_write u512 db key v = do { db_key \<leftarrow> u512 key; Some (db(db_key \<mapsto> v)) }"

lemma db_read_write:
  "db_write u512 db k v = Some db' \<Longrightarrow> db_read u512 db' k = Some (Some v)"
  by (auto simp: db_write_def db_read_def bind_eq_Some_conv)

lemma db_read_write_other:
  "db_write u512 db k v = Some db' \<Longrightarrow> u512 k' \<noteq> u512 k \<Longrightarrow> db_read u512 db' k' = db_read u512 db k'"
  by (cases "u512 k'") (auto simp: db_write_def db_read_def bind_eq_Some_conv)

end
