(* ===== verification/SA_PBFT_Messages.thy ===== *)
theory SA_PBFT_Messages
  imports PBFT_State PBFT_Log Level_DB
begin

text \<open>
  The messages of the stand-alone PBFT node (\<open>consensus/src/pbft/message.rs\<close>) and the keys its log
  files them under (\<open>common.rs\<close>). The structs \<open>PrePrepare\<close>, \<open>Prepare\<close>, \<open>Commit\<close>, \<open>CheckPoint\<close> and
  \<open>PublicKey\<close> have the fields of the records of \<open>PBFT_Messages\<close>, which are used here; requests,
  replies, view changes and new views differ.
\<close>

subsection \<open>Messages\<close>

record sa_request =
  rq_operation :: string
  rq_timestamp :: string
  rq_client_id :: bytes
  rq_signature :: string

record sa_reply =
  rp_client_id :: bytes
  rp_timestamp :: string
  rp_view :: u64
  rp_number :: u64
  rp_from_peer_id :: bytes
  rp_signature :: bytes
  rp_result :: bytes

datatype sa_message_type =
    SaRequest sa_request
  | SPrePrepare pre_prepare
  | SPrepare prepare
  | SCommit commit
  | SaReply sa_reply
  | SCheckPoint check_point
  | SViewChange sa_view_change
  | SNewView sa_new_view
  | SPublicKey public_key
  | SDistributePK
and sa_view_change = SViewChangeMsg (sv_new_view: u64) (sv_latest_stable_checkpoint: u64)
    (sv_latest_stable_checkpoint_messages: "check_point list") (sv_proof_messages: sa_proof_messages)
    (sv_from_peer_id: bytes) (sv_signature: string)
and sa_new_view = SNewViewMsg (sn_view: u64) (sn_viewchanges: "sa_view_change list")
    (sn_preprepares: "pre_prepare list") (sn_signature: string)
and sa_proof_messages = SProofMessages (sproof_preprepares: "sa_message_type list")
    (sproof_prepares: "sa_message_type list")

record sa_message =
  sa_msg_type :: sa_message_type

text \<open>
  bincode on these types, and \<open>U512::from(&[u8])\<close> of the bigint crate (\<open>None\<close> where it
  panics, on more than 64 bytes).
\<close>

record sa_ext = ext +
  bin_sa_request :: "sa_request \<Rightarrow> bytes"
  from_bin_sa_request :: "bytes \<Rightarrow> sa_request option"
  bin_sa_message :: "sa_message \<Rightarrow> bytes"
  from_bin_sa_message :: "bytes \<Rightarrow> sa_message option"
  bin_sa_message_type :: "sa_message_type \<Rightarrow> bytes"
  u512_from :: "bytes \<Rightarrow> nat option"

subsection \<open>Keys\<close>

definition sa_preprepare_key_by_request_hash :: "'a ext_scheme \<Rightarrow> bytes \<Rightarrow> u64 \<Rightarrow> u64 \<Rightarrow> string" where
  "sa_preprepare_key_by_request_hash E request_hash v sequence_number =
     get_hash_str E ([PRE_PREPARE_PREFIX] @ to_be_bytes v @ to_be_bytes sequence_number @ request_hash)"

definition sa_prepare_key_by_request_hash :: "'a ext_scheme \<Rightarrow> bytes \<Rightarrow> u64 \<Rightarrow> u64 \<Rightarrow> string" where
  "sa_prepare_key_by_request_hash E request_hash v sequence_number =
     get_hash_str E ([PREPARE_PREFIX] @ to_be_bytes v @ to_be_bytes sequence_number @ request_hash)"

definition sa_commit_key_by_request_hash :: "'a ext_scheme \<Rightarrow> bytes \<Rightarrow> u64 \<Rightarrow> u64 \<Rightarrow> string" where
  "sa_commit_key_by_request_hash E request_hash v sequence_number =
     get_hash_str E ([COMMIT_PREFIX] @ to_be_bytes v @ to_be_bytes sequence_number @ request_hash)"

fun sa_message_key :: "'a sa_ext_scheme \<Rightarrow> sa_message_type \<Rightarrow> string" where
  "sa_message_key E (SaRequest request) = get_hash_str E (bin_sa_request E request)"
| "sa_message_key E (SPrePrepare preprepare) =
     get_hash_str E ([PRE_PREPARE_PREFIX] @ to_be_bytes (pp_view preprepare) @
       to_be_bytes (pp_number preprepare) @ as_bytes (pp_m_hash preprepare))"
| "sa_message_key E (SPrepare prepare) =
     get_hash_str E ([PREPARE_PREFIX] @ to_be_bytes (p_view prepare) @
       to_be_bytes (p_number prepare) @ as_bytes (p_m_hash prepare))"
| "sa_message_key E (SCommit commit) =
     get_hash_str E ([COMMIT_PREFIX] @ to_be_bytes (c_view commit) @
       to_be_bytes (c_number commit) @ as_bytes (c_m_hash commit))"
| "sa_message_key E (SaReply reply) =
     get_hash_str E ([REPLY_PREFIX] @ rp_client_id reply @ as_bytes (rp_timestamp reply) @
       to_be_bytes (rp_view reply) @ to_be_bytes (rp_number reply) @ rp_result reply)"
| "sa_message_key E _ = ''''"

declare sa_message_key.simps [simp del]

text \<open>The signature is not part of a key, so a message is signed with the key of its unsigned form.\<close>

lemma sa_message_key_unsigned [simp]:
  "sa_message_key E (SPrePrepare (a\<lparr>pp_signature := x\<rparr>)) = sa_message_key E (SPrePrepare a)"
  "sa_message_key E (SPrepare (b\<lparr>p_signature := x\<rparr>)) = sa_message_key E (SPrepare b)"
  "sa_message_key E (SCommit (c\<lparr>c_signature := x\<rparr>)) = sa_message_key E (SCommit c)"
  "sa_message_key E (SaReply (d\<lparr>rp_signature := x\<rparr>)) = sa_message_key E (SaReply d)"
  by (simp_all add: sa_message_key.simps)

end
