(* ===== verification/SA_PBFT_Log.thy ===== *)
theory SA_PBFT_Log
  imports SA_PBFT_Messages
begin

text \<open>
  State and log of the stand-alone PBFT node and its controller (\<open>consensus/src/pbft/state.rs\<close>,
  \<open>log.rs\<close>). Unlike the log of the pluggable protocol there is one store for all messages,
  replies included, and the log is never reset.
\<close>

subsection \<open>Node state\<close>

record sa_state =
  sview :: u64
  scurrent_sequence_number :: u64
  sprimary :: string
  sis_primary :: bool
  snode_count :: u64
  sfault_tolerance_count :: u64
  smode :: mode
  sstable_checkpoint :: "u64 \<times> string"
  scurrent_commited_request_count :: u64
  scheckpoint_state :: string
  sclient_state :: client_state
  sprepared_timeout :: timeout
  scommited_timeout :: timeout

definition sa_state_new :: "nat \<Rightarrow> sa_state" where
  "sa_state_new timeout_duration =
     \<lparr>sview = 0, scurrent_sequence_number = 0, sprimary = '''', sis_primary = False,
      snode_count = 4, sfault_tolerance_count = 1, smode = Normal,
      sstable_checkpoint = (0, ''''), scurrent_commited_request_count = 0,
      scheckpoint_state = replicate 64 (CHR 0x00), sclient_state = ClientNotRequest,
      sprepared_timeout = timeout_new timeout_duration,
      scommited_timeout = timeout_new timeout_duration\<rparr>"

definition sa_update_checkpoint_state :: "'a ext_scheme \<Rightarrow> string \<Rightarrow> sa_state \<Rightarrow> sa_state" where
  "sa_update_checkpoint_state E commited_request_hash s =
     (let old_u8s = as_bytes (scheckpoint_state s);
          hash_u8s = as_bytes commited_request_hash;
          new_vec = map (\<lambda>(a, b). a XOR b) (zip old_u8s hash_u8s)
      in s\<lparr>scheckpoint_state := get_hash_str E new_vec\<rparr>)"

record sa_controller_state =
  sctl_client_state :: client_state
  sctl_fault_tolerance_count :: u64

definition sa_controller_state_new :: sa_controller_state where
  "sa_controller_state_new = \<lparr>sctl_client_state = ClientNotRequest, sctl_fault_tolerance_count = 1\<rparr>"

subsection \<open>The log\<close>

record sa_log =
  srequests :: "u64 \<rightharpoonup> sa_request"
  smessages :: "string \<rightharpoonup> sa_message_type list"
  scheckpoints :: "u64 \<times> string \<rightharpoonup> check_point list"
  sviewchanges :: "u64 \<rightharpoonup> sa_view_change list"
  srequest_map :: "string \<rightharpoonup> u64 \<times> u64"
  srequest_phase_state :: "string \<rightharpoonup> log_phase_state"
  scurrent_requests :: "(string \<times> instant) list"

definition sa_log_new :: sa_log where
  "sa_log_new =
     \<lparr>srequests = Map.empty, smessages = Map.empty, scheckpoints = Map.empty,
      sviewchanges = Map.empty, srequest_map = Map.empty, srequest_phase_state = Map.empty,
      scurrent_requests = []\<rparr>"

subsection \<open>Recording\<close>

definition sa_record_viewchange :: "sa_log \<Rightarrow> sa_view_change \<Rightarrow> sa_log" where
  "sa_record_viewchange log viewchange =
     log\<lparr>sviewchanges := push_bucket (sviewchanges log) (sv_new_view viewchange) viewchange\<rparr>"

definition sa_record_checkpoint :: "sa_log \<Rightarrow> check_point \<Rightarrow> sa_log" where
  "sa_record_checkpoint log msg =
     log\<lparr>scheckpoints := push_bucket (scheckpoints log)
           (current_max_number msg, checkpoint_state_digest msg) msg\<rparr>"

definition sa_record_preprepare :: "'a sa_ext_scheme \<Rightarrow> sa_log \<Rightarrow> pre_prepare \<Rightarrow> sa_log" where
  "sa_record_preprepare E log msg =
     (let msg_type = SPrePrepare msg; key_hash = sa_message_key E msg_type
      in log\<lparr>smessages := push_bucket (smessages log) key_hash msg_type\<rparr>)"

definition sa_record_prepare :: "'a sa_ext_scheme \<Rightarrow> sa_log \<Rightarrow> prepare \<Rightarrow> sa_log" where
  "sa_record_prepare E log msg =
     (let msg_type = SPrepare msg; key_hash = sa_message_key E msg_type
      in log\<lparr>smessages := push_bucket (smessages log) key_hash msg_type\<rparr>)"

definition sa_record_commit :: "'a sa_ext_scheme \<Rightarrow> sa_log \<Rightarrow> commit \<Rightarrow> sa_log" where
  "sa_record_commit E log msg =
     (let msg_type = SCommit msg; key_hash = sa_message_key E msg_type
      in log\<lparr>smessages := push_bucket (smessages log) key_hash msg_type\<rparr>)"

definition sa_record_reply :: "'a sa_ext_scheme \<Rightarrow> sa_log \<Rightarrow> sa_reply \<Rightarrow> sa_log" where
  "sa_record_reply E log msg =
     (let msg_type = SaReply msg; key_hash = sa_message_key E msg_type
      in log\<lparr>smessages := push_bucket (smessages log) key_hash msg_type\<rparr>)"

fun sa_record_message_handler :: "'a sa_ext_scheme \<Rightarrow> sa_log \<Rightarrow> sa_message_type \<Rightarrow> sa_log" where
  "sa_record_message_handler E log (SPrePrepare preprepare) = sa_record_preprepare E log preprepare"
| "sa_record_message_handler E log (SPrepare prepare) = sa_record_prepare E log prepare"
| "sa_record_message_handler E log (SCommit commit) = sa_record_commit E log commit"
| "sa_record_message_handler E log (SaReply reply) = sa_record_reply E log reply"
| "sa_record_message_handler E log (SCheckPoint checkpoint) = sa_record_checkpoint log checkpoint"
| "sa_record_message_handler E log (SViewChange viewchange) = sa_record_viewchange log viewchange"
| "sa_record_message_handler E log _ = log"

definition sa_record_request :: "u64 \<Rightarrow> sa_request \<Rightarrow> sa_log \<Rightarrow> sa_log" where
  "sa_record_request sequence_number request log =
     (if srequests log sequence_number = None
      then log\<lparr>srequests := (srequests log)(sequence_number \<mapsto> request)\<rparr> else log)"

definition sa_record_current_request :: "instant \<Rightarrow> string \<Rightarrow> sa_log \<Rightarrow> sa_log" where
  "sa_record_current_request t request_key log =
     log\<lparr>scurrent_requests := scurrent_requests log @ [(request_key, t)]\<rparr>"

definition sa_remove_commited_request :: "sa_log \<Rightarrow> sa_log" where
  "sa_remove_commited_request log = log\<lparr>scurrent_requests := tl (scurrent_requests log)\<rparr>"

definition sa_clear_current_request :: "sa_log \<Rightarrow> sa_log" where
  "sa_clear_current_request log = log\<lparr>scurrent_requests := []\<rparr>"

definition sa_update_request_phase_state :: "string \<Rightarrow> log_phase_state \<Rightarrow> sa_log \<Rightarrow> sa_log" where
  "sa_update_request_phase_state request_key st log =
     log\<lparr>srequest_phase_state := (srequest_phase_state log)(request_key \<mapsto> st)\<rparr>"

subsection \<open>Reading\<close>

definition sa_get_request_phase_state :: "sa_log \<Rightarrow> string \<Rightarrow> log_phase_state option" where
  "sa_get_request_phase_state log request_key = srequest_phase_state log request_key"

definition sa_get_viewchange_messages_by_view :: "sa_log \<Rightarrow> u64 \<Rightarrow> sa_view_change list" where
  "sa_get_viewchange_messages_by_view log v = bucket (sviewchanges log) v"

definition sa_get_viewchange_messages_count_by_view :: "sa_log \<Rightarrow> u64 \<Rightarrow> nat" where
  "sa_get_viewchange_messages_count_by_view log v = bucket_len (sviewchanges log) v"

definition sa_get_checkpoint_count :: "sa_log \<Rightarrow> u64 \<Rightarrow> string \<Rightarrow> nat" where
  "sa_get_checkpoint_count log sequence_number digest =
     bucket_len (scheckpoints log) (sequence_number, digest)"

definition sa_get_local_request_by_sequence_number :: "sa_log \<Rightarrow> u64 \<Rightarrow> sa_request option" where
  "sa_get_local_request_by_sequence_number log sequence_number = srequests log sequence_number"

definition sa_get_local_messages_by_hash :: "sa_log \<Rightarrow> string \<Rightarrow> sa_message_type list" where
  "sa_get_local_messages_by_hash log hash = bucket (smessages log) hash"

definition sa_get_local_messages_count_by_hash :: "sa_log \<Rightarrow> string \<Rightarrow> nat" where
  "sa_get_local_messages_count_by_hash log hash = bucket_len (smessages log) hash"

text \<open>The first entry, in the iteration order \<open>cks\<close>, with that number and exactly \<open>threshold\<close> messages.\<close>

definition sa_get_checkpoint_messages_by_sequence_number ::
    "(u64 \<times> string) list \<Rightarrow> sa_log \<Rightarrow> u64 \<Rightarrow> u64 \<Rightarrow> check_point list" where
  "sa_get_checkpoint_messages_by_sequence_number cks log sequence_number threshold =
     (case filter (\<lambda>k. fst k = sequence_number \<and> bucket_len (scheckpoints log) k = unat threshold) cks of
        k # _ \<Rightarrow> bucket (scheckpoints log) k
      | [] \<Rightarrow> [])"

definition sa_get_preprepare_messages_by_request_hash ::
    "'a sa_ext_scheme \<Rightarrow> sa_log \<Rightarrow> string \<Rightarrow> sa_message_type list option" where
  "sa_get_preprepare_messages_by_request_hash E log request_hash = do {
     (v, sequence_number) \<leftarrow> srequest_map log request_hash;
     let preprepare_key = sa_preprepare_key_by_request_hash E (as_bytes request_hash) v sequence_number;
     Some (bucket (smessages log) preprepare_key)
   }"

definition sa_get_prepare_messages_by_request_hash ::
    "'a sa_ext_scheme \<Rightarrow> sa_log \<Rightarrow> string \<Rightarrow> sa_message_type list option" where
  "sa_get_prepare_messages_by_request_hash E log request_hash = do {
     (v, sequence_number) \<leftarrow> srequest_map log request_hash;
     let prepare_key = sa_prepare_key_by_request_hash E (as_bytes request_hash) v sequence_number;
     Some (bucket (smessages log) prepare_key)
   }"

definition sa_get_preprepare_and_prepare_by_request_hash ::
    "'a sa_ext_scheme \<Rightarrow> sa_log \<Rightarrow> string \<Rightarrow> sa_message_type list option" where
  "sa_get_preprepare_and_prepare_by_request_hash E log request_hash = do {
     (v, sequence_number) \<leftarrow> srequest_map log request_hash;
     let preprepare_key = sa_preprepare_key_by_request_hash E (as_bytes request_hash) v sequence_number;
     let prepare_key = sa_prepare_key_by_request_hash E (as_bytes request_hash) v sequence_number;
     Some (bucket (smessages log) preprepare_key @ bucket (smessages log) prepare_key)
   }"

text \<open>The loop of \<open>get_proof_messages\<close> over the pending requests, with its two accumulators.\<close>

fun sa_proof_messages_loop :: "'a sa_ext_scheme \<Rightarrow> sa_log \<Rightarrow> (string \<times> instant) list \<Rightarrow>
    sa_message_type list \<Rightarrow> sa_message_type list \<Rightarrow> sa_proof_messages option" where
  "sa_proof_messages_loop E log [] preprepares prepares = Some (SProofMessages preprepares prepares)"
| "sa_proof_messages_loop E log (v # current) preprepares prepares = do {
     preprepare_msg \<leftarrow> sa_get_preprepare_messages_by_request_hash E log (fst v);
     prepare_msg \<leftarrow> sa_get_prepare_messages_by_request_hash E log (fst v);
     sa_proof_messages_loop E log current (preprepares @ preprepare_msg) (prepares @ prepare_msg)
   }"

definition sa_get_proof_messages :: "'a sa_ext_scheme \<Rightarrow> sa_log \<Rightarrow> sa_proof_messages option" where
  "sa_get_proof_messages E log = sa_proof_messages_loop E log (scurrent_requests log) [] []"

subsection \<open>Discarding messages below a stable checkpoint\<close>

definition sa_stale_message_keys ::
    "'a sa_ext_scheme \<Rightarrow> string list \<Rightarrow> u64 \<Rightarrow> sa_log \<Rightarrow> (string \<times> string \<times> string) list" where
  "sa_stale_message_keys E rks n log = List.map_filter
     (\<lambda>request_hash. case srequest_map log request_hash of
        Some (v, sequence_number) \<Rightarrow>
          if sequence_number \<le> n
          then Some (sa_preprepare_key_by_request_hash E (as_bytes request_hash) v sequence_number,
                     sa_prepare_key_by_request_hash E (as_bytes request_hash) v sequence_number,
                     sa_commit_key_by_request_hash E (as_bytes request_hash) v sequence_number)
          else None
      | None \<Rightarrow> None) rks"

definition sa_discard_messages_before_stable_checkpoint ::
    "'a sa_ext_scheme \<Rightarrow> string list \<Rightarrow> (u64 \<times> string) list \<Rightarrow> u64 \<Rightarrow> sa_log \<Rightarrow> sa_log" where
  "sa_discard_messages_before_stable_checkpoint E rks cks n log =
     (let message_keys = sa_stale_message_keys E rks n log;
          checkpoint_keys = filter (\<lambda>k. fst k < n) cks;
          msgs = foldl (\<lambda>m (k1, k2, k3). m(k1 := None, k2 := None, k3 := None)) (smessages log) message_keys;
          cps = foldl (\<lambda>m k. m(k := None)) (scheckpoints log) checkpoint_keys
      in log\<lparr>smessages := msgs, scheckpoints := cps\<rparr>)"

subsection \<open>What a new view is built from\<close>

text \<open>The loop over the prepares of one view change, and over the view changes.\<close>

fun sa_max_prepare_loop :: "u64 \<Rightarrow> sa_message_type list \<Rightarrow> u64" where
  "sa_max_prepare_loop mx [] = mx"
| "sa_max_prepare_loop mx (SPrepare prepare # ms) =
     (if p_number prepare > mx then sa_max_prepare_loop (p_number prepare) ms else sa_max_prepare_loop mx ms)"
| "sa_max_prepare_loop mx (_ # ms) = sa_max_prepare_loop mx ms"

definition sa_get_max_sequence_number_in_viewchange_by_view :: "sa_log \<Rightarrow> u64 \<Rightarrow> u64" where
  "sa_get_max_sequence_number_in_viewchange_by_view log v =
     foldl (\<lambda>mx viewchange. sa_max_prepare_loop mx (sproof_prepares (sv_proof_messages viewchange)))
       0 (bucket (sviewchanges log) v)"

fun sa_first_preprepare_loop ::
    "(u64 \<rightharpoonup> pre_prepare) \<Rightarrow> sa_message_type list \<Rightarrow> (u64 \<rightharpoonup> pre_prepare)" where
  "sa_first_preprepare_loop m [] = m"
| "sa_first_preprepare_loop m (SPrePrepare preprepare # ms) =
     (if m (pp_number preprepare) = None
      then sa_first_preprepare_loop (m(pp_number preprepare \<mapsto> preprepare)) ms
      else sa_first_preprepare_loop m ms)"
| "sa_first_preprepare_loop m (_ # ms) = sa_first_preprepare_loop m ms"

definition sa_preprepare_map :: "sa_view_change list \<Rightarrow> (u64 \<rightharpoonup> pre_prepare)" where
  "sa_preprepare_map vcs =
     foldl (\<lambda>m viewchange. sa_first_preprepare_loop m (sproof_preprepares (sv_proof_messages viewchange)))
       Map.empty vcs"

text \<open>\<open>pks\<close> is the iteration order of the local map.\<close>

definition sa_get_preprepare_for_not_executed_request_by_view ::
    "u64 list \<Rightarrow> sa_log \<Rightarrow> u64 \<Rightarrow> u64 \<Rightarrow> u64 \<Rightarrow> pre_prepare list" where
  "sa_get_preprepare_for_not_executed_request_by_view pks log v mn mx =
     List.map_filter (sa_preprepare_map (bucket (sviewchanges log) v)) (filter (\<lambda>k. k > mn \<and> k \<le> mx) pks)"

text \<open>
  The pre-prepares of the new view for the numbers in \<open>(min + 1)..(max + 1)\<close>: the one some view
  change proves, or a null request.
\<close>

definition sa_fill_preprepares ::
    "(u64 \<rightharpoonup> pre_prepare) \<Rightarrow> u64 \<Rightarrow> u64 \<Rightarrow> u64 \<Rightarrow> pre_prepare list option" where
  "sa_fill_preprepares m v mn mx = do {
     lo \<leftarrow> u64_add mn 1;
     hi \<leftarrow> u64_add mx 1;
     Some (map (\<lambda>i. case m i of
                  Some preprepare \<Rightarrow> preprepare
                | None \<Rightarrow> \<lparr>pp_view = v, pp_number = i, pp_m_hash = ''NULL'', pp_m = [],
                           pp_signature = [], pp_from_peer_id = []\<rparr>)
            (map of_nat [unat lo..<unat hi]))
   }"

definition sa_create_newview_preprepare_messages ::
    "sa_log \<Rightarrow> u64 \<Rightarrow> u64 \<Rightarrow> u64 \<Rightarrow> pre_prepare list option" where
  "sa_create_newview_preprepare_messages log v mn mx =
     sa_fill_preprepares (sa_preprepare_map (bucket (sviewchanges log) v)) v mn mx"

subsection \<open>The controller's log\<close>

record sa_controller_log =
  sctl_messages :: "string \<rightharpoonup> sa_message_type list"
  srequests_instant :: "(string \<times> instant) list"

definition sa_controller_log_new :: sa_controller_log where
  "sa_controller_log_new = \<lparr>sctl_messages = Map.empty, srequests_instant = []\<rparr>"

definition sctl_record_request :: "'a sa_ext_scheme \<Rightarrow> sa_controller_log \<Rightarrow> sa_request \<Rightarrow> sa_controller_log" where
  "sctl_record_request E log msg =
     (let msg_type = SaRequest msg; key_hash = sa_message_key E msg_type
      in log\<lparr>sctl_messages := push_bucket (sctl_messages log) key_hash msg_type\<rparr>)"

definition sctl_record_reply :: "'a sa_ext_scheme \<Rightarrow> sa_controller_log \<Rightarrow> sa_reply \<Rightarrow> sa_controller_log" where
  "sctl_record_reply E log msg =
     (let msg_type = SaReply msg; key_hash = sa_message_key E msg_type
      in log\<lparr>sctl_messages := push_bucket (sctl_messages log) key_hash msg_type\<rparr>)"

fun sctl_record_message_handler ::
    "'a sa_ext_scheme \<Rightarrow> sa_controller_log \<Rightarrow> sa_message_type \<Rightarrow> sa_controller_log" where
  "sctl_record_message_handler E log (SaRequest request) = sctl_record_request E log request"
| "sctl_record_message_handler E log (SaReply reply) = sctl_record_reply E log reply"
| "sctl_record_message_handler E log _ = log"

definition sctl_get_local_messages_by_hash :: "sa_controller_log \<Rightarrow> string \<Rightarrow> sa_message_type list" where
  "sctl_get_local_messages_by_hash log hash = bucket (sctl_messages log) hash"

definition sctl_get_local_messages_count_by_hash :: "sa_controller_log \<Rightarrow> string \<Rightarrow> nat" where
  "sctl_get_local_messages_count_by_hash log hash = bucket_len (sctl_messages log) hash"

subsection \<open>What the operations change\<close>

text \<open>The parts of the log that no operation of it writes, or that only one writes.\<close>

lemma sa_record_message_frame [log_simps]:
  "srequests (sa_record_message_handler E log m) = srequests log"
  "srequest_map (sa_record_message_handler E log m) = srequest_map log"
  "srequest_phase_state (sa_record_message_handler E log m) = srequest_phase_state log"
  "scurrent_requests (sa_record_message_handler E log m) = scurrent_requests log"
  by (cases m; simp add: sa_record_preprepare_def sa_record_prepare_def sa_record_commit_def
      sa_record_reply_def sa_record_checkpoint_def sa_record_viewchange_def Let_def)+

lemma sa_log_frame [log_simps]:
  "srequest_map (sa_record_request n r log) = srequest_map log"
  "srequest_map (sa_record_current_request t k log) = srequest_map log"
  "srequest_map (sa_remove_commited_request log) = srequest_map log"
  "srequest_map (sa_clear_current_request log) = srequest_map log"
  "srequest_map (sa_update_request_phase_state k st log) = srequest_map log"
  "srequest_map (sa_discard_messages_before_stable_checkpoint E rks cks n log) = srequest_map log"
  "srequests (sa_record_current_request t k log) = srequests log"
  "srequests (sa_remove_commited_request log) = srequests log"
  "srequests (sa_clear_current_request log) = srequests log"
  "srequests (sa_update_request_phase_state k st log) = srequests log"
  "srequests (sa_discard_messages_before_stable_checkpoint E rks cks n log) = srequests log"
  by (simp_all add: sa_record_request_def sa_record_current_request_def sa_remove_commited_request_def
      sa_clear_current_request_def sa_update_request_phase_state_def
      sa_discard_messages_before_stable_checkpoint_def Let_def)

text \<open>A recorded request stays: the first request recorded for a number is the only one.\<close>

lemma sa_record_request_keeps: "srequests log n = Some r \<Longrightarrow> srequests (sa_record_request k x log) n = Some r"
  by (auto simp: sa_record_request_def)

lemma sa_record_request_self:
  "srequests (sa_record_request n x log) n =
   Some (case srequests log n of None \<Rightarrow> x | Some r \<Rightarrow> r)"
  by (auto simp: sa_record_request_def)

lemma sa_update_checkpoint_state_frame [log_simps]:
  "sview (sa_update_checkpoint_state E h s) = sview s"
  "scurrent_sequence_number (sa_update_checkpoint_state E h s) = scurrent_sequence_number s"
  "sis_primary (sa_update_checkpoint_state E h s) = sis_primary s"
  "sfault_tolerance_count (sa_update_checkpoint_state E h s) = sfault_tolerance_count s"
  "smode (sa_update_checkpoint_state E h s) = smode s"
  "sstable_checkpoint (sa_update_checkpoint_state E h s) = sstable_checkpoint s"
  "scurrent_commited_request_count (sa_update_checkpoint_state E h s) = scurrent_commited_request_count s"
  by (simp_all add: sa_update_checkpoint_state_def Let_def)

text \<open>The kinds of message the log keeps in \<open>messages\<close>, under their key.\<close>

fun sa_quorum_message :: "sa_message_type \<Rightarrow> bool" where
  "sa_quorum_message (SPrePrepare _) = True"
| "sa_quorum_message (SPrepare _) = True"
| "sa_quorum_message (SCommit _) = True"
| "sa_quorum_message (SaReply _) = True"
| "sa_quorum_message _ = False"

lemma sa_record_quorum_message:
  "sa_quorum_message m \<Longrightarrow>
   smessages (sa_record_message_handler E log m) = push_bucket (smessages log) (sa_message_key E m) m"
  by (cases m) (simp_all add: sa_record_preprepare_def sa_record_prepare_def sa_record_commit_def
      sa_record_reply_def Let_def)

declare sa_record_message_handler.simps [simp del]

text \<open>The view changes and the checkpoints are kept in buckets of their own.\<close>

interpretation sa_views: bucket_store sa_record_viewchange sa_get_viewchange_messages_by_view
    sa_get_viewchange_messages_count_by_view sv_new_view "\<lambda>v. v"
  by unfold_locales (simp_all add: sa_record_viewchange_def sa_get_viewchange_messages_by_view_def
      sa_get_viewchange_messages_count_by_view_def)

interpretation sa_checkpoints: bucket_store sa_record_checkpoint "\<lambda>log. bucket (scheckpoints log)"
    "\<lambda>log (n, d). sa_get_checkpoint_count log n d"
    "\<lambda>c. (current_max_number c, checkpoint_state_digest c)" "\<lambda>c. c"
  by unfold_locales (auto simp: sa_record_checkpoint_def sa_get_checkpoint_count_def)

interpretation sa_replies: bucket_store "sctl_record_reply E" sctl_get_local_messages_by_hash
    sctl_get_local_messages_count_by_hash "\<lambda>r. sa_message_key E (SaReply r)" SaReply
  by unfold_locales (simp_all add: sctl_record_reply_def sctl_get_local_messages_by_hash_def
      sctl_get_local_messages_count_by_hash_def Let_def)

end
