(* ===== verification/SA_PBFT.thy ===== *)
theory SA_PBFT
  imports SA_PBFT_Log
begin

text \<open>
  The stand-alone PBFT node: the executor with its message handlers
  (\<open>consensus/src/pbft/executor.rs\<close>), the event loop around it (\<open>node.rs\<close>) and the controller
  (\<open>ControllerExecutor\<close>, \<open>controller_node.rs\<close>). A handler returns the new executor and the byte
  strings it puts into the bounded channel \<open>msg_tx\<close>; \<open>None\<close> is a panic. Durations and instants are
  in nanoseconds.
\<close>

subsection \<open>The executor\<close>

record sa_executor =
  sx_state :: sa_state
  sx_log :: sa_log
  sx_db :: level_db
  sx_keypair :: bytes

text \<open>\<open>db\<close> is what the database at the node's path holds, \<open>kp\<close> the generated key pair.\<close>

definition sa_executor_new :: "level_db \<Rightarrow> bytes \<Rightarrow> sa_executor" where
  "sa_executor_new db kp =
     \<lparr>sx_state = sa_state_new 5000000000, sx_log = sa_log_new, sx_db = db, sx_keypair = kp\<rparr>"

text \<open>What a step sees of its surroundings: the iteration orders of two hash maps, and the time.\<close>

record sa_ctx =
  cx_request_map_order :: "string list"
  cx_checkpoints_order :: "(u64 \<times> string) list"
  cx_time :: instant

definition sa_send :: "'a sa_ext_scheme \<Rightarrow> sa_message_type \<Rightarrow> bytes" where
  "sa_send E m = bin_sa_message E \<lparr>sa_msg_type = m\<rparr>"

subsection \<open>The timeout task\<close>

text \<open>One turn of the loop spawned by \<open>timeout_check_start\<close>: does it notify a view change?\<close>

definition sa_timeout_check :: "sa_state \<Rightarrow> sa_log \<Rightarrow> instant \<Rightarrow> bool" where
  "sa_timeout_check st log t =
     (case smode st of
        Abnormal \<Rightarrow> False
      | Normal \<Rightarrow> (case scurrent_requests log of
           [] \<Rightarrow> False
         | request # _ \<Rightarrow> t - snd request > to_duration (scommited_timeout st)))"

subsection \<open>Public keys\<close>

definition sa_storage_public_key_by_peer_id ::
    "'a sa_ext_scheme \<Rightarrow> level_db \<Rightarrow> public_key \<Rightarrow> level_db option" where
  "sa_storage_public_key_by_peer_id E db public_key = do {
     db1 \<leftarrow> db_write (u512_from E) db (pk_from_peer_id public_key) (pk public_key);
     read_value \<leftarrow> db_read (u512_from E) db1 (pk_from_peer_id public_key);
     _ \<leftarrow> read_value;
     _ \<leftarrow> peer_from_bytes E (pk_from_peer_id public_key);
     Some db1
   }"

definition sa_get_public_key_by_peer_id ::
    "'a sa_ext_scheme \<Rightarrow> level_db \<Rightarrow> bytes \<Rightarrow> bytes option option" where
  "sa_get_public_key_by_peer_id E db peer_id = db_read (u512_from E) db peer_id"

definition sa_distribute_public_key :: "'a sa_ext_scheme \<Rightarrow> sa_executor \<Rightarrow> bytes \<Rightarrow> bytes list" where
  "sa_distribute_public_key E x current_peer_id =
     [sa_send E (SPublicKey \<lparr>pk = eddsa_get_public_key E (sx_keypair x), pk_from_peer_id = current_peer_id\<rparr>)]"

text \<open>The check at the head of the handlers: the sender's key is known and verifies the signature.\<close>

definition sa_signature_ok ::
    "'a sa_ext_scheme \<Rightarrow> level_db \<Rightarrow> bytes \<Rightarrow> bytes \<Rightarrow> string \<Rightarrow> bool option" where
  "sa_signature_ok E db from_peer_id signature key_str = do {
     source_pk \<leftarrow> sa_get_public_key_by_peer_id E db from_peer_id;
     _ \<leftarrow> peer_from_bytes E from_peer_id;
     Some (case source_pk of
         Some key \<Rightarrow> eddsa_verify E key signature (as_bytes key_str)
       | None \<Rightarrow> False)
   }"

subsection \<open>View change\<close>

definition sa_broadcast_viewchange ::
    "'a sa_ext_scheme \<Rightarrow> sa_ctx \<Rightarrow> bytes \<Rightarrow> sa_executor \<Rightarrow> (sa_executor \<times> bytes list) option" where
  "sa_broadcast_viewchange E cx current_peer_id x =
     (case smode (sx_state x) of
        Abnormal \<Rightarrow> Some (x, [])
      | Normal \<Rightarrow> do {
          let st = (sx_state x)\<lparr>smode := Abnormal\<rparr>;
          threshold \<leftarrow> u64_mul 2 (sfault_tolerance_count st);
          let latest = sa_get_checkpoint_messages_by_sequence_number (cx_checkpoints_order cx) (sx_log x)
                (fst (sstable_checkpoint st)) threshold;
          proof_msgs \<leftarrow> sa_get_proof_messages E (sx_log x);
          new_view \<leftarrow> u64_add (sview st) 1;
          Some (x\<lparr>sx_state := st\<rparr>,
            [sa_send E (SViewChange (SViewChangeMsg new_view (fst (sstable_checkpoint st)) latest proof_msgs
               current_peer_id ''''))])
        })"

definition sa_broadcast_newview ::
    "'a sa_ext_scheme \<Rightarrow> sa_executor \<Rightarrow> u64 \<Rightarrow> (sa_executor \<times> bytes list) option" where
  "sa_broadcast_newview E x new_view = do {
     let vcs = sa_get_viewchange_messages_by_view (sx_log x) new_view;
     mn \<leftarrow> (case vcs of v # _ \<Rightarrow> Some (sv_latest_stable_checkpoint v) | [] \<Rightarrow> None);
     let mx = sa_get_max_sequence_number_in_viewchange_by_view (sx_log x) new_view;
     preprepares \<leftarrow> sa_create_newview_preprepare_messages (sx_log x) new_view mn mx;
     Some (x, [sa_send E (SNewView (SNewViewMsg new_view vcs preprepares ''''))])
   }"

definition sa_handle_viewchange ::
    "'a sa_ext_scheme \<Rightarrow> sa_ctx \<Rightarrow> bytes \<Rightarrow> sa_executor \<Rightarrow> sa_view_change \<Rightarrow> (sa_executor \<times> bytes list) option" where
  "sa_handle_viewchange E cx current_peer_id x msg =
     (let new_view = sv_new_view msg in
      if new_view \<le> sview (sx_state x) then Some (x, [])
      else do {
        let x1 = x\<lparr>sx_log := sa_record_message_handler E (sx_log x) (SViewChange msg)\<rparr>;
        let msg_count = sa_get_viewchange_messages_count_by_view (sx_log x1) new_view;
        if msg_count > unat (sfault_tolerance_count (sx_state x1)) \<and> smode (sx_state x1) = Normal
        then sa_broadcast_viewchange E cx current_peer_id x1
        else if sis_primary (sx_state x1)
        then do {
          threshold \<leftarrow> u64_mul 2 (sfault_tolerance_count (sx_state x1));
          if msg_count > unat threshold then sa_broadcast_newview E x1 new_view else Some (x1, [])
        }
        else Some (x1, [])
      })"

subsection \<open>Checking a new view\<close>

text \<open>
  \<open>verify_viewchange\<close>: the sender of a matching checkpoint is inserted into the set of senders
  when the set contains it already, as the source has it.
\<close>

definition sa_verify_viewchange :: "sa_state \<Rightarrow> sa_view_change \<Rightarrow> bool option" where
  "sa_verify_viewchange st viewchange = do {
     let matching = filter (\<lambda>c. current_max_number c = fst (sstable_checkpoint st) \<and>
                                checkpoint_state_digest c = snd (sstable_checkpoint st))
                      (sv_latest_stable_checkpoint_messages viewchange);
     let ids = foldl (\<lambda>ids c. if cp_from_peer_id c \<in> ids \<and> True then insert (cp_from_peer_id c) ids else ids)
                 {} matching;
     threshold \<leftarrow> u64_mul 2 (sfault_tolerance_count st);
     Some (card ids > unat threshold)
   }"

text \<open>The \<open>for_each\<close> over the view changes; the second condition is evaluated only after the first.\<close>

fun sa_viewchange_ids :: "sa_state \<Rightarrow> bytes set \<Rightarrow> sa_view_change list \<Rightarrow> bytes set option" where
  "sa_viewchange_ids st ids [] = Some ids"
| "sa_viewchange_ids st ids (v # vs) = do {
     ok \<leftarrow> (if sv_from_peer_id v \<in> ids then sa_verify_viewchange st v else Some False);
     sa_viewchange_ids st (if ok then insert (sv_from_peer_id v) ids else ids) vs
   }"

definition sa_verify_viewchanges_in_newview :: "sa_state \<Rightarrow> sa_view_change list \<Rightarrow> bool option" where
  "sa_verify_viewchanges_in_newview st vcs = do {
     ids \<leftarrow> sa_viewchange_ids st {} vcs;
     threshold \<leftarrow> u64_mul 2 (sfault_tolerance_count st);
     Some (card ids > unat threshold)
   }"

definition sa_get_max_sequence_number_by_viewchanges :: "sa_view_change list \<Rightarrow> u64" where
  "sa_get_max_sequence_number_by_viewchanges vcs =
     foldl (\<lambda>mx viewchange. sa_max_prepare_loop mx (sproof_prepares (sv_proof_messages viewchange))) 0 vcs"

definition sa_verify_preprepares_in_newview ::
    "sa_view_change list \<Rightarrow> pre_prepare list \<Rightarrow> u64 \<Rightarrow> bool option" where
  "sa_verify_preprepares_in_newview vcs preprepares new_view = do {
     mn \<leftarrow> (case vcs of v # _ \<Rightarrow> Some (sv_latest_stable_checkpoint v) | [] \<Rightarrow> None);
     let mx = sa_get_max_sequence_number_by_viewchanges vcs;
     recreated \<leftarrow> sa_fill_preprepares (sa_preprepare_map vcs) new_view mn mx;
     Some (list_all (\<lambda>(p1, p2). p1 = p2) (zip recreated preprepares))
   }"

definition sa_verify_newview :: "sa_state \<Rightarrow> sa_new_view \<Rightarrow> bool option" where
  "sa_verify_newview st newview = do {
     viewchanges_valid \<leftarrow> sa_verify_viewchanges_in_newview st (sn_viewchanges newview);
     preprepares_valid \<leftarrow> sa_verify_preprepares_in_newview (sn_viewchanges newview)
       (sn_preprepares newview) (sn_view newview);
     Some (viewchanges_valid \<and> preprepares_valid)
   }"

text \<open>The loop of \<open>handle_newview\<close>; it sends a bare \<open>MessageType\<close>, not a \<open>Message\<close>.\<close>

fun sa_newview_loop :: "'a sa_ext_scheme \<Rightarrow> instant \<Rightarrow> u64 \<Rightarrow> bytes \<Rightarrow> pre_prepare list \<Rightarrow> sa_log \<Rightarrow>
    bytes list \<Rightarrow> sa_log \<times> bytes list" where
  "sa_newview_loop E t v current_peer_id [] log out = (log, out)"
| "sa_newview_loop E t v current_peer_id (preprepare # ps) log out =
     (let log1 = sa_record_message_handler E log (SPrePrepare preprepare);
          prepare = \<lparr>p_view = v, p_number = pp_number preprepare, p_m_hash = pp_m_hash preprepare,
                     p_from_peer_id = current_peer_id, p_signature = []\<rparr>;
          log2 = sa_record_current_request t (pp_m_hash preprepare) log1
      in sa_newview_loop E t v current_peer_id ps log2 (out @ [bin_sa_message_type E (SPrepare prepare)]))"

definition sa_handle_newview ::
    "'a sa_ext_scheme \<Rightarrow> sa_ctx \<Rightarrow> bytes \<Rightarrow> sa_executor \<Rightarrow> sa_new_view \<Rightarrow> (sa_executor \<times> bytes list) option" where
  "sa_handle_newview E cx current_peer_id x msg = do {
     valid \<leftarrow> sa_verify_newview (sx_state x) msg;
     if \<not> valid then Some (x, [])
     else do {
       let st = (sx_state x)\<lparr>sview := sn_view msg, smode := Normal\<rparr>;
       let (log2, out) = sa_newview_loop E (cx_time cx) (sn_view msg) current_peer_id (sn_preprepares msg)
             (sa_clear_current_request (sx_log x)) [];
       Some (x\<lparr>sx_state := st, sx_log := log2\<rparr>, out)
     }
   }"

subsection \<open>Normal case\<close>

definition sa_handle_request ::
    "'a sa_ext_scheme \<Rightarrow> bytes \<Rightarrow> sa_executor \<Rightarrow> sa_request \<Rightarrow> (sa_executor \<times> bytes list) option" where
  "sa_handle_request E current_peer_id x r = do {
     seq_number \<leftarrow> u64_add (scurrent_sequence_number (sx_state x)) 1;
     let serialized_request = bin_sa_request E r;
     let x1 = x\<lparr>sx_log := sa_record_request seq_number r (sx_log x)\<rparr>;
     let preprepare = \<lparr>pp_view = sview (sx_state x), pp_number = seq_number,
                       pp_m_hash = get_hash_str E serialized_request, pp_m = serialized_request,
                       pp_signature = [], pp_from_peer_id = current_peer_id\<rparr>;
     let signature = eddsa_sign E (sx_keypair x) (as_bytes (sa_message_key E (SPrePrepare preprepare)));
     Some (x1, [sa_send E (SPrePrepare (preprepare\<lparr>pp_signature := signature\<rparr>))])
   }"

definition sa_handle_preprepare ::
    "'a sa_ext_scheme \<Rightarrow> sa_ctx \<Rightarrow> bytes \<Rightarrow> sa_executor \<Rightarrow> pre_prepare \<Rightarrow> (sa_executor \<times> bytes list) option" where
  "sa_handle_preprepare E cx current_peer_id x msg = do {
     let key_str = sa_message_key E (SPrePrepare msg);
     ok \<leftarrow> sa_signature_ok E (sx_db x) (pp_from_peer_id msg) (pp_signature msg) key_str;
     if \<not> ok then Some (x, [])
     else do {
       let low = fst (sstable_checkpoint (sx_state x));
       high \<leftarrow> u64_add low 100;
       if pp_number msg \<le> low \<or> pp_number msg > high then Some (x, [])
       else if sview (sx_state x) \<noteq> pp_view msg then Some (x, [])
       else do {
         m \<leftarrow> from_bin_sa_request E (pp_m msg);
         let log1 = sa_record_request (pp_number msg) m (sx_log x);
         let log2 = sa_record_message_handler E log1 (SPrePrepare msg);
         let prepare = \<lparr>p_view = sview (sx_state x), p_number = pp_number msg, p_m_hash = pp_m_hash msg,
                        p_from_peer_id = current_peer_id, p_signature = []\<rparr>;
         let signature = eddsa_sign E (sx_keypair x) (as_bytes (sa_message_key E (SPrepare prepare)));
         let log3 = sa_record_current_request (cx_time cx) (pp_m_hash msg) log2;
         Some (x\<lparr>sx_log := log3\<rparr>, [sa_send E (SPrepare (prepare\<lparr>p_signature := signature\<rparr>))])
       }
     }
   }"

definition sa_handle_prepare ::
    "'a sa_ext_scheme \<Rightarrow> bytes \<Rightarrow> sa_executor \<Rightarrow> prepare \<Rightarrow> (sa_executor \<times> bytes list) option" where
  "sa_handle_prepare E current_peer_id x msg = do {
     let key_str = sa_message_key E (SPrepare msg);
     ok \<leftarrow> sa_signature_ok E (sx_db x) (p_from_peer_id msg) (p_signature msg) key_str;
     if \<not> ok then Some (x, [])
     else if sa_get_request_phase_state (sx_log x) (p_m_hash msg) = Some LogPrepared then Some (x, [])
     else do {
       let low = fst (sstable_checkpoint (sx_state x));
       high \<leftarrow> u64_add low 100;
       if p_number msg \<le> low \<or> p_number msg > high then Some (x, [])
       else if sview (sx_state x) \<noteq> p_view msg then Some (x, [])
       else case sa_get_local_request_by_sequence_number (sx_log x) (p_number msg) of
         None \<Rightarrow> Some (x, [])
       | Some m \<Rightarrow>
           if sa_message_key E (SaRequest m) \<noteq> p_m_hash msg then Some (x, [])
           else do {
             let log1 = sa_record_message_handler E (sx_log x) (SPrepare msg);
             let current_count = sa_get_local_messages_count_by_hash log1 key_str;
             threshold \<leftarrow> u64_mul 2 (sfault_tolerance_count (sx_state x));
             if current_count = unat threshold
             then do {
               let log2 = sa_update_request_phase_state (p_m_hash msg) LogPrepared log1;
               let commit = \<lparr>c_view = sview (sx_state x), c_number = p_number msg, c_m_hash = p_m_hash msg,
                             c_from_peer_id = current_peer_id, c_signature = []\<rparr>;
               let signature = eddsa_sign E (sx_keypair x) (as_bytes (sa_message_key E (SCommit commit)));
               Some (x\<lparr>sx_log := log2\<rparr>, [sa_send E (SCommit (commit\<lparr>c_signature := signature\<rparr>))])
             }
             else Some (x\<lparr>sx_log := log1\<rparr>, [])
           }
     }
   }"

text \<open>
  What \<open>handle_commit\<close> does when the last commit of the certificate arrives: the counters, the
  checkpoint message every fiftieth time, and the reply.
\<close>

definition sa_commit_request ::
    "'a sa_ext_scheme \<Rightarrow> bytes \<Rightarrow> sa_executor \<Rightarrow> commit \<Rightarrow> sa_request \<Rightarrow> sa_log \<Rightarrow>
     (sa_executor \<times> bytes list) option" where
  "sa_commit_request E current_peer_id x msg m log1 = do {
     let st1 = sa_update_checkpoint_state E (c_m_hash msg) (sx_state x);
     let log2 = sa_remove_commited_request log1;
     commited \<leftarrow> u64_add (scurrent_commited_request_count st1) 1;
     let st2 = st1\<lparr>scurrent_commited_request_count := commited\<rparr>;
     checkpoint_out \<leftarrow> (if commited \<noteq> 0 \<and> commited mod STABLE_CHECKPOINT_DELTA = 0
        then do {
          current_max \<leftarrow> u64_add (fst (sstable_checkpoint st2)) STABLE_CHECKPOINT_DELTA;
          Some [sa_send E (SCheckPoint \<lparr>current_max_number = current_max,
            checkpoint_state_digest = scheckpoint_state st2, cp_from_peer_id = current_peer_id,
            cp_signature = ''''\<rparr>)]
        }
        else Some []);
     let log3 = sa_update_request_phase_state (c_m_hash msg) LogCommited log2;
     let reply = \<lparr>rp_client_id = rq_client_id m, rp_timestamp = rq_timestamp m, rp_view = sview st2,
                  rp_number = c_number msg, rp_from_peer_id = current_peer_id, rp_signature = [],
                  rp_result = as_bytes ''ok!''\<rparr>;
     let signature = eddsa_sign E (sx_keypair x) (as_bytes (sa_message_key E (SaReply reply)));
     Some (x\<lparr>sx_state := st2, sx_log := log3\<rparr>,
           checkpoint_out @ [sa_send E (SaReply (reply\<lparr>rp_signature := signature\<rparr>))])
   }"

definition sa_handle_commit ::
    "'a sa_ext_scheme \<Rightarrow> bytes \<Rightarrow> sa_executor \<Rightarrow> commit \<Rightarrow> (sa_executor \<times> bytes list) option" where
  "sa_handle_commit E current_peer_id x msg = do {
     let key_str = sa_message_key E (SCommit msg);
     ok \<leftarrow> sa_signature_ok E (sx_db x) (c_from_peer_id msg) (c_signature msg) key_str;
     if \<not> ok then Some (x, [])
     else if sa_get_request_phase_state (sx_log x) (c_m_hash msg) = Some LogCommited then Some (x, [])
     else do {
       let low = fst (sstable_checkpoint (sx_state x));
       high \<leftarrow> u64_add low 100;
       if c_number msg \<le> low \<or> c_number msg > high then Some (x, [])
       else if sview (sx_state x) \<noteq> c_view msg then Some (x, [])
       else case sa_get_local_request_by_sequence_number (sx_log x) (c_number msg) of
         None \<Rightarrow> Some (x, [])
       | Some m \<Rightarrow>
           if sa_message_key E (SaRequest m) \<noteq> c_m_hash msg then Some (x, [])
           else do {
             let log1 = sa_record_message_handler E (sx_log x) (SCommit msg);
             let current_count = sa_get_local_messages_count_by_hash log1 key_str;
             threshold \<leftarrow> u64_mul 2 (sfault_tolerance_count (sx_state x));
             if current_count = unat threshold then sa_commit_request E current_peer_id x msg m log1
             else Some (x\<lparr>sx_log := log1\<rparr>, [])
           }
     }
   }"

definition sa_handle_reply ::
    "'a sa_ext_scheme \<Rightarrow> sa_executor \<Rightarrow> sa_reply \<Rightarrow> (sa_executor \<times> bytes list) option" where
  "sa_handle_reply E x msg =
     (if sclient_state (sx_state x) = ClientReplied then Some (x, [])
      else do {
        let key_str = sa_message_key E (SaReply msg);
        ok \<leftarrow> sa_signature_ok E (sx_db x) (rp_from_peer_id msg) (rp_signature msg) key_str;
        if \<not> ok then Some (x, [])
        else do {
          let log1 = sa_record_message_handler E (sx_log x) (SaReply msg);
          let current_count = sa_get_local_messages_count_by_hash log1 key_str;
          reply_threshold \<leftarrow> u64_add (sfault_tolerance_count (sx_state x)) 1;
          if current_count = unat reply_threshold
          then if utf8_valid (rp_result msg)
               then Some (x\<lparr>sx_state := (sx_state x)\<lparr>sclient_state := ClientReplied\<rparr>, sx_log := log1\<rparr>, [])
               else None
          else Some (x\<lparr>sx_log := log1\<rparr>, [])
        }
      })"

definition sa_handle_checkpoint ::
    "'a sa_ext_scheme \<Rightarrow> sa_ctx \<Rightarrow> sa_executor \<Rightarrow> check_point \<Rightarrow> (sa_executor \<times> bytes list) option" where
  "sa_handle_checkpoint E cx x msg = do {
     let log1 = sa_record_message_handler E (sx_log x) (SCheckPoint msg);
     let current_checkpoint_count =
           sa_get_checkpoint_count log1 (current_max_number msg) (checkpoint_state_digest msg);
     threshold \<leftarrow> u64_mul 2 (sfault_tolerance_count (sx_state x));
     if current_checkpoint_count = unat threshold
     then Some (x\<lparr>sx_state := (sx_state x)\<lparr>sstable_checkpoint :=
                    (current_max_number msg, checkpoint_state_digest msg)\<rparr>,
                  sx_log := sa_discard_messages_before_stable_checkpoint E (cx_request_map_order cx)
                    (cx_checkpoints_order cx) (current_max_number msg) log1\<rparr>, [])
     else Some (x\<lparr>sx_log := log1\<rparr>, [])
   }"

subsection \<open>Dispatch\<close>

fun sa_normal_dispatch ::
    "'a sa_ext_scheme \<Rightarrow> sa_ctx \<Rightarrow> bytes \<Rightarrow> sa_executor \<Rightarrow> sa_message_type \<Rightarrow> (sa_executor \<times> bytes list) option" where
  "sa_normal_dispatch E cx pid x (SaRequest m) = sa_handle_request E pid x m"
| "sa_normal_dispatch E cx pid x (SPrePrepare m) = sa_handle_preprepare E cx pid x m"
| "sa_normal_dispatch E cx pid x (SPrepare m) = sa_handle_prepare E pid x m"
| "sa_normal_dispatch E cx pid x (SCommit m) = sa_handle_commit E pid x m"
| "sa_normal_dispatch E cx pid x (SaReply m) = sa_handle_reply E x m"
| "sa_normal_dispatch E cx pid x (SCheckPoint m) = sa_handle_checkpoint E cx x m"
| "sa_normal_dispatch E cx pid x (SViewChange m) = sa_handle_viewchange E cx pid x m"
| "sa_normal_dispatch E cx pid x (SNewView m) = sa_handle_newview E cx pid x m"
| "sa_normal_dispatch E cx pid x SDistributePK = Some (x, sa_distribute_public_key E x pid)"
| "sa_normal_dispatch E cx pid x (SPublicKey m) = do {
     db \<leftarrow> sa_storage_public_key_by_peer_id E (sx_db x) m;
     Some (x\<lparr>sx_db := db\<rparr>, [])
   }"

fun sa_abnormal_dispatch ::
    "'a sa_ext_scheme \<Rightarrow> sa_ctx \<Rightarrow> bytes \<Rightarrow> sa_executor \<Rightarrow> sa_message_type \<Rightarrow> (sa_executor \<times> bytes list) option" where
  "sa_abnormal_dispatch E cx pid x (SCheckPoint m) = sa_handle_checkpoint E cx x m"
| "sa_abnormal_dispatch E cx pid x (SViewChange m) = sa_handle_viewchange E cx pid x m"
| "sa_abnormal_dispatch E cx pid x (SNewView m) = sa_handle_newview E cx pid x m"
| "sa_abnormal_dispatch E cx pid x _ = Some (x, [])"

definition sa_dispatch ::
    "'a sa_ext_scheme \<Rightarrow> sa_ctx \<Rightarrow> bytes \<Rightarrow> sa_executor \<Rightarrow> sa_message_type \<Rightarrow> (sa_executor \<times> bytes list) option" where
  "sa_dispatch E cx pid x m =
     (case smode (sx_state x) of
        Normal \<Rightarrow> sa_normal_dispatch E cx pid x m
      | Abnormal \<Rightarrow> sa_abnormal_dispatch E cx pid x m)"

definition sa_message_handler ::
    "'a sa_ext_scheme \<Rightarrow> bytes \<Rightarrow> sa_executor \<Rightarrow> sa_ctx \<times> bytes \<Rightarrow> (sa_executor \<times> bytes list) option" where
  "sa_message_handler E current_peer_id x i = (case i of (cx, msg) \<Rightarrow> do {
     message \<leftarrow> from_bin_sa_message E msg;
     sa_dispatch E cx current_peer_id x (sa_msg_type message)
   })"

end
