(* ===== verification/SA_Common.thy ===== *)
theory SA_Common
  imports Framework_Messages
begin

text \<open>
  What the stand-alone programs of \<open>consensus/src\<close> share: the effects of their event loops on the
  network, the channel between an executor and its event loop, and the peers known through mDNS.
\<close>

datatype sa_effect =
    SUnicastTo peer_id bytes
  | SPublish string bytes
  | SAddPeer peer_id
  | SRemovePeer peer_id

text \<open>\<open>mpsc::channel::<Vec<u8>>(10)\<close>\<close>

definition sa_channel_capacity :: nat where "sa_channel_capacity = 10"

text \<open>The peers of an mDNS event; an expired one comes with what \<open>mdns.has_node\<close> answers.\<close>

definition sa_add_peers :: "'a ext_scheme \<Rightarrow> peer_id list \<Rightarrow> (string \<rightharpoonup> peer_id) \<Rightarrow> (string \<rightharpoonup> peer_id)" where
  "sa_add_peers E ps m = foldl (\<lambda>m p. m(peer_to_string E p \<mapsto> p)) m ps"

definition sa_gone :: "(peer_id \<times> bool) list \<Rightarrow> peer_id list" where
  "sa_gone ps = map fst (filter (\<lambda>(p, has_node). \<not> has_node) ps)"

definition sa_remove_peers :: "'a ext_scheme \<Rightarrow> peer_id list \<Rightarrow> (string \<rightharpoonup> peer_id) \<Rightarrow> (string \<rightharpoonup> peer_id)" where
  "sa_remove_peers E ps m = foldl (\<lambda>m p. m(peer_to_string E p := None)) m ps"

end
