(* ===== verification/SA_PBFT_Node.thy ===== *)
theory SA_PBFT_Node
  imports SA_PBFT SA_Common
begin

text \<open>
  The event loops of the stand-alone PBFT programs: \<open>ConsensusNode::message_handler_start\<close>
  (\<open>consensus/src/pbft/node.rs\<close>), and the controller with its executor (\<open>ControllerExecutor\<close> of
  \<open>executor.rs\<close>, \<open>controller_node.rs\<close>).

  The executor sends through a channel of capacity 10 that only the event loop of the same task
  empties. A handler that sends when the channel is full waits for room that nobody makes: the
  node is blocked for good.
\<close>

subsection \<open>The consensus node\<close>

record sa_node =
  sd_id :: peer_id
  sd_executor :: sa_executor
  sd_channel :: "bytes list"
  sd_connected_nodes :: "string \<rightharpoonup> peer_id"
  sd_current_leader :: peer_id

definition sa_node_new :: "peer_id \<Rightarrow> level_db \<Rightarrow> bytes \<Rightarrow> peer_id \<Rightarrow> sa_node" where
  "sa_node_new peer db kp leader =
     \<lparr>sd_id = peer, sd_executor = sa_executor_new db kp, sd_channel = [],
      sd_connected_nodes = Map.empty, sd_current_leader = leader\<rparr>"

text \<open>How one turn of the loop ends.\<close>

datatype sa_outcome =
    SRunning sa_node "sa_effect list"
  | SBlocked
  | SPanicked

text \<open>Events of \<open>select!\<close>.\<close>

datatype sa_event =
    ViewchangeNotified
  | ChannelReady
  | SUnicastReceived bytes bytes
  | SGossipReceived bytes
  | MdnsDiscovered "peer_id list"
  | MdnsExpired "(peer_id \<times> bool) list"
  | SOtherEvent

text \<open>What becomes of the node once a call of the executor has returned, or has not.\<close>

definition sa_after_call :: "sa_node \<Rightarrow> (sa_executor \<times> bytes list) option \<Rightarrow> sa_outcome" where
  "sa_after_call n r = (case r of
       None \<Rightarrow> SPanicked
     | Some (x, out) \<Rightarrow>
         if length (sd_channel n) + length out \<le> sa_channel_capacity
         then SRunning (n\<lparr>sd_executor := x, sd_channel := sd_channel n @ out\<rparr>) []
         else SBlocked)"

definition sa_channel_effect :: "'a sa_ext_scheme \<Rightarrow> bytes \<Rightarrow> sa_effect option" where
  "sa_channel_effect E msg = do {
     message \<leftarrow> from_bin_sa_message E msg;
     case sa_msg_type message of
       SaReply r \<Rightarrow> do { client_id \<leftarrow> peer_from_bytes E (rp_client_id r); Some (SUnicastTo client_id msg) }
     | SPublicKey _ \<Rightarrow> Some (SPublish ''DistributePK'' msg)
     | _ \<Rightarrow> Some (SPublish ''Consensus'' msg)
   }"

definition sa_unicast_received ::
    "'a sa_ext_scheme \<Rightarrow> sa_ctx \<Rightarrow> sa_node \<Rightarrow> bytes \<Rightarrow> bytes \<Rightarrow> sa_outcome" where
  "sa_unicast_received E cx n data source =
     (case from_bin_sa_message E data of
        None \<Rightarrow> SPanicked
      | Some msg \<Rightarrow> (case peer_from_bytes E source of
          None \<Rightarrow> SPanicked
        | Some _ \<Rightarrow> (case sa_msg_type msg of
            SaRequest _ \<Rightarrow> sa_after_call n
              (sa_message_handler E (peer_to_bytes E (sd_id n)) (sd_executor n) (cx, data))
          | _ \<Rightarrow> SRunning n [])))"

text \<open>One turn of the loop. \<open>ChannelReady\<close> on an empty channel is not a turn: the branch is pending.\<close>

fun sa_node_step :: "'a sa_ext_scheme \<Rightarrow> sa_ctx \<Rightarrow> sa_node \<Rightarrow> sa_event \<Rightarrow> sa_outcome" where
  "sa_node_step E cx n ViewchangeNotified =
     sa_after_call n (sa_broadcast_viewchange E cx (peer_to_bytes E (sd_id n)) (sd_executor n))"
| "sa_node_step E cx n ChannelReady =
     (case sd_channel n of
        [] \<Rightarrow> SRunning n []
      | msg # rest \<Rightarrow> (case sa_channel_effect E msg of
          None \<Rightarrow> SPanicked
        | Some eff \<Rightarrow> SRunning (n\<lparr>sd_channel := rest\<rparr>) [eff]))"
| "sa_node_step E cx n (SUnicastReceived data source) = sa_unicast_received E cx n data source"
| "sa_node_step E cx n (SGossipReceived data) =
     sa_after_call n (sa_message_handler E (peer_to_bytes E (sd_id n)) (sd_executor n) (cx, data))"
| "sa_node_step E cx n (MdnsDiscovered ps) = SRunning
     (n\<lparr>sd_connected_nodes := sa_add_peers E ps (sd_connected_nodes n)\<rparr>) (map SAddPeer ps)"
| "sa_node_step E cx n (MdnsExpired ps) = SRunning
     (n\<lparr>sd_connected_nodes := sa_remove_peers E (sa_gone ps) (sd_connected_nodes n)\<rparr>) (map SRemovePeer (sa_gone ps))"
| "sa_node_step E cx n SOtherEvent = SRunning n []"

text \<open>The loop as a handler: a panic and a block both end the run.\<close>

definition sa_node_turn ::
    "'a sa_ext_scheme \<Rightarrow> sa_node \<Rightarrow> sa_ctx \<times> sa_event \<Rightarrow> (sa_node \<times> sa_effect list) option" where
  "sa_node_turn E n i = (case sa_node_step E (fst i) n (snd i) of
       SRunning n' eff \<Rightarrow> Some (n', eff)
     | _ \<Rightarrow> None)"

definition sa_send_request ::
    "'a sa_ext_scheme \<Rightarrow> string \<Rightarrow> sa_node \<Rightarrow> string \<Rightarrow> string \<Rightarrow> sa_effect option" where
  "sa_send_request E timestamp n operation target_node = do {
     peer_id \<leftarrow> sd_connected_nodes n target_node;
     let serialized_msg = sa_send E (SaRequest \<lparr>rq_operation = operation, rq_timestamp = timestamp,
           rq_client_id = peer_to_bytes E (sd_id n), rq_signature = ''signature''\<rparr>);
     _ \<leftarrow> (if utf8_valid serialized_msg then Some () else None);
     _ \<leftarrow> from_bin_sa_message E serialized_msg;
     Some (SUnicastTo peer_id serialized_msg)
   }"

subsection \<open>The controller\<close>

record sa_controller_executor =
  sce_state :: sa_controller_state
  sce_log :: sa_controller_log
  sce_db :: level_db
  sce_keypair :: bytes

definition sa_controller_executor_new :: "level_db \<Rightarrow> bytes \<Rightarrow> sa_controller_executor" where
  "sa_controller_executor_new db kp =
     \<lparr>sce_state = sa_controller_state_new, sce_log = sa_controller_log_new, sce_db = db, sce_keypair = kp\<rparr>"

definition sctl_handle_reply ::
    "'a sa_ext_scheme \<Rightarrow> sa_controller_executor \<Rightarrow> sa_reply \<Rightarrow> sa_controller_executor option" where
  "sctl_handle_reply E x msg =
     (if sctl_client_state (sce_state x) = ClientReplied then Some x
      else do {
        let key_str = sa_message_key E (SaReply msg);
        ok \<leftarrow> sa_signature_ok E (sce_db x) (rp_from_peer_id msg) (rp_signature msg) key_str;
        if \<not> ok then Some x
        else do {
          let log1 = sctl_record_message_handler E (sce_log x) (SaReply msg);
          let current_count = sctl_get_local_messages_count_by_hash log1 key_str;
          reply_threshold \<leftarrow> u64_add (sctl_fault_tolerance_count (sce_state x)) 1;
          if current_count = unat reply_threshold
          then if utf8_valid (rp_result msg)
               then Some (x\<lparr>sce_state := (sce_state x)\<lparr>sctl_client_state := ClientReplied\<rparr>, sce_log := log1\<rparr>)
               else None
          else Some (x\<lparr>sce_log := log1\<rparr>)
        }
      })"

definition sctl_message_handler ::
    "'a sa_ext_scheme \<Rightarrow> sa_controller_executor \<Rightarrow> bytes \<Rightarrow> sa_controller_executor option" where
  "sctl_message_handler E x msg = do {
     message \<leftarrow> from_bin_sa_message E msg;
     case sa_msg_type message of
       SaReply m \<Rightarrow> sctl_handle_reply E x m
     | SPublicKey m \<Rightarrow> do { db \<leftarrow> sa_storage_public_key_by_peer_id E (sce_db x) m; Some (x\<lparr>sce_db := db\<rparr>) }
     | _ \<Rightarrow> Some x
   }"

record sa_controller_node =
  scn_id :: peer_id
  scn_executor :: sa_controller_executor
  scn_connected_nodes :: "string \<rightharpoonup> peer_id"
  scn_current_leader :: peer_id

definition sa_controller_node_new :: "peer_id \<Rightarrow> level_db \<Rightarrow> bytes \<Rightarrow> peer_id \<Rightarrow> sa_controller_node" where
  "sa_controller_node_new peer db kp leader =
     \<lparr>scn_id = peer, scn_executor = sa_controller_executor_new db kp, scn_connected_nodes = Map.empty,
      scn_current_leader = leader\<rparr>"

text \<open>A line on the terminal: the word \<open>DistributePK\<close>, or the peer to send the request to.\<close>

definition sctl_command ::
    "'a sa_ext_scheme \<Rightarrow> string \<Rightarrow> sa_controller_node \<Rightarrow> string \<Rightarrow> sa_effect option" where
  "sctl_command E timestamp n command =
     (if command = ''DistributePK'' then Some (SPublish ''consensus'' (sa_send E SDistributePK))
      else do {
        peer_id \<leftarrow> scn_connected_nodes n command;
        let serialized_msg = sa_send E (SaRequest \<lparr>rq_operation = ''operation'', rq_timestamp = timestamp,
              rq_client_id = peer_to_bytes E (scn_id n), rq_signature = ''signature''\<rparr>);
        _ \<leftarrow> from_bin_sa_message E serialized_msg;
        Some (SUnicastTo peer_id serialized_msg)
      })"

datatype sctl_event =
    CommandLine string string
  | SctlUnicastReceived bytes
  | SctlGossipReceived bytes
  | SctlDiscovered "peer_id list"
  | SctlExpired "(peer_id \<times> bool) list"

fun sctl_node_step ::
    "'a sa_ext_scheme \<Rightarrow> sa_controller_node \<Rightarrow> sctl_event \<Rightarrow> (sa_controller_node \<times> sa_effect list) option" where
  "sctl_node_step E n (CommandLine timestamp command) = do {
     eff \<leftarrow> sctl_command E timestamp n command;
     Some (n, [eff])
   }"
| "sctl_node_step E n (SctlUnicastReceived data) = do {
     msg \<leftarrow> from_bin_sa_message E data;
     case sa_msg_type msg of
       SaReply _ \<Rightarrow> do { x \<leftarrow> sctl_message_handler E (scn_executor n) data; Some (n\<lparr>scn_executor := x\<rparr>, []) }
     | _ \<Rightarrow> Some (n, [])
   }"
| "sctl_node_step E n (SctlGossipReceived data) = do {
     x \<leftarrow> sctl_message_handler E (scn_executor n) data;
     Some (n\<lparr>scn_executor := x\<rparr>, [])
   }"
| "sctl_node_step E n (SctlDiscovered ps) =
     Some (n\<lparr>scn_connected_nodes := sa_add_peers E ps (scn_connected_nodes n)\<rparr>, map SAddPeer ps)"
| "sctl_node_step E n (SctlExpired ps) =
     Some (n\<lparr>scn_connected_nodes := sa_remove_peers E (sa_gone ps) (scn_connected_nodes n)\<rparr>,
           map SRemovePeer (sa_gone ps))"

end
