(* ===== verification/SA_PBFT_Invariants.thy ===== *)
theory SA_PBFT_Invariants
  imports SA_PBFT_Node
begin

text \<open>
  What every step of the stand-alone PBFT node keeps: the fields nothing writes, the request
  recorded for a sequence number, and the view change mode once it is entered.
\<close>

subsection \<open>A new view is never valid\<close>

lemma sa_viewchange_ids_empty: "sa_viewchange_ids st {} vs = Some {}"
  by (induction vs) simp_all

lemma sa_verify_newview_never: "sa_verify_newview st m = Some b \<Longrightarrow> \<not> b"
  by (auto simp: sa_verify_newview_def sa_verify_viewchanges_in_newview_def sa_viewchange_ids_empty
      bind_eq_Some_conv)

lemma sa_handle_newview_rejects:
  "sa_handle_newview E cx pid x m = Some (x', out) \<Longrightarrow> x' = x \<and> out = []"
  by (auto simp: sa_handle_newview_def bind_eq_Some_conv dest: sa_verify_newview_never)

subsection \<open>Evolution of an executor\<close>

text \<open>The fields that no handler changes.\<close>

definition sa_static :: "sa_executor \<Rightarrow> u64 \<times> u64 \<times> bool \<times> u64 \<times> (string \<rightharpoonup> u64 \<times> u64) \<times> bytes" where
  "sa_static x = (sview (sx_state x), scurrent_sequence_number (sx_state x), sis_primary (sx_state x),
     sfault_tolerance_count (sx_state x), srequest_map (sx_log x), sx_keypair x)"

definition sa_evolves :: "sa_executor \<Rightarrow> sa_executor \<Rightarrow> bool" where
  "sa_evolves x y \<longleftrightarrow> sa_static y = sa_static x \<and>
     (\<forall>n r. srequests (sx_log x) n = Some r \<longrightarrow> srequests (sx_log y) n = Some r) \<and>
     (smode (sx_state x) = Abnormal \<longrightarrow> smode (sx_state y) = Abnormal)"

lemma sa_evolves_refl: "sa_evolves x x"
  by (simp add: sa_evolves_def)

lemma sa_evolves_trans: "sa_evolves x y \<Longrightarrow> sa_evolves y z \<Longrightarrow> sa_evolves x z"
  by (simp add: sa_evolves_def)

lemma sa_evolves_static: "sa_evolves x y \<Longrightarrow> sa_static y = sa_static x"
  by (simp add: sa_evolves_def)

lemma sa_evolves_requests: "sa_evolves x y \<Longrightarrow> srequests (sx_log x) n = Some r \<Longrightarrow> srequests (sx_log y) n = Some r"
  by (simp add: sa_evolves_def)

lemma sa_evolves_abnormal: "sa_evolves x y \<Longrightarrow> smode (sx_state x) = Abnormal \<Longrightarrow> smode (sx_state y) = Abnormal"
  by (simp add: sa_evolves_def)

text \<open>A step that changes only the log, and there neither a recorded request nor the request map.\<close>

lemma sa_evolvesI:
  "sx_state y = sx_state x \<Longrightarrow> sx_keypair y = sx_keypair x \<Longrightarrow>
   srequest_map (sx_log y) = srequest_map (sx_log x) \<Longrightarrow>
   (\<And>n r. srequests (sx_log x) n = Some r \<Longrightarrow> srequests (sx_log y) n = Some r) \<Longrightarrow> sa_evolves x y"
  by (simp add: sa_evolves_def sa_static_def)

lemma sa_handle_request_evolves:
  "sa_handle_request E pid x r = Some (x', out) \<Longrightarrow> sa_evolves x x'"
  by (auto simp: sa_handle_request_def Let_def bind_eq_Some_conv log_simps
      intro!: sa_evolvesI sa_record_request_keeps)

lemma sa_handle_preprepare_evolves:
  "sa_handle_preprepare E cx pid x m = Some (x', out) \<Longrightarrow> sa_evolves x x'"
  by (auto simp: sa_handle_preprepare_def Let_def bind_eq_Some_conv log_simps split: if_splits
      intro!: sa_evolvesI sa_record_request_keeps)

lemma sa_handle_prepare_evolves:
  "sa_handle_prepare E pid x m = Some (x', out) \<Longrightarrow> sa_evolves x x'"
  by (auto simp: sa_handle_prepare_def Let_def bind_eq_Some_conv log_simps
      split: if_splits option.splits intro!: sa_evolvesI)

lemma sa_commit_request_evolves:
  "sa_commit_request E pid x m r (sa_record_message_handler E (sx_log x) k) = Some (x', out) \<Longrightarrow> sa_evolves x x'"
  by (auto simp: sa_commit_request_def Let_def bind_eq_Some_conv log_simps sa_evolves_def sa_static_def
      split: if_splits)

text \<open>A commit is ignored, recorded, or completes the certificate of the request in its slot.\<close>

lemma sa_handle_commit_cases:
  assumes "sa_handle_commit E pid x m = Some (x', out)"
  obtains (ignored) "x' = x" "out = []"
    | (recorded) "x' = x\<lparr>sx_log := sa_record_message_handler E (sx_log x) (SCommit m)\<rparr>" "out = []"
    | (certificate) r where "srequests (sx_log x) (c_number m) = Some r" "sa_message_key E (SaRequest r) = c_m_hash m"
        "sa_commit_request E pid x m r (sa_record_message_handler E (sx_log x) (SCommit m)) = Some (x', out)"
  using assms
  by (simp add: sa_handle_commit_def sa_get_local_request_by_sequence_number_def Let_def bind_eq_Some_conv
      split: if_splits option.splits) blast+

lemma sa_handle_commit_evolves:
  assumes "sa_handle_commit E pid x m = Some (x', out)"
  shows "sa_evolves x x'"
  using assms
proof (cases rule: sa_handle_commit_cases)
  case recorded
  then show ?thesis by (simp add: sa_evolves_def sa_static_def log_simps)
next
  case (certificate r)
  then show ?thesis by (blast dest: sa_commit_request_evolves)
qed (simp add: sa_evolves_refl)

lemma sa_handle_reply_evolves:
  assumes "sa_handle_reply E x m = Some (x', out)"
  shows "sa_evolves x x'"
proof -
  let ?log = "sa_record_message_handler E (sx_log x) (SaReply m)"
  have "x' = x \<or> x' = x\<lparr>sx_log := ?log\<rparr> \<or>
      x' = x\<lparr>sx_state := (sx_state x)\<lparr>sclient_state := ClientReplied\<rparr>, sx_log := ?log\<rparr>"
    using assms by (simp add: sa_handle_reply_def Let_def bind_eq_Some_conv split: if_splits) blast+
  then show ?thesis by (elim disjE) (simp_all add: sa_evolves_def sa_static_def log_simps)
qed

lemma sa_handle_checkpoint_evolves:
  "sa_handle_checkpoint E cx x m = Some (x', out) \<Longrightarrow> sa_evolves x x'"
  by (auto simp: sa_handle_checkpoint_def Let_def bind_eq_Some_conv log_simps sa_evolves_def sa_static_def
      split: if_splits)

lemma sa_broadcast_viewchange_evolves:
  "sa_broadcast_viewchange E cx pid x = Some (x', out) \<Longrightarrow> sa_evolves x x'"
  by (auto simp: sa_broadcast_viewchange_def Let_def bind_eq_Some_conv sa_evolves_def sa_static_def
      split: mode.splits)

lemma sa_broadcast_newview_same: "sa_broadcast_newview E x v = Some (x', out) \<Longrightarrow> x' = x"
  by (auto simp: sa_broadcast_newview_def Let_def bind_eq_Some_conv)

lemma sa_handle_viewchange_evolves:
  assumes "sa_handle_viewchange E cx pid x m = Some (x', out)"
  shows "sa_evolves x x'"
proof -
  let ?y = "x\<lparr>sx_log := sa_record_message_handler E (sx_log x) (SViewChange m)\<rparr>"
  have y: "sa_evolves x ?y" by (rule sa_evolvesI) (simp_all add: log_simps)
  have "x' = x \<or> x' = ?y \<or> sa_evolves ?y x'"
    using assms by (auto simp: sa_handle_viewchange_def Let_def bind_eq_Some_conv split: if_splits
        dest: sa_broadcast_viewchange_evolves sa_broadcast_newview_same)
  with y show ?thesis by (auto intro: sa_evolves_refl sa_evolves_trans)
qed

lemmas sa_handlers_evolve = sa_handle_request_evolves sa_handle_preprepare_evolves
  sa_handle_prepare_evolves sa_handle_commit_evolves sa_handle_reply_evolves
  sa_handle_checkpoint_evolves sa_handle_viewchange_evolves

lemma sa_normal_dispatch_evolves:
  "sa_normal_dispatch E cx pid x m = Some (x', out) \<Longrightarrow> sa_evolves x x'"
  by (cases m) (auto simp: bind_eq_Some_conv intro: sa_handlers_evolve sa_evolves_refl sa_evolvesI
      dest: sa_handle_newview_rejects)

lemma sa_abnormal_dispatch_evolves:
  "sa_abnormal_dispatch E cx pid x m = Some (x', out) \<Longrightarrow> sa_evolves x x'"
  by (cases m) (auto intro: sa_handlers_evolve sa_evolves_refl dest: sa_handle_newview_rejects)

lemma sa_dispatch_evolves: "sa_dispatch E cx pid x m = Some (x', out) \<Longrightarrow> sa_evolves x x'"
  by (auto simp: sa_dispatch_def split: mode.splits
      intro: sa_normal_dispatch_evolves sa_abnormal_dispatch_evolves)

interpretation sa_exec: growing_handler "sa_message_handler E pid" sa_evolves
  by unfold_locales
    (auto simp: sa_message_handler_def bind_eq_Some_conv split: prod.splits
      intro: sa_evolves_refl sa_evolves_trans sa_dispatch_evolves)

subsection \<open>Evolution of a node\<close>

lemma sa_after_call_running:
  "sa_after_call n r = SRunning n' eff \<Longrightarrow>
   \<exists>x out. r = Some (x, out) \<and> n' = n\<lparr>sd_executor := x, sd_channel := sd_channel n @ out\<rparr> \<and> eff = [] \<and>
     length (sd_channel n) + length out \<le> sa_channel_capacity"
  by (auto simp: sa_after_call_def split: option.splits if_splits)

lemma sa_node_step_executor:
  assumes "sa_node_step E cx n ev = SRunning n' eff"
  shows "sd_executor n' = sd_executor n \<or>
    (\<exists>out. sa_broadcast_viewchange E cx (peer_to_bytes E (sd_id n)) (sd_executor n) = Some (sd_executor n', out)) \<or>
    (\<exists>m out. sa_dispatch E cx (peer_to_bytes E (sd_id n)) (sd_executor n) m = Some (sd_executor n', out))"
  using assms
  by (cases ev)
    (auto simp: sa_unicast_received_def sa_message_handler_def
      bind_eq_Some_conv Let_def dest!: sa_after_call_running
      split: list.splits option.splits sa_message_type.splits)

lemma sa_node_step_evolves:
  "sa_node_step E cx n ev = SRunning n' eff \<Longrightarrow> sa_evolves (sd_executor n) (sd_executor n')"
  by (auto dest!: sa_node_step_executor intro: sa_evolves_refl sa_broadcast_viewchange_evolves sa_dispatch_evolves)

interpretation sa_node_run: growing_handler "sa_node_turn E" "\<lambda>n n'. sa_evolves (sd_executor n) (sd_executor n')"
  by unfold_locales
    (auto simp: sa_node_turn_def split: sa_outcome.splits
      intro: sa_evolves_refl sa_evolves_trans sa_node_step_evolves)

text \<open>The constants of a node that was started by \<open>ConsensusNode::new\<close>.\<close>

lemma sa_started_static:
  assumes "run_handler (sa_node_turn E) (sa_node_new peer db kp leader) evs = Some (n, effs)"
  shows "sview (sx_state (sd_executor n)) = 0" "scurrent_sequence_number (sx_state (sd_executor n)) = 0"
    "\<not> sis_primary (sx_state (sd_executor n))" "sfault_tolerance_count (sx_state (sd_executor n)) = 1"
    "srequest_map (sx_log (sd_executor n)) = Map.empty" "sx_keypair (sd_executor n) = kp"
  using sa_evolves_static [OF sa_node_run.run_le [OF assms]]
  by (simp_all add: sa_static_def sa_node_new_def sa_executor_new_def sa_state_new_def sa_log_new_def)

subsection \<open>The view change mode\<close>

lemma sa_abnormal_dispatch_silent:
  assumes "sa_abnormal_dispatch E cx pid x m = Some (x', out)" "\<not> sis_primary (sx_state x)"
    "smode (sx_state x) = Abnormal"
  shows "out = []"
  using assms
  by (cases m) (auto simp: sa_handle_checkpoint_def sa_handle_viewchange_def Let_def bind_eq_Some_conv
      split: if_splits dest: sa_handle_newview_rejects)

text \<open>In that mode a node that is not primary adds nothing to its channel.\<close>

lemma sa_abnormal_step_channel:
  assumes "sa_node_step E cx n ev = SRunning n' eff" "smode (sx_state (sd_executor n)) = Abnormal"
    "\<not> sis_primary (sx_state (sd_executor n))"
  shows "\<exists>k. sd_channel n' = drop k (sd_channel n)"
proof -
  have quiet: "out = []" if "sa_dispatch E cx pid (sd_executor n) m = Some (x, out)" for pid m x out
    using that assms(2,3) by (auto simp: sa_dispatch_def dest: sa_abnormal_dispatch_silent)
  have "sd_channel n' = sd_channel n \<or> sd_channel n' = tl (sd_channel n)"
    using assms(1,2)
    by (cases ev)
      (auto simp: sa_unicast_received_def sa_message_handler_def
        sa_broadcast_viewchange_def bind_eq_Some_conv Let_def dest!: sa_after_call_running dest: quiet
        split: list.splits option.splits sa_message_type.splits)
  then show ?thesis by (metis drop0 drop_Suc)
qed

end
