(* ===== verification/SA_PBFT_Properties.thy ===== *)
theory SA_PBFT_Properties
  imports SA_PBFT_Invariants
begin

text \<open>
  What the stand-alone PBFT node does and does not do: it agrees on its first request, refuses every
  other request for the same number, and cannot change the view.
\<close>

subsection \<open>External functions and messages for the witnesses\<close>

text \<open>
  The digest is the identity on bytes, a key pair is its own public key and signature, and a
  received byte stands for one of four messages.
\<close>

definition sa_demo_request :: "string \<Rightarrow> sa_request" where
  "sa_demo_request op = \<lparr>rq_operation = op, rq_timestamp = ''t'', rq_client_id = [7], rq_signature = ''''\<rparr>"

definition sa_demo_pp :: pre_prepare where
  "sa_demo_pp = \<lparr>pp_view = 0, pp_number = 1, pp_m_hash = ''a'', pp_m = as_bytes ''a'',
     pp_signature = [2], pp_from_peer_id = [2]\<rparr>"

definition sa_demo_viewchange :: sa_view_change where
  "sa_demo_viewchange = SViewChangeMsg 1 0 [] (SProofMessages [] []) [3] ''''"

definition sa_demo_decode :: "bytes \<Rightarrow> sa_message option" where
  "sa_demo_decode b =
     (if b = [1] then Some \<lparr>sa_msg_type = SaRequest (sa_demo_request ''a'')\<rparr>
      else if b = [2] then Some \<lparr>sa_msg_type = SPrePrepare sa_demo_pp\<rparr>
      else if b = [3] then Some \<lparr>sa_msg_type = SViewChange sa_demo_viewchange\<rparr>
      else if b = [4] then Some \<lparr>sa_msg_type = SDistributePK\<rparr>
      else None)"

definition sa_demo :: sa_ext where
  "sa_demo = \<lparr>sha3_256_hex = map (\<lambda>w. char_of (unat w)), bincode_request = (\<lambda>r. as_bytes (cmd r)),
     json_request = (\<lambda>r. as_bytes (cmd r)), from_json_request = (\<lambda>b. None),
     peer_from_bytes = Some, peer_to_bytes = (\<lambda>p. p), peer_to_string = map (\<lambda>w. char_of (unat w)),
     dalek_public = (\<lambda>k. k), dalek_sign = (\<lambda>k m. k), dalek_public_key_ok = (\<lambda>_. True),
     dalek_signature_ok = (\<lambda>_. True), dalek_verify = (\<lambda>k m s. s = k),
     bin_sa_request = (\<lambda>r. as_bytes (rq_operation r)),
     from_bin_sa_request = (\<lambda>b. Some (sa_demo_request (map (\<lambda>w. char_of (unat w)) b))),
     bin_sa_message = (\<lambda>_. []), from_bin_sa_message = sa_demo_decode,
     bin_sa_message_type = (\<lambda>_. []), u512_from = (\<lambda>b. Some (foldl (\<lambda>a w. 256 * a + unat w) 0 b))\<rparr>"

definition sa_demo_db :: level_db where
  "sa_demo_db = [2 \<mapsto> [2], 3 \<mapsto> [3], 4 \<mapsto> [4]]"

definition sa_demo_ctx :: sa_ctx where
  "sa_demo_ctx = \<lparr>cx_request_map_order = [], cx_checkpoints_order = [], cx_time = 0\<rparr>"

abbreviation sa_demo_node :: sa_node where
  "sa_demo_node \<equiv> sa_node_new [1] sa_demo_db [1] [2]"

lemma sa_demo_simps [simp]:
  "sha3_256_hex sa_demo b = map (\<lambda>w. char_of (unat w)) b"
  "peer_from_bytes sa_demo b = Some b" "peer_to_bytes sa_demo b = b"
  "dalek_public sa_demo b = b" "dalek_sign sa_demo b m = b" "dalek_public_key_ok sa_demo b"
  "dalek_signature_ok sa_demo b" "dalek_verify sa_demo b m t \<longleftrightarrow> t = b"
  "bin_sa_request sa_demo r = as_bytes (rq_operation r)"
  "from_bin_sa_request sa_demo b = Some (sa_demo_request (map (\<lambda>w. char_of (unat w)) b))"
  "bin_sa_message sa_demo msg = []"
  "u512_from sa_demo b = Some (foldl (\<lambda>a w. 256 * a + unat w) 0 b)"
  "from_bin_sa_message sa_demo [1] = Some \<lparr>sa_msg_type = SaRequest (sa_demo_request ''a'')\<rparr>"
  "from_bin_sa_message sa_demo [2] = Some \<lparr>sa_msg_type = SPrePrepare sa_demo_pp\<rparr>"
  "from_bin_sa_message sa_demo [3] = Some \<lparr>sa_msg_type = SViewChange sa_demo_viewchange\<rparr>"
  "from_bin_sa_message sa_demo [4] = Some \<lparr>sa_msg_type = SDistributePK\<rparr>"
  by (simp_all add: sa_demo_def sa_demo_decode_def)

lemma sa_demo_char [simp]: "char_of (97::nat) = CHR ''a''"
  by code_simp

lemma sa_demo_pp_simps [simp]:
  "pp_view sa_demo_pp = 0" "pp_number sa_demo_pp = 1" "pp_m_hash sa_demo_pp = ''a''"
  "pp_m sa_demo_pp = as_bytes ''a''" "pp_signature sa_demo_pp = [2]" "pp_from_peer_id sa_demo_pp = [2]"
  by (simp_all add: sa_demo_pp_def)

lemma sa_log_new_simps [simp]:
  "srequests sa_log_new = Map.empty" "smessages sa_log_new = Map.empty" "scheckpoints sa_log_new = Map.empty"
  "sviewchanges sa_log_new = Map.empty" "srequest_map sa_log_new = Map.empty"
  "srequest_phase_state sa_log_new = Map.empty" "scurrent_requests sa_log_new = []"
  by (simp_all add: sa_log_new_def)

lemmas sa_step_defs = sa_node_turn_def sa_after_call_def sa_message_handler_def sa_dispatch_def
  sa_node_new_def sa_executor_new_def sa_state_new_def sa_channel_capacity_def

text \<open>The node after it has accepted the proposal.\<close>

definition sa_demo_pending :: sa_node where
  "sa_demo_pending = sa_demo_node\<lparr>sd_executor := (sd_executor sa_demo_node)\<lparr>sx_log :=
       sa_record_current_request 0 ''a'' (sa_record_message_handler sa_demo
         (sa_record_request 1 (sa_demo_request ''a'') sa_log_new) (SPrePrepare sa_demo_pp))\<rparr>,
     sd_channel := [[]]\<rparr>"

lemma sa_demo_signature:
  "sa_signature_ok sa_demo sa_demo_db [2] t k = Some (t = [2])"
  "sa_signature_ok sa_demo sa_demo_db [3] t k = Some (t = [3])"
  "sa_signature_ok sa_demo sa_demo_db [4] t k = Some (t = [4])"
  by (simp_all add: sa_signature_ok_def sa_get_public_key_by_peer_id_def db_read_def eddsa_verify_def
      sa_demo_db_def)

lemma sa_demo_pending_run:
  "run_handler (sa_node_turn sa_demo) sa_demo_node [(sa_demo_ctx, SGossipReceived [2])] =
   Some (sa_demo_pending, [[]])"
  by (simp add: sa_step_defs sa_demo_pending_def sa_handle_preprepare_def sa_demo_signature
      sa_send_def Let_def u64_add_def sa_demo_ctx_def as_bytes_def)

subsection \<open>The view change\<close>

text \<open>A pending request makes the collection of proofs panic while the request map is empty.\<close>

lemma sa_get_proof_messages_panics:
  assumes "srequest_map log = Map.empty" and "scurrent_requests log \<noteq> []"
  shows "sa_get_proof_messages E log = None"
  using assms by (cases "scurrent_requests log")
    (simp_all add: sa_get_proof_messages_def sa_get_preprepare_messages_by_request_hash_def)

text \<open>
  C27. The view change a node's own timer asks for never happens: whenever the timeout task of a node that
  was started and has run for any time notifies the event loop, and the loop takes the notification
  while the request is still pending, the node panics. Collecting the proofs looks the pending request
  up in \<open>request_map\<close>, which nothing ever fills.
\<close>

theorem sa_timeout_panics:
  assumes "run_handler (sa_node_turn E) (sa_node_new peer db kp leader) evs = Some (n, effs)"
    and "sa_timeout_check (sx_state (sd_executor n)) (sx_log (sd_executor n)) t"
  shows "sa_node_step E cx n ViewchangeNotified = SPanicked"
proof -
  from assms(2) have normal: "smode (sx_state (sd_executor n)) = Normal"
    and pending: "scurrent_requests (sx_log (sd_executor n)) \<noteq> []"
    by (auto simp: sa_timeout_check_def split: mode.splits list.splits)
  have "sa_get_proof_messages E (sx_log (sd_executor n)) = None"
    using sa_started_static(5) [OF assms(1)] pending by (rule sa_get_proof_messages_panics)
  with normal show ?thesis
    by (simp add: sa_broadcast_viewchange_def sa_after_call_def Let_def split: Option.bind_split)
qed

theorem sa_timeout_panics_witness:
  "sa_timeout_check (sx_state (sd_executor sa_demo_pending)) (sx_log (sd_executor sa_demo_pending)) 6000000000 \<and>
   sa_node_step sa_demo sa_demo_ctx sa_demo_pending ViewchangeNotified = SPanicked"
proof -
  have "sa_timeout_check (sx_state (sd_executor sa_demo_pending)) (sx_log (sd_executor sa_demo_pending)) 6000000000"
    by (simp add: sa_demo_pending_def sa_timeout_check_def sa_record_current_request_def sa_step_defs
        timeout_new_def log_simps sa_record_request_def)
  with sa_timeout_panics [OF sa_demo_pending_run this] show ?thesis by simp
qed

text \<open>A node in view change mode: what is left of it.\<close>

definition sa_quiet :: "bytes list \<Rightarrow> sa_node \<Rightarrow> bool" where
  "sa_quiet ch n \<longleftrightarrow> smode (sx_state (sd_executor n)) = Abnormal \<and> \<not> sis_primary (sx_state (sd_executor n)) \<and>
     sview (sx_state (sd_executor n)) = 0 \<and> (\<exists>k. sd_channel n = drop k ch)"

lemma sa_quiet_step:
  assumes "sa_quiet ch n" "sa_node_step E cx n ev = SRunning n' eff"
  shows "sa_quiet ch n'"
proof -
  from assms(1) obtain k where ch: "sd_channel n = drop k ch" by (auto simp: sa_quiet_def)
  from sa_abnormal_step_channel [OF assms(2)] assms(1) obtain j where "sd_channel n' = drop j (sd_channel n)"
    by (auto simp: sa_quiet_def)
  with ch have "\<exists>k. sd_channel n' = drop k ch" by auto
  with sa_node_step_evolves [OF assms(2)] assms(1) show ?thesis
    by (simp add: sa_quiet_def sa_evolves_def sa_static_def)
qed

interpretation sa_quiet_run: invariant_handler "sa_node_turn E" "sa_quiet ch"
  by unfold_locales (auto simp: sa_node_turn_def split: sa_outcome.splits intro: sa_quiet_step)

text \<open>
  View change mode is final. A node that was started and has entered it stays in it and in view 0
  whatever arrives afterwards, new views included, and its executor never sends anything again: the
  channel only empties. (Requests, prepares and commits are ignored in this mode, and no new view is
  ever accepted.)
\<close>

theorem sa_abnormal_is_final:
  assumes "run_handler (sa_node_turn E) (sa_node_new peer db kp leader) evs = Some (n, effs)"
    and "smode (sx_state (sd_executor n)) = Abnormal"
    and "run_handler (sa_node_turn E) n evs' = Some (n', effs')"
  shows "smode (sx_state (sd_executor n')) = Abnormal \<and> sview (sx_state (sd_executor n')) = 0 \<and>
    (\<exists>k. sd_channel n' = drop k (sd_channel n))"
proof -
  have "sa_quiet (sd_channel n) n"
    using sa_started_static(1,3) [OF assms(1)] assms(2) by (auto simp: sa_quiet_def intro: exI [of _ 0])
  from sa_quiet_run.run_inv [OF this assms(3)] show ?thesis by (simp add: sa_quiet_def)
qed

text \<open>A notification taken after the request was committed: nothing is pending, so the mode is entered.\<close>

definition sa_demo_abnormal :: sa_node where
  "sa_demo_abnormal = sa_demo_node\<lparr>sd_executor := (sd_executor sa_demo_node)\<lparr>sx_state :=
     (sx_state (sd_executor sa_demo_node))\<lparr>smode := Abnormal\<rparr>\<rparr>, sd_channel := [[]]\<rparr>"

lemma sa_demo_abnormal_run:
  "run_handler (sa_node_turn sa_demo) sa_demo_node [(sa_demo_ctx, ViewchangeNotified)] = Some (sa_demo_abnormal, [[]])"
  by (simp add: sa_step_defs sa_demo_abnormal_def sa_broadcast_viewchange_def sa_get_proof_messages_def
      sa_get_checkpoint_messages_by_sequence_number_def sa_demo_ctx_def u64_mul_def u64_add_def sa_send_def Let_def)

theorem sa_abnormal_is_final_witness:
  "run_handler (sa_node_turn sa_demo) sa_demo_abnormal
     [(sa_demo_ctx, SGossipReceived [1]), (sa_demo_ctx, SGossipReceived [2])] = Some (sa_demo_abnormal, [[], []]) \<and>
   (\<exists>k. sd_channel sa_demo_abnormal = drop k (sd_channel sa_demo_abnormal))"
proof -
  have run: "run_handler (sa_node_turn sa_demo) sa_demo_abnormal
     [(sa_demo_ctx, SGossipReceived [1]), (sa_demo_ctx, SGossipReceived [2])] = Some (sa_demo_abnormal, [[], []])"
    by (simp add: sa_step_defs sa_demo_abnormal_def)
  have "smode (sx_state (sd_executor sa_demo_abnormal)) = Abnormal" by (simp add: sa_demo_abnormal_def)
  from sa_abnormal_is_final [OF sa_demo_abnormal_run this run] run show ?thesis by blast
qed

text \<open>
  The check of a new view repeats the computation of the primary and comes to the same
  pre-prepares, for every new view that \<open>broadcast_newview\<close> builds. The new view is refused
  nevertheless: the set of senders of valid view changes starts empty and a sender is added only if it
  is in the set already.
\<close>

theorem sa_honest_newview_refused:
  assumes "sa_broadcast_newview E x v = Some (y, out)" and "u64_mul 2 (sfault_tolerance_count st) \<noteq> None"
  shows "\<exists>nv. out = [sa_send E (SNewView nv)] \<and>
    sa_verify_preprepares_in_newview (sn_viewchanges nv) (sn_preprepares nv) (sn_view nv) = Some True \<and>
    sa_verify_viewchanges_in_newview st (sn_viewchanges nv) = Some False \<and>
    sa_verify_newview st nv = Some False"
proof -
  from assms(1) obtain w vs pps where vs: "bucket (sviewchanges (sx_log x)) v = w # vs"
    and pps: "sa_fill_preprepares (sa_preprepare_map (w # vs)) v (sv_latest_stable_checkpoint w)
      (sa_get_max_sequence_number_by_viewchanges (w # vs)) = Some pps"
    and out: "out = [sa_send E (SNewView (SNewViewMsg v (w # vs) pps ''''))]"
    by (auto simp: sa_broadcast_newview_def sa_get_viewchange_messages_by_view_def Let_def bind_eq_Some_conv
        sa_create_newview_preprepare_messages_def sa_get_max_sequence_number_in_viewchange_by_view_def
        sa_get_max_sequence_number_by_viewchanges_def split: list.splits)
  have "list_all (\<lambda>(p1, p2). p1 = p2) (zip pps pps)" by (auto simp: list_all_iff in_set_zip)
  with pps have "sa_verify_preprepares_in_newview (w # vs) pps v = Some True"
    by (simp add: sa_verify_preprepares_in_newview_def)
  moreover have "sa_verify_viewchanges_in_newview st (w # vs) = Some False"
    using assms(2) by (auto simp: sa_verify_viewchanges_in_newview_def sa_viewchange_ids_empty
        simp del: sa_viewchange_ids.simps)
  ultimately show ?thesis using out
    by (intro exI [of _ "SNewViewMsg v (w # vs) pps ''''"]) (simp add: sa_verify_newview_def)
qed

definition sa_demo_votes :: sa_executor where
  "sa_demo_votes = (sa_executor_new sa_demo_db [1])\<lparr>sx_log := sa_log_new\<lparr>sviewchanges :=
     [1 \<mapsto> [sa_demo_viewchange, sa_demo_viewchange, sa_demo_viewchange]]\<rparr>\<rparr>"

theorem sa_honest_newview_refused_witness:
  "sa_broadcast_newview sa_demo sa_demo_votes 1 = Some (sa_demo_votes, [[]]) \<and>
   (\<exists>nv. [[]] = [sa_send sa_demo (SNewView nv)] \<and> sa_verify_newview (sx_state sa_demo_votes) nv = Some False)"
proof -
  have "sa_broadcast_newview sa_demo sa_demo_votes 1 = Some (sa_demo_votes, [[]])"
    by (simp add: sa_broadcast_newview_def sa_demo_votes_def sa_get_viewchange_messages_by_view_def bucket_def
        sa_get_max_sequence_number_in_viewchange_by_view_def sa_create_newview_preprepare_messages_def
        sa_fill_preprepares_def u64_add_def sa_demo_viewchange_def sa_send_def Let_def)
  moreover have "u64_mul 2 (sfault_tolerance_count (sx_state sa_demo_votes)) \<noteq> None"
    by (simp add: sa_demo_votes_def sa_executor_new_def sa_state_new_def u64_mul_def)
  ultimately show ?thesis using sa_honest_newview_refused by metis
qed

subsection \<open>The normal case\<close>

text \<open>A slot that holds one request ignores the votes for another.\<close>

lemma sa_prepare_other_request:
  assumes "srequests (sx_log x) (p_number m) = Some r" "sa_message_key E (SaRequest r) \<noteq> p_m_hash m"
    "sa_handle_prepare E pid x m = Some (x', out)"
  shows "x' = x \<and> out = []"
  using assms by (auto simp: sa_handle_prepare_def sa_get_local_request_by_sequence_number_def Let_def
      bind_eq_Some_conv split: if_splits)

lemma sa_commit_other_request:
  assumes "srequests (sx_log x) (c_number m) = Some r" "sa_message_key E (SaRequest r) \<noteq> c_m_hash m"
    "sa_handle_commit E pid x m = Some (x', out)"
  shows "x' = x \<and> out = []"
  using assms by (auto simp: sa_handle_commit_def sa_get_local_request_by_sequence_number_def Let_def
      bind_eq_Some_conv split: if_splits)

text \<open>
  C26. Under the number all requests are proposed with, only the first one can be agreed on. The sequence number is never advanced, so
  a node proposes every request under number 1 in view 0; and from the moment number 1 holds a
  request, the node ignores every prepare and every commit for a request with another digest under
  that number, whatever it receives in between.
\<close>

theorem sa_later_requests_starve:
  assumes "run_handler (sa_node_turn E) (sa_node_new peer db kp leader) evs = Some (n, effs)"
    and "srequests (sx_log (sd_executor n)) 1 = Some r0"
    and "sa_message_key E (SaRequest r) \<noteq> sa_message_key E (SaRequest r0)"
    and "run_handler (sa_node_turn E) n evs' = Some (n', effs')"
  shows "(\<exists>x sig. sa_handle_request E pid (sd_executor n') r = Some (x, [sa_send E (SPrePrepare
        \<lparr>pp_view = 0, pp_number = 1, pp_m_hash = sa_message_key E (SaRequest r), pp_m = bin_sa_request E r,
         pp_signature = sig, pp_from_peer_id = pid\<rparr>)])) \<and>
    (\<forall>p x out. p_number p = 1 \<and> p_m_hash p = sa_message_key E (SaRequest r) \<and>
       sa_handle_prepare E pid (sd_executor n') p = Some (x, out) \<longrightarrow> x = sd_executor n' \<and> out = []) \<and>
    (\<forall>c x out. c_number c = 1 \<and> c_m_hash c = sa_message_key E (SaRequest r) \<and>
       sa_handle_commit E pid (sd_executor n') c = Some (x, out) \<longrightarrow> x = sd_executor n' \<and> out = [])"
proof -
  have slot: "srequests (sx_log (sd_executor n')) 1 = Some r0"
    using sa_node_run.run_le [OF assms(4)] assms(2) by (rule sa_evolves_requests)
  have static: "sview (sx_state (sd_executor n')) = 0" "scurrent_sequence_number (sx_state (sd_executor n')) = 0"
    using sa_evolves_static [OF sa_node_run.run_le [OF assms(4)]] sa_started_static(1,2) [OF assms(1)]
    by (simp_all add: sa_static_def)
  have "\<exists>x sig. sa_handle_request E pid (sd_executor n') r = Some (x, [sa_send E (SPrePrepare
        \<lparr>pp_view = 0, pp_number = 1, pp_m_hash = sa_message_key E (SaRequest r), pp_m = bin_sa_request E r,
         pp_signature = sig, pp_from_peer_id = pid\<rparr>)])"
    by (simp add: sa_handle_request_def static u64_add_def Let_def sa_message_key.simps(1)) blast
  moreover have "x = sd_executor n' \<and> out = []" if "p_number p = 1" "p_m_hash p = sa_message_key E (SaRequest r)"
      "sa_handle_prepare E pid (sd_executor n') p = Some (x, out)" for p x out
    by (rule sa_prepare_other_request [OF _ _ that(3)]) (use that slot assms(3) in auto)
  moreover have "x = sd_executor n' \<and> out = []" if "c_number c = 1" "c_m_hash c = sa_message_key E (SaRequest r)"
      "sa_handle_commit E pid (sd_executor n') c = Some (x, out)" for c x out
    by (rule sa_commit_other_request [OF _ _ that(3)]) (use that slot assms(3) in auto)
  ultimately show ?thesis by blast
qed

theorem sa_later_requests_starve_witness:
  "srequests (sx_log (sd_executor sa_demo_pending)) 1 = Some (sa_demo_request ''a'') \<and>
   (\<exists>x sig. sa_handle_request sa_demo [1] (sd_executor sa_demo_pending) (sa_demo_request ''aa'') =
      Some (x, [sa_send sa_demo (SPrePrepare \<lparr>pp_view = 0, pp_number = 1,
        pp_m_hash = sa_message_key sa_demo (SaRequest (sa_demo_request ''aa'')),
        pp_m = bin_sa_request sa_demo (sa_demo_request ''aa''), pp_signature = sig, pp_from_peer_id = [1]\<rparr>)])) \<and>
   sa_handle_commit sa_demo [1] (sd_executor sa_demo_pending)
     \<lparr>c_view = 0, c_number = 1, c_m_hash = sa_message_key sa_demo (SaRequest (sa_demo_request ''aa'')),
      c_from_peer_id = [3], c_signature = [3]\<rparr> = Some (sd_executor sa_demo_pending, [])"
proof -
  let ?x = "sd_executor sa_demo_pending"
  let ?c = "\<lparr>c_view = 0, c_number = 1, c_m_hash = sa_message_key sa_demo (SaRequest (sa_demo_request ''aa'')),
      c_from_peer_id = [3], c_signature = [3]\<rparr>"
  have slot: "srequests (sx_log ?x) 1 = Some (sa_demo_request ''a'')"
    by (simp add: sa_demo_pending_def log_simps sa_record_request_def)
  have other: "sa_message_key sa_demo (SaRequest (sa_demo_request ''aa'')) \<noteq> sa_message_key sa_demo (SaRequest (sa_demo_request ''a''))"
    by (simp add: sa_message_key.simps get_hash_str_def sa_demo_request_def as_bytes_def)
  have run: "run_handler (sa_node_turn sa_demo) sa_demo_pending [] = Some (sa_demo_pending, [])" by simp
  note starve = sa_later_requests_starve [OF sa_demo_pending_run slot other run, of "[1]"]
  have "\<exists>x out. sa_handle_commit sa_demo [1] ?x ?c = Some (x, out)"
    using slot other
    by (simp add: sa_handle_commit_def sa_signature_ok_def sa_get_public_key_by_peer_id_def db_read_def u64_add_def Let_def
        sa_get_local_request_by_sequence_number_def sa_demo_pending_def sa_step_defs split: option.splits)
  then obtain x out where c: "sa_handle_commit sa_demo [1] ?x ?c = Some (x, out)" by blast
  have "x = ?x \<and> out = []"
    using starve [THEN conjunct2, THEN conjunct2, rule_format, of ?c x out] c by simp
  with c have "sa_handle_commit sa_demo [1] ?x ?c = Some (?x, [])" by simp
  from slot starve [THEN conjunct1] this show ?thesis by (intro conjI)
qed

text \<open>What a node with fault bound one does with a vote for the request in slot 1.\<close>

definition sa_my_prepare :: "'a sa_ext_scheme \<Rightarrow> sa_executor \<Rightarrow> bytes \<Rightarrow> string \<Rightarrow> prepare" where
  "sa_my_prepare E x pid h = (let m = \<lparr>p_view = sview (sx_state x), p_number = 1, p_m_hash = h,
       p_from_peer_id = pid, p_signature = []\<rparr>
     in m\<lparr>p_signature := eddsa_sign E (sx_keypair x) (as_bytes (sa_message_key E (SPrepare m)))\<rparr>)"

definition sa_my_commit :: "'a sa_ext_scheme \<Rightarrow> sa_executor \<Rightarrow> bytes \<Rightarrow> string \<Rightarrow> commit" where
  "sa_my_commit E x pid h = (let m = \<lparr>c_view = sview (sx_state x), c_number = 1, c_m_hash = h,
       c_from_peer_id = pid, c_signature = []\<rparr>
     in m\<lparr>c_signature := eddsa_sign E (sx_keypair x) (as_bytes (sa_message_key E (SCommit m)))\<rparr>)"

definition sa_my_reply :: "'a sa_ext_scheme \<Rightarrow> sa_executor \<Rightarrow> bytes \<Rightarrow> sa_request \<Rightarrow> sa_reply" where
  "sa_my_reply E x pid r = (let m = \<lparr>rp_client_id = rq_client_id r, rp_timestamp = rq_timestamp r,
       rp_view = sview (sx_state x), rp_number = 1, rp_from_peer_id = pid, rp_signature = [],
       rp_result = as_bytes ''ok!''\<rparr>
     in m\<lparr>rp_signature := eddsa_sign E (sx_keypair x) (as_bytes (sa_message_key E (SaReply m)))\<rparr>)"

definition sa_slot1 :: "sa_executor \<Rightarrow> sa_request \<Rightarrow> bool" where
  "sa_slot1 x r \<longleftrightarrow> fst (sstable_checkpoint (sx_state x)) = 0 \<and> sfault_tolerance_count (sx_state x) = 1 \<and>
     smode (sx_state x) = Normal \<and> srequests (sx_log x) 1 = Some r"

lemma sa_prepare_accepted:
  assumes "sa_slot1 x r" "p_number m = 1" "p_view m = sview (sx_state x)" "p_m_hash m = sa_message_key E (SaRequest r)"
    "sa_signature_ok E (sx_db x) (p_from_peer_id m) (p_signature m) (sa_message_key E (SPrepare m)) = Some True"
    "srequest_phase_state (sx_log x) (p_m_hash m) \<noteq> Some LogPrepared"
  shows "sa_dispatch E cx pid x (SPrepare m) =
    (let log1 = sa_record_message_handler E (sx_log x) (SPrepare m)
     in if length (bucket (smessages (sx_log x)) (sa_message_key E (SPrepare m))) = 1
        then Some (x\<lparr>sx_log := sa_update_request_phase_state (p_m_hash m) LogPrepared log1\<rparr>,
          [sa_send E (SCommit (sa_my_commit E x pid (p_m_hash m)))])
        else Some (x\<lparr>sx_log := log1\<rparr>, []))"
  using assms by (simp add: sa_slot1_def sa_dispatch_def sa_handle_prepare_def u64_add_def u64_mul_def Let_def
      sa_get_request_phase_state_def sa_get_local_request_by_sequence_number_def
      sa_get_local_messages_count_by_hash_def sa_record_quorum_message sa_my_commit_def)

lemma sa_commit_accepted:
  assumes "sa_slot1 x r" "c_number m = 1" "c_view m = sview (sx_state x)" "c_m_hash m = sa_message_key E (SaRequest r)"
    "sa_signature_ok E (sx_db x) (c_from_peer_id m) (c_signature m) (sa_message_key E (SCommit m)) = Some True"
    "srequest_phase_state (sx_log x) (c_m_hash m) \<noteq> Some LogCommited"
  shows "sa_dispatch E cx pid x (SCommit m) =
    (let log1 = sa_record_message_handler E (sx_log x) (SCommit m)
     in if length (bucket (smessages (sx_log x)) (sa_message_key E (SCommit m))) = 1
        then sa_commit_request E pid x m r log1
        else Some (x\<lparr>sx_log := log1\<rparr>, []))"
  using assms by (simp add: sa_slot1_def sa_dispatch_def sa_handle_commit_def u64_add_def u64_mul_def Let_def
      sa_get_request_phase_state_def sa_get_local_request_by_sequence_number_def
      sa_get_local_messages_count_by_hash_def sa_record_quorum_message)

lemma sa_preprepare_accepted:
  assumes "sx_state x = sa_state_new d" "sx_log x = sa_log_new"
    "pp_view m = 0" "pp_number m = 1" "from_bin_sa_request E (pp_m m) = Some r"
    "sa_signature_ok E (sx_db x) (pp_from_peer_id m) (pp_signature m) (sa_message_key E (SPrePrepare m)) = Some True"
  shows "sa_dispatch E cx pid x (SPrePrepare m) =
    Some (x\<lparr>sx_log := sa_record_current_request (cx_time cx) (pp_m_hash m)
             (sa_record_message_handler E (sa_record_request 1 r sa_log_new) (SPrePrepare m))\<rparr>,
          [sa_send E (SPrepare (sa_my_prepare E x pid (pp_m_hash m)))])"
  using assms by (simp add: sa_dispatch_def sa_handle_preprepare_def sa_state_new_def u64_add_def Let_def sa_my_prepare_def)

lemma sa_commit_request_first:
  assumes "scurrent_commited_request_count (sx_state x) = 0" "c_number m = 1"
  shows "\<exists>x'. sa_commit_request E pid x m r log1 = Some (x', [sa_send E (SaReply (sa_my_reply E x pid r))]) \<and>
    scurrent_requests (sx_log x') = tl (scurrent_requests log1) \<and>
    srequest_phase_state (sx_log x') (c_m_hash m) = Some LogCommited \<and>
    scurrent_commited_request_count (sx_state x') = 1"
  using assms by (simp add: sa_commit_request_def sa_update_checkpoint_state_frame u64_add_def Let_def
      STABLE_CHECKPOINT_DELTA_def sa_remove_commited_request_def sa_update_request_phase_state_def sa_my_reply_def)

text \<open>
  C25. The first request goes through. A node in its initial state that knows the senders' keys and
  receives a signed proposal for number 1 and two signed prepares and two signed commits for it, under
  three different message keys, answers with its prepare, its commit and finally the reply to the
  client; afterwards the request counts as committed and nothing is pending.
\<close>

theorem sa_first_request_commits:
  assumes fresh: "sx_state x = sa_state_new d" "sx_log x = sa_log_new"
    and proposal: "pp_view pp = 0" "pp_number pp = 1" "pp_m_hash pp = h" "from_bin_sa_request E (pp_m pp) = Some r"
      "h = sa_message_key E (SaRequest r)"
      "sa_signature_ok E (sx_db x) (pp_from_peer_id pp) (pp_signature pp) (sa_message_key E (SPrePrepare pp)) = Some True"
    and prepares: "\<forall>m \<in> {a, b}. p_view m = 0 \<and> p_number m = 1 \<and> p_m_hash m = h \<and>
      sa_signature_ok E (sx_db x) (p_from_peer_id m) (p_signature m) (sa_message_key E (SPrepare m)) = Some True"
    and commits: "\<forall>m \<in> {c, e}. c_view m = 0 \<and> c_number m = 1 \<and> c_m_hash m = h \<and>
      sa_signature_ok E (sx_db x) (c_from_peer_id m) (c_signature m) (sa_message_key E (SCommit m)) = Some True"
    and keys: "distinct [sa_message_key E (SPrePrepare pp), sa_message_key E (SPrepare a), sa_message_key E (SCommit c)]"
  shows "\<exists>x'. run_handler (sa_dispatch E cx pid) x [SPrePrepare pp, SPrepare a, SPrepare b, SCommit c, SCommit e] =
      Some (x', [[sa_send E (SPrepare (sa_my_prepare E x pid h))], [], [sa_send E (SCommit (sa_my_commit E x pid h))],
                 [], [sa_send E (SaReply (sa_my_reply E x pid r))]]) \<and>
    srequest_phase_state (sx_log x') h = Some LogCommited \<and> scurrent_requests (sx_log x') = [] \<and>
    scurrent_commited_request_count (sx_state x') = 1"
proof -
  define l1 where "l1 = sa_record_current_request (cx_time cx) h
    (sa_record_message_handler E (sa_record_request 1 r sa_log_new) (SPrePrepare pp))"
  define l2 where "l2 = sa_record_message_handler E l1 (SPrepare a)"
  define l3 where "l3 = sa_update_request_phase_state h LogPrepared (sa_record_message_handler E l2 (SPrepare b))"
  define l4 where "l4 = sa_record_message_handler E l3 (SCommit c)"
  let ?l5 = "sa_record_message_handler E l4 (SCommit e)"
  note logs = l1_def l2_def l3_def l4_def
  have same: "sa_message_key E (SPrepare b) = sa_message_key E (SPrepare a)"
      "sa_message_key E (SCommit e) = sa_message_key E (SCommit c)"
    using prepares commits by (simp_all add: sa_message_key.simps)
  have msgs: "smessages l1 = [sa_message_key E (SPrePrepare pp) \<mapsto> [SPrePrepare pp]]"
      "smessages l2 = push_bucket (smessages l1) (sa_message_key E (SPrepare a)) (SPrepare a)"
      "smessages l3 = push_bucket (smessages l2) (sa_message_key E (SPrepare a)) (SPrepare b)"
      "smessages l4 = push_bucket (smessages l3) (sa_message_key E (SCommit c)) (SCommit c)"
    by (simp_all add: logs sa_record_quorum_message sa_record_current_request_def sa_record_request_def
        sa_update_request_phase_state_def push_bucket_def same)
  have reqs: "srequests l1 1 = Some r" "srequests l2 1 = Some r" "srequests l3 1 = Some r" "srequests l4 1 = Some r"
    by (simp_all add: logs log_simps sa_record_request_def)
  have phase: "srequest_phase_state l1 = Map.empty" "srequest_phase_state l2 = Map.empty"
      "srequest_phase_state l3 = [h \<mapsto> LogPrepared]" "srequest_phase_state l4 = [h \<mapsto> LogPrepared]"
    by (simp_all add: logs log_simps sa_record_current_request_def sa_record_request_def sa_update_request_phase_state_def)
  have slot: "sa_slot1 (x\<lparr>sx_log := l\<rparr>) r" if "srequests l 1 = Some r" for l
    using that by (simp add: sa_slot1_def fresh sa_state_new_def)
  have view: "sview (sx_state x) = 0" by (simp add: fresh sa_state_new_def)
  have s1: "sa_dispatch E cx pid x (SPrePrepare pp) = Some (x\<lparr>sx_log := l1\<rparr>, [sa_send E (SPrepare (sa_my_prepare E x pid h))])"
    using sa_preprepare_accepted [OF fresh proposal(1,2,4,6)] proposal(3) by (simp add: l1_def)
  have pa: "p_view a = 0" "p_number a = 1" "p_m_hash a = h"
      "sa_signature_ok E (sx_db x) (p_from_peer_id a) (p_signature a) (sa_message_key E (SPrepare a)) = Some True"
    and pb: "p_view b = 0" "p_number b = 1" "p_m_hash b = h"
      "sa_signature_ok E (sx_db x) (p_from_peer_id b) (p_signature b) (sa_message_key E (SPrepare b)) = Some True"
    and pc: "c_view c = 0" "c_number c = 1" "c_m_hash c = h"
      "sa_signature_ok E (sx_db x) (c_from_peer_id c) (c_signature c) (sa_message_key E (SCommit c)) = Some True"
    and pe: "c_view e = 0" "c_number e = 1" "c_m_hash e = h"
      "sa_signature_ok E (sx_db x) (c_from_peer_id e) (c_signature e) (sa_message_key E (SCommit e)) = Some True"
    using prepares commits by simp_all
  have b: "bucket (smessages l1) (sa_message_key E (SPrepare a)) = []"
      "bucket (smessages l2) (sa_message_key E (SPrepare a)) = [SPrepare a]"
      "bucket (smessages l3) (sa_message_key E (SCommit c)) = []"
      "bucket (smessages l4) (sa_message_key E (SCommit c)) = [SCommit c]"
    using keys unfolding msgs(2-4) bucket_push unfolding msgs(1) bucket_def by auto
  have s2: "sa_dispatch E cx pid (x\<lparr>sx_log := l1\<rparr>) (SPrepare a) = Some (x\<lparr>sx_log := l2\<rparr>, [])"
    by (subst sa_prepare_accepted [OF slot [OF reqs(1)]]) (simp_all add: pa view phase b proposal(5) [symmetric] l2_def)
  have s3: "sa_dispatch E cx pid (x\<lparr>sx_log := l2\<rparr>) (SPrepare b) =
      Some (x\<lparr>sx_log := l3\<rparr>, [sa_send E (SCommit (sa_my_commit E x pid h))])"
    by (subst sa_prepare_accepted [OF slot [OF reqs(2)]])
      (simp_all add: pb [unfolded same] same view phase b proposal(5) [symmetric] l3_def sa_my_commit_def)
  have s4: "sa_dispatch E cx pid (x\<lparr>sx_log := l3\<rparr>) (SCommit c) = Some (x\<lparr>sx_log := l4\<rparr>, [])"
    by (subst sa_commit_accepted [OF slot [OF reqs(3)]]) (simp_all add: pc view phase b proposal(5) [symmetric] l4_def)
  have s5: "sa_dispatch E cx pid (x\<lparr>sx_log := l4\<rparr>) (SCommit e) = sa_commit_request E pid (x\<lparr>sx_log := l4\<rparr>) e r ?l5"
    by (subst sa_commit_accepted [OF slot [OF reqs(4)]]) (simp_all add: pe [unfolded same] same view phase b proposal(5) [symmetric])
  have pend: "scurrent_requests ?l5 = [(h, cx_time cx)]"
    by (simp add: logs log_simps sa_record_current_request_def sa_record_request_def sa_update_request_phase_state_def)
  obtain x' where x': "sa_commit_request E pid (x\<lparr>sx_log := l4\<rparr>) e r ?l5 =
        Some (x', [sa_send E (SaReply (sa_my_reply E (x\<lparr>sx_log := l4\<rparr>) pid r))])"
      "scurrent_requests (sx_log x') = tl (scurrent_requests ?l5)"
      "srequest_phase_state (sx_log x') (c_m_hash e) = Some LogCommited"
      "scurrent_commited_request_count (sx_state x') = 1"
    using sa_commit_request_first [of "x\<lparr>sx_log := l4\<rparr>" e E pid r ?l5, OF _ pe(2)]
    by (elim exE conjE meta_impE) (simp_all add: fresh sa_state_new_def)
  have "sa_my_reply E (x\<lparr>sx_log := l4\<rparr>) pid r = sa_my_reply E x pid r" by (simp add: sa_my_reply_def)
  with s1 s2 s3 s4 s5 x' pend pe(3) show ?thesis by simp
qed

definition sa_demo_prepare :: "u8 \<Rightarrow> prepare" where
  "sa_demo_prepare k = \<lparr>p_view = 0, p_number = 1, p_m_hash = ''a'', p_from_peer_id = [k], p_signature = [k]\<rparr>"

definition sa_demo_commit :: "u8 \<Rightarrow> commit" where
  "sa_demo_commit k = \<lparr>c_view = 0, c_number = 1, c_m_hash = ''a'', c_from_peer_id = [k], c_signature = [k]\<rparr>"

theorem sa_first_request_commits_witness:
  "\<exists>x'. run_handler (sa_dispatch sa_demo sa_demo_ctx [1]) (sa_executor_new sa_demo_db [1])
      [SPrePrepare sa_demo_pp, SPrepare (sa_demo_prepare 3), SPrepare (sa_demo_prepare 4),
       SCommit (sa_demo_commit 3), SCommit (sa_demo_commit 4)] = Some (x', [[[]], [], [[]], [], [[]]]) \<and>
    srequest_phase_state (sx_log x') ''a'' = Some LogCommited"
proof -
  let ?x = "sa_executor_new sa_demo_db [1]"
  have h: "''a'' = sa_message_key sa_demo (SaRequest (sa_demo_request ''a''))"
    by (simp add: sa_message_key.simps get_hash_str_def sa_demo_request_def as_bytes_def)
  have keys: "distinct [sa_message_key sa_demo (SPrePrepare sa_demo_pp), sa_message_key sa_demo (SPrepare (sa_demo_prepare 3)),
      sa_message_key sa_demo (SCommit (sa_demo_commit 3))]"
    by (simp add: sa_message_key.simps get_hash_str_def prefix_defs of_char_u8_inject)
  show ?thesis
    using sa_first_request_commits [of ?x 5000000000 sa_demo_pp "''a''" sa_demo "sa_demo_request ''a''" "sa_demo_prepare 3"
        "sa_demo_prepare 4" "sa_demo_commit 3" "sa_demo_commit 4" sa_demo_ctx "[1]", OF _ _ _ _ _ _ h] keys
    by (auto simp: sa_executor_new_def sa_demo_signature sa_demo_prepare_def sa_demo_commit_def sa_send_def as_bytes_def)
qed

subsection \<open>Keys, channel and client\<close>

text \<open>
  Public keys are not protected. Whoever gets a \<open>PublicKey\<close> message for peer \<open>q\<close> delivered replaces
  the key stored for \<open>q\<close>, and from then on the node accepts the sender's signatures as those of \<open>q\<close>,
  on every message, while the keys of all other peers stay as they are.
\<close>

theorem sa_key_takeover:
  assumes "dalek_correct E" and "smode (sx_state x) = Normal"
    and "sa_dispatch E cx pid x (SPublicKey \<lparr>pk = eddsa_get_public_key E thief, pk_from_peer_id = q\<rparr>) = Some (x', out)"
  shows "out = [] \<and>
    (\<forall>key. sa_signature_ok E (sx_db x') q (eddsa_sign E thief (as_bytes key)) key = Some True) \<and>
    (\<forall>p sig key. u512_from E p \<noteq> u512_from E q \<longrightarrow>
       sa_signature_ok E (sx_db x') p sig key = sa_signature_ok E (sx_db x) p sig key)"
proof -
  let ?new = "eddsa_get_public_key E thief"
  from assms(2,3) obtain db where db: "db_write (u512_from E) (sx_db x) q ?new = Some db" and peer: "peer_from_bytes E q \<noteq> None"
    and x': "x' = x\<lparr>sx_db := db\<rparr>" "out = []"
    by (auto simp: sa_dispatch_def sa_storage_public_key_by_peer_id_def bind_eq_Some_conv)
  have own: "sa_signature_ok E db q (eddsa_sign E thief (as_bytes key)) key = Some True" for key
    using db_read_write [OF db] peer eddsa_sign_verify [OF assms(1), of thief "as_bytes key"]
    by (auto simp: sa_signature_ok_def sa_get_public_key_by_peer_id_def)
  have others: "sa_signature_ok E db p sig key = sa_signature_ok E (sx_db x) p sig key"
    if "u512_from E p \<noteq> u512_from E q" for p sig key
    using db_read_write_other [OF db that] by (simp add: sa_signature_ok_def sa_get_public_key_by_peer_id_def)
  from own others x' show ?thesis by simp
qed

theorem sa_key_takeover_witness:
  "\<forall>key. sa_signature_ok sa_demo (sa_demo_db(2 \<mapsto> [9])) [2] (eddsa_sign sa_demo [9] (as_bytes key)) key = Some True"
proof -
  let ?x = "sa_executor_new sa_demo_db [1]"
  have "dalek_correct sa_demo" by (simp add: dalek_correct_def)
  moreover have "smode (sx_state ?x) = Normal" by (simp add: sa_executor_new_def sa_state_new_def)
  moreover have "sa_dispatch sa_demo sa_demo_ctx [1] ?x
      (SPublicKey \<lparr>pk = eddsa_get_public_key sa_demo [9], pk_from_peer_id = [2]\<rparr>) = Some (?x\<lparr>sx_db := sa_demo_db(2 \<mapsto> [9])\<rparr>, [])"
    by (simp add: sa_dispatch_def sa_executor_new_def sa_state_new_def sa_storage_public_key_by_peer_id_def
        db_write_def db_read_def eddsa_get_public_key_def)
  ultimately show ?thesis using sa_key_takeover [of sa_demo ?x] by fastforce
qed

lemma sa_node_step_channel_bound:
  assumes "sa_node_step E cx n ev = SRunning n' eff" and "length (sd_channel n) \<le> sa_channel_capacity"
  shows "length (sd_channel n') \<le> sa_channel_capacity"
  using assms by (cases ev) (auto simp: sa_unicast_received_def Let_def
      dest!: sa_after_call_running split: list.splits option.splits sa_message_type.splits)

interpretation sa_bounded: invariant_handler "sa_node_turn E" "\<lambda>n. length (sd_channel n) \<le> sa_channel_capacity"
  by unfold_locales (auto simp: sa_node_turn_def split: sa_outcome.splits intro: sa_node_step_channel_bound)

text \<open>
  The channel never holds more than ten messages, and a full channel is a trap: a node in normal mode
  that takes a request while ten messages wait in its channel is blocked for good, since the task that
  would empty the channel is the one that waits for room in it.
\<close>

theorem sa_full_channel_blocks:
  assumes "run_handler (sa_node_turn E) (sa_node_new peer db kp leader) evs = Some (n, effs)"
  shows "length (sd_channel n) \<le> 10 \<and>
    (length (sd_channel n) = 10 \<and> smode (sx_state (sd_executor n)) = Normal \<and>
       from_bin_sa_message E data = Some \<lparr>sa_msg_type = SaRequest r\<rparr> \<longrightarrow>
     sa_node_step E cx n (SGossipReceived data) = SBlocked)"
proof -
  have "length (sd_channel (sa_node_new peer db kp leader)) \<le> sa_channel_capacity"
    by (simp add: sa_node_new_def)
  from sa_bounded.run_inv [OF this assms] have "length (sd_channel n) \<le> 10" by (simp add: sa_channel_capacity_def)
  with sa_started_static(2) [OF assms] show ?thesis
    by (simp add: sa_message_handler_def sa_dispatch_def sa_handle_request_def u64_add_def Let_def
        sa_after_call_def sa_channel_capacity_def)
qed

definition sa_demo_waiting :: "nat \<Rightarrow> sa_node" where
  "sa_demo_waiting k = sa_demo_node\<lparr>sd_executor := (sd_executor sa_demo_node)\<lparr>sx_log :=
     sa_record_request 1 (sa_demo_request ''a'') sa_log_new\<rparr>, sd_channel := replicate (Suc k) []\<rparr>"

lemma sa_demo_waiting_step:
  "sa_node_turn sa_demo sa_demo_node (sa_demo_ctx, SGossipReceived [1]) = Some (sa_demo_waiting 0, [])"
  "k < 9 \<Longrightarrow> sa_node_turn sa_demo (sa_demo_waiting k) (sa_demo_ctx, SGossipReceived [1]) = Some (sa_demo_waiting (Suc k), [])"
  by (simp_all add: sa_step_defs sa_demo_waiting_def sa_handle_request_def u64_add_def sa_send_def Let_def
      sa_record_request_def replicate_append_same)

theorem sa_full_channel_blocks_witness:
  "sa_node_step sa_demo sa_demo_ctx (sa_demo_waiting 9) (SGossipReceived [1]) = SBlocked"
proof -
  have "run_handler (sa_node_turn sa_demo) sa_demo_node (replicate 10 (sa_demo_ctx, SGossipReceived [1])) =
      Some (sa_demo_waiting 9, replicate 10 [])"
    by (simp add: sa_demo_waiting_step eval_nat_numeral)
  moreover have "length (sd_channel (sa_demo_waiting 9)) = 10" "smode (sx_state (sd_executor (sa_demo_waiting 9))) = Normal"
    by (simp_all add: sa_demo_waiting_def sa_step_defs)
  ultimately show ?thesis using sa_full_channel_blocks sa_demo_simps(13) by blast
qed

text \<open>A reply the controller would count: signed by a known key, with a printable result.\<close>

definition sctl_countable :: "'a sa_ext_scheme \<Rightarrow> level_db \<Rightarrow> string \<Rightarrow> sa_reply \<Rightarrow> bool" where
  "sctl_countable E db k r \<longleftrightarrow> sa_message_key E (SaReply r) = k \<and> utf8_valid (rp_result r) \<and>
     sa_signature_ok E db (rp_from_peer_id r) (rp_signature r) k = Some True"

definition sctl_reply_turn ::
    "'a sa_ext_scheme \<Rightarrow> sa_controller_executor \<Rightarrow> sa_reply \<Rightarrow> (sa_controller_executor \<times> unit) option" where
  "sctl_reply_turn E x r = do { x' \<leftarrow> sctl_handle_reply E x r; Some (x', ()) }"

definition sctl_collecting :: "'a sa_ext_scheme \<Rightarrow> string \<Rightarrow> nat \<Rightarrow> sa_controller_executor \<Rightarrow> bool" where
  "sctl_collecting E k j x \<longleftrightarrow> sctl_fault_tolerance_count (sce_state x) = 1 \<and>
     sctl_get_local_messages_count_by_hash (sce_log x) k = min 2 j \<and>
     (sctl_client_state (sce_state x) = ClientReplied \<longleftrightarrow> 2 \<le> j)"

lemma sctl_collecting_step:
  assumes "sctl_collecting E k j x" "sctl_countable E (sce_db x) k r"
  shows "\<exists>x'. sctl_reply_turn E x r = Some (x', ()) \<and> sctl_collecting E k (Suc j) x' \<and> sce_db x' = sce_db x"
proof (cases "2 \<le> j")
  case True
  with assms(1) show ?thesis by (auto simp: sctl_reply_turn_def sctl_handle_reply_def sctl_collecting_def)
next
  case False
  let ?log = "sctl_record_reply E (sce_log x) r"
  have count: "sctl_get_local_messages_count_by_hash ?log k = Suc j"
    using assms False by (simp add: sa_replies.count_push sctl_countable_def sctl_collecting_def)
  show ?thesis using assms False count
    by (cases "j = 1") (auto simp: sctl_reply_turn_def sctl_handle_reply_def sctl_collecting_def sctl_countable_def
        u64_add_def Let_def)
qed

lemma sctl_collecting_run:
  assumes "sctl_collecting E k j x" "\<forall>r \<in> set rs. sctl_countable E (sce_db x) k r"
  shows "\<exists>x' outs. run_handler (sctl_reply_turn E) x rs = Some (x', outs) \<and> sctl_collecting E k (j + length rs) x'"
  using assms
proof (induction rs arbitrary: j x)
  case (Cons r rs)
  from sctl_collecting_step [OF Cons.prems(1)] Cons.prems(2) obtain x1 where
    x1: "sctl_reply_turn E x r = Some (x1, ())" "sctl_collecting E k (Suc j) x1" "sce_db x1 = sce_db x" by auto
  from Cons.IH [OF x1(2)] Cons.prems(2) x1(3) obtain x' outs where
    "run_handler (sctl_reply_turn E) x1 rs = Some (x', outs)" "sctl_collecting E k (Suc j + length rs) x'" by auto
  with x1(1) show ?case by auto
qed simp

text \<open>
  The client is satisfied exactly from the second countable reply on, counting messages and not
  replicas: a new controller that receives a sequence of countable replies with one key ends up
  replied if and only if there were at least two of them, and has stored the first two.
\<close>

theorem sa_client_counts_replies:
  assumes "\<forall>r \<in> set rs. sctl_countable E db k r"
  shows "\<exists>x outs. run_handler (sctl_reply_turn E) (sa_controller_executor_new db kp) rs = Some (x, outs) \<and>
    (sctl_client_state (sce_state x) = ClientReplied \<longleftrightarrow> 2 \<le> length rs) \<and>
    sctl_get_local_messages_count_by_hash (sce_log x) k = min 2 (length rs)"
proof -
  have "sctl_collecting E k 0 (sa_controller_executor_new db kp)"
    by (simp add: sctl_collecting_def sa_controller_executor_new_def sa_controller_state_new_def
        sa_controller_log_new_def sctl_get_local_messages_count_by_hash_def)
  from sctl_collecting_run [OF this, of rs] assms show ?thesis
    by (auto simp: sctl_collecting_def sa_controller_executor_new_def)
qed

definition sa_demo_reply :: sa_reply where
  "sa_demo_reply = \<lparr>rp_client_id = [7], rp_timestamp = ''t'', rp_view = 0, rp_number = 1, rp_from_peer_id = [2],
     rp_signature = [2], rp_result = as_bytes ''ok!''\<rparr>"

text \<open>Here both replies come from one replica.\<close>

theorem sa_client_counts_replies_witness:
  "\<exists>x outs. run_handler (sctl_reply_turn sa_demo) (sa_controller_executor_new sa_demo_db [1])
      [sa_demo_reply, sa_demo_reply] = Some (x, outs) \<and> sctl_client_state (sce_state x) = ClientReplied"
proof -
  have "sctl_countable sa_demo sa_demo_db (sa_message_key sa_demo (SaReply sa_demo_reply)) sa_demo_reply"
    by (simp add: sctl_countable_def sa_demo_reply_def sa_demo_signature as_bytes_def)
  then have "\<forall>r \<in> set [sa_demo_reply, sa_demo_reply].
      sctl_countable sa_demo sa_demo_db (sa_message_key sa_demo (SaReply sa_demo_reply)) r" by simp
  from sa_client_counts_replies [OF this, of "[1]"] show ?thesis by auto
qed

end
