(* ===== verification/SA_Node.thy ===== *)
theory SA_Node
  imports SA_Common
begin

text \<open>
  The node around the two stand-alone HotStuff executors (\<open>node.rs\<close> and the tasks in \<open>executor.rs\<close> of
  \<open>consensus/src/basic_hotstuff/consensus_node\<close> and \<open>chain_hotstuff/consensus_node\<close>, which are the same
  code up to the messages): the event loop with the buffer of requests, the task that turns the mode
  \<open>Do n\<close> into a proposal, and the view timers.

  The tasks run concurrently and share the mode behind a mutex, which each of them locks once to read
  and again to write. A step below is one critical section: what a task has read and is about to write
  is part of the node's state, and a schedule is a list of steps in any order.
\<close>

subsection \<open>The mode\<close>

datatype sa_mode = MDone u64 | MDo u64 | MNotIsLeader u64 | MInit

text \<open>What a view timer that runs out writes, if anything (\<open>view_timeout_start\<close>).\<close>

fun mode_on_timeout :: "sa_mode \<Rightarrow> sa_mode option" where
  "mode_on_timeout (MDone n) = Some (if n = 0 then MInit else MNotIsLeader n)"
| "mode_on_timeout (MDo n) = Some (if n = 0 then MInit else MNotIsLeader n)"
| "mode_on_timeout _ = None"

text \<open>What a leader writes when the quorum of new views is complete (\<open>handle_newview\<close>).\<close>

fun mode_on_quorum :: "sa_mode \<Rightarrow> sa_mode" where
  "mode_on_quorum MInit = MDo 0"
| "mode_on_quorum (MDo n) = MDo n"
| "mode_on_quorum (MDone n) = MDo n"
| "mode_on_quorum (MNotIsLeader n) = MDo n"

text \<open>What the arrival of a request writes; \<open>None\<close> is the overflow of \<open>n + 1\<close>.\<close>

fun mode_on_request :: "sa_mode \<Rightarrow> sa_mode option" where
  "mode_on_request (MDo n) = map_option MDo (u64_add n 1)"
| "mode_on_request (MDone n) = map_option MDone (u64_add n 1)"
| "mode_on_request (MNotIsLeader n) = map_option MNotIsLeader (u64_add n 1)"
| "mode_on_request MInit = Some (MNotIsLeader 1)"

text \<open>What the end of a request writes, by the number of requests left.\<close>

definition mode_on_end :: "nat \<Rightarrow> sa_mode" where
  "mode_on_end count = (if count = 0 then MInit else MNotIsLeader (of_nat count))"

subsection \<open>The executor as the node sees it\<close>

text \<open>
  A call of the executor returns the new executor, the messages it put into the channel, the timers it
  started and stopped, and whether it completed a quorum of new views; \<open>None\<close> is a panic.
\<close>

datatype timer_act = TimerStart u64 u64 | TimerStop

type_synonym 'x call = "('x \<times> bytes list \<times> timer_act list \<times> bool) option"

text \<open>What the event loop does with a message it takes from the channel.\<close>

datatype 'x channel_act =
    ChanSend sa_effect
  | ChanSendCall sa_effect "'x call"
  | ChanEnd string

text \<open>
  The operations: \<open>executor.message_handler\<close>; the reaction to a view timeout; the dispatch of a message
  from the channel; and whether a gossiped message is a request, with its hash.
\<close>

record 'x node_ops =
  op_message :: "'x \<Rightarrow> bytes \<Rightarrow> 'x call"
  op_timeout :: "'x \<Rightarrow> 'x call"
  op_channel :: "'x \<Rightarrow> bytes \<Rightarrow> 'x channel_act option"
  op_request :: "bytes \<Rightarrow> string option option"

subsection \<open>The node and its tasks\<close>

text \<open>
  \<open>tn_consensus_permit\<close>, \<open>tn_timeout_permit\<close>, \<open>tn_stop_permit\<close>: the permits of the three \<open>Notify\<close>
  objects. \<open>tn_timers\<close>: timer tasks still waiting. \<open>tn_fired\<close>: timer tasks that ran out and read the
  mode, with what they will write. \<open>tn_checker\<close>: the number \<open>n\<close> of the \<open>Do n\<close> that the proposal task
  has read and answered, before its write. \<open>tn_main\<close>: what the event loop is about to write.
\<close>

record 'x task_node =
  tn_executor :: 'x
  tn_mode :: sa_mode
  tn_request_buffer :: "string list"
  tn_request_buffer_map :: "string \<rightharpoonup> bytes \<times> nat"
  tn_channel :: "bytes list"
  tn_connected_nodes :: "string \<rightharpoonup> peer_id"
  tn_consensus_permit :: bool
  tn_timeout_permit :: bool
  tn_stop_permit :: bool
  tn_timers :: nat
  tn_fired :: "sa_mode option list"
  tn_checker :: "u64 option"
  tn_main :: "sa_mode option"

definition task_node_new :: "'x \<Rightarrow> 'x task_node" where
  "task_node_new x =
     \<lparr>tn_executor = x, tn_mode = MInit, tn_request_buffer = [], tn_request_buffer_map = Map.empty,
      tn_channel = [], tn_connected_nodes = Map.empty, tn_consensus_permit = False,
      tn_timeout_permit = False, tn_stop_permit = False, tn_timers = 0, tn_fired = [],
      tn_checker = None, tn_main = None\<rparr>"

datatype 'x task_outcome =
    TRunning "'x task_node" "sa_effect list"
  | TBlocked
  | TPanicked

datatype task_event =
    EvConsensus
  | EvTimeout
  | EvChannel
  | EvUnicast bytes
  | EvGossip bytes
  | EvDiscovered "peer_id list"
  | EvExpired "(peer_id \<times> bool) list"
  | EvMainWrite
  | EvCheckerRead
  | EvCheckerWrite
  | EvTimerFires
  | EvTimerWrites nat

text \<open>
  A timer that is started with a stop permit pending ends at once; a stop without a waiting timer
  leaves a permit.
\<close>

fun timer_step :: "'x task_node \<Rightarrow> timer_act \<Rightarrow> 'x task_node" where
  "timer_step n (TimerStart duration view_num) =
     (if tn_stop_permit n then n\<lparr>tn_stop_permit := False\<rparr> else n\<lparr>tn_timers := Suc (tn_timers n)\<rparr>)"
| "timer_step n TimerStop =
     (if tn_timers n > 0 then n\<lparr>tn_timers := tn_timers n - 1\<rparr> else n\<lparr>tn_stop_permit := True\<rparr>)"

definition task_after_call :: "'x task_node \<Rightarrow> sa_effect list \<Rightarrow> 'x call \<Rightarrow> 'x task_outcome" where
  "task_after_call n eff r = (case r of
       None \<Rightarrow> TPanicked
     | Some (x, out, acts, quorum) \<Rightarrow>
         if length (tn_channel n) + length out \<le> sa_channel_capacity
         then TRunning (foldl timer_step
                (n\<lparr>tn_executor := x, tn_channel := tn_channel n @ out,
                   tn_main := (if quorum then Some (mode_on_quorum (tn_mode n)) else None)\<rparr>) acts) eff
         else TBlocked)"

text \<open>The end of a request: \<open>Vec::remove(0)\<close> panics on an empty buffer.\<close>

definition task_end :: "'x task_node \<Rightarrow> string \<Rightarrow> 'x task_outcome" where
  "task_end n request_hash =
     (case tn_request_buffer_map n request_hash of
        Some _ \<Rightarrow> (case tn_request_buffer n of
            [] \<Rightarrow> TPanicked
          | _ # rest \<Rightarrow> TRunning (n\<lparr>tn_request_buffer := rest,
              tn_request_buffer_map := (tn_request_buffer_map n)(request_hash := None),
              tn_mode := mode_on_end (length rest)\<rparr>) [])
      | None \<Rightarrow> TRunning (n\<lparr>tn_mode := mode_on_end (length (tn_request_buffer n))\<rparr>) [])"

definition task_request :: "'x task_node \<Rightarrow> string \<Rightarrow> bytes \<Rightarrow> 'x task_outcome" where
  "task_request n request_hash data =
     (case mode_on_request (tn_mode n) of
        None \<Rightarrow> TPanicked
      | Some m \<Rightarrow> TRunning (n\<lparr>tn_request_buffer := tn_request_buffer n @ [request_hash],
          tn_request_buffer_map := (tn_request_buffer_map n)(request_hash \<mapsto> (data, length (tn_request_buffer n))),
          tn_main := Some m\<rparr>) [])"

text \<open>A turn of the event loop; the loop is busy while it has a write of the mode outstanding.\<close>

fun main_step :: "'a ext_scheme \<Rightarrow> 'x node_ops \<Rightarrow> 'x task_node \<Rightarrow> task_event \<Rightarrow> 'x task_outcome" where
  "main_step E ops n EvConsensus =
     (if \<not> tn_consensus_permit n then TRunning n []
      else let n1 = n\<lparr>tn_consensus_permit := False\<rparr> in
        case tn_request_buffer n of
          [] \<Rightarrow> TRunning n1 []
        | request_hash # _ \<Rightarrow> (case tn_request_buffer_map n request_hash of
            None \<Rightarrow> TPanicked
          | Some request_info \<Rightarrow> task_after_call n1 [] (op_message ops (tn_executor n1) (fst request_info))))"
| "main_step E ops n EvTimeout =
     (if \<not> tn_timeout_permit n then TRunning n []
      else task_after_call (n\<lparr>tn_timeout_permit := False\<rparr>) [] (op_timeout ops (tn_executor n)))"
| "main_step E ops n EvChannel =
     (case tn_channel n of
        [] \<Rightarrow> TRunning n []
      | msg # rest \<Rightarrow> let n1 = n\<lparr>tn_channel := rest\<rparr> in
          (case op_channel ops (tn_executor n) msg of
             None \<Rightarrow> TPanicked
           | Some (ChanSend eff) \<Rightarrow> TRunning n1 [eff]
           | Some (ChanSendCall eff r) \<Rightarrow> task_after_call n1 [eff] r
           | Some (ChanEnd request_hash) \<Rightarrow> task_end n1 request_hash))"
| "main_step E ops n (EvUnicast data) = task_after_call n [] (op_message ops (tn_executor n) data)"
| "main_step E ops n (EvGossip data) =
     (case op_request ops data of
        None \<Rightarrow> TPanicked
      | Some (Some request_hash) \<Rightarrow> task_request n request_hash data
      | Some None \<Rightarrow> task_after_call n [] (op_message ops (tn_executor n) data))"
| "main_step E ops n (EvDiscovered ps) =
     TRunning (n\<lparr>tn_connected_nodes := sa_add_peers E ps (tn_connected_nodes n)\<rparr>) (map SAddPeer ps)"
| "main_step E ops n (EvExpired ps) =
     TRunning (n\<lparr>tn_connected_nodes := sa_remove_peers E (sa_gone ps) (tn_connected_nodes n)\<rparr>)
       (map SRemovePeer (sa_gone ps))"
| "main_step E ops n _ = TRunning n []"

text \<open>One step of the node; an event that is not possible in a state leaves it as it is.\<close>

fun task_step :: "'a ext_scheme \<Rightarrow> 'x node_ops \<Rightarrow> 'x task_node \<Rightarrow> task_event \<Rightarrow> 'x task_outcome" where
  "task_step E ops n EvMainWrite =
     (case tn_main n of None \<Rightarrow> TRunning n [] | Some m \<Rightarrow> TRunning (n\<lparr>tn_mode := m, tn_main := None\<rparr>) [])"
| "task_step E ops n EvCheckerRead =
     (case (tn_checker n, tn_mode n) of
        (None, MDo k) \<Rightarrow> if k > 0 then TRunning (n\<lparr>tn_consensus_permit := True, tn_checker := Some k\<rparr>) []
                         else TRunning n []
      | _ \<Rightarrow> TRunning n [])"
| "task_step E ops n EvCheckerWrite =
     (case tn_checker n of
        None \<Rightarrow> TRunning n []
      | Some k \<Rightarrow> TRunning (n\<lparr>tn_mode := MDone (k - 1), tn_checker := None\<rparr>) [])"
| "task_step E ops n EvTimerFires =
     (if tn_timers n > 0
      then TRunning (n\<lparr>tn_timers := tn_timers n - 1, tn_fired := tn_fired n @ [mode_on_timeout (tn_mode n)]\<rparr>) []
      else TRunning n [])"
| "task_step E ops n (EvTimerWrites k) =
     (if k < length (tn_fired n)
      then TRunning (n\<lparr>tn_mode := (case tn_fired n ! k of Some m \<Rightarrow> m | None \<Rightarrow> tn_mode n),
             tn_timeout_permit := True, tn_fired := take k (tn_fired n) @ drop (Suc k) (tn_fired n)\<rparr>) []
      else TRunning n [])"
| "task_step E ops n ev = (if tn_main n = None then main_step E ops n ev else TRunning n [])"

definition task_turn ::
    "'a ext_scheme \<Rightarrow> 'x node_ops \<Rightarrow> 'x task_node \<Rightarrow> task_event \<Rightarrow> ('x task_node \<times> sa_effect list) option" where
  "task_turn E ops n ev = (case task_step E ops n ev of TRunning n' eff \<Rightarrow> Some (n', eff) | _ \<Rightarrow> None)"

subsection \<open>What a call of the executor leaves alone\<close>

lemma timer_steps_frame:
  "tn_mode (foldl timer_step n acts) = tn_mode n \<and> tn_main (foldl timer_step n acts) = tn_main n \<and>
   tn_consensus_permit (foldl timer_step n acts) = tn_consensus_permit n \<and>
   tn_checker (foldl timer_step n acts) = tn_checker n \<and> tn_fired (foldl timer_step n acts) = tn_fired n \<and>
   tn_request_buffer (foldl timer_step n acts) = tn_request_buffer n \<and>
   tn_request_buffer_map (foldl timer_step n acts) = tn_request_buffer_map n \<and>
   tn_channel (foldl timer_step n acts) = tn_channel n \<and>
   tn_executor (foldl timer_step n acts) = tn_executor n"
proof (induction acts arbitrary: n)
  case (Cons a acts)
  then show ?case by (cases a) simp_all
qed simp

lemmas timer_frame [simp] = timer_steps_frame [THEN conjunct1]
  timer_steps_frame [THEN conjunct2, THEN conjunct1]
  timer_steps_frame [THEN conjunct2, THEN conjunct2, THEN conjunct1]
  timer_steps_frame [THEN conjunct2, THEN conjunct2, THEN conjunct2, THEN conjunct1]
  timer_steps_frame [THEN conjunct2, THEN conjunct2, THEN conjunct2, THEN conjunct2, THEN conjunct1]
  timer_steps_frame [THEN conjunct2, THEN conjunct2, THEN conjunct2, THEN conjunct2, THEN conjunct2, THEN conjunct1]
  timer_steps_frame [THEN conjunct2, THEN conjunct2, THEN conjunct2, THEN conjunct2, THEN conjunct2, THEN conjunct2, THEN conjunct1]
  timer_steps_frame [THEN conjunct2, THEN conjunct2, THEN conjunct2, THEN conjunct2, THEN conjunct2, THEN conjunct2, THEN conjunct2, THEN conjunct1]
  timer_steps_frame [THEN conjunct2, THEN conjunct2, THEN conjunct2, THEN conjunct2, THEN conjunct2, THEN conjunct2, THEN conjunct2, THEN conjunct2]

lemma task_after_call_running:
  assumes "task_after_call n eff r = TRunning n' eff'"
  obtains x out acts quorum where "r = Some (x, out, acts, quorum)" "eff' = eff"
    "n' = foldl timer_step (n\<lparr>tn_executor := x, tn_channel := tn_channel n @ out,
       tn_main := (if quorum then Some (mode_on_quorum (tn_mode n)) else None)\<rparr>) acts"
  using assms by (auto simp: task_after_call_def split: option.splits prod.splits if_splits)

end
