(* ===== verification/SA_HotStuff.thy ===== *)
theory SA_HotStuff
  imports HotStuff_Protocol Level_DB SA_Node
begin

text \<open>
  The executor of the stand-alone basic HotStuff node (\<open>consensus/src/basic_hotstuff/consensus_node\<close>:
  \<open>executor.rs\<close>, \<open>state.rs\<close>, \<open>message.rs\<close>) and its operations as the node of \<open>SA_Node\<close> uses them
  (\<open>node.rs\<close>). The message structs other than \<open>Vote\<close>, the hashes of \<open>common.rs\<close> and the log of
  \<open>log.rs\<close> are those of the pluggable protocol and are taken from there. A handler returns the new
  executor, the messages it sends through the channel, the timers it starts and stops, and whether it
  completed a quorum of new views; \<open>None\<close> is a panic.
\<close>

subsection \<open>Messages, state, executor\<close>

record sh_vote =
  sv_view_num :: u64
  sv_block :: block
  sv_partial_signature :: bytes
  sv_from_peer_id :: bytes

datatype sh_message_type =
    ShRequest request
  | ShNewView hs_new_view
  | ShPrepare hs_prepare
  | ShCommit hs_commit
  | ShPreCommit pre_commit
  | ShDecide decide
  | ShPrepareVote sh_vote
  | ShCommitVote sh_vote
  | ShPreCommitVote sh_vote
  | ShEnd string
  | ShTBLSKey tbls_key
  | ShConsensusNodePKsInfo "bytes \<rightharpoonup> consensus_node_pk_info"

record sh_message =
  sh_msg_type :: sh_message_type

text \<open>bincode on the messages and on the key information kept in the database.\<close>

record sh_ext = hs_ext +
  bin_sh_message :: "sh_message \<Rightarrow> bytes"
  from_bin_sh_message :: "bytes \<Rightarrow> sh_message option"
  bin_pk_info :: "consensus_node_pk_info \<Rightarrow> bytes"
  from_bin_pk_info :: "bytes \<Rightarrow> consensus_node_pk_info option"
  sh_u512_from :: "bytes \<Rightarrow> nat option"

text \<open>The mode, which other tasks share, is kept by the node.\<close>

record sh_state =
  sh_view :: u64
  sh_high_qc :: "qc option"
  sh_prepare_qc :: "qc option"
  sh_locked_qc :: "qc option"
  sh_commit_qc :: "qc option"
  sh_primary :: bytes
  sh_node_count :: u64
  sh_fault_tolerance_count :: u64
  sh_tf :: u64
  sh_current_view_timeout :: u64

definition sh_state_new :: sh_state where
  "sh_state_new =
     \<lparr>sh_view = 0, sh_high_qc = None, sh_prepare_qc = None, sh_locked_qc = None, sh_commit_qc = None,
      sh_primary = [], sh_node_count = 4, sh_fault_tolerance_count = 1, sh_tf = 10,
      sh_current_view_timeout = 10\<rparr>"

record sh_executor =
  shx_state :: sh_state
  shx_log :: hs_log
  shx_db :: level_db
  shx_keypair :: "tbls_key option"
  shx_consensus_nodes :: "(u64 \<times> bytes) list"

definition sh_executor_new :: "level_db \<Rightarrow> sh_executor" where
  "sh_executor_new db =
     \<lparr>shx_state = sh_state_new, shx_log = hs_log_new, shx_db = db, shx_keypair = None,
      shx_consensus_nodes = []\<rparr>"

type_synonym sh_call = "(sh_executor \<times> sh_message_type list \<times> timer_act list \<times> bool) option"

subsection \<open>Views and keys\<close>

definition sh_change_leader :: "sh_executor \<Rightarrow> u64 \<Rightarrow> sh_executor option" where
  "sh_change_leader x view_num = do {
     leader_num \<leftarrow> u64_rem view_num (of_nat (length (shx_consensus_nodes x)));
     leader \<leftarrow> map_of (shx_consensus_nodes x) leader_num;
     Some (x\<lparr>shx_state := (shx_state x)\<lparr>sh_primary := leader\<rparr>\<rparr>)
   }"

definition sh_newview :: "'a sh_ext_scheme \<Rightarrow> bytes \<Rightarrow> sh_executor \<Rightarrow> sh_call" where
  "sh_newview E pid x = do {
     next \<leftarrow> u64_add (sh_view (shx_state x)) 1;
     x1 \<leftarrow> sh_change_leader x next;
     let out = (if sh_primary (shx_state x1) = pid then []
                else [ShNewView \<lparr>nv_view_num = sh_view (shx_state x1), nv_justify = sh_prepare_qc (shx_state x1),
                       nv_from_peer_id = pid\<rparr>]);
     let x2 = x1\<lparr>shx_state := (shx_state x1)\<lparr>sh_view := next\<rparr>\<rparr>;
     _ \<leftarrow> peer_from_bytes E (sh_primary (shx_state x2));
     Some (x2, out, [TimerStart (sh_current_view_timeout (shx_state x2)) next], False)
   }"

definition sh_storage_tbls_key :: "'a sh_ext_scheme \<Rightarrow> bytes \<Rightarrow> sh_executor \<Rightarrow> tbls_key \<Rightarrow> sh_call" where
  "sh_storage_tbls_key E pid x k = do {
     _ \<leftarrow> peer_from_bytes E pid;
     Some (x\<lparr>shx_keypair := Some k\<rparr>, [], [], False)
   }"

text \<open>The loop over the map of public keys, in its iteration order.\<close>

fun sh_storage_pk_loop :: "'a sh_ext_scheme \<Rightarrow> (bytes \<rightharpoonup> consensus_node_pk_info) \<Rightarrow> bytes list \<Rightarrow> sh_executor \<Rightarrow>
    sh_executor option" where
  "sh_storage_pk_loop E pks_info [] x = Some x"
| "sh_storage_pk_loop E pks_info (peer_id # rest) x =
     (case pks_info peer_id of
        None \<Rightarrow> sh_storage_pk_loop E pks_info rest x
      | Some pk_info \<Rightarrow> do {
          db \<leftarrow> db_write (sh_u512_from E) (shx_db x) peer_id (bin_pk_info E pk_info);
          read_value \<leftarrow> db_read (sh_u512_from E) db peer_id;
          v \<leftarrow> read_value;
          _ \<leftarrow> from_bin_pk_info E v;
          _ \<leftarrow> peer_from_bytes E peer_id;
          sh_storage_pk_loop E pks_info rest
            (x\<lparr>shx_db := db, shx_consensus_nodes := AList.update (pki_number pk_info) peer_id (shx_consensus_nodes x)\<rparr>)
        })"

definition sh_storage_consensus_node_pk ::
    "'a sh_ext_scheme \<Rightarrow> bytes list \<Rightarrow> bytes \<Rightarrow> sh_executor \<Rightarrow> (bytes \<rightharpoonup> consensus_node_pk_info) \<Rightarrow> sh_call" where
  "sh_storage_consensus_node_pk E order pid x pks_info = do {
     x1 \<leftarrow> sh_storage_pk_loop E pks_info order x;
     sh_newview E pid x1
   }"

definition sh_get_public_key_info_by_peer_id ::
    "'a sh_ext_scheme \<Rightarrow> sh_executor \<Rightarrow> bytes \<Rightarrow> consensus_node_pk_info option" where
  "sh_get_public_key_info_by_peer_id E x peer_id = do {
     read_value \<leftarrow> db_read (sh_u512_from E) (shx_db x) peer_id;
     v \<leftarrow> read_value;
     from_bin_pk_info E v
   }"

definition sh_view_timeout_stop :: "sh_executor \<Rightarrow> sh_executor" where
  "sh_view_timeout_stop x = x\<lparr>shx_state := (shx_state x)\<lparr>sh_current_view_timeout := sh_tf (shx_state x)\<rparr>\<rparr>"

definition sh_next_view :: "sh_executor \<Rightarrow> sh_executor option" where
  "sh_next_view x = do {
     v \<leftarrow> u64_add (sh_view (shx_state x)) 1;
     Some (x\<lparr>shx_state := (shx_state x)\<lparr>sh_view := v\<rparr>\<rparr>)
   }"

definition sh_end_message :: "'a sh_ext_scheme \<Rightarrow> block \<Rightarrow> sh_message_type" where
  "sh_end_message E b = ShEnd (hs_get_request_hash E \<lparr>cmd = block_cmd b\<rparr>)"

subsection \<open>Proposals\<close>

definition sh_handle_newview :: "sh_executor \<Rightarrow> hs_new_view \<Rightarrow> sh_call" where
  "sh_handle_newview x nv = do {
     let x1 = x\<lparr>shx_log := record_newview (shx_log x) (nv_view_num nv) nv\<rparr>;
     let count = get_newviews_count_by_view (shx_log x1) (nv_view_num nv);
     twice \<leftarrow> u64_mul 2 (sh_fault_tolerance_count (shx_state x1));
     threshold \<leftarrow> u64_add twice 1;
     if count = unat threshold
     then do {
       h \<leftarrow> get_high_qc_by_view (shx_log x1) (nv_view_num nv) (sh_prepare_qc (shx_state x1));
       Some (x1\<lparr>shx_state := (shx_state x1)\<lparr>sh_high_qc := h\<rparr>\<rparr>, [], [], True)
     }
     else Some (x1, [], [], False)
   }"

definition sh_handle_request :: "'a sh_ext_scheme \<Rightarrow> bytes \<Rightarrow> sh_executor \<Rightarrow> request \<Rightarrow> sh_call" where
  "sh_handle_request E pid x request =
     (let parent = (case sh_high_qc (shx_state x) of Some q \<Rightarrow> get_block_hash E (qc_block q) | None \<Rightarrow> '''');
          prepare = \<lparr>pr_view_num = sh_view (shx_state x),
                     pr_block = \<lparr>block_cmd = cmd request, parent_hash = parent\<rparr>,
                     pr_justify = sh_high_qc (shx_state x), pr_from_peer_id = pid\<rparr>
      in Some (x, [ShPrepare prepare], [], False))"

definition sh_safe_node :: "'a sh_ext_scheme \<Rightarrow> sh_executor \<Rightarrow> block \<Rightarrow> qc \<Rightarrow> bool" where
  "sh_safe_node E x b q =
     (case sh_locked_qc (shx_state x) of
        Some locked \<Rightarrow> qc_view_num q > qc_view_num locked \<or> parent_hash b = get_block_hash E (qc_block locked)
      | None \<Rightarrow> qc_view_num q > 0 \<or> parent_hash b = '''')"

text \<open>The end of the three voting handlers; without a key pair nothing is sent.\<close>

definition sh_send_vote :: "'a sh_ext_scheme \<Rightarrow> bytes \<Rightarrow> sh_executor \<Rightarrow> u8 \<Rightarrow> (sh_vote \<Rightarrow> sh_message_type) \<Rightarrow>
    u64 \<Rightarrow> block \<Rightarrow> sh_call" where
  "sh_send_vote E pid x ty vote_msg view_num b =
     (case shx_keypair x of
        Some k \<Rightarrow> Some (x, [vote_msg \<lparr>sv_view_num = view_num, sv_block = b,
            sv_partial_signature = tbls_sign E k (as_bytes (get_message_hash E ty view_num b)),
            sv_from_peer_id = pid\<rparr>], [], False)
      | None \<Rightarrow> Some (x, [], [], False))"

definition sh_handle_prepare :: "'a sh_ext_scheme \<Rightarrow> bytes \<Rightarrow> sh_executor \<Rightarrow> hs_prepare \<Rightarrow> sh_call" where
  "sh_handle_prepare E pid x prepare =
     (let extends = (case pr_justify prepare of
            None \<Rightarrow> parent_hash (pr_block prepare) = ''''
          | Some q \<Rightarrow> get_block_hash E (qc_block q) = parent_hash (pr_block prepare) \<and>
                      sh_safe_node E x (pr_block prepare) q)
      in if \<not> extends then Some (x, [], [], False)
         else sh_send_vote E pid (x\<lparr>shx_state := (shx_state x)\<lparr>sh_primary := pr_from_peer_id prepare\<rparr>\<rparr>)
                PREPARE ShPrepareVote (pr_view_num prepare) (pr_block prepare))"

subsection \<open>Votes and certificates\<close>

text \<open>The common part of the three vote handlers of the leader.\<close>

definition sh_collect_vote :: "'a sh_ext_scheme \<Rightarrow> u8 \<Rightarrow> sh_executor \<Rightarrow> sh_vote \<Rightarrow> (sh_executor \<times> qc option) option" where
  "sh_collect_vote E ty x vt = do {
     let msg_hash = get_message_hash E ty (sv_view_num vt) (sv_block vt);
     pk_info \<leftarrow> sh_get_public_key_info_by_peer_id E x (sv_from_peer_id vt);
     if \<not> bls_verify_share E (pki_public_key pk_info) (sv_partial_signature vt) (as_bytes msg_hash)
     then Some (x, None)
     else do {
       let x1 = x\<lparr>shx_log := record_messgae_partial_signature (shx_log x) msg_hash (pki_number pk_info)
                   (sv_partial_signature vt)\<rparr>;
       let partial_sig_count = get_partial_signatures_count_by_message_hash (shx_log x1) msg_hash;
       twice \<leftarrow> u64_mul 2 (sh_fault_tolerance_count (shx_state x1));
       threshold \<leftarrow> u64_add twice 1;
       if partial_sig_count \<noteq> unat threshold then Some (x1, None)
       else do {
         partial_sigs \<leftarrow> get_partial_signatures_by_message_hash (shx_log x1) msg_hash;
         k \<leftarrow> shx_keypair x1;
         signature \<leftarrow> combine_partial_signatures E k (map_of partial_sigs);
         Some (x1, Some (set_signature (qc_new ty (sv_view_num vt) (sv_block vt)) signature))
       }
     }
   }"

definition sh_handle_prepare_vote :: "'a sh_ext_scheme \<Rightarrow> sh_executor \<Rightarrow> sh_vote \<Rightarrow> sh_call" where
  "sh_handle_prepare_vote E x vt = do {
     (x1, certificate) \<leftarrow> sh_collect_vote E PREPARE x vt;
     (case certificate of
        None \<Rightarrow> Some (x1, [], [], False)
      | Some q \<Rightarrow> Some (x1, [ShPreCommit \<lparr>pc_view_num = sv_view_num vt, pc_justify = Some q\<rparr>], [], False))
   }"

definition sh_handle_precommit_vote :: "'a sh_ext_scheme \<Rightarrow> sh_executor \<Rightarrow> sh_vote \<Rightarrow> sh_call" where
  "sh_handle_precommit_vote E x vt = do {
     (x1, certificate) \<leftarrow> sh_collect_vote E PRE_COMMIT x vt;
     (case certificate of
        None \<Rightarrow> Some (x1, [], [], False)
      | Some q \<Rightarrow> Some (x1, [ShCommit \<lparr>cm_view_num = sv_view_num vt, cm_justify = Some q\<rparr>], [], False))
   }"

text \<open>Stop the timer and enter the next view, after the messages \<open>out\<close>.\<close>

definition sh_finish_view :: "'a sh_ext_scheme \<Rightarrow> bytes \<Rightarrow> sh_message_type list \<Rightarrow> sh_executor \<Rightarrow> sh_call" where
  "sh_finish_view E pid out x = do {
     (x1, out1, acts, q) \<leftarrow> sh_newview E pid (sh_view_timeout_stop x);
     Some (x1, out @ out1, TimerStop # acts, q)
   }"

definition sh_handle_commit_vote :: "'a sh_ext_scheme \<Rightarrow> bytes \<Rightarrow> sh_executor \<Rightarrow> sh_vote \<Rightarrow> sh_call" where
  "sh_handle_commit_vote E pid x vt = do {
     (x1, certificate) \<leftarrow> sh_collect_vote E COMMIT x vt;
     (case certificate of
        None \<Rightarrow> Some (x1, [], [], False)
      | Some q \<Rightarrow> sh_finish_view E pid
          [ShDecide \<lparr>dc_view_num = sv_view_num vt, dc_justify = Some q\<rparr>, sh_end_message E (sv_block vt)] x1)
   }"

text \<open>The check of a received certificate: \<open>Some None\<close> is one the handler drops.\<close>

definition sh_checked_justify :: "'a sh_ext_scheme \<Rightarrow> u8 \<Rightarrow> sh_executor \<Rightarrow> qc option \<Rightarrow> qc option option" where
  "sh_checked_justify E ty x justify =
     (case justify of
        None \<Rightarrow> Some None
      | Some q \<Rightarrow>
          (case qc_signature q of
             None \<Rightarrow> Some None
           | Some signature \<Rightarrow>
               if qc_msg_type q \<noteq> ty \<or> qc_view_num q \<noteq> sh_view (shx_state x) then Some None
               else do {
                 k \<leftarrow> shx_keypair x;
                 if \<not> threshold_verify E k signature
                        (as_bytes (get_message_hash E ty (qc_view_num q) (qc_block q)))
                 then Some None else Some (Some q)
               }))"

definition sh_handle_precommit :: "'a sh_ext_scheme \<Rightarrow> bytes \<Rightarrow> sh_executor \<Rightarrow> pre_commit \<Rightarrow> sh_call" where
  "sh_handle_precommit E pid x msg = do {
     checked \<leftarrow> sh_checked_justify E PREPARE x (pc_justify msg);
     (case checked of
        None \<Rightarrow> Some (x, [], [], False)
      | Some q \<Rightarrow> sh_send_vote E pid (x\<lparr>shx_state := (shx_state x)\<lparr>sh_prepare_qc := Some q\<rparr>\<rparr>)
                   PRE_COMMIT ShPreCommitVote (pc_view_num msg) (qc_block q))
   }"

definition sh_handle_commit :: "'a sh_ext_scheme \<Rightarrow> bytes \<Rightarrow> sh_executor \<Rightarrow> hs_commit \<Rightarrow> sh_call" where
  "sh_handle_commit E pid x msg = do {
     checked \<leftarrow> sh_checked_justify E PRE_COMMIT x (cm_justify msg);
     (case checked of
        None \<Rightarrow> Some (x, [], [], False)
      | Some q \<Rightarrow> sh_send_vote E pid (x\<lparr>shx_state := (shx_state x)\<lparr>sh_locked_qc := Some q\<rparr>\<rparr>)
                   COMMIT ShCommitVote (cm_view_num msg) (qc_block q))
   }"

definition sh_handle_decide :: "'a sh_ext_scheme \<Rightarrow> bytes \<Rightarrow> sh_executor \<Rightarrow> decide \<Rightarrow> sh_call" where
  "sh_handle_decide E pid x msg = do {
     checked \<leftarrow> sh_checked_justify E COMMIT x (dc_justify msg);
     (case checked of
        None \<Rightarrow> Some (x, [], [], False)
      | Some q \<Rightarrow> sh_finish_view E pid [sh_end_message E (qc_block q)] x)
   }"

subsection \<open>Dispatch and the operations of the node\<close>

text \<open>\<open>ord\<close> gives the iteration order of a received map of public keys.\<close>

fun sh_dispatch ::
    "'a sh_ext_scheme \<Rightarrow> ((bytes \<rightharpoonup> consensus_node_pk_info) \<Rightarrow> bytes list) \<Rightarrow> bytes \<Rightarrow> sh_executor \<Rightarrow> sh_message_type \<Rightarrow> sh_call" where
  "sh_dispatch E ord pid x (ShRequest m) = sh_handle_request E pid x m"
| "sh_dispatch E ord pid x (ShNewView m) = sh_handle_newview x m"
| "sh_dispatch E ord pid x (ShPrepare m) = sh_handle_prepare E pid x m"
| "sh_dispatch E ord pid x (ShPrepareVote m) = sh_handle_prepare_vote E x m"
| "sh_dispatch E ord pid x (ShPreCommit m) = sh_handle_precommit E pid x m"
| "sh_dispatch E ord pid x (ShPreCommitVote m) = sh_handle_precommit_vote E x m"
| "sh_dispatch E ord pid x (ShCommit m) = sh_handle_commit E pid x m"
| "sh_dispatch E ord pid x (ShCommitVote m) = sh_handle_commit_vote E pid x m"
| "sh_dispatch E ord pid x (ShDecide m) = sh_handle_decide E pid x m"
| "sh_dispatch E ord pid x (ShTBLSKey k) = sh_storage_tbls_key E pid x k"
| "sh_dispatch E ord pid x (ShConsensusNodePKsInfo pks) = sh_storage_consensus_node_pk E (ord pks) pid x pks"
| "sh_dispatch E ord pid x _ = Some (x, [], [], False)"

definition sh_serialize_call :: "'a sh_ext_scheme \<Rightarrow> sh_call \<Rightarrow> sh_executor call" where
  "sh_serialize_call E r = do {
     (x, out, acts, q) \<leftarrow> r;
     Some (x, map (\<lambda>m. bin_sh_message E \<lparr>sh_msg_type = m\<rparr>) out, acts, q)
   }"

definition sh_channel :: "'a sh_ext_scheme \<Rightarrow> sh_executor \<Rightarrow> bytes \<Rightarrow> sh_executor channel_act option" where
  "sh_channel E x msg = do {
     message \<leftarrow> from_bin_sh_message E msg;
     let to_leader = do {
           leader_id \<leftarrow> peer_from_bytes E (sh_primary (shx_state x));
           Some (ChanSend (SUnicastTo leader_id msg))
         };
     case sh_msg_type message of
       ShPrepareVote _ \<Rightarrow> to_leader
     | ShPreCommitVote _ \<Rightarrow> to_leader
     | ShCommitVote _ \<Rightarrow> to_leader
     | ShNewView _ \<Rightarrow> to_leader
     | ShEnd request_hash \<Rightarrow> Some (ChanEnd request_hash)
     | _ \<Rightarrow> Some (ChanSend (SPublish ''Consensus'' msg))
   }"

definition sh_on_timeout :: "'a sh_ext_scheme \<Rightarrow> bytes \<Rightarrow> sh_executor \<Rightarrow> sh_call" where
  "sh_on_timeout E pid x = do {
     t \<leftarrow> u64_mul (sh_current_view_timeout (shx_state x)) 2;
     sh_newview E pid (x\<lparr>shx_state := (shx_state x)\<lparr>sh_current_view_timeout := t\<rparr>\<rparr>)
   }"

definition sh_request_of :: "'a sh_ext_scheme \<Rightarrow> bytes \<Rightarrow> string option option" where
  "sh_request_of E data = do {
     msg \<leftarrow> from_bin_sh_message E data;
     Some (case sh_msg_type msg of ShRequest request \<Rightarrow> Some (hs_get_request_hash E request) | _ \<Rightarrow> None)
   }"

definition sh_message_handler ::
    "'a sh_ext_scheme \<Rightarrow> ((bytes \<rightharpoonup> consensus_node_pk_info) \<Rightarrow> bytes list) \<Rightarrow> bytes \<Rightarrow> sh_executor \<Rightarrow> bytes \<Rightarrow> sh_executor call" where
  "sh_message_handler E ord pid x data = do {
     message \<leftarrow> from_bin_sh_message E data;
     sh_serialize_call E (sh_dispatch E ord pid x (sh_msg_type message))
   }"

definition sh_ops ::
    "'a sh_ext_scheme \<Rightarrow> ((bytes \<rightharpoonup> consensus_node_pk_info) \<Rightarrow> bytes list) \<Rightarrow> bytes \<Rightarrow> sh_executor node_ops" where
  "sh_ops E ord pid =
     \<lparr>op_message = sh_message_handler E ord pid,
      op_timeout = (\<lambda>x. sh_serialize_call E (sh_on_timeout E pid x)),
      op_channel = sh_channel E, op_request = sh_request_of E\<rparr>"

subsection \<open>The controller\<close>

text \<open>
  The controller of both stand-alone HotStuff programs (\<open>controller_node/node.rs\<close>, \<open>common.rs\<close>): the
  command \<open>DistributeKey\<close> and the number of requests to publish. \<open>random\<close> and \<open>order\<close> are those of
  \<open>generate_bls_keys\<close>.
\<close>

record sh_controller =
  shc_connected_nodes :: "string \<rightharpoonup> peer_id"
  shc_fault_tolerance_count :: u64
  shc_db :: level_db

definition sh_controller_new :: "level_db \<Rightarrow> sh_controller" where
  "sh_controller_new db = \<lparr>shc_connected_nodes = Map.empty, shc_fault_tolerance_count = 1, shc_db = db\<rparr>"

fun shc_distribute_loop :: "'a sh_ext_scheme \<Rightarrow> distribute_tbls_key list \<Rightarrow> level_db \<Rightarrow> sa_effect list \<Rightarrow>
    (bytes \<rightharpoonup> consensus_node_pk_info) \<Rightarrow> (level_db \<times> sa_effect list \<times> (bytes \<rightharpoonup> consensus_node_pk_info)) option" where
  "shc_distribute_loop E [] db eff pks = Some (db, eff, pks)"
| "shc_distribute_loop E (key_info # rest) db eff pks = do {
     let serialized_msg = bin_sh_message E \<lparr>sh_msg_type = ShTBLSKey (dk_tbls_key key_info)\<rparr>;
     let db_key = peer_to_bytes E (dk_peer_id key_info);
     let pk_info = \<lparr>pki_number = dk_number key_info, pki_public_key = tk_public_key (dk_tbls_key key_info)\<rparr>;
     db1 \<leftarrow> db_write (sh_u512_from E) db db_key (bin_pk_info E pk_info);
     shc_distribute_loop E rest db1 (eff @ [SUnicastTo (dk_peer_id key_info) serialized_msg]) (pks(db_key \<mapsto> pk_info))
   }"

definition shc_distribute_keys ::
    "'a sh_ext_scheme \<Rightarrow> (nat \<Rightarrow> bytes) \<Rightarrow> string list \<Rightarrow> sh_controller \<Rightarrow> (sh_controller \<times> sa_effect list) option" where
  "shc_distribute_keys E random order n = do {
     let keys = generate_bls_keys E random order (shc_connected_nodes n) (shc_fault_tolerance_count n);
     first \<leftarrow> (case keys of [] \<Rightarrow> None | k # _ \<Rightarrow> Some (dk_tbls_key k));
     _ \<leftarrow> from_bin_sh_message E (bin_sh_message E \<lparr>sh_msg_type = ShTBLSKey first\<rparr>);
     (db, eff, pks) \<leftarrow> shc_distribute_loop E keys (shc_db n) [] Map.empty;
     Some (n\<lparr>shc_db := db\<rparr>,
       eff @ [SPublish ''Consensus'' (bin_sh_message E \<lparr>sh_msg_type = ShConsensusNodePKsInfo pks\<rparr>)])
   }"

text \<open>\<open>nanos\<close> are the sub-second nanoseconds at which the requests are made.\<close>

definition create_requests :: "nat list \<Rightarrow> sh_message list" where
  "create_requests nanos = map (\<lambda>t. \<lparr>sh_msg_type = ShRequest \<lparr>cmd = ''wangjitao'' @ decimal t\<rparr>\<rparr>) nanos"

definition shc_publish_requests :: "'a sh_ext_scheme \<Rightarrow> nat list \<Rightarrow> sa_effect list" where
  "shc_publish_requests E nanos = map (\<lambda>m. SPublish ''Consensus'' (bin_sh_message E m)) (create_requests nanos)"

end
