(* ===== verification/SA_HotStuff_Properties.thy ===== *)
theory SA_HotStuff_Properties
  imports SA_HotStuff
begin

text \<open>
  What the votes collected by a stand-alone basic HotStuff leader can and cannot do.
\<close>

subsection \<open>Where the shares come from\<close>

text \<open>The part of an executor that decides about certificates.\<close>

definition sh_core :: "sh_executor \<Rightarrow> u64 \<times> (string \<rightharpoonup> (u64 \<times> bytes) list)" where
  "sh_core x = (sh_fault_tolerance_count (shx_state x), message_signatures (shx_log x))"

text \<open>The messages that carry a certificate.\<close>

fun sh_certificate :: "sh_message_type \<Rightarrow> bool" where
  "sh_certificate (ShPreCommit m) = True"
| "sh_certificate (ShCommit m) = True"
| "sh_certificate (ShDecide m) = True"
| "sh_certificate _ = False"

fun sh_vote_of :: "sh_message_type \<Rightarrow> sh_vote option" where
  "sh_vote_of (ShPrepareVote v) = Some v"
| "sh_vote_of (ShPreCommitVote v) = Some v"
| "sh_vote_of (ShCommitVote v) = Some v"
| "sh_vote_of _ = None"

lemma sh_newview_core:
  "sh_newview E pid x = Some (x', out, acts, q) \<Longrightarrow> sh_core x' = sh_core x \<and> (\<forall>m \<in> set out. \<not> sh_certificate m)"
  by (auto simp: sh_newview_def sh_change_leader_def sh_core_def Let_def bind_eq_Some_conv split: if_splits)

lemma sh_storage_pk_loop_core:
  "sh_storage_pk_loop E pks order x = Some x' \<Longrightarrow> sh_core x' = sh_core x"
proof (induction order arbitrary: x)
  case (Cons p order)
  show ?case
  proof (cases "pks p")
    case None
    with Cons show ?thesis by simp
  next
    case (Some info)
    with Cons.prems obtain db where
      "sh_storage_pk_loop E pks order (x\<lparr>shx_db := db,
         shx_consensus_nodes := AList.update (pki_number info) p (shx_consensus_nodes x)\<rparr>) = Some x'"
      by (auto simp: bind_eq_Some_conv)
    from Cons.IH [OF this] show ?thesis by (simp add: sh_core_def)
  qed
qed simp

lemma sh_finish_view_core:
  "sh_finish_view E pid out x = Some (x', out', acts, q) \<Longrightarrow> sh_core x' = sh_core x \<and>
   ((\<forall>m \<in> set out. \<not> sh_certificate m) \<longrightarrow> (\<forall>m \<in> set out'. \<not> sh_certificate m))"
  by (auto simp: sh_finish_view_def bind_eq_Some_conv sh_view_timeout_stop_def sh_core_def
      dest!: sh_newview_core)

lemma sh_send_vote_core:
  "sh_send_vote E pid x ty f v b = Some (x', out, acts, q) \<Longrightarrow> (\<And>u. \<not> sh_certificate (f u)) \<Longrightarrow>
   sh_core x' = sh_core x \<and> (\<forall>m \<in> set out. \<not> sh_certificate m)"
  by (auto simp: sh_send_vote_def split: option.splits)

lemma sh_core_update [simp]:
  "sh_core (x\<lparr>shx_state := (shx_state x)\<lparr>sh_primary := a\<rparr>\<rparr>) = sh_core x"
  "sh_core (x\<lparr>shx_state := (shx_state x)\<lparr>sh_prepare_qc := b\<rparr>\<rparr>) = sh_core x"
  "sh_core (x\<lparr>shx_state := (shx_state x)\<lparr>sh_locked_qc := b\<rparr>\<rparr>) = sh_core x"
  "sh_core (x\<lparr>shx_keypair := k\<rparr>) = sh_core x"
  by (simp_all add: sh_core_def)

lemma sh_handle_newview_core:
  "sh_handle_newview x nv = Some (x', out, acts, q) \<Longrightarrow> sh_core x' = sh_core x \<and> out = []"
  by (auto simp: sh_handle_newview_def sh_core_def record_newview_def Let_def bind_eq_Some_conv split: if_splits)

text \<open>Only votes change the shares, and only votes make a node send a certificate.\<close>

lemma sh_dispatch_no_vote:
  assumes "sh_dispatch E ord pid x m = Some (x', out, acts, q)" "sh_vote_of m = None"
  shows "sh_core x' = sh_core x \<and> (\<forall>k \<in> set out. \<not> sh_certificate k)"
proof (cases m)
  case (ShPrepare p)
  with assms show ?thesis by (auto simp: sh_handle_prepare_def Let_def split: if_splits dest!: sh_send_vote_core)
next
  case (ShPreCommit p)
  with assms show ?thesis
    by (auto simp: sh_handle_precommit_def bind_eq_Some_conv split: option.splits dest!: sh_send_vote_core)
next
  case (ShCommit p)
  with assms show ?thesis
    by (auto simp: sh_handle_commit_def bind_eq_Some_conv split: option.splits dest!: sh_send_vote_core)
next
  case (ShDecide p)
  with assms show ?thesis
    by (auto simp: sh_handle_decide_def bind_eq_Some_conv sh_end_message_def split: option.splits dest!: sh_finish_view_core)
next
  case (ShConsensusNodePKsInfo pks)
  with assms show ?thesis
    by (fastforce simp: sh_storage_consensus_node_pk_def bind_eq_Some_conv dest: sh_storage_pk_loop_core sh_newview_core)
qed (use assms in \<open>auto simp: sh_handle_request_def sh_storage_tbls_key_def Let_def bind_eq_Some_conv
    dest: sh_handle_newview_core\<close>)

subsection \<open>Two voters are not enough\<close>

text \<open>All shares come from the nodes with the numbers in \<open>K\<close>.\<close>

definition sh_shares_from :: "u64 set \<Rightarrow> sh_executor \<Rightarrow> bool" where
  "sh_shares_from K x \<longleftrightarrow> fst (sh_core x) = 1 \<and>
     (\<forall>h sigs. snd (sh_core x) h = Some sigs \<longrightarrow> distinct (map fst sigs) \<and> fst ` set sigs \<subseteq> K)"

lemma sh_collect_vote_few:
  assumes "sh_shares_from K x" "finite K" "card K \<le> 2"
    and "sh_collect_vote E ty x v = Some (x', c)"
    and "\<And>info. sh_get_public_key_info_by_peer_id E x (sv_from_peer_id v) = Some info \<Longrightarrow> pki_number info \<in> K"
  shows "c = None \<and> sh_shares_from K x'"
proof -
  let ?h = "get_message_hash E ty (sv_view_num v) (sv_block v)"
  obtain info where info: "sh_get_public_key_info_by_peer_id E x (sv_from_peer_id v) = Some info"
    using assms(4) by (auto simp: sh_collect_vote_def Let_def bind_eq_Some_conv)
  let ?x = "x\<lparr>shx_log := record_messgae_partial_signature (shx_log x) ?h (pki_number info) (sv_partial_signature v)\<rparr>"
  have few: "sh_shares_from K ?x"
    using assms(1) assms(5) [OF info]
    by (simp add: sh_shares_from_def sh_core_def record_messgae_partial_signature_def dom_update distinct_update
        split: option.split)
  have "get_partial_signatures_count_by_message_hash (shx_log ?x) ?h \<le> card K"
  proof (cases "message_signatures (shx_log ?x) ?h")
    case (Some sigs)
    with few have d: "distinct (map fst sigs)" "fst ` set sigs \<subseteq> K" by (auto simp: sh_shares_from_def sh_core_def)
    from d(1) have "length sigs = card (fst ` set sigs)" by (metis distinct_card length_map set_map)
    also have "\<dots> \<le> card K" using d(2) assms(2) by (rule card_mono [rotated])
    finally show ?thesis using Some by (simp add: get_partial_signatures_count_by_message_hash_def)
  qed (simp add: get_partial_signatures_count_by_message_hash_def)
  with assms(3) have count: "get_partial_signatures_count_by_message_hash (shx_log ?x) ?h \<noteq> 3" by simp
  have "c = None \<and> (x' = x \<or> x' = ?x)"
    using assms(1,4) info count
    by (auto simp: sh_collect_vote_def sh_shares_from_def sh_core_def u64_mul_def u64_add_def Let_def split: if_splits)
  with few assms(1) show ?thesis by auto
qed

text \<open>
  The messages a node can process while only peers whose registered key number is in \<open>K\<close> vote, and the
  runs made of such messages and of view timeouts, the two kinds of calls that change the executor.
\<close>

definition sh_votes_from :: "'a sh_ext_scheme \<Rightarrow> u64 set \<Rightarrow> sh_executor \<Rightarrow> sh_message_type \<Rightarrow> bool" where
  "sh_votes_from E K x m \<longleftrightarrow> (\<forall>v info. sh_vote_of m = Some v \<and>
     sh_get_public_key_info_by_peer_id E x (sv_from_peer_id v) = Some info \<longrightarrow> pki_number info \<in> K)"

inductive sh_reach_from :: "'a sh_ext_scheme \<Rightarrow> ((bytes \<rightharpoonup> consensus_node_pk_info) \<Rightarrow> bytes list) \<Rightarrow> bytes \<Rightarrow> u64 set \<Rightarrow>
    sh_executor \<Rightarrow> sh_executor \<Rightarrow> bool" for E ord pid K where
  from_refl: "sh_reach_from E ord pid K x x"
| from_step: "sh_reach_from E ord pid K x y \<Longrightarrow> sh_votes_from E K y m \<Longrightarrow>
    sh_dispatch E ord pid y m = Some (z, out, acts, q) \<Longrightarrow> sh_reach_from E ord pid K x z"
| from_timeout: "sh_reach_from E ord pid K x y \<Longrightarrow> sh_on_timeout E pid y = Some (z, out, acts, q) \<Longrightarrow>
    sh_reach_from E ord pid K x z"

lemma sh_dispatch_few:
  assumes "sh_shares_from K x" "finite K" "card K \<le> 2" "sh_votes_from E K x m"
    and "sh_dispatch E ord pid x m = Some (x', out, acts, q)"
  shows "sh_shares_from K x' \<and> (\<forall>k \<in> set out. \<not> sh_certificate k)"
proof (cases "sh_vote_of m")
  case None
  from sh_dispatch_no_vote [OF assms(5) None] assms(1) show ?thesis by (simp add: sh_shares_from_def)
next
  case (Some v)
  have few: "c = None \<and> sh_shares_from K y" if "sh_collect_vote E ty x v = Some (y, c)" for ty y c
    using sh_collect_vote_few [OF assms(1-3) that] assms(4) Some by (auto simp: sh_votes_from_def)
  from Some assms(5) show ?thesis
    by (cases m) (auto simp: sh_handle_prepare_vote_def sh_handle_precommit_vote_def sh_handle_commit_vote_def
        bind_eq_Some_conv split: option.splits dest!: few)
qed

lemma sh_on_timeout_core:
  "sh_on_timeout E pid x = Some (x', out, acts, q) \<Longrightarrow>
   sh_core x' = sh_core x \<and> (\<forall>m \<in> set out. \<not> sh_certificate m)"
  by (auto simp: sh_on_timeout_def bind_eq_Some_conv dest!: sh_newview_core) (simp add: sh_core_def)

lemma sh_reach_from_shares:
  assumes "sh_reach_from E ord pid K (sh_executor_new db) x" "finite K" "card K \<le> 2"
  shows "sh_shares_from K x"
  using assms(1)
proof (induction "sh_executor_new db" x rule: sh_reach_from.induct)
  case from_refl
  show ?case by (simp add: sh_shares_from_def sh_core_def sh_executor_new_def sh_state_new_def hs_log_new_def)
next
  case (from_step y m z out acts q)
  with assms(2,3) show ?case using sh_dispatch_few by blast
next
  case (from_timeout y z out acts q)
  then show ?case using sh_on_timeout_core [OF from_timeout.hyps(3)] by (simp add: sh_shares_from_def)
qed

text \<open>
  C30. The stand-alone program tolerates no silent replica. A leader files only the shares that other nodes send it
  and never one of its own, and it needs three. So from its start, through whatever messages, in whatever order,
  and view timeouts it processes, as long as the votes among them come from peers with at most two
  different registered key numbers, as they do when one of the three other nodes of four is silent, neither a
  message nor a view timeout makes it send a pre-commit, a commit or a decide message.
\<close>

theorem silent_replica_stalls:
  assumes "finite K" "card K \<le> 2"
    and "sh_reach_from E ord pid K (sh_executor_new db) x"
    and "sh_votes_from E K x m \<and> sh_dispatch E ord pid x m = Some (x', out, acts, q) \<or>
      sh_on_timeout E pid x = Some (x', out, acts, q)"
  shows "\<forall>k \<in> set out. \<not> sh_certificate k"
  using assms(4)
proof
  assume "sh_votes_from E K x m \<and> sh_dispatch E ord pid x m = Some (x', out, acts, q)"
  with sh_dispatch_few [OF sh_reach_from_shares [OF assms(3,1,2)] assms(1,2)] show ?thesis by blast
next
  assume "sh_on_timeout E pid x = Some (x', out, acts, q)"
  from sh_on_timeout_core [OF this] show ?thesis by simp
qed

subsection \<open>External functions for the witnesses\<close>

text \<open>
  Digests are the bytes themselves, a share is the public key of its signer, the database entry of a
  peer is its number, and a received byte stands for a new view or a request.
\<close>

definition sh_demo_decode :: "bytes \<Rightarrow> sh_message option" where
  "sh_demo_decode b =
     (if b = [1] then Some \<lparr>sh_msg_type = ShNewView \<lparr>nv_view_num = 0, nv_justify = None, nv_from_peer_id = [2]\<rparr>\<rparr>
      else if b = [2] then Some \<lparr>sh_msg_type = ShRequest \<lparr>cmd = ''a''\<rparr>\<rparr>
      else if b = [3] then Some \<lparr>sh_msg_type = ShEnd ''b''\<rparr>
      else None)"

definition sh_demo :: sh_ext where
  "sh_demo = \<lparr>sha3_256_hex = map (\<lambda>w. char_of (unat w)), bincode_request = (\<lambda>r. as_bytes (cmd r)),
     json_request = (\<lambda>r. []), from_json_request = (\<lambda>b. None),
     peer_from_bytes = Some, peer_to_bytes = (\<lambda>p. p), peer_to_string = map (\<lambda>w. char_of (unat w)),
     dalek_public = (\<lambda>k. k), dalek_sign = (\<lambda>k m. k), dalek_public_key_ok = (\<lambda>_. True),
     dalek_signature_ok = (\<lambda>_. True), dalek_verify = (\<lambda>k m s. s = k),
     json_hs_message = (\<lambda>_. []), from_json_hs_message = (\<lambda>_. None), json_hs_prepare_str = (\<lambda>_. ''''),
     json_vote_str = (\<lambda>_. ''''), json_pre_commit_str = (\<lambda>_. ''''), json_hs_commit_str = (\<lambda>_. ''''),
     bincode_block = (\<lambda>b. as_bytes (block_cmd b)), bincode_pks = (\<lambda>_. []), from_bincode_pks = (\<lambda>_. None),
     peer_from_str = (\<lambda>_. None), bls_sign = (\<lambda>k m. k), bls_verify_share = (\<lambda>pk s m. s = pk),
     bls_verify = (\<lambda>_ _ _. True), bls_combine = (\<lambda>_ _. Some []), bls_secret_share = (\<lambda>_ _. []),
     bls_public_keys = (\<lambda>k. k), bls_public_share = (\<lambda>k _. k), bls_public_key = (\<lambda>k. k),
     bin_sh_message = (\<lambda>_. []), from_bin_sh_message = sh_demo_decode, bin_pk_info = (\<lambda>i. pki_public_key i),
     from_bin_pk_info = (\<lambda>b. Some \<lparr>pki_number = of_nat (length b), pki_public_key = b\<rparr>),
     sh_u512_from = (\<lambda>b. Some (length b))\<rparr>"

lemma sh_demo_simps [simp]:
  "bls_verify_share sh_demo k t m \<longleftrightarrow> t = k" "sh_u512_from sh_demo b = Some (length b)"
  "from_bin_pk_info sh_demo b = Some \<lparr>pki_number = of_nat (length b), pki_public_key = b\<rparr>"
  "bin_sh_message sh_demo msg = []" "peer_from_bytes sh_demo b = Some b"
  "from_bin_sh_message sh_demo [1] = Some \<lparr>sh_msg_type = ShNewView \<lparr>nv_view_num = 0, nv_justify = None, nv_from_peer_id = [2]\<rparr>\<rparr>"
  "from_bin_sh_message sh_demo [2] = Some \<lparr>sh_msg_type = ShRequest \<lparr>cmd = ''a''\<rparr>\<rparr>"
  "from_bin_sh_message sh_demo [3] = Some \<lparr>sh_msg_type = ShEnd ''b''\<rparr>"
  by (simp_all add: sh_demo_def sh_demo_decode_def)

definition sh_demo_vote :: "bytes \<Rightarrow> sh_vote" where
  "sh_demo_vote p = \<lparr>sv_view_num = 1, sv_block = \<lparr>block_cmd = ''a'', parent_hash = ''''\<rparr>, sv_partial_signature = p,
     sv_from_peer_id = p\<rparr>"

text \<open>Peers of length 2 and 3 have those numbers; both vote, and the leader sends nothing.\<close>

definition sh_demo_leader :: sh_executor where
  "sh_demo_leader = sh_executor_new [2 \<mapsto> [7, 7], 3 \<mapsto> [7, 7, 7]]"

theorem silent_replica_stalls_witness:
  "\<exists>x x' out acts q. sh_dispatch sh_demo (\<lambda>_. []) [1] sh_demo_leader (ShPrepareVote (sh_demo_vote [7, 7])) = Some (x, [], [], False) \<and>
     sh_dispatch sh_demo (\<lambda>_. []) [1] x (ShPrepareVote (sh_demo_vote [7, 7, 7])) = Some (x', out, acts, q) \<and>
     (\<forall>k \<in> set out. \<not> sh_certificate k)"
proof -
  let ?h = "get_message_hash sh_demo PREPARE 1 \<lparr>block_cmd = ''a'', parent_hash = ''''\<rparr>"
  let ?x = "sh_demo_leader\<lparr>shx_log := record_messgae_partial_signature (shx_log sh_demo_leader) ?h 2 [7, 7]\<rparr>"
  let ?y = "?x\<lparr>shx_log := record_messgae_partial_signature (shx_log ?x) ?h 3 [7, 7, 7]\<rparr>"
  note defs = sh_handle_prepare_vote_def sh_collect_vote_def sh_get_public_key_info_by_peer_id_def db_read_def
    sh_demo_leader_def sh_executor_new_def sh_state_new_def sh_demo_vote_def Let_def u64_mul_def u64_add_def
    get_partial_signatures_count_by_message_hash_def record_messgae_partial_signature_def hs_log_new_def
  have s1: "sh_dispatch sh_demo (\<lambda>_. []) [1] sh_demo_leader (ShPrepareVote (sh_demo_vote [7, 7])) = Some (?x, [], [], False)"
    and s2: "sh_dispatch sh_demo (\<lambda>_. []) [1] ?x (ShPrepareVote (sh_demo_vote [7, 7, 7])) = Some (?y, [], [], False)"
    by (simp_all add: defs)
  have v1: "sh_votes_from sh_demo {2, 3} sh_demo_leader (ShPrepareVote (sh_demo_vote [7, 7]))"
    and v2: "sh_votes_from sh_demo {2, 3} ?x (ShPrepareVote (sh_demo_vote [7, 7, 7]))"
    by (simp_all add: sh_votes_from_def sh_get_public_key_info_by_peer_id_def db_read_def sh_demo_vote_def
        sh_demo_leader_def sh_executor_new_def)
  have "sh_reach_from sh_demo (\<lambda>_. []) [1] {2, 3} (sh_executor_new [2 \<mapsto> [7, 7], 3 \<mapsto> [7, 7, 7]]) ?x"
    by (rule from_step [OF from_refl]) (use v1 s1 in \<open>auto simp: sh_demo_leader_def\<close>)
  moreover have "finite {2, 3 :: u64}" "card {2, 3 :: u64} \<le> 2" by simp_all
  ultimately have "\<forall>k \<in> set []. \<not> sh_certificate k"
    using v2 s2 by (intro silent_replica_stalls [of "{2, 3}"]) blast+
  with s1 s2 show ?thesis by blast
qed

end
