(* ===== verification/SA_Node_Properties.thy ===== *)
theory SA_Node_Properties
  imports SA_HotStuff_Properties
begin

text \<open>
  Which requests the node of the stand-alone HotStuff programs proposes, whatever its executor does:
  the mode counts the requests that wait for a proposal, and the count can be lost.
\<close>

subsection \<open>A node for the witnesses\<close>

text \<open>Two new views of view 0 have arrived; the buffer holds the requests \<open>a\<close> and \<open>b\<close>.\<close>

abbreviation demo_ops :: "sh_executor node_ops" where
  "demo_ops \<equiv> sh_ops sh_demo (\<lambda>_. []) [1]"

definition demo_newview :: hs_new_view where
  "demo_newview = \<lparr>nv_view_num = 0, nv_justify = None, nv_from_peer_id = [2]\<rparr>"

definition demo_task_node :: "sa_mode \<Rightarrow> sh_executor task_node" where
  "demo_task_node m = (task_node_new ((sh_executor_new Map.empty)\<lparr>shx_log := hs_log_new\<lparr>newviews :=
       [0 \<mapsto> [demo_newview, demo_newview]]\<rparr>\<rparr>))
     \<lparr>tn_mode := m, tn_request_buffer := [''a'', ''b''],
      tn_request_buffer_map := [''a'' \<mapsto> ([2], 0), ''b'' \<mapsto> ([2], 1)]\<rparr>"

lemma demo_task_node_simps [simp]:
  "tn_mode (demo_task_node m) = m" "tn_request_buffer (demo_task_node m) = [''a'', ''b'']"
  "tn_request_buffer_map (demo_task_node m) = [''a'' \<mapsto> ([2], 0), ''b'' \<mapsto> ([2], 1)]"
  "tn_channel (demo_task_node m) = []" "tn_main (demo_task_node m) = None" "tn_checker (demo_task_node m) = None"
  "tn_fired (demo_task_node m) = []" "tn_timers (demo_task_node m) = 0" "\<not> tn_consensus_permit (demo_task_node m)"
  by (simp_all add: demo_task_node_def task_node_new_def)

subsection \<open>A request that was proposed in vain\<close>

definition idle_mode :: "sa_mode \<Rightarrow> bool" where
  "idle_mode m \<longleftrightarrow> m = MInit \<or> m = MDo 0 \<or> m = MDone 0"

text \<open>No task has a reason to propose, and none is about to write one.\<close>

definition no_work :: "'x task_node \<Rightarrow> bool" where
  "no_work n \<longleftrightarrow> idle_mode (tn_mode n) \<and> \<not> tn_consensus_permit n \<and> tn_checker n = None \<and>
     (\<forall>m. tn_main n = Some m \<longrightarrow> idle_mode m) \<and> (\<forall>w \<in> set (tn_fired n). \<forall>m. w = Some m \<longrightarrow> idle_mode m)"

text \<open>The steps that tell the node of a new request or of the end of one.\<close>

fun brings_work :: "'x node_ops \<Rightarrow> 'x task_node \<Rightarrow> task_event \<Rightarrow> bool" where
  "brings_work ops n (EvGossip data) = (\<exists>h. op_request ops data = Some (Some h))"
| "brings_work ops n EvChannel = (\<exists>msg rest h. tn_channel n = msg # rest \<and> op_channel ops (tn_executor n) msg = Some (ChanEnd h))"
| "brings_work ops n _ = False"

text \<open>What any number of the other steps, in any order, can reach.\<close>

inductive quiet_reach :: "'a ext_scheme \<Rightarrow> 'x node_ops \<Rightarrow> 'x task_node \<Rightarrow> 'x task_node \<Rightarrow> bool"
  for E ops where
  quiet_refl: "quiet_reach E ops n n"
| quiet_step: "quiet_reach E ops n n1 \<Longrightarrow> \<not> brings_work ops n1 ev \<Longrightarrow> task_step E ops n1 ev = TRunning n2 eff \<Longrightarrow>
    quiet_reach E ops n n2"

lemma idle_mode_closed:
  "idle_mode m \<Longrightarrow> idle_mode (mode_on_quorum m)"
  "idle_mode m \<Longrightarrow> mode_on_timeout m = Some m' \<Longrightarrow> idle_mode m'"
  by (auto simp: idle_mode_def)

lemma no_work_after_call:
  assumes "no_work n" "task_after_call n eff r = TRunning n' eff'"
  shows "no_work n' \<and> tn_request_buffer n' = tn_request_buffer n"
  using assms(2) assms(1) by (elim task_after_call_running) (auto simp: no_work_def idle_mode_closed)

text \<open>Clearing a permit or taking a message off the channel leaves a node without work as it is.\<close>

lemma no_work_updates:
  "no_work n \<Longrightarrow> no_work (n\<lparr>tn_timeout_permit := b\<rparr>)"
  "no_work n \<Longrightarrow> no_work (n\<lparr>tn_channel := ch\<rparr>)"
  "no_work n \<Longrightarrow> no_work (n\<lparr>tn_connected_nodes := ps\<rparr>)"
  by (simp_all add: no_work_def)

lemma no_work_main_step:
  assumes "no_work n" "\<not> brings_work ops n ev" "main_step E ops n ev = TRunning n' eff"
  shows "no_work n' \<and> tn_request_buffer n' = tn_request_buffer n"
proof (cases ev)
  case EvConsensus
  with assms show ?thesis by (simp add: no_work_def)
next
  case EvTimeout
  with assms show ?thesis
    by (auto split: if_splits dest: no_work_after_call [OF no_work_updates(1)])
next
  case EvChannel
  with assms show ?thesis
    by (auto simp: Let_def no_work_updates split: list.splits option.splits channel_act.splits
        dest: no_work_after_call [OF no_work_updates(2)])
next
  case (EvUnicast data)
  with assms show ?thesis by (auto dest: no_work_after_call)
next
  case (EvGossip data)
  with assms show ?thesis by (auto split: option.splits dest: no_work_after_call)
qed (use assms in \<open>auto simp: no_work_updates\<close>)

lemma no_work_step:
  assumes "no_work n" "\<not> brings_work ops n ev" "task_step E ops n ev = TRunning n' eff"
  shows "no_work n' \<and> tn_request_buffer n' = tn_request_buffer n"
proof (cases ev)
  case EvMainWrite
  with assms show ?thesis by (auto simp: no_work_def split: option.splits)
next
  case EvCheckerRead
  with assms show ?thesis by (auto simp: no_work_def idle_mode_def split: option.splits sa_mode.splits)
next
  case EvCheckerWrite
  with assms show ?thesis by (auto simp: no_work_def split: option.splits)
next
  case EvTimerFires
  with assms show ?thesis by (auto simp: no_work_def idle_mode_closed split: if_splits)
next
  case (EvTimerWrites k)
  have "set (take k (tn_fired n) @ drop (Suc k) (tn_fired n)) \<subseteq> set (tn_fired n)"
    by (auto dest: in_set_takeD in_set_dropD)
  moreover have "idle_mode m" if "k < length (tn_fired n)" "tn_fired n ! k = Some m" for m
    using assms(1) that nth_mem [OF that(1)] by (auto simp: no_work_def)
  ultimately show ?thesis using assms EvTimerWrites
    by (auto simp: no_work_def simp del: set_append split: if_splits option.splits)
qed (use assms no_work_main_step [of n ops ev E n' eff] in
    \<open>auto split: if_splits simp del: main_step.simps brings_work.simps\<close>)

lemma quiet_reach_no_work:
  assumes "quiet_reach E ops n n'" "no_work n"
  shows "no_work n' \<and> tn_request_buffer n' = tn_request_buffer n"
  using assms
proof (induction rule: quiet_reach.induct)
  case (quiet_step n n1 ev n2 eff)
  with no_work_step [of n1 ops ev E n2 eff] show ?case by simp
qed simp

text \<open>
  C32. A leader that has proposed its last waiting request gets one attempt. When the view times out before
  the request is decided, the count in the mode is gone although the request is still in the buffer:
  after the timer has run out, no number of new-view quorums, timeouts, votes, certificates and other
  steps in any order makes the node propose again, until a new request or the end of a request arrives.
\<close>

theorem timed_out_request_is_stranded:
  assumes "tn_mode n = MDone 0" "tn_timers n > 0" "tn_fired n = []" "tn_main n = None"
    "tn_checker n = None" "\<not> tn_consensus_permit n"
    and "run_handler (task_turn E ops) n [EvTimerFires, EvTimerWrites 0] = Some (n1, effs)"
    and "quiet_reach E ops n1 n'"
  shows "tn_mode n1 = MInit \<and> tn_request_buffer n' = tn_request_buffer n \<and>
    task_step E ops n' EvConsensus = TRunning n' []"
proof -
  from assms(1-7) have n1: "n1 = n\<lparr>tn_timers := tn_timers n - 1, tn_mode := MInit, tn_timeout_permit := True, tn_fired := []\<rparr>"
    by (simp add: task_turn_def)
  with assms(4-6) have "no_work n1" by (simp add: no_work_def idle_mode_def)
  from quiet_reach_no_work [OF assms(8) this] n1 show ?thesis by (simp add: no_work_def)
qed

theorem timed_out_request_is_stranded_witness:
  "\<exists>n1 effs. run_handler (task_turn sh_demo demo_ops) ((demo_task_node (MDone 0))\<lparr>tn_timers := 1\<rparr>)
     [EvTimerFires, EvTimerWrites 0] = Some (n1, effs) \<and> tn_request_buffer n1 = [''a'', ''b''] \<and>
     task_step sh_demo demo_ops n1 EvConsensus = TRunning n1 []"
proof -
  let ?n = "(demo_task_node (MDone 0))\<lparr>tn_timers := 1\<rparr>"
  obtain n1 effs where "run_handler (task_turn sh_demo demo_ops) ?n [EvTimerFires, EvTimerWrites 0] = Some (n1, effs)"
    by (simp add: task_turn_def)
  moreover from timed_out_request_is_stranded [OF _ _ _ _ _ _ this quiet_refl]
  have "tn_request_buffer n1 = [''a'', ''b''] \<and> task_step sh_demo demo_ops n1 EvConsensus = TRunning n1 []"
    by (simp del: task_step.simps)
  ultimately show ?thesis by blast
qed

subsection \<open>A request that is proposed\<close>

text \<open>
  The way to a proposal: a node that is not leader and counts \<open>k > 0\<close> waiting requests, receives the
  new view that completes a quorum; the mode becomes \<open>Do k\<close>, the proposal task sees it and notifies the
  event loop, which hands the first request of the buffer to the executor. What the executor then sends
  is in the channel, and \<open>k - 1\<close> requests are left to propose.
\<close>

theorem waiting_request_is_proposed:
  assumes "tn_mode n = MNotIsLeader k" "k > 0" "tn_main n = None" "tn_checker n = None"
    "tn_request_buffer n = h # hs" "tn_request_buffer_map n h = Some (data, c)"
    and "op_message ops (tn_executor n) nv = Some (x1, out1, acts1, True)"
    and "op_message ops x1 data = Some (x2, out2, acts2, False)"
    and "length (tn_channel n) + length out1 + length out2 \<le> sa_channel_capacity"
  shows "\<exists>n'. run_handler (task_turn E ops) n [EvUnicast nv, EvMainWrite, EvCheckerRead, EvCheckerWrite, EvConsensus] =
      Some (n', [[], [], [], [], []]) \<and>
    tn_mode n' = MDone (k - 1) \<and> tn_executor n' = x2 \<and> tn_channel n' = tn_channel n @ out1 @ out2 \<and>
    tn_request_buffer n' = h # hs"
  using assms by (simp add: task_turn_def task_after_call_def)

theorem waiting_request_is_proposed_witness:
  "\<exists>n'. run_handler (task_turn sh_demo demo_ops) (demo_task_node (MNotIsLeader 2))
      [EvUnicast [1], EvMainWrite, EvCheckerRead, EvCheckerWrite, EvConsensus] = Some (n', [[], [], [], [], []]) \<and>
    tn_mode n' = MDone 1 \<and> tn_channel n' = [[]]"
proof -
  let ?n = "demo_task_node (MNotIsLeader 2)"
  let ?x1 = "(sh_executor_new Map.empty)\<lparr>shx_log := hs_log_new\<lparr>newviews := [0 \<mapsto> [demo_newview, demo_newview, demo_newview]]\<rparr>\<rparr>"
  have "op_message demo_ops (tn_executor ?n) [1] = Some (?x1, [], [], True)"
    by (simp add: sh_ops_def sh_message_handler_def sh_serialize_call_def sh_handle_newview_def demo_task_node_def
        task_node_new_def sh_executor_new_def sh_state_new_def record_newview_def get_newviews_count_by_view_def
        get_high_qc_by_view_def push_bucket_def bucket_def u64_mul_def u64_add_def Let_def demo_newview_def)
  moreover have "op_message demo_ops ?x1 [2] = Some (?x1, [[]], [], False)"
    by (simp add: sh_ops_def sh_message_handler_def sh_serialize_call_def sh_handle_request_def Let_def)
  moreover have "length (tn_channel ?n) + length ([] :: bytes list) + length [[] :: bytes] \<le> sa_channel_capacity"
    by (simp add: sa_channel_capacity_def)
  ultimately show ?thesis
    using waiting_request_is_proposed [of ?n 2 "''a''" "[''b'']" "[2]" 0 demo_ops "[1]" ?x1 "[]" "[]" ?x1 "[[]]" "[]" sh_demo]
    by auto
qed

subsection \<open>The buffer of requests\<close>

definition buffer_ok :: "'x task_node \<Rightarrow> bool" where
  "buffer_ok n \<longleftrightarrow> distinct (tn_request_buffer n) \<and> dom (tn_request_buffer_map n) = set (tn_request_buffer n)"

text \<open>
  While requests arrive once and end in the order in which they arrived, the buffer and its map agree
  and the event loop finds the request it is told to propose.
\<close>

fun orderly :: "'x node_ops \<Rightarrow> 'x task_node \<Rightarrow> task_event \<Rightarrow> bool" where
  "orderly ops n (EvGossip data) = (\<forall>h. op_request ops data = Some (Some h) \<longrightarrow> h \<notin> set (tn_request_buffer n))"
| "orderly ops n EvChannel = (\<forall>msg rest h. tn_channel n = msg # rest \<and> op_channel ops (tn_executor n) msg = Some (ChanEnd h) \<longrightarrow>
     h \<notin> set (tn_request_buffer n) \<or> (\<exists>hs. tn_request_buffer n = h # hs))"
| "orderly ops n _ = True"

lemma buffer_ok_frame [simp]:
  "buffer_ok (n\<lparr>tn_mode := m\<rparr>) = buffer_ok n" "buffer_ok (n\<lparr>tn_main := w\<rparr>) = buffer_ok n"
  "buffer_ok (n\<lparr>tn_channel := ch\<rparr>) = buffer_ok n" "buffer_ok (n\<lparr>tn_connected_nodes := ps\<rparr>) = buffer_ok n"
  "buffer_ok (n\<lparr>tn_consensus_permit := b\<rparr>) = buffer_ok n" "buffer_ok (n\<lparr>tn_timeout_permit := b\<rparr>) = buffer_ok n"
  "buffer_ok (n\<lparr>tn_checker := k\<rparr>) = buffer_ok n" "buffer_ok (n\<lparr>tn_fired := fs\<rparr>) = buffer_ok n"
  "buffer_ok (n\<lparr>tn_timers := t\<rparr>) = buffer_ok n"
  by (simp_all add: buffer_ok_def)

lemma buffer_ok_after_call:
  "task_after_call n eff r = TRunning n' eff' \<Longrightarrow> buffer_ok n' = buffer_ok n"
  by (elim task_after_call_running) (simp add: buffer_ok_def)

lemma buffer_ok_end:
  assumes "buffer_ok n" "task_end n h = TRunning n' eff" "h \<notin> set (tn_request_buffer n) \<or> (\<exists>hs. tn_request_buffer n = h # hs)"
  shows "buffer_ok n'"
proof (cases "tn_request_buffer_map n h")
  case None
  with assms(1,2) show ?thesis by (auto simp: task_end_def)
next
  case (Some v)
  with assms(1) have "h \<in> set (tn_request_buffer n)" by (auto simp: buffer_ok_def)
  with assms(3) obtain hs where hs: "tn_request_buffer n = h # hs" by blast
  have "n' = n\<lparr>tn_request_buffer := hs, tn_request_buffer_map := (tn_request_buffer_map n)(h := None),
      tn_mode := mode_on_end (length hs)\<rparr>"
    using assms(2) Some hs by (simp add: task_end_def)
  then show ?thesis using assms(1) hs by (simp add: buffer_ok_def)
qed

lemma buffer_ok_request:
  assumes "buffer_ok n" "task_request n h data = TRunning n' eff" "h \<notin> set (tn_request_buffer n)"
  shows "buffer_ok n'"
proof -
  from assms(2) obtain m where "n' = n\<lparr>tn_request_buffer := tn_request_buffer n @ [h],
      tn_request_buffer_map := (tn_request_buffer_map n)(h \<mapsto> (data, length (tn_request_buffer n))), tn_main := Some m\<rparr>"
    by (auto simp: task_request_def split: option.splits)
  with assms(1,3) show ?thesis by (simp add: buffer_ok_def)
qed

lemma buffer_ok_main_step:
  assumes "buffer_ok n" "orderly ops n ev" "main_step E ops n ev = TRunning n' eff"
  shows "buffer_ok n'"
proof (cases ev)
  case EvConsensus
  with assms show ?thesis
    by (auto simp: Let_def split: if_splits list.splits option.splits dest!: buffer_ok_after_call)
next
  case EvTimeout
  with assms show ?thesis by (auto split: if_splits dest!: buffer_ok_after_call)
next
  case EvChannel
  show ?thesis
  proof (cases "\<exists>msg rest h. tn_channel n = msg # rest \<and> op_channel ops (tn_executor n) msg = Some (ChanEnd h)")
    case True
    then obtain msg rest h where ch: "tn_channel n = msg # rest" "op_channel ops (tn_executor n) msg = Some (ChanEnd h)"
      by blast
    have "task_end (n\<lparr>tn_channel := rest\<rparr>) h = TRunning n' eff" using assms(3) EvChannel ch by simp
    moreover have "h \<notin> set (tn_request_buffer n) \<or> (\<exists>hs. tn_request_buffer n = h # hs)"
      using assms(2) EvChannel ch by simp
    ultimately show ?thesis using assms(1) buffer_ok_end [of "n\<lparr>tn_channel := rest\<rparr>" h n' eff] by simp
  next
    case False
    with assms EvChannel show ?thesis
      by (auto simp: Let_def split: list.splits option.splits channel_act.splits dest!: buffer_ok_after_call)
  qed
next
  case (EvUnicast data)
  with assms show ?thesis by (auto dest!: buffer_ok_after_call)
next
  case (EvGossip data)
  with assms show ?thesis
    by (auto split: option.splits dest: buffer_ok_after_call buffer_ok_request)
qed (use assms in auto)

lemma buffer_ok_step:
  assumes "buffer_ok n" "orderly ops n ev" "task_step E ops n ev = TRunning n' eff"
  shows "buffer_ok n'"
  using assms buffer_ok_main_step [of n ops ev E n' eff]
  by (cases ev) (auto split: option.splits sa_mode.splits if_splits simp del: main_step.simps orderly.simps)

text \<open>What orderly steps can reach.\<close>

inductive orderly_reach :: "'a ext_scheme \<Rightarrow> 'x node_ops \<Rightarrow> 'x task_node \<Rightarrow> 'x task_node \<Rightarrow> bool"
  for E ops where
  orderly_refl: "orderly_reach E ops n n"
| orderly_step: "orderly_reach E ops n n1 \<Longrightarrow> orderly ops n1 ev \<Longrightarrow> task_step E ops n1 ev = TRunning n2 eff \<Longrightarrow>
    orderly_reach E ops n n2"

lemma orderly_reach_buffer_ok: "orderly_reach E ops n n' \<Longrightarrow> buffer_ok n \<Longrightarrow> buffer_ok n'"
  by (induction rule: orderly_reach.induct) (auto dest: buffer_ok_step)

text \<open>
  C31. As long as every request arrives once and requests end in the order of their arrival, a notified
  event loop either has no request or hands the first one of the buffer to the executor: the lookup
  behind its \<open>unwrap\<close> always succeeds.
\<close>

theorem orderly_node_finds_request:
  assumes "orderly_reach E ops (task_node_new x) n" "tn_consensus_permit n" "tn_main n = None"
    "tn_request_buffer n = h # hs"
  shows "\<exists>data c. tn_request_buffer_map n h = Some (data, c) \<and>
    task_step E ops n EvConsensus =
      task_after_call (n\<lparr>tn_consensus_permit := False\<rparr>) [] (op_message ops (tn_executor n) data)"
proof -
  have "buffer_ok (task_node_new x)" by (simp add: buffer_ok_def task_node_new_def)
  with assms(1) have "buffer_ok n" by (rule orderly_reach_buffer_ok)
  with assms(4) have "h \<in> dom (tn_request_buffer_map n)" by (simp add: buffer_ok_def)
  then obtain data c where "tn_request_buffer_map n h = Some (data, c)" by auto
  with assms show ?thesis by simp
qed

fun run_orderly :: "'a ext_scheme \<Rightarrow> 'x node_ops \<Rightarrow> 'x task_node \<Rightarrow> task_event list \<Rightarrow> 'x task_node option" where
  "run_orderly E ops n [] = Some n"
| "run_orderly E ops n (ev # evs) =
     (if orderly ops n ev then case task_step E ops n ev of TRunning n1 _ \<Rightarrow> run_orderly E ops n1 evs | _ \<Rightarrow> None else None)"

lemma run_orderly_reach: "run_orderly E ops n1 evs = Some n2 \<Longrightarrow> orderly_reach E ops n n1 \<Longrightarrow> orderly_reach E ops n n2"
  by (induction evs arbitrary: n1) (auto split: if_splits task_outcome.splits intro: orderly_step)

text \<open>A request arrives, three new views make the node leader, and the proposal task notifies it.\<close>

theorem orderly_node_finds_request_witness:
  "\<exists>n data c. orderly_reach sh_demo demo_ops (task_node_new (sh_executor_new Map.empty)) n \<and> tn_consensus_permit n \<and>
     tn_request_buffer n = [hs_get_request_hash sh_demo \<lparr>cmd = ''a''\<rparr>] \<and>
     tn_request_buffer_map n (hs_get_request_hash sh_demo \<lparr>cmd = ''a''\<rparr>) = Some (data, c)"
proof -
  let ?n0 = "task_node_new (sh_executor_new Map.empty)"
  let ?evs = "[EvGossip [2], EvMainWrite, EvUnicast [1], EvUnicast [1], EvUnicast [1], EvMainWrite, EvCheckerRead]"
  have "\<exists>n. run_orderly sh_demo demo_ops ?n0 ?evs = Some n \<and> tn_consensus_permit n \<and> tn_main n = None \<and>
      tn_request_buffer n = [hs_get_request_hash sh_demo \<lparr>cmd = ''a''\<rparr>]"
    by (simp add: task_node_new_def task_request_def task_after_call_def sa_channel_capacity_def
        sh_ops_def sh_request_of_def sh_message_handler_def sh_serialize_call_def sh_handle_newview_def sh_executor_new_def
        sh_state_new_def hs_log_new_def record_newview_def get_newviews_count_by_view_def get_high_qc_by_view_def
        push_bucket_def bucket_def u64_mul_def u64_add_def Let_def)
  then obtain n where run: "run_orderly sh_demo demo_ops ?n0 ?evs = Some n" and n: "tn_consensus_permit n" "tn_main n = None"
      "tn_request_buffer n = [hs_get_request_hash sh_demo \<lparr>cmd = ''a''\<rparr>]" by blast
  have reach: "orderly_reach sh_demo demo_ops ?n0 n" by (rule run_orderly_reach [OF run orderly_refl])
  from orderly_node_finds_request [OF reach n] reach n show ?thesis by blast
qed

text \<open>
  Requests that end out of order break the node. When the second request of a consistent buffer ends
  first, the event loop drops the first one from the buffer and the second one from the map; the next
  time it is told to propose, it looks up a request that is no longer in the map and panics.
\<close>

theorem out_of_order_end_panics:
  assumes "buffer_ok n" "tn_main n = None" "tn_request_buffer n = a # h # hs"
    and "tn_channel n = msg # rest" "op_channel ops (tn_executor n) msg = Some (ChanEnd h)"
  shows "\<exists>n1. task_step E ops n EvChannel = TRunning n1 [] \<and> tn_request_buffer n1 = h # hs \<and>
    task_step E ops (n1\<lparr>tn_consensus_permit := True\<rparr>) EvConsensus = TPanicked"
proof -
  from assms(1,3) have "h \<in> dom (tn_request_buffer_map n)" by (simp add: buffer_ok_def)
  then obtain v where "tn_request_buffer_map n h = Some v" by auto
  with assms show ?thesis by (simp add: task_end_def Let_def)
qed

theorem out_of_order_end_panics_witness:
  "\<exists>n1. task_step sh_demo demo_ops ((demo_task_node MInit)\<lparr>tn_channel := [[3]]\<rparr>) EvChannel = TRunning n1 [] \<and>
     task_step sh_demo demo_ops (n1\<lparr>tn_consensus_permit := True\<rparr>) EvConsensus = TPanicked"
proof -
  let ?n = "(demo_task_node MInit)\<lparr>tn_channel := [[3]]\<rparr>"
  have "buffer_ok ?n" by (auto simp: buffer_ok_def)
  moreover have "op_channel demo_ops (tn_executor ?n) [3] = Some (ChanEnd ''b'')"
    by (simp add: sh_ops_def sh_channel_def Let_def)
  ultimately show ?thesis
    using out_of_order_end_panics [of ?n "''a''" "''b''" "[]" "[3]" "[]" demo_ops sh_demo]
    by (auto simp del: task_step.simps)
qed

subsection \<open>A lost update\<close>

text \<open>
  The proposal task writes what it has read minus one. A request that arrives between its read and its
  write is not counted: with one request proposed and a second one arrived, the mode says that nothing
  is left to propose, while the same steps without the interference leave one.
\<close>

theorem proposal_task_loses_request:
  assumes "tn_mode n = MDo 1" "tn_main n = None" "tn_checker n = None" "op_request ops data = Some (Some h)"
  shows "\<exists>n1 n2. run_handler (task_turn E ops) n [EvCheckerRead, EvGossip data, EvMainWrite, EvCheckerWrite] =
      Some (n1, [[], [], [], []]) \<and>
    run_handler (task_turn E ops) n [EvCheckerRead, EvCheckerWrite, EvGossip data, EvMainWrite] =
      Some (n2, [[], [], [], []]) \<and>
    tn_mode n1 = MDone 0 \<and> tn_mode n2 = MDone 1 \<and> tn_request_buffer n1 = tn_request_buffer n2 \<and>
    length (tn_request_buffer n1) = Suc (length (tn_request_buffer n))"
  using assms by (simp add: task_turn_def task_request_def u64_add_def)

theorem proposal_task_loses_request_witness:
  "\<exists>n1. run_handler (task_turn sh_demo demo_ops) (demo_task_node (MDo 1))
      [EvCheckerRead, EvGossip [2], EvMainWrite, EvCheckerWrite] = Some (n1, [[], [], [], []]) \<and>
    tn_mode n1 = MDone 0 \<and> length (tn_request_buffer n1) = 3"
proof -
  have "op_request demo_ops [2] = Some (Some (hs_get_request_hash sh_demo \<lparr>cmd = ''a''\<rparr>))"
    by (simp add: sh_ops_def sh_request_of_def)
  from proposal_task_loses_request [of "demo_task_node (MDo 1)", OF _ _ _ this, of sh_demo] show ?thesis
    by (auto simp del: run_handler.simps)
qed

end
