(* ===== verification/SA_Chain.thy ===== *)
theory SA_Chain
  imports Chain_HotStuff Level_DB SA_Node
begin

text \<open>
  The executor of the stand-alone chained HotStuff node (\<open>consensus/src/chain_hotstuff/consensus_node\<close>:
  \<open>executor.rs\<close>, \<open>state.rs\<close>, \<open>message.rs\<close>) and its operations as the node of \<open>SA_Node\<close> uses them
  (\<open>node.rs\<close>). Blocks, certificates, \<open>Generic\<close>, \<open>Vote\<close>, the hashes of \<open>common.rs\<close> and the log of
  \<open>log.rs\<close> are those of the pluggable protocol and are taken from there. A handler returns the new
  executor, the messages it sends through the channel, the timers it starts and stops, and whether it
  completed a quorum of new views; \<open>None\<close> is a panic.
\<close>

subsection \<open>Messages, state, executor\<close>

datatype sc_message_type =
    ScRequest request
  | ScGeneric generic
  | ScVote ch_vote
  | ScEnd string
  | ScTBLSKey tbls_key
  | ScConsensusNodePKsInfo "bytes \<rightharpoonup> consensus_node_pk_info"

record sc_message =
  sc_msg_type :: sc_message_type

text \<open>bincode on the messages and on the key information kept in the database.\<close>

record sc_ext = ch_ext +
  bin_sc_message :: "sc_message \<Rightarrow> bytes"
  from_bin_sc_message :: "bytes \<Rightarrow> sc_message option"
  bin_sc_pk_info :: "consensus_node_pk_info \<Rightarrow> bytes"
  from_bin_sc_pk_info :: "bytes \<Rightarrow> consensus_node_pk_info option"
  sc_u512_from :: "bytes \<Rightarrow> nat option"

abbreviation sc_bytes :: "'a sc_ext_scheme \<Rightarrow> sc_message_type \<Rightarrow> bytes" where
  "sc_bytes E m \<equiv> bin_sc_message E \<lparr>sc_msg_type = m\<rparr>"

text \<open>The mode, which other tasks share, is kept by the node.\<close>

record sc_state =
  sc_view :: u64
  sc_high_qc :: "ch_qc option"
  sc_generic_qc :: "ch_qc option"
  sc_locked_qc :: "ch_qc option"
  sc_current_leader :: bytes
  sc_next_leader :: bytes
  sc_node_count :: u64
  sc_fault_tolerance_count :: u64
  sc_tf :: u64
  sc_current_view_timeout :: u64

definition sc_state_new :: sc_state where
  "sc_state_new =
     \<lparr>sc_view = 0, sc_high_qc = None, sc_generic_qc = None, sc_locked_qc = None, sc_current_leader = [],
      sc_next_leader = [], sc_node_count = 4, sc_fault_tolerance_count = 1, sc_tf = 10,
      sc_current_view_timeout = 10\<rparr>"

record sc_executor =
  scx_state :: sc_state
  scx_log :: ch_log
  scx_db :: level_db
  scx_keypair :: "tbls_key option"
  scx_consensus_nodes :: "(u64 \<times> bytes) list"

definition sc_executor_new :: "level_db \<Rightarrow> sc_executor" where
  "sc_executor_new db =
     \<lparr>scx_state = sc_state_new, scx_log = ch_log_new, scx_db = db, scx_keypair = None,
      scx_consensus_nodes = []\<rparr>"

type_synonym sc_call = "(sc_executor \<times> sc_message_type list \<times> timer_act list \<times> bool) option"

subsection \<open>Views and keys\<close>

definition sc_change_leader :: "sc_executor \<Rightarrow> u64 \<Rightarrow> sc_executor option" where
  "sc_change_leader x view_num = do {
     let node_count = of_nat (length (scx_consensus_nodes x));
     leader_num \<leftarrow> u64_rem view_num node_count;
     following \<leftarrow> u64_add view_num 1;
     next_leader_num \<leftarrow> u64_rem following node_count;
     leader \<leftarrow> map_of (scx_consensus_nodes x) leader_num;
     next \<leftarrow> map_of (scx_consensus_nodes x) next_leader_num;
     Some (x\<lparr>scx_state := (scx_state x)\<lparr>sc_current_leader := leader, sc_next_leader := next\<rparr>\<rparr>)
   }"

definition sc_next_view :: "'a sc_ext_scheme \<Rightarrow> bytes \<Rightarrow> sc_executor \<Rightarrow> sc_call" where
  "sc_next_view E pid x = do {
     next \<leftarrow> u64_add (sc_view (scx_state x)) 1;
     x1 \<leftarrow> sc_change_leader x next;
     let out = (if sc_current_leader (scx_state x1) = pid then []
                else [ScGeneric \<lparr>g_view_num = sc_view (scx_state x1), g_block = None,
                       g_justify = sc_generic_qc (scx_state x1), g_from_peer_id = pid\<rparr>]);
     let x2 = x1\<lparr>scx_state := (scx_state x1)\<lparr>sc_view := next\<rparr>\<rparr>;
     _ \<leftarrow> peer_from_bytes E (sc_current_leader (scx_state x2));
     Some (x2, out, [TimerStart (sc_current_view_timeout (scx_state x2)) next], False)
   }"

definition sc_storage_tbls_key :: "'a sc_ext_scheme \<Rightarrow> bytes \<Rightarrow> sc_executor \<Rightarrow> tbls_key \<Rightarrow> sc_call" where
  "sc_storage_tbls_key E pid x k = do {
     _ \<leftarrow> peer_from_bytes E pid;
     Some (x\<lparr>scx_keypair := Some k\<rparr>, [], [], False)
   }"

text \<open>The loop over the map of public keys, in its iteration order.\<close>

fun sc_storage_pk_loop :: "'a sc_ext_scheme \<Rightarrow> (bytes \<rightharpoonup> consensus_node_pk_info) \<Rightarrow> bytes list \<Rightarrow> sc_executor \<Rightarrow>
    sc_executor option" where
  "sc_storage_pk_loop E pks_info [] x = Some x"
| "sc_storage_pk_loop E pks_info (peer_id # rest) x =
     (case pks_info peer_id of
        None \<Rightarrow> sc_storage_pk_loop E pks_info rest x
      | Some pk_info \<Rightarrow> do {
          db \<leftarrow> db_write (sc_u512_from E) (scx_db x) peer_id (bin_sc_pk_info E pk_info);
          read_value \<leftarrow> db_read (sc_u512_from E) db peer_id;
          v \<leftarrow> read_value;
          _ \<leftarrow> from_bin_sc_pk_info E v;
          _ \<leftarrow> peer_from_bytes E peer_id;
          sc_storage_pk_loop E pks_info rest
            (x\<lparr>scx_db := db, scx_consensus_nodes := AList.update (pki_number pk_info) peer_id (scx_consensus_nodes x)\<rparr>)
        })"

definition sc_storage_consensus_node_pk ::
    "'a sc_ext_scheme \<Rightarrow> bytes list \<Rightarrow> bytes \<Rightarrow> sc_executor \<Rightarrow> (bytes \<rightharpoonup> consensus_node_pk_info) \<Rightarrow> sc_call" where
  "sc_storage_consensus_node_pk E order pid x pks_info = do {
     x1 \<leftarrow> sc_storage_pk_loop E pks_info order x;
     sc_next_view E pid x1
   }"

definition sc_get_public_key_info_by_peer_id ::
    "'a sc_ext_scheme \<Rightarrow> sc_executor \<Rightarrow> bytes \<Rightarrow> consensus_node_pk_info option" where
  "sc_get_public_key_info_by_peer_id E x peer_id = do {
     read_value \<leftarrow> db_read (sc_u512_from E) (scx_db x) peer_id;
     v \<leftarrow> read_value;
     from_bin_sc_pk_info E v
   }"

definition sc_view_timeout_stop :: "sc_executor \<Rightarrow> sc_executor" where
  "sc_view_timeout_stop x = x\<lparr>scx_state := (scx_state x)\<lparr>sc_current_view_timeout := sc_tf (scx_state x)\<rparr>\<rparr>"

definition sc_end_message :: "'a sc_ext_scheme \<Rightarrow> chain_block \<Rightarrow> sc_message_type" where
  "sc_end_message E b = ScEnd (ch_get_request_hash E \<lparr>cmd = cb_cmd b\<rparr>)"

subsection \<open>Proposals\<close>

definition sc_handle_newview_generic :: "sc_executor \<Rightarrow> generic \<Rightarrow> sc_call" where
  "sc_handle_newview_generic x generic = do {
     let x1 = x\<lparr>scx_log := record_generic (scx_log x) (g_view_num generic) generic\<rparr>;
     let count = get_generics_count_by_view (scx_log x1) (g_view_num generic);
     twice \<leftarrow> u64_mul 2 (sc_fault_tolerance_count (scx_state x1));
     threshold \<leftarrow> u64_add twice 1;
     if count = unat threshold
     then do {
       high \<leftarrow> ch_get_high_qc_by_view (scx_log x1) (g_view_num generic) (sc_generic_qc (scx_state x1));
       Some (x1\<lparr>scx_state := (scx_state x1)\<lparr>sc_high_qc := high, sc_generic_qc := high\<rparr>\<rparr>, [], [], True)
     }
     else Some (x1, [], [], False)
   }"

definition sc_safe_node :: "'a sc_ext_scheme \<Rightarrow> sc_executor \<Rightarrow> chain_block \<Rightarrow> ch_qc option \<Rightarrow> bool" where
  "sc_safe_node E x b justify =
     (case justify of
        None \<Rightarrow> True
      | Some q \<Rightarrow>
          (case sc_locked_qc (scx_state x) of
             Some locked \<Rightarrow> cqc_view_num q > cqc_view_num locked \<or>
                            cb_parent_hash b = ch_get_block_hash E (cqc_block locked)
           | None \<Rightarrow> cqc_view_num q > 0 \<or> cb_parent_hash b = ''''))"

text \<open>The vote of a replica; without a key pair there is none and the handler returns.\<close>

definition sc_own_vote :: "'a sc_ext_scheme \<Rightarrow> bytes \<Rightarrow> tbls_key \<Rightarrow> sc_executor \<Rightarrow> chain_block \<Rightarrow> ch_vote" where
  "sc_own_vote E pid keypair x b_1 =
     \<lparr>cv_view_num = sc_view (scx_state x), cv_block = b_1,
      cv_partial_signature = tbls_sign E keypair (as_bytes (get_generic_hash E GENERIC (sc_view (scx_state x)) b_1)),
      cv_from_peer_id = pid\<rparr>"

definition sc_cast_vote :: "'a sc_ext_scheme \<Rightarrow> bytes \<Rightarrow> sc_executor \<Rightarrow> chain_block \<Rightarrow> (sc_executor \<times> ch_vote) option option" where
  "sc_cast_vote E pid x b_1 =
     (case scx_keypair x of
        None \<Rightarrow> Some None
      | Some keypair \<Rightarrow> do {
          let sign_msg_hash = get_generic_hash E GENERIC (sc_view (scx_state x)) b_1;
          let vote = sc_own_vote E pid keypair x b_1;
          pk_info \<leftarrow> sc_get_public_key_info_by_peer_id E x (cv_from_peer_id vote);
          let x1 = (if sc_next_leader (scx_state x) = pid
                    then x\<lparr>scx_log := ch_record_messgae_partial_signature (scx_log x) sign_msg_hash
                            (pki_number pk_info) (cv_partial_signature vote)\<rparr>
                    else x);
          _ \<leftarrow> peer_from_bytes E (sc_next_leader (scx_state x1));
          Some (Some (x1, vote))
        })"

text \<open>
  The pre-commit, commit and decide phases of the ancestors of a proposal; the second component is the
  command that is executed (the code prints it), if any.
\<close>

definition sc_phases :: "'a sc_ext_scheme \<Rightarrow> sc_executor \<Rightarrow> chain_block \<Rightarrow> sc_executor \<times> string option" where
  "sc_phases E x b_1 =
     (case cb_justify b_1 of
        None \<Rightarrow> (x, None)
      | Some q_1 \<Rightarrow>
          let b_2 = cqc_block q_1 in
          if cb_parent_hash b_1 \<noteq> ch_get_block_hash E b_2 then (x, None)
          else
            let x1 = x\<lparr>scx_state := (scx_state x)\<lparr>sc_generic_qc := cb_justify b_1\<rparr>\<rparr> in
            (case cb_justify b_2 of
               None \<Rightarrow> (x1, None)
             | Some q_2 \<Rightarrow>
                 let b_3 = cqc_block q_2 in
                 if cb_parent_hash b_2 \<noteq> ch_get_block_hash E b_3 then (x1, None)
                 else
                   let x2 = x1\<lparr>scx_state := (scx_state x1)\<lparr>sc_locked_qc := cb_justify b_2\<rparr>\<rparr> in
                   (case cb_justify b_3 of
                      None \<Rightarrow> (x2, None)
                    | Some q_3 \<Rightarrow>
                        let b_4 = cqc_block q_3 in
                        if cb_parent_hash b_3 = ch_get_block_hash E b_4 then (x2, Some (cb_cmd b_4))
                        else (x2, None))))"

definition sc_replica_handle_generic :: "'a sc_ext_scheme \<Rightarrow> bytes \<Rightarrow> sc_executor \<Rightarrow> generic \<Rightarrow> sc_call" where
  "sc_replica_handle_generic E pid x generic =
     (case g_block generic of
        None \<Rightarrow> Some (x, [], [], False)
      | Some b_1 \<Rightarrow>
          if \<not> sc_safe_node E x b_1 (cb_justify b_1) then Some (x, [], [], False)
          else do {
            voted \<leftarrow> sc_cast_vote E pid x b_1;
            (case voted of
               None \<Rightarrow> Some (x, [], [], False)
             | Some (x1, vote) \<Rightarrow>
                 Some (fst (sc_phases E (sc_view_timeout_stop x1) b_1),
                       [ScVote vote, sc_end_message E b_1], [TimerStop], False))
          })"

definition sc_handle_generic :: "'a sc_ext_scheme \<Rightarrow> bytes \<Rightarrow> sc_executor \<Rightarrow> generic \<Rightarrow> sc_call" where
  "sc_handle_generic E pid x generic =
     (case g_block generic of
        None \<Rightarrow> sc_handle_newview_generic x generic
      | Some _ \<Rightarrow>
          if sc_view (scx_state x) \<noteq> g_view_num generic then Some (x, [], [], False)
          else sc_replica_handle_generic E pid x generic)"

definition sc_handle_request :: "'a sc_ext_scheme \<Rightarrow> bytes \<Rightarrow> sc_executor \<Rightarrow> request \<Rightarrow> sc_call" where
  "sc_handle_request E pid x request = do {
     let parent = (case sc_high_qc (scx_state x) of Some q \<Rightarrow> ch_get_block_hash E (cqc_block q) | None \<Rightarrow> '''');
     let block = ChainBlock (cmd request) parent (sc_high_qc (scx_state x));
     let generic = \<lparr>g_view_num = sc_view (scx_state x), g_block = Some block, g_justify = None,
                    g_from_peer_id = pid\<rparr>;
     (x1, out, acts, q) \<leftarrow> sc_handle_generic E pid x generic;
     Some (x1, ScGeneric generic # out, acts, q)
   }"

subsection \<open>Votes and certificates\<close>

definition sc_handle_vote :: "'a sc_ext_scheme \<Rightarrow> sc_executor \<Rightarrow> ch_vote \<Rightarrow> sc_call" where
  "sc_handle_vote E x vote = do {
     let generic_msg_hash = get_generic_hash E GENERIC (cv_view_num vote) (cv_block vote);
     pk_info \<leftarrow> sc_get_public_key_info_by_peer_id E x (cv_from_peer_id vote);
     if \<not> bls_verify_share E (pki_public_key pk_info) (cv_partial_signature vote) (as_bytes generic_msg_hash)
     then Some (x, [], [], False)
     else do {
       let x1 = x\<lparr>scx_log := ch_record_messgae_partial_signature (scx_log x) generic_msg_hash
                    (pki_number pk_info) (cv_partial_signature vote)\<rparr>;
       let partial_sig_count = ch_get_partial_signatures_count_by_message_hash (scx_log x1) generic_msg_hash;
       twice \<leftarrow> u64_mul 2 (sc_fault_tolerance_count (scx_state x1));
       threshold \<leftarrow> u64_add twice 1;
       if partial_sig_count \<noteq> unat threshold then Some (x1, [], [], False)
       else do {
         partial_sigs \<leftarrow> ch_get_partial_signatures_by_message_hash (scx_log x1) generic_msg_hash;
         keypair \<leftarrow> scx_keypair x1;
         signature \<leftarrow> combine_partial_signatures E keypair (map_of partial_sigs);
         let q = ch_set_signature (ch_qc_new (cv_view_num vote) (cv_block vote)) signature;
         Some (x1\<lparr>scx_state := (scx_state x1)\<lparr>sc_generic_qc := Some q\<rparr>\<rparr>, [], [], False)
       }
     }
   }"

subsection \<open>Dispatch and the operations of the node\<close>

text \<open>\<open>ord\<close> gives the iteration order of a received map of public keys.\<close>

fun sc_dispatch ::
    "'a sc_ext_scheme \<Rightarrow> ((bytes \<rightharpoonup> consensus_node_pk_info) \<Rightarrow> bytes list) \<Rightarrow> bytes \<Rightarrow> sc_executor \<Rightarrow> sc_message_type \<Rightarrow> sc_call" where
  "sc_dispatch E ord pid x (ScRequest m) = sc_handle_request E pid x m"
| "sc_dispatch E ord pid x (ScGeneric m) = sc_handle_generic E pid x m"
| "sc_dispatch E ord pid x (ScVote m) = sc_handle_vote E x m"
| "sc_dispatch E ord pid x (ScTBLSKey k) = sc_storage_tbls_key E pid x k"
| "sc_dispatch E ord pid x (ScConsensusNodePKsInfo pks) = sc_storage_consensus_node_pk E (ord pks) pid x pks"
| "sc_dispatch E ord pid x (ScEnd _) = Some (x, [], [], False)"

definition sc_serialize_call :: "'a sc_ext_scheme \<Rightarrow> sc_call \<Rightarrow> sc_executor call" where
  "sc_serialize_call E r = do {
     (x, out, acts, q) \<leftarrow> r;
     Some (x, map (sc_bytes E) out, acts, q)
   }"

definition sc_message_handler ::
    "'a sc_ext_scheme \<Rightarrow> ((bytes \<rightharpoonup> consensus_node_pk_info) \<Rightarrow> bytes list) \<Rightarrow> bytes \<Rightarrow> sc_executor \<Rightarrow> bytes \<Rightarrow> sc_executor call" where
  "sc_message_handler E ord pid x data = do {
     message \<leftarrow> from_bin_sc_message E data;
     sc_serialize_call E (sc_dispatch E ord pid x (sc_msg_type message))
   }"

definition sc_channel :: "'a sc_ext_scheme \<Rightarrow> bytes \<Rightarrow> sc_executor \<Rightarrow> bytes \<Rightarrow> sc_executor channel_act option" where
  "sc_channel E pid x msg = do {
     message \<leftarrow> from_bin_sc_message E msg;
     case sc_msg_type message of
       ScGeneric generic \<Rightarrow>
         (case g_block generic of
            None \<Rightarrow> do {
              leader_id \<leftarrow> peer_from_bytes E (sc_current_leader (scx_state x));
              Some (ChanSend (SUnicastTo leader_id msg))
            }
          | Some _ \<Rightarrow> Some (ChanSend (SPublish ''Consensus'' msg)))
     | ScVote _ \<Rightarrow> do {
         leader_id \<leftarrow> peer_from_bytes E (sc_next_leader (scx_state x));
         Some (ChanSendCall (SUnicastTo leader_id msg) (sc_serialize_call E (sc_next_view E pid x)))
       }
     | ScEnd request_hash \<Rightarrow> Some (ChanEnd request_hash)
     | _ \<Rightarrow> Some (ChanSend (SPublish ''Consensus'' msg))
   }"

definition sc_on_timeout :: "'a sc_ext_scheme \<Rightarrow> bytes \<Rightarrow> sc_executor \<Rightarrow> sc_call" where
  "sc_on_timeout E pid x = do {
     t \<leftarrow> u64_mul (sc_current_view_timeout (scx_state x)) 2;
     sc_next_view E pid (x\<lparr>scx_state := (scx_state x)\<lparr>sc_current_view_timeout := t\<rparr>\<rparr>)
   }"

definition sc_request_of :: "'a sc_ext_scheme \<Rightarrow> bytes \<Rightarrow> string option option" where
  "sc_request_of E data = do {
     msg \<leftarrow> from_bin_sc_message E data;
     Some (case sc_msg_type msg of ScRequest request \<Rightarrow> Some (ch_get_request_hash E request) | _ \<Rightarrow> None)
   }"

definition sc_ops ::
    "'a sc_ext_scheme \<Rightarrow> ((bytes \<rightharpoonup> consensus_node_pk_info) \<Rightarrow> bytes list) \<Rightarrow> bytes \<Rightarrow> sc_executor node_ops" where
  "sc_ops E ord pid =
     \<lparr>op_message = sc_message_handler E ord pid,
      op_timeout = (\<lambda>x. sc_serialize_call E (sc_on_timeout E pid x)),
      op_channel = sc_channel E pid, op_request = sc_request_of E\<rparr>"

end
