(* ===== verification/SA_Chain_Properties.thy ===== *)
theory SA_Chain_Properties
  imports SA_Chain SA_HotStuff_Properties
begin

text \<open>
  The stand-alone chained HotStuff node against the pluggable protocol: both take the same decisions
  about a proposal; and what the node does with the request of a proposal it has voted for.
\<close>

subsection \<open>Agreement with the pluggable protocol\<close>

text \<open>The executor \<open>x\<close> of the peer \<open>pid\<close> and the protocol object \<open>p\<close> know the same.\<close>

definition sc_sim :: "'a sc_ext_scheme \<Rightarrow> sc_executor \<Rightarrow> ch_protocol \<Rightarrow> bool" where
  "sc_sim E x p \<longleftrightarrow>
     sc_high_qc (scx_state x) = ch_high_qc (ch_st p) \<and> sc_generic_qc (scx_state x) = generic_qc (ch_st p) \<and>
     sc_locked_qc (scx_state x) = ch_locked_qc (ch_st p) \<and>
     sc_fault_tolerance_count (scx_state x) = ch_fault_tolerance_count (ch_st p) \<and>
     scx_log x = ch_lg p \<and> scx_keypair x = ch_keypair p \<and>
     sc_get_public_key_info_by_peer_id E x = ch_consensus_node_pks p"

text \<open>They are in the same view with the same leaders.\<close>

definition sc_same_view :: "sc_executor \<Rightarrow> ch_protocol \<Rightarrow> bool" where
  "sc_same_view x p \<longleftrightarrow> sc_view (scx_state x) = ch_view (ch_st p) \<and>
     sc_current_leader (scx_state x) = current_leader (ch_st p) \<and> sc_next_leader (scx_state x) = next_leader (ch_st p)"

definition executed_command :: "phase_state \<Rightarrow> string option" where
  "executed_command ph = (case ph of Complete r _ \<Rightarrow> Some (cmd r) | _ \<Rightarrow> None)"

lemma sc_key_info_cong [simp]:
  "sc_get_public_key_info_by_peer_id E (x\<lparr>scx_state := s\<rparr>) = sc_get_public_key_info_by_peer_id E x"
  "sc_get_public_key_info_by_peer_id E (x\<lparr>scx_log := l\<rparr>) = sc_get_public_key_info_by_peer_id E x"
  by (simp_all add: fun_eq_iff sc_get_public_key_info_by_peer_id_def)

lemma sc_safe_node_sim: "sc_sim E x p \<Longrightarrow> sc_safe_node E x b j = ch_safe_node E p b j"
  by (simp add: sc_sim_def sc_safe_node_def ch_safe_node_def split: option.split)

lemma sc_phases_sim:
  "sc_sim E x p \<Longrightarrow> sc_sim E (fst (sc_phases E x b)) (fst (ch_phases E p b queue)) \<and>
   snd (sc_phases E x b) = executed_command (snd (ch_phases E p b queue))"
  by (simp add: sc_sim_def sc_phases_def ch_phases_def executed_command_def Let_def split: option.split)

lemma ch_next_view_keeps:
  "ch_next_view E p i = Some (p', ph) \<Longrightarrow> sc_sim E' x p' = sc_sim E' x p"
  by (auto simp: ch_next_view_def ch_change_leader_def ch_view_timeout_start_def sc_sim_def Let_def
      bind_eq_Some_conv split: if_splits)

lemma ch_vote_of_replica:
  assumes "ch_cast_vote E p b i = Some (p', queue)" "ch_keypair p = Some keypair"
    and "h = get_generic_hash E GENERIC (ch_view (ch_st p)) b" "s = tbls_sign E keypair (as_bytes h)"
  obtains info p1 where "ch_consensus_node_pks p (peer_to_bytes E i) = Some info"
    "p1 = ch_file_own_vote E p h info s i" "p' = p1 \<or> (\<exists>ph. ch_next_view E p1 i = Some (p', ph))"
  using assms by (auto simp: ch_cast_vote_def Let_def bind_eq_Some_conv split: if_splits)

lemma ch_file_own_vote_sim:
  assumes "sc_sim E x p" "sc_same_view x p"
  shows "sc_sim E (if sc_next_leader (scx_state x) = peer_to_bytes E i
           then x\<lparr>scx_log := ch_record_messgae_partial_signature (scx_log x) h (pki_number info) s\<rparr> else x)
         (ch_file_own_vote E p h info s i)"
  using assms by (simp add: sc_sim_def sc_same_view_def ch_file_own_vote_def)

lemma sc_cast_vote_sim:
  assumes "sc_sim E x p" "sc_same_view x p"
    and "sc_cast_vote E (peer_to_bytes E i) x b = Some (Some (x', vote))" "ch_cast_vote E p b i = Some (p', queue)"
  shows "sc_sim E x' p'"
proof -
  from assms(3) obtain keypair where k: "scx_keypair x = Some keypair"
    by (auto simp: sc_cast_vote_def split: option.splits)
  with assms(1) have "ch_keypair p = Some keypair" by (simp add: sc_sim_def)
  from ch_vote_of_replica [OF assms(4) this refl refl] obtain info p1 where
    info: "ch_consensus_node_pks p (peer_to_bytes E i) = Some info" and
    p1: "p1 = ch_file_own_vote E p (get_generic_hash E GENERIC (ch_view (ch_st p)) b) info
           (tbls_sign E keypair (as_bytes (get_generic_hash E GENERIC (ch_view (ch_st p)) b))) i" and
    p': "p' = p1 \<or> (\<exists>ph. ch_next_view E p1 i = Some (p', ph))" by blast
  from assms(1) info have "sc_get_public_key_info_by_peer_id E x (peer_to_bytes E i) = Some info"
    by (simp add: sc_sim_def)
  with assms(2,3) k have "x' = (if sc_next_leader (scx_state x) = peer_to_bytes E i
      then x\<lparr>scx_log := ch_record_messgae_partial_signature (scx_log x)
        (get_generic_hash E GENERIC (ch_view (ch_st p)) b) (pki_number info)
        (tbls_sign E keypair (as_bytes (get_generic_hash E GENERIC (ch_view (ch_st p)) b)))\<rparr> else x)"
    by (auto simp: sc_cast_vote_def sc_own_vote_def Let_def bind_eq_Some_conv sc_same_view_def)
  then have "sc_sim E x' p1" using ch_file_own_vote_sim [OF assms(1,2)] by (simp only: p1)
  with p' show ?thesis using ch_next_view_keeps by blast
qed

lemma sc_stop_sim [simp]:
  "sc_sim E (sc_view_timeout_stop x) (ch_view_timeout_stop p) = sc_sim E x p"
  by (simp add: sc_sim_def sc_view_timeout_stop_def ch_view_timeout_stop_def)

lemma sc_handle_vote_sim:
  assumes "sc_sim E x p"
  shows "(case sc_handle_vote E x v of
            None \<Rightarrow> handle_vote E p v = None
          | Some (x', _) \<Rightarrow> \<exists>p' ph. handle_vote E p v = Some (p', ph) \<and> sc_sim E x' p')"
  using assms
  by (auto simp: sc_handle_vote_def handle_vote_def sc_sim_def Let_def split: option.splits bind_splits if_splits)


text \<open>
  C28. The stand-alone executor and the pluggable protocol take the same decisions: from equal certificates,
  logs and keys (with the key pair known) in the same view, a proposal that both process leaves them with equal certificates and
  logs again (the high, the generic and the locked certificate), and the stand-alone node executes
  exactly the command, if any, that the protocol reports as complete.
\<close>

theorem standalone_decides_as_protocol:
  assumes "sc_sim E x p" "sc_same_view x p" "scx_keypair x \<noteq> None" "g_block g = Some b"
    and "sc_handle_generic E (peer_to_bytes E i) x g = Some (x', out, acts, quorum)"
    and "handle_generic E p g i = Some (p', ph)"
  shows "sc_sim E x' p' \<and>
    (if out = [] then executed_command ph = None else executed_command ph = snd (sc_phases E x b))"
proof -
  define p1 where "p1 = p\<lparr>ch_taken_requests := insert (bincode_request E \<lparr>cmd = cb_cmd b\<rparr>) (ch_taken_requests p)\<rparr>"
  have p1: "sc_sim E x p1" "sc_same_view x p1" using assms(1,2) by (simp_all add: p1_def sc_sim_def sc_same_view_def)
  show ?thesis
  proof (cases "sc_view (scx_state x) = g_view_num g \<and> sc_safe_node E x b (cb_justify b)")
    case False
    with assms(4-6) p1 show ?thesis
      by (auto simp: sc_handle_generic_def handle_generic_def sc_replica_handle_generic_def replica_handle_generic_def
          p1_def [symmetric] sc_same_view_def sc_safe_node_sim executed_command_def Let_def split: if_splits)
  next
    case True
    from True assms(3-5) obtain x1 vote where x1: "sc_cast_vote E (peer_to_bytes E i) x b = Some (Some (x1, vote))"
      and x': "x' = fst (sc_phases E (sc_view_timeout_stop x1) b)" and out: "out \<noteq> []"
      by (auto simp: sc_handle_generic_def sc_replica_handle_generic_def bind_eq_Some_conv split: option.splits)
        (auto simp: sc_cast_vote_def Let_def bind_eq_Some_conv)
    from True p1 assms(4,6) obtain p2 queue where p2: "ch_cast_vote E p1 b i = Some (p2, queue)"
      and p': "ch_phases E (ch_view_timeout_stop p2) b queue = (p', ph)"
      by (auto simp: handle_generic_def replica_handle_generic_def bind_eq_Some_conv p1_def [symmetric]
          sc_same_view_def sc_safe_node_sim Let_def)
    from sc_cast_vote_sim [OF p1 x1 p2] have "sc_sim E (sc_view_timeout_stop x1) (ch_view_timeout_stop p2)" by simp
    from sc_phases_sim [OF this, of b queue] p' x' have
      "sc_sim E x' p' \<and> snd (sc_phases E (sc_view_timeout_stop x1) b) = executed_command ph" by simp
    moreover have "snd (sc_phases E y b) = snd (sc_phases E x b)" for y
      by (simp add: sc_phases_def Let_def split: option.split)
    ultimately show ?thesis using out by metis
  qed
qed

subsection \<open>The request of a proposal\<close>

text \<open>What a replica needs to vote for the block \<open>b\<close> in its view.\<close>

definition sc_can_vote :: "'a sc_ext_scheme \<Rightarrow> bytes \<Rightarrow> tbls_key \<Rightarrow> sc_executor \<Rightarrow> chain_block \<Rightarrow> bool" where
  "sc_can_vote E pid keypair x b \<longleftrightarrow> scx_keypair x = Some keypair \<and> sc_get_public_key_info_by_peer_id E x pid \<noteq> None \<and>
     sc_safe_node E x b (cb_justify b) \<and> peer_from_bytes E (sc_next_leader (scx_state x)) \<noteq> None \<and>
     (\<exists>y out acts q. sc_next_view E pid x = Some (y, out, acts, q))"

lemma sc_own_vote_fields [simp]:
  "cv_from_peer_id (sc_own_vote E pid k x b) = pid" "cv_block (sc_own_vote E pid k x b) = b"
  by (simp_all add: sc_own_vote_def)

text \<open>The part of an executor that the next view depends on.\<close>

lemma sc_phases_keep:
  "sc_view (scx_state (fst (sc_phases E x b))) = sc_view (scx_state x)"
  "sc_next_leader (scx_state (fst (sc_phases E x b))) = sc_next_leader (scx_state x)"
  "sc_current_leader (scx_state (fst (sc_phases E x b))) = sc_current_leader (scx_state x)"
  "scx_consensus_nodes (fst (sc_phases E x b)) = scx_consensus_nodes x"
  by (simp_all add: sc_phases_def Let_def split: option.split)

lemma sc_next_view_defined:
  assumes "sc_next_view E pid x = Some (y, out, acts, q)"
    and "sc_view (scx_state x') = sc_view (scx_state x)" "scx_consensus_nodes x' = scx_consensus_nodes x"
  shows "\<exists>y' out' acts' q'. sc_next_view E pid x' = Some (y', out', acts', q') \<and> length out' \<le> 1"
proof -
  from assms(1) obtain v x1 p where v: "u64_add (sc_view (scx_state x)) 1 = Some v" "sc_change_leader x v = Some x1"
    and p: "peer_from_bytes E (sc_current_leader (scx_state x1)) = Some p"
    by (auto simp: sc_next_view_def Let_def bind_eq_Some_conv split: if_splits)
  from v(2) assms(3) obtain x1' where "sc_change_leader x' v = Some x1'"
    "sc_current_leader (scx_state x1') = sc_current_leader (scx_state x1)"
    by (auto simp: sc_change_leader_def Let_def bind_eq_Some_conv)
  with v(1) p assms(2) show ?thesis by (auto simp: sc_next_view_def Let_def)
qed

lemma sc_handle_generic_votes:
  assumes "sc_can_vote E pid keypair x b" "g_block g = Some b" "g_view_num g = sc_view (scx_state x)"
  obtains x' where
    "sc_handle_generic E pid x g = Some (x', [ScVote (sc_own_vote E pid keypair x b), sc_end_message E b], [TimerStop], False)"
    "sc_next_leader (scx_state x') = sc_next_leader (scx_state x)"
    "\<exists>y out acts q. sc_next_view E pid x' = Some (y, out, acts, q) \<and> length out \<le> 1"
proof -
  from assms(1) obtain x1 where v: "sc_cast_vote E pid x b = Some (Some (x1, sc_own_vote E pid keypair x b))"
    and x1: "scx_state x1 = scx_state x" "scx_consensus_nodes x1 = scx_consensus_nodes x"
    by (cases "sc_next_leader (scx_state x) = pid") (auto simp: sc_can_vote_def sc_cast_vote_def Let_def)
  let ?x = "fst (sc_phases E (sc_view_timeout_stop x1) b)"
  have keep: "sc_view (scx_state ?x) = sc_view (scx_state x)" "scx_consensus_nodes ?x = scx_consensus_nodes x"
    "sc_next_leader (scx_state ?x) = sc_next_leader (scx_state x)"
    by (simp_all add: sc_phases_keep sc_view_timeout_stop_def x1)
  have "sc_handle_generic E pid x g = Some (?x, [ScVote (sc_own_vote E pid keypair x b), sc_end_message E b], [TimerStop], False)"
    using assms v by (simp add: sc_handle_generic_def sc_replica_handle_generic_def sc_can_vote_def)
  with keep sc_next_view_defined [OF _ keep(1,2)] assms(1) that show ?thesis
    unfolding sc_can_vote_def by blast
qed


text \<open>A request that a node has forgotten stays forgotten as long as it is not gossiped again.\<close>

definition forgotten :: "string \<Rightarrow> 'x task_node \<Rightarrow> bool" where
  "forgotten h n \<longleftrightarrow> h \<notin> set (tn_request_buffer n) \<and> tn_request_buffer_map n h = None"

lemma task_after_call_forgotten: "forgotten h n \<Longrightarrow> task_after_call n eff r = TRunning n' eff' \<Longrightarrow> forgotten h n'"
  by (erule task_after_call_running) (simp add: forgotten_def)

lemma task_end_forgotten: "forgotten h n \<Longrightarrow> task_end n k = TRunning n' eff \<Longrightarrow> forgotten h n'"
  by (auto simp: task_end_def forgotten_def split: option.splits list.splits)

lemma task_turn_forgotten:
  assumes f: "forgotten h n" and run: "task_turn E ops n ev = Some (n', out)"
    and new: "\<And>d. ev = EvGossip d \<Longrightarrow> op_request ops d \<noteq> Some (Some h)"
  shows "forgotten h n'"
proof -
  have after: "forgotten h n'" if "task_after_call m eff r = TRunning n' out" "tn_request_buffer m = tn_request_buffer n"
      "tn_request_buffer_map m = tn_request_buffer_map n" for m eff r
    using that f by (intro task_after_call_forgotten [OF _ that(1)]) (simp add: forgotten_def)
  have ends: "forgotten h n'" if "task_end m k = TRunning n' out" "tn_request_buffer m = tn_request_buffer n"
      "tn_request_buffer_map m = tn_request_buffer_map n" for m k
    using that f by (intro task_end_forgotten [OF _ that(1)]) (simp add: forgotten_def)
  from run have step: "task_step E ops n ev = TRunning n' out"
    by (simp add: task_turn_def split: task_outcome.splits)
  have main: "forgotten h n'" if "main_step E ops n ev = TRunning n' out"
  proof (cases ev)
    case EvConsensus
    with that f show ?thesis
      by (auto simp: Let_def intro: after split: if_splits list.splits option.splits) (simp add: forgotten_def)+
  next
    case EvChannel
    with that f show ?thesis
      by (auto simp: Let_def intro: after ends split: list.splits option.splits channel_act.splits) (simp add: forgotten_def)+
  next
    case (EvGossip d)
    with that f new show ?thesis
      by (auto simp: task_request_def intro: after split: option.splits) (simp add: forgotten_def)
  qed (use that f in \<open>auto intro: after split: if_splits\<close>, simp_all add: forgotten_def)
  show ?thesis
    using step f main by (cases ev) (auto split: option.splits sa_mode.splits if_splits, simp_all add: forgotten_def)
qed

lemma run_forgotten:
  "forgotten h n \<Longrightarrow> run_handler (task_turn E ops) n evs = Some (n', outs) \<Longrightarrow>
   (\<And>d. EvGossip d \<in> set evs \<Longrightarrow> op_request ops d \<noteq> Some (Some h)) \<Longrightarrow> forgotten h n'"
proof (induction evs arbitrary: n outs)
  case (Cons ev evs)
  from Cons.prems(2) obtain n1 out outs1 where "task_turn E ops n ev = Some (n1, out)"
    "run_handler (task_turn E ops) n1 evs = Some (n', outs1)" by (auto simp: bind_eq_Some_conv)
  with Cons.IH [of n1 outs1] Cons.prems(1,3) task_turn_forgotten [of h n E ops ev n1 out] show ?case by auto
qed simp

text \<open>
  C29. A node forgets a request when it votes for it, not when the request is executed. Let its channel be empty and
  its event loop idle. When a proposal of its view for the first request of its buffer arrives and is safe, the
  node queues its vote and the end of the request together; after the two messages have left the channel the vote
  is on its way to the next leader and the request is in neither the buffer nor its map. It stays out of both,
  whatever happens next, as long as the request is not gossiped again: the event loop, which proposes the
  first request of the buffer, does not propose it any more.
\<close>

theorem vote_forgets_request:
  assumes "sc_can_vote E pid keypair (tn_executor n) b" "g_block g = Some b" "g_view_num g = sc_view (scx_state (tn_executor n))"
    and "from_bin_sc_message E (sc_bytes E (ScGeneric g)) = Some \<lparr>sc_msg_type = ScGeneric g\<rparr>"
    and "from_bin_sc_message E (sc_bytes E (ScVote (sc_own_vote E pid keypair (tn_executor n) b))) =
      Some \<lparr>sc_msg_type = ScVote (sc_own_vote E pid keypair (tn_executor n) b)\<rparr>"
    and "from_bin_sc_message E (sc_bytes E (sc_end_message E b)) = Some \<lparr>sc_msg_type = sc_end_message E b\<rparr>"
    and "tn_request_buffer n = ch_get_request_hash E \<lparr>cmd = cb_cmd b\<rparr> # hs" "distinct (tn_request_buffer n)"
    and "tn_request_buffer_map n (ch_get_request_hash E \<lparr>cmd = cb_cmd b\<rparr>) \<noteq> None"
    and "tn_channel n = []" "tn_main n = None"
  shows "\<exists>n' leader. run_handler (task_turn E (sc_ops E ord pid)) n
        [EvGossip (sc_bytes E (ScGeneric g)), EvChannel, EvChannel] =
      Some (n', [[], [SUnicastTo leader (sc_bytes E (ScVote (sc_own_vote E pid keypair (tn_executor n) b)))], []]) \<and>
    peer_from_bytes E (sc_next_leader (scx_state (tn_executor n))) = Some leader \<and>
    tn_request_buffer n' = hs \<and>
    (\<forall>evs m outs. run_handler (task_turn E (sc_ops E ord pid)) n' evs = Some (m, outs) \<longrightarrow>
       (\<forall>d. EvGossip d \<in> set evs \<longrightarrow> op_request (sc_ops E ord pid) d \<noteq> Some (Some (ch_get_request_hash E \<lparr>cmd = cb_cmd b\<rparr>))) \<longrightarrow>
       ch_get_request_hash E \<lparr>cmd = cb_cmd b\<rparr> \<notin> set (tn_request_buffer m) \<and>
       tn_request_buffer_map m (ch_get_request_hash E \<lparr>cmd = cb_cmd b\<rparr>) = None)"
proof -
  let ?v = "sc_own_vote E pid keypair (tn_executor n) b"
  let ?h = "ch_get_request_hash E \<lparr>cmd = cb_cmd b\<rparr>"
  from sc_handle_generic_votes [OF assms(1-3)] obtain x1 y out acts q where
    x1: "sc_handle_generic E pid (tn_executor n) g = Some (x1, [ScVote ?v, sc_end_message E b], [TimerStop], False)"
    and lead: "sc_next_leader (scx_state x1) = sc_next_leader (scx_state (tn_executor n))"
    and y: "sc_next_view E pid x1 = Some (y, out, acts, q)" "length out \<le> 1" by metis
  from assms(1) obtain leader where leader: "peer_from_bytes E (sc_next_leader (scx_state (tn_executor n))) = Some leader"
    by (auto simp: sc_can_vote_def)
  from y(1) have q: "\<not> q" by (auto simp: sc_next_view_def Let_def bind_eq_Some_conv)
  define n1 where "n1 = timer_step (n\<lparr>tn_executor := x1, tn_channel := [sc_bytes E (ScVote ?v), sc_bytes E (ScEnd ?h)]\<rparr>) TimerStop"
  have n1: "tn_executor n1 = x1" "tn_channel n1 = [sc_bytes E (ScVote ?v), sc_bytes E (ScEnd ?h)]" "tn_main n1 = None"
    "tn_request_buffer n1 = tn_request_buffer n" "tn_request_buffer_map n1 = tn_request_buffer_map n"
    using assms(11) by (simp_all add: n1_def)
  have s1: "task_turn E (sc_ops E ord pid) n (EvGossip (sc_bytes E (ScGeneric g))) = Some (n1, [])"
    using assms(4,10,11) x1
    by (simp add: task_turn_def sc_ops_def sc_request_of_def sc_message_handler_def sc_serialize_call_def
        task_after_call_def sa_channel_capacity_def sc_end_message_def n1_def)
  define n2 where "n2 = foldl timer_step (n1\<lparr>tn_executor := y,
      tn_channel := sc_bytes E (ScEnd ?h) # map (sc_bytes E) out, tn_main := None\<rparr>) acts"
  have n2: "tn_channel n2 = sc_bytes E (ScEnd ?h) # map (sc_bytes E) out" "tn_main n2 = None"
    "tn_request_buffer n2 = tn_request_buffer n" "tn_request_buffer_map n2 = tn_request_buffer_map n"
    by (simp_all add: n2_def n1)
  have s2: "task_turn E (sc_ops E ord pid) n1 EvChannel = Some (n2, [SUnicastTo leader (sc_bytes E (ScVote ?v))])"
    using assms(5) y leader lead q
    by (simp add: task_turn_def sc_ops_def sc_channel_def sc_serialize_call_def task_after_call_def
        sa_channel_capacity_def n1 n2_def)
  from assms(6,7,9) n2 obtain n3 where s3: "task_turn E (sc_ops E ord pid) n2 EvChannel = Some (n3, [])"
    "tn_request_buffer n3 = hs" "tn_request_buffer_map n3 ?h = None"
    by (auto simp: task_turn_def sc_ops_def sc_channel_def task_end_def sc_end_message_def)
  then have "forgotten ?h n3" using assms(7,8) by (simp add: forgotten_def)
  from run_forgotten [OF this] have "\<forall>evs m outs. run_handler (task_turn E (sc_ops E ord pid)) n3 evs = Some (m, outs) \<longrightarrow>
      (\<forall>d. EvGossip d \<in> set evs \<longrightarrow> op_request (sc_ops E ord pid) d \<noteq> Some (Some ?h)) \<longrightarrow>
      ?h \<notin> set (tn_request_buffer m) \<and> tn_request_buffer_map m ?h = None"
    unfolding forgotten_def by blast
  with s1 s2 s3 leader show ?thesis by (intro exI [of _ n3] exI [of _ leader]) simp
qed


subsection \<open>Witnesses\<close>

text \<open>
  The external functions of \<open>sh_demo\<close>; the peers \<open>[0]\<close>, \<open>[0, 0]\<close>, \<open>[0, 0, 0]\<close>, \<open>[0, 0, 0, 0]\<close> are
  the nodes 0 to 3, and the replica \<open>[0]\<close> in view 1 holds the request \<open>x\<close> that node 1 proposes.
\<close>

definition sc_demo_block :: chain_block where
  "sc_demo_block = ChainBlock ''x'' '''' None"

definition sc_demo_generic :: generic where
  "sc_demo_generic = \<lparr>g_view_num = 1, g_block = Some sc_demo_block, g_justify = None, g_from_peer_id = [0, 0]\<rparr>"

definition sc_demo_encode :: "sc_message \<Rightarrow> bytes" where
  "sc_demo_encode m = (case sc_msg_type m of ScGeneric _ \<Rightarrow> [1] | ScVote _ \<Rightarrow> [2] | ScEnd _ \<Rightarrow> [3] | _ \<Rightarrow> [])"

definition sc_demo_decode :: "bytes \<Rightarrow> sc_message option" where
  "sc_demo_decode b =
     (if b = [1] then Some \<lparr>sc_msg_type = ScGeneric sc_demo_generic\<rparr>
      else if b = [2] then Some \<lparr>sc_msg_type = ScVote \<lparr>cv_view_num = 1, cv_block = sc_demo_block,
        cv_partial_signature = [9], cv_from_peer_id = [0]\<rparr>\<rparr>
      else if b = [3] then Some \<lparr>sc_msg_type = ScEnd ''x''\<rparr> else None)"

definition sc_demo :: sc_ext where
  "sc_demo = ch_ext.extend (hs_ext.extend (hs_ext.truncate sh_demo)
       (ch_ext.fields (\<lambda>_. []) (\<lambda>_. None) (\<lambda>b. as_bytes (cb_cmd b))))
     (sc_ext.fields sc_demo_encode sc_demo_decode (\<lambda>i. pki_public_key i)
       (\<lambda>b. Some \<lparr>pki_number = of_nat (length b), pki_public_key = b\<rparr>) (\<lambda>b. Some (length b)))"

lemma sc_demo_simps [simp]:
  "peer_from_bytes sc_demo b = Some b" "peer_to_bytes sc_demo p = p" "bls_sign sc_demo k m = k"
  "sha3_256_hex sc_demo = map (\<lambda>w. char_of (unat w))" "bincode_request sc_demo r = as_bytes (cmd r)"
  "bincode_ch_block sc_demo c = as_bytes (cb_cmd c)"
  "bin_sc_message sc_demo = sc_demo_encode" "from_bin_sc_message sc_demo = sc_demo_decode"
  "from_bin_sc_pk_info sc_demo b = Some \<lparr>pki_number = of_nat (length b), pki_public_key = b\<rparr>"
  "sc_u512_from sc_demo b = Some (length b)"
  by (simp_all add: sc_demo_def sh_demo_def ch_ext.defs hs_ext.defs sc_ext.defs)

definition sc_demo_key :: tbls_key where
  "sc_demo_key = \<lparr>secret_key = [9], tk_public_key = [], common_public_key = [], pk_set = []\<rparr>"

definition sc_demo_executor :: sc_executor where
  "sc_demo_executor = (sc_executor_new [1 \<mapsto> []])
     \<lparr>scx_keypair := Some sc_demo_key,
      scx_consensus_nodes := [(0, [0]), (1, [0, 0]), (2, [0, 0, 0]), (3, [0, 0, 0, 0])],
      scx_state := sc_state_new\<lparr>sc_view := 1, sc_current_leader := [0, 0], sc_next_leader := [0, 0, 0]\<rparr>\<rparr>"

definition sc_demo_node :: "sc_executor task_node" where
  "sc_demo_node = (task_node_new sc_demo_executor)
     \<lparr>tn_mode := MNotIsLeader 1, tn_request_buffer := [''x''], tn_request_buffer_map := [''x'' \<mapsto> ([5], 0)]\<rparr>"

lemmas sc_demo_defs = sc_demo_executor_def sc_executor_new_def sc_state_new_def sc_demo_node_def task_node_new_def
  sc_demo_block_def sc_demo_generic_def sc_demo_key_def

lemma sc_demo_can_vote: "sc_can_vote sc_demo [0] sc_demo_key sc_demo_executor sc_demo_block"
  by (auto simp: sc_can_vote_def sc_demo_defs sc_get_public_key_info_by_peer_id_def db_read_def sc_safe_node_def
      sc_next_view_def sc_change_leader_def u64_add_def u64_rem_def Let_def)

lemma sc_demo_own_vote:
  "sc_own_vote sc_demo [0] sc_demo_key sc_demo_executor sc_demo_block =
   \<lparr>cv_view_num = 1, cv_block = sc_demo_block, cv_partial_signature = [9], cv_from_peer_id = [0]\<rparr>"
  by (simp add: sc_own_vote_def sc_demo_executor_def sc_demo_key_def tbls_sign_def)

lemma sc_demo_char [simp]: "char_of (120::nat) = CHR ''x''"
  by code_simp

lemma sc_demo_request_hash: "ch_get_request_hash sc_demo \<lparr>cmd = cb_cmd sc_demo_block\<rparr> = ''x''"
  by (simp add: ch_get_request_hash_def get_hash_str_def sc_demo_block_def as_bytes_def)

theorem vote_forgets_request_witness:
  "\<exists>n' effs. run_handler (task_turn sc_demo (sc_ops sc_demo (\<lambda>_. []) [0])) sc_demo_node
        [EvGossip [1], EvChannel, EvChannel] = Some (n', effs) \<and>
     tn_request_buffer sc_demo_node = [''x''] \<and> tn_request_buffer n' = [] \<and> tn_request_buffer_map n' ''x'' = None"
proof -
  have n: "tn_executor sc_demo_node = sc_demo_executor" "tn_request_buffer sc_demo_node = [''x'']"
    "tn_request_buffer_map sc_demo_node = [''x'' \<mapsto> ([5], 0)]" "tn_channel sc_demo_node = []" "tn_main sc_demo_node = None"
    "g_block sc_demo_generic = Some sc_demo_block" "g_view_num sc_demo_generic = sc_view (scx_state sc_demo_executor)"
    by (simp_all add: sc_demo_node_def task_node_new_def sc_demo_generic_def sc_demo_executor_def)
  have codes: "sc_demo_encode \<lparr>sc_msg_type = ScGeneric g\<rparr> = [1]" "sc_demo_encode \<lparr>sc_msg_type = ScVote v\<rparr> = [2]"
    "sc_demo_encode \<lparr>sc_msg_type = sc_end_message sc_demo b\<rparr> = [3]" for g v b
    by (simp_all add: sc_demo_encode_def sc_end_message_def)
  have decoded: "sc_demo_decode [1] = Some \<lparr>sc_msg_type = ScGeneric sc_demo_generic\<rparr>"
    "sc_demo_decode [2] = Some \<lparr>sc_msg_type = ScVote (sc_own_vote sc_demo [0] sc_demo_key sc_demo_executor sc_demo_block)\<rparr>"
    "sc_demo_decode [3] = Some \<lparr>sc_msg_type = sc_end_message sc_demo sc_demo_block\<rparr>"
    by (simp_all add: sc_demo_decode_def sc_demo_own_vote sc_end_message_def sc_demo_request_hash)
  obtain n' effs where r: "run_handler (task_turn sc_demo (sc_ops sc_demo (\<lambda>_. []) [0])) sc_demo_node
        [EvGossip [1], EvChannel, EvChannel] = Some (n', effs)" "tn_request_buffer n' = []"
    and later: "\<forall>evs m outs. run_handler (task_turn sc_demo (sc_ops sc_demo (\<lambda>_. []) [0])) n' evs = Some (m, outs) \<longrightarrow>
      (\<forall>d. EvGossip d \<in> set evs \<longrightarrow> op_request (sc_ops sc_demo (\<lambda>_. []) [0]) d \<noteq> Some (Some ''x'')) \<longrightarrow>
      ''x'' \<notin> set (tn_request_buffer m) \<and> tn_request_buffer_map m ''x'' = None"
    using vote_forgets_request [of sc_demo "[0]" sc_demo_key sc_demo_node sc_demo_block sc_demo_generic "[]" "\<lambda>_. []"]
    by (auto simp: n codes decoded sc_demo_can_vote sc_demo_request_hash simp del: run_handler.simps)
  from later [rule_format, of "[]" n' "[]"] r n(2) show ?thesis by simp
qed

definition sc_demo_protocol :: ch_protocol where
  "sc_demo_protocol = (ch_default 0 0)
     \<lparr>ch_keypair := Some sc_demo_key, ch_consensus_node_pks := sc_get_public_key_info_by_peer_id sc_demo sc_demo_executor,
      ch_pk_consensus_nodes := scx_consensus_nodes sc_demo_executor,
      ch_st := ch_state_new\<lparr>ch_view := 1, current_leader := [0, 0], next_leader := [0, 0, 0]\<rparr>\<rparr>"

theorem standalone_decides_as_protocol_witness:
  "\<exists>x out acts q p ph. sc_handle_generic sc_demo [0] sc_demo_executor sc_demo_generic = Some (x, out, acts, q) \<and>
     handle_generic sc_demo sc_demo_protocol sc_demo_generic [0] = Some (p, ph) \<and> out \<noteq> [] \<and>
     sc_sim sc_demo x p \<and> executed_command ph = None"
proof -
  have sim: "sc_sim sc_demo sc_demo_executor sc_demo_protocol" "sc_same_view sc_demo_executor sc_demo_protocol"
    by (simp_all add: sc_sim_def sc_same_view_def sc_demo_protocol_def sc_demo_executor_def sc_executor_new_def
        sc_state_new_def ch_default_def ch_state_new_def)
  have g: "g_block sc_demo_generic = Some sc_demo_block" "g_view_num sc_demo_generic = sc_view (scx_state sc_demo_executor)"
    by (simp_all add: sc_demo_generic_def sc_demo_executor_def)
  from sc_handle_generic_votes [OF sc_demo_can_vote g] obtain x out where
    x: "sc_handle_generic sc_demo [0] sc_demo_executor sc_demo_generic = Some (x, out, [TimerStop], False)" "out \<noteq> []"
    by blast
  have "sc_get_public_key_info_by_peer_id sc_demo sc_demo_executor [0] = Some \<lparr>pki_number = 0, pki_public_key = []\<rparr>"
    by (simp add: sc_get_public_key_info_by_peer_id_def db_read_def sc_demo_executor_def sc_executor_new_def)
  then have "\<exists>p ph. handle_generic sc_demo sc_demo_protocol sc_demo_generic [0] = Some (p, ph)"
    by (simp add: handle_generic_def replica_handle_generic_def ch_cast_vote_def ch_file_own_vote_def ch_safe_node_def
        ch_next_view_def ch_change_leader_def sc_demo_protocol_def sc_demo_executor_def sc_demo_generic_def
        sc_demo_block_def ch_default_def ch_state_new_def u64_add_def u64_rem_def ch_phases_def Let_def)
  then obtain p ph where p: "handle_generic sc_demo sc_demo_protocol sc_demo_generic [0] = Some (p, ph)" by blast
  have "sc_sim sc_demo x p \<and> executed_command ph = snd (sc_phases sc_demo sc_demo_executor sc_demo_block)"
    using standalone_decides_as_protocol [OF sim _ g(1), of "[0]" x out "[TimerStop]" False p ph] x p
    by (simp add: sc_demo_executor_def)
  then show ?thesis using x p by (auto simp: sc_phases_def sc_demo_block_def)
qed

end
