(* ===== verification/Spec2Isabelle.thy ===== *)
theory Spec2Isabelle
  imports PBFT_Properties HotStuff_Properties Analyzer_Properties Controller_Properties Chain_Interface NonAuth_Properties
    NonTimeout_PBFT HB_Subset_Properties SA_PBFT_Properties SA_Node_Properties SA_Chain_Properties
begin

text \<open>
  BFTDiagnosis is a test bed for Byzantine fault tolerant consensus protocols. A \<^emph>\<open>controller\<close>
  node drives a list of test items; \<^emph>\<open>consensus nodes\<close> run a protocol behind the
  \<open>ProtocolBehaviour\<close> interface of \<open>components/src/behaviour.rs\<close>, called by the actuator of
  \<open>components/src/protocol_actuator.rs\<close>; an \<^emph>\<open>analyzer\<close> node receives the start and end data
  of every request, computes throughput, latency, scalability and security results and
  stores them in a database. The protocols live in \<open>protocols/src\<close>. This development models
  all of them (PBFT, PBFT without view changes, PBFT without authentication, basic and chained
  HotStuff), the actuator that runs them, the controller, the analyzer with its data warehouse, and the messages between them;
  the HoneyBadger protocol of \<open>consensus/src/honeybadger\<close>, which the repository holds beside its compiled crates;
  and the stand-alone PBFT and HotStuff programs of \<open>consensus/src\<close>.

  \<^bold>\<open>Modelling conventions.\<close> Every definition is executable and takes its state explicitly.
  A panic of the code (\<open>unwrap\<close>, \<open>expect\<close>, overflow of the checked arithmetic of the
  debug profile) is the value \<open>None\<close>; an early return that leaves a message unanswered is the value
  \<open>ContinueExecute []\<close>. Integers are words of the width of the source, with the checked
  operations \<open>u64_add\<close>, \<open>u64_sub\<close>, \<open>u64_mul\<close> of \<open>Prelude\<close>. Third-party functions
  (hash, bincode and JSON coding, EdDSA and threshold signatures, peer identifiers,
  database) are the fields of the records \<open>ext\<close>, \<open>pbft_ext\<close>, \<open>na_ext\<close>, \<open>hs_ext\<close>, \<open>ch_ext\<close>, \<open>msg_ext\<close>, \<open>json_ext\<close>,
  \<open>hb_ext\<close>, \<open>rb_ext\<close>, \<open>dw_ext\<close>, \<open>sa_ext\<close>, \<open>sh_ext\<close> and \<open>sc_ext\<close>, which the definitions take as their first argument; no law about them is built
  in, and the theorems that need one (for example that decoding inverts encoding, or that
  the hash does not collide) have it as a hypothesis, which their witnesses
  discharge at a concrete instance. Where the code iterates over a hash map the order of the
  iteration is an argument; a theorem quantifies over it or assumes that it
  enumerates the map; the records \<open>ctl_env\<close> and \<open>act_env\<close> collect the orders and the clock one
  turn of a component sees. Timers and network sends are traces of the datatype \<open>effect\<close> in
  the state.

  \<^bold>\<open>Shared theories.\<close>
  \<^item> \<open>Prelude\<close>: machine integers, the \<open>HashMap<K, Vec<V>>\<close> idiom, iteration orders, the
    simplification collections, and four interfaces as locales. \<open>bucket_store\<close> is what a log
    promises its protocol (recording appends to one bucket, a count is the length of a
    bucket); it is interpreted for the six message stores of the PBFT log, the two of the
    controller log and the new view store of HotStuff. \<open>invariant_handler\<close> is
    what a protocol promises the actuator (its handler keeps an invariant); it is
    interpreted for both protocols, for HoneyBadger's broadcast and subset and for the stand-alone PBFT node.
    \<open>evidence_handler\<close> is the
    same for an invariant that refers to the events handled so far, interpreted for HoneyBadger's
    broadcast and agreement. \<open>growing_handler\<close> lifts a preorder between states from one step to any run, interpreted for
    the executor and the node of stand-alone PBFT.
  \<^item> \<open>Framework_Messages\<close>, \<open>Interactive_Messages\<close>: \<open>components/src/message.rs\<close>, the node
    modes of \<open>protocol_actuator.rs\<close>, \<open>PhaseState\<close> and \<open>SendType\<close> of
    \<open>components/src/behaviour.rs\<close>, and the helpers of \<open>utils/src\<close> over third-party code.
  \<^item> \<open>Json_Parse\<close>: JSON values with serde_json's indexing and assignment, and
    \<open>map_into_string_tree\<close> of \<open>utils/src/parse.rs\<close>, which lists the fields of a message.
  \<^item> \<open>Rust_F64\<close>: the \<open>f64\<close> operations of the throughput computation, with the bound of one
    rounding (\<open>f64_round_close\<close>).

  \<^bold>\<open>PBFT\<close> (\<open>protocols/src/pbft\<close>).
  \<^item> \<open>PBFT_Messages\<close> (\<open>message.rs\<close>, \<open>common.rs\<close>), \<open>PBFT_State\<close> (\<open>state.rs\<close>, \<open>timer.rs\<close>),
    \<open>PBFT_Log\<close> (\<open>log.rs\<close>) and \<open>PBFT_Protocol\<close> (\<open>protocol.rs\<close>), one definition per function.
  \<^item> \<open>PBFT_Invariants\<close>: an elimination rule per handler (\<open>handle_prepare_cases\<close> and the
    like), the step relation \<open>pbft_step\<close> over deliveries and the invariants of its reachable
    states: what never changes, which keys are registered, and that every filed message carried a
    valid signature of its sender.
  \<^item> \<open>PBFT_Demo\<close>, \<open>PBFT_Properties\<close>: a concrete run, and the properties: prepare and commit certificates,
    completion of the normal case, behaviour of the view change and of
    checkpoints, counting in the log, and what the code lets through.

  \<^bold>\<open>Reduced PBFT\<close> (\<open>protocols/src/non_authenticated_pbft\<close>, \<open>protocols/src/non_viewchange_pbft\<close>).
  \<^item> \<open>NonAuth_PBFT\<close>: messages, keys, log and protocol without signatures. \<open>NonAuth_Properties\<close>: a
    simulation of PBFT on authenticated traffic, quorums made up by one sender, and the slot of every proposal.
  \<^item> \<open>NonTimeout_PBFT\<close>: the protocol object and every handler of this module (its message types, log and
    helpers are textual copies of PBFT's and shared), a simulation of PBFT on sequences without view changes, and
    that the view stays the same in every execution.

  \<^bold>\<open>Basic HotStuff\<close> (\<open>protocols/src/basic_hotstuff\<close>).
  \<^item> \<open>HotStuff_Messages\<close> (\<open>message.rs\<close>, \<open>common.rs\<close> and
    \<open>utils/src/crypto/threshold_blsttc.rs\<close>) and \<open>HotStuff_Protocol\<close> (\<open>state.rs\<close>, \<open>log.rs\<close>,
    \<open>protocol.rs\<close>).
  \<^item> \<open>HotStuff_Invariants\<close>: elimination rules, the relation \<open>hs_step\<close> and the invariants of
    certificates, shares, views and locks.
  \<^item> \<open>HotStuff_Properties\<close>: how certificates are formed from a quorum of distinct voters and
    that two of them share a voter, the progress of a quorum through the phases, the
    voting rule, monotone views and locks, leader agreement, timeouts, and what the code lets through.

  \<^bold>\<open>Chained HotStuff\<close> (\<open>protocols/src/chain_hotstuff\<close>).
  \<^item> \<open>Chain_HotStuff\<close>: messages, hashes, state, log and protocol, one definition per function; the pre-commit,
    commit and decide phases of \<open>replica_handle_generic\<close> are \<open>ch_phases\<close>.
  \<^item> \<open>Chain_Properties\<close>: when blocks are locked and executed, voting once per view, that in a round
    without timeouts the certificate of a block is there before the next proposal, and what unverified
    certificates can do.
  \<^item> \<open>Chain_Interface\<close>: the protocol as an instance of the actuator's interface, its invariant in
    every execution, and how many shares make a certificate.

  \<^bold>\<open>HoneyBadger\<close> (\<open>consensus/src/honeybadger\<close>). A proposal of a node is spread by a reliable broadcast and
  accepted or rejected by a binary agreement; the common subset runs one pair of these per proposer.
  \<^item> \<open>HB_Merkle\<close> (\<open>reliable_broadcast/merkle.rs\<close>): trees and proofs, with the round trip and the
    soundness of a proof.
  \<^item> \<open>HB_Bool_Set\<close> (\<open>binary_agreement/bool_set.rs\<close>): the byte that is a set of truth values, its refinement of the
    abstract set, and the locale \<open>bool_set\<close> with the laws the agreement uses.
  \<^item> \<open>HB_Network\<close> (\<open>network.rs\<close>, \<open>threshold_sign.rs\<close>): node information and the threshold signature of
    the coin, and that a signature needs a quorum of checked shares.
  \<^item> \<open>HB_Agreement\<close> (\<open>binary_agreement/mod.rs\<close>, \<open>ba_broadcast.rs\<close>, \<open>binary_agreement.rs\<close>) and
    \<open>HB_Agreement_Properties\<close>: agreement of correct nodes, the evidence of a decision, progress when all
    hear the same value, and what happens after the first epoch.
  \<^item> \<open>HB_Broadcast\<close> (\<open>reliable_broadcast/broadcast.rs\<close>, \<open>message.rs\<close>) and \<open>HB_Broadcast_Properties\<close>: framing and
    decoding, one \<open>Ready\<close> per proposer, the quorums behind a delivery, and echoes made up by one peer.
  \<^item> \<open>HB_Subset\<close> (\<open>subset/*.rs\<close>, \<open>node.rs\<close>) and \<open>HB_Subset_Properties\<close>: the state of a proposal across broadcast and
    agreement, when it completes and when it cannot, and the independence of the proposals.

  \<^bold>\<open>Stand-alone programs\<close> (\<open>consensus/src/pbft\<close>, \<open>consensus/src/basic_hotstuff\<close>,
  \<open>consensus/src/chain_hotstuff\<close>). Each node is an executor, which handles messages and puts its answers into a channel
  of ten places, and an event loop in the same task, which empties the channel into the network. Structs, hashes and logs
  whose code is that of the pluggable protocol are taken from there.
  \<^item> \<open>Level_DB\<close> (\<open>storage/src/database.rs\<close>) and \<open>SA_Common\<close>: the database of public keys, the effects on the network, the
    capacity of the channel and the peers known through mDNS.
  \<^item> \<open>SA_PBFT_Messages\<close> (\<open>message.rs\<close>, \<open>common.rs\<close>), \<open>SA_PBFT_Log\<close> (\<open>state.rs\<close>, \<open>log.rs\<close>), \<open>SA_PBFT\<close> (\<open>executor.rs\<close>) and
    \<open>SA_PBFT_Node\<close> (\<open>node.rs\<close>, \<open>controller_node.rs\<close>), one definition per function.
  \<^item> \<open>SA_PBFT_Invariants\<close>, \<open>SA_PBFT_Properties\<close>: what no handler changes and what only grows; the commit of the first
    request, why later ones are ignored, the view change that panics or never ends, stored keys, the
    full channel and the client's count of replies.
  \<^item> \<open>SA_Node\<close> (\<open>node.rs\<close> and the tasks of \<open>executor.rs\<close>, the same code in both HotStuff programs): the event loop with the
    buffer of requests, the proposal task and the view timers, which share the mode behind a mutex, as the step
    function \<open>task_step\<close> over any executor (\<open>node_ops\<close>). A step is one critical section, so that every interleaving is a
    list of steps. \<open>SA_Node_Properties\<close>: when a request in the buffer is proposed, and how the count of requests can be lost.
  \<^item> \<open>SA_HotStuff\<close> with \<open>SA_HotStuff_Properties\<close>, and \<open>SA_Chain\<close> with \<open>SA_Chain_Properties\<close>: the two executors as
    instances of \<open>node_ops\<close>; which votes a leader needs; that the chained executor decides as the pluggable protocol does; and
    when a node forgets a request.

  \<^bold>\<open>Analyzer\<close> (\<open>components/src/analyzer\<close>).
  \<^item> \<open>Data_Warehouse\<close> (\<open>data_warehouse.rs\<close>) and \<open>Analyzer\<close> (\<open>analyzer.rs\<close>: handlers and
    \<open>analyzer_turn\<close>, one turn of the \<open>select!\<close> loop). The statements executed by
    the database are a trace; the rows that a query returns are an argument.
  \<^item> \<open>Warehouse_Properties\<close>: counting and reporting of throughput (once per round for any
    row insertion that satisfies the locale \<open>row_insert\<close>, interpreted for the two
    insertions of the code), its accuracy as a real number, latency, security results, and
    that the paging loop of the printers ends having printed every row.
  \<^item> \<open>Analyzer_Properties\<close>: configuring a test and reporting its completion.

  \<^bold>\<open>Controller\<close> (\<open>components/src/controller\<close>).
  \<^item> \<open>Controller\<close> (\<open>config.rs\<close>, \<open>controller.rs\<close>): configuration, the list of test items, the
    choice of the next test, the handlers and \<open>ctl_turn\<close>, one turn of the \<open>select!\<close> loop.
  \<^item> \<open>Controller_Properties\<close>: the invariant of every turn, the order in which the tests are run, the
    rounds of the crash test and when the series of an item ends, and the barriers that wait for all nodes.

  \<^bold>\<open>Protocol actuator\<close> (\<open>components/src/protocol_actuator.rs\<close>).
  \<^item> \<open>Actuator\<close>: the trait \<open>ProtocolBehaviour\<close> as the record \<open>protocol_behaviour\<close>, the state, the
    handlers, the two event loops and the step relation \<open>act_step\<close>, in which timers and the state
    check task interleave with the loops. A notification object is a permit in the set \<open>permits\<close>.
  \<^item> \<open>Actuator_Interface\<close>: the locale \<open>protocol_contract\<close>, what the actuator relies on of a
    protocol and that it keeps the protocol's invariant in every execution; its
    interpretations for \<open>pbft_behaviour\<close> and \<open>hs_behaviour\<close> with the reachable states of the protocols as
    invariants (those for \<open>chain_behaviour\<close>, \<open>nonauth_behaviour\<close> and \<open>nontimeout_behaviour\<close> are with these protocols).
  \<^item> \<open>Actuator_Properties\<close>: the protocols inside the actuator, what an honest node sends, what the
    dishonest modes change, the corruption of messages, proposing requests and stopping.

  \<^bold>\<open>The components together.\<close> This theory ends with the flows between components: configuring
  a node, resetting all nodes, the report of a completed request to the analyzer, and the end of a
  test at the controller.

  \<^bold>\<open>Loops and bounds.\<close> All loops run over lists and are structural, except the following, which
  have their termination proofs: \<open>configure_consensus_node\<close> of the controller calls itself with one test item less;
  the loops over the levels of a Merkle tree halve its size; the iterator of a boolean set clears a bit;
  the mutual calls of the threshold signature set one of two flags. And
  the paging loop \<open>print_pages\<close> asks the database until a page has fewer than a hundred
  rows; it is a \<open>partial_function\<close>, and \<open>print_results_complete\<close> proves that it returns for
  every finite table. No fuel is used.

  \<^bold>\<open>Not modelled.\<close> The libp2p swarm, the tokio scheduler, the terminal interface, the MySQL
  server and logging; the Reed-Solomon code and the threshold cryptography, which are third-party. Timers have no
  durations: a timer that is waiting may run out at any step. I/O errors of the key-value database are not modelled.
  \<open>protocols/src/pbft/protocol_pbft.rs\<close> is not part of the compiled crates; the crates \<open>network\<close>,
  \<open>cli\<close> and \<open>storage\<close> (MySQL) wrap third-party libraries, and \<open>components/src/example_consensus_node\<close> is a demonstration.
\<close>

subsection \<open>The components together\<close>

text \<open>
  The handshake of a node's mode: a node outside a test that is ordered a new mode adopts it and answers,
  and what the controller does on that answer is to count the node under exactly
  that mode.
\<close>
theorem mode_handshake:
  assumes "decodes E \<lparr>interactive = ConsensusNodeMode md, source = src\<rparr>"
    and "decodes E \<lparr>interactive = ConsensusNodeModeSuccess md, source = []\<rparr>"
    and "peer_from_bytes E (peer_to_bytes E (ct_id c)) = Some (ct_id c)"
    and "peer_from_bytes E (peer_to_bytes E (ac_id a)) = Some (ac_id a)"
    and "ac_controller_id a = Some (ct_id c)" "ac_id a \<in> waiting_consensus_nodes c"
    and "peer_to_string E (ct_analyzer_id c) \<noteq> peer_to_string E (ac_id a)" "ac_mode a \<noteq> md" "\<not> in_loop a"
  shows "\<exists>a' reply. act_turn E B R (ActUnicast (peer_to_bytes E (ct_id c))
       (bincode_message E \<lparr>interactive = ConsensusNodeMode md, source = src\<rparr>)) a = Some a' \<and>
     ac_mode a' = md \<and> ac_effects a' = ac_effects a @ [Subscribe ''Consensus'', SendMessage (ct_id c) reply] \<and>
     ctl_turn E Rc c (CtlUnicastReceived (peer_to_bytes E (ac_id a)) reply) = node_mode_success E Rc c (ac_id a) md"
  using assms by (auto simp: act_turn_def decodes_def tell_controller_def)

text \<open>
  A running consensus node that the controller can reset: it is in a test, honest or dishonest but not crashed, it knows
  the controller and the analyzer, the controller knows it, and its answer is decoded as it was encoded.
\<close>

definition resettable :: "'a json_ext_scheme \<Rightarrow> controller \<Rightarrow> 'p actuator \<Rightarrow> bool" where
  "resettable E c a \<longleftrightarrow> in_loop a \<and> running_mode (ac_mode a) \<and> ac_controller_id a = Some (ct_id c) \<and>
     ac_analyzer_id a \<noteq> None \<and> ac_id a \<in> controller.consensus_nodes c \<and>
     peer_from_bytes E (peer_to_bytes E (ac_id a)) = Some (ac_id a) \<and>
     peer_to_string E (ct_analyzer_id c) \<noteq> peer_to_string E (ac_id a) \<and>
     decodes E \<lparr>interactive = ResetSuccess (ac_mode a), source = []\<rparr>"

definition reset_answer :: "'a json_ext_scheme \<Rightarrow> 'p actuator \<Rightarrow> bytes" where
  "reset_answer E a = bincode_message E \<lparr>interactive = ResetSuccess (ac_mode a), source = []\<rparr>"

primrec ctl_run :: "'a json_ext_scheme \<Rightarrow> ctl_env \<Rightarrow> ctl_event list \<Rightarrow> controller \<Rightarrow> controller option" where
  "ctl_run E R [] c = Some c"
| "ctl_run E R (e # es) c = Option.bind (ctl_turn E R c e) (ctl_run E R es)"

lemma ctl_run_append: "ctl_run E R (xs @ ys) c = Option.bind (ctl_run E R xs c) (ctl_run E R ys)"
  by (induction xs arbitrary: c) (auto split: bind_splits)

definition answer_event :: "'a json_ext_scheme \<Rightarrow> 'p actuator \<Rightarrow> ctl_event" where
  "answer_event E a = CtlUnicastReceived (peer_to_bytes E (ac_id a)) (reset_answer E a)"

lemma node_resets:
  assumes "resettable E c a" and "peer_from_bytes E (peer_to_bytes E (ct_id c)) = Some (ct_id c)"
    and "decodes E \<lparr>interactive = Reset n, source = []\<rparr>"
  shows "\<exists>a'. act_run E B R [ActUnicast (peer_to_bytes E (ct_id c))
         (bincode_message E \<lparr>interactive = Reset n, source = []\<rparr>), ActNotified ProtocolStopNotify] a = Some a' \<and>
     \<not> in_loop a' \<and> request_buffer a' = Map.empty \<and> \<not> malicious_flag a' \<and> ac_mode a' = ac_mode a \<and>
     protocol a' = protocol a \<and> ac_effects a' = ac_effects a @ [SendMessage (ct_id c) (reset_answer E a)]"
  using assms
  by (auto simp: resettable_def decodes_def act_turn_def verify_initialization_def act_notify_def act_reset_def
      tell_controller_def reset_answer_def)

lemma controller_hears:
  "resettable E c a \<Longrightarrow> controller.consensus_nodes d = controller.consensus_nodes c \<Longrightarrow> ct_analyzer_id d = ct_analyzer_id c \<Longrightarrow>
   ctl_turn E R d (answer_event E a) = reset_success E R d (ac_id a) (ac_mode a)"
  by (auto simp: resettable_def decodes_def answer_event_def reset_answer_def)

lemma controller_counts:
  assumes "\<forall>a \<in> set as. resettable E c a" and "reset_success_count d = 0" "crash_reset_success_count d = 0"
    and "card (controller.consensus_nodes c) = length as" "as \<noteq> []" "length as < 2 ^ 16"
    and d: "controller.consensus_nodes d = controller.consensus_nodes c" "ct_analyzer_id d = ct_analyzer_id c"
  shows "j < length as \<Longrightarrow> ctl_run E R (map (answer_event E) (take j as)) d = Some (d\<lparr>reset_success_count := of_nat j\<rparr>)"
    and "ctl_run E R (map (answer_event E) as) d =
      ctl_next_test E R (d\<lparr>reset_success_count := 0, crash_reset_success_count := 0\<rparr>)"
proof -
  let ?rs = "map (\<lambda>a. (ac_id a, ac_mode a)) as"
  have "\<forall>r \<in> set ?rs. running_mode (snd r)" using assms(1) by (auto simp: resettable_def)
  from reset_barrier [OF this assms(2), of E R] assms d have
    pre: "\<forall>j < length as. reset_replies E R (take j ?rs) d = Some (d\<lparr>reset_success_count := of_nat j\<rparr>)"
    and all: "reset_replies E R ?rs d = ctl_next_test E R (d\<lparr>reset_success_count := 0, crash_reset_success_count := 0\<rparr>)"
    by auto
  have app: "reset_replies E R (xs @ ys) e = Option.bind (reset_replies E R xs e) (reset_replies E R ys)" for xs ys e
    by (induction xs arbitrary: e) (auto split: bind_splits)
  have same: "j \<le> length as \<Longrightarrow> ctl_run E R (map (answer_event E) (take j as)) d = reset_replies E R (take j ?rs) d" for j
  proof (induction j)
    case (Suc j)
    then have j: "j < length as" by simp
    with pre have "reset_replies E R (take j ?rs) d = Some (d\<lparr>reset_success_count := of_nat j\<rparr>)" by blast
    moreover have "ctl_turn E R (d\<lparr>reset_success_count := of_nat j\<rparr>) (answer_event E (as ! j)) =
        reset_success E R (d\<lparr>reset_success_count := of_nat j\<rparr>) (ac_id (as ! j)) (ac_mode (as ! j))"
      by (rule controller_hears [where c = c]) (use assms(1) d j in simp_all)
    moreover have "ctl_run E R [e] x = ctl_turn E R x e" for e x by (cases "ctl_turn E R x e") simp_all
    ultimately show ?case
      using Suc.IH j by (simp add: take_Suc_conv_app_nth ctl_run_append app reset_replies_Nil del: ctl_run.simps)
  qed simp
  from same pre show "j < length as \<Longrightarrow> ctl_run E R (map (answer_event E) (take j as)) d = Some (d\<lparr>reset_success_count := of_nat j\<rparr>)"
    by simp
  from same [of "length as"] all show "ctl_run E R (map (answer_event E) as) d =
      ctl_next_test E R (d\<lparr>reset_success_count := 0, crash_reset_success_count := 0\<rparr>)" by simp
qed

text \<open>
  C39. The reset between two tests, across the system. Let all consensus nodes of the controller be running (honest or
  dishonest, none crashed) and its reset counters be zero. The controller sends each of them the same reset message.
  A node that receives it and its own stop notification leaves the test with an empty buffer and without acting
  maliciously, keeps its mode and its protocol state, and sends one answer to the controller. The controller does
  nothing but count the answers, in any order of the nodes, until the last one, on which it goes on to the next test
  with the counters cleared.
\<close>
theorem reset_handshake:
  assumes nodes: "\<forall>a \<in> set as. resettable E c a" "set (map ac_id as) = controller.consensus_nodes c" "distinct (map ac_id as)"
    and some: "as \<noteq> []" "length as < 2 ^ 16"
    and zero: "reset_success_count c = 0" "crash_reset_success_count c = 0"
    and peer: "peer_from_bytes E (peer_to_bytes E (ct_id c)) = Some (ct_id c)"
    and code: "decodes E \<lparr>interactive = Reset (timestamp Rc c), source = []\<rparr>"
  shows "\<exists>d msg. reset_consensus_node E Rc c = Some d \<and>
     ct_effects d = ct_effects c @ map (\<lambda>p. SendMessage p msg) (ord_consensus Rc (controller.consensus_nodes c)) \<and>
     (\<forall>a \<in> set as. \<exists>a'. act_run E B (R a) [ActUnicast (peer_to_bytes E (ct_id c)) msg, ActNotified ProtocolStopNotify] a = Some a' \<and>
        \<not> in_loop a' \<and> request_buffer a' = Map.empty \<and> \<not> malicious_flag a' \<and> ac_mode a' = ac_mode a \<and>
        protocol a' = protocol a \<and> ac_effects a' = ac_effects a @ [SendMessage (ct_id c) (reset_answer E a)]) \<and>
     (\<forall>j < length as. ctl_run E Rc (map (answer_event E) (take j as)) d = Some (d\<lparr>reset_success_count := of_nat j\<rparr>)) \<and>
     ctl_run E Rc (map (answer_event E) as) d =
       ctl_next_test E Rc (d\<lparr>reset_success_count := 0, crash_reset_success_count := 0\<rparr>)"
proof -
  let ?m = "\<lparr>interactive = Reset (timestamp Rc c), source = []\<rparr>"
  let ?d = "send_all E (ord_consensus Rc (controller.consensus_nodes c)) ?m c"
  have card: "card (controller.consensus_nodes c) = length as"
    using nodes(2,3) distinct_card [of "map ac_id as"] by simp
  then have "(of_nat (card (controller.consensus_nodes c)) :: u16) \<noteq> 0"
    using some by (simp add: word_of_nat_eq_0_iff nat_dvd_not_less)
  then have "reset_consensus_node E Rc c = Some ?d"
    using zero by (simp add: reset_consensus_node_def need_reset_def)
  moreover have "ct_effects ?d = ct_effects c @
      map (\<lambda>p. SendMessage p (bincode_message E ?m)) (ord_consensus Rc (controller.consensus_nodes c))"
    by (simp add: effects_send_all)
  ultimately show ?thesis
    using node_resets [OF _ peer code, of _ B] nodes(1) controller_counts [OF nodes(1), where d = ?d and R = Rc] zero card some
    by (intro exI [of _ ?d] exI [of _ "bincode_message E ?m"] conjI) (simp_all del: act_run.simps ctl_run.simps)
qed

text \<open>
  C40. A measurement, from the protocol to the analyzer's tables. When the protocol of an honest node completes a request,
  by \<open>Complete\<close> or by \<open>Over\<close>, the last thing the node sends is one message to the analyzer, after the messages of
  the protocol, and the request, no other, leaves its buffer. On that message the analyzer enters the end datum, with the
  request and the node's clock at the moment of sending, under the node and the request into each of its three tables of
  end data (throughput, latency, scalability), and changes nothing else.
\<close>
theorem completion_reaches_analyzer:
  fixes R :: "'i act_env"
  assumes same: "same_coding E D" and honest: "\<not> malicious_flag a" "phases_known B (protocol a) (sends ps)"
    and complete: "completed ps = Some r"
    and an: "ac_analyzer_id a = Some (an_id z)"
    and data: "\<And>t. decodes_data E (ConsensusEndData \<lparr>end_request = r, completed_time = t\<rparr>)"
    and peer: "peer_from_bytes E (peer_to_bytes E (ac_id a)) = Some (ac_id a)"
    and nodes: "connected_nodes z (peer_to_string E (ac_id a)) \<noteq> None"
      "peer_to_string E (controller_id z) \<noteq> peer_to_string E (ac_id a)"
  defines "e \<equiv> \<lparr>end_request = r, completed_time = act_clock R (length (ac_effects a @ concat (map wire (sends ps))))\<rparr>"
    and "k \<equiv> (ac_id a, get_request_hash D r)" and "w \<equiv> warehouse z"
  shows "\<exists>a' msg. check_protocol_phase_state E B R ps a = Some a' \<and>
     ac_effects a' = ac_effects a @ concat (map wire (sends ps)) @ [SendMessage (an_id z) msg] \<and>
     request_buffer a' = (request_buffer a)(get_request_hash E r := None) \<and>
     analyzer_turn D ord crash_order z (UnicastReceived (peer_to_bytes E (ac_id a)) msg) =
       Some (z\<lparr>warehouse := w\<lparr>t_end_data := (t_end_data w)(k \<mapsto> e), l_end_data := (l_end_data w)(k \<mapsto> e),
         s_end_data := (s_end_data w)(k \<mapsto> e)\<rparr>\<rparr>)"
  using same_codingD [OF same] data [of "completed_time e"] peer nodes complete
  by (simp add: honest_node_delivers [OF honest an] decodes_data_def store_consensus_end_data_def Let_def
      e_def k_def w_def)

text \<open>
  The end of a test: when the completion timer of the analyzer fires, its message makes the
  controller choose the next test of the series and reset the nodes.
\<close>
theorem completion_reaches_controller:
  assumes same: "same_coding E D"
    and turn: "analyzer_turn D ord crash_order z CompletedNotified = Some z'" "current_test_item z = Some item"
    and code: "decodes E \<lparr>interactive = CompletedTest item, source = peer_to_bytes E (an_id z)\<rparr>"
    and peer: "peer_from_bytes E (peer_to_bytes E (an_id z)) = Some (an_id z)" "ct_analyzer_id c = an_id z"
  shows "\<exists>msg. effects z' = effects z @ [SendMessage (controller_id z) msg] \<and> current_test_item z' = None \<and>
     ctl_turn E R c (CtlUnicastReceived (peer_to_bytes E (an_id z)) msg) =
       Option.bind (completed_test c item) (reset_consensus_node E R)"
proof -
  from turn(1) obtain z1 where "compute_and_analyse D ord z = Some z1" and z': "next_test D z1 = Some z'"
    by (auto simp: bind_eq_Some_conv)
  from compute_and_analyse_frame [OF this(1)] obtain w where "z1 = z\<lparr>warehouse := w\<rparr>" by blast
  with z' turn(2) same_codingD [OF same] code peer show ?thesis
    by (auto simp: next_test_def decodes_def clear_test_item_def id_bytes_def)
qed

subsection \<open>A concrete system\<close>

text \<open>
  Controller \<open>[5]\<close>, analyzer \<open>[7]\<close> and the HotStuff node \<open>[1]\<close>, with a coding that is exact on the messages of the
  four flows.
\<close>

definition sys_demo_ext :: json_ext where
  "sys_demo_ext = act_demo_ext\<lparr>
     bincode_message := (\<lambda>m. case interactive m of
         ConsensusNodeMode _ \<Rightarrow> [1] | ConsensusNodeModeSuccess _ \<Rightarrow> [2] | Reset _ \<Rightarrow> [3] | ResetSuccess _ \<Rightarrow> [4] | _ \<Rightarrow> [5]),
     from_bincode_message := (\<lambda>b. Some (
       if b = [1] then \<lparr>interactive = ConsensusNodeMode (ModeCrash 9), source = [5]\<rparr>
       else if b = [2] then \<lparr>interactive = ConsensusNodeModeSuccess (ModeCrash 9), source = []\<rparr>
       else if b = [3] then \<lparr>interactive = Reset 0, source = []\<rparr>
       else if b = [4] then \<lparr>interactive = ResetSuccess (ModeHonest First), source = []\<rparr>
       else \<lparr>interactive = CompletedTest (Crash 1 2), source = [7]\<rparr>)),
     json_consensus_data := (\<lambda>d. case d of ConsensusEndData e \<Rightarrow> replicate (unat (completed_time e)) 0 | _ \<Rightarrow> []),
     from_json_consensus_data := (\<lambda>b. Some (ConsensusEndData \<lparr>end_request = \<lparr>cmd = ''x''\<rparr>, completed_time = of_nat (length b)\<rparr>))\<rparr>"

definition sys_demo_dw :: dw_ext where
  "sys_demo_dw = msg_ext.extend (msg_ext.truncate sys_demo_ext) (dw_ext.fields (\<lambda>t s. True) (\<lambda>_ _ _. None) (\<lambda>_ _ _. None)
     (\<lambda>_. None) (\<lambda>_ _ _ _. None) (\<lambda>_ _ _ _. None))"

definition sys_demo_controller :: controller where
  "sys_demo_controller = (controller_new [5] [7] [8] [8] [8] 10)\<lparr>waiting_consensus_nodes := {[1]}, controller.consensus_nodes := {[1]}\<rparr>"

definition sys_demo_analyzer :: analyzer where
  "sys_demo_analyzer = (analyzer_new [7] [5] 5000 1000 6000 7000)\<lparr>connected_nodes := [chars [1] \<mapsto> [1]],
     current_test_item := Some (Crash 1 2)\<rparr>"

definition sys_demo_node :: "consensus_node_mode \<Rightarrow> hs_protocol actuator" where
  "sys_demo_node md = (act_demo_node md)\<lparr>ac_analyzer_id := Some [7], malicious_flag := False\<rparr>"

lemma sys_demo_same: "same_coding sys_demo_ext sys_demo_dw"
  by (simp add: same_coding_def sys_demo_dw_def msg_ext.defs)

lemma sys_demo_fields [simp]:
  "peer_from_bytes sys_demo_ext = Some" "peer_to_bytes sys_demo_ext = (\<lambda>p. p)" "peer_to_string sys_demo_ext = chars"
  "ct_id sys_demo_controller = [5]" "ct_analyzer_id sys_demo_controller = [7]"
  "waiting_consensus_nodes sys_demo_controller = {[1]}" "controller.consensus_nodes sys_demo_controller = {[1]}"
  "an_id sys_demo_analyzer = [7]" "controller_id sys_demo_analyzer = [5]" "current_test_item sys_demo_analyzer = Some (Crash 1 2)"
  "connected_nodes sys_demo_analyzer = [chars [1] \<mapsto> [1]]"
  "ac_id (sys_demo_node md) = [1]" "ac_controller_id (sys_demo_node md) = Some [5]" "ac_analyzer_id (sys_demo_node md) = Some [7]"
  "ac_mode (sys_demo_node md) = md" "\<not> in_loop (sys_demo_node md)" "\<not> malicious_flag (sys_demo_node md)"
  by (simp_all add: sys_demo_ext_def act_demo_ext_def sys_demo_controller_def controller_new_def
      sys_demo_analyzer_def analyzer_new_def sys_demo_node_def)

lemma sys_demo_decodes:
  "decodes sys_demo_ext \<lparr>interactive = ConsensusNodeMode (ModeCrash 9), source = [5]\<rparr>"
  "decodes sys_demo_ext \<lparr>interactive = ConsensusNodeModeSuccess (ModeCrash 9), source = []\<rparr>"
  "decodes sys_demo_ext \<lparr>interactive = Reset 0, source = []\<rparr>"
  "decodes sys_demo_ext \<lparr>interactive = ResetSuccess (ModeHonest First), source = []\<rparr>"
  "decodes sys_demo_ext \<lparr>interactive = CompletedTest (Crash 1 2), source = [7]\<rparr>"
  "decodes_data sys_demo_ext (ConsensusEndData \<lparr>end_request = \<lparr>cmd = ''x''\<rparr>, completed_time = t\<rparr>)"
  by (simp_all add: decodes_def decodes_data_def sys_demo_ext_def)

theorem mode_handshake_witness:
  "\<exists>a' reply. act_turn sys_demo_ext (hs_behaviour hs_demo) (act_demo_env act_demo_choice)
      (ActUnicast [5] (bincode_message sys_demo_ext \<lparr>interactive = ConsensusNodeMode (ModeCrash 9), source = [5]\<rparr>))
      (sys_demo_node (ModeHonest First)) = Some a' \<and> ac_mode a' = ModeCrash 9 \<and>
    ctl_turn sys_demo_ext ctl_demo_env sys_demo_controller (CtlUnicastReceived [1] reply) =
      node_mode_success sys_demo_ext ctl_demo_env sys_demo_controller [1] (ModeCrash 9)"
  using mode_handshake [OF sys_demo_decodes(1,2), of sys_demo_controller "sys_demo_node (ModeHonest First)"
      "hs_behaviour hs_demo" "act_demo_env act_demo_choice" ctl_demo_env]
  by (auto simp: chars_inject)

theorem reset_handshake_witness:
  "\<exists>d. reset_consensus_node sys_demo_ext ctl_demo_env sys_demo_controller = Some d \<and>
    ctl_run sys_demo_ext ctl_demo_env [answer_event sys_demo_ext ((sys_demo_node (ModeHonest First))\<lparr>in_loop := True\<rparr>)] d =
      ctl_next_test sys_demo_ext ctl_demo_env (d\<lparr>reset_success_count := 0, crash_reset_success_count := 0\<rparr>)"
proof -
  let ?a = "(sys_demo_node (ModeHonest First))\<lparr>in_loop := True\<rparr>"
  have "resettable sys_demo_ext sys_demo_controller ?a"
    using sys_demo_decodes(4) by (simp add: resettable_def running_mode_def chars_inject)
  moreover have "timestamp ctl_demo_env sys_demo_controller = 0" "reset_success_count sys_demo_controller = 0"
    "crash_reset_success_count sys_demo_controller = 0"
    by (simp_all add: timestamp_def ctl_demo_env_def sys_demo_controller_def controller_new_def)
  ultimately show ?thesis
    using reset_handshake [of "[?a]" sys_demo_ext sys_demo_controller ctl_demo_env "hs_behaviour hs_demo"
        "\<lambda>_. act_demo_env act_demo_choice"] sys_demo_decodes(3)
    by (auto simp del: ctl_run.simps act_run.simps)
qed

theorem completion_reaches_analyzer_witness:
  "\<exists>a' msg w. check_protocol_phase_state sys_demo_ext (hs_behaviour hs_demo) (act_demo_env act_demo_choice)
      (Complete \<lparr>cmd = ''x''\<rparr> [Broadcast [1]]) (sys_demo_node (ModeHonest First)) = Some a' \<and>
    analyzer_turn sys_demo_dw \<lparr>o_t_ends = [], o_peers = [], o_l_ends = [], o_s_ends = []\<rparr> [] sys_demo_analyzer
      (UnicastReceived [1] msg) = Some (sys_demo_analyzer\<lparr>warehouse := w\<rparr>) \<and>
    s_end_data w ([1], get_request_hash sys_demo_dw \<lparr>cmd = ''x''\<rparr>) \<noteq> None"
  using completion_reaches_analyzer [OF sys_demo_same, where a = "sys_demo_node (ModeHonest First)" and B = "hs_behaviour hs_demo"
      and ps = "Complete \<lparr>cmd = ''x''\<rparr> [Broadcast [1]]" and r = "\<lparr>cmd = ''x''\<rparr>" and z = sys_demo_analyzer
      and R = "act_demo_env act_demo_choice" and crash_order = "[]"
      and ord = "\<lparr>o_t_ends = [], o_peers = [], o_l_ends = [], o_s_ends = []\<rparr>"] sys_demo_decodes(6)
  by (fastforce simp: phases_known_def chars_inject simp del: analyzer_turn.simps check_protocol_phase_state.simps)

theorem completion_reaches_controller_witness:
  "\<exists>z' msg. analyzer_turn sys_demo_dw \<lparr>o_t_ends = [], o_peers = [], o_l_ends = [], o_s_ends = []\<rparr> [] sys_demo_analyzer
      CompletedNotified = Some z' \<and>
    ctl_turn sys_demo_ext ctl_demo_env sys_demo_controller (CtlUnicastReceived [7] msg) =
      Option.bind (completed_test sys_demo_controller (Crash 1 2)) (reset_consensus_node sys_demo_ext ctl_demo_env)"
proof -
  let ?ord = "\<lparr>o_t_ends = [], o_peers = [], o_l_ends = [], o_s_ends = []\<rparr>"
  obtain z' where "analyzer_turn sys_demo_dw ?ord [] sys_demo_analyzer CompletedNotified = Some z'"
    by (simp add: compute_and_analyse_def next_test_def Let_def)
  from completion_reaches_controller [OF sys_demo_same this, of "Crash 1 2" sys_demo_controller ctl_demo_env] this sys_demo_decodes(5)
  show ?thesis by (auto simp del: analyzer_turn.simps ctl_turn.simps)
qed

end
